(* ===== verification/Prelude.thy ===== *)
theory Prelude
  imports Main
begin

text \<open>
  What every component of the model shares: results with an error alternative (a raised
  exception of the source is an \<open>Inl\<close>, a returned value an \<open>Inr\<close>), guards that fail with
  the first error of a list of checks (the shape of a validator and of a denial ladder in the
  source), traversals that stop at the first error, and generic facts about lists and
  association lists.  The collections \<open>result_simps\<close> and \<open>result_splits\<close> carry the facts
  the component proofs pass to the simplifier.
\<close>

named_theorems result_simps "inversion of results with an error alternative"
named_theorems guard_simps "evaluation of ladders of checks"
named_theorems model_defs "definitions unfolded together by a component's proofs"

section \<open>Results with an error alternative\<close>

definition try_bind :: "'e + 'a \<Rightarrow> ('a \<Rightarrow> 'e + 'b) \<Rightarrow> 'e + 'b" where
  "try_bind r f = (case r of Inl e \<Rightarrow> Inl e | Inr a \<Rightarrow> f a)"

lemma try_bind_Inl [simp]: "try_bind (Inl e) f = Inl e"
  by (simp add: try_bind_def)

lemma try_bind_Inr [simp]: "try_bind (Inr a) f = f a"
  by (simp add: try_bind_def)

lemma try_bind_eq_Inr [result_simps]:
  "try_bind r f = Inr b \<longleftrightarrow> (\<exists>a. r = Inr a \<and> f a = Inr b)"
  by (cases r) auto

lemma try_bind_eq_Inl [result_simps]:
  "try_bind r f = Inl e \<longleftrightarrow> r = Inl e \<or> (\<exists>a. r = Inr a \<and> f a = Inl e)"
  by (cases r) auto

definition is_error :: "'e + 'a \<Rightarrow> bool" where
  "is_error r = (case r of Inl _ \<Rightarrow> True | Inr _ \<Rightarrow> False)"

lemma is_error_simps [simp]: "is_error (Inl e)" "\<not> is_error (Inr a)"
  by (simp_all add: is_error_def)

section \<open>Ladders of checks\<close>

text \<open>The error of the first check that does not hold, if there is one.\<close>

fun first_failure :: "(bool \<times> 'e) list \<Rightarrow> 'e option" where
  "first_failure [] = None"
| "first_failure ((ok, e) # cs) = (if ok then first_failure cs else Some e)"

lemma first_failure_None [simp]:
  "first_failure cs = None \<longleftrightarrow> list_all fst cs"
  by (induction cs rule: first_failure.induct) auto

lemma first_failure_append:
  "first_failure (cs @ ds) =
     (case first_failure cs of None \<Rightarrow> first_failure ds | Some e \<Rightarrow> Some e)"
  by (induction cs rule: first_failure.induct) auto

lemma first_failure_Some_mem:
  "first_failure cs = Some e \<Longrightarrow> (False, e) \<in> set cs"
  by (induction cs rule: first_failure.induct) (auto split: if_splits)

text \<open>A ladder as a guard in front of a result.\<close>

definition guarded :: "(bool \<times> 'e) list \<Rightarrow> 'e + 'a \<Rightarrow> 'e + 'a" where
  "guarded cs r = (case first_failure cs of None \<Rightarrow> r | Some e \<Rightarrow> Inl e)"

lemma guarded_Nil [simp]: "guarded [] r = r"
  by (simp add: guarded_def)

lemma guarded_Cons [guard_simps]: "guarded ((ok, e) # cs) r = (if ok then guarded cs r else Inl e)"
  by (simp add: guarded_def)

lemma guarded_eq_Inr [result_simps]:
  "guarded cs r = Inr a \<longleftrightarrow> list_all fst cs \<and> r = Inr a"
  by (cases "first_failure cs") (auto simp: guarded_def simp flip: first_failure_None)

section \<open>Traversals that stop at the first error\<close>

fun map_result :: "('a \<Rightarrow> 'e + 'b) \<Rightarrow> 'a list \<Rightarrow> 'e + 'b list" where
  "map_result f [] = Inr []"
| "map_result f (x # xs) =
     try_bind (f x) (\<lambda>y. try_bind (map_result f xs) (\<lambda>ys. Inr (y # ys)))"

lemma map_result_Inr_iff:
  "map_result f xs = Inr ys \<longleftrightarrow> list_all2 (\<lambda>x y. f x = Inr y) xs ys"
  by (induction xs arbitrary: ys) (auto simp: result_simps list_all2_Cons1)

lemma map_result_length: "map_result f xs = Inr ys \<Longrightarrow> length ys = length xs"
  by (simp add: map_result_Inr_iff list_all2_lengthD)

lemma map_result_all_Inr:
  "(\<And>x. x \<in> set xs \<Longrightarrow> f x = Inr (g x)) \<Longrightarrow> map_result f xs = Inr (map g xs)"
  by (induction xs) auto

lemma map_result_cong [fundef_cong]:
  "xs = ys \<Longrightarrow> (\<And>x. x \<in> set ys \<Longrightarrow> f x = g x) \<Longrightarrow> map_result f xs = map_result g ys"
  by (induction ys arbitrary: xs) auto

section \<open>Lists\<close>

lemma find_Some_mem: "find P xs = Some x \<Longrightarrow> x \<in> set xs \<and> P x"
  by (induction xs) (auto split: if_splits)

lemma find_None_iff_all: "find P xs = None \<longleftrightarrow> (\<forall>x\<in>set xs. \<not> P x)"
  by (induction xs) auto

lemma find_append:
  "find P (xs @ ys) = (case find P xs of None \<Rightarrow> find P ys | Some x \<Rightarrow> Some x)"
  by (induction xs) auto

lemma find_unique:
  assumes "distinct (map f xs)" and "x \<in> set xs" and "f x = k"
  shows "find (\<lambda>y. f y = k) xs = Some x"
  using assms by (induction xs) auto

lemma length_filter_split3:
  "length xs = length (filter P xs) + length (filter (\<lambda>x. \<not> P x) xs)"
  by (induction xs) auto

lemma distinct_map_filterI: "distinct (map f xs) \<Longrightarrow> distinct (map f (filter P xs))"
  by (induction xs) auto

definition last_match :: "('a \<Rightarrow> bool) \<Rightarrow> 'a list \<Rightarrow> 'a option" where
  "last_match P xs = find P (rev xs)"

lemma last_match_Nil [simp]: "last_match P [] = None"
  by (simp add: last_match_def)

lemma last_match_snoc [simp]:
  "last_match P (xs @ [x]) = (if P x then Some x else last_match P xs)"
  by (simp add: last_match_def)

lemma last_match_None: "last_match P xs = None \<longleftrightarrow> (\<forall>x\<in>set xs. \<not> P x)"
  by (auto simp: last_match_def find_None_iff_all)

lemma last_match_Some: "last_match P xs = Some x \<Longrightarrow> x \<in> set xs \<and> P x"
  by (auto simp: last_match_def dest: find_Some_mem)

lemma last_match_filter: "last_match P xs = (case filter P xs of [] \<Rightarrow> None | ys \<Rightarrow> Some (last ys))"
  by (induction xs rule: rev_induct) (auto split: list.splits)

section \<open>Insertion-ordered dictionaries\<close>

text \<open>
  A dictionary, or a table with a primary key, in insertion order: storing under a key that
  is present replaces the value in place, a new key goes to the end.
\<close>

fun alist_put :: "'k \<Rightarrow> 'v \<Rightarrow> ('k \<times> 'v) list \<Rightarrow> ('k \<times> 'v) list" where
  "alist_put k v [] = [(k, v)]"
| "alist_put k v ((k', v') # m) =
     (if k' = k then (k, v) # m else (k', v') # alist_put k v m)"

lemma map_of_alist_put [simp]: "map_of (alist_put k v m) = (map_of m)(k \<mapsto> v)"
  by (induction m) (auto simp: fun_eq_iff)

lemma keys_alist_put:
  "map fst (alist_put k v m) =
     (if k \<in> set (map fst m) then map fst m else map fst m @ [k])"
  by (induction k v m rule: alist_put.induct) simp_all

lemma distinct_alist_put [simp]:
  "distinct (map fst (alist_put k v m)) = distinct (map fst m)"
  by (simp add: keys_alist_put)

lemma set_alist_put: "set (alist_put k v m) \<subseteq> insert (k, v) (set m)"
  by (induction m) (auto split: if_splits)

lemma alist_put_mem [simp]: "(k, v) \<in> set (alist_put k v m)"
  by (induction m) auto

lemma alist_put_new: "k \<notin> fst ` set m \<Longrightarrow> alist_put k v m = m @ [(k, v)]"
  by (induction m) auto

lemma alist_put_same: "map_of m k = Some v \<Longrightarrow> distinct (map fst m) \<Longrightarrow> alist_put k v m = m"
  by (induction m) (auto split: if_splits)

definition alist_drop :: "'k \<Rightarrow> ('k \<times> 'v) list \<Rightarrow> ('k \<times> 'v) list" where
  "alist_drop k m = filter (\<lambda>(k', _). k' \<noteq> k) m"

lemma map_of_alist_drop: "map_of (alist_drop k m) = (map_of m)(k := None)"
  by (induction m) (auto simp: alist_drop_def fun_eq_iff)

lemma distinct_alist_drop: "distinct (map fst m) \<Longrightarrow> distinct (map fst (alist_drop k m))"
  unfolding alist_drop_def by (rule distinct_map_filterI)

end
