(* ===== verification/Text.thy ===== *)
theory Text
  imports Prelude
begin

text \<open>
  The string operations of Python's standard library that the modelled code uses, on strings
  of 8-bit characters, and the identifier patterns declared in \<open>domain/*.py\<close>.  The model's
  text is the range where one character is one byte, the code points below 256; of these only
  the micro sign, which folds to a Greek letter outside that range, keeps its own code point
  under \<open>casefold\<close>.  A regular expression of the source is a recogniser here: a prefix test, a length
  and a character class.
\<close>

section \<open>Character classes\<close>

definition digit_chars :: string where "digit_chars = ''0123456789''"
definition hex_chars :: string where "hex_chars = ''0123456789abcdef''"
definition lower_chars :: string where "lower_chars = ''abcdefghijklmnopqrstuvwxyz''"
definition upper_chars :: string where "upper_chars = ''ABCDEFGHIJKLMNOPQRSTUVWXYZ''"
definition crockford :: string where "crockford = ''0123456789ABCDEFGHJKMNPQRSTVWXYZ''"

definition all_in :: "string \<Rightarrow> string \<Rightarrow> bool" where
  "all_in cls s = list_all (\<lambda>c. c \<in> set cls) s"

lemma all_in_simps [simp]:
  "all_in cls []"
  "all_in cls (c # s) \<longleftrightarrow> c \<in> set cls \<and> all_in cls s"
  "all_in cls (s @ t) \<longleftrightarrow> all_in cls s \<and> all_in cls t"
  by (auto simp: all_in_def)

lemma all_in_set: "all_in cls s \<longleftrightarrow> set s \<subseteq> set cls"
  by (auto simp: all_in_def list_all_iff)

lemma length_crockford [simp]: "length crockford = 32"
  by (simp add: crockford_def)

lemma distinct_crockford: "distinct crockford"
  by (simp add: crockford_def)

section \<open>Runs of characters: \<open>str.split()\<close> and \<open>findall\<close>\<close>

text \<open>Whitespace as \<open>str.split\<close> and \<open>str.strip\<close> see it in the 8-bit range.\<close>

definition is_space :: "char \<Rightarrow> bool" where
  "is_space c = (let n = of_char c :: nat in
     (9 \<le> n \<and> n \<le> 13) \<or> (28 \<le> n \<and> n \<le> 32) \<or> n = 133 \<or> n = 160)"

fun runs_acc :: "(char \<Rightarrow> bool) \<Rightarrow> string \<Rightarrow> string \<Rightarrow> string list" where
  "runs_acc p cur [] = (if cur = [] then [] else [rev cur])"
| "runs_acc p cur (c # cs) =
     (if p c then runs_acc p (c # cur) cs
      else if cur = [] then runs_acc p [] cs
      else rev cur # runs_acc p [] cs)"

definition runs_of :: "(char \<Rightarrow> bool) \<Rightarrow> string \<Rightarrow> string list" where
  "runs_of p s = runs_acc p [] s"

definition py_split :: "string \<Rightarrow> string list" where
  "py_split s = runs_of (\<lambda>c. \<not> is_space c) s"

definition strip_by :: "(char \<Rightarrow> bool) \<Rightarrow> string \<Rightarrow> string" where
  "strip_by p s = rev (dropWhile p (rev (dropWhile p s)))"

definition py_strip :: "string \<Rightarrow> string" where
  "py_strip s = strip_by is_space s"

lemma runs_acc_props:
  "t \<in> set (runs_acc p cur s) \<Longrightarrow> list_all p cur \<Longrightarrow> t \<noteq> [] \<and> list_all p t"
  by (induction p cur s rule: runs_acc.induct) (auto split: if_splits)

lemma runs_of_nonempty: "t \<in> set (runs_of p s) \<Longrightarrow> t \<noteq> []"
  and runs_of_all: "t \<in> set (runs_of p s) \<Longrightarrow> list_all p t"
  unfolding runs_of_def using runs_acc_props [of t p "[]" s] by auto

lemma concat_runs_acc: "concat (runs_acc p cur s) = rev cur @ filter p s"
  by (induction p cur s rule: runs_acc.induct) auto

text \<open>Splitting keeps every character of the class, in order.\<close>

lemma concat_runs_of: "concat (runs_of p s) = filter p s"
  by (simp add: runs_of_def concat_runs_acc)

section \<open>Case folding, separators, prefixes\<close>

text \<open>\<open>str.casefold\<close>, one character at a time: the capitals of ASCII and Latin-1, and the sharp s.\<close>

definition fold_char :: "char \<Rightarrow> string" where
  "fold_char c = (let n = of_char c :: nat in
     if 65 \<le> n \<and> n \<le> 90 \<or> 192 \<le> n \<and> n \<le> 222 \<and> n \<noteq> 215 then [char_of (n + 32)]
     else if n = 223 then ''ss'' else [c])"

definition casefold :: "string \<Rightarrow> string" where
  "casefold s = concat (map fold_char s)"

lemma casefold_simps [simp]:
  "casefold [] = []" "casefold (c # s) = fold_char c @ casefold s"
  "casefold (s @ t) = casefold s @ casefold t"
  by (simp_all add: casefold_def)

lemma fold_char_nonempty [simp]: "fold_char c \<noteq> []"
  by (simp add: fold_char_def Let_def)

lemma casefold_fold_char [simp]: "casefold (fold_char c) = fold_char c"
proof -
  have "fold_char (CHR ''s'') = ''s''" by code_simp
  moreover have "fold_char (char_of (n + 32)) = [char_of (n + 32)]"
    if "65 \<le> n \<and> n \<le> 90 \<or> 192 \<le> n \<and> n \<le> 222 \<and> n \<noteq> 215" for n :: nat
    using that by (auto simp: fold_char_def Let_def)
  moreover have "fold_char c = [c]" if "fold_char c = [c]" using that .
  ultimately show ?thesis
    unfolding fold_char_def [of c] Let_def by (auto simp: fold_char_def [of c] Let_def)
qed

lemma casefold_idem [simp]: "casefold (casefold s) = casefold s"
  by (induction s) simp_all

lemma casefold_eq_Nil [simp]: "casefold s = [] \<longleftrightarrow> s = []"
  by (cases s) simp_all

lemma length_fold_char: "1 \<le> length (fold_char c)" "length (fold_char c) \<le> 2"
  by (simp_all add: fold_char_def Let_def)

lemma length_casefold: "length s \<le> length (casefold s)" "length (casefold s) \<le> 2 * length s"
proof -
  have "length s \<le> length (casefold s) \<and> length (casefold s) \<le> 2 * length s"
  proof (induction s)
    case (Cons c s)
    then show ?case using length_fold_char [of c] by simp
  qed simp
  then show "length s \<le> length (casefold s)" "length (casefold s) \<le> 2 * length s" by simp_all
qed

lemma fold_char_ASCII: "(of_char c :: nat) < 128 \<Longrightarrow> \<exists>d. fold_char c = [d] \<and> (of_char d :: nat) < 128"
  by (auto simp: fold_char_def Let_def)

fun split_on :: "char \<Rightarrow> string \<Rightarrow> string list" where
  "split_on d [] = [[]]"
| "split_on d (c # cs) =
     (if c = d then [] # split_on d cs
      else case split_on d cs of [] \<Rightarrow> [[c]] | w # ws \<Rightarrow> (c # w) # ws)"

fun join_with :: "char \<Rightarrow> string list \<Rightarrow> string" where
  "join_with d [] = []"
| "join_with d [w] = w"
| "join_with d (w # ws) = w @ d # join_with d ws"

lemma split_on_nonempty [simp]: "split_on d s \<noteq> []"
  by (induction s) (auto split: list.splits)

text \<open>\<open>d.join(s.split(d)) == s\<close>, and the other way round for parts without the separator.\<close>

lemma join_with_Cons: "ws \<noteq> [] \<Longrightarrow> join_with d (w # ws) = w @ d # join_with d ws"
  by (cases ws) auto

lemma join_split [simp]: "join_with d (split_on d s) = s"
proof (induction s)
  case Nil
  show ?case by simp
next
  case (Cons c cs)
  obtain w ws where ws: "split_on d cs = w # ws"
    by (cases "split_on d cs") auto
  show ?case
  proof (cases "c = d")
    case True
    then show ?thesis using Cons.IH by (simp add: join_with_Cons)
  next
    case False
    then show ?thesis using Cons.IH ws by (cases ws) auto
  qed
qed

lemma split_on_no_sep: "d \<notin> set w \<Longrightarrow> split_on d w = [w]"
  by (induction w) auto

lemma split_on_append_sep:
  "d \<notin> set w \<Longrightarrow> split_on d (w @ d # s) = w # split_on d s"
  by (induction w) auto

lemma split_join:
  "ws \<noteq> [] \<Longrightarrow> \<forall>w\<in>set ws. d \<notin> set w \<Longrightarrow> split_on d (join_with d ws) = ws"
  by (induction d ws rule: join_with.induct) (auto simp: split_on_no_sep split_on_append_sep)

lemma split_on_parts: "w \<in> set (split_on d s) \<Longrightarrow> d \<notin> set w"
  by (induction s arbitrary: w) (auto split: list.splits if_splits)

definition starts_with :: "string \<Rightarrow> string \<Rightarrow> bool" where
  "starts_with p s = (take (length p) s = p)"

definition remove_prefix :: "string \<Rightarrow> string \<Rightarrow> string" where
  "remove_prefix p s = (if starts_with p s then drop (length p) s else s)"

lemma starts_with_append [simp]: "starts_with p (p @ s)"
  by (simp add: starts_with_def)

lemma remove_prefix_append [simp]: "remove_prefix p (p @ s) = s"
  by (simp add: remove_prefix_def)

lemma starts_with_iff: "starts_with p s \<longleftrightarrow> (\<exists>t. s = p @ t)"
  unfolding starts_with_def by (metis append_eq_conv_conj append_take_drop_id)

text \<open>\<open>PurePath.suffix\<close> of the last segment of a portable path.\<close>

definition last_segment :: "string \<Rightarrow> string" where
  "last_segment s = last (split_on (CHR ''/'') s)"

definition name_suffix :: "string \<Rightarrow> string" where
  "name_suffix name =
     (let ext = takeWhile (\<lambda>c. c \<noteq> CHR ''.'') (rev name);
          stem = drop (length ext + 1) (rev name)
      in if CHR ''.'' \<in> set name \<and> ext \<noteq> [] \<and> stem \<noteq> [] then CHR ''.'' # rev ext else [])"

definition path_suffix :: "string \<Rightarrow> string" where
  "path_suffix target = name_suffix (last_segment target)"

text \<open>Decimal rendering of a count inside an f-string.\<close>

fun show_nat :: "nat \<Rightarrow> string" where
  "show_nat n =
     (if n < 10 then [digit_chars ! n] else show_nat (n div 10) @ [digit_chars ! (n mod 10)])"

declare show_nat.simps [simp del]

section \<open>Identifier patterns\<close>

definition is_ulid :: "string \<Rightarrow> bool" where
  "is_ulid s \<longleftrightarrow> length s = 26 \<and> all_in crockford s"

text \<open>\<open>^tag_[0-9A-HJKMNP-TV-Z]{26}$\<close>\<close>

definition tagged_id :: "string \<Rightarrow> string \<Rightarrow> bool" where
  "tagged_id tag s \<longleftrightarrow>
     starts_with (tag @ ''_'') s \<and> is_ulid (drop (length tag + 1) s)"

lemma tagged_idI: "is_ulid t \<Longrightarrow> tagged_id tag (tag @ ''_'' @ t)"
  by (simp add: tagged_id_def starts_with_def)

lemma tagged_id_iff: "tagged_id tag s \<longleftrightarrow> (\<exists>t. is_ulid t \<and> s = tag @ ''_'' @ t)"
  by (auto simp: tagged_id_def starts_with_iff)

text \<open>\<open>^sha256:[0-9a-f]{64}$\<close>\<close>

definition is_digest :: "string \<Rightarrow> bool" where
  "is_digest s \<longleftrightarrow>
     starts_with ''sha256:'' s \<and> length (drop 7 s) = 64 \<and> all_in hex_chars (drop 7 s)"

text \<open>\<open>[A-Za-z0-9][A-Za-z0-9._:-]{0,127}\<close>\<close>

definition alnum_chars :: string where
  "alnum_chars = upper_chars @ lower_chars @ digit_chars"

definition key_chars :: string where
  "key_chars = alnum_chars @ ''._:-''"

definition is_idempotency_key :: "string \<Rightarrow> bool" where
  "is_idempotency_key k \<longleftrightarrow>
     (case k of [] \<Rightarrow> False
      | c # cs \<Rightarrow> c \<in> set alnum_chars \<and> all_in key_chars cs \<and> length cs \<le> 127)"

text \<open>\<open>^[A-Za-z0-9._:-]{1,128}$\<close>, the pattern of the \<open>Idempotency-Key\<close> header of the routes\<close>

definition is_header_key :: "string \<Rightarrow> bool" where
  "is_header_key k \<longleftrightarrow> 1 \<le> length k \<and> length k \<le> 128 \<and> all_in key_chars k"

lemma idempotency_key_is_header_key: "is_idempotency_key k \<Longrightarrow> is_header_key k"
  by (cases k) (auto simp: is_idempotency_key_def is_header_key_def key_chars_def)

text \<open>A pattern \<open>first rest{lo,hi}\<close> over two character classes.\<close>

definition is_slug :: "string \<Rightarrow> string \<Rightarrow> nat \<Rightarrow> nat \<Rightarrow> string \<Rightarrow> bool" where
  "is_slug hd_cls tl_cls lo hi s \<longleftrightarrow>
     (case s of [] \<Rightarrow> False
      | c # cs \<Rightarrow> c \<in> set hd_cls \<and> all_in tl_cls cs \<and> lo \<le> length cs \<and> length cs \<le> hi)"

end
