(* ===== verification/Tokens.thy ===== *)
theory Tokens
  imports Text "HOL-Library.Word"
begin

text \<open>
  Derived identities: the Crockford base-32 loop that six modules of the source repeat to turn
  130 bits of a SHA-256 digest (or of \<open>secrets.token_bytes\<close>) into the 26 characters of an
  identifier, and the inverse reading that \<open>_request_time\<close> performs on the first ten
  characters of a request identity.  SHA-256 is a parameter \<open>sha\<close>, the function from the
  bytes hashed to the 32 bytes of \<open>digest()\<close>; what the code relies on is only their number.
\<close>

unbundle bit_operations_syntax

section \<open>Digests\<close>

type_synonym hash_fn = "string \<Rightarrow> string"

definition hash_ok :: "hash_fn \<Rightarrow> bool" where
  "hash_ok sha \<longleftrightarrow> (\<forall>s. length (sha s) = 32)"

definition hex_digit :: "nat \<Rightarrow> char" where
  "hex_digit n = hex_chars ! n"

definition hex_byte :: "char \<Rightarrow> string" where
  "hex_byte b = (let n = of_char b :: nat in [hex_digit (n div 16), hex_digit (n mod 16)])"

text \<open>\<open>hexdigest()\<close>\<close>

definition hexdigest :: "hash_fn \<Rightarrow> string \<Rightarrow> string" where
  "hexdigest sha s = concat (map hex_byte (sha s))"

definition digest_ref :: "hash_fn \<Rightarrow> string \<Rightarrow> string" where
  "digest_ref sha s = ''sha256:'' @ hexdigest sha s"

lemma hex_byte_hex: "all_in hex_chars (hex_byte b)" "length (hex_byte b) = 2"
proof -
  have "(of_char b :: nat) div 16 < 16"
    using nat_of_char_less_256 [of b] by (intro less_mult_imp_div_less) simp
  moreover have "length hex_chars = 16" by (simp add: hex_chars_def)
  ultimately show "all_in hex_chars (hex_byte b)"
    by (simp add: hex_byte_def hex_digit_def Let_def)
  show "length (hex_byte b) = 2"
    by (simp add: hex_byte_def Let_def)
qed

lemma all_in_concat_map: "(\<And>x. all_in cls (f x)) \<Longrightarrow> all_in cls (concat (map f xs))"
  by (induction xs) auto

lemma length_concat_map_const: "(\<And>x. length (f x) = k) \<Longrightarrow> length (concat (map f xs)) = k * length xs"
  by (induction xs) auto

lemma hexdigest_hex: "all_in hex_chars (hexdigest sha s)"
  unfolding hexdigest_def by (rule all_in_concat_map) (rule hex_byte_hex)

lemma hexdigest_length: "hash_ok sha \<Longrightarrow> length (hexdigest sha s) = 64"
  by (simp add: hexdigest_def hash_ok_def length_concat_map_const [OF hex_byte_hex(2)])

lemma digest_ref_is_digest: "hash_ok sha \<Longrightarrow> is_digest (digest_ref sha s)"
  by (simp add: is_digest_def digest_ref_def starts_with_def hexdigest_hex hexdigest_length)

section \<open>The base-32 loop\<close>

text \<open>\<open>int.from_bytes(bs, "big")\<close>\<close>

definition from_bytes_big :: "string \<Rightarrow> nat" where
  "from_bytes_big bs = foldl (\<lambda>acc b. acc * 256 + of_char b) 0 bs"

text \<open>\<open>for _ in range(n): token = _CROCKFORD[value & 31] + token; value >>= 5\<close>\<close>

fun crockford_loop :: "nat \<Rightarrow> nat \<Rightarrow> string \<Rightarrow> string" where
  "crockford_loop 0 value token = token"
| "crockford_loop (Suc n) value token =
     crockford_loop n (drop_bit 5 value) ((crockford ! (value AND 31)) # token)"

definition derived_token :: "hash_fn \<Rightarrow> string \<Rightarrow> string \<Rightarrow> string" where
  "derived_token sha request_id purpose =
     (let digest = sha (request_id @ '':'' @ purpose);
          value = drop_bit 6 (from_bytes_big (take 17 digest))
      in crockford_loop 26 value [])"

definition derived_id :: "hash_fn \<Rightarrow> string \<Rightarrow> string \<Rightarrow> string \<Rightarrow> string" where
  "derived_id sha request_id tag purpose = tag @ ''_'' @ derived_token sha request_id purpose"

text \<open>\<open>_new_record_id\<close>: the same loop on 17 bytes of \<open>secrets.token_bytes\<close>, an argument here\<close>

definition new_record_id :: "string \<Rightarrow> string" where
  "new_record_id token_bytes =
     ''mem_'' @ crockford_loop 26 (drop_bit 6 (from_bytes_big token_bytes)) []"

text \<open>\<open>_stable_document_id\<close> on the normalized, case-folded, encoded path\<close>

definition stable_document_id :: "hash_fn \<Rightarrow> string \<Rightarrow> string" where
  "stable_document_id sha normalized =
     ''doc_'' @ crockford_loop 26 (drop_bit 126 (from_bytes_big (sha normalized))) []"

lemma and_31: "(v::nat) AND 31 = v mod 32"
  using take_bit_eq_mask [of 5 v] by (simp add: take_bit_eq_mod mask_eq_exp_minus_1)

lemma drop_bit_5: "drop_bit 5 (v::nat) = v div 32"
  by (simp add: drop_bit_eq_div)

lemma crockford_loop_Suc [simp]:
  "crockford_loop (Suc n) v t = crockford_loop n (v div 32) ((crockford ! (v mod 32)) # t)"
  by (simp add: and_31 drop_bit_5)

declare crockford_loop.simps(2) [simp del]

lemma crockford_loop_acc: "crockford_loop n v t = crockford_loop n v [] @ t"
proof (induction n arbitrary: v t)
  case 0
  show ?case by simp
next
  case (Suc n)
  show ?case
    using Suc.IH [of "v div 32" "(crockford ! (v mod 32)) # t"]
      Suc.IH [of "v div 32" "[crockford ! (v mod 32)]"] by simp
qed

lemma crockford_loop_snoc:
  "crockford_loop (Suc n) v [] = crockford_loop n (v div 32) [] @ [crockford ! (v mod 32)]"
  by (simp add: crockford_loop_acc [where t = "[_]"])

lemma crockford_nth_mem [simp]: "crockford ! (v mod 32) \<in> set crockford"
  by (rule nth_mem) simp

lemma crockford_loop_length: "length (crockford_loop n v t) = n + length t"
  by (induction n arbitrary: v t) auto

lemma crockford_loop_all_in: "all_in crockford t \<Longrightarrow> all_in crockford (crockford_loop n v t)"
  by (induction n arbitrary: v t) auto

lemma crockford_loop_ulid: "is_ulid (crockford_loop 26 v [])"
  by (simp add: is_ulid_def crockford_loop_length crockford_loop_all_in)

lemma derived_id_tagged: "tagged_id tag (derived_id sha rid tag purpose)"
  unfolding derived_id_def derived_token_def Let_def
  by (rule tagged_idI) (rule crockford_loop_ulid)

lemma new_record_id_tagged: "tagged_id ''mem'' (new_record_id bs)"
  using tagged_idI [OF crockford_loop_ulid, of "''mem''"] by (simp add: new_record_id_def)

lemma stable_document_id_tagged: "tagged_id ''doc'' (stable_document_id sha p)"
  using tagged_idI [OF crockford_loop_ulid, of "''doc''"] by (simp add: stable_document_id_def)

section \<open>Reading a token back\<close>

text \<open>\<open>_CROCKFORD.index(c)\<close>, \<open>None\<close> where Python raises \<open>ValueError\<close>\<close>

fun index_of :: "'a \<Rightarrow> 'a list \<Rightarrow> nat option" where
  "index_of x [] = None"
| "index_of x (y # ys) = (if x = y then Some 0 else map_option Suc (index_of x ys))"

fun decode_crockford :: "nat \<Rightarrow> string \<Rightarrow> nat option" where
  "decode_crockford acc [] = Some acc"
| "decode_crockford acc (c # cs) =
     (case index_of c crockford of None \<Rightarrow> None | Some i \<Rightarrow> decode_crockford (acc * 32 + i) cs)"

lemma index_of_nth: "distinct xs \<Longrightarrow> i < length xs \<Longrightarrow> index_of (xs ! i) xs = Some i"
  by (induction xs arbitrary: i) (auto simp: nth_Cons split: nat.splits)

lemma index_of_mem: "x \<in> set xs \<Longrightarrow> \<exists>i. index_of x xs = Some i \<and> i < length xs"
  by (induction xs) auto

lemma index_of_crockford [simp]: "index_of (crockford ! (v mod 32)) crockford = Some (v mod 32)"
  by (rule index_of_nth) (simp_all add: distinct_crockford)

lemma decode_crockford_append:
  "decode_crockford acc (s @ t) =
     (case decode_crockford acc s of None \<Rightarrow> None | Some a \<Rightarrow> decode_crockford a t)"
  by (induction acc s rule: decode_crockford.induct) (auto split: option.splits)

lemma decode_crockford_loop:
  "decode_crockford acc (crockford_loop n v []) = Some (acc * 32 ^ n + v mod 32 ^ n)"
proof (induction n arbitrary: v)
  case 0
  show ?case by simp
next
  case (Suc n)
  have "v mod (32 * 32 ^ n) = 32 * (v div 32 mod 32 ^ n) + v mod 32"
    by (rule mod_mult2_eq)
  then show ?case
    by (simp only: crockford_loop_snoc decode_crockford_append Suc.IH)
      (simp add: algebra_simps)
qed

lemma decode_crockford_total:
  "all_in crockford s \<Longrightarrow> \<exists>v. decode_crockford acc s = Some v \<and> v < (acc + 1) * 32 ^ length s"
proof (induction s arbitrary: acc)
  case Nil
  then show ?case by simp
next
  case (Cons c s)
  then obtain i where i: "index_of c crockford = Some i" "i < 32"
    using index_of_mem [of c crockford] by auto
  from Cons obtain v where v: "decode_crockford (acc * 32 + i) s = Some v"
    "v < (acc * 32 + i + 1) * 32 ^ length s" by fastforce
  note v(2)
  also have "(acc * 32 + i + 1) * 32 ^ length s \<le> (acc + 1) * 32 * 32 ^ length s"
    using i(2) by (intro mult_le_mono1) simp
  also have "\<dots> = (acc + 1) * 32 ^ length (c # s)" by (simp only: power_Suc list.size mult.assoc)
      simp
  finally have "v < (acc + 1) * 32 ^ length (c # s)" .
  with i v(1) show ?case by simp
qed

lemma crockford_loop_inj:
  assumes "crockford_loop n v [] = crockford_loop n w []" "v < 32 ^ n" "w < 32 ^ n"
  shows "v = w"
proof -
  from assms(1) have "Some (0 * 32 ^ n + v mod 32 ^ n) = Some (0 * 32 ^ n + w mod 32 ^ n)"
    unfolding decode_crockford_loop [symmetric] by simp
  then show ?thesis using assms(2,3) by simp
qed

lemma from_bytes_big_bound: "from_bytes_big bs < 256 ^ length bs"
proof (induction bs rule: rev_induct)
  case Nil
  show ?case by (simp add: from_bytes_big_def)
next
  case (snoc b bs)
  from snoc.IH have "from_bytes_big bs + 1 \<le> 256 ^ length bs" by simp
  then have "(from_bytes_big bs + 1) * 256 \<le> 256 ^ length bs * 256" by (rule mult_le_mono1)
  moreover have "from_bytes_big (bs @ [b]) < (from_bytes_big bs + 1) * 256"
    using nat_of_char_less_256 [of b] by (simp add: from_bytes_big_def del: nat_of_char_less_256)
  ultimately have "from_bytes_big (bs @ [b]) < 256 ^ length bs * 256" by (simp only: less_le_trans)
  then show ?case by simp
qed

text \<open>The value the loop encodes fits in 130 bits, so no bit of it is lost in 26 characters.\<close>

lemma token_value_bound:
  assumes "length bs \<le> 17"
  shows "drop_bit 6 (from_bytes_big bs) < 32 ^ 26"
proof -
  have "from_bytes_big bs < 256 ^ length bs" by (rule from_bytes_big_bound)
  also have "\<dots> \<le> 256 ^ 17" using assms by (intro power_increasing) auto
  also have "(256::nat) ^ 17 = 32 ^ 26 * 64" by simp
  finally have "from_bytes_big bs div 64 < 32 ^ 26" by (rule less_mult_imp_div_less)
  then show ?thesis by (simp add: drop_bit_eq_div)
qed

section \<open>Request times\<close>

text \<open>
  \<open>_request_time\<close>: the first ten characters of a request identity, read as milliseconds
  since the epoch.  \<open>datetime.fromtimestamp\<close> raises beyond the year 9999, and
  \<open>str.index\<close> raises on a character outside the alphabet.
\<close>

datatype time_error = CharacterNotFound | YearOutOfRange

definition max_datetime_ms :: nat where
  "max_datetime_ms = 253402300799999"

definition request_time :: "string \<Rightarrow> time_error + int" where
  "request_time request_id =
     (case decode_crockford 0 (take 10 (remove_prefix ''evt_'' request_id)) of
        None \<Rightarrow> Inl CharacterNotFound
      | Some ms \<Rightarrow> if ms \<le> max_datetime_ms then Inr (int ms) else Inl YearOutOfRange)"

end
