(* ===== verification/Events.thy ===== *)
theory Events
  imports Tokens Complex_Main
begin

text \<open>
  \<open>domain/events.py\<close>: JSON-shaped values, the bounded payload freeze, actors, model
  identities and the immutable event with its validators in the order the class declares
  them.  Instants are integers (microseconds of UTC); pydantic's encoding and RFC 8785 are
  parameters, bundled in the record \<open>codec\<close>.
\<close>

section \<open>JSON-shaped values\<close>

datatype pyfloat = Finite rat | PosInf | NegInf | NaN

text \<open>
  A mapping is its \<open>items()\<close> in iteration order (keys may repeat, as a stateful mapping can
  make them); lists and tuples are both \<open>JSeq\<close>; \<open>JOther\<close> is any value outside JSON.
\<close>

datatype jval =
    JNull
  | JBool bool
  | JInt int
  | JFloat pyfloat
  | JStr string
  | JSeq "jval list"
  | JMap "(jval \<times> jval) list"
  | JOther

lemma size_jval_value [termination_simp]:
  "kv \<in> set kvs \<Longrightarrow> size (snd kv) < Suc (size_list (size_prod size size) kvs)"
  by (induction kvs) auto

lemma size_jval_item [termination_simp]:
  "x \<in> set xs \<Longrightarrow> size x < Suc (size_list size xs)" for x :: jval
  by (induction xs) auto

fun jget :: "jval \<Rightarrow> string \<Rightarrow> jval option" where
  "jget (JMap kvs) k = map_of kvs (JStr k)"
| "jget v k = None"

fun jstr :: "jval option \<Rightarrow> string option" where
  "jstr (Some (JStr s)) = Some s"
| "jstr v = None"

definition jobj :: "(string \<times> jval) list \<Rightarrow> jval" where
  "jobj kvs = JMap (map (\<lambda>(k, v). (JStr k, v)) kvs)"

lemma jget_jobj [simp]: "jget (jobj kvs) k = map_of kvs k"
  by (induction kvs) (auto simp: jobj_def)

subsection \<open>Exact JSON scalars\<close>

definition max_interoperable_integer :: int where
  "max_interoperable_integer = 9007199254740991"

datatype scalar_error = BooleanNotInteger | NotBoolean | IntegerOutOfRange | NotInteger

definition is_integral :: "rat \<Rightarrow> bool" where
  "is_integral q \<longleftrightarrow> of_int \<lfloor>q\<rfloor> = q"

definition require_exact_integer :: "jval \<Rightarrow> scalar_error + jval" where
  "require_exact_integer v =
     (case v of
        JBool _ \<Rightarrow> Inl BooleanNotInteger
      | JFloat (Finite q) \<Rightarrow> Inr (if is_integral q then JInt \<lfloor>q\<rfloor> else v)
      | _ \<Rightarrow> Inr v)"

definition require_exact_boolean :: "jval \<Rightarrow> scalar_error + jval" where
  "require_exact_boolean v = (case v of JBool _ \<Rightarrow> Inr v | _ \<Rightarrow> Inl NotBoolean)"

text \<open>\<open>JsonInteger\<close>: the validator above, then the bounds of the annotated integer\<close>

definition json_integer :: "jval \<Rightarrow> scalar_error + int" where
  "json_integer v = try_bind (require_exact_integer v) (\<lambda>w. case w of
       JInt i \<Rightarrow> if \<bar>i\<bar> \<le> max_interoperable_integer then Inr i else Inl IntegerOutOfRange
     | _ \<Rightarrow> Inl NotInteger)"

subsection \<open>Duplicate object names\<close>

fun reject_duplicate_object_names ::
    "(string \<times> 'v) list \<Rightarrow> (string \<times> 'v) list \<Rightarrow> string + (string \<times> 'v) list" where
  "reject_duplicate_object_names [] built = Inr built"
| "reject_duplicate_object_names ((key, item) # pairs) built =
     (if key \<in> set (map fst built) then Inl key
      else reject_duplicate_object_names pairs (built @ [(key, item)]))"

lemma reject_duplicate_object_names_Inr:
  "distinct (map fst built) \<Longrightarrow>
   reject_duplicate_object_names pairs built = Inr w \<longleftrightarrow>
     distinct (map fst (built @ pairs)) \<and> w = built @ pairs"
  by (induction pairs built rule: reject_duplicate_object_names.induct) auto

section \<open>The bounded payload freeze\<close>

datatype payload_error =
    PayloadTooDeep
  | KeyNotString
  | DuplicateKey string
  | TooManyProperties
  | KeyTooLong
  | TooManyItems
  | StringTooLong
  | IntegerUnsafe
  | NumberUnsafe
  | NotJsonCompatible

fun number_safe :: "pyfloat \<Rightarrow> bool" where
  "number_safe (Finite q) \<longleftrightarrow> \<bar>q\<bar> \<le> of_int max_interoperable_integer"
| "number_safe _ \<longleftrightarrow> False"

function (sequential) freeze_bounded_payload :: "jval \<Rightarrow> nat \<Rightarrow> payload_error + jval"
  and freeze_fields ::
    "(jval \<times> jval) list \<Rightarrow> (jval \<times> jval) list \<Rightarrow> nat \<Rightarrow> payload_error + (jval \<times> jval) list"
  and freeze_items :: "jval list \<Rightarrow> jval list \<Rightarrow> nat \<Rightarrow> payload_error + jval list" where
  "freeze_bounded_payload (JMap kvs) depth =
     (if depth > 2 then Inl PayloadTooDeep
      else try_bind (freeze_fields kvs [] depth) (\<lambda>frozen. Inr (JMap frozen)))"
| "freeze_bounded_payload (JSeq xs) depth =
     (if depth > 2 then Inl PayloadTooDeep
      else try_bind (freeze_items xs [] depth) (\<lambda>frozen. Inr (JSeq frozen)))"
| "freeze_bounded_payload (JStr s) depth =
     (if length s > 16384 then Inl StringTooLong else Inr (JStr s))"
| "freeze_bounded_payload (JInt i) depth =
     (if \<bar>i\<bar> > max_interoperable_integer then Inl IntegerUnsafe else Inr (JInt i))"
| "freeze_bounded_payload (JFloat x) depth =
     (if number_safe x then Inr (JFloat x) else Inl NumberUnsafe)"
| "freeze_bounded_payload JNull depth = Inr JNull"
| "freeze_bounded_payload (JBool b) depth = Inr (JBool b)"
| "freeze_bounded_payload JOther depth = Inl NotJsonCompatible"
| "freeze_fields [] frozen depth = Inr frozen"
| "freeze_fields ((JStr key, item) # kvs) frozen depth =
     (if JStr key \<in> set (map fst frozen) then Inl (DuplicateKey key)
      else if length frozen \<ge> 64 then Inl TooManyProperties
      else if length key > 128 then Inl KeyTooLong
      else try_bind (freeze_bounded_payload item (depth + 1))
             (\<lambda>v. freeze_fields kvs (frozen @ [(JStr key, v)]) depth))"
| "freeze_fields ((key, item) # kvs) frozen depth = Inl KeyNotString"
| "freeze_items [] frozen depth = Inr frozen"
| "freeze_items (item # xs) frozen depth =
     (if length frozen \<ge> 64 then Inl TooManyItems
      else try_bind (freeze_bounded_payload item (depth + 1))
             (\<lambda>v. freeze_items xs (frozen @ [v]) depth))"
  by pat_completeness auto
termination
  by (relation "measure (\<lambda>x. case x of
         Inl (v, _) \<Rightarrow> size v
       | Inr (Inl (kvs, _, _)) \<Rightarrow> size_list (size_prod size size) kvs
       | Inr (Inr (xs, _, _)) \<Rightarrow> size_list size xs)") auto

text \<open>The declarative bound the freeze enforces.\<close>

definition payload_key :: "jval \<Rightarrow> bool" where
  "payload_key k = (case k of JStr s \<Rightarrow> length s \<le> 128 | _ \<Rightarrow> False)"

fun payload_bounded :: "nat \<Rightarrow> jval \<Rightarrow> bool" where
  "payload_bounded d (JMap kvs) \<longleftrightarrow> d \<le> 2 \<and> length kvs \<le> 64 \<and> distinct (map fst kvs) \<and>
     (\<forall>kv\<in>set kvs. payload_key (fst kv) \<and> payload_bounded (Suc d) (snd kv))"
| "payload_bounded d (JSeq xs) \<longleftrightarrow>
     d \<le> 2 \<and> length xs \<le> 64 \<and> (\<forall>x\<in>set xs. payload_bounded (Suc d) x)"
| "payload_bounded d (JStr s) \<longleftrightarrow> length s \<le> 16384"
| "payload_bounded d (JInt i) \<longleftrightarrow> \<bar>i\<bar> \<le> max_interoperable_integer"
| "payload_bounded d (JFloat x) \<longleftrightarrow> number_safe x"
| "payload_bounded d JNull \<longleftrightarrow> True"
| "payload_bounded d (JBool b) \<longleftrightarrow> True"
| "payload_bounded d JOther \<longleftrightarrow> False"

lemma freeze_exact:
  "freeze_bounded_payload v d = Inr w \<longleftrightarrow> payload_bounded d v \<and> w = v"
  "distinct (map fst frozen) \<Longrightarrow> length frozen \<le> 64 \<Longrightarrow>
   freeze_fields kvs frozen d = Inr fs \<longleftrightarrow>
     fs = frozen @ kvs \<and> length fs \<le> 64 \<and> distinct (map fst fs) \<and>
     (\<forall>kv\<in>set kvs. payload_key (fst kv) \<and> payload_bounded (Suc d) (snd kv))"
  "length ys \<le> 64 \<Longrightarrow>
   freeze_items xs ys d = Inr zs \<longleftrightarrow>
     zs = ys @ xs \<and> length zs \<le> 64 \<and> (\<forall>x\<in>set xs. payload_bounded (Suc d) x)"
  by (induction v d and kvs frozen d and xs ys d arbitrary: w and fs and zs
      rule: freeze_bounded_payload_freeze_fields_freeze_items.induct)
    (auto simp: result_simps payload_key_def not_le not_less, metis fst_conv image_eqI)

section \<open>Actors, model identities, events\<close>

datatype actor_type = Human | Model | Tool | System

fun actor_type_value :: "actor_type \<Rightarrow> string" where
  "actor_type_value Human = ''human''"
| "actor_type_value Model = ''model''"
| "actor_type_value Tool = ''tool''"
| "actor_type_value System = ''system''"

datatype event_type =
    Message | ModelCall | ToolCall | Observation | MemoryProposal
  | Approval | Correction | Retraction | Outcome

datatype trust_class =
    HumanVerified | ToolVerified | ModelGenerated | ExternalUntrusted | SystemTrust

datatype sensitivity = Public | Internal | Private | Restricted

record actor =
  actor_id :: string
  actor_kind :: actor_type

record model_identity =
  mi_provider :: string
  mi_name :: string
  mi_configuration_hash :: string

definition actor_tail_chars :: string where
  "actor_tail_chars = lower_chars @ digit_chars @ ''_-''"

text \<open>\<open>^(human|model|tool|system)_[a-z0-9][a-z0-9_-]{1,62}$\<close>\<close>

definition is_actor_id :: "string \<Rightarrow> bool" where
  "is_actor_id s \<longleftrightarrow>
     (\<exists>t\<in>set [Human, Model, Tool, System].
        starts_with (actor_type_value t @ ''_'') s \<and>
        is_slug (lower_chars @ digit_chars) actor_tail_chars 1 62
          (drop (length (actor_type_value t) + 1) s))"

definition valid_actor :: "actor \<Rightarrow> bool" where
  "valid_actor a \<longleftrightarrow>
     is_actor_id (actor_id a) \<and>
     starts_with (actor_type_value (actor_kind a) @ ''_'') (actor_id a)"

definition valid_identity_text :: "string \<Rightarrow> bool" where
  "valid_identity_text s \<longleftrightarrow>
     1 \<le> length s \<and> length s \<le> 128 \<and> (\<exists>c\<in>set s. \<not> is_space c)"

definition valid_model_identity :: "model_identity \<Rightarrow> bool" where
  "valid_model_identity m \<longleftrightarrow>
     valid_identity_text (mi_provider m) \<and> valid_identity_text (mi_name m) \<and>
     is_digest (mi_configuration_hash m)"

record event =
  ev_id :: string
  ev_session :: string
  ev_run :: string
  ev_task :: string
  ev_actor :: actor
  ev_type :: event_type
  ev_observed_at :: int
  ev_recorded_at :: int
  ev_payload_hash :: string
  ev_artifact_refs :: "string list"
  ev_parents :: "string list"
  ev_trust :: trust_class
  ev_sensitivity :: sensitivity
  ev_payload :: jval
  ev_model :: "model_identity option"

text \<open>
  What the model takes as given: SHA-256, the RFC 8785 serialiser, and pydantic's JSON
  encoding and parsing of an event (\<open>c_parse\<close> is the parse before the class's own
  validators, which the model runs itself).
\<close>

record codec =
  c_sha :: hash_fn
  c_canon :: "jval \<Rightarrow> string"
  c_enc :: "event \<Rightarrow> string"
  c_parse :: "string \<Rightarrow> event option"

definition canonical_payload_hash :: "codec \<Rightarrow> jval \<Rightarrow> string" where
  "canonical_payload_hash C payload = digest_ref (c_sha C) (c_canon C payload)"

definition max_event_payload_bytes :: nat where
  "max_event_payload_bytes = 64 * 1024"

datatype event_error =
    FieldInvalid
  | PayloadRejected payload_error
  | PayloadTooLarge
  | ArtifactRefsNotUnique
  | CausalParentsNotUnique
  | PayloadHashMismatch
  | OwnCausalParent
  | RecordedBeforeObserved
  | ModelProvenanceMissing
  | ModelIdentityUnexpected
  | ModelNotMarkedGenerated
  | TrustInconsistent

fun allowed_trust :: "actor_type \<Rightarrow> trust_class list" where
  "allowed_trust Human = [HumanVerified, ExternalUntrusted]"
| "allowed_trust Model = [ModelGenerated]"
| "allowed_trust Tool = [ToolVerified, ExternalUntrusted]"
| "allowed_trust System = [SystemTrust, ExternalUntrusted]"

definition model_identity_required :: "event \<Rightarrow> bool" where
  "model_identity_required e \<longleftrightarrow>
     ev_type e = ModelCall \<or> actor_kind (ev_actor e) = Model"

text \<open>The declared types and patterns of the fields.\<close>

definition event_fields_ok :: "event \<Rightarrow> bool" where
  "event_fields_ok e \<longleftrightarrow>
     tagged_id ''evt'' (ev_id e) \<and> tagged_id ''ses'' (ev_session e) \<and>
     tagged_id ''run'' (ev_run e) \<and> tagged_id ''tsk'' (ev_task e) \<and>
     valid_actor (ev_actor e) \<and> is_digest (ev_payload_hash e) \<and>
     list_all is_digest (ev_artifact_refs e) \<and>
     list_all (tagged_id ''evt'') (ev_parents e) \<and>
     (case ev_model e of None \<Rightarrow> True | Some m \<Rightarrow> valid_model_identity m)"

text \<open>\<open>freeze_payload\<close>: at most 64 properties, the bounded freeze, at most 64 KiB canonical\<close>

definition freeze_payload :: "codec \<Rightarrow> jval \<Rightarrow> event_error + jval" where
  "freeze_payload C payload =
     (case payload of
        JMap kvs \<Rightarrow>
          if length kvs > 64 then Inl FieldInvalid
          else (case freeze_bounded_payload payload 0 of
             Inl e \<Rightarrow> Inl (PayloadRejected e)
           | Inr frozen \<Rightarrow>
               if length (c_canon C frozen) > max_event_payload_bytes then Inl PayloadTooLarge
               else Inr frozen)
      | _ \<Rightarrow> Inl FieldInvalid)"

text \<open>\<open>require_model_provenance\<close>, the validator that runs after the fields\<close>

definition require_model_provenance :: "codec \<Rightarrow> event \<Rightarrow> event_error + event" where
  "require_model_provenance C e = guarded
     [ (ev_payload_hash e = canonical_payload_hash C (ev_payload e), PayloadHashMismatch),
       (ev_id e \<notin> set (ev_parents e), OwnCausalParent),
       (ev_observed_at e \<le> ev_recorded_at e, RecordedBeforeObserved),
       (\<not> (model_identity_required e \<and> ev_model e = None), ModelProvenanceMissing),
       (\<not> (\<not> model_identity_required e \<and> ev_model e \<noteq> None), ModelIdentityUnexpected),
       (\<not> (actor_kind (ev_actor e) = Model \<and> ev_trust e \<noteq> ModelGenerated),
          ModelNotMarkedGenerated),
       (ev_trust e \<in> set (allowed_trust (actor_kind (ev_actor e))), TrustInconsistent) ]
     (Inr e)"

definition validate_event :: "codec \<Rightarrow> event \<Rightarrow> event_error + event" where
  "validate_event C e =
     guarded [ (event_fields_ok e, FieldInvalid) ]
       (try_bind (freeze_payload C (ev_payload e)) (\<lambda>frozen.
          guarded
            [ (distinct (ev_artifact_refs e), ArtifactRefsNotUnique),
              (distinct (ev_parents e), CausalParentsNotUnique) ]
            (require_model_provenance C (e\<lparr>ev_payload := frozen\<rparr>))))"

definition valid_event :: "codec \<Rightarrow> event \<Rightarrow> bool" where
  "valid_event C e \<longleftrightarrow> validate_event C e = Inr e"

text \<open>\<open>Event.model_validate_json\<close>, \<open>None\<close> where it raises\<close>

definition decode_event :: "codec \<Rightarrow> string \<Rightarrow> event option" where
  "decode_event C s =
     (case c_parse C s of
        None \<Rightarrow> None
      | Some e \<Rightarrow> (case validate_event C e of Inl _ \<Rightarrow> None | Inr e' \<Rightarrow> Some e'))"

text \<open>What the code relies on: 32-byte digests, and that a valid event survives its encoding.\<close>

definition codec_ok :: "codec \<Rightarrow> bool" where
  "codec_ok C \<longleftrightarrow>
     hash_ok (c_sha C) \<and> (\<forall>e. valid_event C e \<longrightarrow> c_parse C (c_enc C e) = Some e)"

section \<open>Facts about validated events\<close>

lemma freeze_payload_Inr:
  "freeze_payload C p = Inr q \<longleftrightarrow>
     q = p \<and> (\<exists>kvs. p = JMap kvs) \<and> payload_bounded 0 p \<and>
     length (c_canon C p) \<le> max_event_payload_bytes"
proof (cases "freeze_bounded_payload p 0")
  case (Inl e)
  then have "\<not> payload_bounded 0 p" using freeze_exact(1) [of p 0 p] by simp
  with Inl show ?thesis
    by (cases p) (simp_all add: freeze_payload_def del: freeze_bounded_payload.simps
        payload_bounded.simps)
next
  case (Inr w)
  then have w: "w = p" "payload_bounded 0 p" using freeze_exact(1) [of p 0 w] by simp_all
  with Inr show ?thesis
    by (cases p) (auto simp: freeze_payload_def simp del: freeze_bounded_payload.simps)
qed

lemma freeze_payload_same: "freeze_payload C p = Inr q \<Longrightarrow> q = p"
  by (simp add: freeze_payload_Inr)

lemma validate_event_same: "validate_event C e = Inr e' \<Longrightarrow> e' = e"
  by (auto simp: validate_event_def require_model_provenance_def result_simps
      dest!: freeze_payload_same)

lemma valid_event_iff: "valid_event C e \<longleftrightarrow> (\<exists>e'. validate_event C e = Inr e')"
  using validate_event_same by (auto simp: valid_event_def)

lemma valid_eventD:
  assumes "valid_event C e"
  shows "event_fields_ok e"
    and "payload_bounded 0 (ev_payload e)"
    and "distinct (ev_parents e)" and "distinct (ev_artifact_refs e)"
    and "ev_payload_hash e = canonical_payload_hash C (ev_payload e)"
    and "ev_id e \<notin> set (ev_parents e)"
    and "ev_observed_at e \<le> ev_recorded_at e"
    and "ev_model e \<noteq> None \<longleftrightarrow> model_identity_required e"
    and "ev_trust e \<in> set (allowed_trust (actor_kind (ev_actor e)))"
proof -
  from assms obtain p where p: "freeze_payload C (ev_payload e) = Inr p"
    and rest: "event_fields_ok e" "distinct (ev_parents e)" "distinct (ev_artifact_refs e)"
      "require_model_provenance C (e\<lparr>ev_payload := p\<rparr>) = Inr e"
    by (auto simp: valid_event_def validate_event_def result_simps)
  have p_eq: "p = ev_payload e" using p by (rule freeze_payload_same)
  show "payload_bounded 0 (ev_payload e)"
    using p by (simp add: freeze_payload_Inr)
  show "event_fields_ok e" "distinct (ev_parents e)" "distinct (ev_artifact_refs e)"
    "ev_payload_hash e = canonical_payload_hash C (ev_payload e)"
    "ev_id e \<notin> set (ev_parents e)" "ev_observed_at e \<le> ev_recorded_at e"
    "ev_model e \<noteq> None \<longleftrightarrow> model_identity_required e"
    "ev_trust e \<in> set (allowed_trust (actor_kind (ev_actor e)))"
    using rest p_eq by (auto simp: require_model_provenance_def result_simps)
qed

lemma valid_eventI:
  assumes "event_fields_ok e"
    and "ev_payload e = JMap kvs" and "payload_bounded 0 (ev_payload e)"
    and "length (c_canon C (ev_payload e)) \<le> max_event_payload_bytes"
    and "distinct (ev_parents e)" and "distinct (ev_artifact_refs e)"
    and "ev_payload_hash e = canonical_payload_hash C (ev_payload e)"
    and "ev_id e \<notin> set (ev_parents e)"
    and "ev_observed_at e \<le> ev_recorded_at e"
    and "ev_model e \<noteq> None \<longleftrightarrow> model_identity_required e"
    and "ev_trust e \<in> set (allowed_trust (actor_kind (ev_actor e)))"
  shows "valid_event C e"
proof -
  have "freeze_payload C (ev_payload e) = Inr (ev_payload e)"
    using assms(2-4) by (simp add: freeze_payload_Inr)
  then show ?thesis
    using assms by (cases "actor_kind (ev_actor e)")
      (auto simp: valid_event_def validate_event_def require_model_provenance_def result_simps
        model_identity_required_def)
qed

lemma model_event_generated:
  "valid_event C e \<Longrightarrow> actor_kind (ev_actor e) = Model \<Longrightarrow> ev_trust e = ModelGenerated"
  using valid_eventD(9) [of C e] by simp

lemma decode_encode: "codec_ok C \<Longrightarrow> valid_event C e \<Longrightarrow> decode_event C (c_enc C e) = Some e"
  by (simp add: codec_ok_def decode_event_def valid_event_def)

lemma decode_event_valid: "decode_event C s = Some e \<Longrightarrow> valid_event C e"
  by (auto simp: decode_event_def valid_event_iff split: option.splits sum.splits
      dest: validate_event_same)

lemma encode_inj:
  "codec_ok C \<Longrightarrow> valid_event C e \<Longrightarrow> valid_event C f \<Longrightarrow> c_enc C e = c_enc C f \<Longrightarrow> e = f"
  unfolding codec_ok_def by (metis option.inject)

end
