(* ===== verification/Samples.thy ===== *)
theory Samples
  imports Events "HOL-Library.Countable"
begin

text \<open>
  A concrete codec and concrete events, on which the properties of the other theories are
  evaluated: a constant 32-byte digest, a constant canonical form, and an encoding of events
  as runs of one character that is read back exactly.
\<close>

instance pyfloat :: countable by countable_datatype
instance jval :: countable by countable_datatype
instance actor_type :: countable by countable_datatype
instance event_type :: countable by countable_datatype
instance trust_class :: countable by countable_datatype
instance sensitivity :: countable by countable_datatype

instance actor_ext :: (countable) countable
  by (rule countable_classI [of "\<lambda>a. to_nat (actor_id a, actor_kind a, actor.more a)"]) simp

instance model_identity_ext :: (countable) countable
  by (rule countable_classI [of "\<lambda>m. to_nat (mi_provider m, mi_name m, mi_configuration_hash m,
      model_identity.more m)"]) simp

definition event_tuple :: "event \<Rightarrow> (string \<times> string \<times> string \<times> string \<times> actor \<times> event_type \<times> int \<times>
    int \<times> string) \<times> string list \<times> string list \<times> trust_class \<times> sensitivity \<times> jval \<times>
    model_identity option" where
  "event_tuple e = ((ev_id e, ev_session e, ev_run e, ev_task e, ev_actor e, ev_type e,
     ev_observed_at e, ev_recorded_at e, ev_payload_hash e), ev_artifact_refs e, ev_parents e,
     ev_trust e, ev_sensitivity e, ev_payload e, ev_model e)"

lemma event_tuple_inj: "event_tuple e = event_tuple f \<longleftrightarrow> e = f"
  by (cases e; cases f) (simp add: event_tuple_def)

definition event_index :: "event \<Rightarrow> nat" where
  "event_index e = to_nat (event_tuple e)"

definition event_at :: "nat \<Rightarrow> event" where
  "event_at n = (THE e. event_index e = n)"

lemma event_at_index [simp]: "event_at (event_index e) = e"
  by (simp add: event_at_def event_index_def event_tuple_inj)

definition sample_sha :: hash_fn where
  "sample_sha s = replicate 32 (CHR ''a'')"

definition sample_codec :: codec where
  "sample_codec = \<lparr> c_sha = sample_sha, c_canon = (\<lambda>_. ''{}''),
     c_enc = (\<lambda>e. replicate (event_index e) (CHR ''x'')),
     c_parse = (\<lambda>s. Some (event_at (length s))) \<rparr>"

lemma sample_sha_ok [simp]: "hash_ok sample_sha"
  by (simp add: hash_ok_def sample_sha_def)

lemma sample_codec_ok [simp]: "codec_ok sample_codec"
  by (simp add: codec_ok_def sample_codec_def)

lemma sample_codec_simps [simp]:
  "c_sha sample_codec = sample_sha" "c_canon sample_codec p = ''{}''"
  by (simp_all add: sample_codec_def)

definition sample_digest :: string where
  "sample_digest = ''sha256:'' @ concat (replicate 32 ''61'')"

lemma sample_digest_ref [simp]: "digest_ref sample_sha s = sample_digest"
  unfolding digest_ref_def hexdigest_def sample_sha_def sample_digest_def by code_simp

lemma sample_digest_is_digest [simp]: "is_digest sample_digest"
  using digest_ref_is_digest [OF sample_sha_ok, of "[]"] by simp

lemma sample_payload_hash [simp]: "canonical_payload_hash sample_codec p = sample_digest"
  by (simp add: canonical_payload_hash_def)

text \<open>Identifiers ending in a chosen digit.\<close>

definition sample_id :: "string \<Rightarrow> char \<Rightarrow> string" where
  "sample_id tag c = tag @ ''_'' @ replicate 25 (CHR ''0'') @ [c]"

lemma sample_id_tagged [simp]: "c \<in> set crockford \<Longrightarrow> tagged_id tag (sample_id tag c)"
  unfolding sample_id_def
  by (rule tagged_idI) (simp add: is_ulid_def all_in_set crockford_def)

lemma sample_id_inj [simp]: "sample_id tag c = sample_id tag d \<longleftrightarrow> c = d"
  by (simp add: sample_id_def)

definition sample_actor :: actor where
  "sample_actor = \<lparr> actor_id = ''human_local'', actor_kind = Human \<rparr>"

text \<open>A human message of the sample session, with the given identity, parents and text.\<close>

definition sample_message :: "char \<Rightarrow> string list \<Rightarrow> string \<Rightarrow> event" where
  "sample_message c parents txt =
     \<lparr> ev_id = sample_id ''evt'' c, ev_session = sample_id ''ses'' (CHR ''1''),
       ev_run = sample_id ''run'' (CHR ''1''), ev_task = sample_id ''tsk'' (CHR ''1''),
       ev_actor = sample_actor, ev_type = Message, ev_observed_at = 10, ev_recorded_at = 11,
       ev_payload_hash = sample_digest, ev_artifact_refs = [], ev_parents = parents,
       ev_trust = HumanVerified, ev_sensitivity = Private,
       ev_payload = jobj [(''text'', JStr txt)], ev_model = None \<rparr>"

lemma sample_actor_valid [simp]: "valid_actor sample_actor"
  by code_simp

lemma sample_message_simps [simp]:
  "ev_id (sample_message c ps t) = sample_id ''evt'' c"
  "ev_parents (sample_message c ps t) = ps" "ev_artifact_refs (sample_message c ps t) = []"
  "ev_session (sample_message c ps t) = sample_id ''ses'' (CHR ''1'')"
  "ev_payload (sample_message c ps t) = jobj [(''text'', JStr t)]"
  by (simp_all add: sample_message_def)

lemma sample_message_valid:
  assumes "c \<in> set crockford" and "distinct ps" and "list_all (tagged_id ''evt'') ps"
    and "sample_id ''evt'' c \<notin> set ps" and "length t \<le> 16384"
  shows "valid_event sample_codec (sample_message c ps t)"
proof (rule valid_eventI)
  show "event_fields_ok (sample_message c ps t)"
    using assms by (simp add: event_fields_ok_def sample_message_def crockford_def)
qed (use assms in \<open>auto simp: sample_message_def jobj_def payload_key_def max_event_payload_bytes_def
    sample_actor_def model_identity_required_def\<close>)

lemma sample_key [simp]: "is_idempotency_key ''k1''" "is_idempotency_key ''k2''"
  by (code_simp)+

end
