(* ===== verification/Event_Store.thy ===== *)
theory Event_Store
  imports Samples
begin

text \<open>
  \<open>storage/sqlite.py\<close> with \<open>storage/migrations/001_events.sql\<close>: the append-only ledger.
  A row is what the table stores, encoded text and digests included; the sequence number is
  the position.  \<open>spec_append_many\<close> is the contract (an append-only log of events under
  distinct idempotency keys), \<open>append_many\<close> the code, and \<open>append_many_refines\<close> the
  refinement.  The locale \<open>event_store\<close> is what the services that append events rely on.
\<close>

section \<open>Rows and errors\<close>

record ledger_row =
  lr_event_id :: string
  lr_key :: string
  lr_session :: string
  lr_recorded_at :: int
  lr_payload_hash :: string
  lr_json :: string
  lr_sha256 :: string

type_synonym ledger = "ledger_row list"

datatype store_error =
    InvalidEvent
  | InvalidIdempotencyKey
  | MissingCausalParent string
  | UnresolvedArtifactReference string
  | IdempotencyConflict
  | DuplicateEvent
  | EventConstraint
  | LedgerCorruption string

text \<open>The parameters of one \<open>INSERT\<close>.\<close>

definition row_of :: "codec \<Rightarrow> event \<Rightarrow> string \<Rightarrow> ledger_row" where
  "row_of C e key =
     (let encoded = c_enc C e in
      \<lparr> lr_event_id = ev_id e, lr_key = key, lr_session = ev_session e,
        lr_recorded_at = ev_recorded_at e, lr_payload_hash = ev_payload_hash e,
        lr_json = encoded, lr_sha256 = hexdigest (c_sha C) encoded \<rparr>)"

text \<open>
  The indexed expression of \<open>events_one_artifact_association_review\<close>: a row outside the
  partial index, or one whose \<open>proposal_id\<close> is SQL NULL, constrains nothing.
\<close>

definition association_review_key :: "event \<Rightarrow> jval option" where
  "association_review_key e =
     (if jget (ev_payload e) ''operation'' = Some (JStr ''artifact_association_review'')
      then (case jget (ev_payload e) ''proposal_id'' of
              Some v \<Rightarrow> if v = JNull then None else Some v
            | None \<Rightarrow> None)
      else None)"

definition row_review_key :: "codec \<Rightarrow> ledger_row \<Rightarrow> jval option" where
  "row_review_key C r =
     (case c_parse C (lr_json r) of None \<Rightarrow> None | Some e \<Rightarrow> association_review_key e)"

text \<open>Whether inserting \<open>r\<close> raises \<open>sqlite3.IntegrityError\<close>.\<close>

definition violates_unique :: "codec \<Rightarrow> ledger \<Rightarrow> ledger_row \<Rightarrow> bool" where
  "violates_unique C rows r \<longleftrightarrow>
     lr_event_id r \<in> set (map lr_event_id rows) \<or>
     lr_key r \<in> set (map lr_key rows) \<or>
     (row_review_key C r \<noteq> None \<and> row_review_key C r \<in> set (map (row_review_key C) rows))"

section \<open>Appending\<close>

definition missing_parent :: "ledger \<Rightarrow> event \<Rightarrow> string option" where
  "missing_parent rows e = find (\<lambda>p. p \<notin> set (map lr_event_id rows)) (ev_parents e)"

text \<open>
  The first artifact reference that cannot be verified; without an artifact store every
  reference fails.
\<close>

definition unresolved_reference :: "(string \<Rightarrow> bool) option \<Rightarrow> event \<Rightarrow> string option" where
  "unresolved_reference artifacts e =
     (case artifacts of
        None \<Rightarrow> find (\<lambda>_. True) (ev_artifact_refs e)
      | Some verified \<Rightarrow> find (\<lambda>r. \<not> verified r) (ev_artifact_refs e))"

definition append_one ::
    "codec \<Rightarrow> (string \<Rightarrow> bool) option \<Rightarrow> ledger \<Rightarrow> event \<Rightarrow> string \<Rightarrow> store_error + ledger \<times> string" where
  "append_one C artifacts rows e key =
     (if \<not> valid_event C e then Inl InvalidEvent
      else if \<not> is_idempotency_key key then Inl InvalidIdempotencyKey
      else case missing_parent rows e of
        Some parent_id \<Rightarrow> Inl (MissingCausalParent parent_id)
      | None \<Rightarrow> (case unresolved_reference artifacts e of
          Some reference \<Rightarrow> Inl (UnresolvedArtifactReference reference)
        | None \<Rightarrow>
            let encoded = c_enc C e; row = row_of C e key in
            if \<not> violates_unique C rows row then Inr (rows @ [row], ev_id e)
            else (case find (\<lambda>r. lr_key r = key) rows of
                Some r \<Rightarrow>
                  if lr_event_id r = ev_id e \<and> lr_json r = encoded then Inr (rows, ev_id e)
                  else Inl IdempotencyConflict
              | None \<Rightarrow>
                  if ev_id e \<in> set (map lr_event_id rows) then Inl DuplicateEvent
                  else Inl EventConstraint)))"

fun append_loop ::
    "codec \<Rightarrow> (string \<Rightarrow> bool) option \<Rightarrow> ledger \<Rightarrow> (event \<times> string) list
      \<Rightarrow> store_error + ledger \<times> string list" where
  "append_loop C artifacts rows [] = Inr (rows, [])"
| "append_loop C artifacts rows ((e, key) # entries) =
     (case append_one C artifacts rows e key of
        Inl x \<Rightarrow> Inl x
      | Inr (rows', i) \<Rightarrow>
          (case append_loop C artifacts rows' entries of
             Inl x \<Rightarrow> Inl x
           | Inr (rows'', ids) \<Rightarrow> Inr (rows'', i # ids)))"

text \<open>\<open>with self._connection\<close>: commit on success, roll back on an exception.\<close>

definition append_many ::
    "codec \<Rightarrow> (string \<Rightarrow> bool) option \<Rightarrow> ledger \<Rightarrow> (event \<times> string) list
      \<Rightarrow> (store_error + string list) \<times> ledger" where
  "append_many C artifacts rows entries =
     (case append_loop C artifacts rows entries of
        Inl x \<Rightarrow> (Inl x, rows)
      | Inr (rows', ids) \<Rightarrow> (Inr ids, rows'))"

definition append_event ::
    "codec \<Rightarrow> (string \<Rightarrow> bool) option \<Rightarrow> ledger \<Rightarrow> event \<Rightarrow> string
      \<Rightarrow> (store_error + string) \<times> ledger" where
  "append_event C artifacts rows e key =
     (case append_many C artifacts rows [(e, key)] of
        (Inl x, rows') \<Rightarrow> (Inl x, rows')
      | (Inr ids, rows') \<Rightarrow> (Inr (hd ids), rows'))"

section \<open>Reading\<close>

definition read_row :: "codec \<Rightarrow> ledger_row \<Rightarrow> store_error + event" where
  "read_row C r =
     (if hexdigest (c_sha C) (lr_json r) \<noteq> lr_sha256 r then Inl (LedgerCorruption (lr_event_id r))
      else case decode_event C (lr_json r) of
        None \<Rightarrow> Inl (LedgerCorruption (lr_event_id r))
      | Some e \<Rightarrow>
          if ev_payload_hash e \<noteq> lr_payload_hash r then Inl (LedgerCorruption (lr_event_id r))
          else Inr e)"

definition stream :: "codec \<Rightarrow> ledger \<Rightarrow> string \<Rightarrow> store_error + event list" where
  "stream C rows session_id =
     map_result (read_row C) (filter (\<lambda>r. lr_session r = session_id) rows)"

definition iter_all :: "codec \<Rightarrow> ledger \<Rightarrow> store_error + event list" where
  "iter_all C rows = map_result (read_row C) rows"

definition get_event :: "codec \<Rightarrow> ledger \<Rightarrow> string \<Rightarrow> store_error + event option" where
  "get_event C rows event_id =
     (case find (\<lambda>r. lr_event_id r = event_id) rows of
        None \<Rightarrow> Inr None
      | Some r \<Rightarrow> try_bind (read_row C r) (\<lambda>e. Inr (Some e)))"

definition get_by_idempotency :: "codec \<Rightarrow> ledger \<Rightarrow> string \<Rightarrow> store_error + event option" where
  "get_by_idempotency C rows key =
     (if \<not> is_idempotency_key key then Inl InvalidIdempotencyKey
      else case find (\<lambda>r. lr_key r = key) rows of
        None \<Rightarrow> Inr None
      | Some r \<Rightarrow> try_bind (read_row C r) (\<lambda>e. Inr (Some e)))"

text \<open>The schema version gate of \<open>__init__\<close>.\<close>

datatype open_error = UnsupportedSchemaVersion nat

definition open_event_store :: "nat \<Rightarrow> open_error + nat" where
  "open_event_store version =
     (if version \<notin> {0, 1} then Inl (UnsupportedSchemaVersion version) else Inr 1)"

section \<open>The abstract log\<close>

text \<open>The contract: a list of events, each under the key it was appended with.\<close>

type_synonym event_log = "(event \<times> string) list"

definition log_rows :: "codec \<Rightarrow> event_log \<Rightarrow> ledger" where
  "log_rows C lg = map (\<lambda>(e, k). row_of C e k) lg"

definition spec_append_one ::
    "codec \<Rightarrow> (string \<Rightarrow> bool) option \<Rightarrow> event_log \<Rightarrow> event \<Rightarrow> string
      \<Rightarrow> store_error + event_log \<times> string" where
  "spec_append_one C artifacts lg e key =
     (if \<not> valid_event C e then Inl InvalidEvent
      else if \<not> is_idempotency_key key then Inl InvalidIdempotencyKey
      else case find (\<lambda>p. p \<notin> set (map (ev_id \<circ> fst) lg)) (ev_parents e) of
        Some parent_id \<Rightarrow> Inl (MissingCausalParent parent_id)
      | None \<Rightarrow> (case unresolved_reference artifacts e of
          Some reference \<Rightarrow> Inl (UnresolvedArtifactReference reference)
        | None \<Rightarrow> (case find (\<lambda>(_, k). k = key) lg of
              Some (e', _) \<Rightarrow> if e' = e then Inr (lg, ev_id e) else Inl IdempotencyConflict
            | None \<Rightarrow>
                if ev_id e \<in> set (map (ev_id \<circ> fst) lg) then Inl DuplicateEvent
                else if association_review_key e \<noteq> None \<and>
                  association_review_key e \<in> set (map (association_review_key \<circ> fst) lg)
                then Inl EventConstraint
                else Inr (lg @ [(e, key)], ev_id e))))"

fun spec_append_loop ::
    "codec \<Rightarrow> (string \<Rightarrow> bool) option \<Rightarrow> event_log \<Rightarrow> (event \<times> string) list
      \<Rightarrow> store_error + event_log \<times> string list" where
  "spec_append_loop C artifacts lg [] = Inr (lg, [])"
| "spec_append_loop C artifacts lg ((e, key) # entries) =
     (case spec_append_one C artifacts lg e key of
        Inl x \<Rightarrow> Inl x
      | Inr (lg', i) \<Rightarrow>
          (case spec_append_loop C artifacts lg' entries of
             Inl x \<Rightarrow> Inl x
           | Inr (lg'', ids) \<Rightarrow> Inr (lg'', i # ids)))"

definition spec_append_many ::
    "codec \<Rightarrow> (string \<Rightarrow> bool) option \<Rightarrow> event_log \<Rightarrow> (event \<times> string) list
      \<Rightarrow> (store_error + string list) \<times> event_log" where
  "spec_append_many C artifacts lg entries =
     (case spec_append_loop C artifacts lg entries of
        Inl x \<Rightarrow> (Inl x, lg)
      | Inr (lg', ids) \<Rightarrow> (Inr ids, lg'))"

text \<open>
  The invariant of the log: valid events under portable keys, one event per identity and per
  key, at most one review of a proposal, and every causal parent strictly earlier.
\<close>

definition causal_order :: "event list \<Rightarrow> bool" where
  "causal_order es \<longleftrightarrow> (\<forall>i<length es. set (ev_parents (es ! i)) \<subseteq> set (map ev_id (take i es)))"

definition log_ok :: "codec \<Rightarrow> event_log \<Rightarrow> bool" where
  "log_ok C lg \<longleftrightarrow>
     (\<forall>(e, k)\<in>set lg. valid_event C e \<and> is_idempotency_key k) \<and>
     distinct (map (ev_id \<circ> fst) lg) \<and> distinct (map snd lg) \<and>
     distinct (filter (\<lambda>x. x \<noteq> None) (map (association_review_key \<circ> fst) lg)) \<and>
     causal_order (map fst lg)"

section \<open>Rows of a log\<close>

lemma row_of_simps [simp]:
  "lr_event_id (row_of C e k) = ev_id e" "lr_key (row_of C e k) = k"
  "lr_session (row_of C e k) = ev_session e" "lr_json (row_of C e k) = c_enc C e"
  "lr_payload_hash (row_of C e k) = ev_payload_hash e"
  by (simp_all add: row_of_def Let_def)

lemma log_rows_simps [simp]:
  "log_rows C [] = []"
  "log_rows C (x # lg) = row_of C (fst x) (snd x) # log_rows C lg"
  "log_rows C (lg @ lg') = log_rows C lg @ log_rows C lg'"
  by (auto simp: log_rows_def split: prod.splits)

lemma log_rows_maps [simp]:
  "map lr_event_id (log_rows C lg) = map (ev_id \<circ> fst) lg"
  "map lr_key (log_rows C lg) = map snd lg"
  by (induction lg) auto

lemma log_rows_ids [simp]: "lr_event_id ` set (log_rows C lg) = (\<lambda>x. ev_id (fst x)) ` set lg"
  by (induction lg) auto

lemma log_rows_keys [simp]: "lr_key ` set (log_rows C lg) = snd ` set lg"
  by (induction lg) auto

lemma row_review_key_row_of [simp]:
  "codec_ok C \<Longrightarrow> valid_event C e \<Longrightarrow> row_review_key C (row_of C e k) = association_review_key e"
  by (simp add: row_review_key_def codec_ok_def)

lemma log_rows_review:
  "codec_ok C \<Longrightarrow> \<forall>x\<in>set lg. valid_event C (fst x) \<Longrightarrow>
   row_review_key C ` set (log_rows C lg) = (\<lambda>x. association_review_key (fst x)) ` set lg"
  by (induction lg) auto

lemma find_log_rows:
  "(\<And>e k. P (row_of C e k) \<longleftrightarrow> Q (e, k)) \<Longrightarrow>
   find P (log_rows C lg) = map_option (\<lambda>(e, k). row_of C e k) (find Q lg)"
  by (induction lg) (auto split: prod.splits)

lemma find_key_log_rows:
  "find (\<lambda>r. lr_key r = key) (log_rows C lg) =
     map_option (\<lambda>(e, k). row_of C e k) (find (\<lambda>(_, k). k = key) lg)"
  by (rule find_log_rows) simp

lemma find_id_log_rows:
  "find (\<lambda>r. lr_event_id r = i) (log_rows C lg) =
     map_option (\<lambda>(e, k). row_of C e k) (find (\<lambda>(e, _). ev_id e = i) lg)"
  by (rule find_log_rows) simp

lemma filter_log_rows:
  "filter (\<lambda>r. lr_session r = s) (log_rows C lg) =
     log_rows C (filter (\<lambda>(e, _). ev_session e = s) lg)"
  by (induction lg) auto

lemma find_key_NoneI: "find (\<lambda>(_, k). k = key) lg = None \<longleftrightarrow> key \<notin> snd ` set lg"
  by (force simp: find_None_iff_all)

lemma find_key_SomeD: "find (\<lambda>(_, k). k = key) lg = Some (e, k) \<Longrightarrow> k = key \<and> (e, key) \<in> set lg"
  by (drule find_Some_mem) auto

section \<open>The code refines the abstract log\<close>

lemma append_one_refines:
  assumes "codec_ok C" and "log_ok C lg"
  shows "append_one C artifacts (log_rows C lg) e key =
     (case spec_append_one C artifacts lg e key of
        Inl x \<Rightarrow> Inl x
      | Inr (lg', i) \<Rightarrow> Inr (log_rows C lg', i))"
proof (cases "valid_event C e")
  case False
  then show ?thesis by (simp add: append_one_def spec_append_one_def)
next
  case e: True
  have valid: "\<forall>x\<in>set lg. valid_event C (fst x)" using assms(2) by (auto simp: log_ok_def)
  note review = log_rows_review [OF assms(1) valid]
  show ?thesis
  proof (cases "find (\<lambda>(_, k). k = key) lg")
    case None
    then have "key \<notin> snd ` set lg" by (simp add: find_key_NoneI)
    with None assms(1) e show ?thesis
      by (simp add: append_one_def spec_append_one_def missing_parent_def violates_unique_def
          Let_def find_key_log_rows review o_def split: option.splits)
  next
    case (Some x)
    then obtain e' where x: "x = (e', key)" "(e', key) \<in> set lg"
      by (cases x) (auto dest: find_key_SomeD)
    then have "key \<in> snd ` set lg" "valid_event C e'" using valid by force+
    with Some x e assms(1) show ?thesis
      by (auto simp: append_one_def spec_append_one_def missing_parent_def violates_unique_def
          Let_def find_key_log_rows o_def split: option.splits dest: encode_inj)
  qed
qed

section \<open>The abstract log keeps its invariant\<close>

lemma spec_append_one_cases:
  assumes "spec_append_one C artifacts lg e key = Inr (lg', i)"
  obtains (replay) "lg' = lg" "(e, key) \<in> set lg" "i = ev_id e"
  | (fresh) "lg' = lg @ [(e, key)]" "i = ev_id e" "valid_event C e" "is_idempotency_key key"
      "set (ev_parents e) \<subseteq> set (map (ev_id \<circ> fst) lg)"
      "unresolved_reference artifacts e = None"
      "key \<notin> snd ` set lg" "ev_id e \<notin> set (map (ev_id \<circ> fst) lg)"
      "association_review_key e = None \<or>
        association_review_key e \<notin> set (map (association_review_key \<circ> fst) lg)"
proof (cases "find (\<lambda>(_, k). k = key) lg")
  case None
  then have key: "key \<notin> snd ` set lg" by (simp add: find_key_NoneI)
  have parents: "set (ev_parents e) \<subseteq> set (map (ev_id \<circ> fst) lg)"
    using assms unfolding spec_append_one_def
    by (auto split: if_splits option.splits simp: find_None_iff_all)
  show ?thesis
    using None assms
    by (intro fresh key parents) (auto simp: spec_append_one_def split: if_splits option.splits)
next
  case (Some x)
  then obtain e' where x: "x = (e', key)" "(e', key) \<in> set lg"
    by (cases x) (auto dest: find_key_SomeD)
  with Some assms show ?thesis
    by (intro replay) (auto simp: spec_append_one_def split: if_splits option.splits)
qed

lemma spec_append_one_admitted:
  assumes "spec_append_one C artifacts lg e key = Inr (lg', i)"
  shows "valid_event C e" "is_idempotency_key key" "unresolved_reference artifacts e = None"
    "set (ev_parents e) \<subseteq> set (map (ev_id \<circ> fst) lg)"
  using assms unfolding spec_append_one_def
  by (auto split: if_splits option.splits simp: find_None_iff_all)

lemma causal_order_snoc:
  "causal_order (es @ [e]) \<longleftrightarrow> causal_order es \<and> set (ev_parents e) \<subseteq> set (map ev_id es)"
  by (auto simp: causal_order_def nth_append less_Suc_eq)

lemma log_ok_Nil [simp]: "log_ok C []"
  by (simp add: log_ok_def causal_order_def)

lemma spec_append_one_ok:
  assumes "log_ok C lg" and "spec_append_one C artifacts lg e key = Inr (lg', i)"
  shows "log_ok C lg' \<and> i = ev_id e \<and> (e, key) \<in> set lg' \<and> (lg' = lg \<or> lg' = lg @ [(e, key)])"
  using assms(2)
proof (cases rule: spec_append_one_cases)
  case replay
  with assms(1) show ?thesis by simp
next
  case fresh
  have "log_ok C (lg @ [(e, key)])"
    using assms(1) fresh by (auto simp: log_ok_def causal_order_snoc)
  with fresh show ?thesis by simp
qed

text \<open>The loop and the transaction refine theirs.\<close>

lemma append_loop_refines:
  assumes "codec_ok C" and "log_ok C lg"
  shows "append_loop C artifacts (log_rows C lg) entries =
     (case spec_append_loop C artifacts lg entries of
        Inl x \<Rightarrow> Inl x
      | Inr (lg', ids) \<Rightarrow> Inr (log_rows C lg', ids))"
  using assms(2)
proof (induction entries arbitrary: lg)
  case Nil
  show ?case by simp
next
  case (Cons x entries)
  obtain e key where x: "x = (e, key)" by (cases x)
  show ?case
  proof (cases "spec_append_one C artifacts lg e key")
    case (Inl err)
    then show ?thesis using x Cons.prems by (simp add: append_one_refines [OF assms(1)])
  next
    case (Inr p)
    obtain l1 i where p: "p = (l1, i)" by (cases p)
    with Inr spec_append_one_ok [OF Cons.prems] have "log_ok C l1" by blast
    with Inr p x Cons.prems show ?thesis
      by (simp add: append_one_refines [OF assms(1)] Cons.IH split: sum.splits prod.splits)
  qed
qed

lemma append_many_refines:
  assumes "codec_ok C" and "log_ok C lg"
  shows "append_many C artifacts (log_rows C lg) entries =
     (case spec_append_many C artifacts lg entries of (r, lg') \<Rightarrow> (r, log_rows C lg'))"
  by (auto simp: append_many_def spec_append_many_def append_loop_refines [OF assms]
      split: sum.splits prod.splits)

lemma spec_append_loop_ok:
  assumes "log_ok C lg" and "spec_append_loop C artifacts lg entries = Inr (lg', ids)"
  shows "log_ok C lg' \<and> ids = map (ev_id \<circ> fst) entries \<and> set entries \<subseteq> set lg' \<and>
    (\<exists>new. lg' = lg @ new \<and> set new \<subseteq> set entries)"
  using assms
proof (induction entries arbitrary: lg lg' ids)
  case Nil
  then show ?case by simp
next
  case (Cons x entries)
  obtain e key where x: "x = (e, key)" by (cases x)
  from Cons.prems(2) x obtain l1 i js where step:
    "spec_append_one C artifacts lg e key = Inr (l1, i)"
    "spec_append_loop C artifacts l1 entries = Inr (lg', js)" "ids = i # js"
    by (auto split: sum.splits prod.splits)
  note one = spec_append_one_ok [OF Cons.prems(1) step(1)]
  then have "log_ok C l1" by simp
  from Cons.IH [OF this step(2)] obtain new where new:
    "lg' = l1 @ new" "set new \<subseteq> set entries" "log_ok C lg'" "js = map (ev_id \<circ> fst) entries"
    "set entries \<subseteq> set lg'" by auto
  with one x step(3) show ?case by auto
qed

text \<open>Appending what is already there changes nothing.\<close>

lemma spec_append_one_again:
  assumes "log_ok C lg" and "(e, key) \<in> set lg" and "valid_event C e" and "is_idempotency_key key"
    and "unresolved_reference artifacts e = None"
    and "set (ev_parents e) \<subseteq> set (map (ev_id \<circ> fst) lg)"
  shows "spec_append_one C artifacts lg e key = Inr (lg, ev_id e)"
proof -
  have "find (\<lambda>x. snd x = key) lg = Some (e, key)"
    using assms(1,2) by (intro find_unique) (auto simp: log_ok_def)
  then have "find (\<lambda>(_, k). k = key) lg = Some (e, key)" by (simp add: case_prod_unfold)
  moreover have "find (\<lambda>p. p \<notin> set (map (ev_id \<circ> fst) lg)) (ev_parents e) = None"
    using assms(6) by (auto simp: find_None_iff_all)
  ultimately show ?thesis using assms(3-5) by (simp add: spec_append_one_def)
qed

lemma spec_append_loop_admitted:
  assumes "log_ok C lg" and "spec_append_loop C artifacts lg entries = Inr (lg', ids)"
    and "(e, key) \<in> set entries"
  shows "valid_event C e \<and> is_idempotency_key key \<and> unresolved_reference artifacts e = None \<and>
    set (ev_parents e) \<subseteq> set (map (ev_id \<circ> fst) lg')"
  using assms
proof (induction entries arbitrary: lg ids)
  case Nil
  then show ?case by simp
next
  case (Cons x entries)
  obtain f k where x: "x = (f, k)" by (cases x)
  from Cons.prems(2) x obtain l1 i js where step:
    "spec_append_one C artifacts lg f k = Inr (l1, i)"
    "spec_append_loop C artifacts l1 entries = Inr (lg', js)"
    by (auto split: sum.splits prod.splits)
  note one = spec_append_one_ok [OF Cons.prems(1) step(1)]
  then have ok: "log_ok C l1" by simp
  show ?case
  proof (cases "(e, key) = x")
    case True
    from spec_append_loop_ok [OF ok step(2)] one obtain new where "lg' = lg @ new" by auto
    then show ?thesis
      using True x spec_append_one_admitted [OF step(1)] by auto
  next
    case False
    with Cons.prems(3) have "(e, key) \<in> set entries" by simp
    then show ?thesis by (rule Cons.IH [OF ok step(2)])
  qed
qed

lemma spec_append_loop_again:
  assumes "log_ok C lg" and "\<And>e k. (e, k) \<in> set entries \<Longrightarrow> (e, k) \<in> set lg \<and> valid_event C e \<and>
      is_idempotency_key k \<and> unresolved_reference artifacts e = None \<and>
      set (ev_parents e) \<subseteq> set (map (ev_id \<circ> fst) lg)"
  shows "spec_append_loop C artifacts lg entries = Inr (lg, map (ev_id \<circ> fst) entries)"
  using assms(2)
proof (induction entries)
  case Nil
  show ?case by simp
next
  case (Cons x entries)
  obtain e k where x: "x = (e, k)" by (cases x)
  have "spec_append_one C artifacts lg e k = Inr (lg, ev_id e)"
    using Cons.prems [of e k] x by (intro spec_append_one_again [OF assms(1)]) auto
  moreover have "spec_append_loop C artifacts lg entries = Inr (lg, map (ev_id \<circ> fst) entries)"
    using Cons.prems by (intro Cons.IH) auto
  ultimately show ?case using x by simp
qed

lemma spec_append_loop_replay:
  assumes "log_ok C lg" and "spec_append_loop C artifacts lg entries = Inr (lg', ids)"
  shows "spec_append_loop C artifacts lg' entries = Inr (lg', ids)"
proof -
  note ok = spec_append_loop_ok [OF assms]
  have "spec_append_loop C artifacts lg' entries = Inr (lg', map (ev_id \<circ> fst) entries)"
    using ok spec_append_loop_admitted [OF assms]
    by (intro spec_append_loop_again) auto
  with ok show ?thesis by simp
qed

section \<open>Reading a ledger that holds a log\<close>

lemma read_row_row_of:
  "codec_ok C \<Longrightarrow> valid_event C e \<Longrightarrow> read_row C (row_of C e k) = Inr e"
  by (simp add: read_row_def decode_encode) (simp add: row_of_def Let_def)

lemma map_result_log_rows:
  assumes "codec_ok C" and "\<forall>(e, k)\<in>set lg. valid_event C e"
  shows "map_result (read_row C) (log_rows C lg) = Inr (map fst lg)"
  using assms by (induction lg) (auto simp: read_row_row_of)

lemma iter_all_log: "codec_ok C \<Longrightarrow> log_ok C lg \<Longrightarrow> iter_all C (log_rows C lg) = Inr (map fst lg)"
  unfolding iter_all_def by (rule map_result_log_rows) (auto simp: log_ok_def)

lemma stream_log:
  "codec_ok C \<Longrightarrow> log_ok C lg \<Longrightarrow>
   stream C (log_rows C lg) s = Inr (map fst (filter (\<lambda>(e, _). ev_session e = s) lg))"
  unfolding stream_def filter_log_rows
  by (rule map_result_log_rows) (auto simp: log_ok_def)

lemma get_by_idempotency_log:
  assumes "codec_ok C" and "log_ok C lg" and "is_idempotency_key key"
  shows "get_by_idempotency C (log_rows C lg) key =
     Inr (map_option fst (find (\<lambda>(_, k). k = key) lg))"
  using assms
  by (auto simp: get_by_idempotency_def find_key_log_rows log_ok_def read_row_row_of
      split: option.splits prod.splits dest!: find_key_SomeD)

lemma get_event_log:
  assumes "codec_ok C" and "log_ok C lg"
  shows "get_event C (log_rows C lg) i = Inr (find (\<lambda>e. ev_id e = i) (map fst lg))"
proof -
  have "find (\<lambda>e. ev_id e = i) (map fst lg) = map_option fst (find (\<lambda>(e, _). ev_id e = i) lg)"
    by (induction lg) auto
  then show ?thesis
    using assms by (auto simp: get_event_def find_id_log_rows log_ok_def read_row_row_of
        split: option.splits prod.splits dest!: find_Some_mem)
qed

text \<open>The state invariant of the ledger: it holds the rows of a log in order.\<close>

definition ledger_ok :: "codec \<Rightarrow> ledger \<Rightarrow> bool" where
  "ledger_ok C rows \<longleftrightarrow> codec_ok C \<and> (\<exists>lg. log_ok C lg \<and> rows = log_rows C lg)"

definition ledger_events :: "codec \<Rightarrow> ledger \<Rightarrow> event list" where
  "ledger_events C rows = (case iter_all C rows of Inl _ \<Rightarrow> [] | Inr es \<Rightarrow> es)"

definition ledger_lookup :: "codec \<Rightarrow> ledger \<Rightarrow> string \<Rightarrow> event option" where
  "ledger_lookup C rows key =
     (case get_by_idempotency C rows key of Inl _ \<Rightarrow> None | Inr e \<Rightarrow> e)"

lemma ledger_okE:
  assumes "ledger_ok C rows"
  obtains lg where "codec_ok C" "log_ok C lg" "rows = log_rows C lg"
  using assms by (auto simp: ledger_ok_def)

lemma ledger_events_log [simp]:
  "codec_ok C \<Longrightarrow> log_ok C lg \<Longrightarrow> ledger_events C (log_rows C lg) = map fst lg"
  by (simp add: ledger_events_def iter_all_log)

lemma append_many_log:
  assumes "codec_ok C" and "log_ok C lg"
    and "append_many C artifacts (log_rows C lg) entries = (Inr ids, rows')"
  obtains lg' where "spec_append_loop C artifacts lg entries = Inr (lg', ids)" "rows' = log_rows C lg'"
  using assms by (auto simp: append_many_def append_loop_refines split: sum.splits prod.splits)

lemma append_many_ok:
  assumes "ledger_ok C rows" and "append_many C artifacts rows entries = (r, rows')"
  shows "ledger_ok C rows'"
proof -
  from assms(1) obtain lg where lg: "codec_ok C" "log_ok C lg" "rows = log_rows C lg"
    by (rule ledger_okE)
  show ?thesis
  proof (cases "spec_append_loop C artifacts lg entries")
    case (Inl x)
    with assms lg show ?thesis by (auto simp: append_many_def append_loop_refines ledger_ok_def)
  next
    case (Inr p)
    obtain lg' ids where p: "p = (lg', ids)" by (cases p)
    with spec_append_loop_ok [OF lg(2)] Inr have "log_ok C lg'" by blast
    with assms lg Inr p show ?thesis
      by (auto simp: append_many_def append_loop_refines ledger_ok_def)
  qed
qed

lemma ledger_ok_empty: "codec_ok C \<Longrightarrow> ledger_ok C []"
  unfolding ledger_ok_def by (rule conjI, assumption, rule exI [of _ "[]"]) simp

section \<open>The interface the services append through\<close>

text \<open>
  \<open>EventStore\<close> of \<open>domain/storage.py\<close>: transactional appends under idempotency keys and the
  lookups by key.  The laws are the promises of the protocol's comments; its clients'
  lemmas are proved from the laws alone.
\<close>

locale event_store =
  fixes append_entries :: "'st \<Rightarrow> ('ev \<times> string) list \<Rightarrow> ('err + string list) \<times> 'st"
    and lookup :: "'st \<Rightarrow> string \<Rightarrow> 'ev option"
    and recorded :: "'st \<Rightarrow> 'ev list"
    and ident :: "'ev \<Rightarrow> string"
    and invar :: "'st \<Rightarrow> bool"
  assumes append_rollback: "append_entries s es = (Inl x, s') \<Longrightarrow> s' = s"
    and append_invar: "invar s \<Longrightarrow> append_entries s es = (r, s') \<Longrightarrow> invar s'"
    and append_ids: "invar s \<Longrightarrow> append_entries s es = (Inr ids, s') \<Longrightarrow> ids = map (ident \<circ> fst) es"
    and append_only: "invar s \<Longrightarrow> append_entries s es = (Inr ids, s') \<Longrightarrow>
      \<exists>new. recorded s' = recorded s @ new \<and> set new \<subseteq> fst ` set es"
    and append_lookup: "invar s \<Longrightarrow> append_entries s es = (Inr ids, s') \<Longrightarrow> (e, k) \<in> set es \<Longrightarrow>
      lookup s' k = Some e"
    and lookup_stable: "invar s \<Longrightarrow> append_entries s es = (Inr ids, s') \<Longrightarrow> lookup s k = Some e \<Longrightarrow>
      lookup s' k = Some e"
    and lookup_recorded: "invar s \<Longrightarrow> lookup s k = Some e \<Longrightarrow> e \<in> set (recorded s)"
    and recorded_distinct: "invar s \<Longrightarrow> distinct (map ident (recorded s))"
    and append_replay: "invar s \<Longrightarrow> append_entries s es = (Inr ids, s') \<Longrightarrow>
      append_entries s' es = (Inr ids, s')"
begin

text \<open>The state after a sequence of transactions, committed or rolled back.\<close>

definition after :: "'st \<Rightarrow> ('ev \<times> string) list list \<Rightarrow> 'st" where
  "after s txs = foldl (\<lambda>s es. snd (append_entries s es)) s txs"

lemma after_simps [simp]:
  "after s [] = s"
  "after s (es # txs) = after (snd (append_entries s es)) txs"
  by (simp_all add: after_def)

lemma transaction_cases:
  obtains (committed) ids s' where "append_entries s es = (Inr ids, s')"
  | (rolled_back) x where "append_entries s es = (Inl x, s)"
proof (cases "append_entries s es")
  case (Pair r s')
  then show ?thesis using append_rollback committed rolled_back by (cases r) auto
qed

lemma after_invar: "invar s \<Longrightarrow> invar (after s txs)"
proof (induction txs arbitrary: s)
  case (Cons es txs)
  then show ?case by (cases "append_entries s es") (auto dest: append_invar)
qed simp

lemma step_append_only:
  assumes "invar s"
  shows "\<exists>new. recorded (snd (append_entries s es)) = recorded s @ new"
  by (cases rule: transaction_cases [of s es]) (use append_only assms in fastforce)+

lemma after_append_only: "invar s \<Longrightarrow> \<exists>new. recorded (after s txs) = recorded s @ new"
proof (induction txs arbitrary: s)
  case (Cons es txs)
  let ?s = "snd (append_entries s es)"
  have "invar ?s" using Cons.prems by (cases "append_entries s es") (auto dest: append_invar)
  then obtain n2 where "recorded (after ?s txs) = recorded ?s @ n2" using Cons.IH by blast
  moreover obtain n1 where "recorded ?s = recorded s @ n1"
    using step_append_only [OF Cons.prems] by blast
  ultimately show ?case by simp
qed simp

lemma after_lookup: "invar s \<Longrightarrow> lookup s k = Some e \<Longrightarrow> lookup (after s txs) k = Some e"
proof (induction txs arbitrary: s)
  case (Cons es txs)
  have "invar (snd (append_entries s es))"
    using Cons.prems(1) by (cases "append_entries s es") (auto dest: append_invar)
  moreover have "lookup (snd (append_entries s es)) k = Some e"
    using Cons.prems lookup_stable by (cases rule: transaction_cases [of s es]) fastforce+
  ultimately show ?case using Cons.IH by simp
qed simp

text \<open>A key never changes its event: a later append of another event under it is refused.\<close>

lemma key_conflict_refused:
  assumes "invar s" and "lookup s k = Some e" and "e' \<noteq> e" and "(e', k) \<in> set es"
  shows "\<exists>x. append_entries s es = (Inl x, s)"
proof (cases rule: transaction_cases [of s es])
  case (committed ids s')
  then have "lookup s' k = Some e" "lookup s' k = Some e'"
    using assms lookup_stable append_lookup by blast+
  with assms(3) show ?thesis by simp
next
  case (rolled_back x)
  then show ?thesis by blast
qed

lemma committed_key_kept:
  assumes "invar s" and "append_entries s es = (Inr ids, s')" and "(e, k) \<in> set es"
  shows "lookup (after s' txs) k = Some e \<and> e \<in> set (recorded (after s' txs))"
proof -
  have inv: "invar s'" using assms append_invar by blast
  have "lookup (after s' txs) k = Some e"
    using after_lookup [OF inv] append_lookup [OF assms] by blast
  then show ?thesis using lookup_recorded [OF after_invar [OF inv]] by blast
qed

end

section \<open>The ledger provides the interface\<close>

lemma ledger_lookup_log:
  assumes "codec_ok C" and "log_ok C lg"
  shows "ledger_lookup C (log_rows C lg) k = Some e \<longleftrightarrow> (e, k) \<in> set lg"
proof
  assume l: "ledger_lookup C (log_rows C lg) k = Some e"
  then have "is_idempotency_key k"
    by (auto simp: ledger_lookup_def get_by_idempotency_def split: if_splits)
  with l show "(e, k) \<in> set lg"
    by (auto simp: ledger_lookup_def get_by_idempotency_log [OF assms] dest: find_key_SomeD)
next
  assume m: "(e, k) \<in> set lg"
  then have "is_idempotency_key k" using assms(2) by (auto simp: log_ok_def)
  moreover have "find (\<lambda>x. snd x = k) lg = Some (e, k)"
    using assms(2) m by (intro find_unique) (auto simp: log_ok_def)
  ultimately show "ledger_lookup C (log_rows C lg) k = Some e"
    by (simp add: ledger_lookup_def get_by_idempotency_log [OF assms] case_prod_unfold)
qed

lemma append_many_committed:
  assumes "ledger_ok C rows" and "append_many C artifacts rows entries = (Inr ids, rows')"
  obtains lg lg' new where "codec_ok C" "log_ok C lg" "log_ok C lg'" "rows = log_rows C lg"
    "rows' = log_rows C lg'" "lg' = lg @ new" "set new \<subseteq> set entries"
    "set entries \<subseteq> set lg'" "ids = map (ev_id \<circ> fst) entries"
    "spec_append_loop C artifacts lg entries = Inr (lg', ids)"
proof -
  from assms(1) obtain lg where lg: "codec_ok C" "log_ok C lg" "rows = log_rows C lg"
    by (rule ledger_okE)
  from append_many_log [OF lg(1,2)] assms(2) lg(3) obtain lg' where lg':
    "spec_append_loop C artifacts lg entries = Inr (lg', ids)" "rows' = log_rows C lg'" by metis
  from spec_append_loop_ok [OF lg(2) lg'(1)] show ?thesis using that lg lg' by blast
qed

interpretation ledger: event_store "append_many C artifacts" "ledger_lookup C" "ledger_events C"
  ev_id "ledger_ok C" for C artifacts
proof unfold_locales
  fix s s' es x
  assume "append_many C artifacts s es = (Inl x, s')"
  then show "s' = s" by (auto simp: append_many_def split: sum.splits prod.splits)
next
  fix s s' es r
  assume "ledger_ok C s" "append_many C artifacts s es = (r, s')"
  then show "ledger_ok C s'" by (rule append_many_ok)
next
  fix s k e
  assume "ledger_ok C s" "ledger_lookup C s k = Some e"
  then show "e \<in> set (ledger_events C s)"
    by (elim ledger_okE) (force simp: ledger_lookup_log)
next
  fix s
  assume "ledger_ok C s"
  then show "distinct (map ev_id (ledger_events C s))"
    by (elim ledger_okE) (simp add: log_ok_def)
next
  fix s s' es ids
  assume "ledger_ok C s" "append_many C artifacts s es = (Inr ids, s')"
  then obtain lg lg' new where *: "codec_ok C" "log_ok C lg" "log_ok C lg'" "s = log_rows C lg"
    "s' = log_rows C lg'" "lg' = lg @ new" "set new \<subseteq> set es" "set es \<subseteq> set lg'"
    "ids = map (ev_id \<circ> fst) es" "spec_append_loop C artifacts lg es = Inr (lg', ids)"
    by (rule append_many_committed)
  show "ids = map (ev_id \<circ> fst) es" by fact
  show "\<exists>new. ledger_events C s' = ledger_events C s @ new \<and> set new \<subseteq> fst ` set es"
  proof (intro exI conjI)
    show "ledger_events C s' = ledger_events C s @ map fst new"
      using * ledger_events_log [OF *(1,2)] ledger_events_log [OF *(1,3)] by simp
    show "set (map fst new) \<subseteq> fst ` set es" using *(7) by auto
  qed
  show "(e, k) \<in> set es \<Longrightarrow> ledger_lookup C s' k = Some e" for e k
    using * ledger_lookup_log [OF *(1,3)] by auto
  show "ledger_lookup C s k = Some e \<Longrightarrow> ledger_lookup C s' k = Some e" for e k
    using * ledger_lookup_log [OF *(1,2)] ledger_lookup_log [OF *(1,3)] by auto
  show "append_many C artifacts s' es = (Inr ids, s')"
    using * spec_append_loop_replay [OF *(2,10)]
    unfolding *(5) append_many_def append_loop_refines [OF *(1,3)]
      spec_append_loop_replay [OF *(2,10)] by simp
qed

section \<open>Properties\<close>

lemma sample_chain_valid:
  "valid_event sample_codec (sample_message (CHR ''1'') [] ''a'')"
  "valid_event sample_codec (sample_message (CHR ''2'') [sample_id ''evt'' (CHR ''1'')] ''b'')"
  by (rule sample_message_valid; simp add: crockford_def)+

lemma sample_append_spec:
  "spec_append_many sample_codec None [] [(sample_message (CHR ''1'') [] ''a'', ''k1''),
     (sample_message (CHR ''2'') [sample_id ''evt'' (CHR ''1'')] ''b'', ''k2'')] =
   (Inr [sample_id ''evt'' (CHR ''1''), sample_id ''evt'' (CHR ''2'')],
     [(sample_message (CHR ''1'') [] ''a'', ''k1''),
      (sample_message (CHR ''2'') [sample_id ''evt'' (CHR ''1'')] ''b'', ''k2'')])"
  by (simp add: spec_append_many_def spec_append_one_def sample_chain_valid
      unresolved_reference_def association_review_key_def)

text \<open>
  C1: \<open>append_many\<close> implements the abstract append-only log: on the rows of a log it returns
  the result the contract prescribes, error included, and leaves the rows of the prescribed
  log.
\<close>

theorem append_many_implements_log:
  assumes "codec_ok C" and "log_ok C lg"
  shows "append_many C artifacts (log_rows C lg) entries =
     (case spec_append_many C artifacts lg entries of (r, lg') \<Rightarrow> (r, log_rows C lg'))"
  by (rule append_many_refines [OF assms])

theorem append_many_implements_log_witness:
  "append_many sample_codec None [] [(sample_message (CHR ''1'') [] ''a'', ''k1''),
     (sample_message (CHR ''2'') [sample_id ''evt'' (CHR ''1'')] ''b'', ''k2'')] =
   (Inr [sample_id ''evt'' (CHR ''1''), sample_id ''evt'' (CHR ''2'')],
     [row_of sample_codec (sample_message (CHR ''1'') [] ''a'') ''k1'',
      row_of sample_codec (sample_message (CHR ''2'') [sample_id ''evt'' (CHR ''1'')] ''b'') ''k2''])"
  using append_many_implements_log [OF sample_codec_ok log_ok_Nil, of None
    "[(sample_message (CHR ''1'') [] ''a'', ''k1''),
      (sample_message (CHR ''2'') [sample_id ''evt'' (CHR ''1'')] ''b'', ''k2'')]"]
  unfolding sample_append_spec by simp

text \<open>
  C12: whatever sequence of transactions runs, committed or rolled back, the ledger stays a
  well-formed log (valid events, one per identity and key, parents strictly earlier) and
  only grows: every earlier history is a prefix of every later one.
\<close>

theorem ledger_append_only:
  assumes "ledger_ok C rows"
  shows "ledger_ok C (foldl (\<lambda>s es. snd (append_many C artifacts s es)) rows txs) \<and>
    (\<exists>new. ledger_events C (foldl (\<lambda>s es. snd (append_many C artifacts s es)) rows txs) =
       ledger_events C rows @ new)"
  using ledger.after_invar [OF assms] ledger.after_append_only [OF assms]
  by (simp add: ledger.after_def)

lemma sample_ledger_ok: "ledger_ok sample_codec []"
  by (rule ledger_ok_empty) simp

theorem ledger_append_only_witness:
  "ledger_ok sample_codec (snd (append_many sample_codec None []
     [(sample_message (CHR ''1'') [] ''a'', ''k1'')]))"
  using ledger_append_only [OF sample_ledger_ok, of None "[[(sample_message (CHR ''1'') [] ''a'', ''k1'')]]"]
  by simp

text \<open>
  A committed append is found under its key, as exactly the event appended, after any
  later transactions, and an attempt to append another event under that key is refused
  without changing the ledger.
\<close>

theorem committed_event_permanent:
  assumes "ledger_ok C rows" and "append_many C artifacts rows entries = (Inr ids, rows')"
    and "(e, k) \<in> set entries"
    and "later = foldl (\<lambda>s es. snd (append_many C artifacts s es)) rows' txs"
  shows "get_by_idempotency C later k = Inr (Some e) \<and>
    (\<forall>e'. e' \<noteq> e \<longrightarrow> (\<exists>x. append_event C artifacts later e' k = (Inl x, later)))"
proof -
  have inv: "ledger_ok C later"
    using ledger.after_invar [OF ledger.append_invar [OF assms(1,2)]] assms(4)
    by (simp add: ledger.after_def)
  have look: "ledger_lookup C later k = Some e"
    using ledger.committed_key_kept [OF assms(1-3), of txs] assms(4)
    by (simp add: ledger.after_def)
  have "append_event C artifacts later e' k = (Inl x, later)"
    if "append_many C artifacts later [(e', k)] = (Inl x, later)" for e' x
    using that by (simp add: append_event_def)
  then show ?thesis
    using look ledger.key_conflict_refused [OF inv look, of _ "[(_, k)]" artifacts]
    by (fastforce simp: ledger_lookup_def split: sum.splits)
qed

text \<open>
  Replaying a committed transaction is idempotent: it returns the same identities and
  leaves every row as it is.
\<close>

theorem append_many_idempotent:
  assumes "ledger_ok C rows" and "append_many C artifacts rows entries = (Inr ids, rows')"
  shows "append_many C artifacts rows' entries = (Inr ids, rows') \<and>
    ids = map (ev_id \<circ> fst) entries"
  using ledger.append_replay [OF assms] ledger.append_ids [OF assms] by simp

lemma sample_append_committed:
  "append_many sample_codec None [] [(sample_message (CHR ''1'') [] ''a'', ''k1'')] =
     (Inr [sample_id ''evt'' (CHR ''1'')],
      [row_of sample_codec (sample_message (CHR ''1'') [] ''a'') ''k1''])"
  using append_many_refines [OF sample_codec_ok log_ok_Nil, of None
      "[(sample_message (CHR ''1'') [] ''a'', ''k1'')]"]
  by (simp add: spec_append_many_def spec_append_one_def sample_chain_valid
      unresolved_reference_def association_review_key_def)

theorem committed_event_permanent_witness:
  "get_by_idempotency sample_codec
     [row_of sample_codec (sample_message (CHR ''1'') [] ''a'') ''k1''] ''k1'' =
     Inr (Some (sample_message (CHR ''1'') [] ''a''))"
  using committed_event_permanent [OF sample_ledger_ok sample_append_committed, of _ "''k1''" _ "[]"]
  by simp

theorem append_many_idempotent_witness:
  "append_many sample_codec None [row_of sample_codec (sample_message (CHR ''1'') [] ''a'') ''k1'']
     [(sample_message (CHR ''1'') [] ''a'', ''k1'')] =
   (Inr [sample_id ''evt'' (CHR ''1'')],
      [row_of sample_codec (sample_message (CHR ''1'') [] ''a'') ''k1''])"
  using append_many_idempotent [OF sample_ledger_ok sample_append_committed] by simp

definition authentic_row :: "codec \<Rightarrow> ledger_row \<Rightarrow> bool" where
  "authentic_row C r \<longleftrightarrow>
     lr_sha256 r = hexdigest (c_sha C) (lr_json r) \<and>
     (\<exists>e. decode_event C (lr_json r) = Some e \<and> valid_event C e \<and>
          lr_payload_hash r = canonical_payload_hash C (ev_payload e))"

lemma read_row_cases:
  "read_row C r = (if authentic_row C r then Inr (the (decode_event C (lr_json r)))
     else Inl (LedgerCorruption (lr_event_id r)))"
proof (cases "decode_event C (lr_json r)")
  case None
  then show ?thesis by (simp add: read_row_def authentic_row_def)
next
  case (Some e)
  then have "valid_event C e" by (rule decode_event_valid)
  then show ?thesis
    using Some valid_eventD(5) [of C e] by (auto simp: read_row_def authentic_row_def)
qed

text \<open>
  C36: reading the ledger detects any corruption of a row: it returns the decoded events when
  every row is authentic (stored text under its digest, an event that passes every
  validator, the hash of its payload), and otherwise reports the first row that is not.
\<close>

theorem iter_all_detects_corruption:
  "iter_all C rows =
     (case find (\<lambda>r. \<not> authentic_row C r) rows of
        Some r \<Rightarrow> Inl (LedgerCorruption (lr_event_id r))
      | None \<Rightarrow> Inr (map (\<lambda>r. the (decode_event C (lr_json r))) rows))"
  unfolding iter_all_def by (induction rows) (auto simp: read_row_cases split: option.splits)

end
