(* ===== verification/Artifacts.thy ===== *)
theory Artifacts
  imports Event_Store
begin

text \<open>
  \<open>storage/artifacts.py\<close>: the content-addressed store of immutable bytes.  The directory
  under the store's root is a map from relative paths to nodes; the temporary file, the
  exclusive \<open>os.link\<close> and the \<open>finally\<close> clean-up are steps on it, and what another process
  does between the existence check and the link is the argument \<open>interfere\<close>.  The random
  part of a temporary name is an argument; disk failures are not modelled.
\<close>

section \<open>The directory tree\<close>

text \<open>A link carries whether it resolves inside the root.\<close>

datatype node = RegularFile string | Directory | LinkNode bool

type_synonym fs = "string list \<Rightarrow> node option"

datatype artifact_error =
    InvalidContent
  | InvalidReference
  | ArtifactNotFound
  | ArtifactCorruption
  | PathEscape
  | LimitExceeded
  | InvalidStream
  | LengthMismatch
  | BadArgument
  | OsError

text \<open>A value handed over as content: exact built-in \<open>bytes\<close>, or anything else.\<close>

datatype byte_value = Bytes string | NotBytes

definition shard_path :: "string \<Rightarrow> string list" where
  "shard_path hexadecimal = [take 2 hexadecimal]"

definition object_path :: "string \<Rightarrow> string list" where
  "object_path hexadecimal = [take 2 hexadecimal, drop 2 hexadecimal]"

text \<open>The names \<open>mkstemp\<close> gives, \<open>rnd\<close> being its random part.\<close>

definition temporary_path :: "hash_fn \<Rightarrow> string \<Rightarrow> string \<Rightarrow> string list" where
  "temporary_path sha rnd c =
     [take 2 (hexdigest sha c), ''.'' @ hexdigest sha c @ ''.'' @ rnd @ ''.tmp'']"

definition stream_path :: "string \<Rightarrow> string list" where
  "stream_path rnd = [''.stream.'' @ rnd @ ''.tmp'']"

definition parse_reference :: "string \<Rightarrow> artifact_error + string" where
  "parse_reference reference =
     (if is_digest reference then Inr (drop 7 reference) else Inl InvalidReference)"

definition ancestors :: "string list \<Rightarrow> string list list" where
  "ancestors path = map (\<lambda>n. take n path) [1..<length path]"

text \<open>
  \<open>lstat\<close> fails below a regular file; \<open>resolve\<close> leaves the root only through a link above.
\<close>

definition reject_path_escape :: "fs \<Rightarrow> string list \<Rightarrow> artifact_error + unit" where
  "reject_path_escape fs path =
     (if \<exists>a\<in>set (ancestors path). \<exists>c. fs a = Some (RegularFile c) then Inl OsError
      else case fs path of
        None \<Rightarrow> Inr ()
      | Some (LinkNode _) \<Rightarrow> Inl PathEscape
      | Some _ \<Rightarrow>
          if \<exists>a\<in>set (ancestors path). fs a = Some (LinkNode False) then Inl PathEscape
          else Inr ())"

text \<open>\<open>mkdir(parents=True, exist_ok=True)\<close> below the root\<close>

definition make_directory :: "fs \<Rightarrow> string list \<Rightarrow> artifact_error + fs" where
  "make_directory fs path =
     (case fs path of
        None \<Rightarrow> Inr (fs(path \<mapsto> Directory))
      | Some (RegularFile _) \<Rightarrow> Inl OsError
      | Some _ \<Rightarrow> Inr fs)"

section \<open>The operations\<close>

definition get_artifact :: "hash_fn \<Rightarrow> fs \<Rightarrow> string \<Rightarrow> artifact_error + string" where
  "get_artifact sha fs reference =
     try_bind (parse_reference reference) (\<lambda>hexadecimal.
     try_bind (reject_path_escape fs (shard_path hexadecimal)) (\<lambda>_.
     try_bind (reject_path_escape fs (object_path hexadecimal)) (\<lambda>_.
       case fs (object_path hexadecimal) of
         None \<Rightarrow> Inl ArtifactNotFound
       | Some (RegularFile content) \<Rightarrow>
           if hexdigest sha content \<noteq> hexadecimal then Inl ArtifactCorruption else Inr content
       | Some _ \<Rightarrow> Inl OsError)))"

definition verify_artifact :: "hash_fn \<Rightarrow> fs \<Rightarrow> string \<Rightarrow> artifact_error + unit" where
  "verify_artifact sha fs reference = try_bind (get_artifact sha fs reference) (\<lambda>_. Inr ())"

definition put_artifact ::
    "hash_fn \<Rightarrow> string \<Rightarrow> (fs \<Rightarrow> fs) \<Rightarrow> fs \<Rightarrow> byte_value \<Rightarrow> (artifact_error + string) \<times> fs" where
  "put_artifact sha rnd interfere fs content =
     (case content of
        NotBytes \<Rightarrow> (Inl InvalidContent, fs)
      | Bytes c \<Rightarrow>
         let hexadecimal = hexdigest sha c;
             target = object_path hexadecimal;
             reference = digest_ref sha c in
        (case reject_path_escape fs (shard_path hexadecimal) of
           Inl e \<Rightarrow> (Inl e, fs)
         | Inr _ \<Rightarrow>
        (case make_directory fs (shard_path hexadecimal) of
           Inl e \<Rightarrow> (Inl e, fs)
         | Inr fs1 \<Rightarrow>
        (case try_bind (reject_path_escape fs1 (shard_path hexadecimal))
                (\<lambda>_. reject_path_escape fs1 target) of
           Inl e \<Rightarrow> (Inl e, fs1)
         | Inr _ \<Rightarrow>
           if fs1 target \<noteq> None
           then (try_bind (get_artifact sha fs1 reference) (\<lambda>_. Inr reference), fs1)
           else
             let temporary = temporary_path sha rnd c;
                 fs2 = interfere (fs1(temporary \<mapsto> RegularFile c));
                 (result, fs3) =
                   (if fs2 target \<noteq> None
                    then (try_bind (get_artifact sha fs2 reference) (\<lambda>_. Inr reference), fs2)
                    else (Inr reference, fs2(target \<mapsto> RegularFile c)))
             in (result, fs3(temporary := None))))))"

text \<open>
  The read loop of \<open>put_stream\<close>: successive results of \<open>stream.read\<close>, an exhausted stream
  reading as empty; the accumulated bytes are both written and digested.
\<close>

fun read_stream :: "int \<Rightarrow> byte_value list \<Rightarrow> string \<Rightarrow> artifact_error + string" where
  "read_stream max_bytes [] got = Inr got"
| "read_stream max_bytes (NotBytes # chunks) got = Inl InvalidStream"
| "read_stream max_bytes (Bytes chunk # chunks) got =
     (if chunk = [] then Inr got
      else if int (length got + length chunk) > max_bytes then Inl LimitExceeded
      else read_stream max_bytes chunks (got @ chunk))"

record publication =
  pub_reference :: string
  pub_byte_count :: nat
  pub_existing :: bool

definition put_stream ::
    "hash_fn \<Rightarrow> string \<Rightarrow> (fs \<Rightarrow> fs) \<Rightarrow> fs \<Rightarrow> byte_value list \<Rightarrow> int \<Rightarrow> int \<Rightarrow> int option
      \<Rightarrow> (artifact_error + publication) \<times> fs" where
  "put_stream sha rnd interfere fs chunks max_bytes chunk_bytes expected_bytes =
     (if max_bytes < 0 \<or> chunk_bytes < 1 \<or> (\<exists>n. expected_bytes = Some n \<and> n < 0)
      then (Inl BadArgument, fs)
      else
        let temporary = stream_path rnd in
       (case read_stream max_bytes chunks [] of
          Inl e \<Rightarrow> (Inl e, fs(temporary := None))
        | Inr c \<Rightarrow>
          if expected_bytes \<noteq> None \<and> expected_bytes \<noteq> Some (int (length c))
          then (Inl LengthMismatch, fs(temporary := None))
          else
            let fs0 = fs(temporary \<mapsto> RegularFile c);
                hexadecimal = hexdigest sha c;
                target = object_path hexadecimal;
                reference = digest_ref sha c;
                published = (\<lambda>existing. \<lparr> pub_reference = reference,
                   pub_byte_count = length c, pub_existing = existing \<rparr>) in
           (case reject_path_escape fs0 (shard_path hexadecimal) of
              Inl e \<Rightarrow> (Inl e, fs0(temporary := None))
            | Inr _ \<Rightarrow>
           (case make_directory fs0 (shard_path hexadecimal) of
              Inl e \<Rightarrow> (Inl e, fs0(temporary := None))
            | Inr fs1 \<Rightarrow>
           (case try_bind (reject_path_escape fs1 (shard_path hexadecimal))
                   (\<lambda>_. reject_path_escape fs1 target) of
              Inl e \<Rightarrow> (Inl e, fs1(temporary := None))
            | Inr _ \<Rightarrow>
              if fs1 target \<noteq> None
              then (try_bind (get_artifact sha fs1 reference) (\<lambda>_. Inr (published True)),
                    fs1(temporary := None))
              else
                let fs2 = interfere fs1 in
                if fs2 target \<noteq> None
                then (try_bind (get_artifact sha fs2 reference) (\<lambda>_. Inr (published True)),
                      fs2(temporary := None))
                else (Inr (published False),
                      (fs2(target \<mapsto> RegularFile c))(temporary := None)))))))"

section \<open>Paths of references\<close>

lemma ancestors_simps [simp]: "ancestors [a] = []" "ancestors [a, b] = [[a]]"
  by (simp_all add: ancestors_def)

lemma hexdigest_no_dot: "''.'' @ x \<noteq> drop n (hexdigest sha c)"
proof
  assume "''.'' @ x = drop n (hexdigest sha c)"
  then have "CHR ''.'' \<in> set (drop n (hexdigest sha c))"
    by (metis append_Cons list.set_intros(1))
  then have "CHR ''.'' \<in> set (hexdigest sha c)" by (rule in_set_dropD)
  then show False using hexdigest_hex [of sha c] by (auto simp: all_in_set hex_chars_def)
qed

lemma temporary_not_target: "object_path (hexdigest sha c) \<noteq> [t, ''.'' @ x]"
  using hexdigest_no_dot [of x 2 sha c] by (auto simp: object_path_def)

lemma parse_reference_digest [simp]:
  "hash_ok sha \<Longrightarrow> parse_reference (''sha256:'' @ hexdigest sha c) = Inr (hexdigest sha c)"
  using digest_ref_is_digest [of sha c] by (simp add: parse_reference_def digest_ref_def)

text \<open>The nodes an existing reference is read through.\<close>

definition holds :: "hash_fn \<Rightarrow> fs \<Rightarrow> string \<Rightarrow> string \<Rightarrow> bool" where
  "holds sha fs hexadecimal c \<longleftrightarrow>
     (\<forall>r. fs (shard_path hexadecimal) \<noteq> Some (RegularFile r)) \<and>
     (\<forall>b. fs (shard_path hexadecimal) \<noteq> Some (LinkNode b)) \<and>
     fs (object_path hexadecimal) = Some (RegularFile c) \<and> hexdigest sha c = hexadecimal"

lemma reject_shard: "reject_path_escape fs [a] = Inr u \<longleftrightarrow> (\<forall>b. fs [a] \<noteq> Some (LinkNode b))"
  by (simp add: reject_path_escape_def split: option.splits node.splits)

lemma reject_object:
  "reject_path_escape fs [a, b] = Inr u \<longleftrightarrow>
     (\<forall>c. fs [a] \<noteq> Some (RegularFile c)) \<and> (\<forall>l. fs [a, b] \<noteq> Some (LinkNode l)) \<and>
     (fs [a, b] \<noteq> None \<longrightarrow> fs [a] \<noteq> Some (LinkNode False))"
  by (simp add: reject_path_escape_def split: option.splits node.splits)

lemma get_artifact_Inr:
  "get_artifact sha fs reference = Inr c \<longleftrightarrow>
     is_digest reference \<and> holds sha fs (drop 7 reference) c"
proof (cases "fs (object_path (drop 7 reference))")
  case None
  then show ?thesis
    by (auto simp: get_artifact_def result_simps parse_reference_def holds_def)
next
  case (Some n)
  then show ?thesis
    by (cases n) (auto simp: get_artifact_def result_simps parse_reference_def holds_def
        shard_path_def object_path_def reject_shard reject_object)
qed

lemma get_artifact_address:
  assumes "get_artifact sha fs reference = Inr c"
  shows "reference = digest_ref sha c"
proof -
  obtain t where "reference = ''sha256:'' @ t"
    using assms by (auto simp: get_artifact_Inr is_digest_def starts_with_iff)
  then show ?thesis
    using assms by (simp add: get_artifact_Inr holds_def digest_ref_def)
qed

section \<open>What a publication does to the tree\<close>

text \<open>Another process may add nodes, never remove or replace them.\<close>

definition benign :: "(fs \<Rightarrow> fs) \<Rightarrow> bool" where
  "benign interfere \<longleftrightarrow> (\<forall>g p n. g p = Some n \<longrightarrow> interfere g p = Some n)"

definition tree_ok :: "fs \<Rightarrow> bool" where
  "tree_ok fs \<longleftrightarrow> (\<forall>a b. fs [a, b] \<noteq> None \<longrightarrow> fs [a] \<noteq> None)"

lemma benign_id [simp]: "benign (\<lambda>g. g)"
  by (simp add: benign_def)

lemma make_directory_keeps:
  "make_directory fs p = Inr fs1 \<Longrightarrow> fs q = Some n \<Longrightarrow> fs1 q = Some n"
  by (auto simp: make_directory_def split: option.splits node.splits)

lemma make_directory_there:
  "make_directory fs p = Inr fs1 \<Longrightarrow> \<exists>n. fs1 p = Some n \<and> (\<forall>c. n \<noteq> RegularFile c)"
  by (auto simp: make_directory_def split: option.splits node.splits)

lemma make_directory_other: "make_directory fs p = Inr fs1 \<Longrightarrow> q \<noteq> p \<Longrightarrow> fs1 q = fs q"
  by (auto simp: make_directory_def split: option.splits node.splits)

text \<open>The outcomes of \<open>put\<close>: refused or already there, overtaken by another writer, linked.\<close>

lemma put_artifact_cases:
  assumes "put_artifact sha rnd interfere fs (Bytes c) = (r, fs')"
  defines "hexa \<equiv> hexdigest sha c" and "tmp \<equiv> temporary_path sha rnd c"
  obtains (refused) e where "r = Inl e" "fs' = fs"
  | (stopped) fs1 where "make_directory fs (shard_path hexa) = Inr fs1" "fs' = fs1"
      "(\<exists>e. r = Inl e) \<or> r = Inr (digest_ref sha c) \<and>
         (\<exists>d. get_artifact sha fs1 (digest_ref sha c) = Inr d)"
  | (overtaken) fs1 fs2 where "make_directory fs (shard_path hexa) = Inr fs1"
      "fs2 = interfere (fs1(tmp \<mapsto> RegularFile c))" "fs2 (object_path hexa) \<noteq> None"
      "fs' = fs2(tmp := None)"
      "r = try_bind (get_artifact sha fs2 (digest_ref sha c)) (\<lambda>_. Inr (digest_ref sha c))"
  | (linked) fs1 fs2 where "make_directory fs (shard_path hexa) = Inr fs1"
      "reject_path_escape fs1 (shard_path hexa) = Inr ()"
      "fs2 = interfere (fs1(tmp \<mapsto> RegularFile c))" "fs2 (object_path hexa) = None"
      "fs' = fs2(object_path hexa \<mapsto> RegularFile c, tmp := None)"
      "r = Inr (digest_ref sha c)"
proof (cases "reject_path_escape fs (shard_path hexa)")
  case (Inl e)
  with assms show ?thesis by (intro refused [of e]) (auto simp add: put_artifact_def Let_def)
next
  case r0: (Inr u)
  show ?thesis
  proof (cases "make_directory fs (shard_path hexa)")
    case (Inl e)
    with r0 assms show ?thesis by (intro refused [of e]) (auto simp add: put_artifact_def Let_def)
  next
    case m: (Inr fs1)
    show ?thesis
    proof (cases "try_bind (reject_path_escape fs1 (shard_path hexa))
        (\<lambda>_. reject_path_escape fs1 (object_path hexa))")
      case (Inl e)
      with r0 m assms show ?thesis
        by (intro stopped [OF m]) (auto simp add: put_artifact_def Let_def)
    next
      case r1: (Inr v)
      show ?thesis
      proof (cases "fs1 (object_path hexa) = None")
        case False
        let ?got = "try_bind (get_artifact sha fs1 (digest_ref sha c)) (\<lambda>_. Inr (digest_ref sha c))"
        have eq: "r = ?got" "fs' = fs1"
          using False r0 r1 m assms by (auto simp add: put_artifact_def Let_def)
        show ?thesis
          by (rule stopped [OF m eq(2)]) (cases "get_artifact sha fs1 (digest_ref sha c)"; simp add: eq)
      next
        case True
        let ?fs2 = "interfere (fs1(tmp \<mapsto> RegularFile c))"
        note eqs = assms(1) [unfolded put_artifact_def Let_def, folded hexa_def, simplified]
        show ?thesis
        proof (cases "?fs2 (object_path hexa) = None")
          case None: True
          show ?thesis
            by (rule linked [OF m _ refl None])
              (use eqs r0 m r1 True None in \<open>auto simp: result_simps tmp_def hexa_def fun_upd_def\<close>)
        next
          case Some: False
          show ?thesis
            by (rule overtaken [OF m refl Some])
              (use eqs r0 m r1 True Some in \<open>auto simp: result_simps tmp_def hexa_def fun_upd_def\<close>)
        qed
      qed
    qed
  qed
qed

lemma paths_differ [simp]:
  "shard_path h \<noteq> object_path h'" "object_path h' \<noteq> shard_path h"
  "temporary_path sha rnd c \<noteq> shard_path h" "shard_path h \<noteq> temporary_path sha rnd c"
  "object_path (hexdigest sha d) \<noteq> temporary_path sha rnd c"
  "temporary_path sha rnd c \<noteq> object_path (hexdigest sha d)"
  using temporary_not_target [of sha d "take 2 (hexdigest sha c)"] unfolding temporary_path_def
  by (simp_all add: shard_path_def object_path_def) metis+

lemma put_artifact_keeps:
  assumes "benign interfere" and "fs (temporary_path sha rnd c) = None"
    and "put_artifact sha rnd interfere fs (Bytes c) = (r, fs')" and "fs p = Some n"
  shows "fs' p = Some n"
proof -
  have p: "p \<noteq> temporary_path sha rnd c" using assms(2,4) by auto
  show ?thesis using assms(3)
proof (cases rule: put_artifact_cases)
  case (overtaken fs1 fs2)
  then have "fs2 p = Some n"
    using assms(1,2,4) make_directory_keeps [OF overtaken(1) assms(4)] p by (simp add: benign_def)
  then show ?thesis using overtaken(4) assms(2,4) by auto
next
  case (linked fs1 fs2)
  then have "fs2 p = Some n"
    using assms(1,2,4) make_directory_keeps [OF linked(1) assms(4)] p by (simp add: benign_def)
  then show ?thesis using linked(4,5) assms(2,4) by auto
qed (use assms(4) make_directory_keeps in auto)
qed

lemma get_artifact_kept:
  assumes "get_artifact sha fs reference = Inr d" and "tree_ok fs"
    and "\<And>p n. fs p = Some n \<Longrightarrow> fs' p = Some n"
  shows "get_artifact sha fs' reference = Inr d"
proof -
  let ?h = "drop 7 reference"
  have h: "holds sha fs ?h d" "is_digest reference" using assms(1) by (auto simp: get_artifact_Inr)
  moreover obtain m where "fs (shard_path ?h) = Some m"
    using h assms(2) by (fastforce simp: tree_ok_def holds_def shard_path_def object_path_def)
  ultimately show ?thesis using assms(3) by (auto simp: get_artifact_Inr holds_def)
qed

lemma put_artifact_readable:
  assumes "benign interfere" and "hash_ok sha"
    and "put_artifact sha rnd interfere fs (Bytes c) = (Inr reference, fs')"
  shows "reference = digest_ref sha c \<and> (\<exists>d. get_artifact sha fs' reference = Inr d)"
  using assms(3)
proof (cases rule: put_artifact_cases)
  case (overtaken fs1 fs2)
  let ?h = "hexdigest sha c"
  from overtaken(5) obtain d where d: "get_artifact sha fs2 (digest_ref sha c) = Inr d"
    "reference = digest_ref sha c" by (metis try_bind_eq_Inr sum.inject(2))
  then have "holds sha fs2 ?h d" by (simp add: get_artifact_Inr digest_ref_def)
  then have "holds sha fs' ?h d" using overtaken(4) by (auto simp: holds_def)
  then show ?thesis using d digest_ref_is_digest [OF assms(2)]
    by (auto simp: get_artifact_Inr digest_ref_def)
next
  case (linked fs1 fs2)
  let ?h = "hexdigest sha c"
  from make_directory_there [OF linked(1)] obtain n where n:
    "fs1 (shard_path ?h) = Some n" "\<And>x. n \<noteq> RegularFile x" by blast
  moreover have "\<And>b. n \<noteq> LinkNode b" using linked(2) n(1) by (simp add: shard_path_def reject_shard)
  moreover have "fs2 (shard_path ?h) = Some n"
    using assms(1) n(1) linked(3) by (simp add: benign_def)
  ultimately have "holds sha fs' ?h c" using linked(5) by (simp add: holds_def)
  then show ?thesis using linked(6) digest_ref_is_digest [OF assms(2)]
    by (auto simp: get_artifact_Inr digest_ref_def)
qed auto

section \<open>The interface of a content-addressed store\<close>

text \<open>
  \<open>ArtifactStore\<close> of \<open>storage/interfaces.py\<close>: what the ledger, the imports, the capability
  broker and the workspace export rely on.
\<close>

locale artifact_store =
  fixes put :: "'st \<Rightarrow> string \<Rightarrow> ('err + string) \<times> 'st"
    and get :: "'st \<Rightarrow> string \<Rightarrow> 'err + string"
    and address :: "string \<Rightarrow> string"
    and invar :: "'st \<Rightarrow> bool"
  assumes put_invar: "invar s \<Longrightarrow> put s c = (x, s') \<Longrightarrow> invar s'"
    and put_address: "invar s \<Longrightarrow> put s c = (Inr r, s') \<Longrightarrow> r = address c"
    and put_readable: "invar s \<Longrightarrow> put s c = (Inr r, s') \<Longrightarrow> \<exists>d. get s' r = Inr d"
    and put_keeps: "invar s \<Longrightarrow> put s c = (x, s') \<Longrightarrow> get s q = Inr d \<Longrightarrow> get s' q = Inr d"
    and get_address: "get s q = Inr d \<Longrightarrow> address d = q"
begin

definition stored :: "'st \<Rightarrow> string list \<Rightarrow> 'st" where
  "stored s cs = foldl (\<lambda>s c. snd (put s c)) s cs"

lemma stored_simps [simp]:
  "stored s [] = s" "stored s (c # cs) = stored (snd (put s c)) cs"
  by (simp_all add: stored_def)

lemma stored_invar: "invar s \<Longrightarrow> invar (stored s cs)"
proof (induction cs arbitrary: s)
  case (Cons c cs)
  then show ?case by (cases "put s c") (auto dest: put_invar)
qed simp

lemma stored_keeps: "invar s \<Longrightarrow> get s q = Inr d \<Longrightarrow> get (stored s cs) q = Inr d"
proof (induction cs arbitrary: s)
  case (Cons c cs)
  then show ?case by (cases "put s c") (auto dest: put_invar put_keeps)
qed simp

text \<open>What is published stays readable, up to a collision of addresses.\<close>

lemma published_stays:
  assumes "invar s" and "put s c = (Inr r, s')"
  shows "\<exists>d. get (stored s' cs) r = Inr d \<and> address d = address c"
proof -
  obtain d where d: "get s' r = Inr d" using put_readable [OF assms] by blast
  from stored_keeps [OF put_invar [OF assms] d] have "get (stored s' cs) r = Inr d" .
  then show ?thesis using get_address put_address [OF assms] by blast
qed

lemma round_trip:
  assumes "invar s" and "put s c = (Inr r, s')"
  shows "\<exists>d. get s' r = Inr d \<and> address d = address c \<and> (\<forall>cs. get (stored s' cs) r = Inr d)"
proof -
  obtain d where d: "get s' r = Inr d" using put_readable [OF assms] by blast
  then show ?thesis
    using stored_keeps [OF put_invar [OF assms] d] get_address put_address [OF assms] by blast
qed

text \<open>References an event was admitted with stay resolved.\<close>

lemma references_stay_resolved:
  assumes "invar s"
    and "unresolved_reference (Some (\<lambda>q. \<not> is_error (get s q))) e = None"
  shows "unresolved_reference (Some (\<lambda>q. \<not> is_error (get (stored s cs) q))) e = None"
proof -
  have "\<not> is_error (get (stored s cs) q)" if "\<not> is_error (get s q)" for q
  proof -
    from that obtain d where "get s q = Inr d" by (cases "get s q") auto
    then show ?thesis using stored_keeps [OF assms(1), of q d cs] by simp
  qed
  then show ?thesis using assms(2) by (auto simp: unresolved_reference_def find_None_iff_all)
qed

end

section \<open>The local store provides the interface\<close>

definition put_local :: "hash_fn \<Rightarrow> string \<Rightarrow> fs \<Rightarrow> string \<Rightarrow> (artifact_error + string) \<times> fs" where
  "put_local sha rnd fs c = put_artifact sha rnd (\<lambda>g. g) fs (Bytes c)"

definition local_ok :: "hash_fn \<Rightarrow> string \<Rightarrow> fs \<Rightarrow> bool" where
  "local_ok sha rnd fs \<longleftrightarrow> hash_ok sha \<and> tree_ok fs \<and> (\<forall>c. fs (temporary_path sha rnd c) = None)"

lemma make_directory_ok:
  assumes "make_directory fs (shard_path h) = Inr fs1" and "local_ok sha rnd fs"
  shows "local_ok sha rnd fs1"
proof -
  have other: "fs1 q = fs q" if "length q = 2" for q
    by (rule make_directory_other [OF assms(1)]) (use that in \<open>auto simp: shard_path_def\<close>)
  have "fs1 [a] \<noteq> None" if "fs1 [a, b] \<noteq> None" for a b
  proof -
    have "fs [a] \<noteq> None" using that other [of "[a, b]"] assms(2) by (auto simp: local_ok_def tree_ok_def)
    then show ?thesis using make_directory_keeps [OF assms(1), of "[a]"] by auto
  qed
  moreover have "fs1 (temporary_path sha rnd c) = None" for c
    using other [of "temporary_path sha rnd c"] assms(2)
    by (simp add: local_ok_def temporary_path_def)
  ultimately show ?thesis using assms(2) by (simp add: local_ok_def tree_ok_def)
qed

lemma put_local_tree:
  assumes "local_ok sha rnd fs" and "put_local sha rnd fs c = (r, fs')"
  obtains (same) "fs' = fs"
  | (made) "make_directory fs (shard_path (hexdigest sha c)) = Inr fs'"
  | (linked) fs1 where "make_directory fs (shard_path (hexdigest sha c)) = Inr fs1"
      "r = Inr (digest_ref sha c)" "fs1 (object_path (hexdigest sha c)) = None"
      "fs' = fs1(object_path (hexdigest sha c) \<mapsto> RegularFile c)"
proof -
  have unused: "fs1 (temporary_path sha rnd c) = None"
    if "make_directory fs (shard_path (hexdigest sha c)) = Inr fs1" for fs1
    using make_directory_ok [OF that assms(1)] by (simp add: local_ok_def)
  from assms(2)[unfolded put_local_def] show ?thesis
  proof (cases rule: put_artifact_cases)
    case (overtaken fs1 fs2)
    have "fs' = fs1" using overtaken(2,4) unused [OF overtaken(1)] by (auto simp: fun_eq_iff)
    then show ?thesis using made overtaken(1) by simp
  next
    case (linked fs1 fs2)
    show ?thesis
    proof (rule that(3) [OF linked(1,6)])
      show "fs1 (object_path (hexdigest sha c)) = None" using linked(3,4) by simp
      show "fs' = fs1(object_path (hexdigest sha c) \<mapsto> RegularFile c)"
        using linked(3,5) unused [OF linked(1)] by (auto simp: fun_eq_iff)
    qed
  qed (use same made in auto)
qed

lemma put_local_ok:
  assumes "local_ok sha rnd fs" and "put_local sha rnd fs c = (r, fs')"
  shows "local_ok sha rnd fs'"
  using assms
proof (cases rule: put_local_tree)
  case (linked fs1)
  let ?h = "hexdigest sha c"
  have ok: "local_ok sha rnd fs1" using make_directory_ok [OF linked(1) assms(1)] .
  moreover have "fs1 [take 2 ?h] \<noteq> None"
    using make_directory_there [OF linked(1)] by (auto simp: shard_path_def)
  ultimately show ?thesis unfolding linked(4) local_ok_def tree_ok_def
    by (auto simp: object_path_def [symmetric]) (auto simp: object_path_def)
qed (use assms make_directory_ok in auto)

interpretation artifacts: artifact_store "put_local sha rnd" "get_artifact sha" "digest_ref sha"
  "local_ok sha rnd" for sha rnd
proof unfold_locales
  fix s c r s'
  assume *: "local_ok sha rnd s" "put_local sha rnd s c = (r, s')"
  then show "local_ok sha rnd s'" by (rule put_local_ok)
  show "get_artifact sha s' q = Inr d" if "get_artifact sha s q = Inr d" for q d
  proof (rule get_artifact_kept [OF that])
    show "tree_ok s" using *(1) by (simp add: local_ok_def)
    show "s p = Some n \<Longrightarrow> s' p = Some n" for p n
      using put_artifact_keeps [OF benign_id _ *(2)[unfolded put_local_def]] *(1)
      by (simp add: local_ok_def)
  qed
next
  fix s c r s'
  assume "local_ok sha rnd s" "put_local sha rnd s c = (Inr r, s')"
  then have *: "r = digest_ref sha c \<and> (\<exists>d. get_artifact sha s' r = Inr d)"
    unfolding put_local_def local_ok_def using put_artifact_readable [OF benign_id] by blast
  then show "r = digest_ref sha c" "\<exists>d. get_artifact sha s' r = Inr d" by auto
next
  fix s q d
  assume "get_artifact sha s q = Inr d"
  then show "digest_ref sha d = q" using get_artifact_address by simp
qed

section \<open>Streams\<close>

lemma read_stream_bound:
  "read_stream m chunks got = Inr c \<Longrightarrow> int (length got) \<le> m \<Longrightarrow>
   int (length c) \<le> m \<and> (\<exists>rest. c = got @ rest)"
  by (induction m chunks got rule: read_stream.induct) (auto split: if_splits)

text \<open>The bytes a stream offers before its first empty chunk, and whether all of that is bytes.\<close>

definition stream_front :: "byte_value list \<Rightarrow> byte_value list" where
  "stream_front chunks = takeWhile (\<lambda>x. x \<noteq> Bytes []) chunks"

definition stream_content :: "byte_value list \<Rightarrow> string" where
  "stream_content chunks = concat (map (\<lambda>x. case x of Bytes b \<Rightarrow> b | NotBytes \<Rightarrow> []) (stream_front chunks))"

lemma read_stream_Inr:
  "int (length got) \<le> m \<Longrightarrow> read_stream m chunks got = Inr c \<longleftrightarrow>
     NotBytes \<notin> set (stream_front chunks) \<and> int (length (got @ stream_content chunks)) \<le> m \<and>
     c = got @ stream_content chunks"
  by (induction m chunks got rule: read_stream.induct) (auto simp: stream_front_def stream_content_def)

lemma read_stream_Inl: "read_stream m chunks got = Inl e \<Longrightarrow> e = InvalidStream \<or> e = LimitExceeded"
  by (induction m chunks got rule: read_stream.induct) (auto split: if_splits)

lemma stream_path_differs [simp]:
  "shard_path h \<noteq> stream_path rnd" "object_path h \<noteq> stream_path rnd"
  "stream_path rnd \<noteq> shard_path h" "stream_path rnd \<noteq> object_path h"
proof -
  have "length (take 2 h) \<noteq> length (''.stream.'' @ rnd @ ''.tmp'')" by simp
  then have "take 2 h \<noteq> ''.stream.'' @ rnd @ ''.tmp''" by metis
  then show "shard_path h \<noteq> stream_path rnd" "stream_path rnd \<noteq> shard_path h"
    by (auto simp: shard_path_def stream_path_def)
qed (simp_all add: object_path_def stream_path_def)

text \<open>The temporary file in the root is invisible to every step on an object.\<close>

lemma reject_path_escape_stream [simp]:
  "reject_path_escape (fs(stream_path rnd := n)) (shard_path h) = reject_path_escape fs (shard_path h)"
  "reject_path_escape (fs(stream_path rnd := n)) (object_path h) = reject_path_escape fs (object_path h)"
  using stream_path_differs(1) [of h rnd]
  by (simp_all add: reject_path_escape_def shard_path_def object_path_def stream_path_def)

lemma get_artifact_stream [simp]:
  "get_artifact sha (fs(stream_path rnd := n)) r = get_artifact sha fs r"
  by (simp add: get_artifact_def)

lemma make_directory_stream [simp]:
  "make_directory (fs(stream_path rnd := n)) (shard_path h) =
     map_sum id (\<lambda>g. g(stream_path rnd := n)) (make_directory fs (shard_path h))"
  by (auto simp: make_directory_def fun_upd_twist split: option.splits node.splits)

lemma make_directory_stream_none:
  "make_directory fs (shard_path h) = Inr fs1 \<Longrightarrow> fs1 (stream_path rnd) = fs (stream_path rnd)"
  by (erule make_directory_other) simp

lemma put_stream_refused:
  assumes "fs (stream_path rnd) = None" and "read_stream m chunks [] = Inl e"
  shows "snd (put_stream sha rnd interfere fs chunks m k expected) = fs"
  using assms by (auto simp: put_stream_def fun_eq_iff)

lemma put_stream_put_local:
  assumes "local_ok sha rnd fs" and "fs (stream_path rnd) = None"
    and "0 \<le> m" and "1 \<le> k" and "read_stream m chunks [] = Inr c"
    and "expected = None \<or> expected = Some (int (length c))"
  shows "put_stream sha rnd (\<lambda>g. g) fs chunks m k expected =
    (case put_local sha rnd fs c of
       (Inl e, fs') \<Rightarrow> (Inl e, fs')
     | (Inr r, fs') \<Rightarrow> (Inr \<lparr> pub_reference = r, pub_byte_count = length c,
          pub_existing = (fs (object_path (hexdigest sha c)) \<noteq> None) \<rparr>, fs'))"
proof -
  let ?h = "hexdigest sha c" and ?t = "stream_path rnd"
  have ex: "\<not> (\<exists>n. expected = Some n \<and> n < 0)" "\<not> (expected \<noteq> None \<and> expected \<noteq> Some (int (length c)))"
    using assms(6) by auto
  have undo: "fs(?t := x, ?t := None) = fs" for x using assms(2) by (auto simp: fun_eq_iff)
  show ?thesis
  proof (cases "reject_path_escape fs (shard_path ?h)")
    case (Inl e)
    then show ?thesis using assms(3-5) ex undo
      by (cases expected) (simp_all add: put_stream_def put_local_def put_artifact_def Let_def)
  next
    case r0: (Inr u)
    show ?thesis
    proof (cases "make_directory fs (shard_path ?h)")
      case (Inl e)
      then show ?thesis using r0 assms(3-5) ex undo
        by (cases expected) (simp_all add: put_stream_def put_local_def put_artifact_def Let_def)
    next
      case m: (Inr fs1)
      have undo1: "fs1(?t := x, ?t := None) = fs1" for x
        using make_directory_stream_none [OF m] assms(2) by (auto simp: fun_eq_iff)
      have undo2: "fs1(?t := x, object_path ?h \<mapsto> y, ?t := None) = fs1(object_path ?h \<mapsto> y)" for x y
        using make_directory_stream_none [OF m] assms(2) by (auto simp: fun_eq_iff)
      have undo3: "fs1(temporary_path sha rnd c := x, object_path ?h \<mapsto> y,
          temporary_path sha rnd c := None) = fs1(object_path ?h \<mapsto> y)" for x y
        using make_directory_ok [OF m assms(1)] by (auto simp: fun_eq_iff local_ok_def)
      have obj: "fs (object_path ?h) = fs1 (object_path ?h)"
        using make_directory_other [OF m] by simp
      note steps = put_stream_def put_local_def put_artifact_def Let_def try_bind_def
      show ?thesis
        using r0 m assms(3-5) ex undo1 undo2 undo3 obj
        by (cases expected; cases "reject_path_escape fs1 (shard_path ?h)";
            cases "reject_path_escape fs1 (object_path ?h)";
            cases "fs1 (object_path ?h)";
            cases "get_artifact sha fs1 (digest_ref sha c)")
          (simp_all add: steps)
    qed
  qed
qed

section \<open>Properties\<close>

text \<open>
  C8: in a tree whose second-level nodes have their directory, under a concurrent writer that only
  adds nodes and with a temporary name that is not in use, a successful \<open>put\<close> returns the digest of
  the content, the artifact is readable under it at once, every node of the tree that existed before
  (file, directory or link, of an artifact or not) is there unchanged, and every reference readable
  before reads the same bytes after.
\<close>

theorem put_artifact_immutable:
  assumes "hash_ok sha" and "tree_ok fs" and "benign interfere"
    and "fs (temporary_path sha rnd c) = None"
    and "put_artifact sha rnd interfere fs (Bytes c) = (Inr reference, fs')"
  shows "reference = digest_ref sha c \<and> (\<exists>d. get_artifact sha fs' reference = Inr d) \<and>
    (\<forall>path n. fs path = Some n \<longrightarrow> fs' path = Some n) \<and>
    (\<forall>q d. get_artifact sha fs q = Inr d \<longrightarrow> get_artifact sha fs' q = Inr d)"
  using put_artifact_readable [OF assms(3,1,5)] get_artifact_kept [OF _ assms(2)]
    put_artifact_keeps [OF assms(3,4,5)] by blast

lemma sample_put:
  "put_artifact sample_sha ''r'' (\<lambda>g. g) (\<lambda>_. None) (Bytes ''hello'') =
     (Inr sample_digest, (\<lambda>_. None)([''61''] \<mapsto> Directory,
        [''61'', concat (replicate 31 ''61'')] \<mapsto> RegularFile ''hello''))"
proof -
  have h: "hexdigest sample_sha c = concat (replicate 32 ''61'')" for c
    unfolding hexdigest_def sample_sha_def by code_simp
  show ?thesis
    unfolding put_artifact_def temporary_path_def h
    by (auto simp: Let_def reject_path_escape_def make_directory_def shard_path_def
        object_path_def sample_digest_def fun_eq_iff numeral_eq_Suc)
qed

theorem put_artifact_immutable_witness:
  "\<exists>d. get_artifact sample_sha ((\<lambda>_. None)([''61''] \<mapsto> Directory,
        [''61'', concat (replicate 31 ''61'')] \<mapsto> RegularFile ''hello'')) sample_digest = Inr d"
  using put_artifact_immutable [OF sample_sha_ok _ benign_id _ sample_put]
  by (simp add: tree_ok_def)

text \<open>
  C35: an artifact once published is readable at once and reads the same after any number of later
  \<open>put\<close>s, whether they succeed or fail: always some bytes with the digest of those published, and
  the published bytes themselves when no other content has their digest.
\<close>

theorem artifact_round_trip:
  assumes "local_ok sha rnd fs" and "put_local sha rnd fs c = (Inr reference, fs')"
  shows "\<exists>d. get_artifact sha fs' reference = Inr d \<and> digest_ref sha d = digest_ref sha c \<and>
    (\<forall>ds. get_artifact sha (foldl (\<lambda>g b. snd (put_local sha rnd g b)) fs' ds) reference = Inr d) \<and>
    ((\<forall>b. digest_ref sha b = digest_ref sha c \<longrightarrow> b = c) \<longrightarrow> d = c)"
  using artifacts.round_trip [OF assms] unfolding artifacts.stored_def by blast

text \<open>
  C20: for every stream, limit, chunk size and expected length, \<open>put_stream\<close> is \<open>put\<close> of the bytes
  before the first empty chunk: it publishes the same reference in the same tree, with the number of
  bytes and whether they were there, or fails as \<open>put\<close> does and leaves the same tree.  It refuses
  instead, and leaves the tree as it was, exactly when an argument is out of range, a chunk before the
  end is not bytes, the bytes exceed the limit, or their number is not the expected one.  The store is
  assumed well-formed, with neither temporary name taken and no other writer during the call.
\<close>

theorem put_stream_equals_put:
  assumes "local_ok sha rnd fs" and "fs (stream_path rnd) = None"
  shows "if m < 0 \<or> k < 1 \<or> (\<exists>n. expected = Some n \<and> n < 0)
    then put_stream sha rnd (\<lambda>g. g) fs chunks m k expected = (Inl BadArgument, fs)
    else if NotBytes \<in> set (stream_front chunks) \<or> int (length (stream_content chunks)) > m
    then \<exists>e\<in>{InvalidStream, LimitExceeded}.
      put_stream sha rnd (\<lambda>g. g) fs chunks m k expected = (Inl e, fs)
    else if \<exists>n. expected = Some n \<and> n \<noteq> int (length (stream_content chunks))
    then put_stream sha rnd (\<lambda>g. g) fs chunks m k expected = (Inl LengthMismatch, fs)
    else put_stream sha rnd (\<lambda>g. g) fs chunks m k expected =
      (case put_local sha rnd fs (stream_content chunks) of
         (Inl e, fs') \<Rightarrow> (Inl e, fs')
       | (Inr r, fs') \<Rightarrow> (Inr \<lparr> pub_reference = r, pub_byte_count = length (stream_content chunks),
            pub_existing = (fs (object_path (hexdigest sha (stream_content chunks))) \<noteq> None) \<rparr>, fs'))"
proof (cases "m < 0 \<or> k < 1 \<or> (\<exists>n. expected = Some n \<and> n < 0)")
  case True
  then show ?thesis by (simp add: put_stream_def)
next
  case args: False
  then have m: "0 \<le> m" "1 \<le> k" by auto
  have undo: "fs(stream_path rnd := None) = fs" using assms(2) by (auto simp: fun_eq_iff)
  show ?thesis
  proof (cases "read_stream m chunks []")
    case (Inl e)
    then have bad: "NotBytes \<in> set (stream_front chunks) \<or> int (length (stream_content chunks)) > m"
      using read_stream_Inr [of "[]" m chunks "stream_content chunks"] m by auto
    have "put_stream sha rnd (\<lambda>g. g) fs chunks m k expected = (Inl e, fs)"
      using args Inl undo by (auto simp: put_stream_def)
    moreover have "e \<in> {InvalidStream, LimitExceeded}" using read_stream_Inl [OF Inl] by simp
    ultimately have "\<exists>e\<in>{InvalidStream, LimitExceeded}. put_stream sha rnd (\<lambda>g. g) fs chunks m k expected = (Inl e, fs)"
      by blast
    then show ?thesis using args bad by (simp only: if_True if_False)
  next
    case (Inr c)
    then have good: "\<not> (NotBytes \<in> set (stream_front chunks) \<or> int (length (stream_content chunks)) > m)"
      and c: "c = stream_content chunks"
      using read_stream_Inr [of "[]" m chunks c] m by auto
    show ?thesis
    proof (cases "\<exists>n. expected = Some n \<and> n \<noteq> int (length c)")
      case True
      then have "put_stream sha rnd (\<lambda>g. g) fs chunks m k expected = (Inl LengthMismatch, fs)"
        using args Inr undo by (auto simp: put_stream_def)
      then show ?thesis using args good True unfolding c by (simp only: if_True if_False)
    next
      case False
      then have "expected = None \<or> expected = Some (int (length c))" by (cases expected) auto
      from put_stream_put_local [OF assms m Inr this] show ?thesis
        using args good False unfolding c by (simp only: if_False)
    qed
  qed
qed

text \<open>A digest under which one content is alone, and the empty store.\<close>

definition lone_sha :: hash_fn where
  "lone_sha s = (if s = ''hello'' then replicate 32 (CHR ''b'') else replicate 32 (CHR ''a''))"

lemma lone_hex: "hexdigest lone_sha s = concat (replicate 32 (if s = ''hello'' then ''62'' else ''61''))"
proof -
  have "concat (map hex_byte (replicate 32 (CHR ''b''))) = concat (replicate 32 ''62'')"
    "concat (map hex_byte (replicate 32 (CHR ''a''))) = concat (replicate 32 ''61'')"
    by code_simp+
  then show ?thesis unfolding hexdigest_def lone_sha_def by (simp only: split: if_split) simp
qed

lemma empty_store_ok: "hash_ok sha \<Longrightarrow> local_ok sha rnd (\<lambda>_. None)"
  by (simp add: local_ok_def tree_ok_def)

lemma lone_sha_ok [simp]: "hash_ok lone_sha"
  by (simp add: hash_ok_def lone_sha_def)

lemma lone_put:
  "fst (put_local lone_sha ''r'' (\<lambda>_. None) ''hello'') = Inr (digest_ref lone_sha ''hello'')"
  by (simp add: put_local_def put_artifact_def Let_def reject_path_escape_def make_directory_def
      shard_path_def object_path_def temporary_path_def lone_hex numeral_eq_Suc)

lemma lone_address: "digest_ref lone_sha b = digest_ref lone_sha ''hello'' \<Longrightarrow> b = ''hello''"
  by (simp add: digest_ref_def lone_hex numeral_eq_Suc split: if_splits)

theorem artifact_round_trip_witness:
  "get_artifact lone_sha
     (snd (put_local lone_sha ''r'' (snd (put_local lone_sha ''r'' (\<lambda>_. None) ''hello'')) ''later''))
     (digest_ref lone_sha ''hello'') = Inr ''hello''"
proof -
  have "put_local lone_sha ''r'' (\<lambda>_. None) ''hello'' =
     (Inr (digest_ref lone_sha ''hello''), snd (put_local lone_sha ''r'' (\<lambda>_. None) ''hello''))"
    by (simp add: lone_put prod_eq_iff)
  from artifact_round_trip [OF empty_store_ok [OF lone_sha_ok] this] obtain d where
    d: "\<forall>ds. get_artifact lone_sha (foldl (\<lambda>g b. snd (put_local lone_sha ''r'' g b))
        (snd (put_local lone_sha ''r'' (\<lambda>_. None) ''hello'')) ds) (digest_ref lone_sha ''hello'') = Inr d"
      "(\<forall>b. digest_ref lone_sha b = digest_ref lone_sha ''hello'' \<longrightarrow> b = ''hello'') \<longrightarrow> d = ''hello''"
    by blast
  have "d = ''hello''" using d(2) lone_address by blast
  then show ?thesis using d(1) [THEN spec, of "[''later'']"] by simp
qed

theorem put_stream_equals_put_witness:
  "put_stream sample_sha ''r'' (\<lambda>g. g) (\<lambda>_. None) [Bytes ''hel'', Bytes ''lo'', Bytes []] 16 4 None =
     (Inr \<lparr> pub_reference = sample_digest, pub_byte_count = 5, pub_existing = False \<rparr>,
      (\<lambda>_. None)([''61''] \<mapsto> Directory,
        [''61'', concat (replicate 31 ''61'')] \<mapsto> RegularFile ''hello''))"
  using put_stream_equals_put [OF empty_store_ok [OF sample_sha_ok], where rnd = "''r''" and m = 16
      and k = 4 and chunks = "[Bytes ''hel'', Bytes ''lo'', Bytes []]" and expected = None]
  unfolding put_local_def by (simp add: sample_put stream_content_def stream_front_def)

end
