(* ===== verification/Memory_Records.thy ===== *)
theory Memory_Records
  imports Events
begin

text \<open>
  The data of product memory: the categories, domains and notes of
  \<open>memory/obsidian.py\<close>, and the authority states and 21-field record of
  \<open>memory/repository.py\<close> with the field constraints its class declares.
\<close>

datatype memory_category = Research | Tooling | Project | Experiment | Governance | Reference | Note

fun category_value :: "memory_category \<Rightarrow> string" where
  "category_value Research = ''research''"
| "category_value Tooling = ''tooling''"
| "category_value Project = ''project''"
| "category_value Experiment = ''experiment''"
| "category_value Governance = ''governance''"
| "category_value Reference = ''reference''"
| "category_value Note = ''note''"

datatype memory_domain =
  AiMl | RfEm | Science | Mathematics | Engineering | Software | Business | General

fun domain_value :: "memory_domain \<Rightarrow> string" where
  "domain_value AiMl = ''ai_ml''"
| "domain_value RfEm = ''rf_em''"
| "domain_value Science = ''science''"
| "domain_value Mathematics = ''mathematics''"
| "domain_value Engineering = ''engineering''"
| "domain_value Software = ''software''"
| "domain_value Business = ''business''"
| "domain_value General = ''general''"

text \<open>The order of declaration, which iterating the enumeration follows.\<close>

definition all_domains :: "memory_domain list" where
  "all_domains = [AiMl, RfEm, Science, Mathematics, Engineering, Software, Business, General]"

record indexed_note =
  note_id :: string
  note_path :: string
  note_title :: string
  note_content :: string
  note_type :: string
  note_status :: "string option"
  note_category :: memory_category
  note_domains :: "memory_domain list"
  note_topics :: "string list"
  note_wikilinks :: "string list"
  note_basis :: "string list"
  note_hash :: string

datatype authority =
  Curated | Candidate | Approved | Rejected | Superseded | Contradicted | Retracted

fun authority_value :: "authority \<Rightarrow> string" where
  "authority_value Curated = ''curated''"
| "authority_value Candidate = ''candidate''"
| "authority_value Approved = ''approved''"
| "authority_value Rejected = ''rejected''"
| "authority_value Superseded = ''superseded''"
| "authority_value Contradicted = ''contradicted''"
| "authority_value Retracted = ''retracted''"

datatype source_kind = NativeSource | ObsidianSource

datatype architecture_node =
    IdentityRole | GoalsCommitments | ProjectsWork | KnowledgeResearch
  | PeopleRelationships | DecisionsLessons | PreferencesContext

record memory =
  mem_id :: string
  mem_title :: string
  mem_content :: string
  mem_state :: authority
  mem_source_kind :: source_kind
  mem_source_key :: string
  mem_source_path :: "string option"
  mem_source_status :: "string option"
  mem_category :: memory_category
  mem_domains :: "memory_domain list"
  mem_topics :: "string list"
  mem_content_hash :: string
  mem_wikilinks :: "string list"
  mem_basis :: "string list"
  mem_nodes :: "architecture_node list"
  mem_source_refs :: "string list"
  mem_created_by :: "string option"
  mem_request :: "string option"
  mem_target :: "string option"
  mem_expected_hash :: "string option"
  mem_reason :: "string option"

text \<open>\<open>^(evt|clm|doc|mem|prc)_[0-9A-HJKMNP-TV-Z]{26}$\<close>\<close>

definition is_record_id :: "string \<Rightarrow> bool" where
  "is_record_id s \<longleftrightarrow>
     list_ex (\<lambda>tag. tagged_id tag s) [''evt'', ''clm'', ''doc'', ''mem'', ''prc'']"

definition opt_ok :: "('a \<Rightarrow> bool) \<Rightarrow> 'a option \<Rightarrow> bool" where
  "opt_ok p x = (case x of None \<Rightarrow> True | Some a \<Rightarrow> p a)"

lemma opt_ok_simps [simp]: "opt_ok p None" "opt_ok p (Some a) = p a"
  by (simp_all add: opt_ok_def)

text \<open>The field constraints of \<open>ProductMemoryRecord\<close>.\<close>

definition valid_memory :: "memory \<Rightarrow> bool" where
  "valid_memory r \<longleftrightarrow>
     tagged_id ''mem'' (mem_id r) \<and>
     1 \<le> length (mem_title r) \<and> length (mem_title r) \<le> 512 \<and>
     1 \<le> length (mem_content r) \<and> length (mem_content r) \<le> 2 * 1024 * 1024 \<and>
     is_digest (mem_content_hash r) \<and>
     list_all is_record_id (mem_source_refs r) \<and>
     opt_ok is_actor_id (mem_created_by r) \<and>
     opt_ok (tagged_id ''evt'') (mem_request r) \<and>
     opt_ok (tagged_id ''mem'') (mem_target r) \<and>
     opt_ok is_digest (mem_expected_hash r)"

lemma valid_memoryD:
  assumes "valid_memory r"
  shows "tagged_id ''mem'' (mem_id r)" "is_digest (mem_content_hash r)"
    "mem_title r \<noteq> []" "length (mem_title r) \<le> 512" "mem_content r \<noteq> []"
  using assms by (auto simp: valid_memory_def)

lemma mem_id_is_record_id: "tagged_id ''mem'' s \<Longrightarrow> is_record_id s"
  by (simp add: is_record_id_def)

end
