(* ===== verification/Memory_Repository.thy ===== *)
theory Memory_Repository
  imports Memory_Records
begin

text \<open>
  \<open>memory/repository.py\<close>: the SQLite repository of product memory.  The database is a record
  of its five tables in row order; a row's JSON is the record it encodes (pydantic's dump of
  an unchanged record is deterministic and read back exactly, so equality of texts is
  equality of records).  Every operation is a transaction: an error returns the database
  unchanged.  \<open>secrets.token_bytes\<close> is a supply of byte strings and a count of the draws.
\<close>

section \<open>Tables\<close>

record review_row =
  rv_event :: string
  rv_key :: string
  rv_record :: string
  rv_hash :: string
  rv_decision :: authority
  rv_replacement :: "string option"

record binding_row =
  bd_source :: string
  bd_locator :: string
  bd_hash :: string
  bd_record :: string

record sync_row =
  sy_event :: string
  sy_key :: string
  sy_source :: string
  sy_snapshot :: string
  sy_created :: nat
  sy_revised :: nat
  sy_unchanged :: nat
  sy_missing :: nat
  sy_issues :: nat

record memory_db =
  db_records :: "(string \<times> memory) list"
  db_revisions :: "(string \<times> memory) list"
  db_reviews :: "review_row list"
  db_bindings :: "binding_row list"
  db_syncs :: "sync_row list"

definition empty_memory_db :: memory_db where
  "empty_memory_db = \<lparr> db_records = [], db_revisions = [], db_reviews = [], db_bindings = [],
     db_syncs = [] \<rparr>"

datatype memory_error =
    RecordNotFound string
  | CreateConflict string
  | ReviewConflict string
  | SyncConflict string
  | TransitionConflict string
  | UnsupportedDecision
  | InvalidMemoryKey
  | RecordInvalid
  | SourceConstraint

section \<open>Reading\<close>

definition review_of :: "memory_db \<Rightarrow> string \<Rightarrow> string \<Rightarrow> review_row option" where
  "review_of db record_id content_hash =
     last_match (\<lambda>v. rv_record v = record_id \<and> rv_hash v = content_hash) (db_reviews db)"

definition latest_review :: "memory_db \<Rightarrow> string \<Rightarrow> string \<Rightarrow> review_row option" where
  "latest_review db record_id content_hash = review_of db record_id content_hash"

definition with_review_state :: "memory_db \<Rightarrow> string \<Rightarrow> memory \<Rightarrow> memory" where
  "with_review_state db record_id r =
     (case review_of db record_id (mem_content_hash r) of
        None \<Rightarrow> r
      | Some v \<Rightarrow> r\<lparr>mem_state := rv_decision v\<rparr>)"

definition list_memory :: "memory_db \<Rightarrow> memory list" where
  "list_memory db = map (\<lambda>(i, r). with_review_state db i r) (db_records db)"

definition get_memory :: "memory_db \<Rightarrow> string \<Rightarrow> memory option" where
  "get_memory db record_id =
     (case map_of (db_records db) record_id of
        None \<Rightarrow> None
      | Some r \<Rightarrow> Some (with_review_state db record_id r))"

definition get_revision :: "memory_db \<Rightarrow> string \<Rightarrow> string \<Rightarrow> memory option" where
  "get_revision db record_id content_hash =
     (case last_match (\<lambda>(i, r). i = record_id \<and> mem_content_hash r = content_hash)
            (db_revisions db) of
        None \<Rightarrow> None
      | Some (_, r) \<Rightarrow> Some (with_review_state db record_id r))"

section \<open>Writing records\<close>

text \<open>\<open>INSERT OR IGNORE\<close> under \<open>UNIQUE (record_id, record_json)\<close>\<close>

definition insert_revision :: "string \<Rightarrow> memory \<Rightarrow> (string \<times> memory) list \<Rightarrow> (string \<times> memory) list" where
  "insert_revision i r rows = (if (i, r) \<in> set rows then rows else rows @ [(i, r)])"

definition write_record :: "memory_db \<Rightarrow> memory \<Rightarrow> memory_db" where
  "write_record db r = db\<lparr>
     db_records := alist_put (mem_id r) r (db_records db),
     db_revisions := insert_revision (mem_id r) r (db_revisions db)\<rparr>"

definition insert_explicit_record :: "memory_db \<Rightarrow> memory \<Rightarrow> (memory_error + memory) \<times> memory_db" where
  "insert_explicit_record db r =
     (case map_of (db_records db) (mem_id r) of
        Some existing \<Rightarrow>
          if existing \<noteq> r then (Inl (CreateConflict (mem_id r)), db) else (Inr existing, db)
      | None \<Rightarrow> (Inr r, db\<lparr>
          db_records := db_records db @ [(mem_id r, r)],
          db_revisions := db_revisions db @ [(mem_id r, r)]\<rparr>))"

text \<open>The keyword arguments of \<open>create_native\<close>.\<close>

record native_request =
  nr_id :: "string option"
  nr_title :: string
  nr_content :: string
  nr_category :: memory_category
  nr_domains :: "memory_domain list"
  nr_topics :: "string list"
  nr_hash :: string
  nr_nodes :: "architecture_node list"
  nr_source_refs :: "string list"
  nr_created_by :: "string option"
  nr_request :: "string option"
  nr_target :: "string option"
  nr_expected_hash :: "string option"
  nr_reason :: "string option"

definition native_record :: "native_request \<Rightarrow> string \<Rightarrow> memory" where
  "native_record q record_id =
     \<lparr> mem_id = record_id, mem_title = nr_title q, mem_content = nr_content q,
       mem_state = Candidate, mem_source_kind = NativeSource, mem_source_key = ''native'',
       mem_source_path = None, mem_source_status = None, mem_category = nr_category q,
       mem_domains = nr_domains q, mem_topics = nr_topics q, mem_content_hash = nr_hash q,
       mem_wikilinks = [], mem_basis = [''customer:native''], mem_nodes = nr_nodes q,
       mem_source_refs = nr_source_refs q, mem_created_by = nr_created_by q,
       mem_request = nr_request q, mem_target = nr_target q,
       mem_expected_hash = nr_expected_hash q, mem_reason = nr_reason q \<rparr>"

definition create_native ::
    "(nat \<Rightarrow> string) \<Rightarrow> memory_db \<times> nat \<Rightarrow> native_request
      \<Rightarrow> (memory_error + memory) \<times> memory_db \<times> nat" where
  "create_native rand s q =
     (case s of (db, draws) \<Rightarrow>
     (case nr_id q of
        Some record_id \<Rightarrow>
          let r = native_record q record_id in
          if \<not> valid_memory r then (Inl RecordInvalid, db, draws)
          else (case insert_explicit_record db r of (res, db') \<Rightarrow> (res, db', draws))
      | None \<Rightarrow>
          let r = native_record q (new_record_id (rand draws)) in
          if \<not> valid_memory r then (Inl RecordInvalid, db, draws + 1)
          else (Inr r, write_record db r, draws + 1)))"

section \<open>Reviews\<close>

text \<open>\<open>_review_locked\<close>; the \<open>INSERT\<close> fails when the event identity is taken.\<close>

definition review_locked ::
    "memory_db \<Rightarrow> string \<Rightarrow> authority \<Rightarrow> string \<Rightarrow> string \<Rightarrow> string option
      \<Rightarrow> memory_error + memory \<times> memory_db" where
  "review_locked db record_id decision event_id key replacement_id =
     (case get_memory db record_id of
        None \<Rightarrow> Inl (RecordNotFound record_id)
      | Some current \<Rightarrow>
          let row = \<lparr> rv_event = event_id, rv_key = key, rv_record = record_id,
                rv_hash = mem_content_hash current, rv_decision = decision,
                rv_replacement = replacement_id \<rparr> in
         (case find (\<lambda>v. rv_key v = key) (db_reviews db) of
            Some existing \<Rightarrow>
              if existing \<noteq> row then Inl (ReviewConflict key) else Inr (current, db)
          | None \<Rightarrow>
              if decision \<in> {Approved, Rejected} \<and>
                 (mem_state current \<notin> {Candidate, Curated} \<or> replacement_id \<noteq> None)
              then Inl (TransitionConflict record_id)
              else if decision \<notin> {Approved, Rejected} \<and>
                 (let replacement = Option.bind replacement_id (get_memory db) in
                    mem_state current \<noteq> Approved \<or>
                    (case replacement of
                       None \<Rightarrow> True
                     | Some r \<Rightarrow> mem_id r = record_id \<or> mem_state r \<noteq> Approved))
              then Inl (TransitionConflict record_id)
              else if event_id \<in> set (map rv_event (db_reviews db))
              then Inl (ReviewConflict event_id)
              else let db' = db\<lparr>db_reviews := db_reviews db @ [row]\<rparr> in
                (case get_memory db' record_id of
                   None \<Rightarrow> Inl (RecordNotFound record_id)
                 | Some reviewed \<Rightarrow> Inr (reviewed, db'))))"

definition review_memory ::
    "memory_db \<Rightarrow> string \<Rightarrow> authority \<Rightarrow> string \<Rightarrow> string \<Rightarrow> string option
      \<Rightarrow> (memory_error + memory) \<times> memory_db" where
  "review_memory db record_id decision event_id key replacement_id =
     (if decision \<notin> {Approved, Rejected, Superseded} then (Inl UnsupportedDecision, db)
      else if \<not> is_idempotency_key key then (Inl InvalidMemoryKey, db)
      else case review_locked db record_id decision event_id key replacement_id of
        Inl e \<Rightarrow> (Inl e, db)
      | Inr (reviewed, db') \<Rightarrow> (Inr reviewed, db'))"

section \<open>Synchronizing a source\<close>

record sync_result =
  sr_records :: "memory list"
  sr_created :: nat
  sr_revised :: nat
  sr_unchanged :: nat
  sr_missing :: nat
  sr_issues :: nat

text \<open>The local variables of the loop over the notes.\<close>

record sync_acc =
  ac_db :: memory_db
  ac_draws :: nat
  ac_done :: "memory list"
  ac_created :: nat
  ac_revised :: nat
  ac_unchanged :: nat

definition curated_record :: "string \<Rightarrow> indexed_note \<Rightarrow> string \<Rightarrow> memory" where
  "curated_record source_key n record_id =
     \<lparr> mem_id = record_id, mem_title = note_title n, mem_content = note_content n,
       mem_state = Curated, mem_source_kind = ObsidianSource, mem_source_key = source_key,
       mem_source_path = Some (note_path n), mem_source_status = note_status n,
       mem_category = note_category n, mem_domains = note_domains n, mem_topics = note_topics n,
       mem_content_hash = note_hash n, mem_wikilinks = note_wikilinks n,
       mem_basis = note_basis n, mem_nodes = [], mem_source_refs = [], mem_created_by = None,
       mem_request = None, mem_target = None, mem_expected_hash = None, mem_reason = None \<rparr>"

text \<open>The record a note is bound to, with the locator it is renamed from.\<close>

definition resolve_note ::
    "binding_row list \<Rightarrow> string set \<Rightarrow> string \<Rightarrow> indexed_note \<Rightarrow> (string \<times> string option) option" where
  "resolve_note bindings current_locators source_key n =
     (case find (\<lambda>b. bd_source b = source_key \<and> bd_locator b = note_path n) bindings of
        Some b \<Rightarrow> Some (bd_record b, None)
      | None \<Rightarrow>
          (case filter (\<lambda>b. bd_source b = source_key \<and> bd_hash b = note_hash n \<and>
                  bd_locator b \<notin> current_locators) bindings of
             [b] \<Rightarrow> Some (bd_record b, Some (bd_locator b))
           | _ \<Rightarrow> None))"

text \<open>\<open>None\<close> where the \<open>UNIQUE\<close> record identity of another binding is violated\<close>

fun put_binding :: "binding_row \<Rightarrow> binding_row list \<Rightarrow> binding_row list" where
  "put_binding b [] = [b]"
| "put_binding b (b' # bs) =
     (if bd_source b' = bd_source b \<and> bd_locator b' = bd_locator b then b # bs
      else b' # put_binding b bs)"

definition upsert_binding :: "binding_row \<Rightarrow> binding_row list \<Rightarrow> binding_row list option" where
  "upsert_binding b bs =
     (if \<exists>b'\<in>set bs. bd_record b' = bd_record b \<and>
          (bd_source b' \<noteq> bd_source b \<or> bd_locator b' \<noteq> bd_locator b)
      then None else Some (put_binding b bs))"

definition sync_note ::
    "(nat \<Rightarrow> string) \<Rightarrow> string set \<Rightarrow> string \<Rightarrow> indexed_note \<Rightarrow> sync_acc \<Rightarrow> memory_error + sync_acc" where
  "sync_note rand current_locators source_key n acc =
     (let db = ac_db acc;
          resolved = resolve_note (db_bindings db) current_locators source_key n;
          record_id = (case resolved of Some (i, _) \<Rightarrow> i | None \<Rightarrow> new_record_id (rand (ac_draws acc)));
          previous = (case resolved of Some (_, p) \<Rightarrow> p | None \<Rightarrow> None);
          draws' = (if resolved = None then ac_draws acc + 1 else ac_draws acc);
          stored = map_of (db_records db) record_id;
          r = curated_record source_key n record_id in
      if \<not> valid_memory r then Inl RecordInvalid
      else
        let db1 = write_record db r;
            kept = (case previous of
                None \<Rightarrow> db_bindings db1
              | Some locator \<Rightarrow> filter (\<lambda>b. \<not> (bd_source b = source_key \<and> bd_locator b = locator))
                  (db_bindings db1)) in
        case upsert_binding \<lparr> bd_source = source_key, bd_locator = note_path n,
               bd_hash = note_hash n, bd_record = record_id \<rparr> kept of
          None \<Rightarrow> Inl SourceConstraint
        | Some bindings' \<Rightarrow>
            let db2 = db1\<lparr>db_bindings := bindings'\<rparr>;
                synced = (case get_memory db2 record_id of Some m \<Rightarrow> m | None \<Rightarrow> r) in
            Inr \<lparr> ac_db = db2, ac_draws = draws', ac_done = ac_done acc @ [synced],
              ac_created = ac_created acc + (if resolved = None then 1 else 0),
              ac_revised = ac_revised acc +
                (if resolved \<noteq> None \<and> stored \<noteq> Some r then 1 else 0),
              ac_unchanged = ac_unchanged acc +
                (if resolved \<noteq> None \<and> stored = Some r then 1 else 0) \<rparr>)"

fun sync_notes ::
    "(nat \<Rightarrow> string) \<Rightarrow> string set \<Rightarrow> string \<Rightarrow> indexed_note list \<Rightarrow> sync_acc \<Rightarrow> memory_error + sync_acc" where
  "sync_notes rand current_locators source_key [] acc = Inr acc"
| "sync_notes rand current_locators source_key (n # ns) acc =
     try_bind (sync_note rand current_locators source_key n acc)
       (sync_notes rand current_locators source_key ns)"

text \<open>One round of the loop over the bindings whose locator is no longer in the source.\<close>

definition mark_missing :: "string set \<Rightarrow> binding_row \<Rightarrow> memory_db \<times> nat \<Rightarrow> memory_db \<times> nat" where
  "mark_missing current_locators b s =
     (case s of (db, missing) \<Rightarrow>
      if bd_locator b \<in> current_locators then (db, missing)
      else (case map_of (db_records db) (bd_record b) of
        None \<Rightarrow> (db, missing)
      | Some stored \<Rightarrow>
          if mem_source_status stored \<noteq> Some ''missing''
          then (write_record db (stored\<lparr>mem_source_status := Some ''missing''\<rparr>), missing + 1)
          else (db, missing)))"

definition sync_obsidian_locked ::
    "(nat \<Rightarrow> string) \<Rightarrow> memory_db \<times> nat \<Rightarrow> string \<Rightarrow> indexed_note list \<Rightarrow> string \<Rightarrow> string \<Rightarrow> string \<Rightarrow> nat
      \<Rightarrow> memory_error + sync_result \<times> memory_db \<times> nat" where
  "sync_obsidian_locked rand s source_key notes event_id key snapshot_hash issue_count =
     (case s of (db, draws) \<Rightarrow>
      if \<not> is_idempotency_key key then Inl InvalidMemoryKey
      else (case find (\<lambda>y. sy_key y = key) (db_syncs db) of
        Some y \<Rightarrow>
          if (sy_event y, sy_source y, sy_snapshot y) \<noteq> (event_id, source_key, snapshot_hash)
          then Inl (SyncConflict key)
          else Inr (\<lparr> sr_records = filter (\<lambda>r. mem_source_key r = source_key) (list_memory db),
             sr_created = sy_created y, sr_revised = sy_revised y, sr_unchanged = sy_unchanged y,
             sr_missing = sy_missing y, sr_issues = sy_issues y \<rparr>, db, draws)
      | None \<Rightarrow>
          if event_id \<in> set (map sy_event (db_syncs db)) then Inl (SyncConflict event_id)
          else
            let current_locators = set (map note_path notes) in
            try_bind (sync_notes rand current_locators source_key notes
               \<lparr> ac_db = db, ac_draws = draws, ac_done = [], ac_created = 0, ac_revised = 0,
                 ac_unchanged = 0 \<rparr>) (\<lambda>acc.
              let bound = filter (\<lambda>b. bd_source b = source_key) (db_bindings (ac_db acc));
                  (db', missing) = fold (mark_missing current_locators) bound (ac_db acc, 0);
                  row = \<lparr> sy_event = event_id, sy_key = key, sy_source = source_key,
                    sy_snapshot = snapshot_hash, sy_created = ac_created acc,
                    sy_revised = ac_revised acc, sy_unchanged = ac_unchanged acc,
                    sy_missing = missing, sy_issues = issue_count \<rparr> in
              Inr (\<lparr> sr_records = ac_done acc, sr_created = ac_created acc,
                  sr_revised = ac_revised acc, sr_unchanged = ac_unchanged acc,
                  sr_missing = missing, sr_issues = issue_count \<rparr>,
                db'\<lparr>db_syncs := db_syncs db' @ [row]\<rparr>, ac_draws acc))))"

definition sync_obsidian ::
    "(nat \<Rightarrow> string) \<Rightarrow> memory_db \<times> nat \<Rightarrow> string \<Rightarrow> indexed_note list \<Rightarrow> string \<Rightarrow> string \<Rightarrow> string \<Rightarrow> nat
      \<Rightarrow> (memory_error + sync_result) \<times> memory_db \<times> nat" where
  "sync_obsidian rand s source_key notes event_id key snapshot_hash issue_count =
     (case sync_obsidian_locked rand s source_key notes event_id key snapshot_hash issue_count of
        Inl e \<Rightarrow> (Inl e, fst s, snd s)
      | Inr (res, db', draws') \<Rightarrow> (Inr res, db', draws'))"

section \<open>The authority state machine\<close>

text \<open>The transitions a review may make on one exact revision.\<close>

inductive authority_step :: "authority \<Rightarrow> authority \<Rightarrow> bool" where
  approve: "s = Candidate \<or> s = Curated \<Longrightarrow> authority_step s Approved"
| reject: "s = Candidate \<or> s = Curated \<Longrightarrow> authority_step s Rejected"
| supersede: "authority_step Approved Superseded"

code_pred authority_step .

inductive_simps authority_step_simps [simp]:
  "authority_step s Approved" "authority_step s Rejected" "authority_step s Superseded"
  "authority_step Rejected t" "authority_step Superseded t" "authority_step Approved t"

text \<open>The decisions recorded for one revision, oldest first.\<close>

definition history :: "memory_db \<Rightarrow> string \<Rightarrow> string \<Rightarrow> authority list" where
  "history db i h =
     map rv_decision (filter (\<lambda>v. rv_record v = i \<and> rv_hash v = h) (db_reviews db))"

definition initial_state :: "authority \<Rightarrow> bool" where
  "initial_state s \<longleftrightarrow> s = Candidate \<or> s = Curated"

definition legal_history :: "authority list \<Rightarrow> bool" where
  "legal_history ds \<longleftrightarrow> ds \<in> {[], [Approved], [Rejected], [Approved, Superseded]}"

lemma state_of_history:
  "mem_state (with_review_state db i r) =
     (case history db i (mem_content_hash r) of [] \<Rightarrow> mem_state r | ds \<Rightarrow> last ds)"
  by (auto simp: with_review_state_def review_of_def history_def last_match_filter last_map
      split: list.splits)

lemma with_review_state_same [simp]:
  "mem_content_hash (with_review_state db i r) = mem_content_hash r"
  "mem_id (with_review_state db i r) = mem_id r"
  "mem_source_status (with_review_state db i r) = mem_source_status r"
  "mem_source_key (with_review_state db i r) = mem_source_key r"
  by (simp_all add: with_review_state_def split: option.splits)

lemma with_review_state_cong:
  "history db i (mem_content_hash r) = history db' i (mem_content_hash r) \<Longrightarrow>
   with_review_state db i r = with_review_state db' i r"
proof -
  assume h: "history db i (mem_content_hash r) = history db' i (mem_content_hash r)"
  have "with_review_state d i r = r\<lparr>mem_state := (case history d i (mem_content_hash r) of
      [] \<Rightarrow> mem_state r | ds \<Rightarrow> last ds)\<rparr>" for d
    by (auto simp: with_review_state_def review_of_def history_def last_match_filter last_map
        split: list.splits)
  with h show ?thesis by simp
qed

lemma legal_history_last:
  "legal_history ds \<Longrightarrow> ds \<noteq> [] \<Longrightarrow> last ds = Approved \<longleftrightarrow> ds = [Approved]"
  "legal_history ds \<Longrightarrow> ds \<noteq> [] \<Longrightarrow> \<not> initial_state (last ds)"
  by (auto simp: legal_history_def initial_state_def)

section \<open>The invariant of the database\<close>

definition records_ok :: "memory_db \<Rightarrow> bool" where
  "records_ok db \<longleftrightarrow>
     distinct (map fst (db_records db)) \<and>
     (\<forall>(i, r)\<in>set (db_records db).
        mem_id r = i \<and> valid_memory r \<and> initial_state (mem_state r) \<and>
        (i, r) \<in> set (db_revisions db)) \<and>
     distinct (db_revisions db) \<and>
     (\<forall>(i, r)\<in>set (db_revisions db).
        i \<in> fst ` set (db_records db) \<and> mem_id r = i \<and> initial_state (mem_state r))"

definition reviews_ok :: "memory_db \<Rightarrow> bool" where
  "reviews_ok db \<longleftrightarrow>
     distinct (map rv_event (db_reviews db)) \<and> distinct (map rv_key (db_reviews db)) \<and>
     (\<forall>i h. legal_history (history db i h)) \<and>
     (\<forall>v\<in>set (db_reviews db).
        \<exists>r. (rv_record v, r) \<in> set (db_revisions db) \<and> mem_content_hash r = rv_hash v)"

definition binding_key :: "binding_row \<Rightarrow> string \<times> string" where
  "binding_key b = (bd_source b, bd_locator b)"

definition bindings_ok :: "memory_db \<Rightarrow> bool" where
  "bindings_ok db \<longleftrightarrow>
     distinct (map binding_key (db_bindings db)) \<and>
     distinct (map bd_record (db_bindings db)) \<and>
     bd_record ` set (db_bindings db) \<subseteq> fst ` set (db_records db)"

definition syncs_ok :: "memory_db \<Rightarrow> bool" where
  "syncs_ok db \<longleftrightarrow> distinct (map sy_event (db_syncs db)) \<and> distinct (map sy_key (db_syncs db))"

definition memory_ok :: "memory_db \<Rightarrow> bool" where
  "memory_ok db \<longleftrightarrow> records_ok db \<and> reviews_ok db \<and> bindings_ok db \<and> syncs_ok db"

lemma empty_memory_ok [simp]: "memory_ok empty_memory_db"
  by (simp add: memory_ok_def records_ok_def reviews_ok_def bindings_ok_def syncs_ok_def
      empty_memory_db_def history_def legal_history_def)

lemma records_okD:
  assumes "records_ok db" and "map_of (db_records db) i = Some r"
  shows "mem_id r = i" "valid_memory r" "initial_state (mem_state r)"
    "(i, r) \<in> set (db_revisions db)"
  using assms map_of_SomeD [OF assms(2)] by (auto simp: records_ok_def)

lemma get_memory_state:
  assumes "memory_ok db" and "get_memory db i = Some m"
  obtains r where "map_of (db_records db) i = Some r" "m = with_review_state db i r"
    "mem_id m = i" "initial_state (mem_state r)"
    "legal_history (history db i (mem_content_hash m))"
    "mem_state m = (case history db i (mem_content_hash m) of [] \<Rightarrow> mem_state r | ds \<Rightarrow> last ds)"
proof -
  from assms(2) obtain r where r: "map_of (db_records db) i = Some r" "m = with_review_state db i r"
    by (auto simp: get_memory_def split: option.splits)
  then show ?thesis
    using that [OF r] assms(1) records_okD [of db i r] state_of_history [of db i r]
    by (simp add: memory_ok_def reviews_ok_def)
qed

section \<open>Writing a record keeps the invariant\<close>

lemma write_record_simps [simp]:
  "db_records (write_record db r) = alist_put (mem_id r) r (db_records db)"
  "db_revisions (write_record db r) = insert_revision (mem_id r) r (db_revisions db)"
  "db_reviews (write_record db r) = db_reviews db"
  "db_bindings (write_record db r) = db_bindings db"
  "db_syncs (write_record db r) = db_syncs db"
  by (simp_all add: write_record_def)

lemma history_reviews: "db_reviews db = db_reviews db' \<Longrightarrow> history db i h = history db' i h"
  by (simp add: history_def)

lemma set_insert_revision: "set (insert_revision i r rows) = insert (i, r) (set rows)"
  by (auto simp: insert_revision_def)

lemma distinct_insert_revision: "distinct rows \<Longrightarrow> distinct (insert_revision i r rows)"
  by (simp add: insert_revision_def)

lemma keys_set_alist_put: "fst ` set (alist_put k v m) = insert k (fst ` set m)"
  using keys_alist_put [of k v m] by (metis (no_types) dom_fun_upd dom_map_of_conv_image_fst
      map_of_alist_put option.distinct(1))

lemma alist_put_other:
  "distinct (map fst m) \<Longrightarrow> (i, r) \<in> set (alist_put k v m) \<longleftrightarrow>
     (i, r) = (k, v) \<or> i \<noteq> k \<and> (i, r) \<in> set m"
  by (subst map_of_eq_Some_iff [symmetric]) auto

lemma write_record_ok:
  assumes "memory_ok db" and "valid_memory r" and "initial_state (mem_state r)"
  shows "memory_ok (write_record db r)"
proof -
  have "records_ok (write_record db r)"
    using assms unfolding memory_ok_def records_ok_def
    by (auto simp: alist_put_other set_insert_revision distinct_insert_revision keys_set_alist_put)
  moreover have "reviews_ok (write_record db r)"
    using assms(1) history_reviews [of "write_record db r" db]
    by (fastforce simp: memory_ok_def reviews_ok_def set_insert_revision)
  moreover have "bindings_ok (write_record db r)" "syncs_ok (write_record db r)"
    using assms(1) by (auto simp: memory_ok_def bindings_ok_def syncs_ok_def keys_set_alist_put)
  ultimately show ?thesis by (simp add: memory_ok_def)
qed

lemma with_review_state_write [simp]: "with_review_state (write_record db r) i = with_review_state db i"
  by (rule ext) (simp add: with_review_state_def review_of_def)

lemma get_memory_write_other:
  "i \<noteq> mem_id r \<Longrightarrow> get_memory (write_record db r) i = get_memory db i"
  by (simp add: get_memory_def split: option.split)

lemma get_memory_write_same:
  "get_memory (write_record db r) (mem_id r) = Some (with_review_state db (mem_id r) r)"
  by (simp add: get_memory_def)

section \<open>Creating\<close>

lemma native_record_simps [simp]:
  "mem_id (native_record q i) = i" "mem_state (native_record q i) = Candidate"
  by (simp_all add: native_record_def)

lemma insert_explicit_ok:
  assumes "memory_ok db" and "valid_memory r" and "initial_state (mem_state r)"
    and "insert_explicit_record db r = (res, db')"
  shows "memory_ok db'"
proof (cases "map_of (db_records db) (mem_id r)")
  case None
  then have "mem_id r \<notin> fst ` set (db_records db)" by (simp add: map_of_eq_None_iff)
  moreover from this have "(mem_id r, r) \<notin> set (db_revisions db)"
    using assms(1) by (auto simp: memory_ok_def records_ok_def)
  ultimately have "db' = write_record db r"
    using assms(4) None
    by (auto simp: insert_explicit_record_def write_record_def insert_revision_def alist_put_new)
  with write_record_ok [OF assms(1-3)] show ?thesis by simp
next
  case (Some r')
  with assms show ?thesis by (auto simp: insert_explicit_record_def split: if_splits)
qed

lemma create_native_ok:
  assumes "memory_ok db" and "create_native rand (db, n) q = (res, db', n')"
  shows "memory_ok db'"
  using assms write_record_ok [OF assms(1)] insert_explicit_ok [OF assms(1)]
  by (auto simp: create_native_def Let_def initial_state_def split: option.splits if_splits prod.splits)

section \<open>Reviewing\<close>

lemma review_locked_cases:
  assumes "review_locked db i decision ev key rep = Inr (m, db')"
  obtains (replay) row where "get_memory db i = Some m" "db' = db" "row \<in> set (db_reviews db)"
      "row = \<lparr> rv_event = ev, rv_key = key, rv_record = i, rv_hash = mem_content_hash m,
         rv_decision = decision, rv_replacement = rep \<rparr>"
  | (fresh) old where "get_memory db i = Some old"
      "db' = db\<lparr>db_reviews := db_reviews db @ [\<lparr> rv_event = ev, rv_key = key, rv_record = i,
         rv_hash = mem_content_hash old, rv_decision = decision, rv_replacement = rep \<rparr>]\<rparr>"
      "get_memory db' i = Some m" "key \<notin> set (map rv_key (db_reviews db))"
      "ev \<notin> set (map rv_event (db_reviews db))"
      "decision \<in> {Approved, Rejected} \<longrightarrow> initial_state (mem_state old) \<and> rep = None"
      "decision \<notin> {Approved, Rejected} \<longrightarrow> mem_state old = Approved \<and>
        (\<exists>j r. rep = Some j \<and> get_memory db j = Some r \<and> mem_id r \<noteq> i \<and> mem_state r = Approved)"
proof -
  from assms obtain old where old: "get_memory db i = Some old"
    by (auto simp: review_locked_def split: option.splits)
  show ?thesis
  proof (cases "find (\<lambda>v. rv_key v = key) (db_reviews db)")
    case (Some v)
    with old assms show ?thesis
      by (intro replay) (auto simp: review_locked_def dest: find_Some_mem split: if_splits)
  next
    case None
    then have "key \<notin> set (map rv_key (db_reviews db))" by (auto simp: find_None_iff_all)
    then show ?thesis
      using old None assms
      by (intro fresh [OF old])
        (auto simp: review_locked_def Let_def initial_state_def split: if_splits option.splits
          Option.bind_splits)
  qed
qed

lemma history_review:
  "history (db\<lparr>db_reviews := db_reviews db @ [v]\<rparr>) i h =
     history db i h @ (if rv_record v = i \<and> rv_hash v = h then [rv_decision v] else [])"
  by (simp add: history_def)

text \<open>A decision the state machine admits extends a legal history legally.\<close>

lemma legal_history_step:
  assumes "legal_history ds" and "initial_state base"
    and "authority_step (case ds of [] \<Rightarrow> base | _ \<Rightarrow> last ds) d"
    and "d \<in> {Approved, Rejected, Superseded}"
  shows "legal_history (ds @ [d])"
  using assms by (auto simp: legal_history_def initial_state_def)

lemma fresh_review:
  assumes "memory_ok db" and "get_memory db i = Some old"
    and "decision \<in> {Approved, Rejected, Superseded}"
    and "decision \<in> {Approved, Rejected} \<longrightarrow> initial_state (mem_state old)"
    and "decision \<notin> {Approved, Rejected} \<longrightarrow> mem_state old = Approved"
    and "v = \<lparr> rv_event = ev, rv_key = key, rv_record = i, rv_hash = mem_content_hash old,
       rv_decision = decision, rv_replacement = rep \<rparr>"
    and "key \<notin> set (map rv_key (db_reviews db))" and "ev \<notin> set (map rv_event (db_reviews db))"
  defines "db' \<equiv> db\<lparr>db_reviews := db_reviews db @ [v]\<rparr>"
  shows "memory_ok db'" "authority_step (mem_state old) decision"
    "get_memory db' i = Some (old\<lparr>mem_state := decision\<rparr>)"
    "\<And>j. j \<noteq> i \<Longrightarrow> get_memory db' j = get_memory db j"
proof -
  obtain r where r: "map_of (db_records db) i = Some r" "old = with_review_state db i r"
    "initial_state (mem_state r)" "legal_history (history db i (mem_content_hash old))"
    "mem_state old = (case history db i (mem_content_hash old) of [] \<Rightarrow> mem_state r | ds \<Rightarrow> last ds)"
    using get_memory_state [OF assms(1,2)] by metis
  show step: "authority_step (mem_state old) decision"
    using assms(3-5) by (auto simp: initial_state_def)
  have legal: "legal_history (history db' j h)" for j h
    using assms(1,3,6) legal_history_step [OF r(4,3) _ assms(3)] step r(5)
    by (auto simp: db'_def history_review memory_ok_def reviews_ok_def split: list.splits)
  have "reviews_ok db'"
    using assms(1,6-8) legal records_okD(4) [OF _ r(1)] r(2)
    by (auto simp: db'_def memory_ok_def reviews_ok_def intro!: bexI)
  moreover have "records_ok db'" "bindings_ok db'" "syncs_ok db'"
    using assms(1) by (simp_all add: db'_def memory_ok_def records_ok_def bindings_ok_def syncs_ok_def)
  ultimately show "memory_ok db'" by (simp add: memory_ok_def)
  have "mem_content_hash old = mem_content_hash r" using r(2) by simp
  then have "with_review_state db' i r = r\<lparr>mem_state := decision\<rparr>"
    using assms(6) by (simp add: db'_def with_review_state_def review_of_def)
  moreover have "r\<lparr>mem_state := decision\<rparr> = old\<lparr>mem_state := decision\<rparr>"
    using r(2) by (simp add: with_review_state_def split: option.splits)
  ultimately show "get_memory db' i = Some (old\<lparr>mem_state := decision\<rparr>)"
    using r(1) by (simp add: get_memory_def db'_def)
  show "get_memory db' j = get_memory db j" if "j \<noteq> i" for j
    using that assms(6)
    by (simp add: get_memory_def db'_def with_review_state_def review_of_def split: option.split)
qed

lemma review_memory_cases:
  assumes "review_memory db i decision ev key rep = (res, db')"
  obtains (refused) e where "res = Inl e" "db' = db"
  | (accepted) m where "res = Inr m" "decision \<in> {Approved, Rejected, Superseded}"
      "is_idempotency_key key" "review_locked db i decision ev key rep = Inr (m, db')"
  using assms by (auto simp: review_memory_def split: if_splits sum.splits prod.splits)

lemma review_memory_ok:
  assumes "memory_ok db" and "review_memory db i decision ev key rep = (res, db')"
  shows "memory_ok db'"
  using assms(2)
proof (cases rule: review_memory_cases)
  case (accepted m)
  from accepted(4) show ?thesis
  proof (cases rule: review_locked_cases)
    case (fresh old)
    show ?thesis
      unfolding fresh(2)
      by (rule fresh_review(1) [OF assms(1) fresh(1) accepted(2)]) (use fresh in auto)
  qed (use assms(1) in simp)
qed (use assms(1) in simp)

end
