(* ===== verification/Memory_Sync.thy ===== *)
theory Memory_Sync
  imports Memory_Repository
begin

text \<open>
  What a synchronization of curated notes does to the repository of \<open>Memory_Repository\<close>: the
  loop over the notes mirrors each of them in a bound curated record, the loop over the
  bindings marks the records of vanished notes missing, and neither touches a review.
\<close>

section \<open>Bindings\<close>

lemma keys_put_binding:
  "map binding_key (put_binding b bs) =
     (if binding_key b \<in> set (map binding_key bs) then map binding_key bs
      else map binding_key bs @ [binding_key b])"
  by (induction b bs rule: put_binding.induct) (auto simp: binding_key_def)

lemma set_put_binding:
  "distinct (map binding_key bs) \<Longrightarrow>
   set (put_binding b bs) = insert b {x \<in> set bs. binding_key x \<noteq> binding_key b}"
  by (induction b bs rule: put_binding.induct) (auto simp: binding_key_def image_iff)

lemma upsert_binding_ok:
  assumes "upsert_binding b bs = Some bs'" and "distinct (map binding_key bs)"
    and "distinct (map bd_record bs)"
  shows "bs' = put_binding b bs" "distinct (map binding_key bs')" "distinct (map bd_record bs')"
    "\<And>x. x \<in> set bs \<Longrightarrow> binding_key x \<noteq> binding_key b \<Longrightarrow> bd_record x \<noteq> bd_record b"
proof -
  show eq: "bs' = put_binding b bs" using assms(1) by (simp add: upsert_binding_def split: if_splits)
  show other: "bd_record x \<noteq> bd_record b" if "x \<in> set bs" "binding_key x \<noteq> binding_key b" for x
    using assms(1) that by (auto simp: upsert_binding_def binding_key_def split: if_splits)
  show d: "distinct (map binding_key bs')" using assms(2) unfolding eq keys_put_binding by simp
  have "inj_on bd_record (set bs)" using assms(3) by (simp add: distinct_map)
  then have "inj_on bd_record (set bs')"
    unfolding eq set_put_binding [OF assms(2)] using other by (fastforce simp: inj_on_def)
  moreover have "distinct bs'" using d by (simp add: distinct_map)
  ultimately show "distinct (map bd_record bs')" by (simp add: distinct_map)
qed

section \<open>One note\<close>

definition mirrored :: "memory_db \<Rightarrow> string \<Rightarrow> indexed_note \<Rightarrow> bool" where
  "mirrored db k n \<longleftrightarrow>
     (\<exists>i. \<lparr> bd_source = k, bd_locator = note_path n, bd_hash = note_hash n, bd_record = i \<rparr>
            \<in> set (db_bindings db) \<and>
          map_of (db_records db) i = Some (curated_record k n i))"

lemma curated_record_simps [simp]:
  "mem_id (curated_record k n i) = i" "mem_state (curated_record k n i) = Curated"
  "mem_content_hash (curated_record k n i) = note_hash n"
  by (simp_all add: curated_record_def)

lemma sync_note_cases:
  assumes "sync_note rand cur k n acc = Inr acc'"
  obtains i prev bs' where
    "valid_memory (curated_record k n i)"
    "resolve_note (db_bindings (ac_db acc)) cur k n = Some (i, prev) \<or>
     resolve_note (db_bindings (ac_db acc)) cur k n = None \<and> prev = None"
    "upsert_binding \<lparr> bd_source = k, bd_locator = note_path n, bd_hash = note_hash n,
        bd_record = i \<rparr>
       (case prev of None \<Rightarrow> db_bindings (ac_db acc)
        | Some l \<Rightarrow> filter (\<lambda>b. \<not> (bd_source b = k \<and> bd_locator b = l)) (db_bindings (ac_db acc)))
       = Some bs'"
    "ac_db acc' = (write_record (ac_db acc) (curated_record k n i))\<lparr>db_bindings := bs'\<rparr>"
    "ac_created acc' + ac_revised acc' + ac_unchanged acc' =
       Suc (ac_created acc + ac_revised acc + ac_unchanged acc)"
proof (cases "resolve_note (db_bindings (ac_db acc)) cur k n")
  case None
  let ?i = "new_record_id (rand (ac_draws acc))"
  have v: "valid_memory (curated_record k n ?i)"
    using assms None by (simp add: sync_note_def Let_def split: if_splits)
  then obtain bs' where up: "upsert_binding \<lparr> bd_source = k, bd_locator = note_path n,
      bd_hash = note_hash n, bd_record = ?i \<rparr> (db_bindings (ac_db acc)) = Some bs'"
    using assms None
    by (cases "upsert_binding \<lparr> bd_source = k, bd_locator = note_path n,
      bd_hash = note_hash n, bd_record = ?i \<rparr> (db_bindings (ac_db acc))")
      (simp_all add: sync_note_def Let_def)
  show ?thesis
    by (rule that [of ?i None bs']) (use assms None v up in \<open>auto simp: sync_note_def Let_def\<close>)
next
  case (Some p)
  obtain i prev where p: "p = (i, prev)" by (cases p)
  have v: "valid_memory (curated_record k n i)"
    using assms Some p by (simp add: sync_note_def Let_def split: if_splits)
  let ?kept = "case prev of None \<Rightarrow> db_bindings (ac_db acc)
    | Some l \<Rightarrow> filter (\<lambda>b. \<not> (bd_source b = k \<and> bd_locator b = l)) (db_bindings (ac_db acc))"
  obtain bs' where up: "upsert_binding \<lparr> bd_source = k, bd_locator = note_path n,
      bd_hash = note_hash n, bd_record = i \<rparr> ?kept = Some bs'"
    using assms Some p v
    by (cases prev; cases "upsert_binding \<lparr> bd_source = k, bd_locator = note_path n,
      bd_hash = note_hash n, bd_record = i \<rparr> ?kept") (simp_all add: sync_note_def Let_def)
  show ?thesis
    by (rule that [of i prev bs'])
      (use assms Some p v up in \<open>cases prev; auto simp: sync_note_def Let_def\<close>)+
qed

lemma resolve_note_previous:
  "resolve_note bs cur k n = Some (i, Some l) \<Longrightarrow> l \<notin> cur"
  unfolding resolve_note_def
  by (simp split: option.splits list.splits) (metis (mono_tags) filter_eq_Cons_iff)

lemma sync_note_step:
  assumes "memory_ok (ac_db acc)" and "sync_note rand cur k n acc = Inr acc'"
    and "note_path n \<in> cur"
  shows "memory_ok (ac_db acc')" "db_reviews (ac_db acc') = db_reviews (ac_db acc)"
    "db_syncs (ac_db acc') = db_syncs (ac_db acc)" "mirrored (ac_db acc') k n"
    "\<And>n'. mirrored (ac_db acc) k n' \<Longrightarrow> note_path n' \<noteq> note_path n \<Longrightarrow> note_path n' \<in> cur \<Longrightarrow>
      mirrored (ac_db acc') k n'"
    "ac_created acc' + ac_revised acc' + ac_unchanged acc' =
       Suc (ac_created acc + ac_revised acc + ac_unchanged acc)"
proof -
  obtain i prev bs' where *: "valid_memory (curated_record k n i)"
    "resolve_note (db_bindings (ac_db acc)) cur k n = Some (i, prev) \<or>
     resolve_note (db_bindings (ac_db acc)) cur k n = None \<and> prev = None"
    "upsert_binding \<lparr> bd_source = k, bd_locator = note_path n, bd_hash = note_hash n,
        bd_record = i \<rparr>
       (case prev of None \<Rightarrow> db_bindings (ac_db acc)
        | Some l \<Rightarrow> filter (\<lambda>b. \<not> (bd_source b = k \<and> bd_locator b = l)) (db_bindings (ac_db acc)))
       = Some bs'"
    "ac_db acc' = (write_record (ac_db acc) (curated_record k n i))\<lparr>db_bindings := bs'\<rparr>"
    "ac_created acc' + ac_revised acc' + ac_unchanged acc' =
       Suc (ac_created acc + ac_revised acc + ac_unchanged acc)"
    by (rule sync_note_cases [OF assms(2)])
  let ?r = "curated_record k n i" and ?db = "ac_db acc"
  let ?b = "\<lparr> bd_source = k, bd_locator = note_path n, bd_hash = note_hash n, bd_record = i \<rparr>"
  define kept where "kept = (case prev of None \<Rightarrow> db_bindings ?db
    | Some l \<Rightarrow> filter (\<lambda>b. \<not> (bd_source b = k \<and> bd_locator b = l)) (db_bindings ?db))"
  have sub: "set kept \<subseteq> set (db_bindings ?db)" and d: "distinct (map binding_key kept)"
    "distinct (map bd_record kept)"
    using assms(1) by (auto simp: kept_def memory_ok_def bindings_ok_def distinct_map_filterI
        split: option.splits)
  note up = upsert_binding_ok [OF *(3)[folded kept_def] d]
  have w: "memory_ok (write_record ?db ?r)"
    by (rule write_record_ok [OF assms(1) *(1)]) (simp add: initial_state_def)
  have set_bs: "set bs' = insert ?b {x \<in> set kept. binding_key x \<noteq> binding_key ?b}"
    unfolding up(1) by (rule set_put_binding [OF d(1)])
  have "bd_record ` set kept \<subseteq> fst ` set (db_records ?db)"
    using sub assms(1) by (auto simp: bindings_ok_def memory_ok_def)
  then have "bindings_ok (ac_db acc')"
    using up(2,3) set_bs unfolding *(4) by (auto simp: bindings_ok_def keys_set_alist_put)
  then show "memory_ok (ac_db acc')"
    using w unfolding *(4) memory_ok_def
    by (simp add: records_ok_def reviews_ok_def syncs_ok_def history_def)
  show "db_reviews (ac_db acc') = db_reviews ?db" "db_syncs (ac_db acc') = db_syncs ?db"
    unfolding *(4) by simp_all
  show "mirrored (ac_db acc') k n"
    unfolding mirrored_def *(4) using set_bs by (intro exI [of _ i]) simp
  show "mirrored (ac_db acc') k n'"
    if n': "mirrored ?db k n'" "note_path n' \<noteq> note_path n" "note_path n' \<in> cur" for n'
  proof -
    from n'(1) obtain j where j: "\<lparr> bd_source = k, bd_locator = note_path n', bd_hash = note_hash n',
        bd_record = j \<rparr> \<in> set (db_bindings ?db)" "map_of (db_records ?db) j = Some (curated_record k n' j)"
      by (auto simp: mirrored_def)
    have prev: "prev = Some l \<Longrightarrow> l \<notin> cur" for l
      using *(2) resolve_note_previous by fastforce
    have k': "\<lparr> bd_source = k, bd_locator = note_path n', bd_hash = note_hash n', bd_record = j \<rparr> \<in> set kept"
      using j(1) prev n'(3) by (auto simp: kept_def split: option.splits)
    have "j \<noteq> i" using up(4) [OF k'] n'(2) by (simp add: binding_key_def)
    then show ?thesis
      unfolding mirrored_def *(4) using k' j(2) set_bs n'(2)
      by (intro exI [of _ j]) (simp add: binding_key_def)
  qed
  show "ac_created acc' + ac_revised acc' + ac_unchanged acc' =
       Suc (ac_created acc + ac_revised acc + ac_unchanged acc)" by fact
qed

section \<open>All notes\<close>

lemma sync_notes_step:
  assumes "memory_ok (ac_db acc)" and "sync_notes rand cur k ns acc = Inr acc'"
    and "note_path ` set ns \<subseteq> cur" and "distinct (map note_path ns)"
  shows "memory_ok (ac_db acc') \<and> db_reviews (ac_db acc') = db_reviews (ac_db acc) \<and>
    db_syncs (ac_db acc') = db_syncs (ac_db acc) \<and> (\<forall>n\<in>set ns. mirrored (ac_db acc') k n) \<and>
    (\<forall>n'. mirrored (ac_db acc) k n' \<longrightarrow> note_path n' \<notin> note_path ` set ns \<longrightarrow> note_path n' \<in> cur \<longrightarrow>
      mirrored (ac_db acc') k n') \<and>
    ac_created acc' + ac_revised acc' + ac_unchanged acc' =
       length ns + (ac_created acc + ac_revised acc + ac_unchanged acc)"
  using assms
proof (induction ns arbitrary: acc)
  case Nil
  then show ?case by simp
next
  case (Cons n ns)
  from Cons.prems(2) obtain acc1 where step: "sync_note rand cur k n acc = Inr acc1"
    "sync_notes rand cur k ns acc1 = Inr acc'" by (auto simp: result_simps)
  have n: "note_path n \<in> cur" using Cons.prems(3) by simp
  note one = sync_note_step [OF Cons.prems(1) step(1) n]
  have rest: "note_path ` set ns \<subseteq> cur" "distinct (map note_path ns)"
    using Cons.prems(3,4) by auto
  note IH = Cons.IH [OF one(1) step(2) rest]
  have "mirrored (ac_db acc') k n" using IH one(4) n Cons.prems(4) by auto
  then show ?case using IH one by auto
qed

lemma sync_notes_ok:
  assumes "memory_ok (ac_db acc)" and "sync_notes rand cur k ns acc = Inr acc'"
    and "note_path ` set ns \<subseteq> cur"
  shows "memory_ok (ac_db acc') \<and> db_reviews (ac_db acc') = db_reviews (ac_db acc) \<and>
    db_syncs (ac_db acc') = db_syncs (ac_db acc)"
  using assms
proof (induction ns arbitrary: acc)
  case (Cons n ns)
  from Cons.prems(2) obtain acc1 where step: "sync_note rand cur k n acc = Inr acc1"
    "sync_notes rand cur k ns acc1 = Inr acc'" by (auto simp: result_simps)
  have "note_path n \<in> cur" using Cons.prems(3) by simp
  note one = sync_note_step [OF Cons.prems(1) step(1) this]
  from Cons.IH [OF one(1) step(2)] Cons.prems(3) one(2,3) show ?case by simp
qed simp

section \<open>Vanished notes\<close>

lemma mark_missing_step:
  assumes "memory_ok db" and "mark_missing cur b (db, m) = (db', m')"
  shows "memory_ok db'" "db_reviews db' = db_reviews db" "db_bindings db' = db_bindings db"
    "db_syncs db' = db_syncs db"
    "\<And>j. j \<noteq> bd_record b \<or> bd_locator b \<in> cur \<Longrightarrow>
       map_of (db_records db') j = map_of (db_records db) j"
    "b \<in> set (db_bindings db) \<Longrightarrow> bd_locator b \<notin> cur \<Longrightarrow>
       \<exists>r. map_of (db_records db') (bd_record b) = Some r \<and> mem_source_status r = Some ''missing''"
proof -
  consider (same) "db' = db" "bd_locator b \<in> cur \<or> map_of (db_records db) (bd_record b) = None \<or>
      (\<exists>r. map_of (db_records db) (bd_record b) = Some r \<and> mem_source_status r = Some ''missing'')"
    | (marked) r where "map_of (db_records db) (bd_record b) = Some r" "bd_locator b \<notin> cur"
      "db' = write_record db (r\<lparr>mem_source_status := Some ''missing''\<rparr>)"
    using assms(2) by (auto simp: mark_missing_def split: if_splits option.splits)
  note effect = this
  have bound: "b \<in> set (db_bindings db) \<Longrightarrow> map_of (db_records db) (bd_record b) \<noteq> None"
    using assms(1) by (auto simp: memory_ok_def bindings_ok_def map_of_eq_None_iff)
  have r: "memory_ok (write_record db (r\<lparr>mem_source_status := Some ''missing''\<rparr>))"
    "mem_id r = bd_record b" if "map_of (db_records db) (bd_record b) = Some r" for r
  proof -
    have *: "mem_id r = bd_record b" "valid_memory r" "initial_state (mem_state r)"
      using records_okD [OF _ that] assms(1) by (auto simp: memory_ok_def)
    show "memory_ok (write_record db (r\<lparr>mem_source_status := Some ''missing''\<rparr>))"
      using * by (intro write_record_ok [OF assms(1)]) (simp_all add: valid_memory_def)
    show "mem_id r = bd_record b" by fact
  qed
  from effect show "memory_ok db'" using assms(1) r by cases auto
  from effect show "db_reviews db' = db_reviews db" "db_bindings db' = db_bindings db"
    "db_syncs db' = db_syncs db" by (cases; simp)+
  from effect show "map_of (db_records db') j = map_of (db_records db) j"
    if "j \<noteq> bd_record b \<or> bd_locator b \<in> cur" for j using that r by cases auto
  from effect show "\<exists>r. map_of (db_records db') (bd_record b) = Some r \<and>
      mem_source_status r = Some ''missing''"
    if "b \<in> set (db_bindings db)" "bd_locator b \<notin> cur"
    using that r bound by cases auto
qed

lemma mark_all:
  assumes "memory_ok db" and "set bs \<subseteq> set (db_bindings db)" and "distinct (map bd_record bs)"
    and "fold (mark_missing cur) bs (db, m) = (db', m')"
  shows "memory_ok db' \<and> db_reviews db' = db_reviews db \<and> db_bindings db' = db_bindings db \<and>
    db_syncs db' = db_syncs db \<and>
    (\<forall>j. j \<notin> bd_record ` {b \<in> set bs. bd_locator b \<notin> cur} \<longrightarrow>
       map_of (db_records db') j = map_of (db_records db) j) \<and>
    (\<forall>b\<in>set bs. bd_locator b \<notin> cur \<longrightarrow>
       (\<exists>r. map_of (db_records db') (bd_record b) = Some r \<and>
            mem_source_status r = Some ''missing''))"
  using assms
proof (induction bs arbitrary: db m)
  case Nil
  then show ?case by simp
next
  case (Cons b bs)
  obtain d1 m1 where one: "mark_missing cur b (db, m) = (d1, m1)" by (cases "mark_missing cur b (db, m)")
  note st = mark_missing_step [OF Cons.prems(1) one]
  have IH: "memory_ok db' \<and> db_reviews db' = db_reviews d1 \<and> db_bindings db' = db_bindings d1 \<and>
    db_syncs db' = db_syncs d1 \<and>
    (\<forall>j. j \<notin> bd_record ` {b \<in> set bs. bd_locator b \<notin> cur} \<longrightarrow>
       map_of (db_records db') j = map_of (db_records d1) j) \<and>
    (\<forall>b\<in>set bs. bd_locator b \<notin> cur \<longrightarrow>
       (\<exists>r. map_of (db_records db') (bd_record b) = Some r \<and>
            mem_source_status r = Some ''missing''))"
    using Cons.prems st(3) one by (intro Cons.IH [OF st(1)]) auto
  have "bd_record b \<notin> bd_record ` {b \<in> set bs. bd_locator b \<notin> cur}"
    using Cons.prems(3) by auto
  then have here: "map_of (db_records db') (bd_record b) = map_of (db_records d1) (bd_record b)"
    using IH by blast
  show ?case
  proof (intro conjI allI ballI impI)
    show "map_of (db_records db') j = map_of (db_records db) j"
      if "j \<notin> bd_record ` {b' \<in> set (b # bs). bd_locator b' \<notin> cur}" for j
    proof -
      have "j \<notin> bd_record ` {b' \<in> set bs. bd_locator b' \<notin> cur}"
        "j \<noteq> bd_record b \<or> bd_locator b \<in> cur" using that by auto
      then show ?thesis using IH st(5) [of j] by simp
    qed
    show "\<exists>r. map_of (db_records db') (bd_record b') = Some r \<and> mem_source_status r = Some ''missing''"
      if "b' \<in> set (b # bs)" "bd_locator b' \<notin> cur" for b'
      using that IH here st(6) Cons.prems(2) by auto
  qed (use IH st in auto)
qed

section \<open>The synchronization\<close>

lemma sync_locked_cases:
  assumes "sync_obsidian_locked rand (db, n) k notes ev key snap issues = Inr (res, db', n')"
  obtains (replay) y where "y \<in> set (db_syncs db)" "sy_key y = key" "sy_event y = ev"
      "sy_source y = k" "sy_snapshot y = snap" "db' = db" "n' = n"
      "sr_created res = sy_created y" "sr_revised res = sy_revised y"
      "sr_unchanged res = sy_unchanged y" "sr_missing res = sy_missing y" "sr_issues res = sy_issues y"
  | (fresh) acc db1 missing row where "key \<notin> set (map sy_key (db_syncs db))"
      "ev \<notin> set (map sy_event (db_syncs db))"
      "sync_notes rand (note_path ` set notes) k notes \<lparr> ac_db = db, ac_draws = n, ac_done = [],
         ac_created = 0, ac_revised = 0, ac_unchanged = 0 \<rparr> = Inr acc"
      "fold (mark_missing (note_path ` set notes))
         (filter (\<lambda>b. bd_source b = k) (db_bindings (ac_db acc))) (ac_db acc, 0) = (db1, missing)"
      "sy_event row = ev" "sy_key row = key" "db' = db1\<lparr>db_syncs := db_syncs db1 @ [row]\<rparr>"
      "sr_created res = ac_created acc" "sr_revised res = ac_revised acc"
      "sr_unchanged res = ac_unchanged acc" "sy_source row = k" "sy_snapshot row = snap"
      "sy_created row = sr_created res" "sy_revised row = sr_revised res"
      "sy_unchanged row = sr_unchanged res" "sy_missing row = sr_missing res"
      "sy_issues row = sr_issues res"
proof (cases "find (\<lambda>y. sy_key y = key) (db_syncs db)")
  case (Some y)
  then have "y \<in> set (db_syncs db)" "sy_key y = key" by (auto dest: find_Some_mem)
  then show ?thesis
    using assms Some by (intro replay [of y]) (auto simp: sync_obsidian_locked_def split: if_splits)
next
  case None
  then have key: "key \<notin> set (map sy_key (db_syncs db))" by (auto simp: find_None_iff_all)
  have ev: "ev \<notin> set (map sy_event (db_syncs db))"
    using assms None by (auto simp: sync_obsidian_locked_def split: if_splits)
  let ?acc0 = "\<lparr> ac_db = db, ac_draws = n, ac_done = [], ac_created = 0, ac_revised = 0,
    ac_unchanged = 0 \<rparr>"
  obtain acc where acc: "sync_notes rand (note_path ` set notes) k notes ?acc0 = Inr acc"
    using assms None ev
    by (cases "sync_notes rand (note_path ` set notes) k notes ?acc0")
      (auto simp: sync_obsidian_locked_def split: if_splits)
  obtain db1 missing where "fold (mark_missing (note_path ` set notes))
      (filter (\<lambda>b. bd_source b = k) (db_bindings (ac_db acc))) (ac_db acc, 0) = (db1, missing)"
    by (cases "fold (mark_missing (note_path ` set notes))
      (filter (\<lambda>b. bd_source b = k) (db_bindings (ac_db acc))) (ac_db acc, 0)")
  note fold = this
  have ok: "is_idempotency_key key" using assms by (auto simp: sync_obsidian_locked_def split: if_splits)
  show ?thesis
    by (rule fresh [OF key ev acc fold, of "last (db_syncs db')"])
      (use assms None ev acc fold ok in \<open>auto simp: sync_obsidian_locked_def Let_def split: if_splits\<close>)
qed

lemma append_sync_ok:
  assumes "memory_ok db" and "sy_key row \<notin> set (map sy_key (db_syncs db))"
    and "sy_event row \<notin> set (map sy_event (db_syncs db))"
  shows "memory_ok (db\<lparr>db_syncs := db_syncs db @ [row]\<rparr>)"
  using assms by (simp add: memory_ok_def records_ok_def reviews_ok_def bindings_ok_def syncs_ok_def
      history_def)

lemma sync_obsidian_ok:
  assumes "memory_ok db"
    and "sync_obsidian rand (db, n) k notes ev key snap issues = (res, db', n')"
  shows "memory_ok db' \<and> db_reviews db' = db_reviews db"
proof (cases "sync_obsidian_locked rand (db, n) k notes ev key snap issues")
  case (Inl e)
  with assms show ?thesis by (simp add: sync_obsidian_def)
next
  case (Inr p)
  then obtain r where "sync_obsidian_locked rand (db, n) k notes ev key snap issues = Inr (r, db', n')"
    using assms(2) by (cases p) (auto simp: sync_obsidian_def)
  then show ?thesis
  proof (cases rule: sync_locked_cases)
    case (fresh acc db1 missing row)
    from sync_notes_ok [OF _ fresh(3)] assms(1) have
      a: "memory_ok (ac_db acc)" "db_reviews (ac_db acc) = db_reviews db" "db_syncs (ac_db acc) = db_syncs db"
      by auto
    have d: "distinct (map bd_record (filter (\<lambda>b. bd_source b = k) (db_bindings (ac_db acc))))"
      using a(1) by (simp add: memory_ok_def bindings_ok_def distinct_map_filterI)
    have m: "memory_ok db1" "db_reviews db1 = db_reviews db" "db_syncs db1 = db_syncs db"
      using mark_all [OF a(1) _ d fresh(4)] a by auto
    then show ?thesis
      unfolding fresh(7) using append_sync_ok [OF m(1), of row] fresh(1,2,5,6) by simp
  qed (use assms in simp)
qed

lemma sync_mirrors:
  assumes "memory_ok db" and "distinct (map note_path notes)"
    and "key \<notin> set (map sy_key (db_syncs db))"
    and "sync_obsidian rand (db, n) k notes ev key snap issues = (Inr res, db', n')"
  shows "(\<forall>x\<in>set notes. mirrored db' k x) \<and>
    (\<forall>b\<in>set (db_bindings db'). bd_source b = k \<and> bd_locator b \<notin> note_path ` set notes \<longrightarrow>
       (\<exists>r. map_of (db_records db') (bd_record b) = Some r \<and>
            mem_source_status r = Some ''missing'')) \<and>
    sr_created res + sr_revised res + sr_unchanged res = length notes"
proof -
  from assms(4) have "sync_obsidian_locked rand (db, n) k notes ev key snap issues = Inr (res, db', n')"
    by (auto simp: sync_obsidian_def split: sum.splits prod.splits)
  then show ?thesis
  proof (cases rule: sync_locked_cases)
    case (replay y)
    then show ?thesis using assms(3) by auto
  next
    case (fresh acc db1 missing row)
    note a = sync_notes_step [OF _ fresh(3) order_refl assms(2)]
    have a1: "memory_ok (ac_db acc)" "\<forall>x\<in>set notes. mirrored (ac_db acc) k x"
      "ac_created acc + ac_revised acc + ac_unchanged acc = length notes"
      using a assms(1) by auto
    let ?bs = "filter (\<lambda>b. bd_source b = k) (db_bindings (ac_db acc))"
    let ?cur = "note_path ` set notes"
    have inj: "inj_on bd_record (set (db_bindings (ac_db acc)))"
      using a1(1) by (simp add: memory_ok_def bindings_ok_def distinct_map)
    have d: "distinct (map bd_record ?bs)"
      using a1(1) by (simp add: memory_ok_def bindings_ok_def distinct_map_filterI)
    note m = mark_all [OF a1(1) _ d fresh(4)]
    have m1: "db_bindings db1 = db_bindings (ac_db acc)"
      "\<And>j. j \<notin> bd_record ` {b \<in> set ?bs. bd_locator b \<notin> ?cur} \<Longrightarrow>
         map_of (db_records db1) j = map_of (db_records (ac_db acc)) j"
      "\<And>b. b \<in> set ?bs \<Longrightarrow> bd_locator b \<notin> ?cur \<Longrightarrow>
         \<exists>r. map_of (db_records db1) (bd_record b) = Some r \<and> mem_source_status r = Some ''missing''"
      using m by auto
    have "mirrored db' k x" if x: "x \<in> set notes" for x
    proof -
      from a1(2) x obtain i where i: "\<lparr> bd_source = k, bd_locator = note_path x,
          bd_hash = note_hash x, bd_record = i \<rparr> \<in> set (db_bindings (ac_db acc))"
        "map_of (db_records (ac_db acc)) i = Some (curated_record k x i)"
        by (auto simp: mirrored_def)
      have "i \<notin> bd_record ` {b \<in> set ?bs. bd_locator b \<notin> ?cur}"
      proof
        assume "i \<in> bd_record ` {b \<in> set ?bs. bd_locator b \<notin> ?cur}"
        then obtain b where b: "b \<in> set (db_bindings (ac_db acc))" "bd_locator b \<notin> ?cur"
          "bd_record b = i" by auto
        then have "b = \<lparr> bd_source = k, bd_locator = note_path x,
          bd_hash = note_hash x, bd_record = i \<rparr>" by (intro inj_onD [OF inj _ b(1) i(1)]) simp
        with b(2) x show False by simp
      qed
      then show ?thesis unfolding mirrored_def fresh(7) using i m1(1,2) by auto
    qed
    then show ?thesis using fresh(7-10) a1(3) m1(1,3) by auto
  qed
qed

section \<open>Everything reachable\<close>

text \<open>
  One transaction of the repository, whatever its outcome; the state is the database and the
  number of random draws.
\<close>

inductive memory_step :: "(nat \<Rightarrow> string) \<Rightarrow> memory_db \<times> nat \<Rightarrow> memory_db \<times> nat \<Rightarrow> bool"
  for rand where
  create: "create_native rand s q = (res, s') \<Longrightarrow> memory_step rand s s'"
| review: "review_memory db i decision ev key rep = (res, db') \<Longrightarrow>
    memory_step rand (db, n) (db', n)"
| sync: "sync_obsidian rand s k ns ev key snap issues = (res, s') \<Longrightarrow> memory_step rand s s'"

inductive memory_reachable :: "(nat \<Rightarrow> string) \<Rightarrow> memory_db \<times> nat \<Rightarrow> bool" for rand where
  start: "memory_reachable rand (empty_memory_db, 0)"
| step: "memory_reachable rand s \<Longrightarrow> memory_step rand s s' \<Longrightarrow> memory_reachable rand s'"

inductive_cases memory_stepE: "memory_step rand s s'"

lemma memory_step_ok: "memory_step rand s s' \<Longrightarrow> memory_ok (fst s) \<Longrightarrow> memory_ok (fst s')"
proof (induction rule: memory_step.induct)
  case (create s q res s')
  then show ?case by (cases s; cases s') (auto dest: create_native_ok)
next
  case (review db i decision ev key rep res db' n)
  then show ?case by (auto dest: review_memory_ok)
next
  case (sync s k ns ev key snap issues res s')
  then show ?case by (cases s; cases s') (auto dest: sync_obsidian_ok)
qed

lemma memory_reachable_ok: "memory_reachable rand s \<Longrightarrow> memory_ok (fst s)"
  by (induction rule: memory_reachable.induct) (auto intro: memory_step_ok)

text \<open>Only a review changes the reviews, and reviews are only appended.\<close>

lemma memory_step_reviews:
  "memory_step rand s s' \<Longrightarrow> memory_ok (fst s) \<Longrightarrow>
   \<exists>new. db_reviews (fst s') = db_reviews (fst s) @ new \<and> length new \<le> 1"
proof (induction rule: memory_step.induct)
  case (create s q res s')
  then show ?case
    by (cases s; cases s')
      (auto simp: create_native_def insert_explicit_record_def Let_def
        split: option.splits if_splits prod.splits)
next
  case (review db i decision ev key rep res db' n)
  from review(1) show ?case
  proof (cases rule: review_memory_cases)
    case (accepted m)
    from accepted(4) show ?thesis by (cases rule: review_locked_cases) auto
  qed simp
next
  case (sync s k ns ev key snap issues res s')
  then show ?case using sync_obsidian_ok by (cases s; cases s') fastforce
qed

end
