(* ===== verification/Memory_Governance.thy ===== *)
theory Memory_Governance
  imports Memory_Sync Samples
begin

text \<open>
  The governance of product memory: the interface retrieval and the MCP server read memory
  through, its implementation by the repository, and the properties of every reachable
  database.  An approval is bound to the exact content it was given for.
\<close>

section \<open>The interface of a governed memory\<close>

locale memory_source =
  fixes listing :: "'db \<Rightarrow> memory list"
    and lookup :: "'db \<Rightarrow> string \<Rightarrow> memory option"
    and decided :: "'db \<Rightarrow> string \<Rightarrow> string \<Rightarrow> authority list"
    and invar :: "'db \<Rightarrow> bool"
  assumes listing_distinct: "invar db \<Longrightarrow> distinct (map mem_id (listing db))"
    and listing_lookup: "invar db \<Longrightarrow> m \<in> set (listing db) \<longleftrightarrow> lookup db (mem_id m) = Some m"
    and lookup_id: "invar db \<Longrightarrow> lookup db i = Some m \<Longrightarrow> mem_id m = i"
    and lookup_valid: "invar db \<Longrightarrow> lookup db i = Some m \<Longrightarrow> valid_memory m"
    and lookup_decided: "invar db \<Longrightarrow> lookup db i = Some m \<Longrightarrow>
      legal_history (decided db i (mem_content_hash m)) \<and>
      (case decided db i (mem_content_hash m) of
         [] \<Rightarrow> initial_state (mem_state m) | ds \<Rightarrow> mem_state m = last ds)"
begin

text \<open>What the state of a record says about the reviews of exactly its content.\<close>

lemma state_iff_decided:
  assumes "invar db" and "lookup db i = Some m"
  shows "mem_state m = Approved \<longleftrightarrow> decided db i (mem_content_hash m) = [Approved]"
    "mem_state m = Rejected \<longleftrightarrow> decided db i (mem_content_hash m) = [Rejected]"
    "mem_state m = Superseded \<longleftrightarrow> decided db i (mem_content_hash m) = [Approved, Superseded]"
    "mem_state m \<noteq> Contradicted" "mem_state m \<noteq> Retracted"
  using lookup_decided [OF assms] by (auto simp: legal_history_def initial_state_def)

lemma approved_members:
  assumes "invar db"
  shows "set (filter (\<lambda>m. mem_state m = Approved) (listing db)) =
    {m. lookup db (mem_id m) = Some m \<and> decided db (mem_id m) (mem_content_hash m) = [Approved]}"
  using listing_lookup [OF assms] state_iff_decided(1) [OF assms] by auto

lemma listing_valid: "invar db \<Longrightarrow> m \<in> set (listing db) \<Longrightarrow> valid_memory m"
  using listing_lookup lookup_valid by blast

end

section \<open>The repository provides it\<close>

lemma valid_memory_with_state [simp]: "valid_memory (with_review_state db i r) = valid_memory r"
  by (simp add: with_review_state_def valid_memory_def split: option.splits)

lemma list_memory_lookup:
  assumes "memory_ok db"
  shows "m \<in> set (list_memory db) \<longleftrightarrow> get_memory db (mem_id m) = Some m"
proof -
  have d: "distinct (map fst (db_records db))"
    and k: "\<And>i r. (i, r) \<in> set (db_records db) \<Longrightarrow> mem_id r = i"
    using assms by (auto simp: memory_ok_def records_ok_def)
  show ?thesis
  proof
    assume "m \<in> set (list_memory db)"
    then obtain i r where "(i, r) \<in> set (db_records db)" "m = with_review_state db i r"
      by (auto simp: list_memory_def)
    then show "get_memory db (mem_id m) = Some m"
      using k [of i r] map_of_is_SomeI [OF d] by (simp add: get_memory_def)
  next
    assume "get_memory db (mem_id m) = Some m"
    then obtain r where "map_of (db_records db) (mem_id m) = Some r"
      "m = with_review_state db (mem_id m) r"
      by (auto simp: get_memory_def split: option.splits)
    then show "m \<in> set (list_memory db)"
      by (auto simp: list_memory_def dest!: map_of_SomeD intro!: rev_image_eqI)
  qed
qed

lemma list_memory_ids: "memory_ok db \<Longrightarrow> map mem_id (list_memory db) = map fst (db_records db)"
  by (auto simp: list_memory_def memory_ok_def records_ok_def)

interpretation repository: memory_source list_memory get_memory history memory_ok
proof unfold_locales
  fix db :: memory_db
  assume ok: "memory_ok db"
  then show "distinct (map mem_id (list_memory db))"
    unfolding list_memory_ids [OF ok] by (simp add: memory_ok_def records_ok_def)
  show "m \<in> set (list_memory db) \<longleftrightarrow> get_memory db (mem_id m) = Some m" for m
    by (rule list_memory_lookup [OF ok])
  fix i m
  assume g: "get_memory db i = Some m"
  from get_memory_state [OF ok g] obtain r where r: "map_of (db_records db) i = Some r"
    "m = with_review_state db i r" "mem_id m = i" "initial_state (mem_state r)"
    "legal_history (history db i (mem_content_hash m))"
    "mem_state m = (case history db i (mem_content_hash m) of [] \<Rightarrow> mem_state r | ds \<Rightarrow> last ds)"
    by metis
  show "mem_id m = i" by fact
  show "valid_memory m" using records_okD(2) [OF _ r(1)] ok r(2) by (simp add: memory_ok_def)
  show "legal_history (history db i (mem_content_hash m)) \<and>
      (case history db i (mem_content_hash m) of
         [] \<Rightarrow> initial_state (mem_state m) | ds \<Rightarrow> mem_state m = last ds)"
    using r(4-6) by (cases "history db i (mem_content_hash m)") auto
qed

section \<open>Properties\<close>

text \<open>
  C11: every database reachable by creating, reviewing and synchronizing, in any order and
  with any random draws, is well formed: unique identities, valid records that are among
  their revisions, legal review histories of existing revisions, and bindings that are
  one-to-one between source locations and records.
\<close>

theorem memory_always_ok: "memory_reachable rand s \<Longrightarrow> memory_ok (fst s)"
  by (rule memory_reachable_ok)

text \<open>
  C2: an approval is bound to exact content: in every reachable database a record reads as
  approved exactly when the reviews of its current content hash are one approval, as
  superseded exactly after an approval and a supersession of that content, and never as
  contradicted or retracted.
\<close>

theorem approval_bound_to_content:
  assumes "memory_reachable rand (db, n)" and "get_memory db i = Some m"
  shows "(mem_state m = Approved \<longleftrightarrow> history db i (mem_content_hash m) = [Approved]) \<and>
    (mem_state m = Rejected \<longleftrightarrow> history db i (mem_content_hash m) = [Rejected]) \<and>
    (mem_state m = Superseded \<longleftrightarrow> history db i (mem_content_hash m) = [Approved, Superseded]) \<and>
    mem_state m \<noteq> Contradicted \<and> mem_state m \<noteq> Retracted"
proof -
  have "memory_ok db" using memory_reachable_ok [OF assms(1)] by simp
  from repository.state_iff_decided [OF this assms(2)] show ?thesis by blast
qed

text \<open>
  C25: an accepted review is either the replay of a recorded one, which changes nothing, or
  makes one transition of the authority state machine on the reviewed record and on nothing
  else; a supersession names another record that is approved, before and after.
\<close>

theorem review_follows_state_machine:
  assumes "memory_ok db" and "review_memory db i decision ev key rep = (Inr m, db')"
  shows "(db' = db \<and> get_memory db i = Some m \<and> key \<in> set (map rv_key (db_reviews db))) \<or>
    (\<exists>old. get_memory db i = Some old \<and> authority_step (mem_state old) decision \<and>
       m = old\<lparr>mem_state := decision\<rparr> \<and> get_memory db' i = Some m \<and>
       (\<forall>j. j \<noteq> i \<longrightarrow> get_memory db' j = get_memory db j) \<and>
       (decision = Superseded \<longrightarrow> (\<exists>j r. rep = Some j \<and> j \<noteq> i \<and>
          get_memory db' j = Some r \<and> mem_state r = Approved)))"
  using assms(2)
proof (cases rule: review_memory_cases)
  case (accepted m')
  then have lock: "review_locked db i decision ev key rep = Inr (m, db')" by simp
  then show ?thesis
  proof (cases rule: review_locked_cases)
    case (replay row)
    then have "key \<in> set (map rv_key (db_reviews db))"
      by (metis (no_types) image_eqI list.set_map review_row.select_convs(2))
    with replay(1,2) show ?thesis by simp
  next
    case (fresh old)
    have admits: "decision \<in> {Approved, Rejected} \<longrightarrow> initial_state (mem_state old)"
      "decision \<notin> {Approved, Rejected} \<longrightarrow> mem_state old = Approved"
      using fresh(6) by simp (use fresh(7) in simp)
    note args = assms(1) fresh(1) accepted(2) admits refl fresh(4,5)
    have step: "authority_step (mem_state old) decision"
      "get_memory db' i = Some (old\<lparr>mem_state := decision\<rparr>)"
      "\<And>j. j \<noteq> i \<Longrightarrow> get_memory db' j = get_memory db j"
      unfolding fresh(2) by (rule fresh_review(2,3,4) [OF args]; assumption?)+
    have "\<exists>j r. rep = Some j \<and> j \<noteq> i \<and> get_memory db' j = Some r \<and> mem_state r = Approved"
      if "decision = Superseded"
    proof -
      from fresh(7) that obtain j r where j: "rep = Some j" "get_memory db j = Some r"
        "mem_id r \<noteq> i" "mem_state r = Approved" by auto
      then have "j \<noteq> i" using repository.lookup_id [OF assms(1) j(2)] by simp
      with j step(3) show ?thesis by auto
    qed
    moreover have "m = old\<lparr>mem_state := decision\<rparr>" using fresh(3) step(2) by simp
    ultimately show ?thesis using fresh(1) step by (intro disjI2 exI [of _ old]) simp
  qed
qed simp

text \<open>
  Synchronizing a source never grants authority: a record that reads as approved
  afterwards had an approval of exactly its content before, and no review is added.
\<close>

theorem sync_never_approves:
  assumes "memory_ok db"
    and "sync_obsidian rand (db, n) k notes ev key snap issues = (res, db', n')"
    and "get_memory db' i = Some m" and "mem_state m = Approved"
  shows "history db i (mem_content_hash m) = [Approved] \<and> db_reviews db' = db_reviews db"
proof -
  note ok = sync_obsidian_ok [OF assms(1,2)]
  then have "history db' i (mem_content_hash m) = [Approved]"
    using repository.state_iff_decided(1) [OF _ assms(3)] assms(4) by blast
  then show ?thesis using ok history_reviews [of db' db] by simp
qed

text \<open>
  A completed synchronization mirrors the source: every note is bound to a curated
  record with its current content, the record of every binding whose note is gone reads as
  missing, and every note is counted once as created, revised or unchanged.
\<close>

theorem sync_mirrors_source:
  assumes "memory_ok db" and "distinct (map note_path ns)"
    and "key \<notin> set (map sy_key (db_syncs db))"
    and "sync_obsidian rand (db, n) k ns ev key snap issues = (Inr res, db', n')"
  shows "(\<forall>x\<in>set ns. \<exists>i. \<lparr> bd_source = k, bd_locator = note_path x, bd_hash = note_hash x,
         bd_record = i \<rparr> \<in> set (db_bindings db') \<and>
         map_of (db_records db') i = Some (curated_record k x i)) \<and>
    (\<forall>b\<in>set (db_bindings db'). bd_source b = k \<and> bd_locator b \<notin> note_path ` set ns \<longrightarrow>
       (\<exists>r. map_of (db_records db') (bd_record b) = Some r \<and>
            mem_source_status r = Some ''missing'')) \<and>
    sr_created res + sr_revised res + sr_unchanged res = length ns"
  using sync_mirrors [OF assms] by (simp add: mirrored_def)

section \<open>Replays\<close>

lemma find_snoc_last: "\<not> (\<exists>x\<in>set xs. P x) \<Longrightarrow> P x \<Longrightarrow> find P (xs @ [x]) = Some x"
  by (simp add: find_append find_None_iff_all [THEN iffD2])

text \<open>
  A review repeated with its key and its arguments returns the same record and changes
  nothing.
\<close>

theorem review_replays:
  assumes "memory_ok db" and "review_memory db i decision ev key rep = (Inr m, db')"
  shows "review_memory db' i decision ev key rep = (Inr m, db')"
  using assms(2)
proof (cases rule: review_memory_cases)
  case (accepted m')
  then have lock: "review_locked db i decision ev key rep = Inr (m, db')" by simp
  then have "\<exists>row\<in>set (db_reviews db'). row = \<lparr> rv_event = ev, rv_key = key, rv_record = i,
      rv_hash = mem_content_hash m, rv_decision = decision, rv_replacement = rep \<rparr> \<and>
      get_memory db' i = Some m"
  proof (cases rule: review_locked_cases)
    case (fresh old)
    have admits: "decision \<in> {Approved, Rejected} \<longrightarrow> initial_state (mem_state old)"
      "decision \<notin> {Approved, Rejected} \<longrightarrow> mem_state old = Approved"
      using fresh(6) by simp (use fresh(7) in simp)
    have "get_memory db' i = Some (old\<lparr>mem_state := decision\<rparr>)"
      unfolding fresh(2)
      by (rule fresh_review(3) [OF assms(1) fresh(1) accepted(2) admits refl fresh(4,5)])
    then have "m = old\<lparr>mem_state := decision\<rparr>" using fresh(3) by simp
    then have "mem_content_hash m = mem_content_hash old" by simp
    then show ?thesis using fresh(2,3) by simp
  qed auto
  then obtain row where row: "row \<in> set (db_reviews db')" "row = \<lparr> rv_event = ev, rv_key = key,
      rv_record = i, rv_hash = mem_content_hash m, rv_decision = decision,
      rv_replacement = rep \<rparr>" "get_memory db' i = Some m" by blast
  have "distinct (map rv_key (db_reviews db'))"
    using review_memory_ok [OF assms] by (simp add: memory_ok_def reviews_ok_def)
  then have "find (\<lambda>v. rv_key v = key) (db_reviews db') = Some row"
    by (rule find_unique [OF _ row(1)]) (simp add: row(2))
  then have "review_locked db' i decision ev key rep = Inr (m, db')"
    using row by (simp add: review_locked_def)
  then show ?thesis using accepted(2,3) by (simp add: review_memory_def)
qed simp

text \<open>
  A synchronization repeated with its key and its arguments changes nothing, not even
  the number of random draws, and reports the stored counts.
\<close>

theorem sync_replays:
  assumes "memory_ok db"
    and "sync_obsidian rand (db, n) k ns ev key snap issues = (Inr res, db', n')"
  shows "\<exists>res'. sync_obsidian rand (db', n') k ns' ev key snap issues' = (Inr res', db', n') \<and>
    (sr_created res', sr_revised res', sr_unchanged res', sr_missing res', sr_issues res') =
    (sr_created res, sr_revised res, sr_unchanged res, sr_missing res, sr_issues res)"
proof -
  from assms(2) have lock: "sync_obsidian_locked rand (db, n) k ns ev key snap issues = Inr (res, db', n')"
    by (auto simp: sync_obsidian_def split: sum.splits prod.splits)
  then have key: "is_idempotency_key key"
    by (auto simp: sync_obsidian_locked_def split: if_splits)
  from lock have "\<exists>y\<in>set (db_syncs db'). sy_key y = key \<and> sy_event y = ev \<and> sy_source y = k \<and>
      sy_snapshot y = snap \<and> (sy_created y, sy_revised y, sy_unchanged y, sy_missing y, sy_issues y) =
      (sr_created res, sr_revised res, sr_unchanged res, sr_missing res, sr_issues res)"
  proof (cases rule: sync_locked_cases)
    case (replay y)
    then show ?thesis by (intro bexI [of _ y]) simp_all
  next
    case (fresh acc db1 missing row)
    then show ?thesis by (intro bexI [of _ row]) simp_all
  qed
  then obtain y where y: "y \<in> set (db_syncs db')" "sy_key y = key" "sy_event y = ev"
    "sy_source y = k" "sy_snapshot y = snap"
    "(sy_created y, sy_revised y, sy_unchanged y, sy_missing y, sy_issues y) =
      (sr_created res, sr_revised res, sr_unchanged res, sr_missing res, sr_issues res)" by blast
  have "distinct (map sy_key (db_syncs db'))"
    using sync_obsidian_ok [OF assms] by (simp add: memory_ok_def syncs_ok_def)
  then have "find (\<lambda>v. sy_key v = key) (db_syncs db') = Some y"
    by (rule find_unique [where f = sy_key, OF _ y(1,2)])
  then show ?thesis using y(3-6) key by (simp add: sync_obsidian_def sync_obsidian_locked_def)
qed

section \<open>A revision that reads as missing after its source is back\<close>

definition sample_note :: indexed_note where
  "sample_note = \<lparr> note_id = sample_id ''doc'' (CHR ''1''), note_path = ''a.md'',
     note_title = ''A'', note_content = ''text'', note_type = ''note'', note_status = None,
     note_category = Note, note_domains = [General], note_topics = [], note_wikilinks = [],
     note_basis = [], note_hash = sample_digest \<rparr>"

definition sample_request :: native_request where
  "sample_request = \<lparr> nr_id = Some (sample_id ''mem'' (CHR ''1'')), nr_title = ''A'',
     nr_content = ''text'', nr_category = Note, nr_domains = [General], nr_topics = [],
     nr_hash = sample_digest, nr_nodes = [], nr_source_refs = [], nr_created_by = None,
     nr_request = None, nr_target = None, nr_expected_hash = None, nr_reason = None \<rparr>"

lemma sample_note_valid [simp]: "tagged_id ''mem'' i \<Longrightarrow> valid_memory (curated_record k sample_note i)"
  by (simp add: valid_memory_def curated_record_def sample_note_def)

lemma sample_request_valid [simp]:
  "valid_memory (native_record sample_request (sample_id ''mem'' (CHR ''1'')))"
  by (simp add: valid_memory_def native_record_def sample_request_def crockford_def)

lemma last_match_two:
  "last_match P [a, b] = (if P b then Some b else if P a then Some a else None)"
  using last_match_snoc [of P "[a]" b] last_match_snoc [of P "[]" a] by simp

lemma last_match_one: "last_match P [a] = (if P a then Some a else None)"
  using last_match_snoc [of P "[]" a] by simp

text \<open>A database of one bound record with the given revisions, and its next synchronizations.\<close>

definition one_record_db :: "string \<Rightarrow> indexed_note \<Rightarrow> string \<Rightarrow> memory \<Rightarrow> memory list \<Rightarrow> sync_row list \<Rightarrow> memory_db" where
  "one_record_db k x i r revisions rows = \<lparr> db_records = [(i, r)],
     db_revisions = map (\<lambda>m. (i, m)) revisions, db_reviews = [],
     db_bindings = [\<lparr> bd_source = k, bd_locator = note_path x, bd_hash = note_hash x,
       bd_record = i \<rparr>], db_syncs = rows \<rparr>"

lemma one_record_simps [simp]:
  "db_records (one_record_db k x i r revs rows) = [(i, r)]"
  "db_revisions (one_record_db k x i r revs rows) = map (\<lambda>m. (i, m)) revs"
  "db_reviews (one_record_db k x i r revs rows) = []"
  "db_bindings (one_record_db k x i r revs rows) = [\<lparr> bd_source = k, bd_locator = note_path x,
     bd_hash = note_hash x, bd_record = i \<rparr>]"
  "db_syncs (one_record_db k x i r revs rows) = rows"
  by (simp_all add: one_record_db_def)

lemma one_record_write:
  "mem_id r' = i \<Longrightarrow> write_record (one_record_db k x i r revs rows) r' =
     one_record_db k x i r' (if r' \<in> set revs then revs else revs @ [r']) rows"
  by (auto simp: write_record_def one_record_db_def insert_revision_def)

lemma one_record_updates [simp]:
  "(one_record_db k x i r revs rows)\<lparr>db_syncs := rows'\<rparr> = one_record_db k x i r revs rows'"
  "(one_record_db k x i r revs rows)\<lparr>db_bindings := [\<lparr> bd_source = k, bd_locator = note_path x,
     bd_hash = note_hash x, bd_record = i \<rparr>]\<rparr> = one_record_db k x i r revs rows"
  by (simp_all add: one_record_db_def)

lemma fresh_sync_row:
  "k2 \<notin> sy_key ` set rows \<Longrightarrow> find (\<lambda>y. sy_key y = k2) rows = None"
  by (auto simp: find_None_iff_all)

lemma sync_first:
  assumes "valid_memory (curated_record k x (new_record_id (rand 0)))" and "is_idempotency_key key"
  shows "\<exists>res rows. sync_obsidian rand (empty_memory_db, 0) k [x] ev key snap 0 =
      (Inr res, one_record_db k x (new_record_id (rand 0)) (curated_record k x (new_record_id (rand 0)))
        [curated_record k x (new_record_id (rand 0))] rows, 1) \<and>
    map sy_key rows = [key] \<and> map sy_event rows = [ev]"
  using assms
  by (auto simp: sync_obsidian_def sync_obsidian_locked_def sync_note_def Let_def one_record_db_def
      empty_memory_db_def resolve_note_def upsert_binding_def write_record_def
      insert_revision_def mark_missing_def)

lemma sync_absent:
  assumes "mem_id r = i" "mem_source_status r \<noteq> Some ''missing''" "is_idempotency_key key"
    and "key \<notin> sy_key ` set rows" "ev \<notin> sy_event ` set rows"
    and "r\<lparr>mem_source_status := Some ''missing''\<rparr> \<notin> set revs"
  shows "\<exists>res row. sync_obsidian rand (one_record_db k x i r revs rows, n) k [] ev key snap 0 =
      (Inr res, one_record_db k x i (r\<lparr>mem_source_status := Some ''missing''\<rparr>)
        (revs @ [r\<lparr>mem_source_status := Some ''missing''\<rparr>]) (rows @ [row]), n) \<and>
     sy_key row = key \<and> sy_event row = ev"
  using assms
  by (simp add: sync_obsidian_def sync_obsidian_locked_def Let_def fresh_sync_row one_record_write
      mark_missing_def)
    (rule exI, rule conjI, rule refl, simp)

lemma sync_present:
  assumes "valid_memory (curated_record k x i)" "is_idempotency_key key"
    and "key \<notin> sy_key ` set rows" "ev \<notin> sy_event ` set rows" "curated_record k x i \<in> set revs"
  shows "\<exists>res rows'. sync_obsidian rand (one_record_db k x i r revs rows, n) k [x] ev key snap 0 =
      (Inr res, one_record_db k x i (curated_record k x i) revs rows', n)"
  using assms
  by (simp add: sync_obsidian_def sync_obsidian_locked_def sync_note_def Let_def fresh_sync_row
      one_record_write mark_missing_def resolve_note_def upsert_binding_def) blast

text \<open>
  When a note is removed, its absence synchronized, and the same note restored and
  synchronized again, the record is current and available, but \<open>get_revision\<close> for its content
  hash returns the revision marked missing: the restored record repeats an earlier revision,
  so no new revision row is inserted and the newest row with that hash stays the missing one.
\<close>

theorem restored_note_revision_reads_missing:
  fixes x :: indexed_note and k :: string and rand :: "nat \<Rightarrow> string"
  defines "i \<equiv> new_record_id (rand 0)"
  assumes "valid_memory (curated_record k x i)" and "note_status x \<noteq> Some ''missing''"
    and "is_idempotency_key k1" "is_idempotency_key k2" "is_idempotency_key k3"
    and "distinct [k1, k2, k3]" and "distinct [e1, e2, e3]"
    and "s1 = snd (sync_obsidian rand (empty_memory_db, 0) k [x] e1 k1 h1 0)"
    and "s2 = snd (sync_obsidian rand s1 k [] e2 k2 h2 0)"
    and "s3 = snd (sync_obsidian rand s2 k [x] e3 k3 h3 0)"
  shows "get_memory (fst s3) i = Some (curated_record k x i) \<and>
    get_revision (fst s3) i (note_hash x) =
      Some ((curated_record k x i)\<lparr>mem_source_status := Some ''missing''\<rparr>)"
proof -
  let ?r = "curated_record k x i"
  let ?m = "?r\<lparr>mem_source_status := Some ''missing''\<rparr>"
  have status: "mem_source_status ?r = note_status x" by (simp add: curated_record_def)
  then have ne: "?m \<noteq> ?r"
    using assms(3) by (metis memory.select_convs(8) memory.surjective memory.update_convs(8))
  obtain rows where s1: "s1 = (one_record_db k x i ?r [?r] rows, 1)" "map sy_key rows = [k1]"
    "map sy_event rows = [e1]"
    using sync_first [of k x rand k1 e1 h1] assms(2,4,9) by (auto simp: i_def)
  then have rows: "sy_key ` set rows = {k1}" "sy_event ` set rows = {e1}"
    by (metis list.set_map list.simps(15) set_empty empty_set)+
  obtain row where s2: "s2 = (one_record_db k x i ?m [?r, ?m] (rows @ [row]), 1)"
    "sy_key row = k2" "sy_event row = e2"
    using sync_absent [of ?r i k2 rows e2 "[?r]" rand k x 1 h2] assms(3,5,7,8,10) s1(1) rows ne status
    by auto
  obtain rows' where s3: "s3 = (one_record_db k x i ?r [?r, ?m] rows', 1)"
    using sync_present [of k x i k3 "rows @ [row]" e3 "[?r, ?m]" rand ?m 1 h3] assms(2,6,7,8,11)
      s2 rows by auto
  show ?thesis
    using ne by (simp add: s3 get_memory_def get_revision_def with_review_state_def review_of_def
        last_match_two)
qed

section \<open>The properties on a concrete history\<close>

text \<open>A native record, created and approved, and a note synchronized into an empty database.\<close>

definition sample_mem :: memory where
  "sample_mem = native_record sample_request (sample_id ''mem'' (CHR ''1''))"

definition sample_approval :: review_row where
  "sample_approval = \<lparr> rv_event = sample_id ''evt'' (CHR ''1''), rv_key = ''k1'',
     rv_record = mem_id sample_mem, rv_hash = mem_content_hash sample_mem, rv_decision = Approved,
     rv_replacement = None \<rparr>"

definition created_db :: memory_db where
  "created_db = empty_memory_db\<lparr>db_records := [(mem_id sample_mem, sample_mem)],
     db_revisions := [(mem_id sample_mem, sample_mem)]\<rparr>"

definition approved_db :: memory_db where
  "approved_db = created_db\<lparr>db_reviews := [sample_approval]\<rparr>"

lemma sample_create:
  "create_native rand (empty_memory_db, 0) sample_request = (Inr sample_mem, created_db, 0)"
  using sample_request_valid unfolding sample_mem_def created_db_def
  by (simp add: create_native_def sample_request_def [THEN arg_cong [where f = nr_id]]
      insert_explicit_record_def empty_memory_db_def Let_def)

lemma sample_created_get:
  "get_memory created_db (mem_id sample_mem) = Some sample_mem" "mem_state sample_mem = Candidate"
  by (simp_all add: get_memory_def created_db_def empty_memory_db_def with_review_state_def
      review_of_def sample_mem_def)

lemma sample_approved_get:
  "get_memory approved_db (mem_id sample_mem) = Some (sample_mem\<lparr>mem_state := Approved\<rparr>)"
  by (simp add: get_memory_def approved_db_def created_db_def empty_memory_db_def
      with_review_state_def review_of_def last_match_one sample_approval_def)

lemma sample_review:
  "review_memory created_db (mem_id sample_mem) Approved (sample_id ''evt'' (CHR ''1'')) ''k1'' None =
     (Inr (sample_mem\<lparr>mem_state := Approved\<rparr>), approved_db)"
proof -
  have db: "created_db\<lparr>db_reviews := db_reviews created_db @ [sample_approval]\<rparr> = approved_db"
    by (simp add: approved_db_def created_db_def empty_memory_db_def)
  have "review_locked created_db (mem_id sample_mem) Approved (sample_id ''evt'' (CHR ''1'')) ''k1'' None =
     Inr (sample_mem\<lparr>mem_state := Approved\<rparr>, approved_db)"
    using sample_created_get sample_approved_get db
    by (simp add: review_locked_def Let_def sample_approval_def)
      (simp add: created_db_def empty_memory_db_def)
  then show ?thesis by (simp add: review_memory_def)
qed

lemma created_reachable: "memory_reachable rand (created_db, 0)"
  by (rule memory_reachable.step [OF memory_reachable.start memory_step.create [OF sample_create]])

lemma approved_reachable: "memory_reachable rand (approved_db, 0)"
  by (rule memory_reachable.step [OF created_reachable memory_step.review [OF sample_review]])

lemma created_ok: "memory_ok created_db" and approved_ok: "memory_ok approved_db"
  using memory_reachable_ok [OF created_reachable] memory_reachable_ok [OF approved_reachable]
  by simp_all

lemma approved_sync:
  "\<exists>res. sync_obsidian rand (approved_db, 0) ''vault'' [] (sample_id ''evt'' (CHR ''2'')) ''k2''
      sample_digest 0 = (Inr res, approved_db\<lparr>db_syncs := [\<lparr> sy_event = sample_id ''evt'' (CHR ''2''),
        sy_key = ''k2'', sy_source = ''vault'', sy_snapshot = sample_digest, sy_created = 0,
        sy_revised = 0, sy_unchanged = 0, sy_missing = 0, sy_issues = 0 \<rparr>]\<rparr>, 0)"
  by (simp add: sync_obsidian_def sync_obsidian_locked_def approved_db_def created_db_def
      empty_memory_db_def Let_def)

definition approved_mem :: memory where
  "approved_mem = sample_mem\<lparr>mem_state := Approved\<rparr>"

lemma approved_mem_valid [simp]: "valid_memory approved_mem"
  using sample_request_valid by (simp add: approved_mem_def sample_mem_def valid_memory_def)

lemma approved_list: "list_memory approved_db = [approved_mem]"
  by (simp add: list_memory_def approved_db_def created_db_def empty_memory_db_def approved_mem_def
      with_review_state_def review_of_def last_match_one sample_approval_def)

theorem memory_always_ok_witness: "memory_ok approved_db"
  using memory_always_ok [OF approved_reachable] by simp

theorem approval_bound_to_content_witness:
  "history approved_db (mem_id sample_mem) (mem_content_hash sample_mem) = [Approved]"
  using approval_bound_to_content [OF approved_reachable sample_approved_get] by simp

theorem review_follows_state_machine_witness:
  "authority_step (mem_state sample_mem) Approved \<and>
   get_memory approved_db (mem_id sample_mem) = Some (sample_mem\<lparr>mem_state := Approved\<rparr>)"
  using review_follows_state_machine [OF created_ok sample_review] sample_created_get
  by (auto simp: created_db_def empty_memory_db_def)

theorem sync_never_approves_witness:
  "\<exists>db'. snd (sync_obsidian (\<lambda>_. []) (approved_db, 0) ''vault'' [] (sample_id ''evt'' (CHR ''2'')) ''k2''
      sample_digest 0) = (db', 0) \<and> db_reviews db' = [sample_approval]"
proof -
  obtain res db' where s: "sync_obsidian (\<lambda>_. []) (approved_db, 0) ''vault'' []
      (sample_id ''evt'' (CHR ''2'')) ''k2'' sample_digest 0 = (Inr res, db', 0)"
    "db' = approved_db\<lparr>db_syncs := db_syncs db'\<rparr>"
    using approved_sync [of "\<lambda>_. []"] by auto
  have "get_memory db' (mem_id sample_mem) = Some (sample_mem\<lparr>mem_state := Approved\<rparr>)"
    by (subst s(2)) (simp add: get_memory_def approved_db_def created_db_def empty_memory_db_def
      with_review_state_def review_of_def last_match_one sample_approval_def)
  from sync_never_approves [OF approved_ok s(1) this] s(1) show ?thesis
    by (simp add: approved_db_def)
qed

abbreviation sample_sync :: "(memory_error + sync_result) \<times> memory_db \<times> nat" where
  "sample_sync \<equiv> sync_obsidian (\<lambda>_. []) (empty_memory_db, 0) ''vault'' [sample_note]
     (sample_id ''evt'' (CHR ''1'')) ''k1'' sample_digest 0"

lemma sample_sync_result: "\<exists>res db'. sample_sync = (Inr res, db', 1)"
  using sync_first [OF sample_note_valid [OF new_record_id_tagged] sample_key(1)] by blast

theorem sync_mirrors_source_witness:
  "\<exists>i db'. snd sample_sync = (db', 1) \<and>
     map_of (db_records db') i = Some (curated_record ''vault'' sample_note i)"
proof -
  obtain res db' where s: "sample_sync = (Inr res, db', 1)" using sample_sync_result by blast
  from sync_mirrors_source [OF empty_memory_ok _ _ s] s show ?thesis
    by (fastforce simp: empty_memory_db_def)
qed

theorem review_replays_witness:
  "review_memory approved_db (mem_id sample_mem) Approved (sample_id ''evt'' (CHR ''1'')) ''k1'' None =
     (Inr (sample_mem\<lparr>mem_state := Approved\<rparr>), approved_db)"
  by (rule review_replays [OF created_ok sample_review])

theorem sync_replays_witness:
  "\<exists>res. sync_obsidian (\<lambda>_. []) (snd sample_sync) ''vault'' [] (sample_id ''evt'' (CHR ''1'')) ''k1''
     sample_digest 7 = (Inr res, snd sample_sync)"
proof -
  obtain res db' where s: "sample_sync = (Inr res, db', 1)" using sample_sync_result by blast
  from sync_replays [OF empty_memory_ok s] show ?thesis unfolding s by fastforce
qed

text \<open>Synchronizing the sample note, its absence, and the note again.\<close>

abbreviation sample_sync_gone :: "(memory_error + sync_result) \<times> memory_db \<times> nat" where
  "sample_sync_gone \<equiv> sync_obsidian (\<lambda>_. []) (snd sample_sync) ''vault'' []
     (sample_id ''evt'' (CHR ''2'')) ''k2'' [] 0"

abbreviation sample_sync_back :: "(memory_error + sync_result) \<times> memory_db \<times> nat" where
  "sample_sync_back \<equiv> sync_obsidian (\<lambda>_. []) (snd sample_sync_gone) ''vault'' [sample_note]
     (sample_id ''evt'' (CHR ''3'')) ''k3'' sample_digest 0"

theorem restored_note_revision_reads_missing_witness:
  "get_memory (fst (snd sample_sync_back)) (new_record_id []) =
     Some (curated_record ''vault'' sample_note (new_record_id [])) \<and>
   get_revision (fst (snd sample_sync_back)) (new_record_id []) sample_digest =
     Some ((curated_record ''vault'' sample_note (new_record_id []))
       \<lparr>mem_source_status := Some ''missing''\<rparr>)"
proof -
  have k3: "is_idempotency_key ''k3''" by code_simp
  have status: "note_status sample_note \<noteq> Some ''missing''" by (simp add: sample_note_def)
  have hash: "note_hash sample_note = sample_digest" by (simp add: sample_note_def)
  show ?thesis
    unfolding hash [symmetric]
    by (rule restored_note_revision_reads_missing [OF sample_note_valid [OF new_record_id_tagged]
      status sample_key k3 _ _ refl refl refl]) simp_all
qed

end
