(* ===== verification/Retrieval.thy ===== *)
theory Retrieval
  imports Memory_Governance "HOL-Library.Char_ord" "HOL-Library.List_Lexorder"
    "HOL-Library.Product_Lexorder" "HOL-Library.Multiset"
begin

text \<open>
  \<open>retrieval/service.py\<close>: lexical scoring and authority-first ranking of memory records.  The
  loop over the records is the fold of \<open>rank_step\<close>; \<open>rank_memory_records\<close> is the function
  of the code, and \<open>ranked_spec\<close> its declarative reading.
\<close>

section \<open>Terms and scores\<close>

definition stop_words :: "string list" where
  "stop_words = [''a'', ''an'', ''and'', ''apply'', ''applies'', ''are'', ''for'', ''is'', ''of'', ''or'',
     ''the'', ''to'', ''what'', ''which'']"

definition terms_of :: "string \<Rightarrow> string list" where
  "terms_of v =
     filter (\<lambda>t. t \<notin> set stop_words)
       (runs_of (\<lambda>c. c \<in> set (lower_chars @ digit_chars)) (casefold v))"

text \<open>\<open>len(q & s)\<close> for the frozen set \<open>q\<close>, a list without repetition here\<close>

definition overlap :: "string list \<Rightarrow> string list \<Rightarrow> nat" where
  "overlap q ts = length (filter (\<lambda>t. t \<in> set ts) q)"

definition lexical_score :: "memory \<Rightarrow> string list \<Rightarrow> nat" where
  "lexical_score r q =
     (if q = [] then 0
      else
        let title_terms = terms_of (mem_title r);
            topic_terms = concat (map terms_of (mem_topics r));
            classification_terms = terms_of (category_value (mem_category r)) @
              concat (map (\<lambda>d. terms_of (domain_value d)) (mem_domains r));
            content_terms = terms_of (mem_content r) in
        4 * overlap q title_terms + 3 * overlap q topic_terms +
        2 * overlap q classification_terms +
        min 8 (sum_list (map (\<lambda>t. count_list content_terms t) q)))"

section \<open>Ranking\<close>

record exclusion_summary =
  ex_not_approved :: nat
  ex_missing :: nat
  ex_superseded :: nat
  ex_conflict :: nat

record evidence =
  evi_record :: memory
  evi_rank :: nat
  evi_score :: nat

record retrieval =
  ret_ranked :: "evidence list"
  ret_unmatched :: "memory list"
  ret_excluded :: exclusion_summary

text \<open>The local variables of the loop.\<close>

record rank_acc =
  ra_scored :: "(nat \<times> memory) list"
  ra_unmatched :: "memory list"
  ra_excluded :: exclusion_summary

definition empty_rank_acc :: rank_acc where
  "empty_rank_acc = \<lparr> ra_scored = [], ra_unmatched = [],
     ra_excluded = \<lparr> ex_not_approved = 0, ex_missing = 0, ex_superseded = 0, ex_conflict = 0 \<rparr> \<rparr>"

definition rank_step :: "string list \<Rightarrow> memory \<Rightarrow> rank_acc \<Rightarrow> rank_acc" where
  "rank_step q r acc =
     (let ex = ra_excluded acc in
      if mem_state r = Superseded
      then acc\<lparr>ra_excluded := ex\<lparr>ex_superseded := ex_superseded ex + 1\<rparr>\<rparr>
      else if mem_state r = Contradicted
      then acc\<lparr>ra_excluded := ex\<lparr>ex_conflict := ex_conflict ex + 1\<rparr>\<rparr>
      else if mem_state r \<noteq> Approved
      then acc\<lparr>ra_excluded := ex\<lparr>ex_not_approved := ex_not_approved ex + 1\<rparr>\<rparr>
      else if mem_source_status r = Some ''missing''
      then acc\<lparr>ra_excluded := ex\<lparr>ex_missing := ex_missing ex + 1\<rparr>\<rparr>
      else
        let score = lexical_score r q in
        if score = 0 then acc\<lparr>ra_unmatched := ra_unmatched acc @ [r]\<rparr>
        else acc\<lparr>ra_scored := ra_scored acc @ [(score, r)]\<rparr>)"

text \<open>\<open>scored.sort(key=lambda item: (-item[0], item[1].id))\<close>\<close>

definition evidence_key :: "nat \<times> memory \<Rightarrow> int \<times> string" where
  "evidence_key x = (- int (fst x), mem_id (snd x))"

fun enumerate_evidence :: "nat \<Rightarrow> (nat \<times> memory) list \<Rightarrow> evidence list" where
  "enumerate_evidence rank [] = []"
| "enumerate_evidence rank ((score, r) # xs) =
     \<lparr> evi_record = r, evi_rank = rank, evi_score = score \<rparr> # enumerate_evidence (rank + 1) xs"

definition rank_memory_records :: "memory list \<Rightarrow> string \<Rightarrow> retrieval" where
  "rank_memory_records records query =
     (let q = remdups (terms_of query);
          acc = fold (rank_step q) records empty_rank_acc in
      \<lparr> ret_ranked = enumerate_evidence 1 (sort_key evidence_key (ra_scored acc)),
        ret_unmatched = sort_key mem_id (ra_unmatched acc),
        ret_excluded = ra_excluded acc \<rparr>)"

definition retrieve_memory_evidence :: "memory_db \<Rightarrow> string \<Rightarrow> retrieval" where
  "retrieve_memory_evidence db query = rank_memory_records (list_memory db) query"

definition retrieve_approved_memory :: "memory_db \<Rightarrow> memory list" where
  "retrieve_approved_memory db =
     filter (\<lambda>r. mem_state r = Approved \<and> mem_source_status r \<noteq> Some ''missing'') (list_memory db)"

section \<open>The loop, declaratively\<close>

definition eligible :: "memory \<Rightarrow> bool" where
  "eligible r \<longleftrightarrow> mem_state r = Approved \<and> mem_source_status r \<noteq> Some ''missing''"

lemma rank_fold:
  "fold (rank_step q) records acc = \<lparr>
     ra_scored = ra_scored acc @ map (\<lambda>r. (lexical_score r q, r))
       (filter (\<lambda>r. eligible r \<and> lexical_score r q \<noteq> 0) records),
     ra_unmatched = ra_unmatched acc @ filter (\<lambda>r. eligible r \<and> lexical_score r q = 0) records,
     ra_excluded = \<lparr>
       ex_not_approved = ex_not_approved (ra_excluded acc) +
         length (filter (\<lambda>r. mem_state r \<notin> {Approved, Superseded, Contradicted}) records),
       ex_missing = ex_missing (ra_excluded acc) +
         length (filter (\<lambda>r. mem_state r = Approved \<and> mem_source_status r = Some ''missing'') records),
       ex_superseded = ex_superseded (ra_excluded acc) +
         length (filter (\<lambda>r. mem_state r = Superseded) records),
       ex_conflict = ex_conflict (ra_excluded acc) +
         length (filter (\<lambda>r. mem_state r = Contradicted) records) \<rparr> \<rparr>"
proof (induction records arbitrary: acc)
  case Nil
  show ?case by simp
next
  case (Cons r records)
  show ?case
    by (cases "mem_state r") (simp_all add: Cons.IH rank_step_def [of q r acc] Let_def eligible_def)
qed

definition scored_records :: "memory list \<Rightarrow> string list \<Rightarrow> (nat \<times> memory) list" where
  "scored_records records q = map (\<lambda>r. (lexical_score r q, r))
     (filter (\<lambda>r. eligible r \<and> lexical_score r q \<noteq> 0) records)"

lemma ranked_eq:
  "ret_ranked (rank_memory_records records query) =
     enumerate_evidence 1 (sort_key evidence_key (scored_records records (remdups (terms_of query))))"
  "ret_unmatched (rank_memory_records records query) =
     sort_key mem_id (filter (\<lambda>r. eligible r \<and> lexical_score r (remdups (terms_of query)) = 0) records)"
  by (simp_all add: rank_memory_records_def rank_fold empty_rank_acc_def scored_records_def Let_def)

lemma enumerate_maps [simp]:
  "map evi_record (enumerate_evidence k xs) = map snd xs"
  "map evi_score (enumerate_evidence k xs) = map fst xs"
  "map evi_rank (enumerate_evidence k xs) = [k..<k + length xs]"
  "length (enumerate_evidence k xs) = length xs"
proof -
  show "map evi_record (enumerate_evidence k xs) = map snd xs"
    by (induction k xs rule: enumerate_evidence.induct) auto
  show "map evi_score (enumerate_evidence k xs) = map fst xs"
    by (induction k xs rule: enumerate_evidence.induct) auto
  show "map evi_rank (enumerate_evidence k xs) = [k..<k + length xs]"
    by (induction k xs rule: enumerate_evidence.induct) (auto simp: upt_rec)
  show "length (enumerate_evidence k xs) = length xs"
    by (induction k xs rule: enumerate_evidence.induct) auto
qed

lemma enumerate_nth:
  "i < length xs \<Longrightarrow> enumerate_evidence k xs ! i =
     \<lparr> evi_record = snd (xs ! i), evi_rank = k + i, evi_score = fst (xs ! i) \<rparr>"
  by (induction k xs arbitrary: i rule: enumerate_evidence.induct) (auto simp: nth_Cons split: nat.splits)

lemma set_enumerate:
  "e \<in> set (enumerate_evidence k xs) \<Longrightarrow> (evi_score e, evi_record e) \<in> set xs \<and> k \<le> evi_rank e"
  by (induction k xs rule: enumerate_evidence.induct) auto

text \<open>Sorting by a key that identifies the elements depends only on the multiset.\<close>

lemma sort_key_mset_eq:
  assumes "mset xs = mset ys" and "inj_on f (set xs)"
  shows "sort_key f xs = sort_key f ys"
proof (rule sort_key_inj_key_eq [OF _ assms(2)])
  show "mset xs = mset (sort_key f ys)" using assms(1) by simp
  show "sorted (map f (sort_key f ys))" by (rule sorted_sort_key)
qed

section \<open>Facts about the result\<close>

lemma ranked_members:
  "e \<in> set (ret_ranked (rank_memory_records records query)) \<Longrightarrow>
     evi_record e \<in> set records \<and> eligible (evi_record e) \<and>
     evi_score e = lexical_score (evi_record e) (remdups (terms_of query)) \<and> 1 \<le> evi_score e \<and>
     1 \<le> evi_rank e"
  by (auto simp: ranked_eq scored_records_def dest!: set_enumerate)

lemma ranked_records_mset:
  "mset (map evi_record (ret_ranked (rank_memory_records records query))) =
     mset (filter (\<lambda>r. eligible r \<and> lexical_score r (remdups (terms_of query)) \<noteq> 0) records)"
proof -
  have "mset (map snd (sort_key evidence_key (scored_records records q))) =
      image_mset snd (mset (scored_records records q))" for q
    by (simp only: mset_map mset_sort)
  then show ?thesis by (simp add: ranked_eq scored_records_def flip: mset_map del: mset_map)
     (simp add: o_def)
qed

lemma evidence_key_inj:
  assumes "distinct (map mem_id records)"
  shows "inj_on evidence_key (set (scored_records records q))"
  using assms by (auto simp: inj_on_def evidence_key_def scored_records_def distinct_map)

lemma ranked_unmatched_ids:
  "mset (map (mem_id \<circ> evi_record) (ret_ranked (rank_memory_records records query))) +
   mset (map mem_id (ret_unmatched (rank_memory_records records query))) =
     mset (map mem_id (filter eligible records))"
proof -
  let ?q = "remdups (terms_of query)"
  have "mset (map evi_record (ret_ranked (rank_memory_records records query))) +
      mset (ret_unmatched (rank_memory_records records query)) = mset (filter eligible records)"
    unfolding ranked_records_mset by (simp add: ranked_eq) (induction records; simp)
  then have "image_mset mem_id (mset (map evi_record (ret_ranked (rank_memory_records records query)))
      + mset (ret_unmatched (rank_memory_records records query))) =
      image_mset mem_id (mset (filter eligible records))" by (rule arg_cong)
  then show ?thesis by (simp add: multiset.map_comp)
qed

lemma rank_distinct:
  assumes "distinct (map mem_id records)"
  shows "distinct (map (mem_id \<circ> evi_record) (ret_ranked (rank_memory_records records query)) @
     map mem_id (ret_unmatched (rank_memory_records records query)))"
  using distinct_map_filterI [OF assms, of eligible] ranked_unmatched_ids [of records query]
  by (metis mset_append mset_eq_imp_distinct_iff)

lemma ranking_bounds:
  "map evi_rank (ret_ranked (rank_memory_records records query)) =
     [1..<1 + length (ret_ranked (rank_memory_records records query))]"
  by (simp add: ranked_eq)

lemma ranked_length: "length (ret_ranked (rank_memory_records records query)) \<le> length records"
  by (simp add: ranked_eq scored_records_def)

section \<open>Scores, by counting terms\<close>

text \<open>
  What a record offers to a query, without reference to the function that scores: the terms of
  its title, topics, classification and content, and the number of query terms in each.
\<close>

definition topic_terms :: "memory \<Rightarrow> string set" where
  "topic_terms r = (\<Union>topic\<in>set (mem_topics r). set (terms_of topic))"

definition classification_terms :: "memory \<Rightarrow> string set" where
  "classification_terms r = set (terms_of (category_value (mem_category r))) \<union>
     (\<Union>d\<in>set (mem_domains r). set (terms_of (domain_value d)))"

definition record_terms :: "memory \<Rightarrow> string set" where
  "record_terms r = set (terms_of (mem_title r)) \<union> topic_terms r \<union> classification_terms r \<union>
     set (terms_of (mem_content r))"

definition matched_weight :: "memory \<Rightarrow> string set \<Rightarrow> nat" where
  "matched_weight r Q =
     4 * card (Q \<inter> set (terms_of (mem_title r))) + 3 * card (Q \<inter> topic_terms r) +
     2 * card (Q \<inter> classification_terms r) +
     min 8 (length (filter (\<lambda>t. t \<in> Q) (terms_of (mem_content r))))"

lemma overlap_card: "distinct q \<Longrightarrow> overlap q ts = card (set q \<inter> set ts)"
  by (simp add: overlap_def distinct_card [symmetric] Int_def)

lemma sum_counts:
  assumes "distinct q"
  shows "sum_list (map (\<lambda>t. count_list ts t) q) = length (filter (\<lambda>t. t \<in> set q) ts)"
proof (induction ts)
  case (Cons x ts)
  have "sum_list (map (\<lambda>t. count_list (x # ts) t) q) =
      sum_list (map (\<lambda>t. if x = t then 1 else 0) q) + sum_list (map (\<lambda>t. count_list ts t) q)"
    by (simp flip: sum_list_addf) (intro arg_cong [where f = sum_list] map_cong; simp)
  moreover have "sum_list (map (\<lambda>t. if x = t then 1 else 0) q) = (if x \<in> set q then 1 else (0::nat))"
    using assms by (induction q) auto
  ultimately show ?case using Cons.IH by simp
qed simp

lemma lexical_score_counts:
  assumes "distinct q"
  shows "lexical_score r q = matched_weight r (set q)"
proof -
  have "set (concat (map terms_of (mem_topics r))) = topic_terms r"
    "set (terms_of (category_value (mem_category r)) @ concat (map (\<lambda>d. terms_of (domain_value d)) (mem_domains r))) =
       classification_terms r"
    by (auto simp: topic_terms_def classification_terms_def)
  then show ?thesis
    by (simp add: lexical_score_def matched_weight_def Let_def overlap_card [OF assms] sum_counts [OF assms]
        del: set_append set_concat)
qed

lemma matched_weight_0:
  assumes "finite Q"
  shows "matched_weight r Q = 0 \<longleftrightarrow> Q \<inter> record_terms r = {}"
proof -
  have "min 8 n = 0 \<longleftrightarrow> n = 0" for n :: nat by (simp add: min_def)
  then show ?thesis
    using assms by (auto simp: matched_weight_def record_terms_def card_eq_0_iff filter_empty_conv)
qed

lemma score_of_query:
  "lexical_score r (remdups (terms_of query)) = matched_weight r (set (terms_of query))"
  "lexical_score r (remdups (terms_of query)) \<noteq> 0 \<longleftrightarrow> set (terms_of query) \<inter> record_terms r \<noteq> {}"
  using lexical_score_counts [of "remdups (terms_of query)" r] matched_weight_0 [of "set (terms_of query)" r]
  by simp_all

section \<open>Properties\<close>

text \<open>
  Every record handed to the ranking is accounted for exactly once: ranked, unmatched,
  or in one of the four exclusion counts.
\<close>

theorem retrieval_accounts_for_every_record:
  "length (ret_ranked (rank_memory_records records query)) +
   length (ret_unmatched (rank_memory_records records query)) +
   (let ex = ret_excluded (rank_memory_records records query) in
      ex_not_approved ex + ex_missing ex + ex_superseded ex + ex_conflict ex) = length records"
proof -
  have "length (scored_records records q) +
    length (filter (\<lambda>r. eligible r \<and> lexical_score r q = 0) records) +
    (length (filter (\<lambda>r. mem_state r \<notin> {Approved, Superseded, Contradicted}) records) +
     length (filter (\<lambda>r. mem_state r = Approved \<and> mem_source_status r = Some ''missing'') records) +
     length (filter (\<lambda>r. mem_state r = Superseded) records) +
     length (filter (\<lambda>r. mem_state r = Contradicted) records)) = length records" for q
  proof (induction records)
    case (Cons r records)
    then show ?case by (cases "mem_state r") (auto simp: scored_records_def eligible_def)
  qed (simp add: scored_records_def)
  then show ?thesis
    by (simp add: ranked_eq) (simp add: rank_memory_records_def rank_fold empty_rank_acc_def Let_def)
qed

text \<open>
  C26: the ranking contains, once per occurrence, exactly the approved, source-available records that share
  a term with the query in their title, topics, category, domains or content, and each carries the
  score that counting gives: four for each query term in the title, three for each in the topics, two for
  each in the category or domains, and one for each occurrence in the content, up to eight.  The
  evidence is ordered by descending score and then by identity, with ranks 1, 2, \<open>\<dots>\<close>.
\<close>

theorem ranking_sound_complete_sorted:
  "mset (map evi_record (ret_ranked (rank_memory_records records query))) =
     mset (filter (\<lambda>r. mem_state r = Approved \<and> mem_source_status r \<noteq> Some ''missing'' \<and>
        set (terms_of query) \<inter> record_terms r \<noteq> {}) records) \<and>
   map evi_rank (ret_ranked (rank_memory_records records query)) =
     [1..<1 + length (ret_ranked (rank_memory_records records query))] \<and>
   sorted (map (\<lambda>e. (- int (evi_score e), mem_id (evi_record e)))
     (ret_ranked (rank_memory_records records query))) \<and>
   map evi_score (ret_ranked (rank_memory_records records query)) =
     map (\<lambda>r. matched_weight r (set (terms_of query)))
       (map evi_record (ret_ranked (rank_memory_records records query)))"
proof -
  let ?r = "ret_ranked (rank_memory_records records query)"
  have "map (\<lambda>e. (- int (evi_score e), mem_id (evi_record e))) (enumerate_evidence k xs) =
    map evidence_key xs" for k xs
    by (induction k xs rule: enumerate_evidence.induct) (auto simp: evidence_key_def)
  then have "sorted (map (\<lambda>e. (- int (evi_score e), mem_id (evi_record e))) ?r)"
    by (simp add: ranked_eq)
  moreover note ranking_bounds [of records query]
  ultimately show ?thesis
    using ranked_records_mset [of records query, unfolded score_of_query(2)]
      ranked_members [of _ records query, unfolded score_of_query(1)]
    by (simp add: eligible_def)
qed

text \<open>
  The ranking is deterministic: it depends only on which records there are, not on the
  order in which the repository lists them.
\<close>

theorem ranking_order_independent:
  assumes "distinct (map mem_id records)" and "mset records' = mset records"
  shows "rank_memory_records records' query = rank_memory_records records query"
proof -
  let ?q = "remdups (terms_of query)"
  have f: "mset (filter P records') = mset (filter P records)" for P
    using assms(2) by (metis mset_filter)
  then have l: "length (filter P records') = length (filter P records)" for P
    by (metis size_mset)
  have "mset (scored_records records' ?q) = mset (scored_records records ?q)"
    unfolding scored_records_def mset_map f ..
  then have "sort_key evidence_key (scored_records records' ?q) =
      sort_key evidence_key (scored_records records ?q)"
    by (intro sort_key_mset_eq [symmetric] evidence_key_inj [OF assms(1)]) simp
  moreover have "inj_on mem_id (set (filter (\<lambda>r. eligible r \<and> lexical_score r ?q = 0) records))"
    using assms(1) by (auto simp: distinct_map inj_on_def)
  then have "sort_key mem_id (filter (\<lambda>r. eligible r \<and> lexical_score r ?q = 0) records') =
      sort_key mem_id (filter (\<lambda>r. eligible r \<and> lexical_score r ?q = 0) records)"
    by (intro sort_key_mset_eq [symmetric]) (use assms(2) in simp_all)
  ultimately show ?thesis
    unfolding rank_memory_records_def Let_def rank_fold empty_rank_acc_def l
    by (simp add: scored_records_def)
qed

text \<open>
  C14: retrieval over a reachable repository returns evidence only for records whose exact
  content carries an approval that was not superseded, and never twice for one record.
\<close>

theorem retrieval_returns_approved_content:
  assumes "memory_reachable rand (db, n)"
  shows "(\<forall>e\<in>set (ret_ranked (retrieve_memory_evidence db query)).
      history db (mem_id (evi_record e)) (mem_content_hash (evi_record e)) = [Approved] \<and>
      mem_source_status (evi_record e) \<noteq> Some ''missing'') \<and>
    distinct (map (mem_id \<circ> evi_record) (ret_ranked (retrieve_memory_evidence db query)))"
proof -
  have ok: "memory_ok db" using memory_reachable_ok [OF assms] by simp
  have "distinct (map (mem_id \<circ> evi_record) (ret_ranked (retrieve_memory_evidence db query)))"
    unfolding retrieve_memory_evidence_def
    using rank_distinct [OF repository.listing_distinct [OF ok], of query]
    by (simp only: distinct_append)
  moreover have "history db (mem_id r) (mem_content_hash r) = [Approved]"
    if "r \<in> set (list_memory db)" "mem_state r = Approved" for r
    using repository.approved_members [OF ok] that by auto
  ultimately show ?thesis
    by (auto simp: retrieve_memory_evidence_def eligible_def dest!: ranked_members)
qed

theorem ranking_order_independent_witness:
  "rank_memory_records [sample_mem\<lparr>mem_id := ''b''\<rparr>, sample_mem\<lparr>mem_id := ''a''\<rparr>] ''text'' =
   rank_memory_records [sample_mem\<lparr>mem_id := ''a''\<rparr>, sample_mem\<lparr>mem_id := ''b''\<rparr>] ''text''"
  by (rule ranking_order_independent) simp_all

theorem retrieval_returns_approved_content_witness:
  "map (\<lambda>e. history approved_db (mem_id (evi_record e)) (mem_content_hash (evi_record e)))
     (ret_ranked (retrieve_memory_evidence approved_db ''text'')) = [[Approved]]"
proof -
  let ?es = "ret_ranked (retrieve_memory_evidence approved_db ''text'')"
  have t: "terms_of ''text'' = [''text'']" by code_simp
  have "eligible approved_mem \<and> lexical_score approved_mem [''text''] \<noteq> 0"
    by (simp add: t eligible_def lexical_score_def approved_mem_def sample_mem_def
        native_record_def sample_request_def)
  then have "mset (map evi_record ?es) = {#approved_mem#}"
    using ranked_records_mset [of "[approved_mem]" "''text''"]
    by (simp add: retrieve_memory_evidence_def approved_list t del: mset_map)
  then have "length ?es = 1"
    using arg_cong [where f = size] by (metis length_map size_mset size_single)
  then obtain e where "?es = [e]"
    by (auto simp: length_Suc_conv)
  then show ?thesis
    using retrieval_returns_approved_content [OF approved_reachable, of "''text''"] by simp
qed

end
