(* ===== verification/Context.thy ===== *)
theory Context
  imports Retrieval
begin

text \<open>
  \<open>context/compiler.py\<close> with the contracts of \<open>domain/context.py\<close>: the greedy selection of
  ranked evidence under a token budget, the manifest that records every inclusion and
  omission, and the validators that every construction of these classes runs.
\<close>

section \<open>Contracts\<close>

datatype context_status = CtxApproved | CtxContested | CtxSuperseded | CtxRetracted

datatype omission_reason = TokenBudget | NoQueryMatch

record context_item =
  ci_record :: string
  ci_hash :: string
  ci_title :: "string option"
  ci_category :: "string option"
  ci_domains :: "string list"
  ci_reason :: string
  ci_trust :: trust_class
  ci_status :: context_status
  ci_tokens :: int
  ci_refs :: "string list"
  ci_rank :: "int option"
  ci_score :: "int option"

record omission =
  om_record :: string
  om_hash :: string
  om_reason :: omission_reason
  om_rank :: "int option"
  om_score :: "int option"

record manifest =
  cm_id :: string
  cm_task :: string
  cm_compiled_at :: int
  cm_budget :: int
  cm_total :: int
  cm_policy_hash :: string
  cm_items :: "context_item list"
  cm_omissions :: "omission list"
  cm_excluded :: exclusion_summary

datatype context_error =
    ItemFieldInvalid
  | SourceRefsNotUnique
  | RankWithoutScore
  | OmissionFieldInvalid
  | BudgetOmissionUnranked
  | UnmatchedOmissionRanked
  | ManifestFieldInvalid
  | ItemsNotUnique
  | OmissionsNotUnique
  | OverBudget
  | TotalMismatch
  | IncludedAndOmitted

definition json_at_least :: "int \<Rightarrow> int \<Rightarrow> bool" where
  "json_at_least lo i \<longleftrightarrow> lo \<le> i \<and> i \<le> max_interoperable_integer"

text \<open>\<open>^[a-z][a-z0-9_-]*$\<close>, 1 to 64 characters\<close>

definition context_label :: "string \<Rightarrow> bool" where
  "context_label s \<longleftrightarrow> is_slug lower_chars actor_tail_chars 0 63 s"

definition validate_item :: "context_item \<Rightarrow> context_error + context_item" where
  "validate_item i = guarded
     [ (is_record_id (ci_record i) \<and> is_digest (ci_hash i) \<and>
        opt_ok (\<lambda>t. 1 \<le> length t \<and> length t \<le> 512) (ci_title i) \<and>
        opt_ok context_label (ci_category i) \<and>
        length (ci_domains i) \<le> 16 \<and> list_all context_label (ci_domains i) \<and>
        1 \<le> length (ci_reason i) \<and> json_at_least 0 (ci_tokens i) \<and>
        1 \<le> length (ci_refs i) \<and> list_all is_record_id (ci_refs i) \<and>
        opt_ok (json_at_least 1) (ci_rank i) \<and> opt_ok (json_at_least 1) (ci_score i),
        ItemFieldInvalid),
       (distinct (ci_refs i), SourceRefsNotUnique),
       ((ci_rank i = None) = (ci_score i = None), RankWithoutScore) ]
     (Inr i)"

definition validate_omission :: "omission \<Rightarrow> context_error + omission" where
  "validate_omission om =
     (let has_rank = om_rank om \<noteq> None \<and> om_score om \<noteq> None in
      guarded
       [ (is_record_id (om_record om) \<and> is_digest (om_hash om) \<and>
          opt_ok (json_at_least 1) (om_rank om) \<and> opt_ok (json_at_least 1) (om_score om),
          OmissionFieldInvalid),
         (\<not> (om_reason om = TokenBudget \<and> \<not> has_rank), BudgetOmissionUnranked),
         (\<not> (om_reason om = NoQueryMatch \<and> has_rank), UnmatchedOmissionRanked) ]
       (Inr om))"

definition validate_manifest :: "manifest \<Rightarrow> context_error + manifest" where
  "validate_manifest m = guarded
     [ (tagged_id ''ctx'' (cm_id m) \<and> tagged_id ''tsk'' (cm_task m) \<and>
        json_at_least 1 (cm_budget m) \<and> json_at_least 0 (cm_total m) \<and>
        is_digest (cm_policy_hash m), ManifestFieldInvalid),
       (distinct (cm_items m), ItemsNotUnique),
       (distinct (map om_record (cm_omissions m)), OmissionsNotUnique),
       (cm_total m \<le> cm_budget m, OverBudget),
       (sum_list (map ci_tokens (cm_items m)) = cm_total m, TotalMismatch),
       (set (map ci_record (cm_items m)) \<inter> set (map om_record (cm_omissions m)) = {},
          IncludedAndOmitted) ]
     (Inr m)"

section \<open>The compiler\<close>

definition token_count :: "memory \<Rightarrow> int" where
  "token_count r = int (length (py_split (mem_content r)))"

definition budget_omission :: "evidence \<Rightarrow> omission" where
  "budget_omission e = \<lparr> om_record = mem_id (evi_record e), om_hash = mem_content_hash (evi_record e),
     om_reason = TokenBudget, om_rank = Some (int (evi_rank e)),
     om_score = Some (int (evi_score e)) \<rparr>"

definition unmatched_omission :: "memory \<Rightarrow> omission" where
  "unmatched_omission r = \<lparr> om_record = mem_id r, om_hash = mem_content_hash r,
     om_reason = NoQueryMatch, om_rank = None, om_score = None \<rparr>"

text \<open>The loop over the ranked evidence: selected evidence, omissions, total tokens.\<close>

fun select_loop ::
    "int \<Rightarrow> evidence list \<Rightarrow> evidence list \<Rightarrow> omission list \<Rightarrow> int
      \<Rightarrow> context_error + evidence list \<times> omission list \<times> int" where
  "select_loop budget [] selected omissions used = Inr (selected, omissions, used)"
| "select_loop budget (e # es) selected omissions used =
     (let tokens = token_count (evi_record e) in
      if used + tokens > budget
      then try_bind (validate_omission (budget_omission e))
             (\<lambda>om. select_loop budget es selected (omissions @ [om]) used)
      else select_loop budget es (selected @ [e]) omissions (used + tokens))"

definition inclusion_reason :: "nat \<Rightarrow> nat \<Rightarrow> string" where
  "inclusion_reason rank score =
     ''approved lexical evidence rank='' @ show_nat rank @ '' score='' @ show_nat score"

definition item_of :: "evidence \<Rightarrow> context_item" where
  "item_of e =
     (let r = evi_record e in
      \<lparr> ci_record = mem_id r, ci_hash = mem_content_hash r, ci_title = Some (mem_title r),
        ci_category = Some (category_value (mem_category r)),
        ci_domains = map domain_value (mem_domains r),
        ci_reason = inclusion_reason (evi_rank e) (evi_score e),
        ci_trust = HumanVerified, ci_status = CtxApproved, ci_tokens = token_count r,
        ci_refs = [mem_id r], ci_rank = Some (int (evi_rank e)),
        ci_score = Some (int (evi_score e)) \<rparr>)"

definition context_policy :: jval where
  "context_policy = jobj
     [ (''authority'', JStr ''approved''), (''ranking'', JStr ''lexical-v1''),
       (''tie_break'', JStr ''record_id''), (''source_status'', JStr ''not_missing''),
       (''omissions'', JStr ''explicit'') ]"

definition compile_context ::
    "codec \<Rightarrow> retrieval \<Rightarrow> string \<Rightarrow> string \<Rightarrow> int \<Rightarrow> int \<Rightarrow> context_error + manifest \<times> memory list" where
  "compile_context C ret context_id task_id compiled_at budget =
     try_bind (select_loop budget (ret_ranked ret) [] [] 0) (\<lambda>(selected, omitted, used).
     try_bind (map_result (\<lambda>r. validate_omission (unmatched_omission r)) (ret_unmatched ret))
       (\<lambda>unmatched.
     try_bind (map_result (\<lambda>e. validate_item (item_of e)) selected) (\<lambda>items.
     try_bind (validate_manifest
        \<lparr> cm_id = context_id, cm_task = task_id, cm_compiled_at = compiled_at,
          cm_budget = budget, cm_total = used,
          cm_policy_hash = canonical_payload_hash C context_policy,
          cm_items = items, cm_omissions = omitted @ unmatched, cm_excluded = ret_excluded ret \<rparr>)
       (\<lambda>m. Inr (m, map evi_record selected)))))"

section \<open>The greedy selection\<close>

text \<open>The selection as a function of the tokens already taken.\<close>

fun taken :: "int \<Rightarrow> int \<Rightarrow> evidence list \<Rightarrow> evidence list" where
  "taken budget used [] = []"
| "taken budget used (e # es) =
     (if used + token_count (evi_record e) > budget then taken budget used es
      else e # taken budget (used + token_count (evi_record e)) es)"

fun passed_over :: "int \<Rightarrow> int \<Rightarrow> evidence list \<Rightarrow> evidence list" where
  "passed_over budget used [] = []"
| "passed_over budget used (e # es) =
     (if used + token_count (evi_record e) > budget then e # passed_over budget used es
      else passed_over budget (used + token_count (evi_record e)) es)"

definition tokens_of :: "evidence list \<Rightarrow> int" where
  "tokens_of es = sum_list (map (token_count \<circ> evi_record) es)"

lemma tokens_of_simps [simp]:
  "tokens_of [] = 0" "tokens_of (e # es) = token_count (evi_record e) + tokens_of es"
  "tokens_of (es @ fs) = tokens_of es + tokens_of fs"
  by (simp_all add: tokens_of_def)

lemma token_count_nonneg [simp]: "0 \<le> token_count r"
  by (simp add: token_count_def)

lemma validate_same [dest]:
  "validate_item i = Inr j \<Longrightarrow> j = i"
  "validate_omission om = Inr om' \<Longrightarrow> om' = om"
  "validate_manifest m = Inr m' \<Longrightarrow> m' = m"
  by (simp_all only: validate_item_def validate_omission_def validate_manifest_def Let_def
      guarded_eq_Inr sum.inject)

lemma select_loop_Inr:
  "select_loop budget es sel oms used = Inr (sel', oms', used') \<longleftrightarrow>
     (\<forall>e\<in>set (passed_over budget used es). validate_omission (budget_omission e) = Inr (budget_omission e)) \<and>
     sel' = sel @ taken budget used es \<and>
     oms' = oms @ map budget_omission (passed_over budget used es) \<and>
     used' = used + tokens_of (taken budget used es)"
proof (induction budget es sel oms used rule: select_loop.induct)
  case (2 budget e es sel oms used)
  then show ?case
    by (cases "validate_omission (budget_omission e)") (auto simp: Let_def)
qed auto

lemma taken_total: "used \<le> budget \<Longrightarrow> used + tokens_of (taken budget used es) \<le> budget"
  by (induction budget used es rule: taken.induct) (auto simp: add.assoc)

lemma taken_passed_mset: "mset (taken budget used es) + mset (passed_over budget used es) = mset es"
  by (induction budget used es rule: taken.induct) auto

lemma taken_subset: "set (taken budget used es) \<subseteq> set es"
  and passed_subset: "set (passed_over budget used es) \<subseteq> set es"
  by (induction budget used es rule: taken.induct) auto

text \<open>Whether the evidence at one position is taken depends on what was taken before it.\<close>

lemma taken_append:
  "taken budget used (es @ fs) =
     taken budget used es @ taken budget (used + tokens_of (taken budget used es)) fs"
  by (induction budget used es rule: taken.induct) (auto simp: add.assoc)

lemma passed_over_unfit:
  "used \<le> budget \<Longrightarrow> e \<in> set (passed_over budget used es) \<Longrightarrow>
     budget < used + tokens_of (taken budget used es) + token_count (evi_record e)"
proof (induction budget used es rule: taken.induct)
  case (2 budget used f es)
  show ?case
  proof (cases "used + token_count (evi_record f) > budget")
    case True
    have "0 \<le> tokens_of (taken budget used es)"
      unfolding tokens_of_def by (rule sum_list_nonneg) auto
    then show ?thesis using 2 True by auto
  next
    case False
    then show ?thesis using 2 by (simp add: add.assoc)
  qed
qed simp

text \<open>
  The positions of the evidence taken: those where it fits beside what was taken at the positions
  before; the evidence passed over is at all the others.
\<close>

lemma greedy_positions:
  obtains S where "S \<subseteq> {..<length es}" "taken budget used es = nths es S"
    "passed_over budget used es = nths es (- S)"
    "\<forall>i < length es. i \<in> S \<longleftrightarrow> used + tokens_of (nths (take i es) S) + token_count (evi_record (es ! i)) \<le> budget"
proof (induction budget used es arbitrary: thesis rule: taken.induct)
  case (2 budget used e es)
  show ?case
  proof (cases "used + token_count (evi_record e) > budget")
    case True
    from "2.IH"(1) [OF True] obtain S where S: "S \<subseteq> {..<length es}" "taken budget used es = nths es S"
      "passed_over budget used es = nths es (- S)"
      "\<forall>i < length es. i \<in> S \<longleftrightarrow> used + tokens_of (nths (take i es) S) + token_count (evi_record (es ! i)) \<le> budget" .
    have "{j. Suc j \<in> Suc ` S} = S" "{j. Suc j \<in> - Suc ` S} = - S" by auto
    then show thesis
      by (intro "2.prems" [of "Suc ` S"]) (use True S in \<open>auto simp: nths_Cons nth_Cons' less_Suc_eq_0_disj\<close>)
  next
    case False
    from "2.IH"(2) [OF False] obtain S where S: "S \<subseteq> {..<length es}"
      "taken budget (used + token_count (evi_record e)) es = nths es S"
      "passed_over budget (used + token_count (evi_record e)) es = nths es (- S)"
      "\<forall>i < length es. i \<in> S \<longleftrightarrow> used + token_count (evi_record e) + tokens_of (nths (take i es) S) +
         token_count (evi_record (es ! i)) \<le> budget" .
    have "{j. Suc j \<in> insert 0 (Suc ` S)} = S" "{j. Suc j \<in> - insert 0 (Suc ` S)} = - S" by auto
    then show thesis
      by (intro "2.prems" [of "insert 0 (Suc ` S)"])
        (use False S in \<open>auto simp: nths_Cons nth_Cons' less_Suc_eq_0_disj add.assoc\<close>)
  qed
qed simp

section \<open>When every construction validates\<close>

definition evidence_ok :: "evidence \<Rightarrow> bool" where
  "evidence_ok e \<longleftrightarrow> valid_memory (evi_record e) \<and> length (mem_domains (evi_record e)) \<le> 16 \<and>
     json_at_least 1 (int (evi_rank e)) \<and> json_at_least 1 (int (evi_score e))"

lemma category_label [simp]: "context_label (category_value c)"
  by (cases c; simp; code_simp)

lemma domain_label [simp]: "context_label (domain_value d)"
  by (cases d; simp; code_simp)

lemma length_runs_acc: "length (runs_acc p cur s) \<le> length s + (if cur = [] then 0 else 1)"
  by (induction p cur s rule: runs_acc.induct) (auto split: if_splits)

lemma token_count_bound: "token_count r \<le> int (length (mem_content r))"
  unfolding token_count_def py_split_def runs_of_def using length_runs_acc [of _ "[]"] by simp

lemma token_count_json: "valid_memory r \<Longrightarrow> json_at_least 0 (token_count r)"
  using token_count_bound [of r]
  by (simp add: valid_memory_def json_at_least_def max_interoperable_integer_def)

lemma inclusion_reason_nonempty: "1 \<le> length (inclusion_reason rank score)"
  by (simp add: inclusion_reason_def)

lemma validate_item_of:
  assumes "evidence_ok e"
  shows "validate_item (item_of e) = Inr (item_of e)"
proof -
  let ?r = "evi_record e"
  have v: "valid_memory ?r" and d: "length (mem_domains ?r) \<le> 16"
    and rank: "json_at_least 1 (int (evi_rank e))" "json_at_least 1 (int (evi_score e))"
    using assms by (auto simp: evidence_ok_def)
  have title: "1 \<le> length (mem_title ?r) \<and> length (mem_title ?r) \<le> 512"
    using v by (simp add: valid_memory_def)
  have labels: "list_all context_label (map domain_value (mem_domains ?r))"
    by (simp add: list_all_iff)
  note facts = mem_id_is_record_id [OF valid_memoryD(1) [OF v]] valid_memoryD(2) [OF v] title d rank
    token_count_json [OF v] inclusion_reason_nonempty labels
  show ?thesis
    unfolding validate_item_def item_of_def Let_def guarded_eq_Inr
    using facts by simp
qed

lemma validate_budget_omission:
  "evidence_ok e \<Longrightarrow> validate_omission (budget_omission e) = Inr (budget_omission e)"
  by (simp add: validate_omission_def budget_omission_def Let_def guarded_eq_Inr evidence_ok_def
      mem_id_is_record_id valid_memoryD)

lemma validate_unmatched_omission:
  "valid_memory r \<Longrightarrow> validate_omission (unmatched_omission r) = Inr (unmatched_omission r)"
  by (simp add: validate_omission_def unmatched_omission_def Let_def guarded_eq_Inr
      mem_id_is_record_id valid_memoryD)

lemma item_of_simps [simp]:
  "ci_record (item_of e) = mem_id (evi_record e)"
  "ci_tokens (item_of e) = token_count (evi_record e)"
  by (simp_all add: item_of_def Let_def)

lemma omission_simps [simp]:
  "om_record (budget_omission e) = mem_id (evi_record e)"
  "om_record (unmatched_omission r) = mem_id r"
  "om_reason (budget_omission e) = TokenBudget" "om_reason (unmatched_omission r) = NoQueryMatch"
  by (simp_all add: budget_omission_def unmatched_omission_def)

lemma compile_context_Inr:
  "compile_context C ret cid tid now budget = Inr (m, sel) \<longleftrightarrow>
     (\<forall>e\<in>set (passed_over budget 0 (ret_ranked ret)).
        validate_omission (budget_omission e) = Inr (budget_omission e)) \<and>
     (\<forall>r\<in>set (ret_unmatched ret).
        validate_omission (unmatched_omission r) = Inr (unmatched_omission r)) \<and>
     (\<forall>e\<in>set (taken budget 0 (ret_ranked ret)). validate_item (item_of e) = Inr (item_of e)) \<and>
     validate_manifest m = Inr m \<and>
     m = \<lparr> cm_id = cid, cm_task = tid, cm_compiled_at = now, cm_budget = budget,
       cm_total = tokens_of (taken budget 0 (ret_ranked ret)),
       cm_policy_hash = canonical_payload_hash C context_policy,
       cm_items = map item_of (taken budget 0 (ret_ranked ret)),
       cm_omissions = map budget_omission (passed_over budget 0 (ret_ranked ret)) @
         map unmatched_omission (ret_unmatched ret),
       cm_excluded = ret_excluded ret \<rparr> \<and>
     sel = map evi_record (taken budget 0 (ret_ranked ret))"
proof -
  have each: "map_result (\<lambda>x. v (f x)) xs = Inr ys \<longleftrightarrow>
      ys = map f xs \<and> (\<forall>x\<in>set xs. v (f x) = Inr (f x))"
    if "\<And>x y. v x = Inr y \<Longrightarrow> y = x" for v :: "'b \<Rightarrow> context_error + 'b" and f :: "'a \<Rightarrow> 'b" and xs ys
  proof (induction xs arbitrary: ys)
    case (Cons x xs)
    then show ?case using that [of "f x"] by (cases "v (f x)") (auto simp: result_simps)
  qed auto
  note unmatched = each [OF validate_same(2), of _ unmatched_omission]
  note items = each [OF validate_same(1), of _ item_of]
  show ?thesis
    unfolding compile_context_def
    by (auto simp: result_simps select_loop_Inr unmatched items dest: validate_same)
qed

section \<open>Bounds of ranks and scores\<close>

text \<open>Folding one character adds at most one run: a letter that folds to two stays in one run.\<close>

lemma runs_acc_fold:
  assumes "list_all p f \<or> length f = 1"
  obtains cur' k where "\<And>s. length (runs_acc p cur (f @ s)) = k + length (runs_acc p cur' s)"
    "k + (if cur' = [] then 0 else 1) \<le> (if cur = [] then 0 else 1) + (1::nat)"
proof -
  have all: "runs_acc p cur (f @ s) = runs_acc p (rev f @ cur) s" if "list_all p f" for s
    using that by (induction f arbitrary: cur) auto
  consider "list_all p f" | c where "f = [c]" "\<not> p c" using assms by (cases "list_all p f") (auto simp: length_Suc_conv)
  then show thesis
  proof cases
    case 1
    show thesis by (rule that [of 0 "rev f @ cur"]) (use all [OF 1] in auto)
  next
    case 2
    show thesis by (rule that [of "if cur = [] then 0 else 1" "[]"]) (use 2 in auto)
  qed
qed

lemma length_runs_fold:
  assumes "\<And>c. list_all p (fold_char c) \<or> length (fold_char c) = 1"
  shows "length (runs_acc p cur (casefold s)) \<le> length s + (if cur = [] then 0 else 1)"
proof (induction s arbitrary: cur)
  case (Cons c s)
  obtain cur' k where k: "\<And>t. length (runs_acc p cur (fold_char c @ t)) = k + length (runs_acc p cur' t)"
    "k + (if cur' = [] then 0 else 1) \<le> (if cur = [] then 0 else 1) + (1::nat)"
    using runs_acc_fold [OF assms] by metis
  show ?case using Cons [of cur'] k by simp
qed simp

lemma fold_char_terms: "list_all (\<lambda>c. c \<in> set (lower_chars @ digit_chars)) (fold_char c) \<or> length (fold_char c) = 1"
  by (simp add: fold_char_def Let_def lower_chars_def)

lemma length_terms_of: "length (terms_of v) \<le> length v"
proof -
  have "length (terms_of v) \<le> length (runs_of (\<lambda>c. c \<in> set (lower_chars @ digit_chars)) (casefold v))"
    unfolding terms_of_def by (rule length_filter_le)
  also have "\<dots> \<le> length v"
    unfolding runs_of_def using length_runs_fold [of _ "[]" v] fold_char_terms by simp
  finally show ?thesis .
qed

lemma lexical_score_bound: "lexical_score r q \<le> 9 * length q + 8"
proof -
  have "overlap q ts \<le> length q" for ts by (simp add: overlap_def)
  from this [of "terms_of (mem_title r)"] this [of "concat (map terms_of (mem_topics r))"]
    this [of "terms_of (category_value (mem_category r)) @
              concat (map (\<lambda>d. terms_of (domain_value d)) (mem_domains r))"]
  show ?thesis unfolding lexical_score_def Let_def by (simp del: concat_eq_Nil_conv) linarith
qed

lemma length_query_terms: "length (remdups (terms_of query)) \<le> length query"
  using length_remdups_leq [of "terms_of query"] length_terms_of [of query] by linarith

lemma ranked_evidence_ok:
  assumes "\<forall>r\<in>set records. valid_memory r \<and> length (mem_domains r) \<le> 16"
    and "int (length records) \<le> max_interoperable_integer"
    and "int (9 * length query + 8) \<le> max_interoperable_integer"
    and "e \<in> set (ret_ranked (rank_memory_records records query))"
  shows "evidence_ok e"
proof -
  let ?ranked = "ret_ranked (rank_memory_records records query)"
  note e = ranked_members [OF assms(4)]
  have "evi_rank e \<in> set (map evi_rank ?ranked)" using assms(4) by simp
  then have "evi_rank e \<le> length ?ranked"
    using ranking_bounds [of records query] by auto
  also have "length ?ranked \<le> length records"
    using ranked_length [of records query] .
  finally have "int (evi_rank e) \<le> max_interoperable_integer" using assms(2) by linarith
  moreover have "int (evi_score e) \<le> max_interoperable_integer"
    using lexical_score_bound [of "evi_record e" "remdups (terms_of query)"]
      length_query_terms [of query] e assms(3) by linarith
  ultimately show ?thesis using e assms(1) by (simp add: evidence_ok_def json_at_least_def)
qed

section \<open>Compiling valid records\<close>

lemma compile_valid_records:
  assumes "hash_ok (c_sha C)" and "tagged_id ''ctx'' cid" and "tagged_id ''tsk'' tid"
    and "json_at_least 1 budget" and "distinct (map mem_id records)"
    and "\<forall>r\<in>set records. valid_memory r \<and> length (mem_domains r) \<le> 16"
    and "int (length records) \<le> max_interoperable_integer"
    and "int (9 * length query + 8) \<le> max_interoperable_integer"
  shows "\<exists>m sel. compile_context C (rank_memory_records records query) cid tid now budget = Inr (m, sel) \<and>
    validate_manifest m = Inr m \<and> cm_total m \<le> budget \<and>
    map ci_record (cm_items m) = map mem_id sel \<and>
    mset (map ci_record (cm_items m) @ map om_record (cm_omissions m)) =
      mset (map mem_id (filter eligible records))"
proof -
  let ?ret = "rank_memory_records records query"
  let ?taken = "taken budget 0 (ret_ranked ?ret)" and ?over = "passed_over budget 0 (ret_ranked ?ret)"
  have ok: "evidence_ok e" if "e \<in> set (ret_ranked ?ret)" for e
    using ranked_evidence_ok [OF assms(6-8) that] .
  have unmatched: "valid_memory r" if "r \<in> set (ret_unmatched ?ret)" for r
    using that assms(6) by (simp add: ranked_eq)
  have pos: "0 \<le> budget" using assms(4) by (simp add: json_at_least_def)
  have sum: "tokens_of ?taken \<le> budget" using taken_total [OF pos] by simp
  have nonneg: "0 \<le> tokens_of ?taken"
    unfolding tokens_of_def by (rule sum_list_nonneg) auto
  have all_ids: "mset (map (mem_id \<circ> evi_record) ?taken) + mset (map (mem_id \<circ> evi_record) ?over) +
      mset (map mem_id (ret_unmatched ?ret)) = mset (map mem_id (filter eligible records))"
    using arg_cong [OF taken_passed_mset [of budget 0 "ret_ranked ?ret"],
        of "image_mset (mem_id \<circ> evi_record)"] ranked_unmatched_ids [of records query]
    by simp
  then have "mset (map (mem_id \<circ> evi_record) ?taken @ map (mem_id \<circ> evi_record) ?over @
      map mem_id (ret_unmatched ?ret)) = mset (map mem_id (filter eligible records))"
    by (simp only: mset_append add.assoc)
  from mset_eq_imp_distinct_iff [OF this]
  have distinct: "distinct (map (mem_id \<circ> evi_record) ?taken @ map (mem_id \<circ> evi_record) ?over @
      map mem_id (ret_unmatched ?ret))"
    using distinct_map_filterI [OF assms(5), of eligible] by simp
  let ?m = "\<lparr> cm_id = cid, cm_task = tid, cm_compiled_at = now, cm_budget = budget,
       cm_total = tokens_of ?taken, cm_policy_hash = canonical_payload_hash C context_policy,
       cm_items = map item_of ?taken,
       cm_omissions = map budget_omission ?over @ map unmatched_omission (ret_unmatched ?ret),
       cm_excluded = ret_excluded ?ret \<rparr>"
  have ids: "map ci_record (cm_items ?m) = map (mem_id \<circ> evi_record) ?taken"
    "map om_record (cm_omissions ?m) =
       map (mem_id \<circ> evi_record) ?over @ map mem_id (ret_unmatched ?ret)"
    by (simp_all add: o_def)
  have "distinct (map ci_record (cm_items ?m))" using distinct by (simp only: ids distinct_append)
  then have "distinct (cm_items ?m)" unfolding distinct_map by (rule conjunct1)
  moreover have "sum_list (map ci_tokens (cm_items ?m)) = cm_total ?m"
    by (simp add: tokens_of_def o_def)
  moreover have "is_digest (cm_policy_hash ?m)"
    using digest_ref_is_digest [OF assms(1)] by (simp add: canonical_payload_hash_def)
  moreover have "distinct (map om_record (cm_omissions ?m))" "set (map ci_record (cm_items ?m)) \<inter>
      set (map om_record (cm_omissions ?m)) = {}"
    using distinct unfolding ids by simp_all
  ultimately have valid: "validate_manifest ?m = Inr ?m"
    using assms(2-4) sum nonneg unfolding validate_manifest_def guarded_eq_Inr
    by (simp add: json_at_least_def del: map_append)
  have compiled: "compile_context C ?ret cid tid now budget = Inr (?m, map evi_record ?taken)"
    unfolding compile_context_Inr
    using ok unmatched valid taken_subset [of budget 0 "ret_ranked ?ret"]
      passed_subset [of budget 0 "ret_ranked ?ret"]
    by (auto simp: validate_item_of validate_budget_omission validate_unmatched_omission)
  show ?thesis
    by (rule exI [of _ ?m], rule exI, rule conjI [OF compiled], rule conjI [OF valid])
      (use sum all_ids in \<open>simp only: ids mset_append add.assoc; simp add: o_def\<close>)
qed

section \<open>Properties\<close>

text \<open>
  Compiling the ranking of valid records succeeds for every budget: the manifest passes
  its validators, stays within the budget, lists as items exactly the selected records and,
  with its omissions, each eligible record exactly once.
\<close>

theorem compile_context_succeeds:
  assumes "hash_ok (c_sha C)" and "tagged_id ''ctx'' cid" and "tagged_id ''tsk'' tid"
    and "json_at_least 1 budget" and "distinct (map mem_id records)"
    and "\<forall>r\<in>set records. valid_memory r \<and> length (mem_domains r) \<le> 16"
    and "int (length records) \<le> max_interoperable_integer"
    and "int (9 * length query + 8) \<le> max_interoperable_integer"
  shows "\<exists>m sel. compile_context C (rank_memory_records records query) cid tid now budget = Inr (m, sel) \<and>
    validate_manifest m = Inr m \<and> cm_total m \<le> budget \<and>
    map ci_record (cm_items m) = map mem_id sel \<and>
    mset (map ci_record (cm_items m) @ map om_record (cm_omissions m)) =
      mset (map mem_id (filter eligible records))"
  by (rule compile_valid_records [OF assms])

text \<open>
  C27: the selection is the greedy one and maximal.  There is a set of positions in the ranking such
  that the records handed to the model and the items of the manifest are those of the ranking at these
  positions, in order, and the omissions are, in order, those at every other position, for the
  budget, followed by every unmatched record, for no match.  A position is chosen exactly
  when its record still fits beside the chosen ones before it.  The total is the sum of the tokens of the
  selected records and within the budget, and no evidence omitted for the budget would still fit.
\<close>

theorem compile_context_maximal:
  assumes "compile_context C ret cid tid now budget = Inr (m, sel)"
  shows "(\<exists>S \<subseteq> {..<length (ret_ranked ret)}.
      (\<forall>i < length (ret_ranked ret). i \<in> S \<longleftrightarrow>
         tokens_of (nths (take i (ret_ranked ret)) S) + token_count (evi_record (ret_ranked ret ! i)) \<le> budget) \<and>
      sel = map evi_record (nths (ret_ranked ret) S) \<and>
      map ci_record (cm_items m) = map mem_id sel \<and>
      map ci_tokens (cm_items m) = map token_count sel \<and>
      map (\<lambda>om. (om_record om, om_reason om)) (cm_omissions m) =
        map (\<lambda>e. (mem_id (evi_record e), TokenBudget)) (nths (ret_ranked ret) (- S)) @
        map (\<lambda>r. (mem_id r, NoQueryMatch)) (ret_unmatched ret)) \<and>
    cm_budget m = budget \<and> cm_total m = sum_list (map token_count sel) \<and> cm_total m \<le> cm_budget m \<and>
    (\<forall>om\<in>set (cm_omissions m). om_reason om = TokenBudget \<longrightarrow>
      (\<exists>e\<in>set (ret_ranked ret). om_record om = mem_id (evi_record e) \<and>
         cm_budget m < cm_total m + token_count (evi_record e)))"
proof -
  note c = assms [unfolded compile_context_Inr]
  have "1 \<le> cm_budget m" "cm_total m \<le> cm_budget m"
    using c by (auto simp: validate_manifest_def guarded_eq_Inr json_at_least_def)
  moreover have b: "cm_budget m = budget" using c by simp
  ultimately have fit: "budget < tokens_of (taken budget 0 (ret_ranked ret)) + token_count (evi_record e)"
    if "e \<in> set (passed_over budget 0 (ret_ranked ret))" for e
    using passed_over_unfit [OF _ that] by simp
  have "cm_total m = sum_list (map token_count sel)"
    using c by (simp add: tokens_of_def o_def)
  moreover have "\<exists>e\<in>set (ret_ranked ret). om_record om = mem_id (evi_record e) \<and>
      cm_budget m < cm_total m + token_count (evi_record e)"
    if om: "om \<in> set (cm_omissions m)" "om_reason om = TokenBudget" for om
  proof -
    from om c obtain e where e: "e \<in> set (passed_over budget 0 (ret_ranked ret))"
      "om = budget_omission e" by auto
    then have "e \<in> set (ret_ranked ret)" using passed_subset by blast
    then show ?thesis using e fit [OF e(1)] b c by (intro bexI [of _ e]) simp_all
  qed
  moreover obtain S where "S \<subseteq> {..<length (ret_ranked ret)}"
      "taken budget 0 (ret_ranked ret) = nths (ret_ranked ret) S"
      "passed_over budget 0 (ret_ranked ret) = nths (ret_ranked ret) (- S)"
      "\<forall>i < length (ret_ranked ret). i \<in> S \<longleftrightarrow>
         0 + tokens_of (nths (take i (ret_ranked ret)) S) + token_count (evi_record (ret_ranked ret ! i)) \<le> budget"
    by (rule greedy_positions)
  then have "\<exists>S \<subseteq> {..<length (ret_ranked ret)}.
      (\<forall>i < length (ret_ranked ret). i \<in> S \<longleftrightarrow>
         tokens_of (nths (take i (ret_ranked ret)) S) + token_count (evi_record (ret_ranked ret ! i)) \<le> budget) \<and>
      sel = map evi_record (nths (ret_ranked ret) S) \<and>
      map ci_record (cm_items m) = map mem_id sel \<and>
      map ci_tokens (cm_items m) = map token_count sel \<and>
      map (\<lambda>om. (om_record om, om_reason om)) (cm_omissions m) =
        map (\<lambda>e. (mem_id (evi_record e), TokenBudget)) (nths (ret_ranked ret) (- S)) @
        map (\<lambda>r. (mem_id r, NoQueryMatch)) (ret_unmatched ret)"
    by (intro exI [of _ S]) (use c in \<open>simp add: o_def\<close>)
  ultimately show ?thesis using \<open>cm_total m \<le> cm_budget m\<close> b by blast
qed

text \<open>
  A valid approved record with more than sixteen domains, which the record contract and
  the create route accept, makes the compilation fail whenever it matches the query and fits
  the budget: the item contract admits at most sixteen.
\<close>

theorem too_many_domains_fail:
  assumes "mem_state r = Approved" and "mem_source_status r = None"
    and "lexical_score r (remdups (terms_of query)) \<noteq> 0"
    and "16 < length (mem_domains r)" and "token_count r \<le> budget"
  shows "compile_context C (rank_memory_records [r] query) cid tid now budget = Inl ItemFieldInvalid"
proof -
  let ?e = "\<lparr> evi_record = r, evi_rank = 1,
     evi_score = lexical_score r (remdups (terms_of query)) \<rparr>"
  have "ret_ranked (rank_memory_records [r] query) = [?e]"
    "ret_unmatched (rank_memory_records [r] query) = []"
    using assms(1-3) by (simp_all add: ranked_eq scored_records_def eligible_def)
  moreover have "validate_item (item_of ?e) = Inl ItemFieldInvalid"
    using assms(4) by (simp add: validate_item_def item_of_def Let_def guard_simps)
  ultimately show ?thesis
    using assms(5) by (simp add: compile_context_def)
qed

section \<open>The properties on a concrete record\<close>

definition crowded_mem :: memory where
  "crowded_mem = approved_mem\<lparr>mem_domains := replicate 17 General\<rparr>"

lemma approved_mem_domains [simp]: "length (mem_domains approved_mem) \<le> 16"
  by (simp add: approved_mem_def sample_mem_def native_record_def sample_request_def)

lemma sample_args:
  "hash_ok (c_sha sample_codec)" "tagged_id ''ctx'' (sample_id ''ctx'' (CHR ''1''))"
  "tagged_id ''tsk'' (sample_id ''tsk'' (CHR ''1''))" "json_at_least 1 10"
  "distinct (map mem_id [approved_mem])"
  "\<forall>r\<in>set [approved_mem]. valid_memory r \<and> length (mem_domains r) \<le> 16"
  "int (length [approved_mem]) \<le> max_interoperable_integer"
  "int (9 * length ''text'' + 8) \<le> max_interoperable_integer"
  by (simp_all add: json_at_least_def max_interoperable_integer_def crockford_def)

theorem compile_context_succeeds_witness:
  "\<exists>m sel. compile_context sample_codec (rank_memory_records [approved_mem] ''text'')
      (sample_id ''ctx'' (CHR ''1'')) (sample_id ''tsk'' (CHR ''1'')) 0 10 = Inr (m, sel) \<and>
    validate_manifest m = Inr m \<and> cm_total m \<le> 10"
  using compile_context_succeeds [OF sample_args, of 0] by blast

theorem compile_context_maximal_witness:
  "\<exists>m sel. compile_context sample_codec (rank_memory_records [approved_mem] ''text'')
      (sample_id ''ctx'' (CHR ''1'')) (sample_id ''tsk'' (CHR ''1'')) 0 10 = Inr (m, sel) \<and>
    cm_total m = sum_list (map token_count sel)"
proof -
  obtain m sel where "compile_context sample_codec (rank_memory_records [approved_mem] ''text'')
      (sample_id ''ctx'' (CHR ''1'')) (sample_id ''tsk'' (CHR ''1'')) 0 10 = Inr (m, sel)"
    using compile_valid_records [OF sample_args, of 0] by blast
  with compile_context_maximal [OF this] show ?thesis by blast
qed

theorem too_many_domains_fail_witness:
  "compile_context sample_codec (rank_memory_records [crowded_mem] ''text'')
     (sample_id ''ctx'' (CHR ''1'')) (sample_id ''tsk'' (CHR ''1'')) 0 10 = Inl ItemFieldInvalid"
proof (rule too_many_domains_fail)
  have t: "terms_of ''text'' = [''text'']" by code_simp
  show "lexical_score crowded_mem (remdups (terms_of ''text'')) \<noteq> 0"
    by (simp add: t lexical_score_def crowded_mem_def approved_mem_def sample_mem_def
        native_record_def sample_request_def)
  have "py_split ''text'' = [''text'']" by code_simp
  then show "token_count crowded_mem \<le> 10"
    by (simp add: token_count_def crowded_mem_def approved_mem_def sample_mem_def
        native_record_def sample_request_def)
qed (simp_all add: crowded_mem_def approved_mem_def sample_mem_def native_record_def)

end
