(* ===== verification/Run.thy ===== *)
theory Run
  imports Samples
begin

text \<open>
  \<open>agent_runtime/contracts.py\<close>: the reconstruction of a run from its immutable events.  The
  code's tables become the functions \<open>pending_action\<close>, \<open>allowed_next\<close> and \<open>event_type_of\<close>, its
  loop becomes \<open>run_loop\<close>; the inductive \<open>run_path\<close> is the state machine the tables describe.
\<close>

section \<open>Stages and tables\<close>

datatype step_kind =
    RequestRecorded | ContextCompiled | ModelCallPending | ModelCallSucceeded | ModelCallFailed
  | ModelCallInterrupted | ToolRequested | GrantApproved | GrantDenied | ToolCallClaimed
  | ObservationStep | ToolFailed | FinalResponse

fun step_kind_value :: "step_kind \<Rightarrow> string" where
  "step_kind_value RequestRecorded = ''request_recorded''"
| "step_kind_value ContextCompiled = ''context_compiled''"
| "step_kind_value ModelCallPending = ''model_call_pending''"
| "step_kind_value ModelCallSucceeded = ''model_call_succeeded''"
| "step_kind_value ModelCallFailed = ''model_call_failed''"
| "step_kind_value ModelCallInterrupted = ''model_call_interrupted''"
| "step_kind_value ToolRequested = ''tool_requested''"
| "step_kind_value GrantApproved = ''grant_approved''"
| "step_kind_value GrantDenied = ''grant_denied''"
| "step_kind_value ToolCallClaimed = ''tool_call_claimed''"
| "step_kind_value ObservationStep = ''observation''"
| "step_kind_value ToolFailed = ''tool_failed''"
| "step_kind_value FinalResponse = ''final_response''"

definition all_kinds :: "step_kind list" where
  "all_kinds = [RequestRecorded, ContextCompiled, ModelCallPending, ModelCallSucceeded,
     ModelCallFailed, ModelCallInterrupted, ToolRequested, GrantApproved, GrantDenied,
     ToolCallClaimed, ObservationStep, ToolFailed, FinalResponse]"

datatype run_state = InProgress | AwaitingApproval | Completed | Failed | Interrupted

datatype run_action =
    ContextCompilation | ProviderDispatch | ProviderResult | ModelContinuation
  | HumanApproval | ToolExecution | ToolResult | ProviderFollowUp

fun pending_action :: "step_kind \<Rightarrow> run_action option" where
  "pending_action RequestRecorded = Some ContextCompilation"
| "pending_action ContextCompiled = Some ProviderDispatch"
| "pending_action ModelCallPending = Some ProviderResult"
| "pending_action ModelCallSucceeded = Some ModelContinuation"
| "pending_action ToolRequested = Some HumanApproval"
| "pending_action GrantApproved = Some ToolExecution"
| "pending_action ToolCallClaimed = Some ToolResult"
| "pending_action ObservationStep = Some ProviderFollowUp"
| "pending_action _ = None"

fun allowed_next :: "step_kind \<Rightarrow> step_kind list" where
  "allowed_next RequestRecorded = [ContextCompiled, ModelCallSucceeded]"
| "allowed_next ContextCompiled = [ModelCallPending]"
| "allowed_next ModelCallPending = [ModelCallSucceeded, ModelCallFailed, ModelCallInterrupted]"
| "allowed_next ModelCallSucceeded = [ToolRequested, FinalResponse]"
| "allowed_next ToolRequested = [GrantApproved, GrantDenied]"
| "allowed_next GrantApproved = [ToolCallClaimed, ToolFailed]"
| "allowed_next ToolCallClaimed = [ObservationStep, ToolFailed]"
| "allowed_next ObservationStep = [ModelCallPending]"
| "allowed_next _ = []"

fun event_type_of :: "step_kind \<Rightarrow> event_type" where
  "event_type_of RequestRecorded = Message"
| "event_type_of ContextCompiled = Outcome"
| "event_type_of ModelCallPending = ModelCall"
| "event_type_of ModelCallSucceeded = Outcome"
| "event_type_of ModelCallFailed = Outcome"
| "event_type_of ModelCallInterrupted = Outcome"
| "event_type_of ToolRequested = ToolCall"
| "event_type_of GrantApproved = Approval"
| "event_type_of GrantDenied = Approval"
| "event_type_of ToolCallClaimed = ToolCall"
| "event_type_of ObservationStep = Observation"
| "event_type_of ToolFailed = Outcome"
| "event_type_of FinalResponse = Message"

section \<open>Reconstruction\<close>

datatype run_error =
    UnrecognizedOperation
  | EmptyRun
  | MixedIdentity
  | WrongEventType
  | NotBegunByRequest
  | RequestHasParent
  | InvalidTransition step_kind step_kind
  | ParentNotPreceding
  | ContextReferenceCount

text \<open>\<open>payload.get("operation")\<close>, a missing name and JSON null both reading as \<open>None\<close>\<close>

definition operation_of :: "event \<Rightarrow> jval option" where
  "operation_of e =
     (case jget (ev_payload e) ''operation'' of
        None \<Rightarrow> None | Some v \<Rightarrow> if v = JNull then None else Some v)"

definition step_kind_of :: "event \<Rightarrow> run_error + step_kind" where
  "step_kind_of e =
     (let operation = operation_of e;
          declared = (case operation of
             Some (JStr s) \<Rightarrow> find (\<lambda>k. step_kind_value k = s) all_kinds
           | _ \<Rightarrow> None) in
      case declared of
        Some k \<Rightarrow> Inr k
      | None \<Rightarrow>
          if ev_type e = Message \<and> actor_kind (ev_actor e) = Human \<and> operation = None
          then Inr RequestRecorded
          else if ev_type e = ModelCall \<and> operation = Some (JStr ''fake_provider_chat'')
          then Inr ModelCallSucceeded
          else if ev_type e = Message \<and> actor_kind (ev_actor e) = Model \<and> operation = None
          then Inr FinalResponse
          else Inl UnrecognizedOperation)"

record run_step =
  rs_sequence :: nat
  rs_event :: string
  rs_kind :: step_kind
  rs_type :: event_type
  rs_parents :: "string list"

record run =
  rn_session :: string
  rn_run :: string
  rn_task :: string
  rn_state :: run_state
  rn_pending :: "run_action option"
  rn_steps :: "run_step list"
  rn_context_ref :: "string option"
  rn_final :: "string option"
  rn_model_calls :: nat
  rn_tool_calls :: nat

definition legacy_call :: "event \<Rightarrow> step_kind \<Rightarrow> bool" where
  "legacy_call e kind \<longleftrightarrow>
     kind = ModelCallSucceeded \<and> operation_of e = Some (JStr ''fake_provider_chat'')"

definition identity_of :: "event \<Rightarrow> string \<times> string \<times> string" where
  "identity_of e = (ev_session e, ev_run e, ev_task e)"

text \<open>One round of the loop: the checks on an event after the steps so far.\<close>

definition run_round ::
    "event \<Rightarrow> run_step list \<Rightarrow> string option \<Rightarrow> event \<Rightarrow> run_error + run_step list \<times> string option" where
  "run_round first_event steps ref e =
     (if identity_of e \<noteq> identity_of first_event then Inl MixedIdentity
      else try_bind (step_kind_of e) (\<lambda>kind.
        let legacy = legacy_call e kind in
        guarded
          ([ (ev_type e = event_type_of kind \<or> legacy, WrongEventType) ] @
           (if steps = []
            then [ (kind = RequestRecorded, NotBegunByRequest),
                   (ev_parents e = [], RequestHasParent) ]
            else [ (kind \<in> set (allowed_next (rs_kind (last steps))),
                     InvalidTransition (rs_kind (last steps)) kind),
                   (ev_parents e = [rs_event (last steps)], ParentNotPreceding) ]) @
           (if kind = ContextCompiled \<or> legacy
            then [ (length (ev_artifact_refs e) = 1, ContextReferenceCount) ] else []))
          (Inr (steps @ [\<lparr> rs_sequence = length steps, rs_event = ev_id e, rs_kind = kind,
                   rs_type = ev_type e, rs_parents = ev_parents e \<rparr>],
                if kind = ContextCompiled \<or> legacy then Some (hd (ev_artifact_refs e)) else ref))))"

fun run_loop ::
    "event \<Rightarrow> run_step list \<Rightarrow> string option \<Rightarrow> event list \<Rightarrow> run_error + run_step list \<times> string option" where
  "run_loop first_event steps ref [] = Inr (steps, ref)"
| "run_loop first_event steps ref (e # es) =
     try_bind (run_round first_event steps ref e)
       (\<lambda>(steps', ref'). run_loop first_event steps' ref' es)"

definition state_after :: "step_kind \<Rightarrow> run_state" where
  "state_after last_kind =
     (if last_kind = FinalResponse then Completed
      else if last_kind \<in> {ModelCallFailed, ToolFailed, GrantDenied} then Failed
      else if last_kind = ModelCallInterrupted then Interrupted
      else if last_kind = ToolRequested then AwaitingApproval
      else InProgress)"

definition reconstruct_run :: "event list \<Rightarrow> run_error + run" where
  "reconstruct_run events =
     (case events of
        [] \<Rightarrow> Inl EmptyRun
      | first_event # _ \<Rightarrow>
          try_bind (run_loop first_event [] None events) (\<lambda>(steps, ref).
            let last_kind = rs_kind (last steps) in
            Inr \<lparr> rn_session = ev_session first_event, rn_run = ev_run first_event,
              rn_task = ev_task first_event, rn_state = state_after last_kind,
              rn_pending = pending_action last_kind, rn_steps = steps, rn_context_ref = ref,
              rn_final = (if last_kind = FinalResponse then Some (ev_id (last events)) else None),
              rn_model_calls = length (filter (\<lambda>s. rs_kind s = ModelCallSucceeded) steps),
              rn_tool_calls = length (filter (\<lambda>s. rs_kind s = ToolCallClaimed) steps) \<rparr>))"

section \<open>The state machine of a run\<close>

text \<open>The stages a run may have gone through.\<close>

inductive run_path :: "step_kind list \<Rightarrow> bool" where
  start: "run_path [RequestRecorded]"
| extend: "run_path (ks @ [k]) \<Longrightarrow> k' \<in> set (allowed_next k) \<Longrightarrow> run_path (ks @ [k, k'])"

inductive_cases run_pathE: "run_path ks"

lemma run_path_nonempty: "run_path ks \<Longrightarrow> ks \<noteq> []"
  by (induction rule: run_path.induct) auto

lemma run_path_extend:
  "run_path ks \<Longrightarrow> k' \<in> set (allowed_next (last ks)) \<Longrightarrow> run_path (ks @ [k'])"
  using run_path.extend [of "butlast ks" "last ks" k'] run_path_nonempty [of ks]
  by (metis append_butlast_last_id append.assoc append_Cons append_Nil)

lemma run_path_snocD:
  assumes "run_path (ks @ [k'])" and "ks \<noteq> []"
  shows "run_path ks \<and> k' \<in> set (allowed_next (last ks))"
  using assms(1)
proof (cases rule: run_path.cases)
  case start
  then show ?thesis using assms(2) by (cases ks) auto
next
  case (extend ks' k k2)
  then have "ks = ks' @ [k]" "k' = k2" by (metis append_Cons append_Nil append.assoc append1_eq_conv)+
  then show ?thesis using extend by simp
qed

text \<open>A terminal stage is one with no successor, which is one without a pending action.\<close>

lemma terminal_stage: "allowed_next k = [] \<longleftrightarrow> pending_action k = None"
  by (cases k) simp_all

lemma terminal_state:
  "pending_action k = None \<longleftrightarrow> state_after k \<in> {Completed, Failed, Interrupted}"
  by (cases k) (simp_all add: state_after_def)

text \<open>The path by positions.\<close>

lemma run_path_nth:
  "run_path ks \<Longrightarrow> ks ! 0 = RequestRecorded \<and>
     (\<forall>i. Suc i < length ks \<longrightarrow> ks ! Suc i \<in> set (allowed_next (ks ! i)))"
proof (induction rule: run_path.induct)
  case (extend ks k k')
  then show ?case by (auto simp: nth_append less_Suc_eq split: if_splits)
qed simp

lemma allowed_next_claim: "ToolCallClaimed \<in> set (allowed_next k) \<longleftrightarrow> k = GrantApproved"
  by (cases k) simp_all

lemma allowed_next_grant: "GrantApproved \<in> set (allowed_next k) \<longleftrightarrow> k = ToolRequested"
  by (cases k) simp_all

text \<open>Every claimed tool call is right after an approved grant, which is right after a request.\<close>

lemma run_path_approved:
  assumes "run_path ks" and "i < length ks" and "ks ! i = ToolCallClaimed"
  shows "\<exists>j. i = Suc (Suc j) \<and> ks ! Suc j = GrantApproved \<and> ks ! j = ToolRequested"
proof -
  note path = run_path_nth [OF assms(1)]
  obtain m where m: "i = Suc m" using assms(3) path by (cases i) auto
  then have g: "ks ! m = GrantApproved"
    using path assms(2,3) allowed_next_claim by metis
  obtain j where j: "m = Suc j" using g path by (cases m) auto
  then have "ks ! j = ToolRequested" using path assms(2) m g allowed_next_grant by (metis Suc_lessD)
  with g m j show ?thesis by blast
qed

section \<open>The loop\<close>

definition step_of :: "event \<Rightarrow> run_step \<Rightarrow> bool" where
  "step_of e s \<longleftrightarrow> rs_event s = ev_id e \<and> rs_parents s = ev_parents e \<and> rs_type s = ev_type e \<and>
     step_kind_of e = Inr (rs_kind s)"

text \<open>Sequence numbers count up, and each step's parents are exactly its predecessor.\<close>

fun linked_from :: "nat \<Rightarrow> string list \<Rightarrow> run_step list \<Rightarrow> bool" where
  "linked_from n ps [] \<longleftrightarrow> True"
| "linked_from n ps (s # ss) \<longleftrightarrow>
     rs_sequence s = n \<and> rs_parents s = ps \<and> linked_from (Suc n) [rs_event s] ss"

abbreviation linked :: "run_step list \<Rightarrow> bool" where
  "linked steps \<equiv> linked_from 0 [] steps"

lemma linked_from_snoc:
  "linked_from n ps (ss @ [s]) \<longleftrightarrow> linked_from n ps ss \<and> rs_sequence s = n + length ss \<and>
     rs_parents s = (if ss = [] then ps else [rs_event (last ss)])"
  by (induction n ps ss rule: linked_from.induct) auto

lemma linked_from_nth:
  "linked_from n ps ss \<Longrightarrow> i < length ss \<Longrightarrow>
     rs_parents (ss ! i) = (if i = 0 then ps else [rs_event (ss ! (i - 1))])"
proof (induction n ps ss arbitrary: i rule: linked_from.induct)
  case (2 n ps s ss)
  then show ?case by (cases i; cases "i - 1") auto
qed simp

lemma run_round_Inr:
  assumes "run_round f steps ref e = Inr (steps', ref')"
  obtains s where "steps' = steps @ [s]" "step_of e s" "identity_of e = identity_of f"
    "rs_sequence s = length steps"
    "steps = [] \<longrightarrow> rs_kind s = RequestRecorded \<and> rs_parents s = []"
    "steps \<noteq> [] \<longrightarrow> rs_kind s \<in> set (allowed_next (rs_kind (last steps))) \<and>
       rs_parents s = [rs_event (last steps)]"
proof -
  from assms obtain kind where k: "step_kind_of e = Inr kind" "identity_of e = identity_of f"
    by (auto simp: run_round_def result_simps split: if_splits)
  let ?s = "\<lparr> rs_sequence = length steps, rs_event = ev_id e, rs_kind = kind,
    rs_type = ev_type e, rs_parents = ev_parents e \<rparr>"
  show ?thesis
    by (rule that [of ?s])
      (use assms k in \<open>auto simp: run_round_def step_of_def Let_def guarded_eq_Inr split: if_splits\<close>)
qed

lemma run_loop_append:
  "run_loop f steps ref (es @ fs) =
     try_bind (run_loop f steps ref es) (\<lambda>(steps', ref'). run_loop f steps' ref' fs)"
proof (induction es arbitrary: steps ref)
  case (Cons e es)
  then show ?case by (cases "run_round f steps ref e") auto
qed simp

lemma run_loop_sound:
  assumes "run_loop f steps ref es = Inr (steps', ref')"
    and "steps = [] \<or> run_path (map rs_kind steps)" and "linked steps"
  shows "\<exists>new. steps' = steps @ new \<and> list_all2 step_of es new \<and> linked steps' \<and>
    (steps' = [] \<or> run_path (map rs_kind steps')) \<and> (\<forall>e\<in>set es. identity_of e = identity_of f)"
  using assms
proof (induction es arbitrary: steps ref)
  case Nil
  then show ?case by simp
next
  case (Cons e es)
  from Cons.prems(1) obtain steps1 ref1 where one: "run_round f steps ref e = Inr (steps1, ref1)"
    "run_loop f steps1 ref1 es = Inr (steps', ref')"
    by (auto simp: result_simps)
  from one(1) obtain s where s: "steps1 = steps @ [s]" "step_of e s" "identity_of e = identity_of f"
    "rs_sequence s = length steps"
    "steps = [] \<longrightarrow> rs_kind s = RequestRecorded \<and> rs_parents s = []"
    "steps \<noteq> [] \<longrightarrow> rs_kind s \<in> set (allowed_next (rs_kind (last steps))) \<and>
       rs_parents s = [rs_event (last steps)]" by (rule run_round_Inr)
  have "run_path (map rs_kind steps1)"
  proof (cases "steps = []")
    case True
    then show ?thesis using s(1,5) by (simp add: run_path.start)
  next
    case False
    then show ?thesis
      using s(1,6) Cons.prems(2) run_path_extend [of "map rs_kind steps" "rs_kind s"]
      by (simp add: last_map)
  qed
  moreover have "linked steps1" using s(1,4-6) Cons.prems(3) by (auto simp: linked_from_snoc)
  ultimately obtain new where "steps' = steps1 @ new" "list_all2 step_of es new" "linked steps'"
    "steps' = [] \<or> run_path (map rs_kind steps')" "\<forall>e\<in>set es. identity_of e = identity_of f"
    using Cons.IH [OF one(2)] by auto
  then show ?case using s(1-3) by (intro exI [of _ "s # new"]) simp
qed

lemma reconstruct_loop:
  assumes "reconstruct_run es = Inr r"
  obtains ref where "es \<noteq> []" "run_loop (hd es) [] None es = Inr (rn_steps r, ref)"
    "rn_context_ref r = ref"
    "rn_state r = state_after (rs_kind (last (rn_steps r)))"
    "rn_pending r = pending_action (rs_kind (last (rn_steps r)))"
    "rn_tool_calls r = length (filter (\<lambda>s. rs_kind s = ToolCallClaimed) (rn_steps r))"
    "rn_model_calls r = length (filter (\<lambda>s. rs_kind s = ModelCallSucceeded) (rn_steps r))"
  using assms by (cases es) (auto simp: reconstruct_run_def result_simps Let_def)

lemma reconstruct_sound:
  assumes "reconstruct_run es = Inr r"
  shows "es \<noteq> [] \<and> list_all2 step_of es (rn_steps r) \<and> linked (rn_steps r) \<and>
    run_path (map rs_kind (rn_steps r)) \<and> (\<forall>e\<in>set es. identity_of e = identity_of (hd es))"
proof -
  from assms obtain ref where "es \<noteq> []" "run_loop (hd es) [] None es = Inr (rn_steps r, ref)"
    by (rule reconstruct_loop)
  with run_loop_sound [of "hd es" "[]" None es "rn_steps r" ref] show ?thesis
    by (cases es) auto
qed

lemma reconstruct_nth:
  assumes "reconstruct_run es = Inr r" and "i < length es"
  shows "i < length (rn_steps r)" "step_kind_of (es ! i) = Inr (map rs_kind (rn_steps r) ! i)"
    "ev_parents (es ! i) = (if i = 0 then [] else [ev_id (es ! (i - 1))])"
    "rs_event (rn_steps r ! i) = ev_id (es ! i)"
proof -
  have all2: "list_all2 step_of es (rn_steps r)" and link: "linked (rn_steps r)"
    using reconstruct_sound [OF assms(1)] by auto
  show len: "i < length (rn_steps r)" using all2 assms(2) by (simp add: list_all2_lengthD)
  have at: "step_of (es ! m) (rn_steps r ! m)" if "m < length es" for m
    using list_all2_nthD [OF all2 that] .
  show "step_kind_of (es ! i) = Inr (map rs_kind (rn_steps r) ! i)"
    "rs_event (rn_steps r ! i) = ev_id (es ! i)"
    using at [OF assms(2)] len by (simp_all add: step_of_def)
  show "ev_parents (es ! i) = (if i = 0 then [] else [ev_id (es ! (i - 1))])"
    using linked_from_nth [OF link len] at [OF assms(2)] at [of "i - 1"] assms(2)
    by (cases i) (auto simp: step_of_def)
qed

lemma reconstruct_last:
  assumes "reconstruct_run es = Inr r"
  shows "rn_state r = state_after (last (map rs_kind (rn_steps r)))"
    "rn_pending r = pending_action (last (map rs_kind (rn_steps r)))"
proof -
  have "rn_steps r \<noteq> []" using reconstruct_sound [OF assms] run_path_nonempty by force
  then show "rn_state r = state_after (last (map rs_kind (rn_steps r)))"
    "rn_pending r = pending_action (last (map rs_kind (rn_steps r)))"
    using assms by (elim reconstruct_loop; simp add: last_map)+
qed

lemma reconstruct_prefix:
  assumes "reconstruct_run (es @ fs) = Inr r" and "es \<noteq> []"
  shows "\<exists>r'. reconstruct_run es = Inr r' \<and> rn_steps r' = take (length es) (rn_steps r)"
proof -
  from assms(1) obtain ref where "run_loop (hd (es @ fs)) [] None (es @ fs) = Inr (rn_steps r, ref)"
    by (rule reconstruct_loop)
  then obtain steps1 ref1 where one: "run_loop (hd es) [] None es = Inr (steps1, ref1)"
    "run_loop (hd es) steps1 ref1 fs = Inr (rn_steps r, ref)"
    using assms(2) by (auto simp: run_loop_append result_simps)
  from run_loop_sound [OF one(1)] have l1: "list_all2 step_of es steps1" "linked steps1"
    "steps1 = [] \<or> run_path (map rs_kind steps1)" by simp_all
  from run_loop_sound [OF one(2) l1(3,2)] have "take (length steps1) (rn_steps r) = steps1" by auto
  moreover have "length steps1 = length es" using l1(1) by (simp add: list_all2_lengthD)
  moreover have "\<exists>r'. reconstruct_run es = Inr r' \<and> rn_steps r' = steps1"
    using one(1) assms(2) by (cases es) (simp_all add: reconstruct_run_def Let_def)
  ultimately show ?thesis by metis
qed

section \<open>Properties\<close>

text \<open>
  C13: a reconstructed run is one trajectory of the state machine: its stages start with the
  recorded request and follow the allowed transitions, each event names exactly its
  predecessor as causal parent (the first one none), and all events share one session, run
  and task.
\<close>

theorem reconstruct_follows_state_machine:
  assumes "reconstruct_run es = Inr r"
  shows "run_path (map rs_kind (rn_steps r)) \<and> map rs_event (rn_steps r) = map ev_id es \<and>
    (\<forall>i<length es. step_kind_of (es ! i) = Inr (map rs_kind (rn_steps r) ! i) \<and>
       ev_parents (es ! i) = (if i = 0 then [] else [ev_id (es ! (i - 1))])) \<and>
    (\<forall>e\<in>set es. identity_of e = identity_of (hd es)) \<and>
    rn_state r = state_after (last (map rs_kind (rn_steps r)))"
proof -
  note sound = reconstruct_sound [OF assms]
  have "map rs_event (rn_steps r) = map ev_id es"
    by (rule nth_equalityI)
      (use sound list_all2_lengthD [of step_of es "rn_steps r"] reconstruct_nth(4) [OF assms] in auto)
  then show ?thesis using sound reconstruct_nth(2,3) [OF assms] reconstruct_last(1) [OF assms] by blast
qed

text \<open>
  C24: no tool runs without approval: in a reconstructed run every claimed tool call is
  preceded immediately by an approved grant and that by the tool request, each the causal
  parent of the next.
\<close>

theorem tool_call_needs_approval:
  assumes "reconstruct_run es = Inr r" and "i < length es"
    and "step_kind_of (es ! i) = Inr ToolCallClaimed"
  shows "\<exists>j. i = Suc (Suc j) \<and> step_kind_of (es ! Suc j) = Inr GrantApproved \<and>
    step_kind_of (es ! j) = Inr ToolRequested \<and> ev_parents (es ! i) = [ev_id (es ! Suc j)] \<and>
    ev_parents (es ! Suc j) = [ev_id (es ! j)]"
proof -
  note at = reconstruct_nth [OF assms(1)]
  have "map rs_kind (rn_steps r) ! i = ToolCallClaimed" using at(2) [OF assms(2)] assms(3) by simp
  then obtain j where j: "i = Suc (Suc j)" "map rs_kind (rn_steps r) ! Suc j = GrantApproved"
    "map rs_kind (rn_steps r) ! j = ToolRequested"
    using run_path_approved [of "map rs_kind (rn_steps r)" i] reconstruct_sound [OF assms(1)]
      at(1) [OF assms(2)] by auto
  have lt: "Suc j < length es" "j < length es" using assms(2) j(1) by simp_all
  show ?thesis
    using j at(2) [OF lt(1)] at(2) [OF lt(2)] at(3) [OF assms(2)] at(3) [OF lt(1)] by simp
qed

text \<open>
  Every non-empty prefix of a run that reconstructs is itself a run that reconstructs,
  with the same first stages: a crash between two appends leaves a valid run.
\<close>

theorem run_prefix_reconstructs:
  assumes "reconstruct_run (es @ fs) = Inr r" and "es \<noteq> []"
  shows "\<exists>r'. reconstruct_run es = Inr r' \<and> rn_steps r' = take (length es) (rn_steps r)"
  by (rule reconstruct_prefix [OF assms])

text \<open>
  C40: a run without a pending action is finished: it is completed, failed or interrupted,
  and no further event is accepted.  In every other state some stage may follow.
\<close>

theorem finished_run_is_final:
  assumes "reconstruct_run es = Inr r"
  shows "(rn_pending r = None \<longleftrightarrow> rn_state r \<in> {Completed, Failed, Interrupted}) \<and>
    (rn_pending r = None \<longrightarrow> (\<forall>e fs. \<exists>x. reconstruct_run (es @ e # fs) = Inl x)) \<and>
    (rn_pending r \<noteq> None \<longrightarrow> (\<exists>k. run_path (map rs_kind (rn_steps r) @ [k])))"
proof -
  let ?ks = "map rs_kind (rn_steps r)"
  note sound = reconstruct_sound [OF assms] and last = reconstruct_last [OF assms]
  have "\<exists>x. reconstruct_run (es @ e # fs) = Inl x" if "rn_pending r = None" for e fs
  proof (cases "reconstruct_run (es @ e # fs)")
    case (Inr r2)
    obtain r3 where r3: "reconstruct_run (es @ [e]) = Inr r3"
      using reconstruct_prefix [of "es @ [e]" fs r2] Inr by auto
    obtain r' where "reconstruct_run es = Inr r'" "rn_steps r' = take (length es) (rn_steps r3)"
      using reconstruct_prefix [OF r3] sound by auto
    then have "rn_steps r = take (length es) (rn_steps r3)" using assms by simp
    moreover have "length (rn_steps r3) = Suc (length es)"
      using reconstruct_sound [OF r3] by (auto dest: list_all2_lengthD)
    ultimately have "map rs_kind (rn_steps r3) = ?ks @ [rs_kind (last (rn_steps r3))]"
      by (cases "rn_steps r3" rule: rev_cases) auto
    then have "run_path (?ks @ [rs_kind (last (rn_steps r3))])"
      using reconstruct_sound [OF r3] by simp
    then have "allowed_next (last ?ks) \<noteq> []"
      using run_path_snocD run_path_nonempty sound by (metis empty_iff list.set(1))
    then show ?thesis using that last(2) terminal_stage by metis
  qed blast
  moreover have "\<exists>k. run_path (?ks @ [k])" if "rn_pending r \<noteq> None"
  proof -
    have "allowed_next (last ?ks) \<noteq> []" using that last(2) terminal_stage by metis
    then obtain k where "k \<in> set (allowed_next (last ?ks))" by (cases "allowed_next (last ?ks)") auto
    then show ?thesis using run_path_extend sound by blast
  qed
  ultimately show ?thesis using last terminal_state by metis
qed

section \<open>The properties on a concrete run\<close>

definition sample_stage :: "char \<Rightarrow> char \<Rightarrow> step_kind \<Rightarrow> string list \<Rightarrow> event" where
  "sample_stage c p k refs = (sample_message c [sample_id ''evt'' p] ''x'')\<lparr>
     ev_type := event_type_of k, ev_artifact_refs := refs,
     ev_payload := jobj [(''operation'', JStr (step_kind_value k))]\<rparr>"

definition sample_run :: "event list" where
  "sample_run =
     [ sample_message (CHR ''1'') [] ''read it'',
       sample_stage (CHR ''2'') (CHR ''1'') ContextCompiled [sample_digest],
       sample_stage (CHR ''3'') (CHR ''2'') ModelCallPending [],
       sample_stage (CHR ''4'') (CHR ''3'') ModelCallSucceeded [],
       sample_stage (CHR ''5'') (CHR ''4'') ToolRequested [],
       sample_stage (CHR ''6'') (CHR ''5'') GrantApproved [],
       sample_stage (CHR ''7'') (CHR ''6'') ToolCallClaimed [] ]"

definition denied_run :: "event list" where
  "denied_run = take 5 sample_run @ [sample_stage (CHR ''6'') (CHR ''5'') GrantDenied []]"

lemma find_kind: "find (\<lambda>k'. step_kind_value k' = step_kind_value k) all_kinds = Some k"
  by (cases k) (simp_all add: all_kinds_def)

lemma sample_stage_simps [simp]:
  "step_kind_of (sample_stage c p k refs) = Inr k"
  "operation_of (sample_stage c p k refs) = Some (JStr (step_kind_value k))"
  "ev_id (sample_stage c p k refs) = sample_id ''evt'' c"
  "ev_parents (sample_stage c p k refs) = [sample_id ''evt'' p]"
  "ev_type (sample_stage c p k refs) = event_type_of k"
  "ev_artifact_refs (sample_stage c p k refs) = refs"
  "identity_of (sample_stage c p k refs) = identity_of (sample_message (CHR ''1'') [] ''read it'')"
  by (simp_all add: step_kind_of_def operation_of_def sample_stage_def find_kind identity_of_def
      sample_message_def Let_def)

lemma sample_request_kind [simp]:
  "step_kind_of (sample_message c ps t) = Inr RequestRecorded"
  "ev_type (sample_message c ps t) = Message"
  by (simp_all add: step_kind_of_def operation_of_def sample_message_def sample_actor_def)

lemma sample_run_reconstructs:
  "\<exists>r. reconstruct_run sample_run = Inr r \<and> rn_pending r = Some ToolResult \<and> rn_state r = InProgress"
  by (simp add: sample_run_def reconstruct_run_def run_round_def legacy_call_def guard_simps Let_def
      state_after_def)

lemma denied_run_reconstructs: "\<exists>r. reconstruct_run denied_run = Inr r \<and> rn_pending r = None"
  by (simp add: denied_run_def sample_run_def reconstruct_run_def run_round_def legacy_call_def guard_simps Let_def
      state_after_def)

theorem reconstruct_follows_state_machine_witness:
  "\<exists>r. reconstruct_run sample_run = Inr r \<and> run_path (map rs_kind (rn_steps r))"
proof -
  obtain r where "reconstruct_run sample_run = Inr r" using sample_run_reconstructs by blast
  with reconstruct_follows_state_machine [OF this] show ?thesis by blast
qed

theorem tool_call_needs_approval_witness:
  "step_kind_of (sample_run ! 6) = Inr ToolCallClaimed \<and>
   (\<exists>j. step_kind_of (sample_run ! Suc j) = Inr GrantApproved \<and> 6 = Suc (Suc j))"
proof -
  obtain r where r: "reconstruct_run sample_run = Inr r" using sample_run_reconstructs by blast
  have claimed: "6 < length sample_run" "step_kind_of (sample_run ! 6) = Inr ToolCallClaimed"
    by (simp_all add: sample_run_def)
  from tool_call_needs_approval [OF r claimed] claimed show ?thesis by blast
qed

theorem run_prefix_reconstructs_witness:
  "\<exists>r. reconstruct_run (take 3 sample_run) = Inr r \<and> length (rn_steps r) = 3"
proof -
  obtain r where r: "reconstruct_run (take 3 sample_run @ drop 3 sample_run) = Inr r"
    using sample_run_reconstructs by auto
  have "length (rn_steps r) = 7"
    using reconstruct_sound [of sample_run r] r by (auto dest!: list_all2_lengthD simp: sample_run_def)
  moreover have "take 3 sample_run \<noteq> []" by (simp add: sample_run_def)
  ultimately show ?thesis
    using run_prefix_reconstructs [OF r] by (auto simp: sample_run_def)
qed

theorem finished_run_is_final_witness:
  "(\<exists>r. reconstruct_run denied_run = Inr r \<and> rn_state r \<in> {Completed, Failed, Interrupted} \<and>
     (\<forall>e fs. \<exists>x. reconstruct_run (denied_run @ e # fs) = Inl x)) \<and>
   (\<exists>r k. reconstruct_run sample_run = Inr r \<and> run_path (map rs_kind (rn_steps r) @ [k]))"
proof
  obtain r where "reconstruct_run denied_run = Inr r" "rn_pending r = None"
    using denied_run_reconstructs by blast
  with finished_run_is_final [OF this(1)]
  show "\<exists>r. reconstruct_run denied_run = Inr r \<and> rn_state r \<in> {Completed, Failed, Interrupted} \<and>
     (\<forall>e fs. \<exists>x. reconstruct_run (denied_run @ e # fs) = Inl x)" by blast
next
  obtain r where "reconstruct_run sample_run = Inr r" "rn_pending r = Some ToolResult"
    using sample_run_reconstructs by blast
  with finished_run_is_final [OF this(1)]
  show "\<exists>r k. reconstruct_run sample_run = Inr r \<and> run_path (map rs_kind (rn_steps r) @ [k])" by auto
qed

end
