(* ===== verification/Capabilities.thy ===== *)
theory Capabilities
  imports Events
begin

text \<open>
  \<open>domain/capabilities.py\<close>: portable targets, file resources, constraints and grants, with the
  validators of their classes.
\<close>

definition target_edge_chars :: string where
  "target_edge_chars = alnum_chars @ ''_-''"

definition target_chars :: string where
  "target_chars = alnum_chars @ ''._-''"

text \<open>One segment: \<open>[A-Za-z0-9_-](?:[A-Za-z0-9._-]*[A-Za-z0-9_-])?\<close>\<close>

definition is_target_segment :: "string \<Rightarrow> bool" where
  "is_target_segment s \<longleftrightarrow>
     s \<noteq> [] \<and> hd s \<in> set target_edge_chars \<and> last s \<in> set target_edge_chars \<and> all_in target_chars s"

definition is_portable_target :: "string \<Rightarrow> bool" where
  "is_portable_target t \<longleftrightarrow>
     length t \<le> 4096 \<and> list_all is_target_segment (split_on (CHR ''/'') t)"

definition upcase_char :: "char \<Rightarrow> char" where
  "upcase_char c = (let n = of_char c :: nat in
     if 97 \<le> n \<and> n \<le> 122 then char_of (n - 32) else c)"

definition is_device_stem :: "string \<Rightarrow> bool" where
  "is_device_stem stem \<longleftrightarrow>
     stem \<in> set [''CON'', ''PRN'', ''AUX'', ''NUL''] \<or>
     (length stem = 4 \<and> (take 3 stem = ''COM'' \<or> take 3 stem = ''LPT'') \<and>
      last stem \<in> set ''123456789'')"

definition names_device :: "string \<Rightarrow> bool" where
  "names_device t \<longleftrightarrow>
     list_ex (\<lambda>segment. is_device_stem (map upcase_char (takeWhile (\<lambda>c. c \<noteq> CHR ''.'') segment)))
       (split_on (CHR ''/'') t)"

definition is_scope_id :: "string \<Rightarrow> bool" where
  "is_scope_id s \<longleftrightarrow> is_slug lower_chars actor_tail_chars 2 63 s"

text \<open>\<open>FileResource\<close>\<close>

definition valid_resource :: "string \<Rightarrow> string \<Rightarrow> bool" where
  "valid_resource scope_id target \<longleftrightarrow>
     is_scope_id scope_id \<and> is_portable_target target \<and> \<not> names_device target"

text \<open>\<open>^\.[A-Za-z0-9]+$\<close>\<close>

definition is_extension :: "string \<Rightarrow> bool" where
  "is_extension s \<longleftrightarrow> (case s of [] \<Rightarrow> False | c # cs \<Rightarrow> c = CHR ''.'' \<and> cs \<noteq> [] \<and> all_in alnum_chars cs)"

definition max_read_bytes :: int where
  "max_read_bytes = 1048576"

text \<open>\<open>CapabilityConstraints\<close>\<close>

definition valid_constraints :: "int \<Rightarrow> string list \<Rightarrow> bool \<Rightarrow> bool" where
  "valid_constraints max_bytes extensions network \<longleftrightarrow>
     1 \<le> max_bytes \<and> max_bytes \<le> max_read_bytes \<and> extensions \<noteq> [] \<and>
     list_all is_extension extensions \<and> \<not> network \<and> distinct extensions"

record grant =
  g_id :: string
  g_subject :: string
  g_capability :: string
  g_scope :: string
  g_target :: string
  g_issued_at :: int
  g_valid_seconds :: int
  g_issued_by :: string
  g_authorization :: string
  g_max_uses :: int
  g_max_bytes :: int
  g_extensions :: "string list"
  g_network :: bool

definition valid_grant :: "grant \<Rightarrow> bool" where
  "valid_grant g \<longleftrightarrow>
     tagged_id ''grt'' (g_id g) \<and> is_actor_id (g_subject g) \<and> g_capability g = ''file.read'' \<and>
     valid_resource (g_scope g) (g_target g) \<and> 1 \<le> g_valid_seconds g \<and> g_valid_seconds g \<le> 300 \<and>
     is_actor_id (g_issued_by g) \<and> tagged_id ''evt'' (g_authorization g) \<and> g_max_uses g = 1 \<and>
     valid_constraints (g_max_bytes g) (g_extensions g) (g_network g)"

text \<open>
  A portable target has no empty, dot or dot-dot segment, so joining it below a root
  never climbs: its segments are proper names.
\<close>

lemma target_segments:
  assumes "is_portable_target t" and "s \<in> set (split_on (CHR ''/'') t)"
  shows "s \<noteq> [] \<and> s \<noteq> ''.'' \<and> s \<noteq> ''..'' \<and> CHR ''/'' \<notin> set s \<and> CHR 0x5C \<notin> set s \<and> CHR '':'' \<notin> set s"
proof -
  have seg: "is_target_segment s" using assms by (simp add: is_portable_target_def list_all_iff)
  have dot: "CHR ''.'' \<notin> set target_edge_chars"
    by (simp add: target_edge_chars_def alnum_chars_def upper_chars_def lower_chars_def digit_chars_def)
  have bad: "CHR 0x5C \<notin> set target_chars" "CHR '':'' \<notin> set target_chars" "CHR ''/'' \<notin> set target_chars"
    by (simp_all add: target_chars_def alnum_chars_def upper_chars_def lower_chars_def digit_chars_def)
  show ?thesis using seg dot bad by (auto simp: is_target_segment_def all_in_set)
qed

end
