(* ===== verification/Utf8.thy ===== *)
theory Utf8
  imports Main
begin

text \<open>
  Strict UTF-8 decoding as \<open>bytes.decode("utf-8", errors="strict")\<close> performs it in the
  capability broker and the note indexer, with the encoding it inverts.  Bytes and code
  points are natural numbers.
\<close>

definition continuation :: "nat \<Rightarrow> bool" where
  "continuation b \<longleftrightarrow> 128 \<le> b \<and> b < 192"

text \<open>A code point that UTF-8 can carry: no surrogate, at most U+10FFFF.\<close>

definition scalar_value :: "nat \<Rightarrow> bool" where
  "scalar_value cp \<longleftrightarrow> cp < 55296 \<or> (57344 \<le> cp \<and> cp < 1114112)"

definition encode_point :: "nat \<Rightarrow> nat list" where
  "encode_point cp =
     (if cp < 128 then [cp]
      else if cp < 2048 then [192 + cp div 64, 128 + cp mod 64]
      else if cp < 65536 then [224 + cp div 4096, 128 + cp div 64 mod 64, 128 + cp mod 64]
      else [240 + cp div 262144, 128 + cp div 4096 mod 64, 128 + cp div 64 mod 64, 128 + cp mod 64])"

definition encode_utf8 :: "nat list \<Rightarrow> nat list" where
  "encode_utf8 cps = concat (map encode_point cps)"

text \<open>The first code point of a byte sequence and the bytes after it.\<close>

fun decode_point :: "nat list \<Rightarrow> (nat \<times> nat list) option" where
  "decode_point [] = None"
| "decode_point (b0 # rest) =
     (if b0 < 128 then Some (b0, rest)
      else if 194 \<le> b0 \<and> b0 \<le> 223 then
        (case rest of
           b1 # r \<Rightarrow>
             if continuation b1 then Some ((b0 - 192) * 64 + (b1 - 128), r) else None
         | _ \<Rightarrow> None)
      else if 224 \<le> b0 \<and> b0 \<le> 239 then
        (case rest of
           b1 # b2 # r \<Rightarrow>
             if continuation b1 \<and> continuation b2 \<and> (b0 = 224 \<longrightarrow> 160 \<le> b1) \<and>
                (b0 = 237 \<longrightarrow> b1 < 160)
             then Some ((b0 - 224) * 4096 + (b1 - 128) * 64 + (b2 - 128), r) else None
         | _ \<Rightarrow> None)
      else if 240 \<le> b0 \<and> b0 \<le> 244 then
        (case rest of
           b1 # b2 # b3 # r \<Rightarrow>
             if continuation b1 \<and> continuation b2 \<and> continuation b3 \<and> (b0 = 240 \<longrightarrow> 144 \<le> b1) \<and>
                (b0 = 244 \<longrightarrow> b1 < 144)
             then Some ((b0 - 240) * 262144 + (b1 - 128) * 4096 + (b2 - 128) * 64 + (b3 - 128), r)
             else None
         | _ \<Rightarrow> None)
      else None)"

lemma decode_point_shorter: "decode_point bs = Some (cp, rest) \<Longrightarrow> length rest < length bs"
  by (cases bs) (auto split: if_splits list.splits)

function decode_utf8 :: "nat list \<Rightarrow> nat list option" where
  "decode_utf8 bs =
     (if bs = [] then Some []
      else case decode_point bs of
        None \<Rightarrow> None
      | Some (cp, rest) \<Rightarrow> map_option ((#) cp) (decode_utf8 rest))"
  by pat_completeness auto
termination
  by (relation "measure length") (auto dest: decode_point_shorter)

declare decode_utf8.simps [simp del]

lemma decode_utf8_Nil [simp]: "decode_utf8 [] = Some []"
  by (simp add: decode_utf8.simps)

lemma decode_utf8_step:
  "decode_point bs = Some (cp, rest) \<Longrightarrow> decode_utf8 bs = map_option ((#) cp) (decode_utf8 rest)"
  by (cases bs) (simp_all add: decode_utf8.simps)

section \<open>Decoding inverts encoding\<close>

lemma shift6:
  fixes n z :: nat
  assumes "z < 64"
  shows "(n * 64 + z) div 64 = n" "(n * 64 + z) mod 64 = z"
  using assms by simp_all

lemma div_4096: "(n::nat) div 4096 = n div 64 div 64" and div_262144: "n div 262144 = n div 64 div 64 div 64"
  by (simp_all add: div_mult2_eq [symmetric])

lemma base64_digits:
  fixes x y z w :: nat
  assumes "y < 64" "z < 64" "w < 64"
  shows "(x * 64 + y) div 64 = x" "(x * 64 + y) mod 64 = y"
    "(x * 4096 + y * 64 + z) div 4096 = x" "(x * 4096 + y * 64 + z) div 64 mod 64 = y"
    "(x * 4096 + y * 64 + z) mod 64 = z"
    "(x * 262144 + y * 4096 + z * 64 + w) div 262144 = x"
    "(x * 262144 + y * 4096 + z * 64 + w) div 4096 mod 64 = y"
    "(x * 262144 + y * 4096 + z * 64 + w) div 64 mod 64 = z"
    "(x * 262144 + y * 4096 + z * 64 + w) mod 64 = w"
proof -
  have n: "x * 4096 + y * 64 + z = (x * 64 + y) * 64 + z"
    "x * 262144 + y * 4096 + z * 64 + w = ((x * 64 + y) * 64 + z) * 64 + w" by simp_all
  note s = shift6 [OF assms(1)] shift6 [OF assms(2)] shift6 [OF assms(3)]
  show "(x * 64 + y) div 64 = x" "(x * 64 + y) mod 64 = y" by (rule s)+
  show "(x * 4096 + y * 64 + z) div 4096 = x" "(x * 4096 + y * 64 + z) div 64 mod 64 = y"
    "(x * 4096 + y * 64 + z) mod 64 = z"
    unfolding n div_4096 by (simp_all only: s)
  show "(x * 262144 + y * 4096 + z * 64 + w) div 262144 = x"
    "(x * 262144 + y * 4096 + z * 64 + w) div 4096 mod 64 = y"
    "(x * 262144 + y * 4096 + z * 64 + w) div 64 mod 64 = z"
    "(x * 262144 + y * 4096 + z * 64 + w) mod 64 = w"
    unfolding n div_4096 div_262144 by (simp_all only: s)
qed

lemma base64_value:
  fixes cp :: nat
  shows "cp div 64 * 64 + cp mod 64 = cp"
    "cp div 4096 * 4096 + cp div 64 mod 64 * 64 + cp mod 64 = cp"
    "cp div 262144 * 262144 + cp div 4096 mod 64 * 4096 + cp div 64 mod 64 * 64 + cp mod 64 = cp"
proof -
  have d: "n div 64 * 64 + n mod 64 = n" for n :: nat by simp
  note d1 = d [of cp] and d2 = d [of "cp div 64"] and d3 = d [of "cp div 64 div 64"]
  show "cp div 64 * 64 + cp mod 64 = cp" by (rule d1)
  show "cp div 4096 * 4096 + cp div 64 mod 64 * 64 + cp mod 64 = cp"
    unfolding div_4096 using d1 d2 by linarith
  show "cp div 262144 * 262144 + cp div 4096 mod 64 * 4096 + cp div 64 mod 64 * 64 + cp mod 64 = cp"
    unfolding div_4096 div_262144 using d1 d2 d3 by linarith
qed

lemma continuation_iff: "continuation b \<longleftrightarrow> (\<exists>y<64. b = 128 + y)"
  unfolding continuation_def by presburger

lemma decode_encode_point:
  assumes "scalar_value cp"
  shows "decode_point (encode_point cp @ rest) = Some (cp, rest)"
proof -
  have "cp < 1114112" using assms by (auto simp: scalar_value_def)
  then have "cp < 128 \<or> 128 \<le> cp \<and> cp < 2048 \<or> 2048 \<le> cp \<and> cp < 65536 \<or>
      65536 \<le> cp \<and> cp < 1114112" by linarith
  then consider "cp < 128" | "128 \<le> cp" "cp < 2048" | "2048 \<le> cp" "cp < 65536" |
      "65536 \<le> cp" "cp < 1114112" by blast
  then show ?thesis
  proof cases
    case 2
    define q r where qr: "q = cp div 64" "r = cp mod 64"
    have v: "q * 64 + r = cp" "r < 64" by (simp_all add: qr)
    have "2 \<le> q" "q \<le> 31" using 2 v by linarith+
    moreover have "encode_point cp = [192 + q, 128 + r]" using 2 by (simp add: encode_point_def qr)
    ultimately show ?thesis using v by (simp add: continuation_def)
  next
    case 3
    define q m r where qmr: "q = cp div 64 div 64" "m = cp div 64 mod 64" "r = cp mod 64"
    have v: "q * 4096 + m * 64 + r = cp" "m < 64" "r < 64"
      using base64_value(2) [of cp] by (simp_all add: qmr div_4096)
    have "q = 0 \<longrightarrow> 32 \<le> m" "q = 13 \<longrightarrow> m < 32" "q \<le> 15"
      using 3 v assms unfolding scalar_value_def by linarith+
    moreover have "encode_point cp = [224 + q, 128 + m, 128 + r]"
      using 3 by (simp add: encode_point_def qmr div_4096)
    ultimately show ?thesis using v by (simp add: continuation_def)
  next
    case 4
    define q m k r where qmr: "q = cp div 64 div 64 div 64" "m = cp div 64 div 64 mod 64"
      "k = cp div 64 mod 64" "r = cp mod 64"
    have v: "q * 262144 + m * 4096 + k * 64 + r = cp" "m < 64" "k < 64" "r < 64"
      using base64_value(3) [of cp] by (simp_all add: qmr div_4096 div_262144)
    have "q = 0 \<longrightarrow> 16 \<le> m" "q = 4 \<longrightarrow> m < 16" "q \<le> 4"
      using 4 v by linarith+
    moreover have "encode_point cp = [240 + q, 128 + m, 128 + k, 128 + r]"
      using 4 by (simp add: encode_point_def qmr div_4096 div_262144)
    ultimately show ?thesis using v by (simp add: continuation_def)
  qed (simp add: encode_point_def)
qed

lemma encode_decode_point:
  assumes "decode_point bs = Some (cp, rest)"
  shows "scalar_value cp \<and> bs = encode_point cp @ rest"
proof -
  obtain b0 bs' where bs: "bs = b0 # bs'" using assms by (cases bs) auto
  have "b0 < 128 \<or> 194 \<le> b0 \<and> b0 \<le> 223 \<or> 224 \<le> b0 \<and> b0 \<le> 239 \<or> 240 \<le> b0 \<and> b0 \<le> 244"
    using assms unfolding bs by (simp only: decode_point.simps split: if_splits) simp_all
  then consider (one) "b0 < 128" | (two) "194 \<le> b0" "b0 \<le> 223" | (three) "224 \<le> b0" "b0 \<le> 239"
    | (four) "240 \<le> b0" "b0 \<le> 244" by blast
  then show ?thesis
  proof cases
    case one
    then show ?thesis using assms bs by (auto simp: encode_point_def scalar_value_def)
  next
    case two
    then obtain b1 where b: "bs' = b1 # rest" "continuation b1" "cp = (b0 - 192) * 64 + (b1 - 128)"
      using assms bs by (auto split: list.splits if_splits)
    then obtain y where y: "y < 64" "b1 = 128 + y" by (auto simp: continuation_iff)
    obtain x where x: "b0 = 192 + x" "2 \<le> x" "x \<le> 31"
      using two le_Suc_ex [of 192 b0] by auto
    have cp: "cp = x * 64 + y" using b(3) x(1) y(2) by simp
    then have "\<not> cp < 128" "cp < 2048" using x y by simp_all
    then show ?thesis using bs b x y cp base64_digits(1,2) [OF y(1), of 0 0 x]
      by (simp add: encode_point_def scalar_value_def)
  next
    case three
    then obtain b1 b2 where b: "bs' = b1 # b2 # rest" "continuation b1" "continuation b2"
      "b0 = 224 \<longrightarrow> 160 \<le> b1" "b0 = 237 \<longrightarrow> b1 < 160"
      "cp = (b0 - 224) * 4096 + (b1 - 128) * 64 + (b2 - 128)"
      using assms bs by (auto split: list.splits if_splits)
    then obtain y z where y: "y < 64" "b1 = 128 + y" "z < 64" "b2 = 128 + z"
      by (auto simp: continuation_iff)
    obtain x where x: "b0 = 224 + x" "x \<le> 15"
      using three le_Suc_ex [of 224 b0] by auto
    have cp: "cp = x * 4096 + y * 64 + z" using b(6) x(1) y by simp
    have edge: "x = 0 \<longrightarrow> 32 \<le> y" "x = 13 \<longrightarrow> y < 32" using b(4,5) x(1) y(2) by auto
    have "\<not> cp < 2048" "cp < 65536"
      using x(2) y(1,3) edge(1) unfolding cp by (cases "x = 0"; simp)+
    moreover have "scalar_value cp"
      using x(2) y(1,3) edge(2) unfolding cp scalar_value_def
      by (cases "x < 13"; cases "x = 13"; simp)
    ultimately have size: "\<not> cp < 2048" "cp < 65536" "scalar_value cp" by simp_all
    show ?thesis using size bs b(1) x y cp base64_digits(3-5) [OF y(1,3), of 0 x]
      by (simp add: encode_point_def)
  next
    case four
    then obtain b1 b2 b3 where b: "bs' = b1 # b2 # b3 # rest" "continuation b1" "continuation b2"
      "continuation b3" "b0 = 240 \<longrightarrow> 144 \<le> b1" "b0 = 244 \<longrightarrow> b1 < 144"
      "cp = (b0 - 240) * 262144 + (b1 - 128) * 4096 + (b2 - 128) * 64 + (b3 - 128)"
      using assms bs by (auto split: list.splits if_splits)
    then obtain y z w where y: "y < 64" "b1 = 128 + y" "z < 64" "b2 = 128 + z" "w < 64" "b3 = 128 + w"
      by (auto simp: continuation_iff)
    obtain x where x: "b0 = 240 + x" "x \<le> 4"
      using four le_Suc_ex [of 240 b0] by auto
    have cp: "cp = x * 262144 + y * 4096 + z * 64 + w" using b(7) x(1) y by simp
    have edge: "x = 0 \<longrightarrow> 16 \<le> y" "x = 4 \<longrightarrow> y < 16" using b(5,6) x(1) y(2) by auto
    have big: "\<not> cp < 65536"
      using x(2) y(1,3,5) edge(1) unfolding cp by (cases "x = 0"; simp)
    moreover have "cp < 1114112"
      using x(2) y(1,3,5) edge(2) unfolding cp by (cases "x = 4"; simp)
    ultimately have size: "\<not> cp < 65536" "scalar_value cp" by (simp_all add: scalar_value_def)
    show ?thesis using size bs b(1) x y cp base64_digits(6-9) [OF y(1,3,5), of x]
      by (simp add: encode_point_def)
  qed
qed

lemma encode_point_nonempty [simp]: "encode_point cp \<noteq> []"
  by (simp add: encode_point_def)

lemma encode_utf8_simps [simp]:
  "encode_utf8 [] = []" "encode_utf8 (cp # cps) = encode_point cp @ encode_utf8 cps"
  by (simp_all add: encode_utf8_def)

lemma decode_encode_utf8: "list_all scalar_value cps \<Longrightarrow> decode_utf8 (encode_utf8 cps) = Some cps"
  by (induction cps) (simp_all add: decode_utf8_step [OF decode_encode_point])

lemma encode_decode_utf8:
  "decode_utf8 bs = Some cps \<Longrightarrow> list_all scalar_value cps \<and> encode_utf8 cps = bs"
proof (induction bs arbitrary: cps rule: decode_utf8.induct)
  case (1 bs)
  show ?case
  proof (cases "bs = []")
    case True
    then show ?thesis using "1.prems" by simp
  next
    case False
    then obtain cp rest where p: "decode_point bs = Some (cp, rest)"
      using "1.prems" by (subst (asm) decode_utf8.simps) (auto split: option.splits)
    then obtain cps' where c: "cps = cp # cps'" "decode_utf8 rest = Some cps'"
      using "1.prems" by (auto simp: decode_utf8_step)
    show ?thesis
      using "1.IH" [OF False p refl c(2)] encode_decode_point [OF p] c(1) by simp
  qed
qed

text \<open>Strict decoding accepts exactly the encodings.\<close>

lemma decode_utf8_iff:
  "decode_utf8 bs = Some cps \<longleftrightarrow> list_all scalar_value cps \<and> bs = encode_utf8 cps"
  using decode_encode_utf8 encode_decode_utf8 by metis

lemma length_decode: "decode_utf8 bs = Some cps \<Longrightarrow> length cps \<le> length bs"
proof -
  have "length cps \<le> length (encode_utf8 cps)"
    by (induction cps) (auto simp: encode_point_def)
  then show "decode_utf8 bs = Some cps \<Longrightarrow> length cps \<le> length bs" by (simp add: decode_utf8_iff)
qed

end
