(* ===== verification/Broker.thy ===== *)
theory Broker
  imports Capabilities Event_Store Utf8
begin

text \<open>
  \<open>capabilities/broker.py\<close> with \<open>FileReadObservation\<close> of \<open>capabilities/contracts.py\<close>: grants bound
  to human approval events, claimed once, and the bounded file read.  The table of grants is
  a list of rows; a document is the grant its JSON validates to, or \<open>None\<close>.  What the
  operating system answers about the selected file is the argument \<open>probe\<close>.  Instants are
  microseconds; a clock that is not timezone-aware is \<open>None\<close>.
\<close>

section \<open>State and errors\<close>

datatype denial =
    AuthorizationInvalid | ScopeUnknown | GrantConflict | InvalidClock | GrantNotFound
  | GrantCorrupt | GrantConsumed | SubjectMismatch | GrantNotYetValid | GrantExpired
  | CapabilityMismatch | NetworkForbidden | ExtensionDenied | ScopeUnavailable
  | FileUnavailable | ScopeEscape | SizeExceeded | FileChanged | EncodingDenied

record grant_row =
  gr_id :: string
  gr_document :: "grant option"
  gr_consumed :: "int option"

section \<open>Registration\<close>

definition authorizes :: "event \<Rightarrow> grant \<Rightarrow> bool" where
  "authorizes e g \<longleftrightarrow>
     ev_id e = g_authorization g \<and> actor_id (ev_actor e) = g_issued_by g \<and>
     actor_kind (ev_actor e) = Human \<and> ev_type e = Approval \<and> ev_trust e = HumanVerified \<and>
     jget (ev_payload e) ''grant_id'' = Some (JStr (g_id g)) \<and>
     jget (ev_payload e) ''decision'' = Some (JStr ''approved'') \<and>
     ev_observed_at e = g_issued_at g"

definition register_grant ::
    "codec \<Rightarrow> string list \<Rightarrow> ledger \<Rightarrow> grant_row list \<Rightarrow> grant \<Rightarrow> (denial + unit) \<times> grant_row list" where
  "register_grant C scopes events rows g =
     (case get_event C events (g_authorization g) of
        Inl _ \<Rightarrow> (Inl AuthorizationInvalid, rows)
      | Inr None \<Rightarrow> (Inl AuthorizationInvalid, rows)
      | Inr (Some e) \<Rightarrow>
          if \<not> authorizes e g then (Inl AuthorizationInvalid, rows)
          else if g_scope g \<notin> set scopes then (Inl ScopeUnknown, rows)
          else (case find (\<lambda>r. gr_id r = g_id g) rows of
              Some r \<Rightarrow>
                if gr_document r \<noteq> Some g then (Inl GrantConflict, rows) else (Inr (), rows)
            | None \<Rightarrow> (Inr (),
                rows @ [\<lparr> gr_id = g_id g, gr_document = Some g, gr_consumed = None \<rparr>])))"

section \<open>Claiming\<close>

definition consume :: "string \<Rightarrow> int \<Rightarrow> grant_row list \<Rightarrow> grant_row list" where
  "consume i now rows =
     map (\<lambda>r. if gr_id r = i \<and> gr_consumed r = None then r\<lparr>gr_consumed := Some now\<rparr> else r) rows"

definition claim_checks ::
    "string list \<Rightarrow> grant_row \<Rightarrow> grant \<Rightarrow> string \<Rightarrow> int \<Rightarrow> (bool \<times> denial) list" where
  "claim_checks scopes row g subject now =
     [ (gr_consumed row = None, GrantConsumed),
       (g_subject g = subject, SubjectMismatch),
       (g_issued_at g \<le> now, GrantNotYetValid),
       (now < g_issued_at g + g_valid_seconds g * 1000000, GrantExpired),
       (g_capability g = ''file.read'' \<and> g_max_uses g = 1, CapabilityMismatch),
       (\<not> g_network g, NetworkForbidden),
       (g_scope g \<in> set scopes, ScopeUnknown),
       (casefold (path_suffix (g_target g)) \<in> set (map casefold (g_extensions g)), ExtensionDenied) ]"

definition claim_grant ::
    "string list \<Rightarrow> grant_row list \<Rightarrow> string \<Rightarrow> string \<Rightarrow> int option
      \<Rightarrow> (denial + grant) \<times> grant_row list" where
  "claim_grant scopes rows grant_id subject clock =
     (case clock of
        None \<Rightarrow> (Inl InvalidClock, rows)
      | Some now \<Rightarrow>
          (case find (\<lambda>r. gr_id r = grant_id) rows of
             None \<Rightarrow> (Inl GrantNotFound, rows)
           | Some row \<Rightarrow>
               (case gr_document row of
                  None \<Rightarrow> (Inl GrantCorrupt, rows)
                | Some g \<Rightarrow>
                    (case first_failure (claim_checks scopes row g subject now) of
                       Some d \<Rightarrow> (Inl d, rows)
                     | None \<Rightarrow> (Inr g, consume (g_id g) now rows)))))"

section \<open>The bounded read\<close>

record file_identity =
  fi_device :: nat
  fi_inode :: nat
  fi_size :: nat
  fi_mtime :: int

text \<open>
  The answers of the operating system: the resolved root and file (\<open>None\<close> for \<open>OSError\<close>), the
  identity before opening, the bytes readable with the descriptor's identity, and the
  identity of the path afterwards.
\<close>

record file_probe =
  fp_root :: "string list option"
  fp_root_is_dir :: bool
  fp_resolved :: "string list option"
  fp_is_file :: bool
  fp_before :: "file_identity option"
  fp_opened :: "(string \<times> file_identity) option"
  fp_after :: "file_identity option"

record observation =
  ob_grant :: string
  ob_scope :: string
  ob_target :: string
  ob_byte_count :: nat
  ob_content_hash :: string
  ob_content :: "nat list"
  ob_trust :: trust_class
  ob_network_used :: bool

definition byte_values :: "string \<Rightarrow> nat list" where
  "byte_values s = map of_char s"

definition is_below :: "string list \<Rightarrow> string list \<Rightarrow> bool" where
  "is_below base path \<longleftrightarrow> take (length base) path = base"

text \<open>The part of \<open>execute_file_read\<close> after the claim.\<close>

definition read_file :: "hash_fn \<Rightarrow> file_probe \<Rightarrow> grant \<Rightarrow> denial + observation" where
  "read_file sha probe g =
     (case fp_root probe of
        None \<Rightarrow> Inl ScopeUnavailable
      | Some base \<Rightarrow>
        if \<not> fp_root_is_dir probe then Inl ScopeUnavailable
        else (case fp_resolved probe of
          None \<Rightarrow> Inl FileUnavailable
        | Some resolved \<Rightarrow>
          if \<not> is_below base resolved then Inl ScopeEscape
          else if \<not> fp_is_file probe then Inl FileUnavailable
          else (case fp_before probe of
            None \<Rightarrow> Inl FileUnavailable
          | Some before \<Rightarrow>
            if int (fi_size before) > g_max_bytes g then Inl SizeExceeded
            else (case fp_opened probe of
              None \<Rightarrow> Inl FileUnavailable
            | Some (stored, descriptor) \<Rightarrow>
              (case fp_after probe of
                 None \<Rightarrow> Inl FileUnavailable
               | Some after_path \<Rightarrow>
                 let content_bytes = take (nat (g_max_bytes g) + 1) stored in
                 if int (length content_bytes) > g_max_bytes g then Inl SizeExceeded
                 else if before \<noteq> descriptor \<or> descriptor \<noteq> after_path then Inl FileChanged
                 else (case decode_utf8 (byte_values content_bytes) of
                   None \<Rightarrow> Inl EncodingDenied
                 | Some content \<Rightarrow> Inr
                     \<lparr> ob_grant = g_id g, ob_scope = g_scope g, ob_target = g_target g,
                       ob_byte_count = length content_bytes,
                       ob_content_hash = digest_ref sha content_bytes, ob_content = content,
                       ob_trust = ExternalUntrusted, ob_network_used = False \<rparr>))))))"

definition execute_file_read ::
    "hash_fn \<Rightarrow> string list \<Rightarrow> (string \<Rightarrow> string \<Rightarrow> file_probe) \<Rightarrow> grant_row list \<Rightarrow> string \<Rightarrow> string
      \<Rightarrow> int option \<Rightarrow> (denial + observation) \<times> grant_row list" where
  "execute_file_read sha scopes probe rows grant_id subject clock =
     (case claim_grant scopes rows grant_id subject clock of
        (Inl d, rows') \<Rightarrow> (Inl d, rows')
      | (Inr g, rows') \<Rightarrow> (read_file sha (probe (g_scope g) (g_target g)) g, rows'))"

section \<open>Reachable broker states\<close>

text \<open>
  The ledger and the table of grants under appends, registrations and executions, each with
  any arguments and any outcome.
\<close>

inductive broker_step ::
    "codec \<Rightarrow> string list \<Rightarrow> ledger \<times> grant_row list \<Rightarrow> ledger \<times> grant_row list \<Rightarrow> bool"
  for C scopes where
  append: "append_many C artifacts l es = (res, l') \<Longrightarrow> broker_step C scopes (l, rows) (l', rows)"
| register: "valid_grant g \<Longrightarrow> register_grant C scopes l rows g = (res, rows') \<Longrightarrow>
    broker_step C scopes (l, rows) (l, rows')"
| execute: "execute_file_read (c_sha C) scopes probe rows i subject clock = (res, rows') \<Longrightarrow>
    broker_step C scopes (l, rows) (l, rows')"

inductive_cases broker_stepE: "broker_step C scopes s s'"

definition broker_ok :: "codec \<Rightarrow> string list \<Rightarrow> ledger \<times> grant_row list \<Rightarrow> bool" where
  "broker_ok C scopes s \<longleftrightarrow>
     ledger_ok C (fst s) \<and> distinct (map gr_id (snd s)) \<and>
     (\<forall>r\<in>set (snd s). \<exists>g e. gr_document r = Some g \<and> valid_grant g \<and> gr_id r = g_id g \<and>
        g_scope g \<in> set scopes \<and>
        get_event C (fst s) (g_authorization g) = Inr (Some e) \<and> authorizes e g)"

lemma get_event_stable:
  assumes "ledger_ok C l" and "append_many C artifacts l es = (res, l')"
    and "get_event C l i = Inr (Some e)"
  shows "get_event C l' i = Inr (Some e)"
proof (cases res)
  case (Inl x)
  then show ?thesis using assms(2,3) ledger.append_rollback by fastforce
next
  case (Inr ids)
  with assms(2) have "append_many C artifacts l es = (Inr ids, l')" by simp
  from append_many_committed [OF assms(1) this] obtain lg lg' new where *:
    "codec_ok C" "log_ok C lg" "log_ok C lg'" "l = log_rows C lg" "l' = log_rows C lg'" "lg' = lg @ new"
    by metis
  show ?thesis
    using assms(3) unfolding *(4,5) get_event_log [OF *(1,2)] get_event_log [OF *(1,3)]
    by (simp add: *(6) find_append)
qed

lemma consume_simps [simp]:
  "map gr_id (consume i now rows) = map gr_id rows"
  "map gr_document (consume i now rows) = map gr_document rows"
  by (induction rows) (auto simp: consume_def)

lemma consume_rows:
  "r \<in> set (consume i now rows) \<Longrightarrow> \<exists>r0\<in>set rows. gr_id r = gr_id r0 \<and> gr_document r = gr_document r0"
  by (auto simp: consume_def)

lemma claim_grant_cases:
  assumes "claim_grant scopes rows i subject clock = (res, rows')"
  obtains (denied) d where "res = Inl d" "rows' = rows"
  | (claimed) now row g where "clock = Some now" "find (\<lambda>r. gr_id r = i) rows = Some row"
      "gr_document row = Some g" "res = Inr g" "rows' = consume (g_id g) now rows"
      "list_all fst (claim_checks scopes row g subject now)"
  using assms
  by (auto simp: claim_grant_def split: option.splits)

lemma execute_rows:
  assumes "execute_file_read sha scopes probe rows i subject clock = (res, rows')"
  shows "\<exists>res'. claim_grant scopes rows i subject clock = (res', rows')"
  using assms by (auto simp: execute_file_read_def split: prod.splits sum.splits)

lemma broker_step_ok: "broker_step C scopes s s' \<Longrightarrow> broker_ok C scopes s \<Longrightarrow> broker_ok C scopes s'"
proof (induction rule: broker_step.induct)
  case (append artifacts l es res l' rows)
  then have "ledger_ok C l'" by (auto simp: broker_ok_def intro: append_many_ok)
  moreover have "get_event C l' j = Inr (Some e)" if "get_event C l j = Inr (Some e)" for j e
    using get_event_stable [OF _ append(1) that] append(2) by (simp add: broker_ok_def)
  ultimately show ?case using append(2) unfolding broker_ok_def by fastforce
next
  case (register g l rows res rows')
  then show ?case
    by (auto simp: broker_ok_def register_grant_def find_None_iff_all split: if_splits option.splits sum.splits)
      blast
next
  case (execute probe rows i subject clock res rows' l)
  from execute_rows [OF execute(1)] obtain res' where
    "claim_grant scopes rows i subject clock = (res', rows')" by blast
  then show ?case
  proof (cases rule: claim_grant_cases)
    case (claimed now row g)
    have "\<exists>g' e. gr_document r = Some g' \<and> valid_grant g' \<and> gr_id r = g_id g' \<and>
        g_scope g' \<in> set scopes \<and>
        get_event C l (g_authorization g') = Inr (Some e) \<and> authorizes e g'" if "r \<in> set rows'" for r
    proof -
      from that claimed(5) obtain r0 where "r0 \<in> set rows" "gr_id r = gr_id r0"
        "gr_document r = gr_document r0" using consume_rows by blast
      then show ?thesis using execute(2) by (simp add: broker_ok_def)
    qed
    then show ?thesis using execute(2) claimed(5) by (simp add: broker_ok_def)
  qed (use execute in simp)
qed

section \<open>Consumption\<close>

lemma find_consume:
  "find (\<lambda>r. gr_id r = i) (consume j now rows) =
     map_option (\<lambda>r. if gr_id r = j \<and> gr_consumed r = None then r\<lparr>gr_consumed := Some now\<rparr> else r)
       (find (\<lambda>r. gr_id r = i) rows)"
  by (induction rows) (auto simp: consume_def)

text \<open>A consumed row stays consumed whatever happens next.\<close>

definition consumed_row :: "string \<Rightarrow> grant_row list \<Rightarrow> bool" where
  "consumed_row i rows \<longleftrightarrow> (\<exists>r. find (\<lambda>r. gr_id r = i) rows = Some r \<and> gr_document r \<noteq> None \<and>
     gr_consumed r \<noteq> None)"

lemma consumed_row_consume:
  assumes "consumed_row i rows"
  shows "consumed_row i (consume j now rows)"
proof -
  from assms obtain r where "find (\<lambda>r. gr_id r = i) rows = Some r" "gr_document r \<noteq> None"
    "gr_consumed r \<noteq> None" by (auto simp: consumed_row_def)
  then show ?thesis unfolding consumed_row_def find_consume by (intro exI [of _ r]) auto
qed

lemma broker_step_consumed:
  "broker_step C scopes s s' \<Longrightarrow> consumed_row i (snd s) \<Longrightarrow> consumed_row i (snd s')"
proof (induction rule: broker_step.induct)
  case (register g l rows res rows')
  then show ?case
    by (auto simp: register_grant_def consumed_row_def find_append
        split: if_splits option.splits sum.splits)
next
  case (execute probe rows j subject clock res rows' l)
  from execute_rows [OF execute(1)] obtain res' where
    "claim_grant scopes rows j subject clock = (res', rows')" by blast
  then show ?case
    by (cases rule: claim_grant_cases) (use execute(2) consumed_row_consume in auto)
qed simp

lemma broker_steps_consumed:
  "(broker_step C scopes)\<^sup>*\<^sup>* s s' \<Longrightarrow> consumed_row i (snd s) \<Longrightarrow> consumed_row i (snd s')"
  by (induction rule: rtranclp_induct) (auto intro: broker_step_consumed)

lemma broker_steps_ok:
  "(broker_step C scopes)\<^sup>*\<^sup>* s s' \<Longrightarrow> broker_ok C scopes s \<Longrightarrow> broker_ok C scopes s'"
  by (induction rule: rtranclp_induct) (auto intro: broker_step_ok)

lemma claim_consumed: "consumed_row i rows \<Longrightarrow>
   claim_grant scopes rows i subject (Some now) = (Inl GrantConsumed, rows)"
  by (auto simp: consumed_row_def claim_grant_def claim_checks_def)

lemma claim_consumes:
  assumes "broker_ok C scopes (l, rows)"
    and "claim_grant scopes rows i subject clock = (Inr g, rows')"
  shows "g_id g = i \<and> consumed_row i rows'"
  using assms(2)
proof (cases rule: claim_grant_cases)
  case (claimed now row h)
  then have row: "row \<in> set rows" "gr_id row = i" by (auto dest: find_Some_mem)
  then have "g_id g = i" using assms(1) claimed(3,4) by (auto simp: broker_ok_def)
  then show ?thesis using claimed row by (auto simp: consumed_row_def find_consume)
qed simp

section \<open>Properties\<close>

text \<open>
  C7: a grant is used at most once: after a successful claim, whatever appends,
  registrations and executions follow, every later claim of it is denied as consumed.
\<close>

theorem grant_single_use:
  assumes "broker_ok C scopes (l, rows)"
    and "claim_grant scopes rows i subject clock = (Inr g, rows')"
    and "(broker_step C scopes)\<^sup>*\<^sup>* (l, rows') (l2, rows2)"
  shows "claim_grant scopes rows2 i subject2 (Some now2) = (Inl GrantConsumed, rows2) \<and>
    execute_file_read (c_sha C) scopes probe rows2 i subject2 (Some now2) = (Inl GrantConsumed, rows2)"
proof -
  have "consumed_row i rows2"
    using broker_steps_consumed [OF assms(3)] claim_consumes [OF assms(1,2)] by simp
  from claim_consumed [OF this] show ?thesis by (simp add: execute_file_read_def)
qed

text \<open>
  C23: in every state reachable from an empty ledger and no grants, a claim that succeeds is
  authorized: the ledger holds a human, human-verified approval event for exactly this grant,
  the claimant is its subject, the time is not before its issue and before the end of the seconds
  it is valid for, which are at most 300, it is for a file read without network, its scope is
  configured, the extension of the target is allowed, and it was not consumed before and is now.
\<close>

theorem claim_is_authorized:
  assumes "codec_ok C" and "(broker_step C scopes)\<^sup>*\<^sup>* ([], []) (l, rows)"
    and "claim_grant scopes rows i subject (Some now) = (Inr g, rows')"
  shows "valid_grant g \<and> g_id g = i \<and> g_subject g = subject \<and>
    (\<exists>e. get_event C l (g_authorization g) = Inr (Some e) \<and> authorizes e g) \<and>
    g_issued_at g \<le> now \<and> now < g_issued_at g + g_valid_seconds g * 1000000 \<and> g_valid_seconds g \<le> 300 \<and>
    g_capability g = ''file.read'' \<and> \<not> g_network g \<and> g_scope g \<in> set scopes \<and>
    casefold (path_suffix (g_target g)) \<in> set (map casefold (g_extensions g)) \<and>
    (\<exists>row. find (\<lambda>r. gr_id r = i) rows = Some row \<and> gr_document row = Some g \<and> gr_consumed row = None \<and>
       find (\<lambda>r. gr_id r = i) rows' = Some (row\<lparr>gr_consumed := Some now\<rparr>))"
proof -
  have "broker_ok C scopes ([], [])" using ledger_ok_empty [OF assms(1)] by (simp add: broker_ok_def)
  then have ok: "broker_ok C scopes (l, rows)" using broker_steps_ok [OF assms(2)] by blast
  from assms(3) show ?thesis
  proof (cases rule: claim_grant_cases)
    case (claimed now' row h)
    then have row: "row \<in> set rows" "gr_id row = i" by (auto dest: find_Some_mem)
    then have g: "valid_grant g" "gr_id row = g_id g"
      "\<exists>e. get_event C l (g_authorization g) = Inr (Some e) \<and> authorizes e g"
      using ok claimed(3,4) by (auto simp: broker_ok_def)
    then have "g_valid_seconds g \<le> 300" by (simp add: valid_grant_def)
    moreover have "find (\<lambda>r. gr_id r = i) rows' = Some (row\<lparr>gr_consumed := Some now\<rparr>)"
      using claimed row g(2) by (auto simp: claim_checks_def find_consume)
    ultimately show ?thesis using claimed row g by (auto simp: claim_checks_def)
  qed simp
qed

text \<open>
  C39: an observation is bounded and exact: at most the granted number of bytes and never
  more than one mebibyte, its digest is that of the bytes whose strict UTF-8 decoding is the
  content, the file resolved below the scope's root and kept its identity, and the content is
  marked external and untrusted.
\<close>

theorem observation_exact:
  assumes "valid_grant g" and "read_file sha probe g = Inr ob"
  shows "\<exists>base resolved stored who. fp_root probe = Some base \<and> fp_resolved probe = Some resolved \<and>
    (\<exists>rel. resolved = base @ rel) \<and> fp_opened probe = Some (stored, who) \<and>
    fp_before probe = Some who \<and> fp_after probe = Some who \<and>
    length stored = ob_byte_count ob \<and> int (ob_byte_count ob) \<le> g_max_bytes g \<and>
    int (ob_byte_count ob) \<le> 1048576 \<and> ob_content_hash ob = digest_ref sha stored \<and>
    byte_values stored = encode_utf8 (ob_content ob) \<and> list_all scalar_value (ob_content ob) \<and>
    ob_trust ob = ExternalUntrusted \<and> \<not> ob_network_used ob"
proof -
  obtain base where 1: "fp_root probe = Some base" "fp_root_is_dir probe"
    using assms(2) by (cases "fp_root probe") (auto simp: read_file_def split: if_splits)
  obtain resolved where 2: "fp_resolved probe = Some resolved" "is_below base resolved"
    using assms(2) 1 by (cases "fp_resolved probe") (auto simp: read_file_def split: if_splits)
  obtain before where 3: "fp_before probe = Some before"
    using assms(2) 1 2 by (cases "fp_before probe") (auto simp: read_file_def split: if_splits)
  obtain stored who where 4: "fp_opened probe = Some (stored, who)"
    using assms(2) 1 2 3 by (cases "fp_opened probe") (auto simp: read_file_def split: if_splits)
  obtain later where 5: "fp_after probe = Some later"
    using assms(2) 1 2 3 4 by (cases "fp_after probe") (auto simp: read_file_def split: if_splits)
  let ?bytes = "take (nat (g_max_bytes g) + 1) stored"
  have 6: "int (length ?bytes) \<le> g_max_bytes g" "before = who" "who = later"
    using assms(2) 1 2 3 4 5 by (auto simp: read_file_def Let_def split: if_splits)
  obtain content where 7: "decode_utf8 (byte_values ?bytes) = Some content"
    using assms(2) 1 2 3 4 5 6
    by (cases "decode_utf8 (byte_values ?bytes)") (auto simp: read_file_def Let_def split: if_splits)
  have 8: "ob = \<lparr> ob_grant = g_id g, ob_scope = g_scope g, ob_target = g_target g,
      ob_byte_count = length ?bytes, ob_content_hash = digest_ref sha ?bytes, ob_content = content,
      ob_trust = ExternalUntrusted, ob_network_used = False \<rparr>"
    using assms(2) 1 2 3 4 5 6 7 by (auto simp: read_file_def Let_def split: if_splits)
  have short: "?bytes = stored"
    using 6(1) by (auto simp: min_def split: if_splits)
  have "g_max_bytes g \<le> 1048576"
    using assms(1) by (simp add: valid_grant_def valid_constraints_def max_read_bytes_def)
  moreover have "\<exists>rel. resolved = base @ rel"
    using 2(2) unfolding is_below_def by (metis append_take_drop_id)
  moreover note 7 [unfolded short decode_utf8_iff] 6 [unfolded short] 8 [unfolded short]
  ultimately show ?thesis using 1 2 3 4 5 by simp
qed

section \<open>The properties on a concrete grant\<close>

definition sample_grant :: grant where
  "sample_grant = \<lparr> g_id = sample_id ''grt'' (CHR ''1''), g_subject = ''tool_file-reader'',
     g_capability = ''file.read'', g_scope = ''vault'', g_target = ''notes.md'', g_issued_at = 10,
     g_valid_seconds = 60, g_issued_by = ''human_local'',
     g_authorization = sample_id ''evt'' (CHR ''1''), g_max_uses = 1, g_max_bytes = 64,
     g_extensions = [''.md''], g_network = False \<rparr>"

definition grant_approval :: event where
  "grant_approval = (sample_message (CHR ''1'') [] ''x'')\<lparr>ev_type := Approval,
     ev_payload := jobj [(''grant_id'', JStr (sample_id ''grt'' (CHR ''1''))),
       (''decision'', JStr ''approved'')]\<rparr>"

lemma grant_approval_simps [simp]:
  "ev_id grant_approval = sample_id ''evt'' (CHR ''1'')" "ev_parents grant_approval = []"
  "ev_artifact_refs grant_approval = []" "association_review_key grant_approval = None"
  by (simp_all add: grant_approval_def association_review_key_def)

definition approval_ledger :: ledger where
  "approval_ledger = log_rows sample_codec [(grant_approval, ''k1'')]"

definition granted_rows :: "grant_row list" where
  "granted_rows = [\<lparr> gr_id = g_id sample_grant, gr_document = Some sample_grant,
     gr_consumed = None \<rparr>]"

lemma sample_grant_valid: "valid_grant sample_grant"
proof -
  have "is_actor_id ''tool_file-reader''" "is_actor_id ''human_local''"
    "valid_resource ''vault'' ''notes.md''" "valid_constraints 64 [''.md''] False"
    by code_simp+
  then show ?thesis by (simp add: valid_grant_def sample_grant_def crockford_def)
qed

lemma grant_approval_valid: "valid_event sample_codec grant_approval"
proof (rule valid_eventI)
  show "event_fields_ok grant_approval"
    by (simp add: event_fields_ok_def grant_approval_def sample_message_def crockford_def)
qed (auto simp: grant_approval_def sample_message_def jobj_def payload_key_def
    max_event_payload_bytes_def sample_actor_def model_identity_required_def sample_id_def)

lemma grant_approval_log: "log_ok sample_codec [(grant_approval, ''k1'')]"
  using grant_approval_valid
  by (simp add: log_ok_def causal_order_def)

lemma approval_appended:
  "append_many sample_codec None [] [(grant_approval, ''k1'')] = (Inr [ev_id grant_approval], approval_ledger)"
  using append_many_refines [OF sample_codec_ok log_ok_Nil, of None "[(grant_approval, ''k1'')]"]
    grant_approval_valid
  by (simp add: spec_append_many_def spec_append_one_def unresolved_reference_def approval_ledger_def)

lemma approval_found: "get_event sample_codec approval_ledger (g_authorization sample_grant) = Inr (Some grant_approval)"
  using get_event_log [OF sample_codec_ok grant_approval_log]
  by (simp add: approval_ledger_def) (simp add: sample_grant_def)

lemma grant_registered:
  "register_grant sample_codec [''vault''] approval_ledger [] sample_grant = (Inr (), granted_rows)"
proof -
  have "authorizes grant_approval sample_grant"
    by (simp add: authorizes_def grant_approval_def sample_grant_def sample_message_def sample_actor_def)
  then show ?thesis using approval_found by (simp add: register_grant_def granted_rows_def sample_grant_def)
qed

lemma granted_reachable:
  "(broker_step sample_codec [''vault''])\<^sup>*\<^sup>* ([], []) (approval_ledger, granted_rows)"
  using broker_step.append [OF approval_appended, of "[''vault'']" "[]"]
    broker_step.register [OF sample_grant_valid grant_registered]
  by (meson converse_rtranclp_into_rtranclp rtranclp.rtrancl_refl)

lemma granted_ok: "broker_ok sample_codec [''vault''] (approval_ledger, granted_rows)"
  using broker_steps_ok [OF granted_reachable] sample_ledger_ok by (simp add: broker_ok_def)

lemma sample_claim:
  "claim_grant [''vault''] granted_rows (sample_id ''grt'' (CHR ''1'')) ''tool_file-reader'' (Some 20) =
     (Inr sample_grant, consume (sample_id ''grt'' (CHR ''1'')) 20 granted_rows)"
proof -
  have "casefold (path_suffix ''notes.md'') = casefold ''.md''" by code_simp
  then show ?thesis by (simp add: claim_grant_def granted_rows_def sample_grant_def claim_checks_def)
qed

theorem grant_single_use_witness:
  "claim_grant [''vault''] (consume (sample_id ''grt'' (CHR ''1'')) 20 granted_rows)
     (sample_id ''grt'' (CHR ''1'')) ''tool_file-reader'' (Some 21) =
   (Inl GrantConsumed, consume (sample_id ''grt'' (CHR ''1'')) 20 granted_rows)"
  using grant_single_use [OF granted_ok sample_claim rtranclp.rtrancl_refl] by blast

theorem claim_is_authorized_witness:
  "\<exists>e. get_event sample_codec approval_ledger (g_authorization sample_grant) = Inr (Some e) \<and>
     authorizes e sample_grant"
  using claim_is_authorized [OF sample_codec_ok granted_reachable sample_claim] by blast

definition sample_probe :: file_probe where
  "sample_probe = (let who = \<lparr> fi_device = 1, fi_inode = 2, fi_size = 2, fi_mtime = 3 \<rparr> in
     \<lparr> fp_root = Some [''vault''], fp_root_is_dir = True,
       fp_resolved = Some [''vault'', ''notes.md''], fp_is_file = True, fp_before = Some who,
       fp_opened = Some (''hi'', who), fp_after = Some who \<rparr>)"

lemma sample_read: "\<exists>ob. read_file sample_sha sample_probe sample_grant = Inr ob \<and> ob_byte_count ob = 2"
proof -
  have "decode_utf8 (byte_values ''hi'') = Some [104, 105]" by code_simp
  then show ?thesis
    by (simp add: read_file_def sample_probe_def sample_grant_def is_below_def Let_def)
qed

theorem observation_exact_witness:
  "\<exists>ob. read_file sample_sha sample_probe sample_grant = Inr ob \<and>
     byte_values ''hi'' = encode_utf8 (ob_content ob)"
proof -
  obtain ob where ob: "read_file sample_sha sample_probe sample_grant = Inr ob" using sample_read by blast
  from observation_exact [OF sample_grant_valid ob] ob show ?thesis
    by (auto simp: sample_probe_def Let_def)
qed

end
