(* ===== verification/Mcp_Contracts.thy ===== *)
theory Mcp_Contracts
  imports Context Utf8
begin

text \<open>
  \<open>integrations/mcp/contracts.py\<close>: the requests an MCP client sends, parsed from its JSON
  arguments with every constraint of the strict models, and the responses with the
  validators their construction runs.  Arguments are JSON values; a text is the string of
  its code points.
\<close>

section \<open>Vocabularies\<close>

datatype project_tool = Remember | Recall | Correct | Explain

fun tool_value :: "project_tool \<Rightarrow> string" where
  "tool_value Remember = ''remember''"
| "tool_value Recall = ''recall''"
| "tool_value Correct = ''correct''"
| "tool_value Explain = ''explain''"

text \<open>\<open>ProjectMemoryTool(name)\<close>, \<open>None\<close> where it raises \<open>ValueError\<close>\<close>

definition tool_of :: "string \<Rightarrow> project_tool option" where
  "tool_of name = find (\<lambda>t. tool_value t = name) [Remember, Recall, Correct, Explain]"

lemma tool_of_value [simp]: "tool_of (tool_value t) = Some t"
  by (cases t) (simp_all add: tool_of_def)

lemma tool_of_Some: "tool_of name = Some t \<Longrightarrow> tool_value t = name"
  by (auto simp: tool_of_def split: if_splits)

datatype unavailable_reason =
  EmptyWorkspace | NoApprovedMemory | MemoryStoreUnavailable | RevisionNotFound

datatype failure_code = InvalidRequest | RequestConflict | RevisionConflict | InternalError

datatype explanation_reason =
    Selected | NotApproved | StaleRevision | ReasonSuperseded | ReasonContradicted
  | ReasonRetracted | MissingSource | ReasonNoQueryMatch | ReasonTokenBudget

datatype lineage_relationship = Requested | SourceOf | Supersedes | SupersededBy | Contradicts

section \<open>Reading strict fields of a JSON object\<close>

text \<open>\<open>extra="forbid"\<close>\<close>

definition only_fields :: "string list \<Rightarrow> jval \<Rightarrow> bool" where
  "only_fields names v =
     (case v of
        JMap kvs \<Rightarrow> list_all (\<lambda>(k, _). case k of JStr s \<Rightarrow> s \<in> set names | _ \<Rightarrow> False) kvs
      | _ \<Rightarrow> False)"

definition text_field :: "nat \<Rightarrow> nat \<Rightarrow> jval \<Rightarrow> string \<Rightarrow> string option" where
  "text_field lo hi v name =
     (case jget v name of
        Some (JStr s) \<Rightarrow> if lo \<le> length s \<and> length s \<le> hi then Some s else None
      | _ \<Rightarrow> None)"

definition pattern_field :: "(string \<Rightarrow> bool) \<Rightarrow> jval \<Rightarrow> string \<Rightarrow> string option" where
  "pattern_field p v name =
     (case jget v name of Some (JStr s) \<Rightarrow> if p s then Some s else None | _ \<Rightarrow> None)"

definition integer_field :: "int \<Rightarrow> int \<Rightarrow> jval \<Rightarrow> string \<Rightarrow> int option" where
  "integer_field lo hi v name =
     (case jget v name of
        None \<Rightarrow> None
      | Some j \<Rightarrow> (case json_integer j of
          Inl _ \<Rightarrow> None
        | Inr i \<Rightarrow> if lo \<le> i \<and> i \<le> hi then Some i else None))"

text \<open>\<open>SchemaVersion\<close>: the integer one, exactly\<close>

definition schema_field :: "jval \<Rightarrow> bool" where
  "schema_field v = (integer_field 1 1 v ''schema_version'' \<noteq> None)"

fun text_items :: "jval list \<Rightarrow> string list option" where
  "text_items [] = Some []"
| "text_items (JStr s # js) = map_option ((#) s) (text_items js)"
| "text_items (_ # js) = None"

text \<open>A tuple of unique texts, each satisfying \<open>p\<close>, with bounds on its length.\<close>

definition texts_of :: "(string \<Rightarrow> bool) \<Rightarrow> nat \<Rightarrow> nat \<Rightarrow> jval \<Rightarrow> string list option" where
  "texts_of p lo hi j =
     (case j of
        JSeq js \<Rightarrow> (case text_items js of
          None \<Rightarrow> None
        | Some xs \<Rightarrow> if lo \<le> length xs \<and> length xs \<le> hi \<and> list_all p xs \<and> distinct xs
            then Some xs else None)
      | _ \<Rightarrow> None)"

definition all_categories :: "memory_category list" where
  "all_categories = [Research, Tooling, Project, Experiment, Governance, Reference, Note]"

definition category_of :: "string \<Rightarrow> memory_category option" where
  "category_of s = find (\<lambda>c. category_value c = s) all_categories"

definition domain_of :: "string \<Rightarrow> memory_domain option" where
  "domain_of s = find (\<lambda>d. domain_value d = s) all_domains"

definition topic_tail :: string where
  "topic_tail = lower_chars @ digit_chars @ ''._-''"

definition is_topic :: "string \<Rightarrow> bool" where
  "is_topic s \<longleftrightarrow> is_slug (lower_chars @ digit_chars) topic_tail 0 127 s"

section \<open>Requests\<close>

record recall_request =
  rq_id :: string
  rq_query :: string
  rq_budget :: int

record correction =
  co_target :: string
  co_expected_hash :: string
  co_reason :: string

text \<open>\<open>RememberRequest\<close>; a \<open>CorrectRequest\<close> is one with a correction.\<close>

record candidate_request =
  cq_id :: string
  cq_title :: string
  cq_content :: string
  cq_category :: memory_category
  cq_domains :: "memory_domain list"
  cq_topics :: "string list"
  cq_refs :: "string list"
  cq_correction :: "correction option"

record explain_request =
  xq_id :: string
  xq_record :: string
  xq_hash :: string

definition is_event_id :: "string \<Rightarrow> bool" where
  "is_event_id = tagged_id ''evt''"

definition parse_recall :: "jval \<Rightarrow> recall_request option" where
  "parse_recall v =
     (if \<not> only_fields [''schema_version'', ''request_id'', ''query'', ''token_budget''] v \<or>
         \<not> schema_field v then None
      else
        Option.bind (pattern_field is_event_id v ''request_id'') (\<lambda>request_id.
        Option.bind (text_field 1 16384 v ''query'') (\<lambda>query.
        Option.bind (integer_field 1 32768 v ''token_budget'') (\<lambda>budget.
        Some \<lparr> rq_id = request_id, rq_query = query, rq_budget = budget \<rparr>))))"

definition parse_explain :: "jval \<Rightarrow> explain_request option" where
  "parse_explain v =
     (if \<not> only_fields [''schema_version'', ''request_id'', ''record_id'', ''content_hash''] v \<or>
         \<not> schema_field v then None
      else
        Option.bind (pattern_field is_event_id v ''request_id'') (\<lambda>request_id.
        Option.bind (pattern_field (tagged_id ''mem'') v ''record_id'') (\<lambda>record_id.
        Option.bind (pattern_field is_digest v ''content_hash'') (\<lambda>content_hash.
        Some \<lparr> xq_id = request_id, xq_record = record_id, xq_hash = content_hash \<rparr>))))"

text \<open>The fields shared by the two candidate requests; \<open>topics\<close> defaults to none.\<close>

definition candidate_fields :: "string list" where
  "candidate_fields = [''schema_version'', ''request_id'', ''title'', ''content'', ''category'',
     ''domains'', ''topics'', ''source_refs'']"

definition parse_candidate :: "jval \<Rightarrow> correction option \<Rightarrow> candidate_request option" where
  "parse_candidate v correction =
     (if \<not> schema_field v then None
      else
        Option.bind (pattern_field is_event_id v ''request_id'') (\<lambda>request_id.
        Option.bind (text_field 1 512 v ''title'') (\<lambda>title.
        Option.bind (text_field 1 65536 v ''content'') (\<lambda>content.
        Option.bind (Option.bind (jstr (jget v ''category'')) category_of) (\<lambda>category.
        Option.bind (Option.bind (jget v ''domains'') (texts_of (\<lambda>s. domain_of s \<noteq> None) 1 16))
          (\<lambda>domains.
        Option.bind (case jget v ''topics'' of None \<Rightarrow> Some [] | Some j \<Rightarrow> texts_of is_topic 0 32 j)
          (\<lambda>topics.
        Option.bind (Option.bind (jget v ''source_refs'') (texts_of is_record_id 1 16)) (\<lambda>refs.
        Some \<lparr> cq_id = request_id, cq_title = title, cq_content = content,
          cq_category = category, cq_domains = map (the \<circ> domain_of) domains,
          cq_topics = topics, cq_refs = refs, cq_correction = correction \<rparr>))))))))"

definition parse_remember :: "jval \<Rightarrow> candidate_request option" where
  "parse_remember v =
     (if only_fields candidate_fields v then parse_candidate v None else None)"

definition parse_correct :: "jval \<Rightarrow> candidate_request option" where
  "parse_correct v =
     (if \<not> only_fields (candidate_fields @
           [''target_record_id'', ''expected_content_hash'', ''reason'']) v then None
      else
        Option.bind (pattern_field (tagged_id ''mem'') v ''target_record_id'') (\<lambda>target.
        Option.bind (pattern_field is_digest v ''expected_content_hash'') (\<lambda>expected_hash.
        Option.bind (text_field 1 4096 v ''reason'') (\<lambda>reason.
        Option.bind (parse_candidate v (Some \<lparr> co_target = target,
            co_expected_hash = expected_hash, co_reason = reason \<rparr>)) (\<lambda>q.
        if target \<in> set (cq_refs q) then Some q else None)))))"

section \<open>Responses\<close>

record recalled =
  rc_record :: string
  rc_hash :: string
  rc_title :: string
  rc_content :: string
  rc_refs :: "string list"

record lineage_entry =
  le_record :: string
  le_hash :: string
  le_state :: authority
  le_relationship :: lineage_relationship

record explanation =
  xp_request :: string
  xp_record :: string
  xp_hash :: string
  xp_state :: authority
  xp_reasons :: "explanation_reason list"
  xp_lineage :: "lineage_entry list"

datatype tool_result =
    Recalled string manifest "recalled list"
  | CandidateCreated string string string
  | CorrectionCreated string string string string string
  | Explained explanation
  | Unavailable project_tool unavailable_reason
  | Failure project_tool failure_code

datatype mcp_error =
    ContextFailed context_error
  | TimeFailed time_error
  | RecalledInvalid
  | RecallUnbound
  | RecallNotApproved
  | RecallTokensMismatch
  | ReasonsNotUnique
  | LineageUnbound
  | RepositoryFailed memory_error

text \<open>\<open>RecalledMemory\<close>\<close>

definition validate_recalled :: "recalled \<Rightarrow> mcp_error + recalled" where
  "validate_recalled r = guarded
     [ (tagged_id ''mem'' (rc_record r) \<and> is_digest (rc_hash r) \<and>
        1 \<le> length (rc_title r) \<and> length (rc_title r) \<le> 512 \<and>
        1 \<le> length (rc_content r) \<and> length (rc_content r) \<le> 65536 \<and>
        1 \<le> length (rc_refs r) \<and> length (rc_refs r) \<le> 16 \<and> list_all is_record_id (rc_refs r),
        RecalledInvalid) ]
     (Inr r)"

text \<open>\<open>RecallResponse.bind_records_to_manifest_revisions\<close>\<close>

definition validate_recall_response ::
    "string \<Rightarrow> manifest \<Rightarrow> recalled list \<Rightarrow> mcp_error + tool_result" where
  "validate_recall_response request_id m records = guarded
     [ (map (\<lambda>r. (rc_record r, rc_hash r)) records =
          map (\<lambda>i. (ci_record i, ci_hash i)) (cm_items m), RecallUnbound),
       (list_all (\<lambda>i. ci_status i = CtxApproved) (cm_items m), RecallNotApproved),
       (list_all (\<lambda>(r, i). int (length (py_split (rc_content r))) = ci_tokens i)
          (zip records (cm_items m)), RecallTokensMismatch) ]
     (Inr (Recalled request_id m records))"

text \<open>\<open>ExplainResponse\<close>, whose lineage begins with the requested revision\<close>

definition validate_explanation :: "explanation \<Rightarrow> mcp_error + tool_result" where
  "validate_explanation x = guarded
     [ (distinct (xp_reasons x), ReasonsNotUnique),
       ((case xp_lineage x of
           [] \<Rightarrow> False
         | e # _ \<Rightarrow> le_relationship e = Requested \<and> le_record e = xp_record x \<and>
             le_hash e = xp_hash x \<and> le_state e = xp_state x), LineageUnbound) ]
     (Inr (Explained x))"

section \<open>What a parsed request satisfies\<close>

lemma text_field_bounds: "text_field lo hi v name = Some s \<Longrightarrow> lo \<le> length s \<and> length s \<le> hi"
  by (auto simp: text_field_def split: option.splits jval.splits if_splits)

lemma pattern_field_holds: "pattern_field p v name = Some s \<Longrightarrow> p s"
  by (auto simp: pattern_field_def split: option.splits jval.splits if_splits)

lemma integer_field_bounds: "integer_field lo hi v name = Some i \<Longrightarrow> lo \<le> i \<and> i \<le> hi"
  by (auto simp: integer_field_def split: option.splits sum.splits if_splits)

lemma texts_of_holds:
  "texts_of p lo hi j = Some xs \<Longrightarrow>
     lo \<le> length xs \<and> length xs \<le> hi \<and> list_all p xs \<and> distinct xs"
  by (auto simp: texts_of_def split: option.splits jval.splits if_splits)

lemma parse_recall_ok:
  assumes "parse_recall v = Some q"
  shows "is_event_id (rq_id q)" "1 \<le> length (rq_query q)" "length (rq_query q) \<le> 16384"
    "1 \<le> rq_budget q" "rq_budget q \<le> 32768"
  using assms
  by (auto simp: parse_recall_def bind_eq_Some_conv split: if_splits
      dest: pattern_field_holds text_field_bounds integer_field_bounds)

definition candidate_ok :: "candidate_request \<Rightarrow> bool" where
  "candidate_ok q \<longleftrightarrow> is_event_id (cq_id q) \<and> 1 \<le> length (cq_title q) \<and> length (cq_title q) \<le> 512 \<and>
     1 \<le> length (cq_content q) \<and> length (cq_content q) \<le> 65536 \<and>
     length (cq_domains q) \<le> 16 \<and> list_all is_record_id (cq_refs q) \<and>
     opt_ok (\<lambda>c. tagged_id ''mem'' (co_target c) \<and> is_digest (co_expected_hash c) \<and>
       co_target c \<in> set (cq_refs q)) (cq_correction q)"

lemma parse_candidate_ok:
  assumes "parse_candidate v c = Some q"
  shows "is_event_id (cq_id q) \<and> 1 \<le> length (cq_title q) \<and> length (cq_title q) \<le> 512 \<and>
     1 \<le> length (cq_content q) \<and> length (cq_content q) \<le> 65536 \<and>
     length (cq_domains q) \<le> 16 \<and> list_all is_record_id (cq_refs q) \<and> cq_correction q = c"
proof -
  have "schema_field v"
    using assms by (auto simp: parse_candidate_def split: if_splits)
  with assms obtain i t s k ds ts rs d r where
    "pattern_field is_event_id v ''request_id'' = Some i" "text_field 1 512 v ''title'' = Some t"
    "text_field 1 65536 v ''content'' = Some s"
    "texts_of (\<lambda>s. domain_of s \<noteq> None) 1 16 d = Some ds" "texts_of is_record_id 1 16 r = Some rs"
    "q = \<lparr> cq_id = i, cq_title = t, cq_content = s, cq_category = k,
       cq_domains = map (the \<circ> domain_of) ds, cq_topics = ts, cq_refs = rs, cq_correction = c \<rparr>"
    unfolding parse_candidate_def by (auto simp: bind_eq_Some_conv)
  then show ?thesis
    by (auto dest!: pattern_field_holds text_field_bounds texts_of_holds)
qed

lemma parse_remember_ok:
  "parse_remember v = Some q \<Longrightarrow> candidate_ok q \<and> cq_correction q = None"
  using parse_candidate_ok [of v None q]
  by (auto simp: parse_remember_def candidate_ok_def split: if_splits)

lemma parse_correct_ok:
  assumes "parse_correct v = Some q"
  shows "candidate_ok q \<and> cq_correction q \<noteq> None"
proof -
  obtain c where "parse_candidate v (Some c) = Some q" "tagged_id ''mem'' (co_target c)"
    "is_digest (co_expected_hash c)" "co_target c \<in> set (cq_refs q)"
    using assms unfolding parse_correct_def
    by (auto simp: bind_eq_Some_conv split: if_splits dest!: pattern_field_holds)
  then show ?thesis
    using parse_candidate_ok [of v "Some c" q] by (auto simp: candidate_ok_def)
qed

end
