(* ===== verification/Mcp.thy ===== *)
theory Mcp
  imports Mcp_Contracts
begin

text \<open>
  \<open>integrations/mcp/server.py\<close>: the project-memory tools an agent calls over MCP.  The
  workspace is the memory database, \<open>None\<close> while \<open>memory.sqlite3\<close> does not exist; opening the
  repository creates it.  An exception is an \<open>Inl\<close>, and \<open>call_tool\<close> is the handler that
  turns it into a typed failure.  \<open>cm_compiled_at\<close> is in microseconds: the division by 1000 of
  \<open>_request_time\<close> is a float whose rounding to microseconds is exact before the year 2242.
\<close>

section \<open>Reading\<close>

definition recalled_of :: "memory \<Rightarrow> recalled" where
  "recalled_of r = \<lparr> rc_record = mem_id r, rc_hash = mem_content_hash r, rc_title = mem_title r,
     rc_content = mem_content r, rc_refs = [mem_id r] \<rparr>"

definition recall :: "codec \<Rightarrow> memory list \<Rightarrow> recall_request \<Rightarrow> mcp_error + tool_result" where
  "recall C records q =
     (if filter (\<lambda>r. mem_state r = Approved \<and> mem_source_status r \<noteq> Some ''missing'') records = []
      then Inr (Unavailable Recall NoApprovedMemory)
      else case request_time (rq_id q) of
        Inl e \<Rightarrow> Inl (TimeFailed e)
      | Inr ms \<Rightarrow>
         (case compile_context C (rank_memory_records records (rq_query q))
                 (derived_id (c_sha C) (rq_id q) ''ctx'' ''recall-context'')
                 (derived_id (c_sha C) (rq_id q) ''tsk'' ''recall-task'')
                 (1000 * ms) (rq_budget q) of
            Inl e \<Rightarrow> Inl (ContextFailed e)
          | Inr (m, selected) \<Rightarrow>
              try_bind (map_result (\<lambda>r. validate_recalled (recalled_of r)) selected)
                (validate_recall_response (rq_id q) m)))"

definition reason_for ::
    "memory option \<Rightarrow> memory \<Rightarrow> explain_request \<Rightarrow> explanation_reason" where
  "reason_for current revision q =
     (if current \<noteq> None \<and> mem_content_hash (the current) \<noteq> xq_hash q then StaleRevision
      else case mem_state revision of
        Approved \<Rightarrow> if mem_source_status revision = Some ''missing'' then MissingSource else Selected
      | Superseded \<Rightarrow> ReasonSuperseded
      | Contradicted \<Rightarrow> ReasonContradicted
      | Retracted \<Rightarrow> ReasonRetracted
      | _ \<Rightarrow> NotApproved)"

definition entry_of :: "lineage_relationship \<Rightarrow> memory \<Rightarrow> lineage_entry" where
  "entry_of rel r = \<lparr> le_record = mem_id r, le_hash = mem_content_hash r, le_state = mem_state r,
     le_relationship = rel \<rparr>"

definition corrected_entries :: "memory_db \<Rightarrow> memory \<Rightarrow> lineage_entry list" where
  "corrected_entries db revision =
     (case (mem_target revision, mem_expected_hash revision) of
        (Some target, Some expected_hash) \<Rightarrow>
          (case get_revision db target expected_hash of
             None \<Rightarrow> []
           | Some r \<Rightarrow> [entry_of Supersedes r])
      | _ \<Rightarrow> [])"

definition replacement_entries :: "memory_db \<Rightarrow> memory \<Rightarrow> lineage_entry list" where
  "replacement_entries db revision =
     (case latest_review db (mem_id revision) (mem_content_hash revision) of
        None \<Rightarrow> []
      | Some v \<Rightarrow> (case rv_replacement v of
          None \<Rightarrow> []
        | Some i \<Rightarrow> (case get_memory db i of None \<Rightarrow> [] | Some r \<Rightarrow> [entry_of SupersededBy r])))"

definition explain :: "memory_db \<Rightarrow> explain_request \<Rightarrow> mcp_error + tool_result" where
  "explain db q =
     (case get_revision db (xq_record q) (xq_hash q) of
        None \<Rightarrow> Inr (Unavailable Explain RevisionNotFound)
      | Some revision \<Rightarrow> validate_explanation
          \<lparr> xp_request = xq_id q, xp_record = mem_id revision, xp_hash = mem_content_hash revision,
            xp_state = mem_state revision,
            xp_reasons = [reason_for (get_memory db (xq_record q)) revision q],
            xp_lineage = entry_of Requested revision #
              corrected_entries db revision @ replacement_entries db revision \<rparr>)"

section \<open>Executing a tool\<close>

definition execute_read_only_tool ::
    "codec \<Rightarrow> memory_db option \<Rightarrow> string \<Rightarrow> jval \<Rightarrow> mcp_error + tool_result" where
  "execute_read_only_tool C workspace name args =
     (case tool_of name of
        None \<Rightarrow> Inr (Failure Recall InvalidRequest)
      | Some tool \<Rightarrow>
          if tool \<notin> {Recall, Explain} then Inr (Failure tool InvalidRequest)
          else if (if tool = Recall then parse_recall args = None else parse_explain args = None)
          then Inr (Failure tool InvalidRequest)
          else (case workspace of
            None \<Rightarrow> Inr (Unavailable tool EmptyWorkspace)
          | Some db \<Rightarrow>
              if list_memory db = [] then Inr (Unavailable tool EmptyWorkspace)
              else if tool = Recall then recall C (list_memory db) (the (parse_recall args))
              else explain db (the (parse_explain args))))"

text \<open>\<open>request.content.encode()\<close>: the bytes of the UTF-8 encoding\<close>

definition encode_text :: "string \<Rightarrow> string" where
  "encode_text s = map char_of (encode_utf8 (map of_char s))"

definition candidate_purpose :: "candidate_request \<Rightarrow> string" where
  "candidate_purpose q =
     (if cq_correction q = None then ''remember-candidate'' else ''correct-candidate'')"

definition candidate_tool :: "candidate_request \<Rightarrow> project_tool" where
  "candidate_tool q = (if cq_correction q = None then Remember else Correct)"

text \<open>The keyword arguments of the \<open>create_native\<close> call.\<close>

definition candidate_native :: "codec \<Rightarrow> string \<Rightarrow> candidate_request \<Rightarrow> native_request" where
  "candidate_native C caller q =
     \<lparr> nr_id = Some (derived_id (c_sha C) (cq_id q) ''mem'' (candidate_purpose q)),
       nr_title = cq_title q, nr_content = cq_content q, nr_category = cq_category q,
       nr_domains = cq_domains q, nr_topics = cq_topics q,
       nr_hash = digest_ref (c_sha C) (encode_text (cq_content q)), nr_nodes = [],
       nr_source_refs = cq_refs q, nr_created_by = Some caller, nr_request = Some (cq_id q),
       nr_target = map_option co_target (cq_correction q),
       nr_expected_hash = map_option co_expected_hash (cq_correction q),
       nr_reason = map_option co_reason (cq_correction q) \<rparr>"

text \<open>The comparison of a stored candidate with the request that would create it.\<close>

definition candidate_matches :: "codec \<Rightarrow> string \<Rightarrow> candidate_request \<Rightarrow> memory \<Rightarrow> bool" where
  "candidate_matches C caller q existing \<longleftrightarrow>
     mem_title existing = cq_title q \<and> mem_content existing = cq_content q \<and>
     mem_category existing = cq_category q \<and> mem_domains existing = cq_domains q \<and>
     mem_topics existing = cq_topics q \<and>
     mem_content_hash existing = digest_ref (c_sha C) (encode_text (cq_content q)) \<and>
     mem_source_refs existing = cq_refs q \<and> mem_created_by existing = Some caller \<and>
     mem_request existing = Some (cq_id q) \<and>
     mem_target existing = map_option co_target (cq_correction q) \<and>
     mem_expected_hash existing = map_option co_expected_hash (cq_correction q) \<and>
     mem_reason existing = map_option co_reason (cq_correction q)"

definition candidate_response :: "candidate_request \<Rightarrow> memory \<Rightarrow> tool_result" where
  "candidate_response q r =
     (case cq_correction q of
        None \<Rightarrow> CandidateCreated (cq_id q) (mem_id r) (mem_content_hash r)
      | Some c \<Rightarrow> CorrectionCreated (cq_id q) (co_target c) (co_expected_hash c) (mem_id r)
          (mem_content_hash r))"

text \<open>The part of \<open>execute_project_memory_tool\<close> after the request is parsed.\<close>

definition propose ::
    "codec \<Rightarrow> string \<Rightarrow> memory_db \<Rightarrow> candidate_request \<Rightarrow> (mcp_error + tool_result) \<times> memory_db" where
  "propose C caller db q =
     (if (case cq_correction q of
            None \<Rightarrow> False
          | Some c \<Rightarrow> (case get_memory db (co_target c) of
              None \<Rightarrow> True
            | Some target \<Rightarrow> mem_content_hash target \<noteq> co_expected_hash c))
      then (Inr (Failure Correct RevisionConflict), db)
      else
        let native = candidate_native C caller q in
       (case get_memory db (the (nr_id native)) of
          Some existing \<Rightarrow>
            if \<not> candidate_matches C caller q existing
            then (Inr (Failure (candidate_tool q) RequestConflict), db)
            else (Inr (candidate_response q existing), db)
        | None \<Rightarrow>
           (case create_native (\<lambda>_. []) (db, 0) native of
              (Inr r, db', _) \<Rightarrow> (Inr (candidate_response q r), db')
            | (Inl e, db', _) \<Rightarrow>
               (case e of
                  CreateConflict _ \<Rightarrow> (Inr (Failure (candidate_tool q) RequestConflict), db')
                | _ \<Rightarrow> (Inl (RepositoryFailed e), db')))))"

definition execute_project_memory_tool ::
    "codec \<Rightarrow> string \<Rightarrow> memory_db option \<Rightarrow> string \<Rightarrow> jval
      \<Rightarrow> (mcp_error + tool_result) \<times> memory_db option" where
  "execute_project_memory_tool C caller workspace name args =
     (if name \<notin> {tool_value Remember, tool_value Correct}
      then (execute_read_only_tool C workspace name args, workspace)
      else case (if name = tool_value Remember then parse_remember args else parse_correct args) of
        None \<Rightarrow> (Inr (Failure (the (tool_of name)) InvalidRequest), workspace)
      | Some q \<Rightarrow>
          (case propose C caller
                 (case workspace of None \<Rightarrow> empty_memory_db | Some db \<Rightarrow> db) q of
             (res, db') \<Rightarrow> (res, Some db')))"

text \<open>
  \<open>on_call_tool\<close> of the two servers: the structured result with its error flag.  Absent
  arguments are the empty object.
\<close>

definition call_tool ::
    "codec \<Rightarrow> bool \<Rightarrow> string \<Rightarrow> memory_db option \<Rightarrow> string \<Rightarrow> jval option
      \<Rightarrow> (tool_result \<times> bool) \<times> memory_db option" where
  "call_tool C include_writes caller workspace name arguments =
     (let args = (case arguments of None \<Rightarrow> JMap [] | Some a \<Rightarrow> a);
          (outcome, workspace') =
            (if include_writes then execute_project_memory_tool C caller workspace name args
             else (execute_read_only_tool C workspace name args, workspace));
          res = (case outcome of
              Inr r \<Rightarrow> r
            | Inl _ \<Rightarrow> Failure (case tool_of name of None \<Rightarrow> Recall | Some t \<Rightarrow> t) InternalError)
      in ((res, case res of Failure _ _ \<Rightarrow> True | _ \<Rightarrow> False), workspace'))"

text \<open>The tools each server lists, with their read-only hint.\<close>

definition list_read_only_tools :: "(string \<times> bool) list" where
  "list_read_only_tools = [(''recall'', True), (''explain'', True)]"

definition list_project_memory_tools :: "(string \<times> bool) list" where
  "list_project_memory_tools =
     [(''remember'', False), (''recall'', the (map_of list_read_only_tools ''recall'')),
      (''correct'', False), (''explain'', the (map_of list_read_only_tools ''explain''))]"

text \<open>A session of calls in the order they arrive, with the results.\<close>

fun session :: "('c \<Rightarrow> 'w \<Rightarrow> 'r \<times> 'w) \<Rightarrow> 'w \<Rightarrow> 'c list \<Rightarrow> 'r list \<times> 'w" where
  "session handle w [] = ([], w)"
| "session handle w (c # cs) =
     (case handle c w of (r, w') \<Rightarrow>
       (case session handle w' cs of (rs, final) \<Rightarrow> (r # rs, final)))"

definition mcp_call ::
    "codec \<Rightarrow> bool \<Rightarrow> string \<Rightarrow> string \<times> jval option \<Rightarrow> memory_db option
      \<Rightarrow> (tool_result \<times> bool) \<times> memory_db option" where
  "mcp_call C include_writes caller c workspace =
     call_tool C include_writes caller workspace (fst c) (snd c)"

section \<open>One proposal\<close>

definition candidate_record :: "codec \<Rightarrow> string \<Rightarrow> candidate_request \<Rightarrow> memory" where
  "candidate_record C caller q =
     native_record (candidate_native C caller q) (the (nr_id (candidate_native C caller q)))"

definition candidate_id :: "codec \<Rightarrow> candidate_request \<Rightarrow> string" where
  "candidate_id C q = derived_id (c_sha C) (cq_id q) ''mem'' (candidate_purpose q)"

definition add_record :: "memory_db \<Rightarrow> memory \<Rightarrow> memory_db" where
  "add_record db r = db\<lparr>db_records := db_records db @ [(mem_id r, r)],
     db_revisions := db_revisions db @ [(mem_id r, r)]\<rparr>"

lemma add_record_simps [simp]:
  "db_records (add_record db r) = db_records db @ [(mem_id r, r)]"
  "db_revisions (add_record db r) = db_revisions db @ [(mem_id r, r)]"
  "db_reviews (add_record db r) = db_reviews db" "db_bindings (add_record db r) = db_bindings db"
  "db_syncs (add_record db r) = db_syncs db"
  by (simp_all add: add_record_def)

lemma candidate_native_id [simp]: "nr_id (candidate_native C caller q) = Some (candidate_id C q)"
  by (simp add: candidate_native_def candidate_id_def)

lemma candidate_record_id [simp]: "mem_id (candidate_record C caller q) = candidate_id C q"
  by (simp add: candidate_record_def)

lemma candidate_record_matches: "candidate_matches C caller q (candidate_record C caller q)"
  by (simp add: candidate_matches_def candidate_record_def native_record_def candidate_native_def)

lemma matches_with_state [simp]:
  "candidate_matches C caller q (with_review_state db i r) = candidate_matches C caller q r"
  by (simp add: with_review_state_def candidate_matches_def split: option.split)

lemma candidate_response_matches:
  "candidate_matches C caller q r \<Longrightarrow> candidate_matches C caller q r' \<Longrightarrow> mem_id r = mem_id r' \<Longrightarrow>
     candidate_response q r = candidate_response q r'"
  by (simp add: candidate_response_def candidate_matches_def split: option.split)

lemma get_memory_None: "get_memory db i = None \<longleftrightarrow> map_of (db_records db) i = None"
  by (simp add: get_memory_def split: option.split)

lemma create_candidate:
  assumes "get_memory db (candidate_id C q) = None"
  shows "create_native rand (db, n) (candidate_native C caller q) =
     (if valid_memory (candidate_record C caller q)
      then (Inr (candidate_record C caller q), add_record db (candidate_record C caller q), n)
      else (Inl RecordInvalid, db, n))"
  using assms
  by (simp add: create_native_def Let_def insert_explicit_record_def get_memory_None add_record_def
      candidate_record_def [symmetric, unfolded candidate_native_id option.sel])

text \<open>The guard of a correction on its target.\<close>

definition target_current :: "memory_db \<Rightarrow> candidate_request \<Rightarrow> bool" where
  "target_current db q \<longleftrightarrow>
     (\<forall>c. cq_correction q = Some c \<longrightarrow>
        (\<exists>t. get_memory db (co_target c) = Some t \<and> mem_content_hash t = co_expected_hash c))"

lemma propose_eq:
  "propose C caller db q =
     (if \<not> target_current db q then (Inr (Failure Correct RevisionConflict), db)
      else case get_memory db (candidate_id C q) of
        Some existing \<Rightarrow>
          if candidate_matches C caller q existing then (Inr (candidate_response q existing), db)
          else (Inr (Failure (candidate_tool q) RequestConflict), db)
      | None \<Rightarrow>
          if valid_memory (candidate_record C caller q)
          then (Inr (candidate_response q (candidate_record C caller q)),
                add_record db (candidate_record C caller q))
          else (Inl (RepositoryFailed RecordInvalid), db))"
  unfolding propose_def target_current_def
  by (auto simp: Let_def create_candidate split: option.splits)

lemma candidate_response_no_failure [simp]: "candidate_response q r \<noteq> Failure t c"
  by (simp add: candidate_response_def split: option.split)

lemma propose_cases:
  assumes "propose C caller db q = (res, db')"
  obtains (replayed) existing where "db' = db" "target_current db q"
      "get_memory db (candidate_id C q) = Some existing" "candidate_matches C caller q existing"
      "res = Inr (candidate_response q existing)"
  | (refused) "db' = db" "\<And>r. res = Inr r \<Longrightarrow> \<exists>t c. r = Failure t c"
  | (created) "db' = add_record db (candidate_record C caller q)" "target_current db q"
      "get_memory db (candidate_id C q) = None" "valid_memory (candidate_record C caller q)"
      "res = Inr (candidate_response q (candidate_record C caller q))"
proof (cases "target_current db q")
  case False
  with assms have "res = Inr (Failure Correct RevisionConflict)" "db' = db" by (simp_all add: propose_eq)
  then show ?thesis by (intro that(2)) auto
next
  case True
  show ?thesis
  proof (cases "get_memory db (candidate_id C q)")
    case None
    show ?thesis
    proof (cases "valid_memory (candidate_record C caller q)")
      case True
      with assms None \<open>target_current db q\<close> show ?thesis by (intro that(3)) (auto simp: propose_eq)
    next
      case False
      with assms None \<open>target_current db q\<close> show ?thesis by (intro that(2)) (auto simp: propose_eq)
    qed
  next
    case (Some existing)
    show ?thesis
    proof (cases "candidate_matches C caller q existing")
      case True
      with assms Some \<open>target_current db q\<close> show ?thesis by (intro that(1)) (auto simp: propose_eq)
    next
      case False
      with assms Some \<open>target_current db q\<close> show ?thesis by (intro that(2)) (auto simp: propose_eq)
    qed
  qed
qed

section \<open>What a proposal changes\<close>

text \<open>
  A database extends another by candidates of a caller: every record reads as before, no
  review is added, and what is new is a candidate of that caller.
\<close>

definition extends :: "string \<Rightarrow> memory_db \<Rightarrow> memory_db \<Rightarrow> bool" where
  "extends caller db db' \<longleftrightarrow>
     db_reviews db' = db_reviews db \<and>
     (\<forall>i m. get_memory db i = Some m \<longrightarrow> get_memory db' i = Some m) \<and>
     (\<forall>i m. get_memory db i = None \<and> get_memory db' i = Some m \<longrightarrow>
        mem_state m = Candidate \<and> mem_created_by m = Some caller)"

lemma extends_refl [simp]: "extends caller db db"
  by (auto simp: extends_def)

lemma extends_trans:
  "extends caller db1 db2 \<Longrightarrow> extends caller db2 db3 \<Longrightarrow> extends caller db1 db3"
  unfolding extends_def by (metis not_Some_eq)

lemma fresh_no_review:
  assumes "memory_ok db" and "get_memory db i = None"
  shows "review_of db i h = None"
proof -
  have n: "i \<notin> fst ` set (db_records db)"
    using assms(2) by (simp add: get_memory_None map_of_eq_None_iff)
  have "rv_record v \<noteq> i" if "v \<in> set (db_reviews db)" for v
    using that n assms(1) unfolding memory_ok_def reviews_ok_def records_ok_def by fastforce
  then have "last_match (\<lambda>v. rv_record v = i \<and> rv_hash v = h) (db_reviews db) = None"
    by (auto simp: last_match_def find_None_iff)
  then show ?thesis by (simp add: review_of_def)
qed

lemma with_state_add [simp]: "with_review_state (add_record db r) i = with_review_state db i"
  by (simp add: with_review_state_def review_of_def fun_eq_iff)

lemma add_candidate_extends:
  assumes "memory_ok db" and "get_memory db (candidate_id C q) = None"
  shows "extends caller db (add_record db (candidate_record C caller q))"
proof -
  let ?r = "candidate_record C caller q"
  have "with_review_state db (candidate_id C q) ?r = ?r"
    by (simp add: with_review_state_def fresh_no_review [OF assms])
  moreover have "mem_state ?r = Candidate" "mem_created_by ?r = Some caller"
    by (simp_all add: candidate_record_def native_record_def candidate_native_def)
  ultimately show ?thesis
    using assms(2)
    by (auto simp: extends_def get_memory_def map_of_append map_add_def split: option.splits if_splits)
qed

lemma add_candidate_ok:
  assumes "memory_ok db" and "get_memory db (candidate_id C q) = None"
    and "valid_memory (candidate_record C caller q)"
  shows "memory_ok (add_record db (candidate_record C caller q))"
  using create_native_ok [OF assms(1) create_candidate [OF assms(2),
        of "\<lambda>_. []" 0 caller, unfolded if_P [OF assms(3)]]] .

lemma propose_extends:
  assumes "memory_ok db" and "propose C caller db q = (res, db')"
  shows "memory_ok db' \<and> extends caller db db'"
  using assms(2)
  by (cases rule: propose_cases) (use assms(1) add_candidate_ok add_candidate_extends in auto)

end
