(* ===== verification/Mcp_Sessions.thy ===== *)
theory Mcp_Sessions
  imports Mcp
begin

text \<open>
  Sessions of MCP calls.  The locale \<open>replayable_service\<close> is the contract a client relies on
  when it retries: a call keeps the invariant, moves the state up a preorder, and a settled
  answer stays the answer.  It is interpreted on the project-memory server.
\<close>

locale replayable_service =
  fixes handle :: "'c \<Rightarrow> 'w \<Rightarrow> 'r \<times> 'w"
    and invar :: "'w \<Rightarrow> bool"
    and above :: "'w \<Rightarrow> 'w \<Rightarrow> bool"
    and settled :: "'c \<Rightarrow> 'r \<Rightarrow> bool"
  assumes above_refl: "above w w"
    and above_trans: "above w1 w2 \<Longrightarrow> above w2 w3 \<Longrightarrow> above w1 w3"
    and call_keeps: "invar w \<Longrightarrow> handle c w = (r, w') \<Longrightarrow> invar w' \<and> above w w'"
    and settled_stays: "invar w \<Longrightarrow> handle c w = (r, w') \<Longrightarrow> settled c r \<Longrightarrow> above w' w'' \<Longrightarrow>
      handle c w'' = (r, w'')"
begin

lemma session_keeps: "invar w \<Longrightarrow> session handle w cs = (rs, w') \<Longrightarrow> invar w' \<and> above w w'"
proof (induction cs arbitrary: w rs)
  case Nil
  then show ?case by (simp add: above_refl)
next
  case (Cons c cs)
  obtain r w1 where h: "handle c w = (r, w1)" by (cases "handle c w")
  obtain rs' where s: "session handle w1 cs = (rs', w')"
    using Cons.prems(2) h by (auto split: prod.splits)
  show ?case
    using call_keeps [OF Cons.prems(1) h] Cons.IH [OF _ s] above_trans by blast
qed

lemma replay_after_session:
  assumes "invar w" and "handle c w = (r, w1)" and "settled c r"
    and "session handle w1 cs = (rs, w2)"
  shows "handle c w2 = (r, w2)"
  using settled_stays [OF assms(1-3)] session_keeps [OF _ assms(4)] call_keeps [OF assms(1,2)] by blast

end

section \<open>The project-memory server provides it\<close>

definition workspace_db :: "memory_db option \<Rightarrow> memory_db" where
  "workspace_db w = (case w of None \<Rightarrow> empty_memory_db | Some db \<Rightarrow> db)"

definition workspace_ok :: "memory_db option \<Rightarrow> bool" where
  "workspace_ok w \<longleftrightarrow> memory_ok (workspace_db w)"

text \<open>
  A workspace is not deleted, its database only extended, and not even that by the read-only
  server.
\<close>

definition workspace_extends ::
    "bool \<Rightarrow> string \<Rightarrow> memory_db option \<Rightarrow> memory_db option \<Rightarrow> bool" where
  "workspace_extends writes caller w w' \<longleftrightarrow>
     (w \<noteq> None \<longrightarrow> w' \<noteq> None) \<and> extends caller (workspace_db w) (workspace_db w') \<and>
     (\<not> writes \<longrightarrow> w' = w)"

definition is_candidate_tool :: "string \<Rightarrow> bool" where
  "is_candidate_tool name \<longleftrightarrow> name \<in> {''remember'', ''correct''}"

text \<open>A candidate call that did not fail.\<close>

definition accepted :: "string \<times> jval option \<Rightarrow> tool_result \<times> bool \<Rightarrow> bool" where
  "accepted c r \<longleftrightarrow> is_candidate_tool (fst c) \<and> \<not> snd r"

definition args_of :: "jval option \<Rightarrow> jval" where
  "args_of a = (case a of None \<Rightarrow> JMap [] | Some v \<Rightarrow> v)"

definition parse_candidate_call :: "string \<times> jval option \<Rightarrow> candidate_request option" where
  "parse_candidate_call c =
     (if fst c = ''remember'' then parse_remember (args_of (snd c)) else parse_correct (args_of (snd c)))"

definition is_failure :: "tool_result \<Rightarrow> bool" where
  "is_failure r = (case r of Failure _ _ \<Rightarrow> True | _ \<Rightarrow> False)"

lemma is_failure_simps [simp]:
  "is_failure (Failure t c)" "\<not> is_failure (candidate_response q r)"
  "\<not> is_failure (Recalled i m rs)" "\<not> is_failure (Explained x)" "\<not> is_failure (Unavailable t u)"
  by (auto simp: is_failure_def candidate_response_def split: option.split)

definition outcome_result :: "string \<Rightarrow> mcp_error + tool_result \<Rightarrow> tool_result" where
  "outcome_result name outcome =
     (case outcome of
        Inr r \<Rightarrow> r
      | Inl _ \<Rightarrow> Failure (case tool_of name of None \<Rightarrow> Recall | Some t \<Rightarrow> t) InternalError)"

lemma outcome_result_simps [simp]:
  "outcome_result name (Inr r) = r" "is_failure (outcome_result name (Inl e))"
  by (simp_all add: outcome_result_def)

text \<open>A call is a read, or an unparsable candidate, or a proposal.\<close>

lemma mcp_call_eq:
  "mcp_call C writes caller c w =
     (if \<not> writes \<or> \<not> is_candidate_tool (fst c)
      then let r = outcome_result (fst c) (execute_read_only_tool C w (fst c) (args_of (snd c)))
           in ((r, is_failure r), w)
      else case parse_candidate_call c of
        None \<Rightarrow> ((Failure (the (tool_of (fst c))) InvalidRequest, True), w)
      | Some q \<Rightarrow> (case propose C caller (workspace_db w) q of (res, db') \<Rightarrow>
          ((outcome_result (fst c) res, is_failure (outcome_result (fst c) res)), Some db')))"
  unfolding mcp_call_def call_tool_def execute_project_memory_tool_def args_of_def [symmetric]
    workspace_db_def [symmetric] outcome_result_def [symmetric] is_failure_def [symmetric]
  by (auto simp: Let_def is_candidate_tool_def parse_candidate_call_def split: option.split prod.split)

lemma mcp_call_keeps:
  assumes "workspace_ok w" and "mcp_call C writes caller c w = (r, w')"
  shows "workspace_ok w' \<and> workspace_extends writes caller w w'"
proof (cases "writes \<and> is_candidate_tool (fst c) \<and> parse_candidate_call c \<noteq> None")
  case False
  then have "w' = w"
    using assms(2) by (auto simp: mcp_call_eq Let_def split: if_splits option.splits)
  then show ?thesis using assms(1) by (simp add: workspace_extends_def)
next
  case True
  then obtain q where q: "parse_candidate_call c = Some q" by blast
  obtain res db' where p: "propose C caller (workspace_db w) q = (res, db')"
    by (cases "propose C caller (workspace_db w) q")
  then have w': "w' = Some db'" using assms(2) True q by (simp add: mcp_call_eq)
  show ?thesis
    using propose_extends [OF _ p] assms(1) True
    by (simp add: w' workspace_ok_def workspace_extends_def workspace_db_def)
qed

lemma extends_target_current: "extends who db db' \<Longrightarrow> target_current db q \<Longrightarrow> target_current db' q"
  unfolding extends_def target_current_def by blast

lemma propose_replay:
  assumes "memory_ok db" and "propose C caller db q = (Inr r, db1)" and "\<not> is_failure r"
    and "extends who db1 db2"
  shows "propose C caller db2 q = (Inr r, db2)"
proof -
  have "\<exists>m. get_memory db1 (candidate_id C q) = Some m \<and> candidate_matches C caller q m \<and>
      target_current db1 q \<and> r = candidate_response q m"
    using assms(2)
  proof (cases rule: propose_cases)
    case (replayed existing)
    then show ?thesis by simp
  next
    case refused
    then show ?thesis using assms(3) by fastforce
  next
    case created
    have e: "extends caller db db1"
      unfolding created(1) by (rule add_candidate_extends [OF assms(1) created(3)])
    have "with_review_state db (candidate_id C q) (candidate_record C caller q) =
        candidate_record C caller q"
      by (simp add: with_review_state_def fresh_no_review [OF assms(1) created(3)])
    then have "get_memory db1 (candidate_id C q) = Some (candidate_record C caller q)"
      using created(1,3) by (simp add: get_memory_def map_of_append map_add_def get_memory_None
          split: option.splits)
    then show ?thesis
      using created(5) extends_target_current [OF e created(2)] candidate_record_matches by simp
  qed
  then obtain m where m: "get_memory db1 (candidate_id C q) = Some m" "candidate_matches C caller q m"
      "target_current db1 q" "r = candidate_response q m"
    by blast
  have "get_memory db2 (candidate_id C q) = Some m"
    using assms(4) m(1) by (simp add: extends_def)
  then show ?thesis
    using m extends_target_current [OF assms(4) m(3)] by (simp add: propose_eq)
qed

interpretation server: replayable_service "mcp_call C writes caller" workspace_ok
  "workspace_extends writes caller" accepted for C writes caller
proof unfold_locales
  fix w w1 w2 w3 w' w'' :: "memory_db option" and c r
  show "workspace_extends writes caller w w" by (simp add: workspace_extends_def)
  show "workspace_extends writes caller w1 w3"
    if "workspace_extends writes caller w1 w2" and "workspace_extends writes caller w2 w3"
    using that extends_trans unfolding workspace_extends_def by blast
  show "workspace_ok w' \<and> workspace_extends writes caller w w'"
    if "workspace_ok w" and "mcp_call C writes caller c w = (r, w')"
    using that by (rule mcp_call_keeps)
  show "mcp_call C writes caller c w'' = (r, w'')"
    if "workspace_ok w" and "mcp_call C writes caller c w = (r, w')" and "accepted c r"
      and "workspace_extends writes caller w' w''"
  proof -
    note prems = that
    have writes
      using prems(2,3) tool_of_value [of Remember] tool_of_value [of Correct]
      by (rule_tac ccontr) (auto simp: mcp_call_eq accepted_def is_candidate_tool_def Let_def
          execute_read_only_tool_def)
    obtain q where q: "parse_candidate_call c = Some q"
      using prems(2,3) \<open>writes\<close> by (cases "parse_candidate_call c") (auto simp: mcp_call_eq accepted_def)
    obtain res db' where p: "propose C caller (workspace_db w) q = (res, db')"
      by (cases "propose C caller (workspace_db w) q")
    have w': "w' = Some db'" and r: "r = (outcome_result (fst c) res, False)"
      using prems(2,3) q p \<open>writes\<close> by (auto simp: mcp_call_eq accepted_def)
    obtain x where x: "res = Inr x" "\<not> is_failure x"
      using prems(2,3) q p \<open>writes\<close> by (cases res) (auto simp: mcp_call_eq accepted_def)
    have "propose C caller (workspace_db w'') q = (Inr x, workspace_db w'')"
    proof (rule propose_replay [OF _ p [unfolded x(1)] x(2)])
      show "memory_ok (workspace_db w)" using prems(1) by (simp add: workspace_ok_def)
      show "extends caller db' (workspace_db w'')"
        using prems(4) by (simp add: workspace_extends_def w' workspace_db_def)
    qed
    moreover have "w'' = Some (workspace_db w'')"
      using prems(4) by (auto simp: workspace_extends_def w' workspace_db_def)
    ultimately show ?thesis
      using prems(3) q x r \<open>writes\<close> by (simp add: mcp_call_eq accepted_def)
  qed
qed

section \<open>Properties\<close>

text \<open>
  C17: no session of MCP calls grants authority: whatever calls arrive in whatever order, the
  database stays well formed, no review is added, every record reads exactly as before, what
  is new is a candidate created by the caller, and the read-only server changes nothing.
\<close>

theorem mcp_grants_no_authority:
  assumes "memory_ok db" and "session (mcp_call C writes caller) (Some db) calls = (results, w)"
  shows "\<exists>db'. w = Some db' \<and> memory_ok db' \<and> db_reviews db' = db_reviews db \<and>
    (\<forall>i m. get_memory db i = Some m \<longrightarrow> get_memory db' i = Some m) \<and>
    (\<forall>i m. get_memory db i = None \<and> get_memory db' i = Some m \<longrightarrow>
       mem_state m = Candidate \<and> mem_created_by m = Some caller) \<and>
    (\<not> writes \<longrightarrow> db' = db)"
proof -
  have "workspace_ok w \<and> workspace_extends writes caller (Some db) w"
    using server.session_keeps [OF _ assms(2)] assms(1) by (simp add: workspace_ok_def workspace_db_def)
  then show ?thesis
    by (auto simp: workspace_ok_def workspace_extends_def workspace_db_def extends_def)
qed

text \<open>
  A client may retry: a \<open>remember\<close> or \<open>correct\<close> call that succeeded is answered in the
  same way, and changes nothing, when it is repeated after any further calls.
\<close>

theorem candidate_call_replays:
  assumes "memory_ok db" and "name \<in> {''remember'', ''correct''}"
    and "mcp_call C True caller (name, args) (Some db) = ((r, False), w1)"
    and "session (mcp_call C True caller) w1 calls = (results, w2)"
  shows "mcp_call C True caller (name, args) w2 = ((r, False), w2)"
  using server.replay_after_session [OF _ assms(3) _ assms(4)] assms(1,2)
  by (simp add: workspace_ok_def workspace_db_def accepted_def is_candidate_tool_def)

lemma recall_Recalled:
  assumes "recall C records q = Inr (Recalled rid m rs)"
  obtains ms sel where "rid = rq_id q" "request_time (rq_id q) = Inr ms"
    "compile_context C (rank_memory_records records (rq_query q))
       (derived_id (c_sha C) (rq_id q) ''ctx'' ''recall-context'')
       (derived_id (c_sha C) (rq_id q) ''tsk'' ''recall-task'') (1000 * ms) (rq_budget q) = Inr (m, sel)"
    "rs = map recalled_of sel" "map rc_record rs = map ci_record (cm_items m)"
proof -
  have ms: "\<exists>ms. request_time (rq_id q) = Inr ms"
    using assms by (cases "request_time (rq_id q)") (auto simp: recall_def split: if_splits)
  then obtain ms where ms: "request_time (rq_id q) = Inr ms" by blast
  let ?c = "compile_context C (rank_memory_records records (rq_query q))
       (derived_id (c_sha C) (rq_id q) ''ctx'' ''recall-context'')
       (derived_id (c_sha C) (rq_id q) ''tsk'' ''recall-task'') (1000 * ms) (rq_budget q)"
  obtain m' sel where c: "?c = Inr (m', sel)"
    using assms ms by (cases ?c) (auto simp: recall_def split: if_splits)
  obtain rs' where r: "map_result (\<lambda>r. validate_recalled (recalled_of r)) sel = Inr rs'"
    "validate_recall_response (rq_id q) m' rs' = Inr (Recalled rid m rs)"
    using assms ms c by (auto simp: recall_def result_simps split: if_splits)
  have "list_all2 (\<lambda>x y. validate_recalled (recalled_of x) = Inr y) sel rs'"
    using r(1) by (simp add: map_result_Inr_iff)
  then have rs': "rs' = map recalled_of sel"
    by (induction rule: list_all2_induct) (auto simp: validate_recalled_def guarded_eq_Inr)
  have bound: "map (\<lambda>r. (rc_record r, rc_hash r)) rs' = map (\<lambda>i. (ci_record i, ci_hash i)) (cm_items m')"
    and e: "rid = rq_id q" "m = m'" "rs = rs'"
    using r(2) by (auto simp: validate_recall_response_def guarded_eq_Inr)
  from arg_cong [OF bound, of "map fst"] have "map rc_record rs = map ci_record (cm_items m)"
    by (simp add: e o_def)
  with that [OF e(1) ms] c rs' e show ?thesis by blast
qed

lemma mcp_recall_call:
  assumes "mcp_call C writes caller (''recall'', args) (Some db) = ((Recalled rid m rs, err), w)"
  obtains q where "parse_recall (args_of args) = Some q" "w = Some db" "\<not> err"
    "recall C (list_memory db) q = Inr (Recalled rid m rs)"
proof -
  have c: "outcome_result ''recall'' (execute_read_only_tool C (Some db) ''recall'' (args_of args)) =
      Recalled rid m rs" "w = Some db" "\<not> err"
    using assms by (auto simp: mcp_call_eq is_candidate_tool_def Let_def)
  then have x: "execute_read_only_tool C (Some db) ''recall'' (args_of args) = Inr (Recalled rid m rs)"
    by (auto simp: outcome_result_def split: sum.splits)
  have t: "tool_of ''recall'' = Some Recall"
    using tool_of_value [of Recall] by simp
  show ?thesis
    using x that [OF _ c(2,3)] by (auto simp: execute_read_only_tool_def t split: if_splits)
qed

text \<open>
  What \<open>recall\<close> returns is approved and exact: every returned text is the current content
  of a record whose very content carries an approval and whose source is present, the
  citations are the items of the manifest in order, and the total stays within the budget of
  the request.
\<close>

theorem recall_returns_approved_content:
  assumes "memory_ok db"
    and "mcp_call C writes caller (''recall'', args) (Some db) = ((Recalled rid m rs, err), w)"
  shows "w = Some db \<and> map rc_record rs = map ci_record (cm_items m) \<and>
    (\<exists>q. parse_recall (args_of args) = Some q \<and> rid = rq_id q \<and>
       sum_list (map (\<lambda>x. int (length (py_split (rc_content x)))) rs) \<le> rq_budget q) \<and>
    (\<forall>x\<in>set rs. \<exists>r. get_memory db (rc_record x) = Some r \<and> mem_state r = Approved \<and>
       mem_source_status r \<noteq> Some ''missing'' \<and> rc_content x = mem_content r \<and>
       rc_hash x = mem_content_hash r \<and> history db (rc_record x) (rc_hash x) = [Approved])"
proof -
  obtain q where q: "parse_recall (args_of args) = Some q" "w = Some db"
      "recall C (list_memory db) q = Inr (Recalled rid m rs)"
    using assms(2) by (rule mcp_recall_call)
  obtain ms sel where s: "rid = rq_id q"
      "compile_context C (rank_memory_records (list_memory db) (rq_query q))
        (derived_id (c_sha C) (rq_id q) ''ctx'' ''recall-context'')
        (derived_id (c_sha C) (rq_id q) ''tsk'' ''recall-task'') (1000 * ms) (rq_budget q) = Inr (m, sel)"
      "rs = map recalled_of sel" "map rc_record rs = map ci_record (cm_items m)"
    using q(3) by (rule recall_Recalled)
  note c = s(2) [unfolded compile_context_Inr]
  have budget: "sum_list (map token_count sel) \<le> rq_budget q"
    using c taken_total [of 0 "rq_budget q" "ret_ranked (rank_memory_records (list_memory db) (rq_query q))"]
      parse_recall_ok(4) [OF q(1)]
    by (simp add: tokens_of_def o_def)
  have sel: "get_memory db (mem_id r) = Some r \<and> eligible r" if "r \<in> set sel" for r
    using that c taken_subset ranked_members list_memory_lookup [OF assms(1)] by fastforce
  have "history db (mem_id r) (mem_content_hash r) = [Approved]" if "r \<in> set sel" for r
    using repository.state_iff_decided(1) [OF assms(1), of "mem_id r" r] sel [OF that]
    by (simp add: eligible_def)
  then show ?thesis
    using q(1,2) s sel budget
    by (auto simp: recalled_of_def eligible_def o_def token_count_def [abs_def])
qed

text \<open>
  The request time is read from the identity of the request, and the contract admits
  identities whose time lies beyond the year 9999: such a request is answered with an internal
  error whenever approved memory exists.
\<close>

theorem late_request_identity_fails:
  assumes "parse_recall (args_of args) = Some q" and "request_time (rq_id q) = Inl e"
    and "retrieve_approved_memory db \<noteq> []"
  shows "mcp_call C writes caller (''recall'', args) (Some db) =
    ((Failure Recall InternalError, True), Some db)"
proof -
  have t: "tool_of ''recall'' = Some Recall"
    using tool_of_value [of Recall] by simp
  have ne: "list_memory db \<noteq> []"
    using assms(3) by (auto simp: retrieve_approved_memory_def)
  have "recall C (list_memory db) q = Inl (TimeFailed e)"
    using assms(2,3) unfolding recall_def retrieve_approved_memory_def by simp
  then have "execute_read_only_tool C (Some db) ''recall'' (args_of args) = Inl (TimeFailed e)"
    using assms(1) ne by (simp add: execute_read_only_tool_def t)
  then show ?thesis
    by (simp add: mcp_call_eq is_candidate_tool_def Let_def outcome_result_def t)
qed

section \<open>Explanations\<close>

lemma get_revision_facts:
  assumes "memory_ok db" and "get_revision db i h = Some r"
  shows "mem_id r = i" "mem_content_hash r = h" "get_memory db i \<noteq> None"
    "mem_state r \<notin> {Contradicted, Retracted}"
    "mem_state r = Approved \<longleftrightarrow> history db i h = [Approved]"
    "mem_state r = Superseded \<longleftrightarrow> history db i h = [Approved, Superseded]"
proof -
  let ?P = "\<lambda>(j, r). j = i \<and> mem_content_hash r = h"
  obtain j r0 where l: "last_match ?P (db_revisions db) = Some (j, r0)"
      and r: "r = with_review_state db i r0"
    using assms(2) unfolding get_revision_def
    by (cases "last_match ?P (db_revisions db)") auto
  have r0: "(i, r0) \<in> set (db_revisions db)" "mem_content_hash r0 = h"
    using last_match_Some [OF l] by auto
  have inv: "i \<in> fst ` set (db_records db)" "mem_id r0 = i" "initial_state (mem_state r0)"
      "legal_history (history db i h)"
    using assms(1) r0(1) by (auto simp: memory_ok_def records_ok_def reviews_ok_def)
  show "mem_id r = i" "mem_content_hash r = h"
    using r r0 inv by (auto simp: with_review_state_def split: option.splits)
  show "get_memory db i \<noteq> None"
    using inv(1) by (simp add: get_memory_None map_of_eq_None_iff)
  have state: "mem_state r = (case history db i h of [] \<Rightarrow> mem_state r0 | ds \<Rightarrow> last ds)"
    using state_of_history [of db i r0] r r0(2) by simp
  have init: "mem_state r0 = Candidate \<or> mem_state r0 = Curated"
    using inv(3) by (simp add: initial_state_def)
  consider "history db i h = []" | "history db i h = [Approved]" | "history db i h = [Rejected]"
    | "history db i h = [Approved, Superseded]"
    using inv(4) unfolding legal_history_def by blast
  then show "mem_state r \<notin> {Contradicted, Retracted}"
    "mem_state r = Approved \<longleftrightarrow> history db i h = [Approved]"
    "mem_state r = Superseded \<longleftrightarrow> history db i h = [Approved, Superseded]"
    using init by (cases; simp add: state; auto)+
qed

lemma reason_for_reachable:
  "mem_state r \<notin> {Contradicted, Retracted} \<Longrightarrow>
   reason_for current r q
     \<notin> {ReasonContradicted, ReasonRetracted, ReasonNoQueryMatch, ReasonTokenBudget}"
  by (cases "mem_state r") (simp_all add: reason_for_def)

lemma reason_for_Selected:
  "reason_for (Some m) r q = Selected \<longleftrightarrow>
     mem_content_hash m = xq_hash q \<and> mem_state r = Approved \<and> mem_source_status r \<noteq> Some ''missing''"
  by (cases "mem_state r") (simp_all add: reason_for_def)

lemma explain_Some:
  assumes "get_revision db (xq_record q) (xq_hash q) = Some r"
  shows "explain db q = Inr (Explained
    \<lparr> xp_request = xq_id q, xp_record = mem_id r, xp_hash = mem_content_hash r,
      xp_state = mem_state r,
      xp_reasons = [reason_for (get_memory db (xq_record q)) r q],
      xp_lineage = entry_of Requested r # corrected_entries db r @ replacement_entries db r \<rparr>)"
  using assms by (simp add: explain_def validate_explanation_def entry_of_def guard_simps)

lemma mcp_explain_call:
  assumes "parse_explain (args_of args) = Some q" and "list_memory db \<noteq> []"
    and "explain db q = Inr (Explained x)"
  shows "mcp_call C writes caller (''explain'', args) (Some db) = ((Explained x, False), Some db)"
proof -
  have t: "tool_of ''explain'' = Some Explain"
    using tool_of_value [of Explain] by simp
  have "execute_read_only_tool C (Some db) ''explain'' (args_of args) = Inr (Explained x)"
    using assms by (simp add: execute_read_only_tool_def t)
  then show ?thesis
    by (simp add: mcp_call_eq is_candidate_tool_def Let_def outcome_result_def)
qed

text \<open>
  A valid \<open>explain\<close> call for a stored revision never ends in an internal error: it is
  answered with a lineage headed by the revision itself and one reason, which is a selection
  exactly when the revision is current, approved and not marked missing, and
  never one of \<open>contradicted\<close>, \<open>retracted\<close>, \<open>no_query_match\<close> and \<open>token_budget\<close>.
\<close>

theorem explain_gives_the_reason:
  assumes "memory_ok db" and "parse_explain (args_of args) = Some q"
    and "get_revision db (xq_record q) (xq_hash q) = Some r"
  shows "\<exists>x reason. mcp_call C writes caller (''explain'', args) (Some db) = ((Explained x, False), Some db) \<and>
    hd (xp_lineage x) = \<lparr> le_record = xq_record q, le_hash = xq_hash q, le_state = mem_state r,
      le_relationship = Requested \<rparr> \<and>
    xp_reasons x = [reason] \<and>
    reason \<notin> {ReasonContradicted, ReasonRetracted, ReasonNoQueryMatch, ReasonTokenBudget} \<and>
    (reason = Selected \<longleftrightarrow>
       (\<exists>m. get_memory db (xq_record q) = Some m \<and> mem_content_hash m = xq_hash q) \<and>
       history db (xq_record q) (xq_hash q) = [Approved] \<and> mem_source_status r \<noteq> Some ''missing'')"
proof -
  note f = get_revision_facts [OF assms(1,3)]
  obtain m where m: "get_memory db (xq_record q) = Some m" using f(3) by blast
  have "m \<in> set (list_memory db)"
    using list_memory_lookup [OF assms(1), of m] get_memory_state [OF assms(1) m] m by metis
  then have ne: "list_memory db \<noteq> []" by (cases "list_memory db") simp_all
  show ?thesis
    apply (rule exI, rule exI, rule conjI, rule mcp_explain_call [OF assms(2) ne explain_Some [OF assms(3)]])
    apply (simp only: memory.simps explanation.simps list.sel m entry_of_def f(1,2,5)
        reason_for_Selected option.inject list.inject simp_thms)
    apply (rule conjI, rule refl)
    using reason_for_reachable [OF f(4)] reason_for_Selected [of m r q] f(5) by simp
qed

section \<open>Recall answers\<close>

lemma recalled_of_valid:
  assumes "valid_memory r" and "length (mem_content r) \<le> 65536"
  shows "validate_recalled (recalled_of r) = Inr (recalled_of r)"
  using assms valid_memoryD [OF assms(1)]
  by (simp add: validate_recalled_def recalled_of_def guard_simps mem_id_is_record_id Suc_le_eq)

lemma recall_answers:
  assumes "hash_ok (c_sha C)" and "json_at_least 1 (rq_budget q)" and "distinct (map mem_id records)"
    and "\<forall>r\<in>set records. valid_memory r \<and> length (mem_domains r) \<le> 16 \<and> length (mem_content r) \<le> 65536"
    and "int (length records) \<le> max_interoperable_integer" and "length (rq_query q) \<le> 16384"
    and "request_time (rq_id q) = Inr ms"
    and "filter (\<lambda>r. mem_state r = Approved \<and> mem_source_status r \<noteq> Some ''missing'') records \<noteq> []"
  shows "\<exists>m rs. recall C records q = Inr (Recalled (rq_id q) m rs)"
proof -
  let ?ctx = "derived_id (c_sha C) (rq_id q) ''ctx'' ''recall-context''"
  let ?tsk = "derived_id (c_sha C) (rq_id q) ''tsk'' ''recall-task''"
  have "int (9 * length (rq_query q) + 8) \<le> max_interoperable_integer"
    using assms(6) by (simp add: max_interoperable_integer_def)
  then obtain m sel where c: "compile_context C (rank_memory_records records (rq_query q)) ?ctx ?tsk
      (1000 * ms) (rq_budget q) = Inr (m, sel)"
    using compile_valid_records [OF assms(1) derived_id_tagged derived_id_tagged assms(2,3) _ assms(5)]
      assms(4) by blast
  note i = c [unfolded compile_context_Inr]
  have "r \<in> set records" if "r \<in> set sel" for r
    using that i taken_subset ranked_members by fastforce
  then have "map_result (\<lambda>r. validate_recalled (recalled_of r)) sel = Inr (map recalled_of sel)"
    using assms(4) by (intro map_result_all_Inr recalled_of_valid) auto
  moreover have "validate_recall_response (rq_id q) m (map recalled_of sel) =
      Inr (Recalled (rq_id q) m (map recalled_of sel))"
    using i
    by (auto simp: validate_recall_response_def guard_simps item_of_def Let_def recalled_of_def
        list_all_iff zip_map_map set_zip token_count_def)
  ultimately show ?thesis
    using assms(7,8) c by (simp add: recall_def)
qed

section \<open>The properties on concrete calls\<close>

definition sample_recall :: "string \<Rightarrow> jval" where
  "sample_recall i = jobj [(''schema_version'', JInt 1), (''request_id'', JStr i),
     (''query'', JStr ''text''), (''token_budget'', JInt 10)]"

definition sample_explain :: jval where
  "sample_explain = jobj [(''schema_version'', JInt 1), (''request_id'', JStr (sample_id ''evt'' (CHR ''1''))),
     (''record_id'', JStr (mem_id sample_mem)), (''content_hash'', JStr sample_digest)]"

definition sample_remember :: jval where
  "sample_remember = jobj [(''schema_version'', JInt 1),
     (''request_id'', JStr (sample_id ''evt'' (CHR ''1''))), (''title'', JStr ''A''),
     (''content'', JStr ''text''), (''category'', JStr ''note''),
     (''domains'', JSeq [JStr ''general'']), (''source_refs'', JSeq [JStr (sample_id ''evt'' (CHR ''2''))])]"

lemma sample_recall_parsed:
  "tagged_id ''evt'' i \<Longrightarrow> parse_recall (args_of (Some (sample_recall i))) =
     Some \<lparr> rq_id = i, rq_query = ''text'', rq_budget = 10 \<rparr>"
  by (simp add: parse_recall_def args_of_def sample_recall_def only_fields_def jobj_def schema_field_def
      integer_field_def json_integer_def require_exact_integer_def max_interoperable_integer_def
      pattern_field_def text_field_def is_event_id_def)

theorem mcp_grants_no_authority_witness:
  "\<exists>db'. snd (session (mcp_call sample_codec True ''model_mcp_client'') (Some approved_db)
      [(''remember'', Some sample_remember)]) = Some db' \<and> db_reviews db' = [sample_approval]"
  using mcp_grants_no_authority [OF approved_ok, of sample_codec True "''model_mcp_client''"
      "[(''remember'', Some sample_remember)]" _ "snd (session (mcp_call sample_codec True ''model_mcp_client'')
        (Some approved_db) [(''remember'', Some sample_remember)])", OF prod.collapse [symmetric]]
  by (auto simp: approved_db_def)

definition sample_candidate :: candidate_request where
  "sample_candidate = \<lparr> cq_id = sample_id ''evt'' (CHR ''1''), cq_title = ''A'', cq_content = ''text'',
     cq_category = Note, cq_domains = [General], cq_topics = [],
     cq_refs = [sample_id ''evt'' (CHR ''2'')], cq_correction = None \<rparr>"

lemma sample_ref_record_id: "c \<in> set crockford \<Longrightarrow> is_record_id (sample_id ''evt'' c)"
  by (simp add: is_record_id_def)

lemma sample_remember_parsed:
  "parse_candidate_call (''remember'', Some sample_remember) = Some sample_candidate"
proof -
  have "category_of ''note'' = Some Note" "domain_of ''general'' = Some General"
    by code_simp+
  then show ?thesis
    by (simp add: parse_candidate_call_def parse_remember_def parse_candidate_def args_of_def
        sample_remember_def sample_candidate_def only_fields_def jobj_def schema_field_def
        integer_field_def json_integer_def require_exact_integer_def max_interoperable_integer_def
        pattern_field_def text_field_def is_event_id_def candidate_fields_def texts_of_def
        sample_ref_record_id crockford_def)
qed

lemma sample_candidate_valid: "valid_memory (candidate_record sample_codec ''model_mcp_client'' sample_candidate)"
proof -
  have "is_actor_id ''model_mcp_client''" by code_simp
  moreover have "hash_ok (c_sha sample_codec)" using sample_args(1) .
  ultimately show ?thesis
    by (simp add: valid_memory_def candidate_record_def native_record_def candidate_native_def
        sample_candidate_def derived_id_tagged digest_ref_is_digest sample_ref_record_id crockford_def)
qed

lemma sample_remembered:
  "mcp_call sample_codec True ''model_mcp_client'' (''remember'', Some sample_remember) (Some empty_memory_db) =
     ((candidate_response sample_candidate (candidate_record sample_codec ''model_mcp_client'' sample_candidate),
       False), Some (add_record empty_memory_db
         (candidate_record sample_codec ''model_mcp_client'' sample_candidate)))"
proof -
  have "get_memory empty_memory_db i = None" for i
    by (simp add: get_memory_None empty_memory_db_def)
  moreover have "target_current empty_memory_db sample_candidate"
    by (simp add: target_current_def sample_candidate_def)
  ultimately show ?thesis
    using sample_candidate_valid
    by (simp add: mcp_call_eq is_candidate_tool_def sample_remember_parsed workspace_db_def propose_eq)
qed

theorem candidate_call_replays_witness:
  "let r = (candidate_response sample_candidate (candidate_record sample_codec ''model_mcp_client'' sample_candidate),
       False);
     w = snd (session (mcp_call sample_codec True ''model_mcp_client'')
       (snd (mcp_call sample_codec True ''model_mcp_client'' (''remember'', Some sample_remember) (Some empty_memory_db)))
       [(''recall'', Some (sample_recall (sample_id ''evt'' (CHR ''1''))))])
   in mcp_call sample_codec True ''model_mcp_client'' (''remember'', Some sample_remember) w = (r, w)"
  unfolding Let_def
  by (rule candidate_call_replays [OF empty_memory_ok _ _ prod.collapse [symmetric]])
    (simp_all add: sample_remembered)

text \<open>The greatest event identity; its first ten characters read as the year 37648.\<close>

definition late_id :: string where
  "late_id = ''evt_'' @ replicate 26 (CHR ''Z'')"

lemma late_id_tagged: "tagged_id ''evt'' late_id"
  using tagged_idI [of "replicate 26 (CHR ''Z'')" "''evt''"]
  by (simp add: late_id_def is_ulid_def all_in_set crockford_def)

lemma sample_time:
  "request_time (sample_id ''evt'' (CHR ''1'')) = Inr 0"
  "request_time late_id = Inl YearOutOfRange"
proof -
  have i: "index_of (CHR ''0'') crockford = Some 0" "index_of (CHR ''Z'') crockford = Some 31"
    by code_simp+
  have r: "replicate 10 c = [c, c, c, c, c, c, c, c, c, c]" for c :: char
    by (simp add: numeral_eq_Suc)
  show "request_time (sample_id ''evt'' (CHR ''1'')) = Inr 0"
    "request_time late_id = Inl YearOutOfRange"
    by (simp_all add: request_time_def sample_id_def late_id_def remove_prefix_def starts_with_def
        r i max_datetime_ms_def)
qed

lemma sample_recalled:
  "\<exists>m rs. mcp_call sample_codec False ''model_mcp_client'' (''recall'', Some (sample_recall (sample_id ''evt'' (CHR ''1''))))
     (Some approved_db) = ((Recalled (sample_id ''evt'' (CHR ''1'')) m rs, False), Some approved_db)"
proof -
  let ?q = "\<lparr> rq_id = sample_id ''evt'' (CHR ''1''), rq_query = ''text'', rq_budget = 10 \<rparr>"
  have t: "tool_of ''recall'' = Some Recall" by code_simp
  have p: "parse_recall (args_of (Some (sample_recall (sample_id ''evt'' (CHR ''1''))))) = Some ?q"
    by (rule sample_recall_parsed) (simp add: crockford_def)
  obtain ms where "request_time (rq_id ?q) = Inr ms" using sample_time(1) by auto
  then have "\<exists>m rs. recall sample_codec [approved_mem] ?q = Inr (Recalled (rq_id ?q) m rs)"
    using sample_args(1,4,5,6)
    by (intro recall_answers)
      (simp_all add: max_interoperable_integer_def approved_mem_def sample_mem_def native_record_def
        sample_request_def)
  then show ?thesis
    by (auto simp: mcp_call_eq is_candidate_tool_def Let_def execute_read_only_tool_def t p approved_list)
qed

theorem recall_returns_approved_content_witness:
  "\<exists>m rs. mcp_call sample_codec False ''model_mcp_client'' (''recall'', Some (sample_recall (sample_id ''evt'' (CHR ''1''))))
     (Some approved_db) = ((Recalled (sample_id ''evt'' (CHR ''1'')) m rs, False), Some approved_db) \<and>
     list_all (\<lambda>x. \<exists>r. get_memory approved_db (rc_record x) = Some r \<and> mem_state r = Approved) rs"
proof -
  obtain m rs where r: "mcp_call sample_codec False ''model_mcp_client'' (''recall'', Some (sample_recall (sample_id ''evt'' (CHR ''1''))))
     (Some approved_db) = ((Recalled (sample_id ''evt'' (CHR ''1'')) m rs, False), Some approved_db)"
    using sample_recalled by blast
  from recall_returns_approved_content [OF approved_ok r] r show ?thesis
    by (auto simp: list_all_iff)
qed

theorem late_request_identity_fails_witness:
  "mcp_call sample_codec True ''model_mcp_client'' (''recall'', Some (sample_recall late_id)) (Some approved_db) =
     ((Failure Recall InternalError, True), Some approved_db)"
proof (rule late_request_identity_fails)
  show "parse_recall (args_of (Some (sample_recall late_id))) =
      Some \<lparr> rq_id = late_id, rq_query = ''text'', rq_budget = 10 \<rparr>"
    by (rule sample_recall_parsed [OF late_id_tagged])
  show "request_time (rq_id \<lparr> rq_id = late_id, rq_query = ''text'',
      rq_budget = 10 \<rparr>) = Inl YearOutOfRange" by (simp add: sample_time(2))
  show "retrieve_approved_memory approved_db \<noteq> []"
    by (simp add: retrieve_approved_memory_def approved_list approved_mem_def sample_mem_def
        native_record_def)
qed

lemma approved_revision: "get_revision approved_db (mem_id sample_mem) sample_digest = Some approved_mem"
  by (simp add: get_revision_def approved_db_def created_db_def empty_memory_db_def last_match_one
      with_review_state_def review_of_def sample_approval_def approved_mem_def)
    (simp add: sample_mem_def native_record_def sample_request_def)

theorem explain_gives_the_reason_witness:
  "\<exists>x. mcp_call sample_codec True ''model_mcp_client'' (''explain'', Some sample_explain) (Some approved_db) =
     ((Explained x, False), Some approved_db) \<and> xp_reasons x = [Selected]"
proof -
  have d: "is_digest sample_digest" "tagged_id ''mem'' (mem_id sample_mem)"
    using sample_request_valid by (auto simp: valid_memory_def sample_mem_def native_record_def sample_request_def)
  have p: "parse_explain (args_of (Some sample_explain)) =
      Some \<lparr> xq_id = sample_id ''evt'' (CHR ''1''), xq_record = mem_id sample_mem, xq_hash = sample_digest \<rparr>"
    using d
    by (simp add: parse_explain_def args_of_def sample_explain_def only_fields_def jobj_def schema_field_def
        integer_field_def json_integer_def require_exact_integer_def max_interoperable_integer_def
        pattern_field_def text_field_def is_event_id_def crockford_def)
  have h: "mem_content_hash sample_mem = sample_digest"
    by (simp add: sample_mem_def native_record_def sample_request_def)
  have "history approved_db (mem_id sample_mem) sample_digest = [Approved]"
    using approval_bound_to_content_witness h by simp
  moreover have "mem_source_status approved_mem \<noteq> Some ''missing''"
    by (simp add: approved_mem_def sample_mem_def native_record_def)
  ultimately show ?thesis
    using explain_gives_the_reason [OF approved_ok p, of approved_mem sample_codec True "''model_mcp_client''"]
      approved_revision sample_approved_get h by auto
qed

end
