(* ===== verification/Chat_Contracts.thy ===== *)
theory Chat_Contracts
  imports Context Capabilities Broker Run Mcp_Contracts Artifacts
begin

text \<open>
  The contracts of governed chat: requests, citations and responses (\<open>chat/contracts.py\<close>), the
  provider boundary (\<open>providers/base.py\<close>, \<open>agent_runtime/tools.py\<close>) with the deterministic
  provider (\<open>providers/fake.py\<close>), and the errors of the runtime (\<open>agent_runtime/errors.py\<close>).
  A provider other than the deterministic one is a network service: it is a value of type
  \<open>provider\<close>, an argument of the runtime.
\<close>

section \<open>Requests of a client and of a provider\<close>

record chat_request =
  cr_id :: string
  cr_session :: string
  cr_message :: string
  cr_budget :: int

definition valid_chat_request :: "chat_request \<Rightarrow> bool" where
  "valid_chat_request q \<longleftrightarrow>
     tagged_id ''evt'' (cr_id q) \<and> tagged_id ''ses'' (cr_session q) \<and>
     1 \<le> length (cr_message q) \<and> length (cr_message q) \<le> 16384 \<and>
     1 \<le> cr_budget q \<and> cr_budget q \<le> 32768"

text \<open>\<open>FileReadToolRequest\<close>, its JSON form and the strict parse of it\<close>

record tool_request =
  tq_scope :: string
  tq_target :: string
  tq_max_bytes :: int

definition valid_tool_request :: "tool_request \<Rightarrow> bool" where
  "valid_tool_request t \<longleftrightarrow>
     is_scope_id (tq_scope t) \<and> is_portable_target (tq_target t) \<and>
     1 \<le> tq_max_bytes t \<and> tq_max_bytes t \<le> max_read_bytes"

definition dump_tool_request :: "tool_request \<Rightarrow> jval" where
  "dump_tool_request t = jobj
     [ (''schema_version'', JInt 1), (''operation'', JStr ''file.read''),
       (''scope_id'', JStr (tq_scope t)), (''target'', JStr (tq_target t)),
       (''max_bytes'', JInt (tq_max_bytes t)) ]"

definition parse_tool_request :: "jval \<Rightarrow> tool_request option" where
  "parse_tool_request v =
     (if \<not> only_fields [''schema_version'', ''operation'', ''scope_id'', ''target'', ''max_bytes''] v \<or>
         \<not> schema_field v \<or> jget v ''operation'' \<noteq> Some (JStr ''file.read'') then None
      else
        Option.bind (pattern_field is_scope_id v ''scope_id'') (\<lambda>scope_id.
        Option.bind (pattern_field is_portable_target v ''target'') (\<lambda>target.
        Option.bind (integer_field 1 max_read_bytes v ''max_bytes'') (\<lambda>max_bytes.
        Some \<lparr> tq_scope = scope_id, tq_target = target, tq_max_bytes = max_bytes \<rparr>))))"

section \<open>Execution identities\<close>

datatype provider_kind = Fake | Ollama | OpenAICompatible

fun kind_value :: "provider_kind \<Rightarrow> string" where
  "kind_value Fake = ''fake''"
| "kind_value Ollama = ''ollama''"
| "kind_value OpenAICompatible = ''openai_compatible''"

definition kind_of :: "string \<Rightarrow> provider_kind option" where
  "kind_of s = find (\<lambda>k. kind_value k = s) [Fake, Ollama, OpenAICompatible]"

record projection =
  pj_kind :: provider_kind
  pj_model :: string

definition valid_model_name :: "string \<Rightarrow> bool" where
  "valid_model_name m \<longleftrightarrow> 1 \<le> length m \<and> length m \<le> 512"

text \<open>\<open>ChatProviderProjection.model_validate\<close> of a kind and a model\<close>

definition parse_projection :: "string \<Rightarrow> string \<Rightarrow> projection option" where
  "parse_projection kind model =
     (case kind_of kind of
        None \<Rightarrow> None
      | Some k \<Rightarrow> if valid_model_name model then Some \<lparr> pj_kind = k, pj_model = model \<rparr> else None)"

record execution_identity =
  xi_kind :: provider_kind
  xi_model :: string
  xi_actor :: string
  xi_operation :: string
  xi_configuration_hash :: string

definition valid_execution_identity :: "execution_identity \<Rightarrow> bool" where
  "valid_execution_identity x \<longleftrightarrow>
     valid_model_name (xi_model x) \<and>
     starts_with ''model_'' (xi_actor x) \<and>
     is_slug (lower_chars @ digit_chars) actor_tail_chars 1 62 (drop 6 (xi_actor x)) \<and>
     is_slug lower_chars (lower_chars @ digit_chars @ ''_.'') 2 127 (xi_operation x) \<and>
     is_digest (xi_configuration_hash x)"

text \<open>
  \<open>re.sub(r"[^a-z0-9]+", "_", s).strip("_")\<close>: the maximal runs of letters and digits, joined
  by one underscore each.
\<close>

definition slug_of :: "string \<Rightarrow> string" where
  "slug_of s = join_with (CHR ''_'') (runs_of (\<lambda>c. c \<in> set (lower_chars @ digit_chars)) s)"

definition actor_slug :: "hash_fn \<Rightarrow> provider_kind \<Rightarrow> string \<Rightarrow> string" where
  "actor_slug sha kind model =
     (let slug = slug_of (casefold (kind_value kind @ ''_'' @ model)) in
      if length slug > 57
      then rev (dropWhile (\<lambda>c. c = CHR ''_'') (rev (take 44 slug))) @ ''_'' @ take 12 (hexdigest sha slug)
      else slug)"

definition build_execution_identity ::
    "codec \<Rightarrow> provider_kind \<Rightarrow> string \<Rightarrow> (string \<times> jval) list \<Rightarrow> execution_identity" where
  "build_execution_identity C kind model public_configuration =
     \<lparr> xi_kind = kind, xi_model = model,
       xi_actor = ''model_'' @ actor_slug (c_sha C) kind model,
       xi_operation = kind_value kind @ ''.chat.completions'',
       xi_configuration_hash = canonical_payload_hash C
         (jobj ([(''kind'', JStr (kind_value kind)), (''model'', JStr model)] @ public_configuration)) \<rparr>"

definition projection_of :: "execution_identity \<Rightarrow> projection" where
  "projection_of x = \<lparr> pj_kind = xi_kind x, pj_model = xi_model x \<rparr>"

section \<open>Providers\<close>

datatype provider_result = FinalAnswer string | ToolRequestResult tool_request

text \<open>The exceptions of \<open>generate\<close>; \<open>Aborted\<close> stands for every other \<open>BaseException\<close>.\<close>

datatype provider_failure = RequestFailed | TimedOut | ResponseRejected | Aborted

record provider =
  pv_identity :: execution_identity
  pv_generate :: "string \<Rightarrow> manifest \<Rightarrow> memory list \<Rightarrow> observation option
    \<Rightarrow> provider_failure + provider_result"

text \<open>The constraints of \<open>FinalResponseResult\<close> and \<open>ToolRequestResult\<close>.\<close>

definition valid_provider_result :: "provider_result \<Rightarrow> bool" where
  "valid_provider_result r \<longleftrightarrow>
     (case r of
        FinalAnswer a \<Rightarrow> 1 \<le> length a \<and> length a \<le> 1048576
      | ToolRequestResult t \<Rightarrow> valid_tool_request t)"

text \<open>\<open>sep.join(texts)\<close>\<close>

fun join_text :: "string \<Rightarrow> string list \<Rightarrow> string" where
  "join_text sep [] = []"
| "join_text sep [x] = x"
| "join_text sep (x # y # ys) = x @ sep @ join_text sep (y # ys)"

text \<open>\<open>DeterministicFakeProvider.generate\<close>\<close>

definition fake_answer :: "memory list \<Rightarrow> string" where
  "fake_answer records =
     (if records \<noteq> []
      then ''Grounded in approved memory: '' @ join_text '', '' (map mem_title records) @ ''.''
      else ''No approved memory was available for this request.'')"

definition fake_generate ::
    "tool_request option \<Rightarrow> string \<Rightarrow> manifest \<Rightarrow> memory list \<Rightarrow> observation option
      \<Rightarrow> provider_failure + provider_result" where
  "fake_generate configured message m records seen =
     (if seen \<noteq> None
      then Inr (FinalAnswer ''Grounded in approved memory with one external untrusted file observation.'')
      else case configured of
        Some t \<Rightarrow> Inr (ToolRequestResult t)
      | None \<Rightarrow> Inr (FinalAnswer (fake_answer records)))"

definition fake_provider :: "codec \<Rightarrow> tool_request option \<Rightarrow> provider" where
  "fake_provider C configured =
     \<lparr> pv_identity = build_execution_identity C Fake ''deterministic-v1'' [],
       pv_generate = fake_generate configured \<rparr>"

section \<open>Responses\<close>

record citation =
  ct_record :: string
  ct_hash :: string
  ct_title :: string
  ct_rank :: int
  ct_score :: int

definition valid_citation :: "citation \<Rightarrow> bool" where
  "valid_citation c \<longleftrightarrow> tagged_id ''mem'' (ct_record c) \<and> 1 \<le> ct_rank c \<and> 1 \<le> ct_score c"

definition dump_citation :: "citation \<Rightarrow> jval" where
  "dump_citation c = jobj
     [ (''record_id'', JStr (ct_record c)), (''content_hash'', JStr (ct_hash c)),
       (''title'', JStr (ct_title c)), (''retrieval_rank'', JInt (ct_rank c)),
       (''retrieval_score'', JInt (ct_score c)) ]"

definition parse_citation :: "jval \<Rightarrow> citation option" where
  "parse_citation v =
     (if \<not> only_fields [''record_id'', ''content_hash'', ''title'', ''retrieval_rank'', ''retrieval_score''] v
      then None
      else (case (jget v ''record_id'', jget v ''content_hash'', jget v ''title'',
                  jget v ''retrieval_rank'', jget v ''retrieval_score'') of
          (Some (JStr i), Some (JStr h), Some (JStr t), Some (JInt rank), Some (JInt score)) \<Rightarrow>
            let c = \<lparr> ct_record = i, ct_hash = h, ct_title = t, ct_rank = rank, ct_score = score \<rparr> in
            if valid_citation c then Some c else None
        | _ \<Rightarrow> None))"

record chat_response =
  ch_session :: string
  ch_run :: string
  ch_task :: string
  ch_provider :: projection
  ch_answer :: string
  ch_citations :: "citation list"
  ch_manifest :: manifest

record pending_response =
  pn_session :: string
  pn_run :: string
  pn_task :: string
  pn_provider :: projection
  pn_subject :: string
  pn_event :: string
  pn_request :: tool_request
  pn_extensions :: "string list"

datatype chat_result = Answered chat_response | AwaitingTool pending_response

record inspection =
  in_session :: string
  in_run :: string
  in_events :: "event list"
  in_manifest :: manifest
  in_reconstruction :: run

datatype chat_error =
    ChatIdempotencyConflict
  | ChatRunNotFound
  | ChatRunIncomplete
  | ChatProviderRunFailed string
  | ChatDispatchUncertain
  | ProviderRaised provider_failure
  | LedgerRaised store_error
  | ArtifactRaised artifact_error
  | ContextRaised context_error
  | EventRaised event_error
  | ValueRaised

section \<open>Round trips of the JSON forms\<close>

lemma parse_dump_tool_request:
  "valid_tool_request t \<Longrightarrow> parse_tool_request (dump_tool_request t) = Some t"
  by (simp add: parse_tool_request_def dump_tool_request_def valid_tool_request_def only_fields_def
      jobj_def schema_field_def integer_field_def pattern_field_def json_integer_def
      require_exact_integer_def max_interoperable_integer_def max_read_bytes_def)

lemma parse_dump_citation:
  "valid_citation c \<Longrightarrow> parse_citation (dump_citation c) = Some c"
  by (cases c) (simp add: parse_citation_def dump_citation_def only_fields_def jobj_def Let_def)

lemma parse_projection_of:
  "valid_model_name (xi_model x) \<Longrightarrow>
   parse_projection (kind_value (xi_kind x)) (xi_model x) = Some (projection_of x)"
  by (cases "xi_kind x") (simp_all add: parse_projection_def kind_of_def projection_of_def)

end
