(* ===== verification/Chat.thy ===== *)
theory Chat
  imports Chat_Contracts
begin

text \<open>
  \<open>agent_runtime/service.py\<close> and \<open>agent_runtime/repository.py\<close>: one governed chat turn.  The
  intent to call the provider is committed before the call; the outcome is committed after
  it; a repeated request is answered from the persisted run and never calls the provider
  again.  The workspace holds the ledger, the artifact tree and the memory database, and
  records the calls of the provider, which are effects outside the process.  The two readings
  of the clock are arguments.
\<close>

section \<open>The repository of runs\<close>

text \<open>
  What surrounds the turn: the codecs, and the environment of an artifact publication
  (random part of its temporary name, concurrent writer).
\<close>

record runtime =
  rt_codec :: codec
  rt_dump_manifest :: "manifest \<Rightarrow> string"
  rt_parse_manifest :: "string \<Rightarrow> manifest option"
  rt_rnd :: string
  rt_interfere :: "fs \<Rightarrow> fs"

record workspace =
  ws_ledger :: ledger
  ws_files :: fs
  ws_memory :: memory_db
  ws_calls :: "string list"

definition artifact_verified :: "runtime \<Rightarrow> fs \<Rightarrow> string \<Rightarrow> bool" where
  "artifact_verified R files reference = (\<not> is_error (verify_artifact (c_sha (rt_codec R)) files reference))"

text \<open>\<open>append_many\<close> with the conflict translated as every caller does it\<close>

definition append_entries ::
    "runtime \<Rightarrow> workspace \<Rightarrow> (event \<times> string) list \<Rightarrow> (chat_error + unit) \<times> workspace" where
  "append_entries R ws entries =
     (case append_many (rt_codec R) (Some (artifact_verified R (ws_files ws))) (ws_ledger ws) entries of
        (Inr ids, rows) \<Rightarrow> (Inr (), ws\<lparr>ws_ledger := rows\<rparr>)
      | (Inl IdempotencyConflict, rows) \<Rightarrow> (Inl ChatIdempotencyConflict, ws\<lparr>ws_ledger := rows\<rparr>)
      | (Inl x, rows) \<Rightarrow> (Inl (LedgerRaised x), ws\<lparr>ws_ledger := rows\<rparr>))"

definition put_context_manifest ::
    "runtime \<Rightarrow> workspace \<Rightarrow> manifest \<Rightarrow> (chat_error + string) \<times> workspace" where
  "put_context_manifest R ws m =
     (case put_artifact (c_sha (rt_codec R)) (rt_rnd R) (rt_interfere R) (ws_files ws)
             (Bytes (rt_dump_manifest R m)) of
        (Inr reference, files) \<Rightarrow> (Inr reference, ws\<lparr>ws_files := files\<rparr>)
      | (Inl x, files) \<Rightarrow> (Inl (ArtifactRaised x), ws\<lparr>ws_files := files\<rparr>))"

text \<open>
  \<open>inspect\<close>; without a database there are no events, which is the same error.
\<close>

definition inspect_run :: "runtime \<Rightarrow> workspace \<Rightarrow> string \<Rightarrow> string \<Rightarrow> chat_error + inspection" where
  "inspect_run R ws session_id run_id =
     (case stream (rt_codec R) (ws_ledger ws) session_id of
        Inl x \<Rightarrow> Inl (LedgerRaised x)
      | Inr events \<Rightarrow>
         let run_events = filter (\<lambda>e. ev_run e = run_id) events in
         if run_events = [] then Inl ChatRunNotFound
         else (case reconstruct_run run_events of
           Inl _ \<Rightarrow> Inl ChatRunIncomplete
         | Inr reconstruction \<Rightarrow>
            (case rn_context_ref reconstruction of
               None \<Rightarrow> Inl ChatRunIncomplete
             | Some reference \<Rightarrow>
                (case get_artifact (c_sha (rt_codec R)) (ws_files ws) reference of
                   Inl x \<Rightarrow> Inl (ArtifactRaised x)
                 | Inr encoded \<Rightarrow>
                    (case rt_parse_manifest R encoded of
                       None \<Rightarrow> Inl ValueRaised
                     | Some m \<Rightarrow>
                         if cm_task m \<noteq> rn_task reconstruction then Inl ChatRunIncomplete
                         else Inr \<lparr> in_session = session_id, in_run = run_id,
                           in_events = run_events, in_manifest = m,
                           in_reconstruction = reconstruction \<rparr>)))))"

fun parse_all :: "('a \<Rightarrow> 'b option) \<Rightarrow> 'a list \<Rightarrow> 'b list option" where
  "parse_all p [] = Some []"
| "parse_all p (x # xs) =
     Option.bind (p x) (\<lambda>y. Option.bind (parse_all p xs) (\<lambda>ys. Some (y # ys)))"

definition response_from_run :: "inspection \<Rightarrow> chat_error + chat_response" where
  "response_from_run i =
     (case rn_final (in_reconstruction i) of
        None \<Rightarrow> Inl ChatRunIncomplete
      | Some final_id \<Rightarrow>
         (case find (\<lambda>e. ev_id e = final_id) (in_events i) of
            None \<Rightarrow> Inl ValueRaised
          | Some e \<Rightarrow>
             (case jget (ev_payload e) ''citations'' of
                Some (JSeq vs) \<Rightarrow>
                 (case parse_all parse_citation vs of
                    None \<Rightarrow> Inl ValueRaised
                  | Some citations \<Rightarrow>
                     (case (jget (ev_payload e) ''answer'', ev_model e) of
                        (Some (JStr answer), Some model) \<Rightarrow>
                         (case parse_projection (mi_provider model) (mi_name model) of
                            None \<Rightarrow> Inl ChatRunIncomplete
                          | Some projection \<Rightarrow> Inr
                              \<lparr> ch_session = in_session i, ch_run = in_run i,
                                ch_task = rn_task (in_reconstruction i), ch_provider = projection,
                                ch_answer = answer, ch_citations = citations,
                                ch_manifest = in_manifest i \<rparr>)
                      | _ \<Rightarrow> Inl ChatRunIncomplete))
              | _ \<Rightarrow> Inl ChatRunIncomplete)))"

section \<open>Answering a repeated request\<close>

definition chat_id :: "runtime \<Rightarrow> chat_request \<Rightarrow> string \<Rightarrow> string \<Rightarrow> string" where
  "chat_id R q tag purpose = derived_id (c_sha (rt_codec R)) (cr_id q) tag purpose"

definition chat_run :: "runtime \<Rightarrow> chat_request \<Rightarrow> string" where
  "chat_run R q = chat_id R q ''run'' ''chat-run''"

definition chat_task :: "runtime \<Rightarrow> chat_request \<Rightarrow> string" where
  "chat_task R q = chat_id R q ''tsk'' ''chat-task''"

text \<open>Python's equality of a payload value with an integer.\<close>

definition equals_integer :: "jval option \<Rightarrow> int \<Rightarrow> bool" where
  "equals_integer v n =
     (case v of
        Some (JInt i) \<Rightarrow> i = n
      | Some (JFloat (Finite x)) \<Rightarrow> x = of_int n
      | Some (JBool b) \<Rightarrow> (if b then 1 else 0) = n
      | _ \<Rightarrow> False)"

definition same_request :: "runtime \<Rightarrow> chat_request \<Rightarrow> event \<Rightarrow> bool" where
  "same_request R q existing \<longleftrightarrow>
     ev_id existing = cr_id q \<and> ev_session existing = cr_session q \<and>
     ev_run existing = chat_run R q \<and>
     jget (ev_payload existing) ''message'' = Some (JStr (cr_message q)) \<and>
     equals_integer (jget (ev_payload existing) ''token_budget'') (cr_budget q)"

definition allowed_extensions :: "string \<Rightarrow> string list" where
  "allowed_extensions target = (if path_suffix target \<noteq> [] then [path_suffix target] else [])"

definition pending_of ::
    "chat_request \<Rightarrow> string \<Rightarrow> string \<Rightarrow> projection \<Rightarrow> string \<Rightarrow> string \<Rightarrow> tool_request \<Rightarrow> pending_response" where
  "pending_of q run_id task_id projection subject event_id t =
     \<lparr> pn_session = cr_session q, pn_run = run_id, pn_task = task_id, pn_provider = projection,
       pn_subject = subject, pn_event = event_id, pn_request = t,
       pn_extensions = allowed_extensions (tq_target t) \<rparr>"

definition replay_pending :: "runtime \<Rightarrow> chat_request \<Rightarrow> inspection \<Rightarrow> chat_error + chat_result" where
  "replay_pending R q i =
     (let e = last (in_events i) in
      case (jget (ev_payload e) ''request'', ev_model e) of
        (Some (JMap kvs), Some model) \<Rightarrow>
         (case (parse_tool_request (JMap kvs), parse_projection (mi_provider model) (mi_name model)) of
            (Some t, Some projection) \<Rightarrow> Inr (AwaitingTool
              (pending_of q (chat_run R q) (rn_task (in_reconstruction i)) projection
                (actor_id (ev_actor e)) (ev_id e) t))
          | _ \<Rightarrow> Inl ChatDispatchUncertain)
      | _ \<Rightarrow> Inl ChatDispatchUncertain)"

definition replay_chat ::
    "runtime \<Rightarrow> workspace \<Rightarrow> chat_request \<Rightarrow> event \<Rightarrow> chat_error + chat_result" where
  "replay_chat R ws q existing =
     (if \<not> same_request R q existing then Inl ChatIdempotencyConflict
      else try_bind (inspect_run R ws (cr_session q) (chat_run R q)) (\<lambda>persisted.
        case rn_state (in_reconstruction persisted) of
          Completed \<Rightarrow> try_bind (response_from_run persisted) (\<lambda>r. Inr (Answered r))
        | AwaitingApproval \<Rightarrow> replay_pending R q persisted
        | Failed \<Rightarrow>
            (case jget (ev_payload (last (in_events persisted))) ''failure_kind'' of
               Some (JStr k) \<Rightarrow>
                 if k \<in> {''request'', ''response'', ''timeout''} then Inl (ChatProviderRunFailed k)
                 else Inl ChatDispatchUncertain
             | _ \<Rightarrow> Inl ChatDispatchUncertain)
        | _ \<Rightarrow> Inl ChatDispatchUncertain))"

section \<open>A new turn: intent, call, outcome\<close>

definition system_runtime :: actor where
  "system_runtime = \<lparr> actor_id = ''system_agent_runtime'', actor_kind = System \<rparr>"

text \<open>The keyword arguments of the \<open>Event(...)\<close> calls that differ between them.\<close>

definition chat_event ::
    "runtime \<Rightarrow> chat_request \<Rightarrow> string \<Rightarrow> actor \<Rightarrow> event_type \<Rightarrow> int \<Rightarrow> jval \<Rightarrow> string list \<Rightarrow> string list
      \<Rightarrow> trust_class \<Rightarrow> model_identity option \<Rightarrow> event" where
  "chat_event R q event_id who kind now payload refs parents trust model =
     \<lparr> ev_id = event_id, ev_session = cr_session q, ev_run = chat_run R q, ev_task = chat_task R q,
       ev_actor = who, ev_type = kind, ev_observed_at = now, ev_recorded_at = now,
       ev_payload_hash = canonical_payload_hash (rt_codec R) payload, ev_artifact_refs = refs,
       ev_parents = parents, ev_trust = trust, ev_sensitivity = Internal, ev_payload = payload,
       ev_model = model \<rparr>"

text \<open>The entries of a transaction: each event is validated as it is constructed.\<close>

definition build_entries ::
    "runtime \<Rightarrow> (event \<times> string) list \<Rightarrow> chat_error + (event \<times> string) list" where
  "build_entries R raw =
     map_result (\<lambda>(e, key). case validate_event (rt_codec R) e of
       Inl x \<Rightarrow> Inl (EventRaised x) | Inr e' \<Rightarrow> Inr (e', key)) raw"

definition commit ::
    "runtime \<Rightarrow> workspace \<Rightarrow> (event \<times> string) list \<Rightarrow> (chat_error + unit) \<times> workspace" where
  "commit R ws raw =
     (case build_entries R raw of
        Inl x \<Rightarrow> (Inl x, ws)
      | Inr entries \<Rightarrow> append_entries R ws entries)"

definition model_identity_of :: "execution_identity \<Rightarrow> model_identity" where
  "model_identity_of x = \<lparr> mi_provider = kind_value (xi_kind x), mi_name = xi_model x,
     mi_configuration_hash = xi_configuration_hash x \<rparr>"

definition request_payload :: "chat_request \<Rightarrow> jval" where
  "request_payload q = jobj [(''operation'', JStr ''request_recorded''),
     (''message'', JStr (cr_message q)), (''token_budget'', JInt (cr_budget q))]"

definition context_payload :: "manifest \<Rightarrow> string \<Rightarrow> jval" where
  "context_payload m reference = jobj [(''operation'', JStr ''context_compiled''),
     (''context_manifest_id'', JStr (cm_id m)), (''context_manifest_ref'', JStr reference)]"

definition provider_fields :: "execution_identity \<Rightarrow> (string \<times> jval) list" where
  "provider_fields x =
     [ (''provider_kind'', JStr (kind_value (xi_kind x))), (''provider_model'', JStr (xi_model x)),
       (''provider_actor_id'', JStr (xi_actor x)), (''provider_operation'', JStr (xi_operation x)) ]"

definition call_payload :: "execution_identity \<Rightarrow> manifest \<Rightarrow> string \<Rightarrow> jval" where
  "call_payload x m reference = jobj ((''operation'', JStr ''model_call_pending'') # provider_fields x @
     [(''context_manifest_id'', JStr (cm_id m)), (''context_manifest_ref'', JStr reference)])"

definition prepare_entries ::
    "runtime \<Rightarrow> int \<Rightarrow> chat_request \<Rightarrow> string \<Rightarrow> execution_identity \<Rightarrow> string \<Rightarrow> manifest \<Rightarrow> string
      \<Rightarrow> (event \<times> string) list" where
  "prepare_entries R now q key x who m reference =
     (let context_id = chat_id R q ''evt'' ''chat-context-compiled'';
          call_id = chat_id R q ''evt'' ''chat-model-call-pending'' in
      [ (chat_event R q (cr_id q) \<lparr> actor_id = who, actor_kind = Human \<rparr> Message now
           (request_payload q) [] [] ExternalUntrusted None, key),
        (chat_event R q context_id system_runtime Outcome now
           (context_payload m reference) [reference] [cr_id q] SystemTrust None, key @ '':context''),
        (chat_event R q call_id system_runtime ModelCall now
           (call_payload x m reference) [] [context_id] SystemTrust (Some (model_identity_of x)),
         key @ '':model:pending'') ])"

text \<open>The loop that builds the citations from the selected records and the manifest items.\<close>

fun build_citations :: "memory list \<Rightarrow> context_item list \<Rightarrow> chat_error + citation list" where
  "build_citations [] [] = Inr []"
| "build_citations (r # rs) (i # is) =
     (case (ci_rank i, ci_score i) of
        (Some rank, Some score) \<Rightarrow>
          let c = \<lparr> ct_record = mem_id r, ct_hash = mem_content_hash r, ct_title = mem_title r,
                ct_rank = rank, ct_score = score \<rparr> in
          if valid_citation c then try_bind (build_citations rs is) (\<lambda>cs. Inr (c # cs))
          else Inl ValueRaised
      | _ \<Rightarrow> Inl ValueRaised)"
| "build_citations _ _ = Inl ValueRaised"

record prepared =
  pp_manifest :: manifest
  pp_selected :: "memory list"
  pp_citations :: "citation list"

text \<open>Up to and including the commit of the intent.\<close>

definition prepare_chat ::
    "runtime \<Rightarrow> int \<Rightarrow> workspace \<Rightarrow> chat_request \<Rightarrow> string \<Rightarrow> provider \<Rightarrow> string
      \<Rightarrow> (chat_error + prepared) \<times> workspace" where
  "prepare_chat R now ws q key P who =
     (case compile_context (rt_codec R) (retrieve_memory_evidence (ws_memory ws) (cr_message q))
             (chat_id R q ''ctx'' ''chat-context'') (chat_task R q) now (cr_budget q) of
        Inl x \<Rightarrow> (Inl (ContextRaised x), ws)
      | Inr (m, selected) \<Rightarrow>
       (case build_citations selected (cm_items m) of
          Inl x \<Rightarrow> (Inl x, ws)
        | Inr citations \<Rightarrow>
         (case put_context_manifest R ws m of
            (Inl x, ws1) \<Rightarrow> (Inl x, ws1)
          | (Inr reference, ws1) \<Rightarrow>
              if \<not> valid_model_identity (model_identity_of (pv_identity P)) then (Inl ValueRaised, ws1)
              else (case commit R ws1 (prepare_entries R now q key (pv_identity P) who m reference) of
                (Inl x, ws2) \<Rightarrow> (Inl x, ws2)
              | (Inr _, ws2) \<Rightarrow> (Inr \<lparr> pp_manifest = m, pp_selected = selected,
                  pp_citations = citations \<rparr>, ws2)))))"

text \<open>\<open>_append_terminal_model_event\<close>\<close>

definition terminal_entry ::
    "runtime \<Rightarrow> int \<Rightarrow> chat_request \<Rightarrow> string \<Rightarrow> string \<Rightarrow> string \<Rightarrow> string option \<Rightarrow> (event \<times> string) list" where
  "terminal_entry R now q key event_id operation failure_kind =
     [ (chat_event R q event_id system_runtime Outcome now
          (jobj ((''operation'', JStr operation) #
             (case failure_kind of None \<Rightarrow> [] | Some k \<Rightarrow> [(''failure_kind'', JStr k)])))
          [] [chat_id R q ''evt'' ''chat-model-call-pending''] SystemTrust None,
        key @ '':model:'' @ remove_prefix ''model_call_'' operation) ]"

definition record_failure ::
    "runtime \<Rightarrow> int \<Rightarrow> workspace \<Rightarrow> chat_request \<Rightarrow> string \<Rightarrow> provider_failure \<Rightarrow> (chat_error + unit) \<times> workspace" where
  "record_failure R now ws q key f =
     commit R ws
       (if f = Aborted
        then terminal_entry R now q key (chat_id R q ''evt'' ''chat-model-call-interrupted'')
          ''model_call_interrupted'' None
        else terminal_entry R now q key (chat_id R q ''evt'' ''chat-model-call-failed'')
          ''model_call_failed''
          (Some (case f of TimedOut \<Rightarrow> ''timeout'' | RequestFailed \<Rightarrow> ''request'' | _ \<Rightarrow> ''response'')))"

text \<open>The two events of a successful call: the model's success and what it said.\<close>

definition outcome_entries ::
    "runtime \<Rightarrow> int \<Rightarrow> chat_request \<Rightarrow> string \<Rightarrow> execution_identity \<Rightarrow> string \<Rightarrow> event_type \<Rightarrow> jval \<Rightarrow> string
      \<Rightarrow> (event \<times> string) list" where
  "outcome_entries R later q key x event_id kind payload suffix =
     (let success_id = chat_id R q ''evt'' ''chat-model-call-succeeded'';
          model_actor = \<lparr> actor_id = xi_actor x, actor_kind = Model \<rparr> in
      [ (chat_event R q success_id model_actor Outcome later
           (jobj ((''operation'', JStr ''model_call_succeeded'') # provider_fields x)) []
           [chat_id R q ''evt'' ''chat-model-call-pending''] ModelGenerated
           (Some (model_identity_of x)), key @ '':model:success''),
        (chat_event R q event_id model_actor kind later payload [] [success_id] ModelGenerated
           (Some (model_identity_of x)), key @ suffix) ])"

definition response_payload :: "string \<Rightarrow> citation list \<Rightarrow> jval" where
  "response_payload answer citations = jobj [(''operation'', JStr ''final_response''),
     (''answer'', JStr answer), (''citations'', JSeq (map dump_citation citations))]"

definition finish_chat ::
    "runtime \<Rightarrow> int \<Rightarrow> workspace \<Rightarrow> chat_request \<Rightarrow> string \<Rightarrow> execution_identity \<Rightarrow> prepared \<Rightarrow> provider_result
      \<Rightarrow> (chat_error + chat_result) \<times> workspace" where
  "finish_chat R later ws q key x prep res =
     (case res of
        ToolRequestResult t \<Rightarrow>
          let event_id = chat_id R q ''evt'' ''chat-tool-request'' in
         (case commit R ws (outcome_entries R later q key x event_id ToolCall
                 (jobj [(''operation'', JStr ''tool_requested''), (''request'', dump_tool_request t)])
                 '':tool:request'') of
            (Inl e, ws') \<Rightarrow> (Inl e, ws')
          | (Inr _, ws') \<Rightarrow> (Inr (AwaitingTool (pending_of q (chat_run R q) (chat_task R q)
              (projection_of x) (xi_actor x) event_id t)), ws'))
      | FinalAnswer answer \<Rightarrow>
         (case commit R ws (outcome_entries R later q key x (chat_id R q ''evt'' ''chat-response'')
                 Message (response_payload answer (pp_citations prep)) '':response'') of
            (Inl e, ws') \<Rightarrow> (Inl e, ws')
          | (Inr _, ws') \<Rightarrow> (Inr (Answered
              \<lparr> ch_session = cr_session q, ch_run = chat_run R q, ch_task = chat_task R q,
                ch_provider = projection_of x, ch_answer = answer,
                ch_citations = pp_citations prep, ch_manifest = pp_manifest prep \<rparr>), ws')))"

text \<open>The call of the provider and what follows it; the call itself is recorded.\<close>

definition dispatch_chat ::
    "runtime \<Rightarrow> int \<Rightarrow> workspace \<Rightarrow> chat_request \<Rightarrow> string \<Rightarrow> provider \<Rightarrow> prepared
      \<Rightarrow> (chat_error + chat_result) \<times> workspace" where
  "dispatch_chat R later ws q key P prep =
     (let called = ws\<lparr>ws_calls := ws_calls ws @ [cr_id q]\<rparr> in
      case pv_generate P (cr_message q) (pp_manifest prep) (pp_selected prep) None of
        Inl f \<Rightarrow> (case record_failure R later called q key f of
            (Inl e, ws') \<Rightarrow> (Inl e, ws')
          | (Inr _, ws') \<Rightarrow> (Inl (ProviderRaised f), ws'))
      | Inr res \<Rightarrow> finish_chat R later called q key (pv_identity P) prep res)"

definition create_chat_message ::
    "runtime \<Rightarrow> int \<Rightarrow> int \<Rightarrow> workspace \<Rightarrow> chat_request \<Rightarrow> string \<Rightarrow> provider \<Rightarrow> string
      \<Rightarrow> (chat_error + chat_result) \<times> workspace" where
  "create_chat_message R now later ws q key P who =
     (case get_by_idempotency (rt_codec R) (ws_ledger ws) key of
        Inl x \<Rightarrow> (Inl (LedgerRaised x), ws)
      | Inr (Some existing) \<Rightarrow> (replay_chat R ws q existing, ws)
      | Inr None \<Rightarrow>
         (case prepare_chat R now ws q key P who of
            (Inl x, ws') \<Rightarrow> (Inl x, ws')
          | (Inr prep, ws') \<Rightarrow> dispatch_chat R later ws' q key P prep))"

text \<open>A process that dies during the call: the intent is committed, and nothing after it.\<close>

definition chat_crashed ::
    "runtime \<Rightarrow> int \<Rightarrow> workspace \<Rightarrow> chat_request \<Rightarrow> string \<Rightarrow> provider \<Rightarrow> string \<Rightarrow> workspace" where
  "chat_crashed R now ws q key P who =
     (case get_by_idempotency (rt_codec R) (ws_ledger ws) key of
        Inr None \<Rightarrow>
         (case prepare_chat R now ws q key P who of
            (Inl x, ws') \<Rightarrow> ws'
          | (Inr prep, ws') \<Rightarrow> ws'\<lparr>ws_calls := ws_calls ws' @ [cr_id q]\<rparr>)
      | _ \<Rightarrow> ws)"

section \<open>The routes\<close>

text \<open>\<open>chat/routes.py\<close>: the status code of a posted message and of an inspection\<close>

definition post_status :: "chat_error + chat_result \<Rightarrow> nat" where
  "post_status r =
     (case r of
        Inr (Answered _) \<Rightarrow> 200
      | Inr (AwaitingTool _) \<Rightarrow> 202
      | Inl ChatIdempotencyConflict \<Rightarrow> 409
      | Inl (ChatProviderRunFailed k) \<Rightarrow> if k = ''timeout'' then 504 else 502
      | Inl ChatDispatchUncertain \<Rightarrow> 409
      | Inl (ProviderRaised TimedOut) \<Rightarrow> 504
      | Inl (ProviderRaised RequestFailed) \<Rightarrow> 502
      | Inl (ProviderRaised ResponseRejected) \<Rightarrow> 502
      | Inl _ \<Rightarrow> 500)"

definition inspect_status :: "chat_error + inspection \<Rightarrow> nat" where
  "inspect_status r =
     (case r of
        Inr _ \<Rightarrow> 200 | Inl ChatRunNotFound \<Rightarrow> 404 | Inl ChatRunIncomplete \<Rightarrow> 409 | Inl _ \<Rightarrow> 500)"

end
