(* ===== verification/Chat_Samples.thy ===== *)
theory Chat_Samples
  imports Chat
begin

text \<open>
  A concrete first turn of a workspace without memory, answered by the deterministic provider,
  on which the properties of the runtime are evaluated.  The digest tells texts apart by
  their length and last character, so the identifiers derived from the requests differ, and the
  document of the manifest has a digest of its own.
\<close>

definition chat_sha :: hash_fn where
  "chat_sha s = (if s = ''hello'' then replicate 32 (CHR ''b'')
     else char_of (length s) # (if s = [] then CHR ''a'' else last s) # replicate 30 (CHR ''a''))"

definition chat_codec :: codec where
  "chat_codec = sample_codec\<lparr>c_sha := chat_sha\<rparr>"

lemma chat_sha_ok [simp]: "hash_ok chat_sha"
  by (simp add: hash_ok_def chat_sha_def)

lemma chat_codec_simps [simp]: "c_sha chat_codec = chat_sha" "c_canon chat_codec p = ''{}''"
  by (simp_all add: chat_codec_def)

lemma chat_codec_ok [simp]: "codec_ok chat_codec"
  by (simp add: codec_ok_def) (simp add: chat_codec_def sample_codec_def)

text \<open>
  The identifiers derived for purposes that differ in their length or last character differ,
  also when they are derived from different requests.
\<close>

lemma chat_token_value:
  assumes "length s \<noteq> 5" and "s \<noteq> []"
  shows "from_bytes_big (take 17 (chat_sha s)) div 64 =
    (length s mod 256) * 5316911983139663491615228241121378304 + of_char (last s) * 20769187434139310514121985316880384 + 7900436004358874979881696375440773"
proof -
  have a: "take 17 (char_of (length s) # last s # replicate 30 (CHR ''a'')) =
      char_of (length s) # last s # ''aaaaaaaaaaaaaaa''"
    by code_simp
  have c: "chat_sha s = char_of (length s) # last s # replicate 30 (CHR ''a'')"
    using assms by (auto simp: chat_sha_def)
  show ?thesis unfolding from_bytes_big_def c a by simp
qed

lemma chat_token_digit: "(x * 5316911983139663491615228241121378304 + y * 20769187434139310514121985316880384 + 7900436004358874979881696375440773) mod 32 = (5::nat)"
  using mod_mult_self1 [of 5 "x * 166153499473114484112975882535043072 + y * 649037107316853453566312041152512 + 246888625136214843121303011732524" 32] by (simp add: algebra_simps)

lemma chat_token_inj:
  fixes x y x' y' n :: nat
  assumes "x * (256 * n) + y * n = x' * (256 * n) + y' * n" and "0 < n" and "y < 256" and "y' < 256"
  shows "x = x' \<and> y = y'"
proof -
  have "(256 * x + y) * n = (256 * x' + y') * n" using assms(1) by (simp add: algebra_simps)
  then have e: "256 * x + y = 256 * x' + y'" using assms(2) by simp
  have "y = y'" using arg_cong [OF e, of "\<lambda>z. z mod 256"] assms(3,4) by simp
  then show ?thesis using e by simp
qed

lemma chat_ids_differ:
  assumes "(length p, last p) \<noteq> (length p', last p')" and "p \<noteq> []" and "p' \<noteq> []"
    and "length p \<le> 100" and "length p' \<le> 100" and "length i = 30" and "length i' = 30"
  shows "derived_id chat_sha i t p \<noteq> derived_id chat_sha i' t p'"
proof
  assume "derived_id chat_sha i t p = derived_id chat_sha i' t p'"
  moreover have "drop_bit 6 (from_bytes_big (take 17 (chat_sha s))) < 32 ^ 26" for s
    by (rule token_value_bound) simp
  ultimately have "from_bytes_big (take 17 (chat_sha (i @ '':'' @ p))) div 64 =
      from_bytes_big (take 17 (chat_sha (i' @ '':'' @ p'))) div 64"
    using crockford_loop_inj [of 26] by (simp add: derived_id_def derived_token_def Let_def drop_bit_eq_div)
  then have "(31 + length p) * (256 * 20769187434139310514121985316880384) + of_char (last p) * 20769187434139310514121985316880384 =
      (31 + length p') * (256 * 20769187434139310514121985316880384) + of_char (last p') * (20769187434139310514121985316880384::nat)"
    using assms(2-7) by (simp add: chat_token_value)
  from chat_token_inj [OF this] have "length p = length p'" "of_char (last p) = (of_char (last p') :: nat)"
    using nat_of_char_less_256 by auto
  then show False using assms(1) by simp
qed

lemma chat_id_fresh:
  assumes "c \<noteq> CHR ''5''"
  shows "derived_id chat_sha (sample_id ''evt'' d) t p \<noteq> sample_id t' c"
proof
  let ?v = "from_bytes_big (take 17 (chat_sha (sample_id ''evt'' d @ '':'' @ p))) div 64"
  have "length (sample_id ''evt'' d @ '':'' @ p) \<noteq> 5" by (simp add: sample_id_def)
  then have v: "?v mod 32 = 5" by (simp add: chat_token_value chat_token_digit)
  assume "derived_id chat_sha (sample_id ''evt'' d) t p = sample_id t' c"
  then have "last (derived_id chat_sha (sample_id ''evt'' d) t p) = c" by (simp add: sample_id_def)
  moreover have "last (derived_id chat_sha (sample_id ''evt'' d) t p) = crockford ! (?v mod 32)"
    using crockford_loop_snoc [of 25 ?v]
    by (simp add: derived_id_def derived_token_def Let_def drop_bit_eq_div)
  ultimately show False using assms unfolding v by (simp add: crockford_def)
qed

section \<open>A turn\<close>

definition chat_q :: chat_request where
  "chat_q = \<lparr> cr_id = sample_id ''evt'' (CHR ''1''), cr_session = sample_id ''ses'' (CHR ''1''),
     cr_message = ''hi'', cr_budget = 100 \<rparr>"

definition chat_key :: string where
  "chat_key = ''k1''"

definition chat_provider :: provider where
  "chat_provider = fake_provider chat_codec None"

definition chat_manifest :: manifest where
  "chat_manifest = \<lparr> cm_id = derived_id chat_sha (cr_id chat_q) ''ctx'' ''chat-context'',
     cm_task = derived_id chat_sha (cr_id chat_q) ''tsk'' ''chat-task'', cm_compiled_at = 7,
     cm_budget = 100, cm_total = 0, cm_policy_hash = canonical_payload_hash chat_codec context_policy,
     cm_items = [], cm_omissions = [],
     cm_excluded = ra_excluded empty_rank_acc \<rparr>"

definition chat_runtime :: runtime where
  "chat_runtime = \<lparr> rt_codec = chat_codec, rt_dump_manifest = (\<lambda>_. ''hello''),
     rt_parse_manifest = (\<lambda>_. Some chat_manifest), rt_rnd = ''r'', rt_interfere = (\<lambda>g. g) \<rparr>"

definition chat_start :: workspace where
  "chat_start = \<lparr> ws_ledger = [], ws_files = (\<lambda>_. None), ws_memory = empty_memory_db, ws_calls = [] \<rparr>"

lemma chat_runtime_simps [simp]:
  "rt_codec chat_runtime = chat_codec" "rt_dump_manifest chat_runtime m = ''hello''"
  "rt_parse_manifest chat_runtime s = Some chat_manifest" "rt_interfere chat_runtime = (\<lambda>g. g)"
  "rt_rnd chat_runtime = ''r''"
  by (simp_all add: chat_runtime_def)

lemma chat_hex: "hexdigest chat_sha ''hello'' = concat (replicate 32 ''62'')"
  unfolding hexdigest_def chat_sha_def by code_simp

lemma chat_digest_alone:
  "digest_ref chat_sha -` {digest_ref chat_sha ''hello''} = {''hello''}"
proof -
  have b: "concat (replicate 32 ''62'') ! 5 = CHR ''2''" "hex_byte (CHR ''a'') = ''61''"
      "concat (replicate 30 ''61'') ! Suc 0 = CHR ''1''"
    by code_simp+
  have "hexdigest chat_sha s \<noteq> hexdigest chat_sha ''hello''" if "s \<noteq> ''hello''" for s
  proof
    let ?l = "if s = [] then CHR ''a'' else last s"
    assume "hexdigest chat_sha s = hexdigest chat_sha ''hello''"
    moreover have "hexdigest chat_sha s =
        (hex_byte (char_of (length s)) @ hex_byte ?l) @ concat (replicate 30 ''61'')"
      using that by (simp add: hexdigest_def chat_sha_def b)
    ultimately have "((hex_byte (char_of (length s)) @ hex_byte ?l) @ concat (replicate 30 ''61'')) ! 5 =
        concat (replicate 32 ''62'') ! 5"
      by (simp add: chat_hex)
    moreover have "((hex_byte (char_of (length s)) @ hex_byte ?l) @ concat (replicate 30 ''61'')) ! 5 =
        concat (replicate 30 ''61'') ! Suc 0"
      using hex_byte_hex(2) by (subst nth_append) simp
    ultimately show False unfolding b by simp
  qed
  then have "hexdigest chat_sha s = hexdigest chat_sha ''hello'' \<longleftrightarrow> s = ''hello''" for s by blast
  then show ?thesis by (simp add: vimage_def digest_ref_def)
qed

lemma chat_put:
  "put_artifact chat_sha ''r'' (\<lambda>g. g) (\<lambda>_. None) (Bytes ''hello'') =
     (Inr (digest_ref chat_sha ''hello''), (\<lambda>_. None)([''62''] \<mapsto> Directory,
        [''62'', concat (replicate 31 ''62'')] \<mapsto> RegularFile ''hello''))"
  unfolding put_artifact_def temporary_path_def digest_ref_def chat_hex
  by (auto simp: Let_def reject_path_escape_def make_directory_def shard_path_def
      object_path_def chat_hex fun_eq_iff numeral_eq_Suc)

definition chat_files :: fs where
  "chat_files = (\<lambda>_. None)([''62''] \<mapsto> Directory,
        [''62'', concat (replicate 31 ''62'')] \<mapsto> RegularFile ''hello'')"

lemma chat_files_read: "get_artifact chat_sha chat_files (digest_ref chat_sha ''hello'') = Inr ''hello''"
proof -
  have "\<exists>d. get_artifact chat_sha chat_files (digest_ref chat_sha ''hello'') = Inr d"
    using put_artifact_readable [OF benign_id chat_sha_ok chat_put] by (simp add: chat_files_def)
  then obtain d where d: "get_artifact chat_sha chat_files (digest_ref chat_sha ''hello'') = Inr d" by blast
  then show ?thesis using get_artifact_address [OF d] chat_digest_alone by auto
qed

lemma chat_compiled:
  "compile_context chat_codec (retrieve_memory_evidence empty_memory_db (cr_message chat_q))
     (chat_id chat_runtime chat_q ''ctx'' ''chat-context'') (chat_task chat_runtime chat_q) 7
     (cr_budget chat_q) = Inr (chat_manifest, [])"
proof -
  have "retrieve_memory_evidence empty_memory_db (cr_message chat_q) = \<lparr> ret_ranked = [], ret_unmatched = [],
      ret_excluded = cm_excluded chat_manifest \<rparr>"
    by (simp add: retrieve_memory_evidence_def rank_memory_records_def list_memory_def
        empty_memory_db_def empty_rank_acc_def chat_manifest_def)
  moreover have "is_digest (canonical_payload_hash chat_codec context_policy)"
    by (simp add: canonical_payload_hash_def digest_ref_is_digest)
  ultimately show ?thesis
    by (simp add: compile_context_def validate_manifest_def chat_manifest_def chat_id_def chat_task_def
        derived_id_tagged guard_simps chat_q_def json_at_least_def json_integer_def
        require_exact_integer_def max_interoperable_integer_def)
qed


text \<open>The entries of the turn, and why each of them is accepted.\<close>

definition chat_reference :: string where
  "chat_reference = digest_ref chat_sha ''hello''"

definition chat_intent :: "(event \<times> string) list" where
  "chat_intent = prepare_entries chat_runtime 7 chat_q chat_key (pv_identity chat_provider)
     ''human_local'' chat_manifest chat_reference"

definition chat_outcome :: "(event \<times> string) list" where
  "chat_outcome = outcome_entries chat_runtime 8 chat_q chat_key (pv_identity chat_provider)
     (chat_id chat_runtime chat_q ''evt'' ''chat-response'') Message
     (response_payload (fake_answer []) []) '':response''"

lemma chat_identity:
  "xi_kind (pv_identity chat_provider) = Fake"
  "xi_model (pv_identity chat_provider) = ''deterministic-v1''"
  "xi_actor (pv_identity chat_provider) = ''model_fake_deterministic_v1''"
  "xi_operation (pv_identity chat_provider) = ''fake.chat.completions''"
  "is_digest (xi_configuration_hash (pv_identity chat_provider))"
proof -
  have "actor_slug chat_sha Fake ''deterministic-v1'' = ''fake_deterministic_v1''"
    by code_simp
  then show "xi_kind (pv_identity chat_provider) = Fake"
    "xi_model (pv_identity chat_provider) = ''deterministic-v1''"
    "xi_actor (pv_identity chat_provider) = ''model_fake_deterministic_v1''"
    "xi_operation (pv_identity chat_provider) = ''fake.chat.completions''"
    "is_digest (xi_configuration_hash (pv_identity chat_provider))"
    by (simp_all add: chat_provider_def fake_provider_def build_execution_identity_def
        canonical_payload_hash_def digest_ref_is_digest)
qed

lemma chat_model_valid: "valid_model_identity (model_identity_of (pv_identity chat_provider))"
  by (simp add: valid_model_identity_def valid_identity_text_def model_identity_of_def chat_identity
      is_space_def)

lemma chat_actors_valid:
  "valid_actor \<lparr> actor_id = ''human_local'', actor_kind = Human \<rparr>" "valid_actor system_runtime"
  "valid_actor \<lparr> actor_id = ''model_fake_deterministic_v1'', actor_kind = Model \<rparr>"
  by code_simp+

lemma chat_event_valid:
  assumes "tagged_id ''evt'' i" and "valid_actor who" and "list_all (tagged_id ''evt'') ps"
    and "distinct ps" and "i \<notin> set ps" and "payload_bounded 0 (jobj kvs)" and "list_all is_digest refs"
    and "distinct refs" and "tr \<in> set (allowed_trust (actor_kind who))"
    and "mo \<noteq> None \<longleftrightarrow> k = ModelCall \<or> actor_kind who = Model"
    and "mo = None \<or> mo = Some (model_identity_of (pv_identity chat_provider))"
  shows "valid_event chat_codec (chat_event chat_runtime chat_q i who k now (jobj kvs) refs ps tr mo)"
proof (rule valid_eventI)
  let ?e = "chat_event chat_runtime chat_q i who k now (jobj kvs) refs ps tr mo"
  show "event_fields_ok ?e"
    using assms chat_model_valid
    by (auto simp: event_fields_ok_def chat_event_def chat_q_def chat_run_def chat_task_def chat_id_def
        derived_id_tagged canonical_payload_hash_def digest_ref_is_digest crockford_def)
  show "ev_payload ?e = JMap (map (\<lambda>(k, v). (JStr k, v)) kvs)"
    by (simp add: chat_event_def jobj_def)
qed (use assms in \<open>simp_all add: chat_event_def max_event_payload_bytes_def model_identity_required_def\<close>)


lemma spec_append_new:
  assumes "valid_event C e" and "is_idempotency_key k"
    and "set (ev_parents e) \<subseteq> set (map (ev_id \<circ> fst) lg)"
    and "unresolved_reference artifacts e = None" and "k \<notin> set (map snd lg)"
    and "ev_id e \<notin> set (map (ev_id \<circ> fst) lg)" and "association_review_key e = None"
  shows "spec_append_one C artifacts lg e k = Inr (lg @ [(e, k)], ev_id e)"
proof -
  have "find (\<lambda>p. p \<notin> set (map (ev_id \<circ> fst) lg)) (ev_parents e) = None"
    using assms(3) by (auto simp: find_None_iff)
  moreover have "find (\<lambda>(_, k'). k' = k) lg = None"
    using assms(5) by (force simp: find_None_iff)
  ultimately show ?thesis using assms by (simp add: spec_append_one_def)
qed

definition chat_id_for :: "string \<Rightarrow> string" where
  "chat_id_for purpose = derived_id chat_sha (cr_id chat_q) ''evt'' purpose"

lemma chat_ids [simp]:
  "chat_id chat_runtime chat_q ''evt'' p = chat_id_for p" "tagged_id ''evt'' (chat_id_for p)"
  by (simp_all add: chat_id_def chat_id_for_def derived_id_tagged)

lemma chat_ids_distinct:
  "distinct [cr_id chat_q, chat_id_for ''chat-context-compiled'', chat_id_for ''chat-model-call-pending'',
     chat_id_for ''chat-model-call-succeeded'', chat_id_for ''chat-response'']"
proof -
  have l: "length (cr_id chat_q) = 30" by (simp add: chat_q_def sample_id_def)
  have "chat_id_for p \<noteq> cr_id chat_q" for p
    using chat_id_fresh [of "CHR ''1''" "CHR ''1''"] by (simp add: chat_id_for_def chat_q_def)
  then show ?thesis
    using chat_ids_differ [OF _ _ _ _ _ l l] by (simp add: chat_id_for_def not_sym)
qed

lemma chat_ids_neq [simp]:
  "cr_id chat_q \<noteq> chat_id_for ''chat-context-compiled''" "cr_id chat_q \<noteq> chat_id_for ''chat-model-call-pending''"
  "cr_id chat_q \<noteq> chat_id_for ''chat-model-call-succeeded''" "cr_id chat_q \<noteq> chat_id_for ''chat-response''"
  "chat_id_for ''chat-context-compiled'' \<noteq> chat_id_for ''chat-model-call-pending''"
  "chat_id_for ''chat-context-compiled'' \<noteq> chat_id_for ''chat-model-call-succeeded''"
  "chat_id_for ''chat-context-compiled'' \<noteq> chat_id_for ''chat-response''"
  "chat_id_for ''chat-model-call-pending'' \<noteq> chat_id_for ''chat-model-call-succeeded''"
  "chat_id_for ''chat-model-call-pending'' \<noteq> chat_id_for ''chat-response''"
  "chat_id_for ''chat-model-call-succeeded'' \<noteq> chat_id_for ''chat-response''"
  using chat_ids_distinct by simp_all

lemma chat_payloads:
  "payload_bounded 0 (request_payload chat_q)" "payload_bounded 0 (context_payload chat_manifest chat_reference)"
  "payload_bounded 0 (call_payload (pv_identity chat_provider) chat_manifest chat_reference)"
  "payload_bounded 0 (jobj ((''operation'', JStr ''model_call_succeeded'') # provider_fields (pv_identity chat_provider)))"
  "payload_bounded 0 (response_payload (fake_answer []) [])"
proof -
  have q: "length (cr_message chat_q) = 2" "cr_budget chat_q = 100" by (simp_all add: chat_q_def)
  have m: "length (cm_id chat_manifest) = 30" "length chat_reference = 71"
     apply (simp add: chat_manifest_def derived_id_def derived_token_def Let_def crockford_loop_length)
    by (simp add: chat_reference_def digest_ref_def hexdigest_length)
  show "payload_bounded 0 (request_payload chat_q)" "payload_bounded 0 (context_payload chat_manifest chat_reference)"
    "payload_bounded 0 (call_payload (pv_identity chat_provider) chat_manifest chat_reference)"
    "payload_bounded 0 (jobj ((''operation'', JStr ''model_call_succeeded'') # provider_fields (pv_identity chat_provider)))"
    "payload_bounded 0 (response_payload (fake_answer []) [])"
    by (simp_all add: request_payload_def context_payload_def call_payload_def response_payload_def
        provider_fields_def jobj_def payload_key_def q m chat_identity fake_answer_def
        max_interoperable_integer_def)
qed

lemma chat_entries_valid:
  "\<forall>(e, k)\<in>set chat_intent. valid_event chat_codec e" "\<forall>(e, k)\<in>set chat_outcome. valid_event chat_codec e"
proof -
  have q: "tagged_id ''evt'' (cr_id chat_q)" "is_digest chat_reference"
     apply (simp add: chat_q_def crockford_def)
    by (simp add: chat_reference_def digest_ref_is_digest)
  have "valid_event chat_codec (chat_event chat_runtime chat_q (cr_id chat_q)
      \<lparr> actor_id = ''human_local'', actor_kind = Human \<rparr> Message 7 (request_payload chat_q) [] []
      ExternalUntrusted None)"
    unfolding request_payload_def
    by (rule chat_event_valid) (simp_all add: q chat_actors_valid chat_payloads [unfolded request_payload_def])
  moreover have "valid_event chat_codec (chat_event chat_runtime chat_q (chat_id_for ''chat-context-compiled'')
      system_runtime Outcome 7 (context_payload chat_manifest chat_reference) [chat_reference]
      [cr_id chat_q] SystemTrust None)"
    unfolding context_payload_def
    by (rule chat_event_valid) (simp_all add: q chat_actors_valid not_sym system_runtime_def
        chat_payloads [unfolded context_payload_def] chat_actors_valid [unfolded system_runtime_def])
  moreover have "valid_event chat_codec (chat_event chat_runtime chat_q (chat_id_for ''chat-model-call-pending'')
      system_runtime ModelCall 7 (call_payload (pv_identity chat_provider) chat_manifest chat_reference) []
      [chat_id_for ''chat-context-compiled''] SystemTrust (Some (model_identity_of (pv_identity chat_provider))))"
    unfolding call_payload_def
    by (rule chat_event_valid) (simp_all add: chat_actors_valid not_sym system_runtime_def
        chat_payloads [unfolded call_payload_def] chat_actors_valid [unfolded system_runtime_def])
  ultimately show "\<forall>(e, k)\<in>set chat_intent. valid_event chat_codec e"
    by (simp add: chat_intent_def prepare_entries_def Let_def)
  have "valid_event chat_codec (chat_event chat_runtime chat_q (chat_id_for ''chat-model-call-succeeded'')
      \<lparr> actor_id = ''model_fake_deterministic_v1'', actor_kind = Model \<rparr> Outcome 8
      (jobj ((''operation'', JStr ''model_call_succeeded'') # provider_fields (pv_identity chat_provider))) []
      [chat_id_for ''chat-model-call-pending''] ModelGenerated (Some (model_identity_of (pv_identity chat_provider))))"
    by (rule chat_event_valid) (simp_all add: chat_actors_valid not_sym chat_payloads)
  moreover have "valid_event chat_codec (chat_event chat_runtime chat_q (chat_id_for ''chat-response'')
      \<lparr> actor_id = ''model_fake_deterministic_v1'', actor_kind = Model \<rparr> Message 8
      (response_payload (fake_answer []) []) []
      [chat_id_for ''chat-model-call-succeeded''] ModelGenerated (Some (model_identity_of (pv_identity chat_provider))))"
    unfolding response_payload_def
    by (rule chat_event_valid) (simp_all add: chat_actors_valid not_sym
        chat_payloads [unfolded response_payload_def, simplified])
  ultimately show "\<forall>(e, k)\<in>set chat_outcome. valid_event chat_codec e"
    by (simp add: chat_outcome_def outcome_entries_def Let_def chat_identity)
qed

definition chat_prepared :: workspace where
  "chat_prepared = chat_start\<lparr>ws_files := chat_files, ws_ledger := log_rows chat_codec chat_intent\<rparr>"

definition chat_called :: workspace where
  "chat_called = chat_prepared\<lparr>ws_calls := [cr_id chat_q]\<rparr>"

definition chat_finished :: workspace where
  "chat_finished = chat_called\<lparr>ws_ledger := log_rows chat_codec (chat_intent @ chat_outcome)\<rparr>"

definition chat_answer :: chat_response where
  "chat_answer = \<lparr> ch_session = cr_session chat_q, ch_run = chat_run chat_runtime chat_q,
     ch_task = chat_task chat_runtime chat_q,
     ch_provider = \<lparr> pj_kind = Fake, pj_model = ''deterministic-v1'' \<rparr>,
     ch_answer = ''No approved memory was available for this request.'', ch_citations = [],
     ch_manifest = chat_manifest \<rparr>"

lemma chat_keys:
  "is_idempotency_key ''k1''" "is_idempotency_key ''k1:context''" "is_idempotency_key ''k1:model:pending''"
  "is_idempotency_key ''k1:model:success''" "is_idempotency_key ''k1:response''"
  by code_simp+

lemma chat_reference_verified: "artifact_verified chat_runtime chat_files chat_reference"
  by (simp add: artifact_verified_def verify_artifact_def chat_reference_def chat_files_read)

definition chat_e :: "nat \<Rightarrow> event" where
  "chat_e n = map fst (chat_intent @ chat_outcome) ! n"

lemma chat_entries:
  "chat_intent = [(chat_e 0, ''k1''), (chat_e 1, ''k1:context''), (chat_e 2, ''k1:model:pending'')]"
  "chat_outcome = [(chat_e 3, ''k1:model:success''), (chat_e 4, ''k1:response'')]"
  by (simp_all add: chat_e_def chat_intent_def prepare_entries_def chat_outcome_def outcome_entries_def
      Let_def chat_key_def numeral_eq_Suc)

lemma chat_e_ids [simp]:
  "ev_id (chat_e 0) = cr_id chat_q" "ev_id (chat_e 1) = chat_id_for ''chat-context-compiled''"
  "ev_id (chat_e (Suc 0)) = chat_id_for ''chat-context-compiled''"
  "ev_id (chat_e 2) = chat_id_for ''chat-model-call-pending''"
  "ev_id (chat_e 3) = chat_id_for ''chat-model-call-succeeded''" "ev_id (chat_e 4) = chat_id_for ''chat-response''"
  by (simp_all add: chat_e_def chat_intent_def prepare_entries_def chat_outcome_def outcome_entries_def
      Let_def chat_event_def numeral_eq_Suc)

lemma chat_e_parents [simp]:
  "ev_parents (chat_e 0) = []" "ev_parents (chat_e (Suc 0)) = [ev_id (chat_e 0)]"
  "ev_parents (chat_e 2) = [ev_id (chat_e 1)]" "ev_parents (chat_e 3) = [ev_id (chat_e 2)]"
  "ev_parents (chat_e 4) = [ev_id (chat_e 3)]"
  unfolding chat_e_ids
  by (simp_all add: chat_e_def chat_intent_def prepare_entries_def chat_outcome_def outcome_entries_def
      Let_def chat_event_def numeral_eq_Suc)

lemma chat_e_accepted:
  assumes "n < 5"
  shows "valid_event chat_codec (chat_e n)"
    and "unresolved_reference (Some (artifact_verified chat_runtime chat_files)) (chat_e n) = None"
    and "association_review_key (chat_e n) = None"
proof -
  have "length (chat_intent @ chat_outcome) = 5" unfolding chat_entries by simp
  then have mem: "(chat_intent @ chat_outcome) ! n \<in> set (chat_intent @ chat_outcome)"
      "chat_e n = fst ((chat_intent @ chat_outcome) ! n)"
    using assms by (simp_all add: chat_e_def del: length_append set_append map_append)
  have "\<forall>x\<in>set (chat_intent @ chat_outcome). valid_event chat_codec (fst x)"
    using chat_entries_valid by (auto simp: case_prod_unfold)
  then show "valid_event chat_codec (chat_e n)" using mem by simp
  have "\<forall>x\<in>set (chat_intent @ chat_outcome).
      unresolved_reference (Some (artifact_verified chat_runtime chat_files)) (fst x) = None \<and>
      association_review_key (fst x) = None"
    using chat_reference_verified
    by (simp add: chat_intent_def prepare_entries_def chat_outcome_def outcome_entries_def Let_def
        chat_event_def unresolved_reference_def association_review_key_def request_payload_def
        context_payload_def call_payload_def response_payload_def)
  then show "unresolved_reference (Some (artifact_verified chat_runtime chat_files)) (chat_e n) = None"
      "association_review_key (chat_e n) = None"
    using mem by simp_all
qed

lemma chat_intent_appended:
  "spec_append_loop chat_codec (Some (artifact_verified chat_runtime chat_files)) [] chat_intent =
     Inr (chat_intent, map (ev_id \<circ> fst) chat_intent)"
proof -
  let ?A = "Some (artifact_verified chat_runtime chat_files)"
  have "spec_append_one chat_codec ?A [] (chat_e 0) ''k1'' = Inr ([] @ [(chat_e 0, ''k1'')], ev_id (chat_e 0))"
    by (rule spec_append_new) (simp_all add: chat_e_accepted chat_keys)
  moreover have "spec_append_one chat_codec ?A [(chat_e 0, ''k1'')] (chat_e 1) ''k1:context'' =
      Inr ([(chat_e 0, ''k1'')] @ [(chat_e 1, ''k1:context'')], ev_id (chat_e 1))"
    by (rule spec_append_new) (simp_all add: chat_e_accepted chat_keys not_sym)
  moreover have "spec_append_one chat_codec ?A [(chat_e 0, ''k1''), (chat_e 1, ''k1:context'')]
      (chat_e 2) ''k1:model:pending'' = Inr ([(chat_e 0, ''k1''), (chat_e 1, ''k1:context'')] @
        [(chat_e 2, ''k1:model:pending'')], ev_id (chat_e 2))"
    by (rule spec_append_new) (simp_all add: chat_e_accepted chat_keys not_sym)
  ultimately show ?thesis unfolding chat_entries by simp
qed

lemma chat_outcome_appended:
  "spec_append_loop chat_codec (Some (artifact_verified chat_runtime chat_files)) chat_intent chat_outcome =
     Inr (chat_intent @ chat_outcome, map (ev_id \<circ> fst) chat_outcome)"
proof -
  let ?A = "Some (artifact_verified chat_runtime chat_files)"
  have "spec_append_one chat_codec ?A chat_intent (chat_e 3) ''k1:model:success'' =
      Inr (chat_intent @ [(chat_e 3, ''k1:model:success'')], ev_id (chat_e 3))"
    by (rule spec_append_new) (simp_all add: chat_entries chat_e_accepted chat_keys not_sym)
  moreover have "spec_append_one chat_codec ?A (chat_intent @ [(chat_e 3, ''k1:model:success'')])
      (chat_e 4) ''k1:response'' = Inr ((chat_intent @ [(chat_e 3, ''k1:model:success'')]) @
        [(chat_e 4, ''k1:response'')], ev_id (chat_e 4))"
    by (rule spec_append_new) (simp_all add: chat_entries chat_e_accepted chat_keys not_sym)
  ultimately show ?thesis by (simp add: chat_entries(2))
qed

text \<open>The turn as a whole.\<close>

lemma chat_commits:
  "commit chat_runtime (chat_start\<lparr>ws_files := chat_files\<rparr>) chat_intent = (Inr (), chat_prepared)"
  "commit chat_runtime chat_called chat_outcome = (Inr (), chat_finished)"
proof -
  have v: "build_entries chat_runtime chat_intent = Inr chat_intent"
      "build_entries chat_runtime chat_outcome = Inr chat_outcome"
    using chat_e_accepted(1) unfolding chat_entries
    by (simp_all add: build_entries_def valid_event_def)
  have ok: "log_ok chat_codec []" by (simp add: log_ok_def causal_order_def)
  have ok': "log_ok chat_codec chat_intent"
    using spec_append_loop_ok [OF ok chat_intent_appended] by simp
  show "commit chat_runtime (chat_start\<lparr>ws_files := chat_files\<rparr>) chat_intent = (Inr (), chat_prepared)"
    using append_loop_refines [OF chat_codec_ok ok] chat_intent_appended v(1)
    by (simp add: commit_def append_entries_def append_many_def chat_start_def chat_prepared_def log_rows_def)
  show "commit chat_runtime chat_called chat_outcome = (Inr (), chat_finished)"
    using append_loop_refines [OF chat_codec_ok ok'] chat_outcome_appended v(2)
    by (simp add: commit_def append_entries_def append_many_def chat_called_def chat_prepared_def
        chat_start_def chat_finished_def)
qed

lemma chat_prepared_by:
  "prepare_chat chat_runtime 7 chat_start chat_q chat_key chat_provider ''human_local'' =
     (Inr \<lparr> pp_manifest = chat_manifest, pp_selected = [], pp_citations = [] \<rparr>, chat_prepared)"
proof -
  have "put_context_manifest chat_runtime chat_start chat_manifest =
      (Inr chat_reference, chat_start\<lparr>ws_files := chat_files\<rparr>)"
    by (simp add: put_context_manifest_def chat_start_def chat_put chat_files_def chat_reference_def)
  then show ?thesis
    using chat_compiled chat_model_valid chat_commits(1)
    by (simp add: prepare_chat_def chat_start_def chat_manifest_def chat_intent_def)
qed

lemma chat_key_free: "get_by_idempotency chat_codec (ws_ledger chat_start) chat_key = Inr None"
  using chat_keys by (simp add: get_by_idempotency_def chat_start_def chat_key_def)

lemma chat_turn:
  "create_chat_message chat_runtime 7 8 chat_start chat_q chat_key chat_provider ''human_local'' =
     (Inr (Answered chat_answer), chat_finished)"
proof -
  have "pv_generate chat_provider (cr_message chat_q) chat_manifest [] None = Inr (FinalAnswer (fake_answer []))"
    by (simp add: chat_provider_def fake_provider_def fake_generate_def)
  moreover have "chat_prepared\<lparr>ws_calls := ws_calls chat_prepared @ [cr_id chat_q]\<rparr> = chat_called"
    by (simp add: chat_called_def chat_prepared_def chat_start_def)
  ultimately show ?thesis
    using chat_key_free chat_prepared_by chat_commits(2)
    by (simp add: create_chat_message_def dispatch_chat_def finish_chat_def Let_def chat_outcome_def
        chat_answer_def projection_of_def chat_identity fake_answer_def)
qed

end
