(* ===== verification/Chat_Once.thy ===== *)
theory Chat_Once
  imports Chat_Samples
begin

text \<open>
  The phases of a turn: what committing, preparing and dispatching do to the ledger and the
  calls; and the invariant of turns served one after another, with crashes during the call and transactions
  of other components on the same ledger.
\<close>

section \<open>Committing\<close>

lemma build_entries_Inr:
  "build_entries R raw = Inr entries \<longleftrightarrow>
     entries = raw \<and> (\<forall>(e, k)\<in>set raw. valid_event (rt_codec R) e)"
proof (induction raw arbitrary: entries)
  case Nil
  then show ?case by (auto simp: build_entries_def)
next
  case (Cons x raw)
  obtain e k where x: "x = (e, k)" by (cases x)
  show ?case
  proof (cases "validate_event (rt_codec R) e")
    case (Inl a)
    then show ?thesis using x by (auto simp: build_entries_def valid_event_def)
  next
    case (Inr e')
    then have "e' = e" "valid_event (rt_codec R) e"
      using validate_event_same [OF Inr] by (auto simp: valid_event_def)
    then show ?thesis
      using Inr x Cons.IH by (auto simp: build_entries_def result_simps)
  qed
qed

lemma append_entries_cases:
  assumes "append_entries R ws entries = (res, ws')"
  obtains (failed) x where "res = Inl x" "ws' = ws"
  | (written) ids rows where "res = Inr ()" "ws' = ws\<lparr>ws_ledger := rows\<rparr>"
      "append_many (rt_codec R) (Some (artifact_verified R (ws_files ws))) (ws_ledger ws) entries =
         (Inr ids, rows)"
proof (cases "append_many (rt_codec R) (Some (artifact_verified R (ws_files ws))) (ws_ledger ws) entries")
  case (Pair r rows)
  show ?thesis
  proof (cases r)
    case (Inl x)
    then have "rows = ws_ledger ws" using Pair ledger.append_rollback by blast
    then show ?thesis using assms Pair Inl that(1)
      by (cases x) (auto simp: append_entries_def)
  next
    case (Inr ids)
    then show ?thesis using assms Pair that(2) by (auto simp: append_entries_def)
  qed
qed

lemma commit_cases:
  assumes "commit R ws raw = (res, ws')"
  obtains (failed) x where "res = Inl x" "ws' = ws"
  | (written) ids rows where "res = Inr ()" "ws' = ws\<lparr>ws_ledger := rows\<rparr>"
      "append_many (rt_codec R) (Some (artifact_verified R (ws_files ws))) (ws_ledger ws) raw =
         (Inr ids, rows)" "\<forall>(e, k)\<in>set raw. valid_event (rt_codec R) e"
proof (cases "build_entries R raw")
  case (Inl x)
  then have "res = Inl x" "ws' = ws" using assms by (simp_all add: commit_def)
  then show ?thesis by (rule that(1))
next
  case (Inr entries)
  then have e: "entries = raw" "\<forall>(e, k)\<in>set raw. valid_event (rt_codec R) e"
    by (simp_all add: build_entries_Inr)
  from assms Inr e have "append_entries R ws raw = (res, ws')" by (simp add: commit_def)
  then show ?thesis
    by (cases rule: append_entries_cases) (use that e in auto)
qed

text \<open>An event committed under a key that was free is new to the ledger.\<close>

lemma fresh_key_event:
  assumes "ledger_ok C rows" and "append_many C artifacts rows entries = (Inr ids, rows')"
    and "(e, k) \<in> set entries" and "get_by_idempotency C rows k = Inr None"
  shows "ev_id e \<notin> ev_id ` set (ledger_events C rows)" and "e \<in> set (ledger_events C rows')"
proof -
  obtain lg lg' new where l: "codec_ok C" "log_ok C lg" "log_ok C lg'" "rows = log_rows C lg"
      "rows' = log_rows C lg'" "lg' = lg @ new" "set entries \<subseteq> set lg'"
    using append_many_committed [OF assms(1,2)] by metis
  have "ledger_lookup C rows k \<noteq> Some e" using assms(4) by (simp add: ledger_lookup_def)
  then have "(e, k) \<notin> set lg" using ledger_lookup_log [OF l(1,2)] l(4) by simp
  then have n: "(e, k) \<in> set new" using assms(3) l(6,7) by auto
  have "distinct (map (ev_id \<circ> fst) (lg @ new))" using l(3,6) by (simp add: log_ok_def)
  then show "ev_id e \<notin> ev_id ` set (ledger_events C rows)"
    using n l(1,2,4) by (force simp: ledger_events_log)
  show "e \<in> set (ledger_events C rows')"
    using n l(1,3,5,6) ledger_events_log [OF l(1,3)] by force
qed

section \<open>Phases of a turn\<close>

text \<open>What a turn keeps of the workspace: the memory, and the history of the ledger.\<close>

definition ledger_grows :: "codec \<Rightarrow> ledger \<Rightarrow> ledger \<Rightarrow> bool" where
  "ledger_grows C rows rows' \<longleftrightarrow>
     ledger_ok C rows' \<and> set (ledger_events C rows) \<subseteq> set (ledger_events C rows')"

lemma ledger_grows_refl [simp]: "ledger_ok C rows \<Longrightarrow> ledger_grows C rows rows"
  by (simp add: ledger_grows_def)

lemma ledger_grows_trans:
  "ledger_grows C a b \<Longrightarrow> ledger_grows C b c \<Longrightarrow> ledger_grows C a c"
  by (auto simp: ledger_grows_def)

lemma append_many_grows:
  assumes "ledger_ok C rows" and "append_many C artifacts rows entries = (res, rows')"
  shows "ledger_grows C rows rows'"
proof (cases res)
  case (Inl x)
  then have "rows' = rows" using assms(2) ledger.append_rollback by blast
  then show ?thesis using assms(1) by simp
next
  case (Inr ids)
  then show ?thesis
    using ledger.append_only [OF assms(1), of artifacts entries ids rows']
      ledger.append_invar [OF assms] assms(2)
    by (auto simp: ledger_grows_def)
qed

lemma commit_grows:
  assumes "ledger_ok (rt_codec R) (ws_ledger ws)" and "commit R ws raw = (res, ws')"
  shows "ledger_grows (rt_codec R) (ws_ledger ws) (ws_ledger ws') \<and> ws_calls ws' = ws_calls ws"
  using assms(2)
  by (cases rule: commit_cases) (use assms(1) append_many_grows in auto)

lemma put_manifest_keeps:
  "put_context_manifest R ws m = (res, ws') \<Longrightarrow> ws_ledger ws' = ws_ledger ws \<and> ws_calls ws' = ws_calls ws"
  by (auto simp: put_context_manifest_def split: prod.splits sum.splits)

lemma prepare_chat_cases:
  assumes "prepare_chat R now ws q key P who = (res, ws')"
  obtains (failed) x where "res = Inl x" "ws_ledger ws' = ws_ledger ws" "ws_calls ws' = ws_calls ws"
  | (intent) m sel cits reference ws1 where
      "res = Inr \<lparr> pp_manifest = m, pp_selected = sel, pp_citations = cits \<rparr>"
      "compile_context (rt_codec R) (retrieve_memory_evidence (ws_memory ws) (cr_message q))
         (chat_id R q ''ctx'' ''chat-context'') (chat_task R q) now (cr_budget q) = Inr (m, sel)"
      "build_citations sel (cm_items m) = Inr cits"
      "put_context_manifest R ws m = (Inr reference, ws1)"
      "valid_model_identity (model_identity_of (pv_identity P))"
      "commit R ws1 (prepare_entries R now q key (pv_identity P) who m reference) = (Inr (), ws')"
proof -
  let ?c = "compile_context (rt_codec R) (retrieve_memory_evidence (ws_memory ws) (cr_message q))
         (chat_id R q ''ctx'' ''chat-context'') (chat_task R q) now (cr_budget q)"
  show ?thesis
  proof (cases ?c)
    case (Inl x)
    then show ?thesis using assms that(1) by (auto simp: prepare_chat_def)
  next
    case (Inr p)
    obtain m sel where c: "?c = Inr (m, sel)" using Inr by (cases p) auto
    show ?thesis
    proof (cases "build_citations sel (cm_items m)")
      case (Inl x)
      then show ?thesis using assms c that(1) by (auto simp: prepare_chat_def)
    next
      case cits: (Inr cits)
      obtain r ws1 where put: "put_context_manifest R ws m = (r, ws1)"
        by (cases "put_context_manifest R ws m")
      note kept = put_manifest_keeps [OF put]
      show ?thesis
      proof (cases "\<exists>reference. r = Inr reference \<and> valid_model_identity (model_identity_of (pv_identity P))")
        case False
        then show ?thesis using assms c cits put kept that(1)
          by (cases r) (auto simp: prepare_chat_def)
      next
        case True
        then obtain reference where r: "r = Inr reference"
            and v: "valid_model_identity (model_identity_of (pv_identity P))" by blast
        obtain y ws2 where com: "commit R ws1 (prepare_entries R now q key (pv_identity P) who m reference) = (y, ws2)"
          by (cases "commit R ws1 (prepare_entries R now q key (pv_identity P) who m reference)")
        show ?thesis
          using com
        proof (cases rule: commit_cases)
          case (failed x)
          then show ?thesis using assms c cits put r v com kept that(1)
            by (auto simp: prepare_chat_def)
        next
          case (written ids rows)
          then show ?thesis using assms c cits put r v com that(2)
            by (auto simp: prepare_chat_def)
        qed
      qed
    qed
  qed
qed

lemma dispatch_chat_grows:
  assumes "ledger_ok (rt_codec R) (ws_ledger ws)"
    and "dispatch_chat R later ws q key P prep = (res, ws')"
  shows "ledger_grows (rt_codec R) (ws_ledger ws) (ws_ledger ws') \<and>
    ws_calls ws' = ws_calls ws @ [cr_id q]"
proof -
  let ?called = "ws\<lparr>ws_calls := ws_calls ws @ [cr_id q]\<rparr>"
  note grows = commit_grows [of R ?called]
  show ?thesis
  proof (cases "pv_generate P (cr_message q) (pp_manifest prep) (pp_selected prep) None")
    case (Inl f)
    obtain y ws2 where r: "record_failure R later ?called q key f = (y, ws2)"
      by (cases "record_failure R later ?called q key f")
    then have "ws' = ws2" using assms(2) Inl
      by (cases y) (auto simp: dispatch_chat_def Let_def)
    then show ?thesis using grows r assms(1) by (auto simp: record_failure_def)
  next
    case (Inr out)
    then have f: "finish_chat R later ?called q key (pv_identity P) prep out = (res, ws')"
      using assms(2) by (simp add: dispatch_chat_def Let_def)
    have "\<exists>raw y. commit R ?called raw = (y, ws')"
      using f by (cases out) (auto simp: finish_chat_def Let_def split: prod.splits sum.splits)
    then show ?thesis using grows assms(1) by fastforce
  qed
qed

section \<open>The invariant\<close>

definition intent_id :: "runtime \<Rightarrow> string \<Rightarrow> string" where
  "intent_id R i = derived_id (c_sha (rt_codec R)) i ''evt'' ''chat-model-call-pending''"

definition calls_ok :: "runtime \<Rightarrow> workspace \<Rightarrow> bool" where
  "calls_ok R ws \<longleftrightarrow>
     ledger_ok (rt_codec R) (ws_ledger ws) \<and> distinct (ws_calls ws) \<and>
     (\<forall>i\<in>set (ws_calls ws).
        {i, intent_id R i} \<subseteq> ev_id ` set (ledger_events (rt_codec R) (ws_ledger ws)))"

lemma calls_ok_grows:
  assumes "calls_ok R ws" and "ledger_grows (rt_codec R) (ws_ledger ws) (ws_ledger ws')"
    and "ws_calls ws' = ws_calls ws"
  shows "calls_ok R ws'"
proof -
  have "ev_id ` set (ledger_events (rt_codec R) (ws_ledger ws)) \<subseteq>
      ev_id ` set (ledger_events (rt_codec R) (ws_ledger ws'))"
    using assms(2) by (intro image_mono) (simp add: ledger_grows_def)
  then show ?thesis
    using assms unfolding calls_ok_def ledger_grows_def by (simp only: ) fast
qed

lemma calls_ok_call:
  assumes "calls_ok R ws" and "ledger_grows (rt_codec R) (ws_ledger ws) (ws_ledger ws')"
    and "ws_calls ws' = ws_calls ws @ [i]" and "i \<notin> set (ws_calls ws)"
    and "{i, intent_id R i} \<subseteq> ev_id ` set (ledger_events (rt_codec R) (ws_ledger ws))"
  shows "calls_ok R ws'"
proof -
  have "calls_ok R (ws'\<lparr>ws_calls := ws_calls ws\<rparr>)"
    using assms(1,2) by (intro calls_ok_grows [OF assms(1)]) simp_all
  moreover have "ev_id ` set (ledger_events (rt_codec R) (ws_ledger ws)) \<subseteq>
      ev_id ` set (ledger_events (rt_codec R) (ws_ledger ws'))"
    using assms(2) by (intro image_mono) (simp add: ledger_grows_def)
  ultimately show ?thesis
    using assms(3-5) by (simp add: calls_ok_def) blast
qed

text \<open>A prepared turn is new to the ledger, and its intent is in it.\<close>

lemma prepare_chat_fresh:
  assumes "ledger_ok (rt_codec R) (ws_ledger ws)"
    and "get_by_idempotency (rt_codec R) (ws_ledger ws) key = Inr None"
    and "prepare_chat R now ws q key P who = (Inr prep, ws')"
  shows "ledger_grows (rt_codec R) (ws_ledger ws) (ws_ledger ws') \<and> ws_calls ws' = ws_calls ws \<and>
    cr_id q \<notin> ev_id ` set (ledger_events (rt_codec R) (ws_ledger ws)) \<and>
    {cr_id q, intent_id R (cr_id q)} \<subseteq> ev_id ` set (ledger_events (rt_codec R) (ws_ledger ws'))"
  using assms(3)
proof (cases rule: prepare_chat_cases)
  case (intent m sel cits reference ws1)
  let ?C = "rt_codec R" and ?raw = "prepare_entries R now q key (pv_identity P) who m reference"
  have k: "ws_ledger ws1 = ws_ledger ws" "ws_calls ws1 = ws_calls ws"
    using put_manifest_keeps [OF intent(4)] by auto
  have ok: "ledger_ok ?C (ws_ledger ws1)" using assms(1) k by simp
  note g = commit_grows [OF ok intent(6)]
  from intent(6) obtain ids rows where a: "ws_ledger ws' = rows"
      "append_many ?C (Some (artifact_verified R (ws_files ws1))) (ws_ledger ws1) ?raw = (Inr ids, rows)"
    by (cases rule: commit_cases) auto
  let ?e1 = "fst (?raw ! 0)" and ?e3 = "fst (?raw ! 2)"
  have e: "(?e1, key) \<in> set ?raw" "ev_id ?e1 = cr_id q" "(?e3, snd (?raw ! 2)) \<in> set ?raw"
      "ev_id ?e3 = intent_id R (cr_id q)"
    by (simp_all add: prepare_entries_def Let_def chat_event_def intent_id_def chat_id_def)
  have e3: "?e3 \<in> set (ledger_events ?C rows)"
    using ledger.append_lookup [OF ok a(2) e(3)] ledger.lookup_recorded [OF ledger.append_invar [OF ok a(2)]]
    by blast
  have new: "cr_id q \<notin> ev_id ` set (ledger_events ?C (ws_ledger ws))"
      and e1: "?e1 \<in> set (ledger_events ?C rows)"
    using fresh_key_event [OF ok a(2) e(1)] assms(2) k(1) unfolding e(2) by simp_all
  have "cr_id q \<in> ev_id ` set (ledger_events ?C rows)"
      "intent_id R (cr_id q) \<in> ev_id ` set (ledger_events ?C rows)"
    using imageI [OF e1, of ev_id] imageI [OF e3, of ev_id] unfolding e(2,4) .
  then show ?thesis
    using a(1) g k new by simp
qed simp

lemma prepare_chat_intent:
  assumes "calls_ok R ws" and "get_by_idempotency (rt_codec R) (ws_ledger ws) key = Inr None"
    and "prepare_chat R now ws q key P who = (Inr prep, ws')"
  shows "calls_ok R ws' \<and> ws_calls ws' = ws_calls ws \<and> cr_id q \<notin> set (ws_calls ws) \<and>
    {cr_id q, intent_id R (cr_id q)} \<subseteq> ev_id ` set (ledger_events (rt_codec R) (ws_ledger ws'))"
proof -
  have ok: "ledger_ok (rt_codec R) (ws_ledger ws)" using assms(1) by (simp add: calls_ok_def)
  note f = prepare_chat_fresh [OF ok assms(2,3)]
  then have "calls_ok R ws'" using calls_ok_grows [OF assms(1)] by blast
  moreover have "cr_id q \<notin> set (ws_calls ws)"
    using f assms(1) unfolding calls_ok_def by blast
  ultimately show ?thesis using f by blast
qed

text \<open>What may happen to the workspace.\<close>

inductive chat_step :: "runtime \<Rightarrow> workspace \<Rightarrow> workspace \<Rightarrow> bool" for R where
  turn: "create_chat_message R now later ws q key P who = (res, ws') \<Longrightarrow> chat_step R ws ws'"
| crash: "chat_step R ws (chat_crashed R now ws q key P who)"
| other: "append_many (rt_codec R) artifacts (ws_ledger ws) entries = (res, rows) \<Longrightarrow>
    chat_step R ws (ws\<lparr>ws_ledger := rows, ws_files := files, ws_memory := db\<rparr>)"

inductive chat_reachable :: "runtime \<Rightarrow> workspace \<Rightarrow> bool" for R where
  start: "codec_ok (rt_codec R) \<Longrightarrow>
    chat_reachable R \<lparr> ws_ledger = [], ws_files = files, ws_memory = db, ws_calls = [] \<rparr>"
| step: "chat_reachable R ws \<Longrightarrow> chat_step R ws ws' \<Longrightarrow> chat_reachable R ws'"

lemma prepare_chat_failed:
  assumes "calls_ok R ws" and "prepare_chat R now ws q key P who = (Inl x, ws')"
  shows "calls_ok R ws' \<and> ws_calls ws' = ws_calls ws"
  using assms(2)
proof (cases rule: prepare_chat_cases)
  case (failed y)
  then show ?thesis using assms(1) by (simp add: calls_ok_def)
qed simp

text \<open>A turn as its clients see it: the ledger grows, and a call is of a request new to it.\<close>

lemma chat_turn_effect:
  assumes "ledger_ok (rt_codec R) (ws_ledger ws)" and "create_chat_message R now later ws q key P who = (res, ws')"
  shows "ledger_grows (rt_codec R) (ws_ledger ws) (ws_ledger ws') \<and>
    (ws_calls ws' = ws_calls ws \<or>
     ws_calls ws' = ws_calls ws @ [cr_id q] \<and>
     cr_id q \<notin> ev_id ` set (ledger_events (rt_codec R) (ws_ledger ws)) \<and>
     cr_id q \<in> ev_id ` set (ledger_events (rt_codec R) (ws_ledger ws')))"
proof (cases "get_by_idempotency (rt_codec R) (ws_ledger ws) key = Inr None")
  case False
  then have "ws' = ws" using assms(2)
    by (auto simp: create_chat_message_def split: sum.splits option.splits)
  then show ?thesis using assms(1) by simp
next
  case True
  obtain r ws1 where p: "prepare_chat R now ws q key P who = (r, ws1)"
    by (cases "prepare_chat R now ws q key P who")
  show ?thesis
  proof (cases r)
    case (Inl x)
    then have "ws' = ws1" using p assms(2) True by (simp add: create_chat_message_def)
    moreover have "ws_ledger ws1 = ws_ledger ws \<and> ws_calls ws1 = ws_calls ws"
      using p [unfolded Inl] by (cases rule: prepare_chat_cases) simp_all
    ultimately show ?thesis using assms(1) by simp
  next
    case (Inr prep)
    note f = prepare_chat_fresh [OF assms(1) True p [unfolded Inr]]
    have d: "dispatch_chat R later ws1 q key P prep = (res, ws')"
      using assms(2) True p Inr by (simp add: create_chat_message_def)
    have "ledger_ok (rt_codec R) (ws_ledger ws1)" using f by (simp add: ledger_grows_def)
    note g = dispatch_chat_grows [OF this d]
    have "ledger_grows (rt_codec R) (ws_ledger ws) (ws_ledger ws')"
      by (rule ledger_grows_trans [OF conjunct1 [OF f] conjunct1 [OF g]])
    moreover have "ev_id ` set (ledger_events (rt_codec R) (ws_ledger ws1)) \<subseteq>
        ev_id ` set (ledger_events (rt_codec R) (ws_ledger ws'))"
      using g by (intro image_mono) (simp add: ledger_grows_def)
    then have "cr_id q \<in> ev_id ` set (ledger_events (rt_codec R) (ws_ledger ws'))"
      by (rule subsetD) (use f in \<open>simp only: insert_subset\<close>)
    ultimately show ?thesis using f g by simp
  qed
qed

lemma chat_crash_effect:
  assumes "ledger_ok (rt_codec R) (ws_ledger ws)"
    and "ws' = chat_crashed R now ws q key P who"
  shows "ledger_grows (rt_codec R) (ws_ledger ws) (ws_ledger ws') \<and>
    (ws_calls ws' = ws_calls ws \<or>
     ws_calls ws' = ws_calls ws @ [cr_id q] \<and>
     cr_id q \<notin> ev_id ` set (ledger_events (rt_codec R) (ws_ledger ws)) \<and>
     cr_id q \<in> ev_id ` set (ledger_events (rt_codec R) (ws_ledger ws')))"
proof (cases "get_by_idempotency (rt_codec R) (ws_ledger ws) key = Inr None")
  case False
  then have "ws' = ws" by (auto simp: assms(2) chat_crashed_def split: sum.splits option.splits)
  then show ?thesis using assms(1) by simp
next
  case True
  obtain r ws1 where p: "prepare_chat R now ws q key P who = (r, ws1)"
    by (cases "prepare_chat R now ws q key P who")
  show ?thesis
  proof (cases r)
    case (Inl x)
    then have "ws' = ws1" using p True by (simp add: assms(2) chat_crashed_def)
    moreover have "ws_ledger ws1 = ws_ledger ws \<and> ws_calls ws1 = ws_calls ws"
      using p [unfolded Inl] by (cases rule: prepare_chat_cases) simp_all
    ultimately show ?thesis using assms(1) by simp
  next
    case (Inr prep)
    then have "ws' = ws1\<lparr>ws_calls := ws_calls ws1 @ [cr_id q]\<rparr>" using p True
      by (simp add: assms(2) chat_crashed_def)
    then show ?thesis using prepare_chat_fresh [OF assms(1) True p [unfolded Inr]] by simp
  qed
qed

lemma turn_calls_ok:
  assumes "calls_ok R ws" and "create_chat_message R now later ws q key P who = (res, ws')"
  shows "calls_ok R ws'"
proof (cases "get_by_idempotency (rt_codec R) (ws_ledger ws) key = Inr None")
  case False
  then have "ws' = ws" using assms(2)
    by (auto simp: create_chat_message_def split: sum.splits option.splits)
  then show ?thesis using assms(1) by simp
next
  case True
  obtain r ws1 where p: "prepare_chat R now ws q key P who = (r, ws1)"
    by (cases "prepare_chat R now ws q key P who")
  show ?thesis
  proof (cases r)
    case (Inl x)
    then show ?thesis using prepare_chat_failed [OF assms(1)] p assms(2) True
      by (simp add: create_chat_message_def)
  next
    case (Inr prep)
    note i = prepare_chat_intent [OF assms(1) True p [unfolded Inr]]
    have d: "dispatch_chat R later ws1 q key P prep = (res, ws')"
      using assms(2) True p Inr by (simp add: create_chat_message_def)
    have "ledger_ok (rt_codec R) (ws_ledger ws1)" using i by (simp add: calls_ok_def)
    note g = dispatch_chat_grows [OF this d]
    show ?thesis
      by (rule calls_ok_call [of R ws1 _ "cr_id q"]) (use g i in auto)
  qed
qed

lemma crash_calls_ok:
  assumes "calls_ok R ws"
  shows "calls_ok R (chat_crashed R now ws q key P who)"
proof (cases "get_by_idempotency (rt_codec R) (ws_ledger ws) key = Inr None")
  case False
  then have "chat_crashed R now ws q key P who = ws"
    by (auto simp: chat_crashed_def split: sum.splits option.splits)
  then show ?thesis using assms by simp
next
  case True
  obtain r ws1 where p: "prepare_chat R now ws q key P who = (r, ws1)"
    by (cases "prepare_chat R now ws q key P who")
  show ?thesis
  proof (cases r)
    case (Inl x)
    then show ?thesis using prepare_chat_failed [OF assms] p True by (simp add: chat_crashed_def)
  next
    case (Inr prep)
    then show ?thesis
      using prepare_chat_intent [OF assms True p [unfolded Inr]] p True
      by (auto simp: chat_crashed_def calls_ok_def)
  qed
qed

lemma chat_step_ok: "chat_step R ws ws' \<Longrightarrow> calls_ok R ws \<Longrightarrow> calls_ok R ws'"
proof (induction rule: chat_step.induct)
  case (turn now later ws q key P who res ws')
  then show ?case using turn_calls_ok by blast
next
  case (crash ws now q key P who)
  then show ?case using crash_calls_ok by blast
next
  case (other artifacts ws entries res rows files db)
  then have "ledger_grows (rt_codec R) (ws_ledger ws) rows"
    using append_many_grows by (simp add: calls_ok_def)
  then show ?case using other(2) by (intro calls_ok_grows [OF other(2)]) simp_all
qed

lemma chat_reachable_ok: "chat_reachable R ws \<Longrightarrow> calls_ok R ws"
proof (induction rule: chat_reachable.induct)
  case (start files db)
  then show ?case using ledger_ok_empty [OF start] by (simp add: calls_ok_def)
next
  case (step ws ws')
  then show ?case using chat_step_ok by blast
qed

text \<open>
  Of turns served one after another, with crashes during a call and transactions of other components
  between them, no request is dispatched twice, and every dispatched request has its own event and
  that of its pending call in the ledger.  Turns in flight at the same time are the subject of
  \<open>Chat_Races\<close>.
\<close>

lemma serial_turns_call_once:
  assumes "chat_reachable R ws"
  shows "distinct (ws_calls ws) \<and>
    (\<forall>i\<in>set (ws_calls ws). {i, intent_id R i} \<subseteq> ev_id ` set (ledger_events (rt_codec R) (ws_ledger ws)))"
  using chat_reachable_ok [OF assms] by (simp add: calls_ok_def)

end
