(* ===== verification/Chat_Replay.thy ===== *)
theory Chat_Replay
  imports Chat_Once
begin

text \<open>
  A completed turn is answered again from what it persisted, and a turn whose outcome was never
  recorded is reported as uncertain: the proofs follow the log through the two transactions
  of a turn and read the run back from it.
\<close>

section \<open>Transactions of new events\<close>

lemma spec_append_fresh:
  assumes "spec_append_loop C artifacts lg entries = Inr (lg', ids)" and "log_ok C lg"
    and "set entries \<inter> set lg = {}" and "distinct entries"
  shows "lg' = lg @ entries"
  using assms
proof (induction entries arbitrary: lg ids)
  case Nil
  then show ?case by simp
next
  case (Cons x entries)
  obtain e k where x: "x = (e, k)" by (cases x)
  obtain lg1 i ids' where s: "spec_append_one C artifacts lg e k = Inr (lg1, i)"
      "spec_append_loop C artifacts lg1 entries = Inr (lg', ids')"
    using Cons.prems(1) x by (auto split: sum.splits prod.splits)
  have "lg1 = lg @ [(e, k)]"
    using s(1) by (cases rule: spec_append_one_cases) (use Cons.prems(3) x in auto)
  moreover have "log_ok C lg1" using spec_append_one_ok [OF Cons.prems(2) s(1)] by simp
  ultimately show ?case
    using Cons.IH [OF s(2)] Cons.prems(3,4) x by auto
qed

definition run_free :: "string \<Rightarrow> event_log \<Rightarrow> bool" where
  "run_free run_id lg \<longleftrightarrow> (\<forall>(e, k)\<in>set lg. ev_run e \<noteq> run_id)"

lemma run_free_simps [simp]:
  "run_free i []" "run_free i (lg @ lg') \<longleftrightarrow> run_free i lg \<and> run_free i lg'"
  by (auto simp: run_free_def)

lemma append_fresh_log:
  assumes "codec_ok C" and "log_ok C lg"
    and "append_many C artifacts (log_rows C lg) entries = (Inr ids, rows)"
    and "set entries \<inter> set lg = {}" and "distinct entries"
  shows "rows = log_rows C (lg @ entries)" and "log_ok C (lg @ entries)"
proof -
  obtain lg' where l: "spec_append_loop C artifacts lg entries = Inr (lg', ids)" "rows = log_rows C lg'"
    using append_many_log [OF assms(1-3)] by blast
  have "lg' = lg @ entries" by (rule spec_append_fresh [OF l(1) assms(2,4,5)])
  then show "rows = log_rows C (lg @ entries)" "log_ok C (lg @ entries)"
    using l spec_append_loop_ok [OF assms(2) l(1)] by auto
qed

text \<open>Later transactions of other runs add events of other runs.\<close>

definition other_runs :: "string \<Rightarrow> (event \<times> string) list list \<Rightarrow> bool" where
  "other_runs run_id txs \<longleftrightarrow> (\<forall>es\<in>set txs. run_free run_id es)"

definition ledger_after ::
    "codec \<Rightarrow> (string \<Rightarrow> bool) option \<Rightarrow> ledger \<Rightarrow> (event \<times> string) list list \<Rightarrow> ledger" where
  "ledger_after C artifacts rows txs = foldl (\<lambda>s es. snd (append_many C artifacts s es)) rows txs"

lemma ledger_after_log:
  assumes "codec_ok C" and "log_ok C lg" and "other_runs run_id txs"
  shows "\<exists>rest. ledger_after C artifacts (log_rows C lg) txs = log_rows C (lg @ rest) \<and>
    log_ok C (lg @ rest) \<and> run_free run_id rest"
  using assms(2,3)
proof (induction txs arbitrary: lg)
  case Nil
  then show ?case by (intro exI [of _ "[]"]) (simp add: ledger_after_def)
next
  case (Cons es txs)
  have "\<exists>new. snd (append_many C artifacts (log_rows C lg) es) = log_rows C (lg @ new) \<and>
      log_ok C (lg @ new) \<and> run_free run_id new"
  proof (cases "append_many C artifacts (log_rows C lg) es")
    case (Pair r rows)
    show ?thesis
    proof (cases r)
      case (Inl x)
      then show ?thesis using Pair ledger.append_rollback Cons.prems(1)
        by (intro exI [of _ "[]"]) fastforce
    next
      case (Inr ids)
      obtain lg' where l: "spec_append_loop C artifacts lg es = Inr (lg', ids)" "rows = log_rows C lg'"
        using append_many_log [OF assms(1) Cons.prems(1)] Pair Inr by blast
      obtain new where n: "lg' = lg @ new" "set new \<subseteq> set es" "log_ok C lg'"
        using spec_append_loop_ok [OF Cons.prems(1) l(1)] by blast
      have "run_free run_id new"
        using n(2) Cons.prems(2) by (auto simp: run_free_def other_runs_def)
      then show ?thesis using Pair l n by auto
    qed
  qed
  then obtain new where n: "snd (append_many C artifacts (log_rows C lg) es) = log_rows C (lg @ new)"
      "log_ok C (lg @ new)" "run_free run_id new" by blast
  obtain rest where "ledger_after C artifacts (log_rows C (lg @ new)) txs = log_rows C ((lg @ new) @ rest)"
      "log_ok C ((lg @ new) @ rest)" "run_free run_id rest"
    using Cons.IH [OF n(2)] Cons.prems(2) by (auto simp: other_runs_def)
  then show ?case
    using n by (intro exI [of _ "new @ rest"]) (simp add: ledger_after_def)
qed

section \<open>Conditions of a replay\<close>

text \<open>The run of a request has no events yet, in a well-formed ledger.\<close>

definition new_run :: "runtime \<Rightarrow> workspace \<Rightarrow> chat_request \<Rightarrow> bool" where
  "new_run R ws q \<longleftrightarrow> ledger_ok (rt_codec R) (ws_ledger ws) \<and>
     chat_run R q \<notin> ev_run ` set (ledger_events (rt_codec R) (ws_ledger ws))"

text \<open>A manifest is read back from its document, and no other bytes have its digest.\<close>

definition manifest_readable :: "runtime \<Rightarrow> manifest \<Rightarrow> bool" where
  "manifest_readable R m \<longleftrightarrow>
     (\<forall>d. digest_ref (c_sha (rt_codec R)) d = digest_ref (c_sha (rt_codec R)) (rt_dump_manifest R m) \<longrightarrow>
        d = rt_dump_manifest R m) \<and>
     rt_parse_manifest R (rt_dump_manifest R m) = Some m"

text \<open>Time passed: other runs appended events, and no artifact was lost.\<close>

definition later_workspace :: "runtime \<Rightarrow> chat_request \<Rightarrow> workspace \<Rightarrow> workspace \<Rightarrow> bool" where
  "later_workspace R q ws ws' \<longleftrightarrow>
     (\<exists>artifacts txs. ws_ledger ws' = ledger_after (rt_codec R) artifacts (ws_ledger ws) txs \<and>
        other_runs (chat_run R q) txs) \<and>
     (\<forall>h c. get_artifact (c_sha (rt_codec R)) (ws_files ws) h = Inr c \<longrightarrow>
        get_artifact (c_sha (rt_codec R)) (ws_files ws') h = Inr c)"

lemma new_runE:
  assumes "new_run R ws q"
  obtains lg where "codec_ok (rt_codec R)" "log_ok (rt_codec R) lg" "ws_ledger ws = log_rows (rt_codec R) lg"
    "run_free (chat_run R q) lg"
proof -
  obtain lg where lg: "codec_ok (rt_codec R)" "log_ok (rt_codec R) lg" "ws_ledger ws = log_rows (rt_codec R) lg"
    using assms ledger_okE unfolding new_run_def by blast
  then have "run_free (chat_run R q) lg"
    using assms by (force simp: run_free_def new_run_def)
  then show thesis using lg that by blast
qed

lemma later_workspaceE:
  assumes "later_workspace R q ws ws'" and "codec_ok (rt_codec R)" and "log_ok (rt_codec R) (lg @ mine)"
    and "ws_ledger ws = log_rows (rt_codec R) (lg @ mine)"
  obtains rest where "ws_ledger ws' = log_rows (rt_codec R) (lg @ mine @ rest)"
    "log_ok (rt_codec R) (lg @ mine @ rest)" "run_free (chat_run R q) rest"
proof -
  obtain artifacts txs where "ws_ledger ws' = ledger_after (rt_codec R) artifacts (ws_ledger ws) txs"
      "other_runs (chat_run R q) txs"
    using assms(1) unfolding later_workspace_def by blast
  then show thesis
    using ledger_after_log [OF assms(2,3), of "chat_run R q" txs artifacts] assms(4) that by auto
qed

lemma later_workspace_refl [simp]: "later_workspace R q ws ws"
  unfolding later_workspace_def
  by (intro conjI exI [of _ None] exI [of _ "[]"]) (simp_all add: ledger_after_def other_runs_def)

section \<open>Reading a run back\<close>

lemma chat_event_simps [simp]:
  "ev_id (chat_event R q i who k now p refs ps tr mo) = i"
  "ev_session (chat_event R q i who k now p refs ps tr mo) = cr_session q"
  "ev_run (chat_event R q i who k now p refs ps tr mo) = chat_run R q"
  "ev_task (chat_event R q i who k now p refs ps tr mo) = chat_task R q"
  "ev_actor (chat_event R q i who k now p refs ps tr mo) = who"
  "ev_type (chat_event R q i who k now p refs ps tr mo) = k"
  "ev_payload (chat_event R q i who k now p refs ps tr mo) = p"
  "ev_artifact_refs (chat_event R q i who k now p refs ps tr mo) = refs"
  "ev_parents (chat_event R q i who k now p refs ps tr mo) = ps"
  "ev_trust (chat_event R q i who k now p refs ps tr mo) = tr"
  "ev_model (chat_event R q i who k now p refs ps tr mo) = mo"
  by (simp_all add: chat_event_def)

text \<open>The entries that belong to the run of a request.\<close>

definition of_request :: "runtime \<Rightarrow> chat_request \<Rightarrow> event_log \<Rightarrow> bool" where
  "of_request R q lg \<longleftrightarrow> (\<forall>(e, k)\<in>set lg. ev_run e = chat_run R q \<and> ev_session e = cr_session q)"

lemma prepare_entries_of_request: "of_request R q (prepare_entries R now q key x who m ref)"
  by (simp add: of_request_def prepare_entries_def Let_def)

lemma outcome_entries_of_request: "of_request R q (outcome_entries R later q key x i k p suffix)"
  by (simp add: of_request_def outcome_entries_def Let_def)

lemma stream_of_request:
  assumes "codec_ok C" and "log_ok C (lg @ mine @ rest)" and "of_request R q mine"
    and "run_free (chat_run R q) lg" and "run_free (chat_run R q) rest"
  shows "\<exists>es. stream C (log_rows C (lg @ mine @ rest)) (cr_session q) = Inr es \<and>
    filter (\<lambda>e. ev_run e = chat_run R q) es = map fst mine"
proof -
  let ?P = "\<lambda>(e, k :: string). ev_session e = cr_session q"
  have none: "filter (\<lambda>e. ev_run e = chat_run R q) (map fst (filter ?P l)) = []"
    if "run_free (chat_run R q) l" for l
    using that by (auto simp: run_free_def filter_empty_conv)
  have mine: "filter ?P mine = mine" "filter (\<lambda>e. ev_run e = chat_run R q) (map fst mine) = map fst mine"
    using assms(3) by (auto simp: of_request_def filter_id_conv)
  show ?thesis
    unfolding stream_log [OF assms(1,2)]
    using none [OF assms(4)] none [OF assms(5)] mine by simp
qed

lemma inspect_of_request:
  assumes "codec_ok (rt_codec R)" and "log_ok (rt_codec R) (lg @ mine @ rest)"
    and "ws_ledger ws = log_rows (rt_codec R) (lg @ mine @ rest)" and "of_request R q mine"
    and "run_free (chat_run R q) lg" and "run_free (chat_run R q) rest" and "mine \<noteq> []"
    and "reconstruct_run (map fst mine) = Inr rec" and "rn_context_ref rec = Some ref"
    and "get_artifact (c_sha (rt_codec R)) (ws_files ws) ref = Inr enc"
    and "rt_parse_manifest R enc = Some m" and "cm_task m = rn_task rec"
  shows "inspect_run R ws (cr_session q) (chat_run R q) =
    Inr \<lparr> in_session = cr_session q, in_run = chat_run R q, in_events = map fst mine,
      in_manifest = m, in_reconstruction = rec \<rparr>"
proof -
  obtain es where "stream (rt_codec R) (ws_ledger ws) (cr_session q) = Inr es"
      "filter (\<lambda>e. ev_run e = chat_run R q) es = map fst mine"
    using stream_of_request [OF assms(1,2,4-6)] assms(3) by auto
  then show ?thesis
    using assms(7-12) by (simp add: inspect_run_def Let_def)
qed

lemma operation_jobj:
  "ev_payload e = jobj ((''operation'', JStr (step_kind_value k)) # kvs) \<Longrightarrow>
   operation_of e = Some (JStr (step_kind_value k)) \<and> step_kind_of e = Inr k"
  by (simp add: operation_of_def step_kind_of_def find_kind)

lemma prepared_reconstruction:
  "\<exists>rec. reconstruct_run (map fst (prepare_entries R now q key x who m ref)) = Inr rec \<and>
     rn_state rec = InProgress \<and> rn_context_ref rec = Some ref \<and> rn_task rec = chat_task R q"
  by (simp add: prepare_entries_def Let_def reconstruct_run_def run_round_def legacy_call_def
      guard_simps state_after_def identity_of_def request_payload_def context_payload_def
      call_payload_def operation_jobj [of _ RequestRecorded, simplified]
      operation_jobj [of _ ContextCompiled, simplified]
      operation_jobj [of _ ModelCallPending, simplified])

lemma completed_reconstruction:
  "\<exists>rec. reconstruct_run (map fst (prepare_entries R now q key x who m ref @
        outcome_entries R later q key x i Message (response_payload a cits) suffix)) = Inr rec \<and>
     rn_state rec = Completed \<and> rn_context_ref rec = Some ref \<and> rn_task rec = chat_task R q \<and>
     rn_final rec = Some i"
  by (simp add: prepare_entries_def outcome_entries_def Let_def reconstruct_run_def run_round_def
      legacy_call_def guard_simps state_after_def identity_of_def request_payload_def
      context_payload_def call_payload_def response_payload_def
      operation_jobj [of _ RequestRecorded, simplified]
      operation_jobj [of _ ContextCompiled, simplified]
      operation_jobj [of _ ModelCallPending, simplified]
      operation_jobj [of _ ModelCallSucceeded, simplified]
      operation_jobj [of _ FinalResponse, simplified])

section \<open>An answered turn\<close>

lemma answered_turn:
  assumes "create_chat_message R now later ws q key P who = (Inr (Answered r), ws')"
    and "get_by_idempotency (rt_codec R) (ws_ledger ws) key = Inr None"
  obtains sel reference ws1 ws2 where
    "compile_context (rt_codec R) (retrieve_memory_evidence (ws_memory ws) (cr_message q))
       (chat_id R q ''ctx'' ''chat-context'') (chat_task R q) now (cr_budget q) = Inr (ch_manifest r, sel)"
    "build_citations sel (cm_items (ch_manifest r)) = Inr (ch_citations r)"
    "put_context_manifest R ws (ch_manifest r) = (Inr reference, ws1)"
    "valid_model_identity (model_identity_of (pv_identity P))"
    "commit R ws1 (prepare_entries R now q key (pv_identity P) who (ch_manifest r) reference) = (Inr (), ws2)"
    "commit R (ws2\<lparr>ws_calls := ws_calls ws2 @ [cr_id q]\<rparr>)
       (outcome_entries R later q key (pv_identity P) (chat_id R q ''evt'' ''chat-response'') Message
          (response_payload (ch_answer r) (ch_citations r)) '':response'') = (Inr (), ws')"
    "r = \<lparr> ch_session = cr_session q, ch_run = chat_run R q, ch_task = chat_task R q,
        ch_provider = projection_of (pv_identity P), ch_answer = ch_answer r,
        ch_citations = ch_citations r, ch_manifest = ch_manifest r \<rparr>"
proof -
  obtain y ws2 where prep: "prepare_chat R now ws q key P who = (y, ws2)"
    by (cases "prepare_chat R now ws q key P who")
  from assms prep obtain prep' where y: "y = Inr prep'"
    by (cases y) (auto simp: create_chat_message_def)
  have d: "dispatch_chat R later ws2 q key P prep' = (Inr (Answered r), ws')"
    using assms prep y by (simp add: create_chat_message_def)
  let ?called = "ws2\<lparr>ws_calls := ws_calls ws2 @ [cr_id q]\<rparr>"
  obtain out where f: "finish_chat R later ?called q key (pv_identity P) prep' out = (Inr (Answered r), ws')"
    using d by (auto simp: dispatch_chat_def Let_def split: sum.splits prod.splits)
  obtain a where out: "out = FinalAnswer a"
    using f by (cases out) (auto simp: finish_chat_def Let_def split: sum.splits prod.splits)
  obtain w where com: "commit R ?called (outcome_entries R later q key (pv_identity P)
        (chat_id R q ''evt'' ''chat-response'') Message (response_payload a (pp_citations prep')) '':response'') =
      (Inr w, ws')"
    and r: "r = \<lparr> ch_session = cr_session q, ch_run = chat_run R q, ch_task = chat_task R q,
        ch_provider = projection_of (pv_identity P), ch_answer = a,
        ch_citations = pp_citations prep', ch_manifest = pp_manifest prep' \<rparr>"
    using f out by (auto simp: finish_chat_def Let_def split: sum.splits prod.splits)
  from prep show thesis
  proof (cases rule: prepare_chat_cases)
    case (intent m sel cits reference ws1)
    have "prep' = \<lparr> pp_manifest = m, pp_selected = sel, pp_citations = cits \<rparr>"
      using intent(1) y by simp
    then have "ch_manifest r = m" "ch_citations r = cits" "ch_answer r = a"
        "pp_citations prep' = cits" "pp_manifest prep' = m"
      using r by simp_all
    then show thesis using that [of sel reference ws1 ws2] intent com r by simp
  qed (use y in simp)
qed

lemma build_citations_valid:
  "build_citations rs is = Inr cs \<Longrightarrow> list_all valid_citation cs"
proof (induction rs "is" arbitrary: cs rule: build_citations.induct)
  case (2 r rs i "is")
  then show ?case by (auto simp: Let_def result_simps split: option.splits if_splits)
qed auto

lemma parse_all_dump:
  "list_all valid_citation cs \<Longrightarrow> parse_all parse_citation (map dump_citation cs) = Some cs"
  by (induction cs) (simp_all add: parse_dump_citation)

lemma compile_context_task:
  "compile_context C ret i t n b = Inr (m, sel) \<Longrightarrow> cm_task m = t"
  by (auto simp: compile_context_def validate_manifest_def result_simps)


definition turn_entries ::
    "runtime \<Rightarrow> int \<Rightarrow> int \<Rightarrow> chat_request \<Rightarrow> string \<Rightarrow> execution_identity \<Rightarrow> string \<Rightarrow> string
      \<Rightarrow> chat_response \<Rightarrow> (event \<times> string) list" where
  "turn_entries R now later q key x who reference r =
     prepare_entries R now q key x who (ch_manifest r) reference @
     outcome_entries R later q key x (chat_id R q ''evt'' ''chat-response'') Message
       (response_payload (ch_answer r) (ch_citations r)) '':response''"

lemma turn_entries_first:
  "turn_entries R now later q key x who reference r \<noteq> [] \<and>
   (\<exists>e. (e, key) \<in> set (turn_entries R now later q key x who reference r) \<and> same_request R q e)"
  by (auto simp: turn_entries_def prepare_entries_def Let_def same_request_def request_payload_def
      jobj_def equals_integer_def)

lemma distinct_append_keys: "distinct (map snd (lg :: event_log)) \<Longrightarrow> distinct lg"
  by (simp add: distinct_map)

lemma turn_entries_of_request: "of_request R q (turn_entries R now later q key x who reference r)"
  unfolding turn_entries_def of_request_def set_append ball_Un
  using prepare_entries_of_request outcome_entries_of_request
  unfolding of_request_def by (rule conjI)

lemma disjoint_run_free:
  "run_free (chat_run R q) lg \<Longrightarrow> of_request R q mine \<Longrightarrow> set mine \<inter> set lg = {}"
  by (auto simp: run_free_def of_request_def)

lemma response_of_completed:
  assumes "distinct (map (ev_id \<circ> fst) (turn_entries R now later q key x who reference r))"
    and "list_all valid_citation (ch_citations r)" and "valid_model_name (xi_model x)"
    and "rn_final rec = Some (chat_id R q ''evt'' ''chat-response'')" and "rn_task rec = chat_task R q"
  shows "response_from_run \<lparr> in_session = cr_session q, in_run = chat_run R q,
      in_events = map fst (turn_entries R now later q key x who reference r),
      in_manifest = ch_manifest r, in_reconstruction = rec \<rparr> =
    Inr \<lparr> ch_session = cr_session q, ch_run = chat_run R q, ch_task = chat_task R q,
        ch_provider = projection_of x, ch_answer = ch_answer r,
        ch_citations = ch_citations r, ch_manifest = ch_manifest r \<rparr>"
proof -
  let ?es = "map fst (turn_entries R now later q key x who reference r)"
  let ?e = "last ?es"
  have l: "?e \<in> set ?es" "ev_id ?e = chat_id R q ''evt'' ''chat-response''"
      "ev_payload ?e = response_payload (ch_answer r) (ch_citations r)"
      "ev_model ?e = Some (model_identity_of x)"
    by (simp_all add: turn_entries_def outcome_entries_def Let_def)
  have "find (\<lambda>e. ev_id e = chat_id R q ''evt'' ''chat-response'') ?es = Some ?e"
    using assms(1) l(1,2) by (intro find_unique) simp_all
  moreover have "jget (response_payload (ch_answer r) (ch_citations r)) ''citations'' =
        Some (JSeq (map dump_citation (ch_citations r)))"
      "jget (response_payload (ch_answer r) (ch_citations r)) ''answer'' = Some (JStr (ch_answer r))"
    by (simp_all add: response_payload_def jobj_def)
  ultimately show ?thesis
    using assms(2-5) l(3,4) parse_all_dump [OF assms(2)] parse_projection_of [OF assms(3)]
    by (simp add: response_from_run_def model_identity_of_def)
qed

lemma commit_fresh:
  assumes "codec_ok (rt_codec R)" and "log_ok (rt_codec R) lg"
    and "commit R ws mine = (Inr (), ws')" and "ws_ledger ws = log_rows (rt_codec R) lg"
    and "set mine \<inter> set lg = {}" and "distinct mine"
  shows "ws' = ws\<lparr>ws_ledger := log_rows (rt_codec R) (lg @ mine)\<rparr>" and "log_ok (rt_codec R) (lg @ mine)"
proof -
  obtain ids rows where c: "ws' = ws\<lparr>ws_ledger := rows\<rparr>"
      "append_many (rt_codec R) (Some (artifact_verified R (ws_files ws))) (ws_ledger ws) mine = (Inr ids, rows)"
    using assms(3) by (cases rule: commit_cases) auto
  show "ws' = ws\<lparr>ws_ledger := log_rows (rt_codec R) (lg @ mine)\<rparr>" "log_ok (rt_codec R) (lg @ mine)"
    using append_fresh_log [OF assms(1,2) c(2) [unfolded assms(4)] assms(5,6)] c(1) by simp_all
qed

text \<open>What an answered turn leaves behind.\<close>

lemma answered_turn_state:
  assumes "codec_ok (rt_codec R)" and "log_ok (rt_codec R) lg" and "ws_ledger ws = log_rows (rt_codec R) lg"
    and "run_free (chat_run R q) lg"
    and "create_chat_message R now later ws q key P who = (Inr (Answered r), ws')"
  obtains reference ws1 where
    "log_ok (rt_codec R) (lg @ turn_entries R now later q key (pv_identity P) who reference r)"
    "ws_ledger ws' = log_rows (rt_codec R) (lg @ turn_entries R now later q key (pv_identity P) who reference r)"
    "put_context_manifest R ws (ch_manifest r) = (Inr reference, ws1)" "ws_files ws' = ws_files ws1"
    "list_all valid_citation (ch_citations r)" "valid_model_name (xi_model (pv_identity P))"
    "cm_task (ch_manifest r) = chat_task R q"
    "r = \<lparr> ch_session = cr_session q, ch_run = chat_run R q, ch_task = chat_task R q,
        ch_provider = projection_of (pv_identity P), ch_answer = ch_answer r,
        ch_citations = ch_citations r, ch_manifest = ch_manifest r \<rparr>"
proof -
  let ?C = "rt_codec R" and ?x = "pv_identity P"
  have free: "get_by_idempotency ?C (ws_ledger ws) key = Inr None"
  proof (cases "get_by_idempotency ?C (ws_ledger ws) key")
    case (Inl y)
    then show ?thesis using assms(5) by (simp add: create_chat_message_def)
  next
    case (Inr found)
    show ?thesis
    proof (cases found)
      case (Some e)
      then have "ledger_lookup ?C (ws_ledger ws) key = Some e" using Inr by (simp add: ledger_lookup_def)
      then have "(e, key) \<in> set lg" using ledger_lookup_log [OF assms(1,2)] assms(3) by simp
      then have "ev_run e \<noteq> chat_run R q" using assms(4) by (auto simp: run_free_def)
      then show ?thesis using assms(5) Inr Some
        by (simp add: create_chat_message_def replay_chat_def same_request_def)
    qed (use Inr in simp)
  qed
  from assms(5) free show thesis
  proof (rule answered_turn)
    fix sel reference ws1 ws2
    assume compiled: "compile_context ?C (retrieve_memory_evidence (ws_memory ws) (cr_message q))
         (chat_id R q ''ctx'' ''chat-context'') (chat_task R q) now (cr_budget q) = Inr (ch_manifest r, sel)"
      and cits: "build_citations sel (cm_items (ch_manifest r)) = Inr (ch_citations r)"
      and put: "put_context_manifest R ws (ch_manifest r) = (Inr reference, ws1)"
      and model: "valid_model_identity (model_identity_of ?x)"
      and c1: "commit R ws1 (prepare_entries R now q key ?x who (ch_manifest r) reference) = (Inr (), ws2)"
      and c2: "commit R (ws2\<lparr>ws_calls := ws_calls ws2 @ [cr_id q]\<rparr>)
         (outcome_entries R later q key ?x (chat_id R q ''evt'' ''chat-response'') Message
          (response_payload (ch_answer r) (ch_citations r)) '':response'') = (Inr (), ws')"
      and r: "r = \<lparr> ch_session = cr_session q, ch_run = chat_run R q, ch_task = chat_task R q,
        ch_provider = projection_of ?x, ch_answer = ch_answer r,
        ch_citations = ch_citations r, ch_manifest = ch_manifest r \<rparr>"
    let ?in = "prepare_entries R now q key ?x who (ch_manifest r) reference"
    let ?out = "outcome_entries R later q key ?x (chat_id R q ''evt'' ''chat-response'') Message
          (response_payload (ch_answer r) (ch_citations r)) '':response''"
    have keys: "distinct ?in" "distinct ?out" "set ?out \<inter> set ?in = {}"
      by (auto simp: prepare_entries_def outcome_entries_def Let_def)
    have l1: "ws_ledger ws1 = log_rows ?C lg" using put_manifest_keeps [OF put] assms(3) by simp
    note d1 = disjoint_run_free [OF assms(4) prepare_entries_of_request]
    note s1 = commit_fresh [OF assms(1,2) c1 l1 d1 keys(1)]
    have "set ?out \<inter> set lg = {}" by (rule disjoint_run_free [OF assms(4) outcome_entries_of_request])
    then have d2: "set ?out \<inter> set (lg @ ?in) = {}" using keys(3) by auto
    have l2: "ws_ledger (ws2\<lparr>ws_calls := ws_calls ws2 @ [cr_id q]\<rparr>) = log_rows ?C (lg @ ?in)"
      using s1(1) by simp
    note s2 = commit_fresh [OF assms(1) s1(2) c2 l2 d2 keys(2)]
    show thesis
    proof (rule that [OF _ _ put _ _ _ _ r])
      show "log_ok ?C (lg @ turn_entries R now later q key ?x who reference r)"
          "ws_ledger ws' = log_rows ?C (lg @ turn_entries R now later q key ?x who reference r)"
        using s2 by (simp_all add: turn_entries_def)
      show "ws_files ws' = ws_files ws1" using s1(1) s2(1) by simp
      show "list_all valid_citation (ch_citations r)" by (rule build_citations_valid [OF cits])
      show "valid_model_name (xi_model ?x)"
        using model by (simp add: valid_model_identity_def valid_identity_text_def model_identity_of_def
            valid_model_name_def)
      show "cm_task (ch_manifest r) = chat_task R q" by (rule compile_context_task [OF compiled])
    qed
  qed
qed

lemma put_manifest_readable:
  assumes "benign (rt_interfere R)" and "codec_ok (rt_codec R)"
    and "put_context_manifest R ws m = (Inr reference, ws1)"
    and "manifest_readable R m"
  shows "get_artifact (c_sha (rt_codec R)) (ws_files ws1) reference = Inr (rt_dump_manifest R m)"
proof -
  have h: "hash_ok (c_sha (rt_codec R))" using assms(2) by (simp add: codec_ok_def)
  have p: "put_artifact (c_sha (rt_codec R)) (rt_rnd R) (rt_interfere R) (ws_files ws)
      (Bytes (rt_dump_manifest R m)) = (Inr reference, ws_files ws1)"
    using assms(3) by (auto simp: put_context_manifest_def split: prod.splits sum.splits)
  obtain d where d: "reference = digest_ref (c_sha (rt_codec R)) (rt_dump_manifest R m)"
      "get_artifact (c_sha (rt_codec R)) (ws_files ws1) reference = Inr d"
    using put_artifact_readable [OF assms(1) h p] by blast
  then have "digest_ref (c_sha (rt_codec R)) d = digest_ref (c_sha (rt_codec R)) (rt_dump_manifest R m)"
    using get_artifact_address by metis
  then show ?thesis using d(2) assms(4) by (simp add: manifest_readable_def)
qed

text \<open>Later, the run of a completed turn is found as it was left, and its response is read back.\<close>

lemma completed_turn_inspected:
  assumes "codec_ok (rt_codec R)" and "run_free (chat_run R q) lg" and "run_free (chat_run R q) rest"
    and "mine = turn_entries R now later q key x who reference r"
    and "log_ok (rt_codec R) (lg @ mine)"
    and "log_ok (rt_codec R) (lg @ mine @ rest)" and "ws_ledger ws = log_rows (rt_codec R) (lg @ mine @ rest)"
    and "get_artifact (c_sha (rt_codec R)) (ws_files ws) reference = Inr (rt_dump_manifest R (ch_manifest r))"
    and "manifest_readable R (ch_manifest r)" and "cm_task (ch_manifest r) = chat_task R q"
    and "list_all valid_citation (ch_citations r)" and "valid_model_name (xi_model x)"
    and "r = \<lparr> ch_session = cr_session q, ch_run = chat_run R q, ch_task = chat_task R q,
      ch_provider = projection_of x, ch_answer = ch_answer r, ch_citations = ch_citations r, ch_manifest = ch_manifest r \<rparr>"
  shows "\<exists>i. inspect_run R ws (cr_session q) (chat_run R q) = Inr i \<and>
    rn_state (in_reconstruction i) = Completed \<and> response_from_run i = Inr r"
proof -
  let ?mine = "turn_entries R now later q key x who reference r"
  obtain rec where rec: "reconstruct_run (map fst ?mine) = Inr rec" "rn_state rec = Completed"
      "rn_context_ref rec = Some reference" "rn_task rec = chat_task R q"
      "rn_final rec = Some (chat_id R q ''evt'' ''chat-response'')"
    using completed_reconstruction unfolding turn_entries_def by blast
  note mine = turn_entries_of_request [of R q now later key x who reference r]
  have parse: "rt_parse_manifest R (rt_dump_manifest R (ch_manifest r)) = Some (ch_manifest r)"
    using assms(9) by (simp add: manifest_readable_def)
  let ?i = "\<lparr> in_session = cr_session q, in_run = chat_run R q, in_events = map fst ?mine,
    in_manifest = ch_manifest r, in_reconstruction = rec \<rparr>"
  have i: "inspect_run R ws (cr_session q) (chat_run R q) = Inr ?i"
    by (rule inspect_of_request [OF assms(1) assms(6,7) [unfolded assms(4)] mine assms(2,3) _ rec(1,3) assms(8) parse])
      (simp_all add: turn_entries_first assms(10) rec(4))
  have "distinct (map (ev_id \<circ> fst) ?mine)" using assms(4,5) by (simp add: log_ok_def)
  from response_of_completed [OF this assms(11,12) rec(5,4)] show ?thesis using i rec(2) assms(13) by fastforce
qed

text \<open>
  C18: a completed turn is idempotent across restarts: if a first request for its run was
  answered, then, whatever transactions other runs made since (with any result) and as long as
  the artifacts are kept, repeating the request under the same key, at any time, with any
  provider and any actor, returns the same response and changes nothing: no event, no
  artifact, no call of a provider.  The manifest is read back from its artifact, so its
  document must parse to it and its digest must have no second preimage.
\<close>

theorem completed_chat_replays:
  assumes "new_run R ws q" and "benign (rt_interfere R)" and "manifest_readable R (ch_manifest r)"
    and "create_chat_message R now later ws q key P who = (Inr (Answered r), ws')"
    and "later_workspace R q ws' ws''"
  shows "create_chat_message R now' later' ws'' q key P' who' = (Inr (Answered r), ws'')"
proof -
  let ?C = "rt_codec R" and ?x = "pv_identity P"
  obtain lg where lg: "codec_ok ?C" "log_ok ?C lg" "ws_ledger ws = log_rows ?C lg"
      "run_free (chat_run R q) lg"
    using assms(1) by (rule new_runE)
  from lg assms(4) show ?thesis
  proof (rule answered_turn_state)
    fix reference ws1
    let ?mine = "turn_entries R now later q key ?x who reference r"
    assume t: "log_ok ?C (lg @ ?mine)" "ws_ledger ws' = log_rows ?C (lg @ ?mine)"
      and put: "put_context_manifest R ws (ch_manifest r) = (Inr reference, ws1)" "ws_files ws' = ws_files ws1"
      and ok: "list_all valid_citation (ch_citations r)" "valid_model_name (xi_model ?x)"
        "cm_task (ch_manifest r) = chat_task R q"
      and r: "r = \<lparr> ch_session = cr_session q, ch_run = chat_run R q, ch_task = chat_task R q,
        ch_provider = projection_of ?x, ch_answer = ch_answer r,
        ch_citations = ch_citations r, ch_manifest = ch_manifest r \<rparr>"
    obtain rest where rest: "ws_ledger ws'' = log_rows ?C (lg @ ?mine @ rest)"
        "log_ok ?C (lg @ ?mine @ rest)" "run_free (chat_run R q) rest"
      by (rule later_workspaceE [OF assms(5) lg(1) t])
    have art: "get_artifact (c_sha ?C) (ws_files ws'') reference = Inr (rt_dump_manifest R (ch_manifest r))"
      using put_manifest_readable [OF assms(2) lg(1) put(1) assms(3)] put(2) assms(5)
      by (simp add: later_workspace_def)
    obtain i where i: "inspect_run R ws'' (cr_session q) (chat_run R q) = Inr i"
        "rn_state (in_reconstruction i) = Completed" "response_from_run i = Inr r"
      using completed_turn_inspected [OF lg(1,4) rest(3) refl t(1) rest(2,1) art assms(3) ok(3,1,2) r] by blast
    obtain e where e: "(e, key) \<in> set ?mine" "same_request R q e" using turn_entries_first by blast
    have "ledger_lookup ?C (ws_ledger ws'') key = Some e"
      using ledger_lookup_log [OF lg(1) rest(2)] e(1) rest(1) by simp
    then have "get_by_idempotency ?C (ws_ledger ws'') key = Inr (Some e)"
      by (simp add: ledger_lookup_def split: sum.splits)
    then show ?thesis using i e(2) by (simp add: create_chat_message_def replay_chat_def)
  qed
qed

lemma chat_start_new: "new_run chat_runtime chat_start q"
  by (simp add: new_run_def chat_start_def ledger_events_def iter_all_def ledger_ok_empty)

lemma chat_manifest_readable: "manifest_readable chat_runtime chat_manifest"
  using chat_digest_alone by (auto simp: manifest_readable_def)

text \<open>Time passes for the finished turn: a message of another run is recorded.\<close>

definition chat_later :: workspace where
  "chat_later = chat_finished\<lparr>ws_ledger := snd (append_many chat_codec None (ws_ledger chat_finished)
     [(sample_message (CHR ''2'') [] ''later'', ''k2'')])\<rparr>"

theorem completed_chat_replays_witness:
  "create_chat_message chat_runtime 90 91 chat_later chat_q chat_key
     (fake_provider chat_codec (Some \<lparr> tq_scope = ''scope_docs'', tq_target = ''a.txt'', tq_max_bytes = 10 \<rparr>))
     ''human_other'' = (Inr (Answered chat_answer), chat_later)"
proof (rule completed_chat_replays [OF chat_start_new _ _ chat_turn])
  have "other_runs (chat_run chat_runtime chat_q) [[(sample_message (CHR ''2'') [] ''later'', ''k2'')]]"
    using chat_id_fresh [of "CHR ''1''" "CHR ''1''" "''run''" "''chat-run''" "''run''"]
    by (auto simp: other_runs_def run_free_def sample_message_def chat_run_def chat_id_def chat_q_def)
  then show "later_workspace chat_runtime chat_q chat_finished chat_later"
    unfolding later_workspace_def chat_later_def
    by (intro conjI exI [of _ None] exI [of _ "[[(sample_message (CHR ''2'') [] ''later'', ''k2'')]]"])
      (simp_all add: ledger_after_def)
qed (simp_all add: chat_manifest_readable chat_answer_def)

end
