(* ===== verification/Chat_Interrupted.thy ===== *)
theory Chat_Interrupted
  imports Chat_Replay
begin

text \<open>
  Turns whose outcome is missing from the ledger, because the process died during the call or
  because the outcome could not be recorded: they are reported as uncertain, and never
  dispatched again.
\<close>

section \<open>A turn without an outcome\<close>

lemma uncertain_of_prepared:
  assumes "codec_ok (rt_codec R)" and "log_ok (rt_codec R) (lg @ prepare_entries R now q key x who m reference @ rest)"
    and "ws_ledger ws = log_rows (rt_codec R) (lg @ prepare_entries R now q key x who m reference @ rest)"
    and "run_free (chat_run R q) lg" and "run_free (chat_run R q) rest"
    and "get_artifact (c_sha (rt_codec R)) (ws_files ws) reference = Inr enc"
    and "rt_parse_manifest R enc = Some m" and "cm_task m = chat_task R q"
  shows "create_chat_message R now' later' ws q key P' who' = (Inl ChatDispatchUncertain, ws)"
proof -
  let ?C = "rt_codec R" and ?mine = "prepare_entries R now q key x who m reference"
  obtain rec where rec: "reconstruct_run (map fst ?mine) = Inr rec" "rn_state rec = InProgress"
      "rn_context_ref rec = Some reference" "rn_task rec = chat_task R q"
    using prepared_reconstruction by blast
  have ne: "?mine \<noteq> []" by (simp add: prepare_entries_def Let_def)
  have i: "inspect_run R ws (cr_session q) (chat_run R q) =
      Inr \<lparr> in_session = cr_session q, in_run = chat_run R q, in_events = map fst ?mine,
        in_manifest = m, in_reconstruction = rec \<rparr>"
    by (rule inspect_of_request [OF assms(1-3) prepare_entries_of_request assms(4,5) ne rec(1,3) assms(6,7)])
      (simp add: assms(8) rec(4))
  obtain e where e: "(e, key) \<in> set ?mine" "same_request R q e"
    by (auto simp: prepare_entries_def Let_def same_request_def request_payload_def jobj_def
        equals_integer_def)
  have "ledger_lookup ?C (ws_ledger ws) key = Some e"
    using ledger_lookup_log [OF assms(1,2)] e(1) assms(3) by simp
  then have "get_by_idempotency ?C (ws_ledger ws) key = Inr (Some e)"
    by (simp add: ledger_lookup_def split: sum.splits)
  then show ?thesis
    using i rec(2) e(2) by (simp add: create_chat_message_def replay_chat_def)
qed

text \<open>The intent of a first turn, as it stands in the ledger and among the artifacts.\<close>

lemma prepared_turn_state:
  assumes "codec_ok (rt_codec R)" and "log_ok (rt_codec R) lg" and "ws_ledger ws = log_rows (rt_codec R) lg"
    and "run_free (chat_run R q) lg"
    and "prepare_chat R now ws q key P who = (Inr prep, ws')"
  obtains reference ws1 where
    "log_ok (rt_codec R) (lg @ prepare_entries R now q key (pv_identity P) who (pp_manifest prep) reference)"
    "ws_ledger ws' = log_rows (rt_codec R)
       (lg @ prepare_entries R now q key (pv_identity P) who (pp_manifest prep) reference)"
    "put_context_manifest R ws (pp_manifest prep) = (Inr reference, ws1)" "ws_files ws' = ws_files ws1"
    "cm_task (pp_manifest prep) = chat_task R q"
  using assms(5)
proof (cases rule: prepare_chat_cases)
  case (intent m sel cits reference ws1)
  let ?C = "rt_codec R" and ?in = "prepare_entries R now q key (pv_identity P) who m reference"
  have m: "pp_manifest prep = m" using intent(1) by simp
  have "distinct ?in" by (simp add: prepare_entries_def Let_def)
  moreover have "ws_ledger ws1 = log_rows ?C lg" using put_manifest_keeps [OF intent(4)] assms(3) by simp
  ultimately have s: "ws' = ws1\<lparr>ws_ledger := log_rows ?C (lg @ ?in)\<rparr>" "log_ok ?C (lg @ ?in)"
    using commit_fresh [OF assms(1,2) intent(6)]
      disjoint_run_free [OF assms(4) prepare_entries_of_request] by blast+
  show thesis
    by (rule that [of reference ws1]) (use m s intent(4) compile_context_task [OF intent(2)] in simp_all)
qed simp

lemma stranded_turn:
  assumes "new_run R ws q" and "benign (rt_interfere R)"
    and "prepare_chat R now ws q key P who = (Inr prep, ws')" and "manifest_readable R (pp_manifest prep)"
    and "later_workspace R q ws' ws''"
  shows "create_chat_message R now' later' ws'' q key P' who' = (Inl ChatDispatchUncertain, ws'')"
proof -
  let ?C = "rt_codec R"
  obtain lg where lg: "codec_ok ?C" "log_ok ?C lg" "ws_ledger ws = log_rows ?C lg"
      "run_free (chat_run R q) lg"
    using assms(1) by (rule new_runE)
  from lg assms(3) show ?thesis
  proof (rule prepared_turn_state)
    fix reference ws1
    let ?mine = "prepare_entries R now q key (pv_identity P) who (pp_manifest prep) reference"
    assume t: "log_ok ?C (lg @ ?mine)" "ws_ledger ws' = log_rows ?C (lg @ ?mine)"
      and put: "put_context_manifest R ws (pp_manifest prep) = (Inr reference, ws1)" "ws_files ws' = ws_files ws1"
      and task: "cm_task (pp_manifest prep) = chat_task R q"
    obtain rest where rest: "ws_ledger ws'' = log_rows ?C (lg @ ?mine @ rest)"
        "log_ok ?C (lg @ ?mine @ rest)" "run_free (chat_run R q) rest"
      by (rule later_workspaceE [OF assms(5) lg(1) t])
    have art: "get_artifact (c_sha ?C) (ws_files ws'') reference = Inr (rt_dump_manifest R (pp_manifest prep))"
      using put_manifest_readable [OF assms(2) lg(1) put(1) assms(4)] put(2) assms(5)
      by (simp add: later_workspace_def)
    have parse: "rt_parse_manifest R (rt_dump_manifest R (pp_manifest prep)) = Some (pp_manifest prep)"
      using assms(4) by (simp add: manifest_readable_def)
    show ?thesis
      by (rule uncertain_of_prepared [OF lg(1) rest(2,1) lg(4) rest(3) art parse task])
  qed
qed

text \<open>
  C30: a turn that dies during the provider call is never dispatched again: whatever other
  runs do afterwards, every repetition of the request under its key, with any provider, actor and
  times, reports that the dispatch is uncertain and changes nothing.  The turn is the first of its run (no event
  of the run is in the well-formed ledger) under a key that no event had, and was prepared; writers that
  interfere while its manifest is stored keep existing files, later ones keep the artifacts, and the manifest is
  read back from its document, whose digest has no second preimage.
\<close>

theorem interrupted_chat_is_uncertain:
  assumes "new_run R ws q" and "benign (rt_interfere R)"
    and "prepare_chat R now ws q key P who = (Inr prep, prepared_ws)" and "manifest_readable R (pp_manifest prep)"
    and "get_by_idempotency (rt_codec R) (ws_ledger ws) key = Inr None"
    and "ws' = chat_crashed R now ws q key P who"
    and "later_workspace R q ws' ws''"
  shows "create_chat_message R now' later' ws'' q key P' who' = (Inl ChatDispatchUncertain, ws'')"
proof -
  have "ws_ledger ws' = ws_ledger prepared_ws" "ws_files ws' = ws_files prepared_ws"
    using assms(3,5,6) by (simp_all add: chat_crashed_def)
  then have "later_workspace R q prepared_ws ws''"
    using assms(7) by (simp add: later_workspace_def)
  then show ?thesis by (rule stranded_turn [OF assms(1-4)])
qed

section \<open>Answers too long for the ledger\<close>

text \<open>
  An answer longer than the strings of an event payload is accepted by the provider contract
  and dispatched, but its outcome cannot be recorded: the turn fails and stays uncertain.
\<close>

lemma oversized_answer_not_recorded:
  assumes "get_by_idempotency (rt_codec R) (ws_ledger ws) key = Inr None"
    and "prepare_chat R now ws q key P who = (Inr prep, prepared_ws)"
    and "pv_generate P (cr_message q) (pp_manifest prep) (pp_selected prep) None = Inr (FinalAnswer answer)"
    and "16384 < length answer"
  shows "\<exists>x. create_chat_message R now later ws q key P who =
    (Inl x, prepared_ws\<lparr>ws_calls := ws_calls prepared_ws @ [cr_id q]\<rparr>)"
proof -
  let ?called = "prepared_ws\<lparr>ws_calls := ws_calls prepared_ws @ [cr_id q]\<rparr>"
  let ?raw = "outcome_entries R later q key (pv_identity P) (chat_id R q ''evt'' ''chat-response'')
      Message (response_payload answer (pp_citations prep)) '':response''"
  have "\<not> payload_bounded 0 (response_payload answer (pp_citations prep))"
    using assms(4) by (simp add: response_payload_def jobj_def)
  then have "\<not> (\<forall>(e, k)\<in>set ?raw. valid_event (rt_codec R) e)"
    by (auto simp: outcome_entries_def Let_def dest: valid_eventD(2))
  then have "\<exists>x. build_entries R ?raw = Inl x"
    by (cases "build_entries R ?raw") (simp_all add: build_entries_Inr)
  then obtain x where "commit R ?called ?raw = (Inl x, ?called)" by (auto simp: commit_def)
  then show ?thesis
    using assms(1-3) by (simp add: create_chat_message_def dispatch_chat_def finish_chat_def Let_def)
qed

text \<open>
  The provider contract admits answers of up to 1,048,576 characters, an event payload
  only strings of up to 16,384: a longer answer is dispatched, its outcome cannot be recorded,
  the turn fails, and every repetition of the request is reported as uncertain.
\<close>

theorem oversized_answer_strands_run:
  assumes "new_run R ws q" and "benign (rt_interfere R)"
    and "prepare_chat R now ws q key P who = (Inr prep, prepared_ws)" and "manifest_readable R (pp_manifest prep)"
    and "get_by_idempotency (rt_codec R) (ws_ledger ws) key = Inr None"
    and "pv_generate P (cr_message q) (pp_manifest prep) (pp_selected prep) None = Inr (FinalAnswer answer)"
    and "16384 < length answer"
    and "create_chat_message R now later ws q key P who = (res, ws')"
  shows "is_error res \<and>
    create_chat_message R now' later' ws' q key P' who' = (Inl ChatDispatchUncertain, ws')"
proof -
  obtain x where "(res, ws') = (Inl x, prepared_ws\<lparr>ws_calls := ws_calls prepared_ws @ [cr_id q]\<rparr>)"
    using oversized_answer_not_recorded [OF assms(5,3,6,7)] assms(8) by metis
  then have r: "res = Inl x" "ws_ledger ws' = ws_ledger prepared_ws" "ws_files ws' = ws_files prepared_ws"
    by simp_all
  have "later_workspace R q prepared_ws ws'"
    using later_workspace_refl [of R q prepared_ws] unfolding later_workspace_def r(2,3) .
  then show ?thesis
    using stranded_turn [OF assms(1-4)] r(1) by simp
qed

theorem interrupted_chat_is_uncertain_witness:
  "create_chat_message chat_runtime 90 91 (chat_crashed chat_runtime 7 chat_start chat_q chat_key chat_provider ''human_local'')
     chat_q chat_key (fake_provider chat_codec None) ''human_local'' = (Inl ChatDispatchUncertain,
       chat_crashed chat_runtime 7 chat_start chat_q chat_key chat_provider ''human_local'')"
  by (rule interrupted_chat_is_uncertain [OF chat_start_new _ chat_prepared_by _ _ refl later_workspace_refl])
    (simp_all add: chat_manifest_readable chat_key_free)

text \<open>A provider that says too much.\<close>

definition wordy_provider :: provider where
  "wordy_provider = chat_provider\<lparr>pv_generate := \<lambda>_ _ _ _. Inr (FinalAnswer (replicate 16385 (CHR ''x'')))\<rparr>"

theorem oversized_answer_strands_run_witness:
  "is_error (fst (create_chat_message chat_runtime 7 8 chat_start chat_q chat_key wordy_provider ''human_local''))"
proof -
  have i: "pv_identity wordy_provider = pv_identity chat_provider" by (simp add: wordy_provider_def)
  have "prepare_chat chat_runtime 7 chat_start chat_q chat_key wordy_provider ''human_local'' =
      (Inr \<lparr> pp_manifest = chat_manifest, pp_selected = [], pp_citations = [] \<rparr>, chat_prepared)"
    using chat_prepared_by unfolding prepare_chat_def i .
  from oversized_answer_strands_run [OF chat_start_new _ this, where answer = "replicate 16385 (CHR ''x'')",
      OF _ _ _ _ _ prod.collapse [symmetric]]
  show ?thesis
    using chat_manifest_readable chat_key_free by (simp add: wordy_provider_def)
qed

end
