(* ===== verification/Chat_Races.thy ===== *)
theory Chat_Races
  imports Chat_Once
begin

text \<open>
  Turns in flight at the same time.  A turn is at a stage of \<open>create_chat_message\<close>, between two of its
  accesses to what it shares with others: the look-up of its key, the inspection of an existing run, the reading
  of the clock and of the memory, the publication of the manifest, the transaction that commits the intent,
  the call of the provider, and the transaction that commits the outcome.  Turns advance in any
  order, and the process of a turn may die at any stage.
\<close>

section \<open>The stages of a turn\<close>

record turn =
  tn_request :: chat_request
  tn_key :: string
  tn_provider :: provider
  tn_actor :: string

datatype stage =
    Received
  | Found event
  | Unseen
  | Compiled int manifest "memory list" "citation list"
  | Published int manifest "memory list" "citation list" string
  | Intended prepared
  | Returned prepared "provider_failure + provider_result"
  | Over "chat_error + chat_result"

text \<open>The next access, with what the clock shows should it be read.\<close>

definition advance :: "runtime \<Rightarrow> int \<Rightarrow> workspace \<Rightarrow> turn \<Rightarrow> stage \<Rightarrow> stage \<times> workspace" where
  "advance R clock ws tn st =
     (let q = tn_request tn; key = tn_key tn; P = tn_provider tn in
      case st of
        Received \<Rightarrow>
          (case get_by_idempotency (rt_codec R) (ws_ledger ws) key of
             Inl x \<Rightarrow> (Over (Inl (LedgerRaised x)), ws)
           | Inr (Some existing) \<Rightarrow> (Found existing, ws)
           | Inr None \<Rightarrow> (Unseen, ws))
      | Found existing \<Rightarrow> (Over (replay_chat R ws q existing), ws)
      | Unseen \<Rightarrow>
          (case compile_context (rt_codec R) (retrieve_memory_evidence (ws_memory ws) (cr_message q))
                  (chat_id R q ''ctx'' ''chat-context'') (chat_task R q) clock (cr_budget q) of
             Inl x \<Rightarrow> (Over (Inl (ContextRaised x)), ws)
           | Inr (m, selected) \<Rightarrow>
              (case build_citations selected (cm_items m) of
                 Inl x \<Rightarrow> (Over (Inl x), ws)
               | Inr citations \<Rightarrow> (Compiled clock m selected citations, ws)))
      | Compiled now m selected citations \<Rightarrow>
          (case put_context_manifest R ws m of
             (Inl x, ws') \<Rightarrow> (Over (Inl x), ws')
           | (Inr reference, ws') \<Rightarrow>
               if \<not> valid_model_identity (model_identity_of (pv_identity P)) then (Over (Inl ValueRaised), ws')
               else (Published now m selected citations reference, ws'))
      | Published now m selected citations reference \<Rightarrow>
          (case commit R ws (prepare_entries R now q key (pv_identity P) (tn_actor tn) m reference) of
             (Inl x, ws') \<Rightarrow> (Over (Inl x), ws')
           | (Inr _, ws') \<Rightarrow>
               (Intended \<lparr> pp_manifest = m, pp_selected = selected, pp_citations = citations \<rparr>, ws'))
      | Intended prep \<Rightarrow>
          (Returned prep (pv_generate P (cr_message q) (pp_manifest prep) (pp_selected prep) None),
           ws\<lparr>ws_calls := ws_calls ws @ [cr_id q]\<rparr>)
      | Returned prep answer \<Rightarrow>
          (case answer of
             Inl f \<Rightarrow>
               (case record_failure R clock ws q key f of
                  (Inl e, ws') \<Rightarrow> (Over (Inl e), ws')
                | (Inr _, ws') \<Rightarrow> (Over (Inl (ProviderRaised f)), ws'))
           | Inr res \<Rightarrow> (case finish_chat R clock ws q key (pv_identity P) prep res of (r, ws') \<Rightarrow> (Over r, ws')))
      | Over r \<Rightarrow> (Over r, ws))"

text \<open>A turn that nothing interleaves with is \<open>create_chat_message\<close>, at both readings of the clock.\<close>

definition undisturbed :: "runtime \<Rightarrow> int \<Rightarrow> int \<Rightarrow> turn \<Rightarrow> stage \<times> workspace \<Rightarrow> stage \<times> workspace" where
  "undisturbed R now later tn s =
     (case s of (st, ws) \<Rightarrow> advance R (case st of Returned _ _ \<Rightarrow> later | _ \<Rightarrow> now) ws tn st)"

lemma undisturbed_turn:
  "(undisturbed R now later tn ^^ 6) (Received, ws) =
     (case create_chat_message R now later ws (tn_request tn) (tn_key tn) (tn_provider tn) (tn_actor tn) of
        (r, ws') \<Rightarrow> (Over r, ws'))"
proof -
  have step: "(undisturbed R now later tn ^^ Suc n) s = (undisturbed R now later tn ^^ n) (undisturbed R now later tn s)" for n s
    by (simp only: funpow_Suc_right o_apply)
  have over: "(undisturbed R now later tn ^^ n) (Over r, ws) = (Over r, ws)" for n r ws
    by (induction n) (simp_all add: undisturbed_def advance_def)
  have six: "6 = Suc (Suc (Suc (Suc (Suc (Suc 0)))))" by simp
  note defs = undisturbed_def advance_def create_chat_message_def prepare_chat_def dispatch_chat_def Let_def
  show ?thesis
    unfolding six step
    by (simp add: defs over [unfolded defs] split: sum.split option.split prod.split)
qed

section \<open>Turns in flight\<close>

text \<open>
  The state is the workspace with the turns.  Two logs are kept beside it, which no code reads: for every reading
  of the clock as the time of a turn's compilation the request, the key and the instant, and the same for
  every intent that a turn committed.
\<close>

type_synonym clock_reading = "string \<times> string \<times> int"

record race =
  rc_ws :: workspace
  rc_turns :: "(turn \<times> stage) list"
  rc_readings :: "clock_reading list"
  rc_committed :: "clock_reading list"

definition reading :: "turn \<Rightarrow> int \<Rightarrow> clock_reading" where
  "reading tn instant = (cr_id (tn_request tn), tn_key tn, instant)"

fun reads_clock :: "int \<Rightarrow> turn \<Rightarrow> stage \<Rightarrow> clock_reading list" where
  "reads_clock clock tn Unseen = [reading tn clock]"
| "reads_clock clock tn _ = []"

fun commits :: "turn \<Rightarrow> stage \<Rightarrow> stage \<Rightarrow> clock_reading list" where
  "commits tn (Published now _ _ _ _) (Intended _) = [reading tn now]"
| "commits tn _ _ = []"

inductive race_step :: "runtime \<Rightarrow> race \<Rightarrow> race \<Rightarrow> bool" for R where
  arrives: "race_step R S (S\<lparr>rc_turns := rc_turns S @ [(tn, Received)]\<rparr>)"
| advances: "i < length (rc_turns S) \<Longrightarrow> rc_turns S ! i = (tn, st) \<Longrightarrow>
    advance R clock (rc_ws S) tn st = (st', ws') \<Longrightarrow>
    race_step R S (S\<lparr>rc_ws := ws', rc_turns := (rc_turns S)[i := (tn, st')],
      rc_readings := rc_readings S @ reads_clock clock tn st,
      rc_committed := rc_committed S @ commits tn st st'\<rparr>)"
| dies: "race_step R S (S\<lparr>rc_turns := take i (rc_turns S) @ drop (Suc i) (rc_turns S)\<rparr>)"
| others: "append_many (rt_codec R) artifacts (ws_ledger (rc_ws S)) entries = (res, rows) \<Longrightarrow>
    race_step R S (S\<lparr>rc_ws := (rc_ws S)\<lparr>ws_ledger := rows, ws_files := files, ws_memory := db\<rparr>\<rparr>)"

inductive race_reachable :: "runtime \<Rightarrow> race \<Rightarrow> bool" for R where
  start: "codec_ok (rt_codec R) \<Longrightarrow> race_reachable R
    \<lparr> rc_ws = \<lparr> ws_ledger = [], ws_files = files, ws_memory = db, ws_calls = [] \<rparr>, rc_turns = [],
      rc_readings = [], rc_committed = [] \<rparr>"
| step: "race_reachable R S \<Longrightarrow> race_step R S S' \<Longrightarrow> race_reachable R S'"

section \<open>The invariant\<close>

text \<open>What is in the ledger after an intent was committed: the request's event and that of its pending call.\<close>

definition intent_recorded :: "runtime \<Rightarrow> ledger \<Rightarrow> clock_reading \<Rightarrow> bool" where
  "intent_recorded R rows =
     (\<lambda>(i, key, now).
       (\<exists>e. ledger_lookup (rt_codec R) rows key = Some e \<and> ev_id e = i \<and> ev_type e = Message \<and> ev_observed_at e = now) \<and>
       (\<exists>e k. ledger_lookup (rt_codec R) rows k = Some e \<and> ev_id e = intent_id R i \<and> ev_type e = ModelCall \<and>
          jget (ev_payload e) ''operation'' = Some (JStr ''model_call_pending'')))"

text \<open>The readings a turn has yet to commit, and the call it has yet to make.\<close>

fun uncommitted :: "turn \<times> stage \<Rightarrow> clock_reading list" where
  "uncommitted (tn, Compiled now _ _ _) = [reading tn now]"
| "uncommitted (tn, Published now _ _ _ _) = [reading tn now]"
| "uncommitted _ = []"

fun uncalled :: "turn \<times> stage \<Rightarrow> string list" where
  "uncalled (tn, Intended _) = [cr_id (tn_request tn)]"
| "uncalled _ = []"

definition race_ok :: "runtime \<Rightarrow> race \<Rightarrow> bool" where
  "race_ok R S \<longleftrightarrow> ledger_ok (rt_codec R) (ws_ledger (rc_ws S)) \<and>
     mset (rc_committed S) + mset (concat (map uncommitted (rc_turns S))) \<subseteq># mset (rc_readings S) \<and>
     mset (ws_calls (rc_ws S)) + mset (concat (map uncalled (rc_turns S))) \<subseteq># mset (map fst (rc_committed S)) \<and>
     (\<forall>c\<in>set (rc_committed S). intent_recorded R (ws_ledger (rc_ws S)) c)"

text \<open>The ledger keeps what can be looked up.\<close>

definition keeps_lookups :: "codec \<Rightarrow> ledger \<Rightarrow> ledger \<Rightarrow> bool" where
  "keeps_lookups C rows rows' \<longleftrightarrow> ledger_ok C rows' \<and>
     (\<forall>k e. ledger_lookup C rows k = Some e \<longrightarrow> ledger_lookup C rows' k = Some e)"

lemma keeps_lookups_refl: "ledger_ok C rows \<Longrightarrow> keeps_lookups C rows rows"
  by (simp add: keeps_lookups_def)

lemma append_many_keeps:
  assumes "ledger_ok C rows" and "append_many C artifacts rows entries = (res, rows')"
  shows "keeps_lookups C rows rows'"
proof (cases res)
  case (Inl x)
  then have "rows' = rows" using assms(2) ledger.append_rollback by blast
  then show ?thesis using assms(1) by (simp add: keeps_lookups_def)
next
  case (Inr ids)
  then show ?thesis
    using ledger.lookup_stable [OF assms(1)] ledger.append_invar [OF assms] assms(2)
    unfolding keeps_lookups_def by blast
qed

lemma commit_keeps:
  assumes "ledger_ok (rt_codec R) (ws_ledger ws)" and "commit R ws raw = (res, ws')"
  shows "keeps_lookups (rt_codec R) (ws_ledger ws) (ws_ledger ws') \<and> ws_calls ws' = ws_calls ws"
  using assms(2) by (cases rule: commit_cases) (use assms(1) append_many_keeps keeps_lookups_refl in auto)

lemma intent_recorded_kept:
  "keeps_lookups (rt_codec R) rows rows' \<Longrightarrow> intent_recorded R rows c \<Longrightarrow> intent_recorded R rows' c"
  unfolding intent_recorded_def keeps_lookups_def by (cases c) (simp; blast)

text \<open>Committing the intent of a turn puts both events in the ledger, under the key and one derived from it.\<close>

lemma commit_records_intent:
  assumes "ledger_ok (rt_codec R) (ws_ledger ws)"
    and "commit R ws (prepare_entries R now q key x who m reference) = (Inr u, ws')"
  shows "intent_recorded R (ws_ledger ws') (cr_id q, key, now)"
proof -
  let ?C = "rt_codec R" and ?raw = "prepare_entries R now q key x who m reference"
  from assms(2) obtain ids rows where a: "ws_ledger ws' = rows"
      "append_many ?C (Some (artifact_verified R (ws_files ws))) (ws_ledger ws) ?raw = (Inr ids, rows)"
    by (cases rule: commit_cases) auto
  note found = ledger.append_lookup [OF assms(1) a(2)]
  have "(fst (?raw ! 0), key) \<in> set ?raw" "(fst (?raw ! 2), key @ '':model:pending'') \<in> set ?raw"
    by (simp_all add: prepare_entries_def Let_def)
  note found = this [THEN found]
  have "ev_id (fst (?raw ! 0)) = cr_id q" "ev_type (fst (?raw ! 0)) = Message" "ev_observed_at (fst (?raw ! 0)) = now"
    "ev_id (fst (?raw ! 2)) = intent_id R (cr_id q)" "ev_type (fst (?raw ! 2)) = ModelCall"
    "jget (ev_payload (fst (?raw ! 2))) ''operation'' = Some (JStr ''model_call_pending'')"
    by (simp_all add: prepare_entries_def Let_def chat_event_def intent_id_def chat_id_def call_payload_def)
  then show ?thesis using found unfolding intent_recorded_def a(1) prod.case by blast
qed

section \<open>One access\<close>

text \<open>
  An access keeps the ledger; the readings of a turn are spent at most once by a commit, and its commits
  at most once by a call.
\<close>

lemma advance_effect:
  assumes "advance R clock ws tn st = (st', ws')" and "ledger_ok (rt_codec R) (ws_ledger ws)"
  shows "keeps_lookups (rt_codec R) (ws_ledger ws) (ws_ledger ws')"
    and "mset (commits tn st st') + mset (uncommitted (tn, st')) \<subseteq># mset (uncommitted (tn, st)) + mset (reads_clock clock tn st)"
    and "\<exists>called. ws_calls ws' = ws_calls ws @ called \<and>
      mset called + mset (uncalled (tn, st')) \<subseteq># mset (uncalled (tn, st)) + mset (map fst (commits tn st st'))"
    and "\<forall>c\<in>set (commits tn st st'). intent_recorded R (ws_ledger ws') c"
proof -
  let ?q = "tn_request tn" and ?key = "tn_key tn" and ?P = "tn_provider tn"
  let ?G = "keeps_lookups (rt_codec R) (ws_ledger ws) (ws_ledger ws') \<and>
    mset (commits tn st st') + mset (uncommitted (tn, st')) \<subseteq># mset (uncommitted (tn, st)) + mset (reads_clock clock tn st) \<and>
    (\<exists>called. ws_calls ws' = ws_calls ws @ called \<and>
      mset called + mset (uncalled (tn, st')) \<subseteq># mset (uncalled (tn, st)) + mset (map fst (commits tn st st'))) \<and>
    (\<forall>c\<in>set (commits tn st st'). intent_recorded R (ws_ledger ws') c)"
  have quiet: ?G if "ws' = ws" "commits tn st st' = []" "uncommitted (tn, st') = []" "uncalled (tn, st') = []"
    using that keeps_lookups_refl [OF assms(2)] by simp
  have later: ?G if "commit R ws0 raw = (r, ws')" "ws_ledger ws0 = ws_ledger ws" "ws_calls ws0 = ws_calls ws" "st' = Over o'"
    for ws0 raw r o'
    using commit_keeps [OF _ that(1)] assms(2) that(2-4) by (cases st) simp_all
  have ?G
  proof (cases st)
    case Received
    then have "ws' = ws \<and> st' \<in> {Unseen} \<union> range Found \<union> range Over"
      using assms(1) by (auto simp: advance_def Let_def split: sum.splits option.splits)
    then show ?thesis using quiet Received by auto
  next
    case (Found e)
    then show ?thesis using quiet assms(1) by (auto simp: advance_def Let_def)
  next
    case Unseen
    then have "ws' = ws" "(\<exists>m s c. st' = Compiled clock m s c) \<or> (\<exists>r. st' = Over r)"
      using assms(1) by (auto simp: advance_def Let_def split: sum.splits)
    then show ?thesis using keeps_lookups_refl [OF assms(2)] Unseen by auto
  next
    case (Compiled now m sel cits)
    obtain r ws1 where put: "put_context_manifest R ws m = (r, ws1)" by fastforce
    have "ws' = ws1" "(\<exists>ref. st' = Published now m sel cits ref) \<or> (\<exists>r. st' = Over r)"
      using assms(1) Compiled put by (auto simp: advance_def Let_def split: sum.splits if_splits)
    then show ?thesis using put_manifest_keeps [OF put] keeps_lookups_refl [OF assms(2)] Compiled by auto
  next
    case (Published now m sel cits ref)
    obtain r ws1 where com: "commit R ws (prepare_entries R now ?q ?key (pv_identity ?P) (tn_actor tn) m ref) = (r, ws1)"
      by fastforce
    note k = commit_keeps [OF assms(2) com]
    show ?thesis
    proof (cases r)
      case (Inl x)
      then have "ws' = ws1" "st' = Over (Inl x)"
        using assms(1) Published com by (simp_all add: advance_def Let_def)
      then show ?thesis using k Published by simp
    next
      case (Inr u)
      then have "ws' = ws1" "\<exists>prep. st' = Intended prep"
        using assms(1) Published com by (auto simp: advance_def Let_def)
      then show ?thesis
        using k Published commit_records_intent [OF assms(2) com [unfolded Inr]] by (auto simp: reading_def)
    qed
  next
    case (Intended prep)
    then have "ws' = ws\<lparr>ws_calls := ws_calls ws @ [cr_id ?q]\<rparr>" "\<exists>a. st' = Returned prep a"
      using assms(1) by (auto simp: advance_def Let_def)
    then show ?thesis using keeps_lookups_refl [OF assms(2)] Intended by auto
  next
    case (Returned prep answer)
    then have "\<exists>raw r. commit R ws raw = (r, ws')" "\<exists>o'. st' = Over o'"
      using assms(1)
      by (auto simp: advance_def Let_def record_failure_def finish_chat_def
          split: sum.splits prod.splits provider_result.splits)
    then show ?thesis using later by blast
  next
    case (Over r)
    then show ?thesis using quiet assms(1) by (auto simp: advance_def Let_def)
  qed
  then show "keeps_lookups (rt_codec R) (ws_ledger ws) (ws_ledger ws')"
    "mset (commits tn st st') + mset (uncommitted (tn, st')) \<subseteq># mset (uncommitted (tn, st)) + mset (reads_clock clock tn st)"
    "\<exists>called. ws_calls ws' = ws_calls ws @ called \<and>
      mset called + mset (uncalled (tn, st')) \<subseteq># mset (uncalled (tn, st)) + mset (map fst (commits tn st st'))"
    "\<forall>c\<in>set (commits tn st st'). intent_recorded R (ws_ledger ws') c" by blast+
qed

section \<open>Every step\<close>

lemma mset_concat_update:
  assumes "i < length xs"
  shows "mset (concat (map f (xs[i := y]))) + mset (f (xs ! i)) = mset (concat (map f xs)) + mset (f y)"
proof -
  have "xs = take i xs @ xs ! i # drop (Suc i) xs" using id_take_nth_drop [OF assms] .
  then have "mset (concat (map f xs)) = mset (concat (map f (take i xs))) + mset (f (xs ! i)) + mset (concat (map f (drop (Suc i) xs)))"
    by (metis (no_types) add.assoc concat.simps(2) concat_append list.simps(9) map_append mset_append)
  then show ?thesis by (simp add: upd_conv_take_nth_drop [OF assms])
qed

lemma mset_concat_remove: "mset (concat (map f (take i xs @ drop (Suc i) xs))) \<subseteq># mset (concat (map f xs))"
proof (induction xs arbitrary: i)
  case (Cons x xs)
  show ?case
  proof (cases i)
    case 0
    then show ?thesis by simp
  next
    case (Suc j)
    then show ?thesis using Cons.IH [of j] by simp
  qed
qed simp

text \<open>Exchanging \<open>w\<close> for \<open>w'\<close> and \<open>c\<close>, against \<open>r\<close>, keeps a sum within its bound.\<close>

lemma exchange:
  fixes A W W' c w w' r B :: "'a multiset"
  assumes "A + W \<subseteq># B" and "W' + w = W + w'" and "c + w' \<subseteq># w + r"
  shows "A + c + W' \<subseteq># B + r"
proof -
  have "A + c + W' + w = (A + W) + (c + w')" using assms(2) by (simp add: ac_simps)
  also have "\<dots> \<subseteq># B + (w + r)" using assms(1,3) by (rule subset_mset.add_mono)
  also have "\<dots> = B + r + w" by (simp add: ac_simps)
  finally show ?thesis by simp
qed

lemma race_step_ok: "race_step R S S' \<Longrightarrow> race_ok R S \<Longrightarrow> race_ok R S'"
proof (induction rule: race_step.induct)
  case (arrives S tn)
  then show ?case by (simp add: race_ok_def)
next
  case (advances i S tn st clock st' ws')
  have ok: "ledger_ok (rt_codec R) (ws_ledger (rc_ws S))" using advances(4) by (simp add: race_ok_def)
  note e = advance_effect [OF advances(3) ok]
  obtain called where called: "ws_calls ws' = ws_calls (rc_ws S) @ called"
    "mset called + mset (uncalled (tn, st')) \<subseteq># mset (uncalled (tn, st)) + mset (map fst (commits tn st st'))"
    using e(3) by blast
  note update = mset_concat_update [OF advances(1), of _ "(tn, st')", unfolded advances(2)]
  have "mset (rc_committed S) + mset (commits tn st st') + mset (concat (map uncommitted ((rc_turns S)[i := (tn, st')])))
      \<subseteq># mset (rc_readings S) + mset (reads_clock clock tn st)"
    by (rule exchange [OF _ update e(2)]) (use advances(4) in \<open>simp add: race_ok_def\<close>)
  moreover have "mset (ws_calls (rc_ws S)) + mset called + mset (concat (map uncalled ((rc_turns S)[i := (tn, st')])))
      \<subseteq># mset (map fst (rc_committed S)) + mset (map fst (commits tn st st'))"
    by (rule exchange [OF _ update called(2)]) (use advances(4) in \<open>simp add: race_ok_def\<close>)
  moreover have "\<forall>c\<in>set (rc_committed S). intent_recorded R (ws_ledger ws') c"
    using advances(4) intent_recorded_kept [OF e(1)] by (simp add: race_ok_def)
  ultimately show ?case
    using e(1,4) by (auto simp: race_ok_def keeps_lookups_def called(1) simp del: mset_map)
next
  case (dies S i)
  have "A + mset (concat (map f (take i (rc_turns S) @ drop (Suc i) (rc_turns S)))) \<subseteq># B"
    if "A + mset (concat (map f (rc_turns S))) \<subseteq># B" for A B and f :: "turn \<times> stage \<Rightarrow> 'x list"
    using mset_concat_remove [of f i "rc_turns S"] that
    by (meson subset_mset.add_left_mono subset_mset.order_trans)
  note remove = this
  note d = dies [unfolded race_ok_def]
  show ?case unfolding race_ok_def
    using d remove [of _ uncommitted] remove [of _ uncalled]
    by (simp del: map_append concat_append mset_append mset_map)
next
  case (others artifacts S entries res rows files db)
  have ok: "ledger_ok (rt_codec R) (ws_ledger (rc_ws S))" using others(2) by (simp add: race_ok_def)
  note k = append_many_keeps [OF ok others(1)]
  then show ?case
    using others(2) intent_recorded_kept [OF k] by (simp add: race_ok_def keeps_lookups_def)
qed

lemma race_reachable_ok: "race_reachable R S \<Longrightarrow> race_ok R S"
proof (induction rule: race_reachable.induct)
  case (start files db)
  then show ?case using ledger_ok_empty [OF start] by (simp add: race_ok_def)
next
  case (step S S')
  then show ?case using race_step_ok by blast
qed

section \<open>At most one call\<close>

lemma distinct_submset: "mset xs \<subseteq># mset ys \<Longrightarrow> distinct ys \<Longrightarrow> distinct xs"
  unfolding distinct_count_atmost_1 by (metis (no_types) count_mset_0_iff le_antisym mset_subset_eq_count
      mset_subset_eqD set_mset_mset le_0_eq in_multiset_in_set count_greater_eq_one_iff)

text \<open>Intents in the ledger are told apart by their requests: two of one request are under one key, of one instant.\<close>

lemma intents_differ:
  assumes "ledger_ok (rt_codec R) rows" and "intent_recorded R rows (i, k, n)" and "intent_recorded R rows (i, k', n')"
  shows "(k, n) = (k', n')"
proof -
  obtain lg where lg: "codec_ok (rt_codec R)" "log_ok (rt_codec R) lg" "rows = log_rows (rt_codec R) lg"
    using assms(1) by (rule ledger_okE)
  obtain e e' where e: "(e, k) \<in> set lg" "ev_id e = i" "ev_observed_at e = n"
    "(e', k') \<in> set lg" "ev_id e' = i" "ev_observed_at e' = n'"
    using assms(2,3) unfolding intent_recorded_def lg(3) prod.case ledger_lookup_log [OF lg(1,2)] by blast
  have "distinct (map (ev_id \<circ> fst) lg)" using lg(2) by (simp add: log_ok_def)
  then have "inj_on (ev_id \<circ> fst) (set lg)" unfolding distinct_map by (rule conjunct2)
  from inj_onD [OF this _ e(1,4)] e show ?thesis by simp
qed

text \<open>
  C6: the provider is called at most once for a request, and never before the intent is durable, also when turns
  race.  Any number of turns may be in flight, with any requests, keys and providers; they may interleave
  between any two of their accesses, die at any point, and find the ledger extended by any transaction and the
  files and the memory replaced.  As long as no two turns of one request under one key read the same instant as
  the time of their compilation, no request was dispatched twice; and, in every state and so from the moment
  of the call on, every dispatched request has in the ledger the message event of its own identity and the
  model-call event derived from it, whose operation is the pending call.
\<close>

theorem provider_called_once:
  assumes "race_reachable R S" and "distinct (rc_readings S)"
  shows "distinct (ws_calls (rc_ws S)) \<and>
    (\<forall>i\<in>set (ws_calls (rc_ws S)).
       (\<exists>e\<in>set (ledger_events (rt_codec R) (ws_ledger (rc_ws S))). ev_id e = i \<and> ev_type e = Message) \<and>
       (\<exists>e\<in>set (ledger_events (rt_codec R) (ws_ledger (rc_ws S))).
          ev_id e = derived_id (c_sha (rt_codec R)) i ''evt'' ''chat-model-call-pending'' \<and> ev_type e = ModelCall \<and>
          jget (ev_payload e) ''operation'' = Some (JStr ''model_call_pending'')))"
proof -
  let ?rows = "ws_ledger (rc_ws S)" and ?cs = "rc_committed S"
  note ok = race_reachable_ok [OF assms(1), unfolded race_ok_def]
  have l: "ledger_ok (rt_codec R) ?rows" and rec: "\<forall>c\<in>set ?cs. intent_recorded R ?rows c"
    and sub: "mset ?cs \<subseteq># mset (rc_readings S)" "mset (ws_calls (rc_ws S)) \<subseteq># mset (map fst ?cs)"
    using ok subset_mset.order_trans [OF mset_subset_eq_add_left] by blast+
  have "distinct ?cs" using sub(1) assms(2) by (rule distinct_submset)
  moreover have "inj_on fst (set ?cs)"
  proof (rule inj_onI)
    fix c c'
    assume c: "c \<in> set ?cs" "c' \<in> set ?cs" "fst c = fst c'"
    obtain i k n k' n' where e: "c = (i, k, n)" "c' = (i, k', n')" using c(3) by (cases c, cases c') auto
    have "intent_recorded R ?rows (i, k, n)" "intent_recorded R ?rows (i, k', n')" using rec c(1,2) unfolding e by blast+
    from intents_differ [OF l this] show "c = c'" by (simp add: e)
  qed
  ultimately have "distinct (map fst ?cs)" by (simp add: distinct_map)
  with sub(2) have "distinct (ws_calls (rc_ws S))" by (rule distinct_submset)
  moreover have "(\<exists>e\<in>set (ledger_events (rt_codec R) ?rows). ev_id e = i \<and> ev_type e = Message) \<and>
      (\<exists>e\<in>set (ledger_events (rt_codec R) ?rows). ev_id e = intent_id R i \<and> ev_type e = ModelCall \<and>
         jget (ev_payload e) ''operation'' = Some (JStr ''model_call_pending''))"
    if "i \<in> set (ws_calls (rc_ws S))" for i
  proof -
    have "i \<in> fst ` set ?cs" using that mset_subset_eqD [OF sub(2)] by (metis set_map set_mset_mset)
    then obtain c where "c \<in> set ?cs" "i = fst c" by blast
    then have "intent_recorded R ?rows (i, snd c)" using rec by simp
    then show ?thesis
      using ledger.lookup_recorded [OF l] unfolding intent_recorded_def by (cases "snd c") (simp; blast)
  qed
  ultimately show ?thesis unfolding intent_id_def by blast
qed

section \<open>Two turns of one instant\<close>

text \<open>
  The hypothesis is needed: to append an event that is there already, equal in every field, counts as success.
  Two turns of one request under one key, with one provider and actor, that both found the key unused and
  read the same instant commit the same intent, both with success, and both call the provider.
\<close>

lemma same_instant_called_twice:
  assumes "ledger_ok (rt_codec R) (ws_ledger ws)"
    and "advance R clock ws tn (Published now m sel cits ref) = (Intended prep, ws1)"
    and "advance R clock ws1 tn (Intended prep) = (st2, ws2)"
  shows "advance R clock' ws2 tn (Published now m sel cits ref) = (Intended prep, ws2) \<and>
    ws_calls (snd (advance R clock' ws2 tn (Intended prep))) = ws_calls ws @ [cr_id (tn_request tn), cr_id (tn_request tn)]"
proof -
  let ?raw = "prepare_entries R now (tn_request tn) (tn_key tn) (pv_identity (tn_provider tn)) (tn_actor tn) m ref"
  obtain r where com: "commit R ws ?raw = (r, ws1)" "r = Inr ()" "prep = \<lparr> pp_manifest = m, pp_selected = sel, pp_citations = cits \<rparr>"
    using assms(2) by (auto simp: advance_def Let_def split: prod.splits sum.splits)
  from com(1) obtain ids rows where a: "ws1 = ws\<lparr>ws_ledger := rows\<rparr>"
    "append_many (rt_codec R) (Some (artifact_verified R (ws_files ws))) (ws_ledger ws) ?raw = (Inr ids, rows)"
    "\<forall>(e, k)\<in>set ?raw. valid_event (rt_codec R) e"
    by (cases rule: commit_cases) (use com(2) in auto)
  have "append_many (rt_codec R) (Some (artifact_verified R (ws_files ws))) rows ?raw = (Inr ids, rows)"
    by (rule ledger.append_replay [OF assms(1) a(2)])
  moreover have "ws2 = ws\<lparr>ws_ledger := rows, ws_calls := ws_calls ws @ [cr_id (tn_request tn)]\<rparr>"
    using assms(3) a(1) by (simp add: advance_def Let_def)
  moreover have "build_entries R ?raw = Inr ?raw" using a(3) by (simp add: build_entries_Inr)
  ultimately show ?thesis using com(3) by (simp add: advance_def Let_def commit_def append_entries_def)
qed

section \<open>A race\<close>

text \<open>
  Two turns of one request look up its key before either commits; the first goes on to the call of the
  provider, while the second compiles its context at another instant.
\<close>

definition racer :: "string \<Rightarrow> turn" where
  "racer who = \<lparr> tn_request = chat_q, tn_key = chat_key, tn_provider = chat_provider, tn_actor = who \<rparr>"

definition race_sample :: "workspace \<Rightarrow> stage \<Rightarrow> stage \<Rightarrow> clock_reading list \<Rightarrow> clock_reading list \<Rightarrow> race" where
  "race_sample ws st st' readings committed =
     \<lparr> rc_ws = ws, rc_turns = [(racer ''human_local'', st), (racer ''human_other'', st')], rc_readings = readings,
       rc_committed = committed \<rparr>"

lemma race_first:
  assumes "race_reachable chat_runtime (race_sample ws st other rs cs)"
    and "advance chat_runtime clock ws (racer ''human_local'') st = (st', ws')"
  shows "race_reachable chat_runtime (race_sample ws' st' other
    (rs @ reads_clock clock (racer ''human_local'') st) (cs @ commits (racer ''human_local'') st st'))"
  using race_reachable.step [OF assms(1) race_step.advances [where i = 0 and clock = clock]] assms(2)
  by (simp add: race_sample_def)

lemma race_second:
  assumes "race_reachable chat_runtime (race_sample ws other st rs cs)"
    and "advance chat_runtime clock ws (racer ''human_other'') st = (st', ws')"
  shows "race_reachable chat_runtime (race_sample ws' other st'
    (rs @ reads_clock clock (racer ''human_other'') st) (cs @ commits (racer ''human_other'') st st'))"
  using race_reachable.step [OF assms(1) race_step.advances [where i = 1 and clock = clock]] assms(2)
  by (simp add: race_sample_def)

lemma race_start: "race_reachable chat_runtime (race_sample chat_start Received Received [] [])"
proof -
  have "race_reachable chat_runtime \<lparr> rc_ws = chat_start, rc_turns = [], rc_readings = [], rc_committed = [] \<rparr>"
    using race_reachable.start [of chat_runtime] by (simp add: chat_start_def)
  from race_reachable.step [OF race_reachable.step [OF this race_step.arrives [of _ _ "racer ''human_local''"]]
      race_step.arrives [of _ _ "racer ''human_other''"]]
  show ?thesis by (simp add: race_sample_def)
qed

lemma race_called:
  "\<exists>st st'. race_reachable chat_runtime (race_sample chat_called st st'
     [(cr_id chat_q, chat_key, 7), (cr_id chat_q, chat_key, 9)] [(cr_id chat_q, chat_key, 7)])"
proof -
  have turn: "tn_request (racer who) = chat_q" "tn_key (racer who) = chat_key" "tn_provider (racer who) = chat_provider"
    "tn_actor (racer who) = who" for who by (simp_all add: racer_def)
  note defs = advance_def Let_def turn
  let ?prep = "\<lparr> pp_manifest = chat_manifest, pp_selected = [], pp_citations = [] \<rparr>"
  have seen: "advance chat_runtime 0 chat_start (racer who) Received = (Unseen, chat_start)" for who
    using chat_key_free by (simp add: defs)
  have "advance chat_runtime 7 chat_start (racer who) Unseen = (Compiled 7 chat_manifest [] [], chat_start)" for who
    using chat_compiled by (simp add: defs chat_start_def) (simp add: chat_manifest_def)
  note compiled = this
  have put: "put_context_manifest chat_runtime chat_start chat_manifest = (Inr chat_reference, chat_start\<lparr>ws_files := chat_files\<rparr>)"
    by (simp add: put_context_manifest_def chat_start_def chat_put chat_files_def chat_reference_def)
  have published: "advance chat_runtime 0 chat_start (racer ''human_local'') (Compiled 7 chat_manifest [] []) =
      (Published 7 chat_manifest [] [] chat_reference, chat_start\<lparr>ws_files := chat_files\<rparr>)"
    using put chat_model_valid by (simp add: defs)
  have intended: "advance chat_runtime 0 (chat_start\<lparr>ws_files := chat_files\<rparr>) (racer ''human_local'')
      (Published 7 chat_manifest [] [] chat_reference) = (Intended ?prep, chat_prepared)"
    using chat_commits(1) by (simp add: defs chat_intent_def)
  obtain answer where called: "advance chat_runtime 0 chat_prepared (racer ''human_local'') (Intended ?prep) =
      (Returned ?prep answer, chat_called)"
    by (simp add: defs chat_called_def chat_prepared_def chat_start_def)
  have "\<exists>st'. advance chat_runtime 9 chat_called (racer ''human_other'') Unseen = (st', chat_called)"
    by (simp add: defs split: sum.split prod.split)
  then obtain st' where late: "advance chat_runtime 9 chat_called (racer ''human_other'') Unseen = (st', chat_called)"
    by blast
  have "commits (racer ''human_other'') Unseen st' = []" by simp
  from race_second [OF race_first [OF race_first [OF race_first [OF race_first [OF race_second [OF race_first [OF race_start
    seen] seen] compiled] published] intended] called] late]
  show ?thesis by (auto simp: reading_def turn)
qed

theorem provider_called_once_witness:
  "\<exists>st st'. race_reachable chat_runtime (race_sample chat_called st st'
     [(cr_id chat_q, chat_key, 7), (cr_id chat_q, chat_key, 9)] [(cr_id chat_q, chat_key, 7)]) \<and>
   ws_calls chat_called = [cr_id chat_q] \<and>
   (\<exists>e\<in>set (ledger_events chat_codec (ws_ledger chat_called)). ev_id e = cr_id chat_q \<and> ev_type e = Message)"
proof -
  obtain st st' where r: "race_reachable chat_runtime (race_sample chat_called st st'
     [(cr_id chat_q, chat_key, 7), (cr_id chat_q, chat_key, 9)] [(cr_id chat_q, chat_key, 7)])"
    using race_called by blast
  have calls: "ws_calls chat_called = [cr_id chat_q]" by (simp add: chat_called_def)
  from provider_called_once [OF r]
  have "\<exists>e\<in>set (ledger_events chat_codec (ws_ledger chat_called)). ev_id e = cr_id chat_q \<and> ev_type e = Message"
    by (simp add: race_sample_def calls)
  with r calls show ?thesis by blast
qed

end
