(* ===== verification/Actions.thy ===== *)
theory Actions
  imports Prelude
begin

text \<open>
  Statements of the source as actions: functions from the state to a result or an error and the
  state after it, with sequential composition and what a composition keeps.
\<close>

text \<open>A statement of the source: it changes the state, and returns or raises.\<close>

definition and_then ::
    "('s \<Rightarrow> ('e + 'a) \<times> 's) \<Rightarrow> ('a \<Rightarrow> 's \<Rightarrow> ('e + 'b) \<times> 's) \<Rightarrow> 's \<Rightarrow> ('e + 'b) \<times> 's" where
  "and_then m f s = (case m s of (Inl e, s') \<Rightarrow> (Inl e, s') | (Inr a, s') \<Rightarrow> f a s')"

definition give :: "'a \<Rightarrow> 's \<Rightarrow> ('e + 'a) \<times> 's" where
  "give a s = (Inr a, s)"

definition throw :: "'e \<Rightarrow> 's \<Rightarrow> ('e + 'a) \<times> 's" where
  "throw e s = (Inl e, s)"

text \<open>A pure computation that may raise.\<close>

definition lift_result :: "'e + 'a \<Rightarrow> 's \<Rightarrow> ('e + 'a) \<times> 's" where
  "lift_result r s = (r, s)"

lemma action_simps [simp]:
  "and_then (give a) f = f a" "and_then (throw e) f = throw e"
  "and_then (lift_result (Inr a)) f = f a" "and_then (lift_result (Inl e)) f = throw e"
  by (simp_all add: and_then_def give_def throw_def lift_result_def fun_eq_iff)

text \<open>What every action of a composition keeps, the composition keeps.\<close>

definition keeps :: "('s \<Rightarrow> 's \<Rightarrow> bool) \<Rightarrow> ('s \<Rightarrow> ('e + 'a) \<times> 's) \<Rightarrow> bool" where
  "keeps Q m \<longleftrightarrow> (\<forall>s. Q s (snd (m s)))"

lemma keepsI: "(\<And>s r s'. m s = (r, s') \<Longrightarrow> Q s s') \<Longrightarrow> keeps Q m"
  unfolding keeps_def by (metis surjective_pairing)

lemma keepsD: "keeps Q m \<Longrightarrow> m s = (r, s') \<Longrightarrow> Q s s'"
  unfolding keeps_def by (metis snd_conv)

lemma and_then_Inr:
  "and_then m f s = (Inr b, s') \<longleftrightarrow> (\<exists>a s1. m s = (Inr a, s1) \<and> f a s1 = (Inr b, s'))"
  by (auto simp: and_then_def split: prod.splits sum.splits)

end
