(* ===== verification/Decision.thy ===== *)
theory Decision
  imports Chat_Replay Actions
begin

text \<open>
  \<open>capabilities/service.py\<close>: the human decision on a pending tool request, the one file read it
  may cause, and the second call of the provider with what was read.  Every step is an action
  on the desk: the workspace of the runtime, the table of grants, and the record of the files
  read.  The surroundings of a decision (runtime, scopes, operating system, the document of an
  observation, the successive readings of the clock) form a \<open>service\<close>.
\<close>

section \<open>Data\<close>

datatype verdict = ApprovedVerdict | DeniedVerdict

fun verdict_value :: "verdict \<Rightarrow> string" where
  "verdict_value ApprovedVerdict = ''approved''"
| "verdict_value DeniedVerdict = ''denied''"

text \<open>\<open>CapabilityDecisionRequest\<close>\<close>

record decision =
  ds_id :: string
  ds_verdict :: verdict

text \<open>\<open>CapabilityLoopError\<close> with its code, and what passes through.\<close>

datatype decision_error = LoopError string | RunRaised chat_error | GrantRejected

fun denial_code :: "denial \<Rightarrow> string" where
  "denial_code AuthorizationInvalid = ''authorization_invalid''"
| "denial_code ScopeUnknown = ''scope_unknown''"
| "denial_code GrantConflict = ''grant_conflict''"
| "denial_code InvalidClock = ''invalid_clock''"
| "denial_code GrantNotFound = ''grant_not_found''"
| "denial_code GrantCorrupt = ''grant_corrupt''"
| "denial_code GrantConsumed = ''grant_consumed''"
| "denial_code SubjectMismatch = ''subject_mismatch''"
| "denial_code GrantNotYetValid = ''grant_not_yet_valid''"
| "denial_code GrantExpired = ''grant_expired''"
| "denial_code CapabilityMismatch = ''capability_mismatch''"
| "denial_code NetworkForbidden = ''network_forbidden''"
| "denial_code ExtensionDenied = ''extension_denied''"
| "denial_code ScopeUnavailable = ''scope_unavailable''"
| "denial_code FileUnavailable = ''file_unavailable''"
| "denial_code ScopeEscape = ''scope_escape''"
| "denial_code SizeExceeded = ''size_exceeded''"
| "denial_code FileChanged = ''file_changed''"
| "denial_code EncodingDenied = ''encoding_denied''"

text \<open>A chat response, or \<open>CapabilityDecisionResponse\<close> (session, run, event of the request).\<close>

datatype decision_result = Continued chat_response | Refused string string string

record desk =
  dk_ws :: workspace
  dk_grants :: "grant_row list"
  dk_reads :: "string list"

record service =
  sv_runtime :: runtime
  sv_scopes :: "string list"
  sv_probe :: "string \<Rightarrow> string \<Rightarrow> file_probe"
  sv_dump :: "observation \<Rightarrow> string"
  sv_clock :: "nat \<Rightarrow> int"

abbreviation sv_codec :: "service \<Rightarrow> codec" where
  "sv_codec S \<equiv> rt_codec (sv_runtime S)"

section \<open>Statements of the loop\<close>

definition decision_derived :: "service \<Rightarrow> decision \<Rightarrow> string \<Rightarrow> string \<Rightarrow> string" where
  "decision_derived S d tag purpose = derived_id (c_sha (sv_codec S)) (ds_id d) tag purpose"

text \<open>\<open>_event\<close>: the event of a step of the inspected run\<close>

definition step_event ::
    "service \<Rightarrow> inspection \<Rightarrow> string \<Rightarrow> actor \<Rightarrow> event_type \<Rightarrow> int \<Rightarrow> jval \<Rightarrow> string \<Rightarrow> trust_class
      \<Rightarrow> string list \<Rightarrow> model_identity option \<Rightarrow> event" where
  "step_event S i event_id who kind recorded_at payload parent trust refs model =
     \<lparr> ev_id = event_id, ev_session = in_session i, ev_run = in_run i,
       ev_task = rn_task (in_reconstruction i), ev_actor = who, ev_type = kind,
       ev_observed_at = recorded_at, ev_recorded_at = recorded_at,
       ev_payload_hash = canonical_payload_hash (sv_codec S) payload, ev_artifact_refs = refs,
       ev_parents = [parent], ev_trust = trust, ev_sensitivity = Internal, ev_payload = payload,
       ev_model = model \<rparr>"

text \<open>Constructing events and appending them in one transaction.\<close>

definition record_entries ::
    "service \<Rightarrow> (event \<times> string) list \<Rightarrow> desk \<Rightarrow> (decision_error + unit) \<times> desk" where
  "record_entries S raw w =
     (case build_entries (sv_runtime S) raw of
        Inl x \<Rightarrow> (Inl (RunRaised x), w)
      | Inr entries \<Rightarrow>
         (case append_many (sv_codec S) (Some (artifact_verified (sv_runtime S) (ws_files (dk_ws w))))
                 (ws_ledger (dk_ws w)) entries of
            (Inr ids, rows) \<Rightarrow> (Inr (), w\<lparr>dk_ws := (dk_ws w)\<lparr>ws_ledger := rows\<rparr>\<rparr>)
          | (Inl x, rows) \<Rightarrow>
              (Inl (RunRaised (LedgerRaised x)), w\<lparr>dk_ws := (dk_ws w)\<lparr>ws_ledger := rows\<rparr>\<rparr>)))"

text \<open>\<open>_load_selected_records\<close> and \<open>_citations\<close>\<close>

fun load_records :: "memory_db \<Rightarrow> context_item list \<Rightarrow> decision_error + memory list" where
  "load_records db [] = Inr []"
| "load_records db (item # items) =
     (case get_memory db (ci_record item) of
        None \<Rightarrow> Inl (LoopError ''context_revision_unavailable'')
      | Some r \<Rightarrow>
          if mem_content_hash r \<noteq> ci_hash item \<or> mem_state r \<noteq> Approved
          then Inl (LoopError ''context_revision_unavailable'')
          else try_bind (load_records db items) (\<lambda>rs. Inr (r # rs)))"

fun bound_citations :: "memory list \<Rightarrow> context_item list \<Rightarrow> decision_error + citation list" where
  "bound_citations (r # rs) (item # items) =
     (case (ci_rank item, ci_score item) of
        (Some rank, Some score) \<Rightarrow>
          let c = \<lparr> ct_record = mem_id r, ct_hash = mem_content_hash r, ct_title = mem_title r,
                ct_rank = rank, ct_score = score \<rparr> in
          if valid_citation c then try_bind (bound_citations rs items) (\<lambda>cs. Inr (c # cs))
          else Inl (RunRaised ValueRaised)
      | _ \<Rightarrow> Inl (LoopError ''context_revision_unavailable''))"
| "bound_citations [] [] = Inr []"
| "bound_citations _ _ = Inl (RunRaised ValueRaised)"

text \<open>\<open>_append_tool_failure\<close> and the error raised after it\<close>

definition tool_failure ::
    "service \<Rightarrow> inspection \<Rightarrow> decision \<Rightarrow> string \<Rightarrow> string \<Rightarrow> string \<Rightarrow> int \<Rightarrow> desk
      \<Rightarrow> (decision_error + 'a) \<times> desk" where
  "tool_failure S i d key parent failure_kind t =
     and_then (record_entries S
       [ (step_event S i (decision_derived S d ''evt'' (''file-read-failed:'' @ failure_kind))
            system_runtime Outcome t
            (jobj [(''operation'', JStr ''tool_failed''), (''failure_kind'', JStr failure_kind)])
            parent SystemTrust [] None, key @ '':failed'') ])
       (\<lambda>_. throw (LoopError failure_kind))"

section \<open>A decision seen before\<close>

definition same_decision :: "inspection \<Rightarrow> string \<Rightarrow> decision \<Rightarrow> event \<Rightarrow> bool" where
  "same_decision i request_event d existing \<longleftrightarrow>
     ev_id existing = ds_id d \<and> ev_session existing = in_session i \<and> ev_run existing = in_run i \<and>
     jget (ev_payload existing) ''decision'' = Some (JStr (verdict_value (ds_verdict d))) \<and>
     jget (ev_payload existing) ''tool_request_event_id'' = Some (JStr request_event)"

definition replay_decision ::
    "inspection \<Rightarrow> string \<Rightarrow> decision \<Rightarrow> event \<Rightarrow> decision_error + decision_result" where
  "replay_decision i request_event d existing =
     (let last_payload = ev_payload (last (in_events i)) in
      if \<not> same_decision i request_event d existing then Inl (LoopError ''decision_conflict'')
      else if rn_state (in_reconstruction i) = Completed
      then (case response_from_run i of Inl x \<Rightarrow> Inl (RunRaised x) | Inr r \<Rightarrow> Inr (Continued r))
      else if jget last_payload ''operation'' = Some (JStr ''grant_denied'')
      then Inr (Refused (in_session i) (in_run i) request_event)
      else (case jget last_payload ''failure_kind'' of
              Some (JStr k) \<Rightarrow> Inl (LoopError k)
            | _ \<Rightarrow> Inl (LoopError ''request_not_pending'')))"

section \<open>A new decision\<close>

text \<open>The pending request the decision is about, made by this very provider.\<close>

definition pending_request ::
    "inspection \<Rightarrow> string \<Rightarrow> execution_identity \<Rightarrow> decision_error + tool_request" where
  "pending_request i request_event x =
     (let tool_event = last (in_events i) in
      if rn_state (in_reconstruction i) \<noteq> AwaitingApproval \<or> ev_id tool_event \<noteq> request_event
      then Inl (LoopError ''request_not_pending'')
      else (case jget (ev_payload tool_event) ''request'' of
          Some (JMap kvs) \<Rightarrow>
            (case parse_tool_request (JMap kvs) of
               None \<Rightarrow> Inl (LoopError ''request_corrupt'')
             | Some t \<Rightarrow>
                if actor_id (ev_actor tool_event) \<noteq> xi_actor x \<or>
                   ev_model tool_event \<noteq> Some (model_identity_of x)
                then Inl (LoopError ''provider_identity_mismatch'')
                else Inr t)
        | _ \<Rightarrow> Inl (LoopError ''request_corrupt'')))"

definition decision_payload ::
    "service \<Rightarrow> decision \<Rightarrow> string \<Rightarrow> execution_identity \<Rightarrow> tool_request \<Rightarrow> jval" where
  "decision_payload S d request_event x t = jobj
     [ (''operation'', JStr (if ds_verdict d = ApprovedVerdict then ''grant_approved'' else ''grant_denied'')),
       (''decision'', JStr (verdict_value (ds_verdict d))),
       (''grant_id'', JStr (decision_derived S d ''grt'' ''file-read-grant'')),
       (''tool_request_event_id'', JStr request_event), (''subject_actor_id'', JStr (xi_actor x)),
       (''scope_id'', JStr (tq_scope t)), (''target'', JStr (tq_target t)),
       (''max_bytes'', JInt (tq_max_bytes t)) ]"

definition decision_entry ::
    "service \<Rightarrow> inspection \<Rightarrow> string \<Rightarrow> decision \<Rightarrow> string \<Rightarrow> string \<Rightarrow> execution_identity \<Rightarrow> tool_request
      \<Rightarrow> event \<times> string" where
  "decision_entry S i request_event d key who x t =
     (step_event S i (ds_id d) \<lparr> actor_id = who, actor_kind = Human \<rparr> Approval (sv_clock S 0)
        (decision_payload S d request_event x t) request_event HumanVerified [] None, key)"

definition record_decision ::
    "service \<Rightarrow> event \<times> string \<Rightarrow> desk \<Rightarrow> (decision_error + unit) \<times> desk" where
  "record_decision S entry w =
     (case record_entries S [entry] w of
        (Inl (RunRaised (LedgerRaised IdempotencyConflict)), w') \<Rightarrow> (Inl (LoopError ''decision_conflict''), w')
      | result \<Rightarrow> result)"

definition grant_for ::
    "service \<Rightarrow> decision \<Rightarrow> string \<Rightarrow> execution_identity \<Rightarrow> tool_request \<Rightarrow> grant" where
  "grant_for S d who x t =
     \<lparr> g_id = decision_derived S d ''grt'' ''file-read-grant'', g_subject = xi_actor x,
       g_capability = ''file.read'', g_scope = tq_scope t, g_target = tq_target t,
       g_issued_at = sv_clock S 0, g_valid_seconds = 60, g_issued_by = who,
       g_authorization = ds_id d, g_max_uses = 1, g_max_bytes = tq_max_bytes t,
       g_extensions = [path_suffix (tq_target t)], g_network = False \<rparr>"

text \<open>The registration of the grant, a denial becoming a recorded failure.\<close>

definition register_step ::
    "service \<Rightarrow> inspection \<Rightarrow> decision \<Rightarrow> string \<Rightarrow> grant \<Rightarrow> desk \<Rightarrow> (decision_error + unit) \<times> desk" where
  "register_step S i d key g w =
     (case register_grant (sv_codec S) (sv_scopes S) (ws_ledger (dk_ws w)) (dk_grants w) g of
        (Inr _, rows) \<Rightarrow> (Inr (), w\<lparr>dk_grants := rows\<rparr>)
      | (Inl denied, rows) \<Rightarrow>
          tool_failure S i d key (ds_id d) (denial_code denied) (sv_clock S 1) (w\<lparr>dk_grants := rows\<rparr>))"

definition claimed_id :: "service \<Rightarrow> decision \<Rightarrow> string" where
  "claimed_id S d = decision_derived S d ''evt'' ''file-read-claimed''"

definition tool_actor :: actor where
  "tool_actor = \<lparr> actor_id = ''tool_file_read'', actor_kind = Tool \<rparr>"

definition claimed_entry ::
    "service \<Rightarrow> inspection \<Rightarrow> decision \<Rightarrow> string \<Rightarrow> tool_request \<Rightarrow> event \<times> string" where
  "claimed_entry S i d key t =
     (step_event S i (claimed_id S d) tool_actor ToolCall (sv_clock S 1)
        (jobj [(''operation'', JStr ''tool_call_claimed''),
               (''grant_id'', JStr (decision_derived S d ''grt'' ''file-read-grant'')),
               (''scope_id'', JStr (tq_scope t)), (''target'', JStr (tq_target t))])
        (ds_id d) ToolVerified [] None, key @ '':claimed'')"

text \<open>
  The claim and the read.  Every claim that succeeds is logged in \<open>dk_reads\<close>, whether the read after it
  succeeds or not: the broker opens no file without one.
\<close>

definition read_step ::
    "service \<Rightarrow> inspection \<Rightarrow> decision \<Rightarrow> string \<Rightarrow> execution_identity \<Rightarrow> desk
      \<Rightarrow> (decision_error + observation) \<times> desk" where
  "read_step S i d key x w =
     (let grant_id = decision_derived S d ''grt'' ''file-read-grant'';
          clock = Some (sv_clock S 2);
          allowed = \<not> is_error (fst (claim_grant (sv_scopes S) (dk_grants w) grant_id (xi_actor x) clock));
          reads = (if allowed then dk_reads w @ [ds_id d] else dk_reads w) in
      case execute_file_read (c_sha (sv_codec S)) (sv_scopes S) (sv_probe S) (dk_grants w) grant_id
             (xi_actor x) clock of
        (Inr ob, rows) \<Rightarrow> (Inr ob, w\<lparr>dk_grants := rows, dk_reads := reads\<rparr>)
      | (Inl denied, rows) \<Rightarrow>
          tool_failure S i d key (claimed_id S d) (denial_code denied) (sv_clock S 3)
            (w\<lparr>dk_grants := rows, dk_reads := reads\<rparr>))"

definition store_observation ::
    "service \<Rightarrow> observation \<Rightarrow> desk \<Rightarrow> (decision_error + string) \<times> desk" where
  "store_observation S ob w =
     (case put_artifact (c_sha (sv_codec S)) (rt_rnd (sv_runtime S)) (rt_interfere (sv_runtime S))
             (ws_files (dk_ws w)) (Bytes (sv_dump S ob)) of
        (Inr reference, files) \<Rightarrow> (Inr reference, w\<lparr>dk_ws := (dk_ws w)\<lparr>ws_files := files\<rparr>\<rparr>)
      | (Inl x, files) \<Rightarrow>
          (Inl (RunRaised (ArtifactRaised x)), w\<lparr>dk_ws := (dk_ws w)\<lparr>ws_files := files\<rparr>\<rparr>))"

definition observation_id :: "service \<Rightarrow> decision \<Rightarrow> string" where
  "observation_id S d = decision_derived S d ''evt'' ''file-read-observation''"

definition observation_entry ::
    "service \<Rightarrow> inspection \<Rightarrow> decision \<Rightarrow> string \<Rightarrow> observation \<Rightarrow> string \<Rightarrow> event \<times> string" where
  "observation_entry S i d key ob reference =
     (step_event S i (observation_id S d) tool_actor Observation (sv_clock S 3)
        (jobj [(''operation'', JStr ''observation''),
               (''grant_id'', JStr (decision_derived S d ''grt'' ''file-read-grant'')),
               (''scope_id'', JStr (ob_scope ob)), (''target'', JStr (ob_target ob)),
               (''byte_count'', JInt (int (ob_byte_count ob))),
               (''content_hash'', JStr (ob_content_hash ob)),
               (''observation_ref'', JStr reference)])
        (claimed_id S d) ExternalUntrusted [reference] None, key @ '':observation'')"

section \<open>The second call of the provider\<close>

definition followup_id :: "service \<Rightarrow> decision \<Rightarrow> string" where
  "followup_id S d = decision_derived S d ''evt'' ''followup-pending''"

definition context_ref_value :: "inspection \<Rightarrow> jval" where
  "context_ref_value i =
     (case rn_context_ref (in_reconstruction i) of None \<Rightarrow> JNull | Some r \<Rightarrow> JStr r)"

definition followup_entry ::
    "service \<Rightarrow> inspection \<Rightarrow> decision \<Rightarrow> string \<Rightarrow> execution_identity \<Rightarrow> string \<Rightarrow> event \<times> string" where
  "followup_entry S i d key x reference =
     (step_event S i (followup_id S d) system_runtime ModelCall (sv_clock S 4)
        (jobj ((''operation'', JStr ''model_call_pending'') # provider_fields x @
           [ (''context_manifest_id'', JStr (cm_id (in_manifest i))),
             (''context_manifest_ref'', context_ref_value i), (''observation_ref'', JStr reference) ]))
        (observation_id S d) SystemTrust [reference] (Some (model_identity_of x)),
      key @ '':followup:pending'')"

definition followup_failed_entry ::
    "service \<Rightarrow> inspection \<Rightarrow> decision \<Rightarrow> string \<Rightarrow> string \<Rightarrow> event \<times> string" where
  "followup_failed_entry S i d key failure_kind =
     (step_event S i (decision_derived S d ''evt'' ''followup-failed'') system_runtime Outcome (sv_clock S 5)
        (jobj [(''operation'', JStr ''model_call_failed''), (''failure_kind'', JStr failure_kind)])
        (followup_id S d) SystemTrust [] None, key @ '':followup:failed'')"

definition answer_entries ::
    "service \<Rightarrow> inspection \<Rightarrow> decision \<Rightarrow> string \<Rightarrow> execution_identity \<Rightarrow> string \<Rightarrow> citation list
      \<Rightarrow> (event \<times> string) list" where
  "answer_entries S i d key x answer citations =
     (let success_id = decision_derived S d ''evt'' ''followup-succeeded'';
          model_actor = \<lparr> actor_id = xi_actor x, actor_kind = Model \<rparr> in
      [ (step_event S i success_id model_actor Outcome (sv_clock S 5)
           (jobj ((''operation'', JStr ''model_call_succeeded'') # provider_fields x)) (followup_id S d)
           ModelGenerated [] (Some (model_identity_of x)), key @ '':followup:success''),
        (step_event S i (decision_derived S d ''evt'' ''followup-response'') model_actor Message (sv_clock S 5)
           (response_payload answer citations) success_id ModelGenerated []
           (Some (model_identity_of x)), key @ '':followup:response'') ])"

definition followup_failure ::
    "service \<Rightarrow> inspection \<Rightarrow> decision \<Rightarrow> string \<Rightarrow> string \<Rightarrow> desk \<Rightarrow> (decision_error + 'a) \<times> desk" where
  "followup_failure S i d key failure_kind =
     and_then (record_entries S [followup_failed_entry S i d key failure_kind])
       (\<lambda>_. throw (LoopError ''provider_followup_failed''))"

text \<open>The call is recorded; an exception that is not the provider's own passes through.\<close>

definition call_step ::
    "service \<Rightarrow> inspection \<Rightarrow> decision \<Rightarrow> string \<Rightarrow> provider \<Rightarrow> string \<Rightarrow> memory list \<Rightarrow> observation
      \<Rightarrow> desk \<Rightarrow> (decision_error + string) \<times> desk" where
  "call_step S i d key P message records ob w =
     (let called = w\<lparr>dk_ws := (dk_ws w)\<lparr>ws_calls := ws_calls (dk_ws w) @ [ds_id d]\<rparr>\<rparr> in
      case pv_generate P message (in_manifest i) records (Some ob) of
        Inr (FinalAnswer answer) \<Rightarrow> (Inr answer, called)
      | Inr (ToolRequestResult _) \<Rightarrow> followup_failure S i d key ''repeated_tool_request'' called
      | Inl TimedOut \<Rightarrow> followup_failure S i d key ''timeout'' called
      | Inl RequestFailed \<Rightarrow> followup_failure S i d key ''request'' called
      | Inl ResponseRejected \<Rightarrow> followup_failure S i d key ''response'' called
      | Inl Aborted \<Rightarrow> (Inl (RunRaised (ProviderRaised Aborted)), called))"

definition original_message :: "inspection \<Rightarrow> decision_error + string" where
  "original_message i =
     (case jget (ev_payload (hd (in_events i))) ''message'' of
        Some (JStr m) \<Rightarrow> Inr m
      | _ \<Rightarrow> Inl (LoopError ''request_corrupt''))"

definition followup ::
    "service \<Rightarrow> inspection \<Rightarrow> decision \<Rightarrow> string \<Rightarrow> provider \<Rightarrow> observation \<Rightarrow> string \<Rightarrow> desk
      \<Rightarrow> (decision_error + decision_result) \<times> desk" where
  "followup S i d key P ob reference = (\<lambda>w.
     (let x = pv_identity P in
      and_then (lift_result (load_records (ws_memory (dk_ws w)) (cm_items (in_manifest i)))) (\<lambda>records.
      and_then (lift_result (bound_citations records (cm_items (in_manifest i)))) (\<lambda>citations.
      and_then (record_entries S [followup_entry S i d key x reference]) (\<lambda>_.
      and_then (lift_result (original_message i)) (\<lambda>message.
      and_then (call_step S i d key P message records ob) (\<lambda>answer.
      and_then (record_entries S (answer_entries S i d key x answer citations)) (\<lambda>_.
      give (Continued \<lparr> ch_session = in_session i, ch_run = in_run i,
        ch_task = rn_task (in_reconstruction i), ch_provider = projection_of x, ch_answer = answer,
        ch_citations = citations, ch_manifest = in_manifest i \<rparr>)))))))) w)"

section \<open>The decision\<close>

definition execute_approved ::
    "service \<Rightarrow> inspection \<Rightarrow> decision \<Rightarrow> string \<Rightarrow> provider \<Rightarrow> string \<Rightarrow> tool_request \<Rightarrow> desk
      \<Rightarrow> (decision_error + decision_result) \<times> desk" where
  "execute_approved S i d key P who t =
     (let x = pv_identity P; g = grant_for S d who x t in
      if path_suffix (tq_target t) = []
      then tool_failure S i d key (ds_id d) ''extension_denied'' (sv_clock S 1)
      else if \<not> valid_grant g then throw GrantRejected
      else
        and_then (register_step S i d key g) (\<lambda>_.
        and_then (record_entries S [claimed_entry S i d key t]) (\<lambda>_.
        and_then (read_step S i d key x) (\<lambda>ob.
        and_then (store_observation S ob) (\<lambda>reference.
        and_then (record_entries S [observation_entry S i d key ob reference]) (\<lambda>_.
        followup S i d key P ob reference))))))"

definition decide_new ::
    "service \<Rightarrow> inspection \<Rightarrow> string \<Rightarrow> decision \<Rightarrow> string \<Rightarrow> provider \<Rightarrow> string \<Rightarrow> desk
      \<Rightarrow> (decision_error + decision_result) \<times> desk" where
  "decide_new S i request_event d key P who =
     and_then (lift_result (pending_request i request_event (pv_identity P))) (\<lambda>t.
     and_then (record_decision S (decision_entry S i request_event d key who (pv_identity P) t)) (\<lambda>_.
     if ds_verdict d = DeniedVerdict then give (Refused (in_session i) (in_run i) request_event)
     else execute_approved S i d key P who t))"

definition decide_file_read_request ::
    "service \<Rightarrow> provider \<Rightarrow> string \<Rightarrow> string \<Rightarrow> string \<Rightarrow> decision \<Rightarrow> string \<Rightarrow> string \<Rightarrow> desk
      \<Rightarrow> (decision_error + decision_result) \<times> desk" where
  "decide_file_read_request S P session_id run_id request_event d key who w =
     (case inspect_run (sv_runtime S) (dk_ws w) session_id run_id of
        Inl x \<Rightarrow> (Inl (RunRaised x), w)
      | Inr i \<Rightarrow>
         (case get_by_idempotency (sv_codec S) (ws_ledger (dk_ws w)) key of
            Inl x \<Rightarrow> (Inl (RunRaised (LedgerRaised x)), w)
          | Inr (Some existing) \<Rightarrow> (replay_decision i request_event d existing, w)
          | Inr None \<Rightarrow> decide_new S i request_event d key P who w))"

text \<open>\<open>capabilities/routes.py\<close>: the status code of a decision\<close>

definition decision_status :: "decision_error + decision_result \<Rightarrow> nat" where
  "decision_status r =
     (case r of
        Inr _ \<Rightarrow> 200
      | Inl (LoopError _) \<Rightarrow> 409
      | Inl (RunRaised (ProviderRaised ResponseRejected)) \<Rightarrow> 502
      | Inl _ \<Rightarrow> 500)"

end
