(* ===== verification/Decision_Safety.thy ===== *)
theory Decision_Safety
  imports Decision
begin

text \<open>
  What a decision may do: the statements of the loop are classified by the reads and provider
  calls they may add and by what they keep of the ledger, the classification composes, and so
  every reachable desk has read files only under human approvals, each at most once.
\<close>

section \<open>Effects of the statements\<close>

definition desk_ledger :: "desk \<Rightarrow> ledger" where
  "desk_ledger w = ws_ledger (dk_ws w)"

text \<open>At most \<open>nr\<close> reads and \<open>nc\<close> calls under the decision \<open>i\<close>, on a ledger that only grows.\<close>

definition effects :: "codec \<Rightarrow> string \<Rightarrow> nat \<Rightarrow> nat \<Rightarrow> desk \<Rightarrow> desk \<Rightarrow> bool" where
  "effects C i nr nc w w' \<longleftrightarrow>
     (ledger_ok C (desk_ledger w) \<longrightarrow> ledger_grows C (desk_ledger w) (desk_ledger w')) \<and>
     (\<exists>r\<le>nr. dk_reads w' = dk_reads w @ replicate r i) \<and>
     (\<exists>c\<le>nc. ws_calls (dk_ws w') = ws_calls (dk_ws w) @ replicate c i)"

lemma effects_refl: "effects C i nr nc w w"
  by (auto simp: effects_def intro: exI [of _ 0])

lemma effects_trans:
  assumes "effects C i nr nc a b" and "effects C i nr' nc' b c"
  shows "effects C i (nr + nr') (nc + nc') a c"
proof -
  obtain r1 r2 where r: "r1 \<le> nr" "r2 \<le> nr'" "dk_reads c = dk_reads a @ replicate (r1 + r2) i"
    using assms unfolding effects_def by (metis append_assoc replicate_add)
  obtain c1 c2 where c: "c1 \<le> nc" "c2 \<le> nc'" "ws_calls (dk_ws c) = ws_calls (dk_ws a) @ replicate (c1 + c2) i"
    using assms unfolding effects_def by (metis append_assoc replicate_add)
  have "ledger_grows C (desk_ledger a) (desk_ledger c)" if "ledger_ok C (desk_ledger a)"
    using assms that ledger_grows_trans unfolding effects_def ledger_grows_def by (meson order_trans)
  then show ?thesis
    using r c add_mono unfolding effects_def by metis
qed

lemma effects_mono: "effects C i nr nc w w' \<Longrightarrow> nr \<le> nr' \<Longrightarrow> nc \<le> nc' \<Longrightarrow> effects C i nr' nc' w w'"
  unfolding effects_def by (meson order_trans)

named_theorems statement_effects

lemma keeps_and_then:
  assumes "keeps (effects C i nr nc) m" and "\<And>a. keeps (effects C i nr' nc') (f a)"
  shows "keeps (effects C i (nr + nr') (nc + nc')) (and_then m f)"
proof (rule keepsI)
  fix s r s'
  assume a: "and_then m f s = (r, s')"
  obtain x s1 where m: "m s = (x, s1)" by (cases "m s")
  note e = keepsD [OF assms(1) m]
  show "effects C i (nr + nr') (nc + nc') s s'"
  proof (cases x)
    case (Inl y)
    then have "s' = s1" using a m by (simp add: and_then_def)
    then show ?thesis using effects_mono [OF e] by simp
  next
    case (Inr y)
    then have "f y s1 = (r, s')" using a m by (simp add: and_then_def)
    from effects_trans [OF e keepsD [OF assms(2) this]] show ?thesis .
  qed
qed

lemma keeps_pure [statement_effects]:
  "keeps (effects C i 0 0) (give a)" "keeps (effects C i 0 0) (throw e)"
  "keeps (effects C i 0 0) (lift_result r)"
  by (simp_all add: keeps_def give_def throw_def lift_result_def effects_refl)

lemma record_entries_cases:
  assumes "record_entries S raw w = (res, w')"
  obtains (failed) x where "res = Inl x" "w' = w"
  | (written) ids rows where "res = Inr ()" "w' = w\<lparr>dk_ws := (dk_ws w)\<lparr>ws_ledger := rows\<rparr>\<rparr>"
      "append_many (sv_codec S) (Some (artifact_verified (sv_runtime S) (ws_files (dk_ws w))))
         (desk_ledger w) raw = (Inr ids, rows)" "\<forall>(e, k)\<in>set raw. valid_event (sv_codec S) e"
proof (cases "build_entries (sv_runtime S) raw")
  case (Inl x)
  then have "res = Inl (RunRaised x)" "w' = w" using assms by (simp_all add: record_entries_def)
  then show ?thesis by (rule that(1))
next
  case built: (Inr entries)
  then have e: "entries = raw" "\<forall>(e, k)\<in>set raw. valid_event (sv_codec S) e"
    by (simp_all add: build_entries_Inr)
  obtain r rows where a: "append_many (sv_codec S) (Some (artifact_verified (sv_runtime S) (ws_files (dk_ws w))))
      (desk_ledger w) raw = (r, rows)"
    by (meson surj_pair)
  show ?thesis
  proof (cases r)
    case (Inl x)
    then have "rows = desk_ledger w" using a ledger.append_rollback by blast
    then have "res = Inl (RunRaised (LedgerRaised x))" "w' = w" using assms built e a Inl
      by (simp_all add: record_entries_def desk_ledger_def)
    then show ?thesis by (rule that(1))
  next
    case (Inr ids)
    then have "res = Inr ()" "w' = w\<lparr>dk_ws := (dk_ws w)\<lparr>ws_ledger := rows\<rparr>\<rparr>"
      using assms built e a by (simp_all add: record_entries_def desk_ledger_def)
    then show ?thesis using that(2) a Inr e(2) by blast
  qed
qed

lemma ledger_effects:
  assumes "append_many C artifacts (desk_ledger w) es = (res, rows)"
  shows "effects C i 0 0 w (w\<lparr>dk_ws := (dk_ws w)\<lparr>ws_ledger := rows\<rparr>\<rparr>)"
  using append_many_grows [OF _ assms] by (simp add: effects_def desk_ledger_def)

lemma record_entries_effects [statement_effects]: "keeps (effects (sv_codec S) i 0 0) (record_entries S raw)"
proof (rule keepsI)
  fix w r w'
  assume "record_entries S raw w = (r, w')"
  then show "effects (sv_codec S) i 0 0 w w'"
    by (cases rule: record_entries_cases) (auto intro: effects_refl ledger_effects)
qed

lemma and_then_effects:
  assumes "keeps (effects C i 0 0) m" and "\<And>a. keeps (effects C i nr nc) (f a)"
  shows "keeps (effects C i nr nc) (and_then m f)"
  using keeps_and_then [OF assms] by simp

lemma tool_failure_effects [statement_effects]:
  "keeps (effects (sv_codec S) j 0 0) (tool_failure S i d key parent kind t)"
  unfolding tool_failure_def by (intro and_then_effects statement_effects)

lemma followup_failure_effects [statement_effects]:
  "keeps (effects (sv_codec S) j 0 0) (followup_failure S i d key kind)"
  unfolding followup_failure_def by (intro and_then_effects statement_effects)

lemma record_decision_effects [statement_effects]:
  "keeps (effects (sv_codec S) i 0 0) (record_decision S entry)"
proof (rule keepsI)
  fix w r w'
  assume "record_decision S entry w = (r, w')"
  then obtain r' where "record_entries S [entry] w = (r', w')"
    by (auto simp: record_decision_def split: prod.splits sum.splits decision_error.splits
        chat_error.splits store_error.splits)
  then show "effects (sv_codec S) i 0 0 w w'" by (rule keepsD [OF record_entries_effects])
qed

lemma grants_effects: "effects C i 0 0 w (w\<lparr>dk_grants := rows\<rparr>)"
  by (auto simp: effects_def desk_ledger_def)

lemma register_step_effects [statement_effects]:
  "keeps (effects (sv_codec S) j 0 0) (register_step S i d key g)"
proof (rule keepsI)
  fix w r w'
  assume a: "register_step S i d key g w = (r, w')"
  obtain res rows where "register_grant (sv_codec S) (sv_scopes S) (ws_ledger (dk_ws w)) (dk_grants w) g = (res, rows)"
    by (meson surj_pair)
  then show "effects (sv_codec S) j 0 0 w w'"
    using a effects_trans [OF grants_effects [of _ j w rows] keepsD [OF tool_failure_effects]]
    by (cases res) (auto simp: register_step_def intro: grants_effects)
qed

lemma store_observation_effects [statement_effects]:
  "keeps (effects (sv_codec S) j 0 0) (store_observation S ob)"
  by (rule keepsI) (auto simp: store_observation_def effects_def desk_ledger_def split: prod.splits sum.splits)

lemma read_step_effects: "keeps (effects (sv_codec S) (ds_id d) 1 0) (read_step S i d key x)"
proof (rule keepsI)
  fix w r w'
  assume a: "read_step S i d key x w = (r, w')"
  obtain res rows where "execute_file_read (c_sha (sv_codec S)) (sv_scopes S) (sv_probe S) (dk_grants w)
      (decision_derived S d ''grt'' ''file-read-grant'') (xi_actor x) (Some (sv_clock S 2)) = (res, rows)"
    by (meson surj_pair)
  note x = this
  define reads where "reads = (if \<not> is_error (fst (claim_grant (sv_scopes S) (dk_grants w)
      (decision_derived S d ''grt'' ''file-read-grant'') (xi_actor x) (Some (sv_clock S 2))))
    then dk_reads w @ [ds_id d] else dk_reads w)"
  have "reads = dk_reads w @ replicate 1 (ds_id d) \<or> reads = dk_reads w @ replicate 0 (ds_id d)"
    by (simp add: reads_def)
  then have b: "effects (sv_codec S) (ds_id d) 1 0 w (w\<lparr>dk_grants := rows, dk_reads := reads\<rparr>)"
    unfolding effects_def desk_ledger_def by auto
  show "effects (sv_codec S) (ds_id d) 1 0 w w'"
  proof (cases res)
    case (Inl denied)
    then have "tool_failure S i d key (claimed_id S d) (denial_code denied) (sv_clock S 3)
        (w\<lparr>dk_grants := rows, dk_reads := reads\<rparr>) = (r, w')"
      using a x by (simp add: read_step_def reads_def Let_def)
    from effects_trans [OF b keepsD [OF tool_failure_effects this]] show ?thesis by simp
  next
    case (Inr ob)
    then show ?thesis using a x b by (auto simp: read_step_def reads_def Let_def)
  qed
qed

lemma call_step_effects: "keeps (effects (sv_codec S) (ds_id d) 0 1) (call_step S i d key P message records ob)"
proof (rule keepsI)
  fix w r w'
  assume a: "call_step S i d key P message records ob w = (r, w')"
  let ?called = "w\<lparr>dk_ws := (dk_ws w)\<lparr>ws_calls := ws_calls (dk_ws w) @ [ds_id d]\<rparr>\<rparr>"
  have b: "effects (sv_codec S) (ds_id d) 0 1 w ?called"
    unfolding effects_def desk_ledger_def by (auto intro: exI [of _ "1::nat"])
  have f: "effects (sv_codec S) (ds_id d) 0 1 w w'" if "followup_failure S i d key kind ?called = (r, w')" for kind
    using effects_trans [OF b keepsD [OF followup_failure_effects that]] by simp
  show "effects (sv_codec S) (ds_id d) 0 1 w w'"
    using a b f
    by (auto simp: call_step_def Let_def split: sum.splits provider_result.splits provider_failure.splits)
qed

lemma keeps_state: "(\<And>s. keeps Q (m s)) \<Longrightarrow> keeps Q (\<lambda>s. m s s)"
  by (simp add: keeps_def)

lemma followup_effects: "keeps (effects (sv_codec S) (ds_id d) 0 1) (followup S i d key P ob reference)"
proof -
  have call: "keeps (effects (sv_codec S) (ds_id d) 0 1) (and_then (call_step S i d key P message records ob) f)"
    if "\<And>a. keeps (effects (sv_codec S) (ds_id d) 0 0) (f a)" for message records f
    using keeps_and_then [OF call_step_effects that] by simp
  show ?thesis
    unfolding followup_def Let_def
    by (rule keeps_state, rule and_then_effects [OF keeps_pure(3)], rule and_then_effects [OF keeps_pure(3)],
        rule and_then_effects [OF record_entries_effects], rule and_then_effects [OF keeps_pure(3)],
        rule call, rule and_then_effects [OF record_entries_effects], rule keeps_pure(1))
qed

lemma keeps_weaken: "keeps (effects C j 0 0) m \<Longrightarrow> keeps (effects C j nr nc) m"
  using effects_mono unfolding keeps_def by blast

lemma execute_approved_effects:
  "keeps (effects (sv_codec S) (ds_id d) 1 1) (execute_approved S i d key P who t)"
proof -
  have read: "keeps (effects (sv_codec S) (ds_id d) 1 1) (and_then (read_step S i d key x) f)"
    if "\<And>a. keeps (effects (sv_codec S) (ds_id d) 0 1) (f a)" for x f
    using keeps_and_then [OF read_step_effects that] by simp
  have approved: "keeps (effects (sv_codec S) (ds_id d) 1 1)
     (and_then (register_step S i d key g) (\<lambda>_.
        and_then (record_entries S [claimed_entry S i d key t]) (\<lambda>_.
        and_then (read_step S i d key x) (\<lambda>ob.
        and_then (store_observation S ob) (\<lambda>reference.
        and_then (record_entries S [observation_entry S i d key ob reference]) (\<lambda>_.
        followup S i d key P ob reference))))))" for g x
    by (rule and_then_effects [OF register_step_effects], rule and_then_effects [OF record_entries_effects],
        rule read, rule and_then_effects [OF store_observation_effects],
        rule and_then_effects [OF record_entries_effects], rule followup_effects)
  show ?thesis
    unfolding execute_approved_def Let_def
    by (cases "path_suffix (tq_target t) = []"; cases "valid_grant (grant_for S d who (pv_identity P) t)")
      (simp_all only: simp_thms if_True if_False not_True_eq_False not_False_eq_True approved
        keeps_weaken [OF tool_failure_effects] keeps_weaken [OF keeps_pure(2)])
qed

section \<open>The approval behind an effect\<close>

text \<open>The event of a human approval, as the broker and the run reconstruction read it.\<close>

definition approval_of :: "string \<Rightarrow> string \<Rightarrow> event \<Rightarrow> bool" where
  "approval_of i who e \<longleftrightarrow>
     ev_id e = i \<and> ev_type e = Approval \<and> ev_actor e = \<lparr> actor_id = who, actor_kind = Human \<rparr> \<and>
     ev_trust e = HumanVerified \<and> jget (ev_payload e) ''decision'' = Some (JStr ''approved'')"

lemma record_decision_written:
  assumes "record_decision S (e, key) w = (Inr u, w')" and "ledger_ok (sv_codec S) (desk_ledger w)"
    and "get_by_idempotency (sv_codec S) (desk_ledger w) key = Inr None"
  shows "e \<in> set (ledger_events (sv_codec S) (desk_ledger w'))"
    and "ev_id e \<notin> ev_id ` set (ledger_events (sv_codec S) (desk_ledger w))"
proof -
  have "record_entries S [(e, key)] w = (Inr u, w')"
    using assms(1) by (auto simp: record_decision_def split: prod.splits sum.splits decision_error.splits
        chat_error.splits store_error.splits)
  then obtain ids where a: "append_many (sv_codec S) (Some (artifact_verified (sv_runtime S) (ws_files (dk_ws w))))
      (desk_ledger w) [(e, key)] = (Inr ids, desk_ledger w')"
    by (cases rule: record_entries_cases) (auto simp: desk_ledger_def)
  show "e \<in> set (ledger_events (sv_codec S) (desk_ledger w'))"
      "ev_id e \<notin> ev_id ` set (ledger_events (sv_codec S) (desk_ledger w))"
    using fresh_key_event [OF assms(2) a _ assms(3)] by simp_all
qed

lemma decide_new_cases:
  assumes "decide_new S i request_event d key P who w = (res, w')"
  obtains (unrecorded) x where "res = Inl x" "effects (sv_codec S) (ds_id d) 0 0 w w'"
  | (refused) t w1 where "pending_request i request_event (pv_identity P) = Inr t"
      "record_decision S (decision_entry S i request_event d key who (pv_identity P) t) w = (Inr (), w1)"
      "ds_verdict d = DeniedVerdict" "w' = w1" "res = Inr (Refused (in_session i) (in_run i) request_event)"
  | (executed) t w1 where "pending_request i request_event (pv_identity P) = Inr t"
      "record_decision S (decision_entry S i request_event d key who (pv_identity P) t) w = (Inr (), w1)"
      "ds_verdict d = ApprovedVerdict" "execute_approved S i d key P who t w1 = (res, w')"
proof (cases "pending_request i request_event (pv_identity P)")
  case (Inl x)
  then have "res = Inl x" "w' = w" using assms by (simp_all add: decide_new_def throw_def)
  then show ?thesis using unrecorded effects_refl by blast
next
  case (Inr t)
  let ?e = "decision_entry S i request_event d key who (pv_identity P) t"
  obtain r w1 where rec: "record_decision S ?e w = (r, w1)" by (meson surj_pair)
  show ?thesis
  proof (cases r)
    case (Inl x)
    then have "res = Inl x" "w' = w1" using assms rec \<open>pending_request _ _ _ = Inr t\<close>
      by (simp_all add: decide_new_def and_then_def lift_result_def)
    then show ?thesis using unrecorded keepsD [OF record_decision_effects rec] by blast
  next
    case written: (Inr u)
    show ?thesis
    proof (cases "ds_verdict d")
      case ApprovedVerdict
      then show ?thesis using assms rec Inr written executed
        by (simp add: decide_new_def and_then_def lift_result_def)
    next
      case DeniedVerdict
      then show ?thesis using assms rec Inr written refused
        by (simp add: decide_new_def and_then_def lift_result_def give_def)
    qed
  qed
qed

section \<open>Reachable desks\<close>

text \<open>
  Whatever services decide under the runtime (clocks, scopes, file systems), whatever chat
  turns, crashes and other transactions happen, and whatever becomes of the grants, artifacts
  and memory in between.
\<close>

inductive desk_step :: "runtime \<Rightarrow> desk \<Rightarrow> desk \<Rightarrow> bool" for R where
  decide: "sv_runtime S = R \<Longrightarrow> decide_file_read_request S P sid rid request_event d key who w = (res, w') \<Longrightarrow>
    desk_step R w w'"
| turn: "create_chat_message R now later (dk_ws w) q key P who = (res, ws') \<Longrightarrow>
    desk_step R w (w\<lparr>dk_ws := ws'\<rparr>)"
| crash: "desk_step R w (w\<lparr>dk_ws := chat_crashed R now (dk_ws w) q key P who\<rparr>)"
| other: "append_many (rt_codec R) artifacts (ws_ledger (dk_ws w)) entries = (res, rows) \<Longrightarrow>
    desk_step R w (w\<lparr>dk_ws := (dk_ws w)\<lparr>ws_ledger := rows, ws_files := files, ws_memory := db\<rparr>,
      dk_grants := grants\<rparr>)"

inductive desk_reachable :: "runtime \<Rightarrow> desk \<Rightarrow> bool" for R where
  start: "codec_ok (rt_codec R) \<Longrightarrow> desk_reachable R
    \<lparr> dk_ws = \<lparr> ws_ledger = [], ws_files = files, ws_memory = db, ws_calls = [] \<rparr>,
      dk_grants = grants, dk_reads = [] \<rparr>"
| step: "desk_reachable R w \<Longrightarrow> desk_step R w w' \<Longrightarrow> desk_reachable R w'"

definition desk_ok :: "codec \<Rightarrow> desk \<Rightarrow> bool" where
  "desk_ok C w \<longleftrightarrow> ledger_ok C (desk_ledger w) \<and> distinct (dk_reads w) \<and> distinct (ws_calls (dk_ws w)) \<and>
     set (ws_calls (dk_ws w)) \<subseteq> ev_id ` set (ledger_events C (desk_ledger w)) \<and>
     (\<forall>i\<in>set (dk_reads w). \<exists>who. \<exists>e\<in>set (ledger_events C (desk_ledger w)). approval_of i who e)"

lemma approval_of_id: "approval_of i who e \<Longrightarrow> ev_id e = i"
  by (simp add: approval_of_def)

text \<open>A step that adds reads and calls of one new event only.\<close>

lemma desk_ok_step:
  assumes "desk_ok C w" and "ledger_grows C (desk_ledger w) (desk_ledger w')"
    and "dk_reads w' = dk_reads w @ replicate nr i" and "ws_calls (dk_ws w') = ws_calls (dk_ws w) @ replicate nc i"
    and "nr \<le> 1" and "nc \<le> 1"
    and "nr + nc > 0 \<Longrightarrow> i \<notin> ev_id ` set (ledger_events C (desk_ledger w))"
    and "nr > 0 \<Longrightarrow> \<exists>who. \<exists>e\<in>set (ledger_events C (desk_ledger w')). approval_of i who e"
    and "nc > 0 \<Longrightarrow> i \<in> ev_id ` set (ledger_events C (desk_ledger w'))"
  shows "desk_ok C w'"
proof -
  let ?es = "set (ledger_events C (desk_ledger w))" and ?es' = "set (ledger_events C (desk_ledger w'))"
  have sub: "?es \<subseteq> ?es'" and ok: "ledger_ok C (desk_ledger w')" using assms(2) by (simp_all add: ledger_grows_def)
  have subi: "ev_id ` ?es \<subseteq> ev_id ` ?es'" by (rule image_mono [OF sub])
  have calls: "set (ws_calls (dk_ws w)) \<subseteq> ev_id ` ?es" "distinct (ws_calls (dk_ws w))"
      and dr: "distinct (dk_reads w)"
      and appr: "\<And>j. j \<in> set (dk_reads w) \<Longrightarrow> \<exists>who. \<exists>e\<in>?es. approval_of j who e"
    using assms(1) unfolding desk_ok_def by simp_all
  have reads: "j \<in> ev_id ` ?es" if "j \<in> set (dk_reads w)" for j
  proof -
    from that have "\<exists>who. \<exists>e\<in>?es. approval_of j who e" by (rule appr)
    then obtain who e where e: "e \<in> ?es" "approval_of j who e" by blast
    show ?thesis using imageI [OF e(1), of ev_id] unfolding approval_of_id [OF e(2)] .
  qed
  have "distinct (dk_reads w')"
  proof (cases nr)
    case (Suc n)
    then have "i \<notin> set (dk_reads w)" using assms(7) reads by blast
    then show ?thesis using Suc assms(3,5) dr by simp
  qed (use assms(3) dr in simp)
  moreover have "distinct (ws_calls (dk_ws w'))"
  proof (cases nc)
    case (Suc n)
    then have "i \<notin> set (ws_calls (dk_ws w))" using assms(7) calls(1) by blast
    then show ?thesis using Suc assms(4,6) calls(2) by simp
  qed (use assms(4) calls(2) in simp)
  moreover have "set (ws_calls (dk_ws w')) \<subseteq> ev_id ` ?es'"
  proof (cases nc)
    case (Suc n)
    then have "i \<in> ev_id ` ?es'" by (intro assms(9)) simp
    then show ?thesis using Suc assms(4,6) calls(1) subi by simp
  qed (use assms(4) calls(1) subi in simp)
  moreover have "\<exists>who. \<exists>e\<in>?es'. approval_of j who e" if "j \<in> set (dk_reads w')" for j
  proof (cases "j \<in> set (dk_reads w)")
    case True
    then show ?thesis using appr [OF True] sub by blast
  next
    case False
    then have "j \<in> set (replicate nr i)" using that assms(3) by simp
    then have "nr > 0" "j = i" by (simp_all split: if_splits)
    then show ?thesis using assms(8) by blast
  qed
  ultimately show ?thesis using ok unfolding desk_ok_def by simp
qed

lemma decision_entry_approval:
  "ds_verdict d = ApprovedVerdict \<Longrightarrow> approval_of (ds_id d) who (fst (decision_entry S i request_event d key who x t))"
  by (simp add: approval_of_def decision_entry_def step_event_def decision_payload_def)

text \<open>
  What a decision does: nothing but to the ledger, or, where it is an approval, at most one read and
  one provider call under an approval event that is new to the ledger.
\<close>

lemma decide_effect:
  assumes "ledger_ok (sv_codec S) (desk_ledger w)"
    and "decide_file_read_request S P sid rid request_event d key who w = (res, w')"
  obtains (quiet) "effects (sv_codec S) (ds_id d) 0 0 w w'"
  | (executed) e where "effects (sv_codec S) (ds_id d) 1 1 w w'" "ds_verdict d = ApprovedVerdict"
      "approval_of (ds_id d) who e" "e \<in> set (ledger_events (sv_codec S) (desk_ledger w'))"
      "ds_id d \<notin> ev_id ` set (ledger_events (sv_codec S) (desk_ledger w))"
proof (cases "\<exists>i. inspect_run (sv_runtime S) (dk_ws w) sid rid = Inr i \<and>
    get_by_idempotency (sv_codec S) (desk_ledger w) key = Inr None")
  case False
  then have "w' = w" using assms(2)
    by (auto simp: decide_file_read_request_def desk_ledger_def split: sum.splits option.splits)
  then show thesis using quiet effects_refl by simp
next
  case True
  let ?C = "sv_codec S"
  obtain i where new: "decide_new S i request_event d key P who w = (res, w')"
      and free: "get_by_idempotency ?C (desk_ledger w) key = Inr None"
    using True assms(2) by (auto simp: decide_file_read_request_def desk_ledger_def)
  from new show thesis
  proof (cases rule: decide_new_cases)
    case (unrecorded x)
    then show thesis using quiet by blast
  next
    case (refused t w1)
    show thesis using quiet keepsD [OF record_decision_effects refused(2)] refused(4) by simp
  next
    case run: (executed t w1)
    obtain e where e: "decision_entry S i request_event d key who (pv_identity P) t = (e, key)"
      by (simp add: decision_entry_def)
    have a: "approval_of (ds_id d) who e"
      using decision_entry_approval [OF run(3), of who S i request_event key "pv_identity P" t] e by simp
    note w1 = record_decision_written [OF run(2) [unfolded e] assms(1) free]
    note q = keepsD [OF record_decision_effects run(2), of "ds_id d"]
    note x = keepsD [OF execute_approved_effects run(4)]
    have "ledger_ok ?C (desk_ledger w1)" using q assms(1) by (simp add: effects_def ledger_grows_def)
    then have "ledger_grows ?C (desk_ledger w1) (desk_ledger w')" using x by (simp add: effects_def)
    then have "e \<in> set (ledger_events ?C (desk_ledger w'))" using w1(1) unfolding ledger_grows_def by blast
    moreover have "effects ?C (ds_id d) 1 1 w w'" using effects_trans [OF q x] by simp
    ultimately show thesis using executed [OF _ run(3) a] w1(2) unfolding approval_of_id [OF a] by blast
  qed
qed

lemma decide_desk_ok:
  assumes "desk_ok (sv_codec S) w"
    and "decide_file_read_request S P sid rid request_event d key who w = (res, w')"
  shows "desk_ok (sv_codec S) w'"
proof -
  let ?C = "sv_codec S"
  have ok: "ledger_ok ?C (desk_ledger w)" using assms(1) by (simp add: desk_ok_def)
  show ?thesis
  proof (rule decide_effect [OF ok assms(2)])
    assume "effects ?C (ds_id d) 0 0 w w'"
    then show ?thesis
      using ok by (intro desk_ok_step [OF assms(1), of w' 0 "ds_id d" 0]) (auto simp: effects_def)
  next
    fix e
    assume x: "effects ?C (ds_id d) 1 1 w w'" and a: "approval_of (ds_id d) who e"
      and e: "e \<in> set (ledger_events ?C (desk_ledger w'))" "ds_id d \<notin> ev_id ` set (ledger_events ?C (desk_ledger w))"
    from x obtain nr nc where n: "nr \<le> 1" "nc \<le> 1"
        "dk_reads w' = dk_reads w @ replicate nr (ds_id d)"
        "ws_calls (dk_ws w') = ws_calls (dk_ws w) @ replicate nc (ds_id d)"
        "ledger_grows ?C (desk_ledger w) (desk_ledger w')"
      using ok unfolding effects_def by blast
    show ?thesis
      by (rule desk_ok_step [OF assms(1) n(5,3,4,1,2) e(2)])
        (use e(1) a imageI [OF e(1), of ev_id] approval_of_id [OF a] in auto)
  qed
qed

lemma desk_step_ok: "desk_step R w w' \<Longrightarrow> desk_ok (rt_codec R) w \<Longrightarrow> desk_ok (rt_codec R) w'"
proof (induction rule: desk_step.induct)
  case (decide S P sid rid request_event d key who w res w')
  then show ?case using decide_desk_ok by blast
next
  case (turn now later w q key P who res ws')
  have "ledger_ok (rt_codec R) (ws_ledger (dk_ws w))" using turn(2) by (simp add: desk_ok_def desk_ledger_def)
  from chat_turn_effect [OF this turn(1)] show ?case
  proof (elim conjE disjE)
    assume "ledger_grows (rt_codec R) (ws_ledger (dk_ws w)) (ws_ledger ws')" "ws_calls ws' = ws_calls (dk_ws w)"
    then show ?thesis
      by (intro desk_ok_step [OF turn(2), of _ 0 "cr_id q" 0]) (simp_all add: desk_ledger_def)
  next
    assume "ledger_grows (rt_codec R) (ws_ledger (dk_ws w)) (ws_ledger ws')"
      "ws_calls ws' = ws_calls (dk_ws w) @ [cr_id q]"
      "cr_id q \<notin> ev_id ` set (ledger_events (rt_codec R) (ws_ledger (dk_ws w)))"
      "cr_id q \<in> ev_id ` set (ledger_events (rt_codec R) (ws_ledger ws'))"
    then show ?thesis
      by (intro desk_ok_step [OF turn(2), of _ 0 "cr_id q" 1]) (simp_all add: desk_ledger_def)
  qed
next
  case (crash w now q key P who)
  have "ledger_ok (rt_codec R) (ws_ledger (dk_ws w))" using crash by (simp add: desk_ok_def desk_ledger_def)
  from chat_crash_effect [OF this refl, of now q key P who] show ?case
  proof (elim conjE disjE)
    let ?ws = "chat_crashed R now (dk_ws w) q key P who"
    assume "ledger_grows (rt_codec R) (ws_ledger (dk_ws w)) (ws_ledger ?ws)" "ws_calls ?ws = ws_calls (dk_ws w)"
    then show ?thesis
      by (intro desk_ok_step [OF crash, of _ 0 "cr_id q" 0]) (simp_all add: desk_ledger_def)
  next
    let ?ws = "chat_crashed R now (dk_ws w) q key P who"
    assume "ledger_grows (rt_codec R) (ws_ledger (dk_ws w)) (ws_ledger ?ws)"
      "ws_calls ?ws = ws_calls (dk_ws w) @ [cr_id q]"
      "cr_id q \<notin> ev_id ` set (ledger_events (rt_codec R) (ws_ledger (dk_ws w)))"
      "cr_id q \<in> ev_id ` set (ledger_events (rt_codec R) (ws_ledger ?ws))"
    then show ?thesis
      by (intro desk_ok_step [OF crash, of _ 0 "cr_id q" 1]) (simp_all add: desk_ledger_def)
  qed
next
  case (other artifacts w entries res rows files db grants)
  have "ledger_grows (rt_codec R) (ws_ledger (dk_ws w)) rows"
    using append_many_grows other by (simp add: desk_ok_def desk_ledger_def)
  then show ?case
    by (intro desk_ok_step [OF other(2), of _ 0 "[]" 0]) (simp_all add: desk_ledger_def)
qed

lemma desk_reachable_ok: "desk_reachable R w \<Longrightarrow> desk_ok (rt_codec R) w"
proof (induction rule: desk_reachable.induct)
  case (start files db grants)
  then show ?case using ledger_ok_empty by (simp add: desk_ok_def desk_ledger_def)
next
  case (step w w')
  then show ?case using desk_step_ok by blast
qed

text \<open>
  C5: no file is read without a human: after any sequence of chat turns, decisions with any
  clocks, scopes and file systems, crashes during calls and transactions of other components,
  and whatever became of the table of grants, every decision caused at most one read and at
  most one provider call, no provider call was made twice for a request, and each read is of a
  decision recorded in the ledger as approved by a human actor.
\<close>

theorem file_reads_are_approved:
  assumes "desk_reachable R w"
  shows "distinct (dk_reads w) \<and> distinct (ws_calls (dk_ws w)) \<and>
    (\<forall>i\<in>set (dk_reads w). \<exists>e\<in>set (ledger_events (rt_codec R) (ws_ledger (dk_ws w))).
       ev_id e = i \<and> ev_type e = Approval \<and> actor_kind (ev_actor e) = Human \<and>
       ev_trust e = HumanVerified \<and> jget (ev_payload e) ''decision'' = Some (JStr ''approved''))"
  using desk_reachable_ok [OF assms] unfolding desk_ok_def approval_of_def desk_ledger_def
  by (metis (lifting) actor.select_convs(2))

end
