(* ===== verification/Grant_Log.thy ===== *)
theory Grant_Log
  imports Decision_Safety
begin

text \<open>
  The log of reads against the table of grants.  A read of the capability broker follows the claim that
  consumes its grant, and the log has an entry for every claim, whether the read then succeeds or
  not: every grant that is consumed in the table is that of a decision in the log.
\<close>

section \<open>The table and the log\<close>

definition claims_logged :: "hash_fn \<Rightarrow> desk \<Rightarrow> bool" where
  "claims_logged sha w \<longleftrightarrow>
     (\<forall>r\<in>set (dk_grants w). (\<forall>g. gr_document r = Some g \<longrightarrow> g_id g = gr_id r) \<and>
        (gr_consumed r \<noteq> None \<longrightarrow> (\<exists>i\<in>set (dk_reads w). gr_id r = derived_id sha i ''grt'' ''file-read-grant'')))"

definition stays_logged :: "service \<Rightarrow> desk \<Rightarrow> desk \<Rightarrow> bool" where
  "stays_logged S w w' \<longleftrightarrow> (claims_logged (c_sha (sv_codec S)) w \<longrightarrow> claims_logged (c_sha (sv_codec S)) w')"

lemma stays_logged_same: "dk_grants w' = dk_grants w \<Longrightarrow> dk_reads w' = dk_reads w \<Longrightarrow> stays_logged S w w'"
  by (simp add: stays_logged_def claims_logged_def)

named_theorems logged_statements

lemma logged_and_then [logged_statements]:
  assumes "keeps (stays_logged S) m" and "\<And>x. keeps (stays_logged S) (f x)"
  shows "keeps (stays_logged S) (and_then m f)"
proof (rule keepsI)
  fix s r s'
  assume a: "and_then m f s = (r, s')"
  obtain x s1 where m: "m s = (x, s1)" by (cases "m s")
  show "stays_logged S s s'"
    using a keepsD [OF assms(1) m] m keepsD [OF assms(2)]
    by (cases x) (auto simp: and_then_def stays_logged_def)
qed

lemma logged_pure [logged_statements]:
  "keeps (stays_logged S) (give a)" "keeps (stays_logged S) (throw e)" "keeps (stays_logged S) (lift_result r)"
  by (simp_all add: keeps_def give_def throw_def lift_result_def stays_logged_def)

section \<open>The statements of a decision\<close>

lemma logged_entries [logged_statements]: "keeps (stays_logged S) (record_entries S raw)"
  by (rule keepsI) (auto simp: record_entries_def intro: stays_logged_same split: sum.splits prod.splits)

lemma logged_decision [logged_statements]: "keeps (stays_logged S) (record_decision S entry)"
proof (rule keepsI)
  fix w r w'
  assume "record_decision S entry w = (r, w')"
  then obtain r' where "record_entries S [entry] w = (r', w')"
    by (auto simp: record_decision_def split: prod.splits sum.splits decision_error.splits
        chat_error.splits store_error.splits)
  then show "stays_logged S w w'" by (rule keepsD [OF logged_entries])
qed

lemma logged_failures [logged_statements]:
  "keeps (stays_logged S) (tool_failure S i d key parent kind t)"
  "keeps (stays_logged S) (followup_failure S i d key kind)"
  unfolding tool_failure_def followup_failure_def by (intro logged_statements)+

lemma logged_observation [logged_statements]: "keeps (stays_logged S) (store_observation S ob)"
  by (rule keepsI) (auto simp: store_observation_def intro: stays_logged_same split: prod.splits sum.splits)

lemma logged_register [logged_statements]: "keeps (stays_logged S) (register_step S i d key g)"
proof (rule keepsI)
  fix w r w'
  assume a: "register_step S i d key g w = (r, w')"
  obtain res rows where g: "register_grant (sv_codec S) (sv_scopes S) (ws_ledger (dk_ws w)) (dk_grants w) g = (res, rows)"
    by fastforce
  then have "rows = dk_grants w \<or> rows = dk_grants w @ [\<lparr> gr_id = g_id g, gr_document = Some g, gr_consumed = None \<rparr>]"
    by (auto simp: register_grant_def split: sum.splits option.splits if_splits)
  then have b: "stays_logged S w (w\<lparr>dk_grants := rows\<rparr>)"
    by (auto simp: stays_logged_def claims_logged_def)
  show "stays_logged S w w'"
  proof (cases res)
    case (Inl denied)
    then have "tool_failure S i d key (ds_id d) (denial_code denied) (sv_clock S 1) (w\<lparr>dk_grants := rows\<rparr>) = (r, w')"
      using a g by (simp add: register_step_def)
    from keepsD [OF logged_failures(1) this] show ?thesis using b by (simp add: stays_logged_def)
  next
    case (Inr u)
    then show ?thesis using a g b by (simp add: register_step_def)
  qed
qed

text \<open>A claim that succeeds consumes the row of its own identity, and is logged.\<close>

lemma claim_rows:
  assumes "claim_grant scopes rows i subject clock = (res, rows')" and "\<forall>r\<in>set rows. \<forall>g. gr_document r = Some g \<longrightarrow> g_id g = gr_id r"
  shows "(\<exists>x. res = Inl x) \<and> rows' = rows \<or> (\<exists>g now. res = Inr g \<and> rows' = consume i now rows)"
proof -
  have "g_id g = i" if "find (\<lambda>r. gr_id r = i) rows = Some r" "gr_document r = Some g" for r g
    using that assms(2) by (auto dest: find_Some_mem)
  then show ?thesis using assms(1)
    by (auto simp: claim_grant_def split: option.splits)
qed

lemma logged_read [logged_statements]: "keeps (stays_logged S) (read_step S i d key x)"
proof (rule keepsI)
  fix w r w'
  assume a: "read_step S i d key x w = (r, w')"
  let ?sha = "c_sha (sv_codec S)" and ?id = "decision_derived S d ''grt'' ''file-read-grant''"
  obtain claimed rows where c: "claim_grant (sv_scopes S) (dk_grants w) ?id (xi_actor x) (Some (sv_clock S 2)) = (claimed, rows)"
    by fastforce
  define reads where "reads = (if \<not> is_error claimed then dk_reads w @ [ds_id d] else dk_reads w)"
  obtain res where e: "execute_file_read ?sha (sv_scopes S) (sv_probe S) (dk_grants w) ?id (xi_actor x) (Some (sv_clock S 2)) = (res, rows)"
    using c by (cases claimed) (auto simp: execute_file_read_def)
  have logged: "claims_logged ?sha (w\<lparr>dk_grants := rows, dk_reads := reads\<rparr>)" if "claims_logged ?sha w"
  proof -
    have "\<forall>r\<in>set (dk_grants w). \<forall>g. gr_document r = Some g \<longrightarrow> g_id g = gr_id r"
      using that by (simp add: claims_logged_def)
    from claim_rows [OF c this] show ?thesis
    proof (elim disjE conjE exE)
      fix y assume "claimed = Inl y" "rows = dk_grants w"
      then show ?thesis using that by (simp add: reads_def is_error_def claims_logged_def)
    next
      fix g now assume "claimed = Inr g" "rows = consume ?id now (dk_grants w)"
      then show ?thesis using that
        by (auto simp: reads_def is_error_def claims_logged_def consume_def decision_derived_def)
    qed
  qed
  then have b: "stays_logged S w (w\<lparr>dk_grants := rows, dk_reads := reads\<rparr>)" by (simp add: stays_logged_def)
  show "stays_logged S w w'"
  proof (cases res)
    case (Inl denied)
    then have "tool_failure S i d key (claimed_id S d) (denial_code denied) (sv_clock S 3)
        (w\<lparr>dk_grants := rows, dk_reads := reads\<rparr>) = (r, w')"
      using a e c by (simp add: read_step_def reads_def Let_def)
    from keepsD [OF logged_failures(1) this] show ?thesis using b by (simp add: stays_logged_def)
  next
    case (Inr ob)
    then show ?thesis using a e c b by (auto simp: read_step_def reads_def Let_def)
  qed
qed

lemma logged_call [logged_statements]: "keeps (stays_logged S) (call_step S i d key P message records ob)"
proof (rule keepsI)
  fix w r w'
  assume a: "call_step S i d key P message records ob w = (r, w')"
  let ?called = "w\<lparr>dk_ws := (dk_ws w)\<lparr>ws_calls := ws_calls (dk_ws w) @ [ds_id d]\<rparr>\<rparr>"
  have b: "stays_logged S w ?called" by (rule stays_logged_same) simp_all
  have f: "stays_logged S w w'" if "followup_failure S i d key kind ?called = (r, w')" for kind
    using b keepsD [OF logged_failures(2) that] by (simp add: stays_logged_def)
  show "stays_logged S w w'"
    using a b f
    by (auto simp: call_step_def Let_def split: sum.splits provider_result.splits provider_failure.splits)
qed

lemma logged_followup [logged_statements]: "keeps (stays_logged S) (followup S i d key P ob reference)"
  unfolding followup_def Let_def by (rule keeps_state) (intro logged_statements)

lemma logged_execution [logged_statements]: "keeps (stays_logged S) (execute_approved S i d key P who t)"
  unfolding execute_approved_def Let_def by (auto intro!: logged_statements split: if_split)

lemma logged_new [logged_statements]: "keeps (stays_logged S) (decide_new S i request_event d key P who)"
  unfolding decide_new_def by (auto intro!: logged_statements split: if_split)

lemma decision_logged:
  assumes "decide_file_read_request S P sid rid request_event d key who w = (res, w')"
    and "claims_logged (c_sha (sv_codec S)) w"
  shows "claims_logged (c_sha (sv_codec S)) w'"
proof -
  have "stays_logged S w w'" if "decide_new S i request_event d key P who w = (res, w')" for i
    using keepsD [OF logged_new that] .
  then show ?thesis
    using assms by (auto simp: decide_file_read_request_def stays_logged_def split: sum.splits option.splits)
qed

end
