(* ===== verification/Decision_Replay.thy ===== *)
theory Decision_Replay
  imports Decision_Safety
begin

text \<open>
  A decision that was answered is answered again from the ledger: the events of the loop form
  a causal chain behind the tool request, so they are appended in their order whatever the
  ledger held, and the run they extend reconstructs to its end.
\<close>

section \<open>Extending a run\<close>

definition at_stage :: "event list \<Rightarrow> step_kind \<Rightarrow> string option \<Rightarrow> string \<Rightarrow> run \<Rightarrow> bool" where
  "at_stage es k ref task r \<longleftrightarrow>
     reconstruct_run es = Inr r \<and> rs_kind (last (rn_steps r)) = k \<and> rn_context_ref r = ref \<and> rn_task r = task"

lemma reconstruct_first: "reconstruct_run es = Inr r \<Longrightarrow> rn_task r = ev_task (hd es)"
  by (cases es) (auto simp: reconstruct_run_def result_simps Let_def)

lemma stage_extend:
  assumes "at_stage es k ref task r" and "identity_of e = identity_of (hd es)" and "step_kind_of e = Inr k'"
    and "ev_type e = event_type_of k'" and "k' \<noteq> ContextCompiled" and "k' \<in> set (allowed_next k)"
    and "ev_parents e = [ev_id (last es)]" and "operation_of e \<noteq> Some (JStr ''fake_provider_chat'')"
  shows "\<exists>r'. at_stage (es @ [e]) k' ref task r' \<and> rn_state r' = state_after k' \<and>
    rn_final r' = (if k' = FinalResponse then Some (ev_id e) else None)"
proof -
  have r: "reconstruct_run es = Inr r" "rs_kind (last (rn_steps r)) = k" "rn_context_ref r = ref"
      "rn_task r = task"
    using assms(1) by (simp_all add: at_stage_def)
  obtain ref' where l: "es \<noteq> []" "run_loop (hd es) [] None es = Inr (rn_steps r, ref')"
      "rn_context_ref r = ref'"
    using r(1) by (rule reconstruct_loop)
  have ne: "rn_steps r \<noteq> []" using reconstruct_sound [OF r(1)] run_path_nonempty by force
  have "length (rn_steps r) = length es" using reconstruct_sound [OF r(1)] list_all2_lengthD by metis
  then have p: "rs_event (last (rn_steps r)) = ev_id (last es)"
    using reconstruct_nth(4) [OF r(1), of "length es - 1"] l(1) ne by (simp add: last_conv_nth)
  obtain s where "run_round (hd es) (rn_steps r) ref e = Inr (rn_steps r @ [s], ref) \<and> rs_kind s = k'"
    using assms ne r(2) p
    by (simp add: run_round_def Let_def legacy_call_def guard_simps split: if_splits)
  then have s: "run_loop (hd es) [] None (es @ [e]) = Inr (rn_steps r @ [s], ref)" "rs_kind s = k'"
    using l r(3) by (simp_all add: run_loop_append)
  obtain x xs where es: "es = x # xs" using l(1) by (cases es) auto
  then show ?thesis
    using s r(4) reconstruct_first [OF r(1)] unfolding at_stage_def
    by (simp add: reconstruct_run_def Let_def)
qed

lemma step_event_simps [simp]:
  "ev_id (step_event S i j who k t p parent tr refs m) = j"
  "ev_session (step_event S i j who k t p parent tr refs m) = in_session i"
  "ev_run (step_event S i j who k t p parent tr refs m) = in_run i"
  "ev_task (step_event S i j who k t p parent tr refs m) = rn_task (in_reconstruction i)"
  "ev_type (step_event S i j who k t p parent tr refs m) = k"
  "ev_payload (step_event S i j who k t p parent tr refs m) = p"
  "ev_parents (step_event S i j who k t p parent tr refs m) = [parent]"
  "ev_model (step_event S i j who k t p parent tr refs m) = m"
  by (simp_all add: step_event_def)

lemma stage_step:
  assumes "at_stage es k ref (rn_task (in_reconstruction i)) r"
    and "identity_of (hd es) = (in_session i, in_run i, rn_task (in_reconstruction i))"
    and "p = jobj ((''operation'', JStr (step_kind_value k')) # kvs)" and "et = event_type_of k'"
    and "k' \<noteq> ContextCompiled" and "k' \<in> set (allowed_next k)" and "ev_id (last es) = parent"
    and "step_kind_value k' \<noteq> ''fake_provider_chat''"
  shows "\<exists>r'. at_stage (es @ [step_event S i j who et t p parent tr refs m]) k' ref
      (rn_task (in_reconstruction i)) r' \<and> rn_state r' = state_after k' \<and>
    rn_final r' = (if k' = FinalResponse then Some j else None)"
proof -
  let ?e = "step_event S i j who et t p parent tr refs m"
  have o: "operation_of ?e = Some (JStr (step_kind_value k'))" "step_kind_of ?e = Inr k'"
    using operation_jobj [of ?e k' kvs] assms(3) by simp_all
  have i: "identity_of ?e = identity_of (hd es)" unfolding assms(2) by (simp add: identity_of_def)
  have e: "ev_type ?e = event_type_of k'" "ev_parents ?e = [ev_id (last es)]"
      "operation_of ?e \<noteq> Some (JStr ''fake_provider_chat'')"
    using assms(4,7,8) o(1) by simp_all
  note extended = stage_extend [OF assms(1) i o(2) e(1) assms(5,6) e(2,3)]
  show ?thesis using extended by (simp only: step_event_simps(1))
qed

section \<open>Chains in the ledger\<close>

fun chained :: "string \<Rightarrow> (event \<times> string) list \<Rightarrow> bool" where
  "chained p [] \<longleftrightarrow> True"
| "chained p ((e, k) # es) \<longleftrightarrow> ev_parents e = [p] \<and> chained (ev_id e) es"

text \<open>An event behind the last one of the log is not in the log.\<close>

lemma chain_fresh:
  assumes "log_ok C (lg @ [(p, kp)])" and "ev_parents e = [ev_id p]"
  shows "(e, k) \<notin> set (lg @ [(p, kp)])"
proof
  let ?es = "map fst (lg @ [(p, kp)])"
  assume "(e, k) \<in> set (lg @ [(p, kp)])"
  then have "e \<in> set ?es" by (metis fst_conv image_eqI set_map)
  then obtain n where n: "n < length ?es" "?es ! n = e" by (metis in_set_conv_nth)
  have c: "causal_order ?es" and d: "distinct (map ev_id ?es)" using assms(1) by (simp_all add: log_ok_def comp_def)
  have "ev_id p \<in> set (map ev_id (take n ?es))"
    using c n assms(2) by (auto simp: causal_order_def)
  then obtain m where m: "m < n" "ev_id (?es ! m) = ev_id p"
    using n(1) by (auto simp: in_set_conv_nth simp del: map_append append_Cons)
  have "?es ! length lg = p" by (simp add: nth_append)
  then have "map ev_id ?es ! m = map ev_id ?es ! length lg" using m n(1) by (simp del: map_append map_map)
  then have "m = length lg" using d m(1) n(1) by (intro nth_eq_iff_index_eq [THEN iffD1]) simp_all
  then show False using m(1) n(1) by simp
qed

lemma spec_append_chain:
  assumes "spec_append_loop C artifacts (lg @ [(p, kp)]) es = Inr (lg', ids)" and "log_ok C (lg @ [(p, kp)])"
    and "chained (ev_id p) es"
  shows "lg' = lg @ (p, kp) # es"
  using assms
proof (induction es arbitrary: lg p kp ids)
  case Nil
  then show ?case by simp
next
  case (Cons x es)
  obtain e k where x: "x = (e, k)" by (cases x)
  obtain lg1 j ids' where s: "spec_append_one C artifacts (lg @ [(p, kp)]) e k = Inr (lg1, j)"
      "spec_append_loop C artifacts lg1 es = Inr (lg', ids')"
    using Cons.prems(1) x by (auto split: sum.splits prod.splits)
  have "lg1 = (lg @ [(p, kp)]) @ [(e, k)]"
    using s(1) by (cases rule: spec_append_one_cases)
      (use chain_fresh [OF Cons.prems(2)] Cons.prems(3) x in auto)
  moreover have "log_ok C lg1" using spec_append_one_ok [OF Cons.prems(2) s(1)] by simp
  ultimately show ?case
    using Cons.IH [of "lg @ [(p, kp)]" e k ids'] s(2) Cons.prems(3) x by simp
qed

text \<open>The desk holds a ledger whose last event is given.\<close>

definition ends_with :: "codec \<Rightarrow> desk \<Rightarrow> event_log \<Rightarrow> string \<Rightarrow> bool" where
  "ends_with C w lg i \<longleftrightarrow> desk_ledger w = log_rows C lg \<and> log_ok C lg \<and> lg \<noteq> [] \<and> ev_id (fst (last lg)) = i"

lemma record_chain:
  assumes "codec_ok (sv_codec S)" and "ends_with (sv_codec S) w lg p"
    and "record_entries S es w = (Inr u, w')" and "chained p es" and "es \<noteq> []"
  shows "ends_with (sv_codec S) w' (lg @ es) (ev_id (fst (last es)))"
    and "ws_files (dk_ws w') = ws_files (dk_ws w)" and "ws_memory (dk_ws w') = ws_memory (dk_ws w)"
proof -
  let ?C = "sv_codec S"
  obtain ids rows where a: "w' = w\<lparr>dk_ws := (dk_ws w)\<lparr>ws_ledger := rows\<rparr>\<rparr>"
      "append_many ?C (Some (artifact_verified (sv_runtime S) (ws_files (dk_ws w)))) (desk_ledger w) es = (Inr ids, rows)"
    using assms(3) by (cases rule: record_entries_cases) auto
  obtain lg0 e k where lg: "lg = lg0 @ [(e, k)]"
    using assms(2) unfolding ends_with_def by (metis append_butlast_last_id surj_pair)
  have ok: "log_ok ?C lg" "desk_ledger w = log_rows ?C lg" "ev_id e = p"
    using assms(2) lg by (simp_all add: ends_with_def)
  obtain lg' where l: "spec_append_loop ?C (Some (artifact_verified (sv_runtime S) (ws_files (dk_ws w)))) lg es = Inr (lg', ids)"
      "rows = log_rows ?C lg'"
    using append_many_log [OF assms(1) ok(1)] a(2) ok(2) by metis
  have "lg' = lg @ es"
    using spec_append_chain [OF l(1) [unfolded lg]] ok(1,3) assms(4) lg by simp
  then show "ends_with ?C w' (lg @ es) (ev_id (fst (last es)))"
    using l a(1) spec_append_loop_ok [OF ok(1) l(1)] assms(5)
    by (simp add: ends_with_def desk_ledger_def)
  show "ws_files (dk_ws w') = ws_files (dk_ws w)" "ws_memory (dk_ws w') = ws_memory (dk_ws w)"
    using a(1) by simp_all
qed

lemma failures_raise [simp]:
  "tool_failure S i d key parent kind t w \<noteq> (Inr a, w')" "followup_failure S i d key kind w \<noteq> (Inr b, w')"
  by (simp_all add: tool_failure_def followup_failure_def and_then_Inr throw_def)

lemma record_decision_ends:
  assumes "codec_ok (sv_codec S)" and "log_ok (sv_codec S) lg" and "desk_ledger w = log_rows (sv_codec S) lg"
    and "record_decision S (e, key) w = (Inr u, w')"
    and "get_by_idempotency (sv_codec S) (desk_ledger w) key = Inr None" and "ev_id e = j"
  shows "ends_with (sv_codec S) w' (lg @ [(e, key)]) j"
proof -
  let ?C = "sv_codec S"
  have "record_entries S [(e, key)] w = (Inr u, w')"
    using assms(4) by (auto simp: record_decision_def split: prod.splits sum.splits decision_error.splits
        chat_error.splits store_error.splits)
  then obtain ids where a: "append_many ?C (Some (artifact_verified (sv_runtime S) (ws_files (dk_ws w))))
      (log_rows ?C lg) [(e, key)] = (Inr ids, desk_ledger w')"
    by (cases rule: record_entries_cases) (auto simp: desk_ledger_def assms(3) [unfolded desk_ledger_def])
  have "ledger_lookup ?C (log_rows ?C lg) key = None" using assms(3,5) by (simp add: ledger_lookup_def)
  then have "(e, key) \<notin> set lg" using ledger_lookup_log [OF assms(1,2), of key e] by simp
  then show ?thesis
    using append_fresh_log [OF assms(1,2) a] assms(6) by (simp add: ends_with_def)
qed

text \<open>The statements that leave the ledger alone when they succeed.\<close>

lemma quiet_statements:
  "register_step S i d key g w = (Inr u, w') \<Longrightarrow> dk_ws w' = dk_ws w"
  "read_step S i d key x w = (Inr ob, w') \<Longrightarrow> dk_ws w' = dk_ws w"
  "store_observation S ob w = (Inr reference, w') \<Longrightarrow> desk_ledger w' = desk_ledger w"
  "call_step S i d key P message records ob w = (Inr answer, w') \<Longrightarrow> desk_ledger w' = desk_ledger w"
  by (auto simp: register_step_def read_step_def store_observation_def call_step_def Let_def desk_ledger_def
      split: prod.splits sum.splits provider_result.splits provider_failure.splits)

lemma ends_with_quiet: "ends_with C w lg p \<Longrightarrow> desk_ledger w' = desk_ledger w \<Longrightarrow> ends_with C w' lg p"
  by (simp add: ends_with_def)

section \<open>The events of an answered decision\<close>

lemma bound_citations_valid: "bound_citations rs is = Inr cs \<Longrightarrow> list_all valid_citation cs"
proof (induction rs "is" arbitrary: cs rule: bound_citations.induct)
  case (1 r rs item items)
  then show ?case by (auto simp: Let_def result_simps split: option.splits if_splits)
qed auto

definition loop_entries ::
    "service \<Rightarrow> inspection \<Rightarrow> decision \<Rightarrow> string \<Rightarrow> execution_identity \<Rightarrow> tool_request \<Rightarrow> observation
      \<Rightarrow> string \<Rightarrow> string \<Rightarrow> citation list \<Rightarrow> (event \<times> string) list" where
  "loop_entries S i d key x t ob reference answer cits =
     [claimed_entry S i d key t, observation_entry S i d key ob reference, followup_entry S i d key x reference] @
     answer_entries S i d key x answer cits"

lemma execute_approved_Inr:
  assumes "codec_ok (sv_codec S)" and "ends_with (sv_codec S) w lg (ds_id d)"
    and "execute_approved S i d key P who t w = (Inr res, w')"
  obtains ob reference answer cits where
    "res = Continued \<lparr> ch_session = in_session i, ch_run = in_run i, ch_task = rn_task (in_reconstruction i),
        ch_provider = projection_of (pv_identity P), ch_answer = answer, ch_citations = cits,
        ch_manifest = in_manifest i \<rparr>"
    "list_all valid_citation cits"
    "ends_with (sv_codec S) w' (lg @ loop_entries S i d key (pv_identity P) t ob reference answer cits)
       (decision_derived S d ''evt'' ''followup-response'')"
proof -
  let ?C = "sv_codec S" and ?x = "pv_identity P"
  obtain u w1 u2 w2 ob w3 reference w4 u5 w5 where st:
      "register_step S i d key (grant_for S d who ?x t) w = (Inr u, w1)"
      "record_entries S [claimed_entry S i d key t] w1 = (Inr u2, w2)"
      "read_step S i d key ?x w2 = (Inr ob, w3)" "store_observation S ob w3 = (Inr reference, w4)"
      "record_entries S [observation_entry S i d key ob reference] w4 = (Inr u5, w5)"
      "followup S i d key P ob reference w5 = (Inr res, w')"
    using assms(3) by (auto simp: execute_approved_def Let_def and_then_Inr throw_def split: if_splits)
  obtain cits u6 w6 message records answer w7 u8 where fo:
      "bound_citations records (cm_items (in_manifest i)) = Inr cits"
      "record_entries S [followup_entry S i d key ?x reference] w5 = (Inr u6, w6)"
      "call_step S i d key P message records ob w6 = (Inr answer, w7)"
      "record_entries S (answer_entries S i d key ?x answer cits) w7 = (Inr u8, w')"
      "res = Continued \<lparr> ch_session = in_session i, ch_run = in_run i, ch_task = rn_task (in_reconstruction i),
        ch_provider = projection_of ?x, ch_answer = answer, ch_citations = cits, ch_manifest = in_manifest i \<rparr>"
    using st(6) by (auto simp: followup_def Let_def and_then_Inr lift_result_def give_def)
  have e1: "ends_with ?C w1 lg (ds_id d)"
    using quiet_statements(1) [OF st(1)] by (intro ends_with_quiet [OF assms(2)]) (simp add: desk_ledger_def)
  have e2: "ends_with ?C w2 (lg @ [claimed_entry S i d key t]) (claimed_id S d)"
    using record_chain(1) [OF assms(1) e1 st(2)] by (simp add: claimed_entry_def)
  have "desk_ledger w4 = desk_ledger w2"
    using quiet_statements(2) [OF st(3)] quiet_statements(3) [OF st(4)] by (simp add: desk_ledger_def)
  then have e4: "ends_with ?C w4 (lg @ [claimed_entry S i d key t]) (claimed_id S d)"
    by (rule ends_with_quiet [OF e2])
  have e5: "ends_with ?C w5 ((lg @ [claimed_entry S i d key t]) @ [observation_entry S i d key ob reference])
      (observation_id S d)"
    using record_chain(1) [OF assms(1) e4 st(5)] by (simp add: observation_entry_def)
  have e6: "ends_with ?C w6 (((lg @ [claimed_entry S i d key t]) @ [observation_entry S i d key ob reference]) @
      [followup_entry S i d key ?x reference]) (followup_id S d)"
    using record_chain(1) [OF assms(1) e5 fo(2)] by (simp add: followup_entry_def)
  note e7 = ends_with_quiet [OF e6 quiet_statements(4) [OF fo(3)]]
  have "ends_with ?C w' (lg @ loop_entries S i d key ?x t ob reference answer cits)
      (decision_derived S d ''evt'' ''followup-response'')"
    using record_chain(1) [OF assms(1) e7 fo(4)]
    by (simp add: loop_entries_def answer_entries_def Let_def)
  then show thesis using that fo(5) bound_citations_valid [OF fo(1)] by blast
qed

section \<open>The run after the decision\<close>

lemma decision_stage:
  assumes "at_stage es ToolRequested ref (rn_task (in_reconstruction i)) r"
    and "identity_of (hd es) = (in_session i, in_run i, rn_task (in_reconstruction i))"
    and "ev_id (last es) = request_event"
  shows "\<exists>r'. at_stage (es @ [fst (decision_entry S i request_event d key who x t)])
      (if ds_verdict d = ApprovedVerdict then GrantApproved else GrantDenied) ref
      (rn_task (in_reconstruction i)) r' \<and>
    rn_state r' = (if ds_verdict d = ApprovedVerdict then InProgress else Failed)"
  using stage_step [OF assms(1,2) _ refl _ _ assms(3),
      of "decision_payload S d request_event x t" "if ds_verdict d = ApprovedVerdict then GrantApproved else GrantDenied"]
  by (cases "ds_verdict d") (fastforce simp: decision_entry_def decision_payload_def state_after_def)+

lemma loop_stage:
  assumes "at_stage es GrantApproved ref (rn_task (in_reconstruction i)) r"
    and "identity_of (hd es) = (in_session i, in_run i, rn_task (in_reconstruction i))"
    and "ev_id (last es) = ds_id d"
  shows "\<exists>r'. at_stage (es @ map fst (loop_entries S i d key x t ob reference answer cits)) FinalResponse ref
      (rn_task (in_reconstruction i)) r' \<and> rn_state r' = Completed \<and>
    rn_final r' = Some (decision_derived S d ''evt'' ''followup-response'')"
proof -
  let ?task = "rn_task (in_reconstruction i)"
  let ?id = "(in_session i, in_run i, ?task)"
  define e0 where "e0 = fst (claimed_entry S i d key t)"
  define e1 where "e1 = fst (observation_entry S i d key ob reference)"
  define e2 where "e2 = fst (followup_entry S i d key x reference)"
  define e3 where "e3 = fst (answer_entries S i d key x answer cits ! 0)"
  define e4 where "e4 = fst (answer_entries S i d key x answer cits ! 1)"
  have es: "map fst (loop_entries S i d key x t ob reference answer cits) = [e0, e1, e2, e3, e4]"
    by (simp add: loop_entries_def e0_def e1_def e2_def e3_def e4_def answer_entries_def Let_def)
  have ids: "ev_id e0 = claimed_id S d" "ev_id e1 = observation_id S d" "ev_id e2 = followup_id S d"
      "ev_id e3 = decision_derived S d ''evt'' ''followup-succeeded''"
    by (simp_all add: e0_def e1_def e2_def e3_def claimed_entry_def observation_entry_def followup_entry_def
        answer_entries_def Let_def)
  have "es \<noteq> []" using assms(1) by (auto simp: at_stage_def reconstruct_run_def)
  then have h: "identity_of (hd (es @ [e0])) = ?id" "identity_of (hd ((es @ [e0]) @ [e1])) = ?id"
      "identity_of (hd (((es @ [e0]) @ [e1]) @ [e2])) = ?id"
      "identity_of (hd ((((es @ [e0]) @ [e1]) @ [e2]) @ [e3])) = ?id"
    using assms(2) by simp_all
  obtain r1 where r1: "at_stage (es @ [e0]) ToolCallClaimed ref ?task r1"
    using stage_step [OF assms(1,2) refl, where k' = ToolCallClaimed and parent = "ds_id d"] assms(3)
    by (fastforce simp: e0_def claimed_entry_def)
  obtain r2 where r2: "at_stage ((es @ [e0]) @ [e1]) ObservationStep ref ?task r2"
    using stage_step [OF r1 h(1) refl, where k' = ObservationStep and parent = "claimed_id S d"] ids
    by (fastforce simp: e1_def observation_entry_def)
  obtain r3 where r3: "at_stage (((es @ [e0]) @ [e1]) @ [e2]) ModelCallPending ref ?task r3"
    using stage_step [OF r2 h(2) refl, where k' = ModelCallPending and parent = "observation_id S d"] ids
    by (fastforce simp: e2_def followup_entry_def)
  obtain r4 where r4: "at_stage ((((es @ [e0]) @ [e1]) @ [e2]) @ [e3]) ModelCallSucceeded ref ?task r4"
    using stage_step [OF r3 h(3) refl, where k' = ModelCallSucceeded and parent = "followup_id S d"] ids
    by (fastforce simp: e3_def answer_entries_def Let_def)
  have "\<exists>r'. at_stage (((((es @ [e0]) @ [e1]) @ [e2]) @ [e3]) @ [e4]) FinalResponse ref ?task r' \<and>
      rn_state r' = Completed \<and> rn_final r' = Some (decision_derived S d ''evt'' ''followup-response'')"
    using stage_step [OF r4 h(4) refl, where k' = FinalResponse
        and parent = "decision_derived S d ''evt'' ''followup-succeeded''"] ids
    by (fastforce simp: e4_def answer_entries_def Let_def response_payload_def state_after_def)
  then show ?thesis unfolding es by simp
qed

lemma inspect_run_Inr:
  assumes "inspect_run R ws sid rid = Inr i"
  obtains es reference enc where "in_session i = sid" "in_run i = rid"
    "stream (rt_codec R) (ws_ledger ws) sid = Inr es" "in_events i = filter (\<lambda>e. ev_run e = rid) es"
    "in_events i \<noteq> []" "reconstruct_run (in_events i) = Inr (in_reconstruction i)"
    "rn_context_ref (in_reconstruction i) = Some reference"
    "get_artifact (c_sha (rt_codec R)) (ws_files ws) reference = Inr enc"
    "rt_parse_manifest R enc = Some (in_manifest i)" "cm_task (in_manifest i) = rn_task (in_reconstruction i)"
  using assms
  by (auto simp: inspect_run_def Let_def split: sum.splits option.splits if_splits)

text \<open>The same run, after more of its events and after other runs.\<close>

lemma inspect_extended:
  assumes "codec_ok (rt_codec R)" and "inspect_run R ws sid rid = Inr i"
    and "ws_ledger ws = log_rows (rt_codec R) lg" and "log_ok (rt_codec R) lg"
    and "ws_ledger ws' = log_rows (rt_codec R) (lg @ mine @ rest)" and "log_ok (rt_codec R) (lg @ mine @ rest)"
    and "\<forall>(e, k)\<in>set mine. ev_session e = sid \<and> ev_run e = rid" and "run_free rid rest"
    and "at_stage (in_events i @ map fst mine) k (rn_context_ref (in_reconstruction i))
      (rn_task (in_reconstruction i)) r"
    and "\<And>h c. get_artifact (c_sha (rt_codec R)) (ws_files ws) h = Inr c \<Longrightarrow>
      get_artifact (c_sha (rt_codec R)) (ws_files ws') h = Inr c"
  shows "inspect_run R ws' sid rid = Inr (i\<lparr>in_events := in_events i @ map fst mine, in_reconstruction := r\<rparr>)"
proof -
  let ?C = "rt_codec R"
  from assms(2) obtain es reference enc where i: "in_session i = sid" "in_run i = rid"
      "stream ?C (ws_ledger ws) sid = Inr es" "in_events i = filter (\<lambda>e. ev_run e = rid) es"
      "in_events i \<noteq> []" "reconstruct_run (in_events i) = Inr (in_reconstruction i)"
      "rn_context_ref (in_reconstruction i) = Some reference"
      "get_artifact (c_sha ?C) (ws_files ws) reference = Inr enc"
      "rt_parse_manifest R enc = Some (in_manifest i)" "cm_task (in_manifest i) = rn_task (in_reconstruction i)"
    by (rule inspect_run_Inr)
  let ?P = "\<lambda>(e, k :: string). ev_session e = sid"
  have es: "es = map fst (filter ?P lg)" using i(3) stream_log [OF assms(1,4)] assms(3) by simp
  have mine: "filter ?P mine = mine" "filter (\<lambda>e. ev_run e = rid) (map fst mine) = map fst mine"
    using assms(7) by (auto simp: filter_id_conv)
  have rest: "filter (\<lambda>e. ev_run e = rid) (map fst (filter ?P rest)) = []"
    using assms(8) by (auto simp: run_free_def filter_empty_conv)
  have st: "stream ?C (ws_ledger ws') sid = Inr (es @ map fst mine @ map fst (filter ?P rest))"
    unfolding assms(5) stream_log [OF assms(1,6)] es using mine(1) by simp
  have f: "filter (\<lambda>e. ev_run e = rid) (es @ map fst mine @ map fst (filter ?P rest)) = in_events i @ map fst mine"
    unfolding filter_append mine(2) rest i(4) by simp
  have r: "reconstruct_run (in_events i @ map fst mine) = Inr r" "rn_context_ref r = Some reference"
      "rn_task r = rn_task (in_reconstruction i)"
    using assms(9) i(7) by (simp_all add: at_stage_def)
  show ?thesis
    unfolding inspect_run_def st
    using f r i(1,2,5,9,10) assms(10) [OF i(8)] by (cases i) (simp add: Let_def)
qed

text \<open>The response read back from the last event of a run.\<close>

lemma response_read_back:
  assumes "distinct (map ev_id (in_events i))" and "e \<in> set (in_events i)" and "ev_id e = final_id"
    and "rn_final (in_reconstruction i) = Some final_id" and "ev_payload e = response_payload answer cits"
    and "ev_model e = Some (model_identity_of x)" and "valid_event C e" and "list_all valid_citation cits"
  shows "response_from_run i = Inr \<lparr> ch_session = in_session i, ch_run = in_run i,
      ch_task = rn_task (in_reconstruction i), ch_provider = projection_of x, ch_answer = answer,
      ch_citations = cits, ch_manifest = in_manifest i \<rparr>"
proof -
  have "find (\<lambda>e. ev_id e = final_id) (in_events i) = Some e" by (rule find_unique [OF assms(1-3)])
  moreover have "jget (response_payload answer cits) ''citations'' = Some (JSeq (map dump_citation cits))"
      "jget (response_payload answer cits) ''answer'' = Some (JStr answer)"
    by (simp_all add: response_payload_def)
  moreover have "valid_model_name (xi_model x)"
    using valid_eventD(1) [OF assms(7)] assms(6)
    by (simp add: event_fields_ok_def valid_model_identity_def valid_identity_text_def model_identity_of_def
        valid_model_name_def)
  ultimately show ?thesis
    using assms(4-6) parse_all_dump [OF assms(8)] parse_projection_of [of x]
    by (simp add: response_from_run_def model_identity_of_def)
qed

lemma run_events_distinct:
  assumes "codec_ok (rt_codec R)" and "log_ok (rt_codec R) (lg @ mine)"
    and "inspect_run R ws sid rid = Inr i" and "ws_ledger ws = log_rows (rt_codec R) lg" and "log_ok (rt_codec R) lg"
  shows "distinct (map ev_id (in_events i @ map fst mine))"
proof -
  from assms(3) obtain es where i: "stream (rt_codec R) (ws_ledger ws) sid = Inr es"
      "in_events i = filter (\<lambda>e. ev_run e = rid) es"
    by (rule inspect_run_Inr)
  then have es: "es = map fst (filter (\<lambda>(e, _). ev_session e = sid) lg)"
    using stream_log [OF assms(1,5)] assms(4) by simp
  have d: "distinct (map ev_id (map fst lg))" "distinct (map ev_id (map fst mine))"
      "set (map ev_id (map fst lg)) \<inter> set (map ev_id (map fst mine)) = {}"
    using assms(2) by (auto simp: log_ok_def comp_def)
  have "distinct (map ev_id (in_events i))"
    unfolding i(2) es using d(1) by (intro distinct_map_filterI) (simp add: distinct_map_filterI comp_def)
  moreover have "set (in_events i) \<subseteq> set (map fst lg)" unfolding i(2) es by auto
  ultimately show ?thesis using d(2,3) by auto
qed

text \<open>Later, for a run that is not the only one of its workspace.\<close>

definition later_desk :: "service \<Rightarrow> string \<Rightarrow> desk \<Rightarrow> desk \<Rightarrow> bool" where
  "later_desk S rid w w' \<longleftrightarrow>
     (\<exists>artifacts txs. desk_ledger w' = ledger_after (sv_codec S) artifacts (desk_ledger w) txs \<and>
        other_runs rid txs)"

lemma later_deskE:
  assumes "later_desk S rid w w'" and "codec_ok (sv_codec S)" and "log_ok (sv_codec S) lg"
    and "desk_ledger w = log_rows (sv_codec S) lg"
  obtains rest where "desk_ledger w' = log_rows (sv_codec S) (lg @ rest)"
    "log_ok (sv_codec S) (lg @ rest)" "run_free rid rest"
proof -
  obtain artifacts txs where "desk_ledger w' = ledger_after (sv_codec S) artifacts (desk_ledger w) txs"
      "other_runs rid txs"
    using assms(1) unfolding later_desk_def by blast
  then show thesis
    using ledger_after_log [OF assms(2,3), of rid txs artifacts] assms(4) that by auto
qed

lemma pending_request_stage:
  assumes "inspect_run R ws sid rid = Inr i" and "pending_request i request_event x = Inr t"
    and "ledger_ok (rt_codec R) (ws_ledger ws)"
  shows "at_stage (in_events i) ToolRequested (rn_context_ref (in_reconstruction i))
      (rn_task (in_reconstruction i)) (in_reconstruction i)"
    and "ev_id (last (in_events i)) = request_event"
    and "identity_of (hd (in_events i)) = (in_session i, in_run i, rn_task (in_reconstruction i))"
proof -
  from assms(1) obtain es where i: "in_session i = sid" "in_run i = rid"
      "stream (rt_codec R) (ws_ledger ws) sid = Inr es" "in_events i = filter (\<lambda>e. ev_run e = rid) es"
      "in_events i \<noteq> []" "reconstruct_run (in_events i) = Inr (in_reconstruction i)"
    by (rule inspect_run_Inr)
  have s: "rn_state (in_reconstruction i) = AwaitingApproval" "ev_id (last (in_events i)) = request_event"
    using assms(2) by (auto simp: pending_request_def Let_def split: if_splits)
  show "ev_id (last (in_events i)) = request_event" by (rule s(2))
  have "rn_steps (in_reconstruction i) \<noteq> []"
    using reconstruct_sound [OF i(6)] run_path_nonempty by force
  then have "state_after (rs_kind (last (rn_steps (in_reconstruction i)))) = AwaitingApproval"
    using reconstruct_last(1) [OF i(6)] s(1) by (simp add: last_map)
  then have "rs_kind (last (rn_steps (in_reconstruction i))) = ToolRequested"
    by (auto simp: state_after_def split: if_splits)
  then show "at_stage (in_events i) ToolRequested (rn_context_ref (in_reconstruction i))
      (rn_task (in_reconstruction i)) (in_reconstruction i)"
    using i(6) by (simp add: at_stage_def)
  have "hd (in_events i) \<in> set es" "ev_run (hd (in_events i)) = rid"
    using hd_in_set [OF i(5)] i(4) by auto
  moreover have "ev_session e = sid" if "e \<in> set es" for e
  proof -
    obtain lg where lg: "codec_ok (rt_codec R)" "log_ok (rt_codec R) lg" "ws_ledger ws = log_rows (rt_codec R) lg"
      using assms(3) by (rule ledger_okE)
    show ?thesis using i(3) that stream_log [OF lg(1,2)] lg(3) by auto
  qed
  ultimately show "identity_of (hd (in_events i)) = (in_session i, in_run i, rn_task (in_reconstruction i))"
    using i(1,2) reconstruct_first [OF i(6)] by (simp add: identity_of_def)
qed

section \<open>A decision repeated\<close>

lemma decision_entry_facts:
  assumes "decision_entry S i request_event d key who x t = (e, key)"
  shows "ev_session e = in_session i" "ev_run e = in_run i" "ev_id e = ds_id d"
    and "in_session j = in_session i \<Longrightarrow> in_run j = in_run i \<Longrightarrow> same_decision j request_event d e"
    and "ds_verdict d = DeniedVerdict \<Longrightarrow> jget (ev_payload e) ''operation'' = Some (JStr ''grant_denied'')"
  using assms by (auto simp: decision_entry_def same_decision_def decision_payload_def)

text \<open>A decision under a fresh key that returns began with its event, behind the pending request.\<close>

lemma decision_begun:
  assumes "ledger_ok (sv_codec S) (ws_ledger (dk_ws w))"
    and "get_by_idempotency (sv_codec S) (ws_ledger (dk_ws w)) key = Inr None"
    and "decide_file_read_request S P sid rid request_event d key who w = (Inr res, w')"
  obtains lg i t e w1 r where "codec_ok (sv_codec S)" "log_ok (sv_codec S) lg" "desk_ledger w = log_rows (sv_codec S) lg"
    "inspect_run (sv_runtime S) (dk_ws w) sid rid = Inr i" "in_session i = sid" "in_run i = rid"
    "decision_entry S i request_event d key who (pv_identity P) t = (e, key)"
    "ends_with (sv_codec S) w1 (lg @ [(e, key)]) (ds_id d)"
    "at_stage (in_events i @ [e]) (if ds_verdict d = ApprovedVerdict then GrantApproved else GrantDenied)
      (rn_context_ref (in_reconstruction i)) (rn_task (in_reconstruction i)) r"
    "rn_state r = (if ds_verdict d = ApprovedVerdict then InProgress else Failed)"
    "identity_of (hd (in_events i @ [e])) = (in_session i, in_run i, rn_task (in_reconstruction i))"
    "ds_verdict d = DeniedVerdict \<and> w' = w1 \<and> res = Refused sid rid request_event \<or>
     ds_verdict d = ApprovedVerdict \<and> execute_approved S i d key P who t w1 = (Inr res, w')"
proof -
  let ?x = "pv_identity P"
  obtain lg where lg: "codec_ok (sv_codec S)" "log_ok (sv_codec S) lg" "desk_ledger w = log_rows (sv_codec S) lg"
    using assms(1) unfolding desk_ledger_def by (rule ledger_okE)
  obtain i where i: "inspect_run (sv_runtime S) (dk_ws w) sid rid = Inr i"
      "decide_new S i request_event d key P who w = (Inr res, w')"
    using assms(2,3) by (auto simp: decide_file_read_request_def split: sum.splits)
  obtain sid_rid: "in_session i = sid" "in_run i = rid" using inspect_run_Inr [OF i(1)] by metis
  have "\<exists>t w1. pending_request i request_event ?x = Inr t \<and>
      record_decision S (decision_entry S i request_event d key who ?x t) w = (Inr (), w1) \<and>
      (ds_verdict d = DeniedVerdict \<and> w' = w1 \<and> res = Refused sid rid request_event \<or>
       ds_verdict d = ApprovedVerdict \<and> execute_approved S i d key P who t w1 = (Inr res, w'))"
    using i(2) by (cases rule: decide_new_cases) (use sid_rid in auto)
  then obtain t w1 where t: "pending_request i request_event ?x = Inr t"
      "record_decision S (decision_entry S i request_event d key who ?x t) w = (Inr (), w1)"
      "ds_verdict d = DeniedVerdict \<and> w' = w1 \<and> res = Refused sid rid request_event \<or>
       ds_verdict d = ApprovedVerdict \<and> execute_approved S i d key P who t w1 = (Inr res, w')" by blast
  note stage = pending_request_stage [OF i(1) t(1) assms(1)]
  obtain e where e: "decision_entry S i request_event d key who ?x t = (e, key)" by (simp add: decision_entry_def)
  have w1: "ends_with (sv_codec S) w1 (lg @ [(e, key)]) (ds_id d)"
    by (rule record_decision_ends [OF lg t(2) [unfolded e]])
      (use assms(2) e in \<open>auto simp: desk_ledger_def decision_entry_def\<close>)
  have "identity_of (hd (in_events i @ [e])) = (in_session i, in_run i, rn_task (in_reconstruction i))"
    using stage(1,3) by (cases "in_events i") (simp_all add: at_stage_def reconstruct_run_def)
  then show thesis
    using that [OF lg i(1) sid_rid e w1 _ _ _ t(3)]
      decision_stage [OF stage(1,3,2), where S = S and d = d and key = key and who = who and x = ?x and t = t] e
    by auto
qed

text \<open>What a repetition finds: the same run, with the events that the decision appended.\<close>

lemma decision_found:
  assumes "codec_ok (sv_codec S)" and "inspect_run (sv_runtime S) (dk_ws w) sid rid = Inr i"
    and "log_ok (sv_codec S) lg" and "desk_ledger w = log_rows (sv_codec S) lg"
    and "ends_with (sv_codec S) w' (lg @ (e, key) # mine) final" and "later_desk S rid w' w''"
    and "\<forall>(e, k)\<in>set ((e, key) # mine). ev_session e = sid \<and> ev_run e = rid"
    and "at_stage (in_events i @ map fst ((e, key) # mine)) k (rn_context_ref (in_reconstruction i))
      (rn_task (in_reconstruction i)) r"
    and "\<And>h c. get_artifact (c_sha (sv_codec S)) (ws_files (dk_ws w)) h = Inr c \<Longrightarrow>
      get_artifact (c_sha (sv_codec S)) (ws_files (dk_ws w'')) h = Inr c"
    and "sv_runtime S' = sv_runtime S"
  shows "decide_file_read_request S' P' sid rid request_event d key who' w'' =
    (replay_decision (i\<lparr>in_events := in_events i @ map fst ((e, key) # mine), in_reconstruction := r\<rparr>) request_event d e, w'')"
proof -
  let ?C = "sv_codec S"
  have w': "desk_ledger w' = log_rows ?C (lg @ (e, key) # mine)" "log_ok ?C (lg @ (e, key) # mine)"
    using assms(5) by (simp_all add: ends_with_def)
  obtain rest where rest: "desk_ledger w'' = log_rows ?C ((lg @ (e, key) # mine) @ rest)"
      "log_ok ?C ((lg @ (e, key) # mine) @ rest)" "run_free rid rest"
    by (rule later_deskE [OF assms(6,1) w'(2,1)])
  have j: "inspect_run (sv_runtime S) (dk_ws w'') sid rid =
      Inr (i\<lparr>in_events := in_events i @ map fst ((e, key) # mine), in_reconstruction := r\<rparr>)"
    using rest(1,2) assms(4,7)
    by (intro inspect_extended [OF assms(1,2) _ assms(3) _ _ _ rest(3) assms(8,9)]) (simp_all add: desk_ledger_def)
  have "ledger_lookup ?C (desk_ledger w'') key = Some e"
    using ledger_lookup_log [OF assms(1) rest(2)] rest(1) by simp
  then have "get_by_idempotency ?C (ws_ledger (dk_ws w'')) key = Inr (Some e)"
    by (simp add: ledger_lookup_def desk_ledger_def split: sum.splits)
  then show ?thesis using j assms(10) by (simp add: decide_file_read_request_def)
qed

lemma loop_entries_of_run:
  "\<forall>(e, k)\<in>set (loop_entries S i d key x t ob reference answer cits). ev_session e = in_session i \<and> ev_run e = in_run i"
  by (simp add: loop_entries_def claimed_entry_def observation_entry_def followup_entry_def answer_entries_def Let_def)

text \<open>The run of an approved decision, completed by the loop, is answered from its last event.\<close>

lemma answer_replayed:
  assumes "codec_ok (rt_codec R)" and "log_ok (rt_codec R) lg" and "ws_ledger ws = log_rows (rt_codec R) lg"
    and "inspect_run R ws sid rid = Inr i" and "decision_entry S i request_event d key who x t = (e, key)"
    and "mine = (e, key) # loop_entries S i d key x t ob reference answer cits"
    and "log_ok (rt_codec R) (lg @ mine)" and "list_all valid_citation cits"
    and "rn_state r = Completed" and "rn_final r = Some (decision_derived S d ''evt'' ''followup-response'')"
    and "rn_task r = rn_task (in_reconstruction i)"
  shows "replay_decision (i\<lparr>in_events := in_events i @ map fst mine, in_reconstruction := r\<rparr>) request_event d e =
    Inr (Continued \<lparr> ch_session = in_session i, ch_run = in_run i, ch_task = rn_task (in_reconstruction i),
      ch_provider = projection_of x, ch_answer = answer, ch_citations = cits, ch_manifest = in_manifest i \<rparr>)"
proof -
  let ?loop = "loop_entries S i d key x t ob reference answer cits"
  let ?j = "i\<lparr>in_events := in_events i @ map fst mine, in_reconstruction := r\<rparr>"
  let ?a = "fst (last ?loop)"
  have a: "?a \<in> set (map fst ?loop)" "ev_id ?a = decision_derived S d ''evt'' ''followup-response''"
      "ev_payload ?a = response_payload answer cits" "ev_model ?a = Some (model_identity_of x)"
    by (simp_all add: loop_entries_def answer_entries_def Let_def)
  have valid: "valid_event (rt_codec R) ?a" using assms(6,7) a(1) by (auto simp: log_ok_def)
  have "distinct (map ev_id (in_events i @ map fst mine))"
    by (rule run_events_distinct [OF assms(1,7,4,3,2)])
  then have "response_from_run ?j = Inr \<lparr> ch_session = in_session ?j, ch_run = in_run ?j,
      ch_task = rn_task (in_reconstruction ?j), ch_provider = projection_of x, ch_answer = answer,
      ch_citations = cits, ch_manifest = in_manifest ?j \<rparr>"
    using a assms(6,10) by (intro response_read_back [OF _ _ a(2) _ a(3,4) valid assms(8)]) simp_all
  moreover have "same_decision ?j request_event d e" by (rule decision_entry_facts(4) [OF assms(5)]) simp_all
  ultimately show ?thesis using assms(9,11) by (simp add: replay_decision_def)
qed

text \<open>
  C28: an answered decision is final: if a decision was recorded and answered (with the
  response of the second provider call, or as refused), then, whatever transactions of other
  runs followed and as long as the artifacts are kept, repeating it under the same key, with
  any clock, scopes, file system, provider and actor, returns the same answer and changes
  nothing: no event, no artifact, no grant, no file read and no provider call.
\<close>

theorem answered_decision_replays:
  assumes "ledger_ok (sv_codec S) (ws_ledger (dk_ws w))"
    and "get_by_idempotency (sv_codec S) (ws_ledger (dk_ws w)) key = Inr None"
    and "decide_file_read_request S P sid rid request_event d key who w = (Inr res, w')"
    and "later_desk S rid w' w''"
    and "\<And>h c. get_artifact (c_sha (sv_codec S)) (ws_files (dk_ws w)) h = Inr c \<Longrightarrow>
      get_artifact (c_sha (sv_codec S)) (ws_files (dk_ws w'')) h = Inr c"
    and "sv_runtime S' = sv_runtime S"
  shows "decide_file_read_request S' P' sid rid request_event d key who' w'' = (Inr res, w'')"
  using assms(1-3)
proof (rule decision_begun)
  fix lg i t e w1 r
  assume lg: "codec_ok (sv_codec S)" "log_ok (sv_codec S) lg" "desk_ledger w = log_rows (sv_codec S) lg"
    and i: "inspect_run (sv_runtime S) (dk_ws w) sid rid = Inr i" "in_session i = sid" "in_run i = rid"
    and e: "decision_entry S i request_event d key who (pv_identity P) t = (e, key)"
    and w1: "ends_with (sv_codec S) w1 (lg @ [(e, key)]) (ds_id d)"
    and stage: "at_stage (in_events i @ [e]) (if ds_verdict d = ApprovedVerdict then GrantApproved else GrantDenied)
      (rn_context_ref (in_reconstruction i)) (rn_task (in_reconstruction i)) r"
      "rn_state r = (if ds_verdict d = ApprovedVerdict then InProgress else Failed)"
      "identity_of (hd (in_events i @ [e])) = (in_session i, in_run i, rn_task (in_reconstruction i))"
    and outcome: "ds_verdict d = DeniedVerdict \<and> w' = w1 \<and> res = Refused sid rid request_event \<or>
     ds_verdict d = ApprovedVerdict \<and> execute_approved S i d key P who t w1 = (Inr res, w')"
  note facts = decision_entry_facts [OF e]
  note found = decision_found [OF lg(1) i(1) lg(2,3) _ assms(4) _ _ assms(5,6)]
  from outcome show ?thesis
  proof (elim disjE conjE)
    assume c: "ds_verdict d = DeniedVerdict" "w' = w1" "res = Refused sid rid request_event"
    have "replay_decision (i\<lparr>in_events := in_events i @ map fst [(e, key)], in_reconstruction := r\<rparr>) request_event d e = Inr res"
      using c stage(2) facts i(2,3) by (simp add: replay_decision_def)
    then show ?thesis using found [of e key "[]"] w1 c stage(1) facts i(2,3) by simp
  next
    assume c: "ds_verdict d = ApprovedVerdict" "execute_approved S i d key P who t w1 = (Inr res, w')"
    note approved = stage(1) [unfolded c(1), simplified]
    from lg(1) w1 c(2) show ?thesis
    proof (rule execute_approved_Inr)
      fix ob reference answer cits
      let ?loop = "loop_entries S i d key (pv_identity P) t ob reference answer cits"
      assume res: "res = Continued \<lparr> ch_session = in_session i, ch_run = in_run i,
            ch_task = rn_task (in_reconstruction i), ch_provider = projection_of (pv_identity P), ch_answer = answer,
            ch_citations = cits, ch_manifest = in_manifest i \<rparr>" "list_all valid_citation cits"
        and ends: "ends_with (sv_codec S) w' ((lg @ [(e, key)]) @ ?loop) (decision_derived S d ''evt'' ''followup-response'')"
      obtain r' where r': "at_stage ((in_events i @ [e]) @ map fst ?loop) FinalResponse
          (rn_context_ref (in_reconstruction i)) (rn_task (in_reconstruction i)) r'"
          "rn_state r' = Completed" "rn_final r' = Some (decision_derived S d ''evt'' ''followup-response'')"
        using loop_stage [OF approved stage(3), of d S key "pv_identity P" t ob reference answer cits] facts(3) by auto
      have "replay_decision (i\<lparr>in_events := in_events i @ map fst ((e, key) # ?loop), in_reconstruction := r'\<rparr>)
          request_event d e = Inr res"
        unfolding res(1)
        by (rule answer_replayed [OF lg(1,2) _ i(1) e refl _ res(2) r'(2,3)])
          (use lg(3) ends r'(1) in \<open>simp_all add: desk_ledger_def ends_with_def at_stage_def\<close>)
      then show ?thesis
        using found [of e key ?loop] ends r'(1) facts i(2,3) loop_entries_of_run [of S i d key] by fastforce
    qed
  qed
qed

end
