(* ===== verification/Decision_Samples.thy ===== *)
theory Decision_Samples
  imports Decision_Replay
begin

text \<open>
  A concrete tool request, approved and answered: the chat turn of \<open>Chat_Samples\<close> with a provider
  that asks to read a file, the human decision, the read, and the second call.
\<close>

definition tool_q :: tool_request where
  "tool_q = \<lparr> tq_scope = ''scope_docs'', tq_target = ''notes.md'', tq_max_bytes = 10 \<rparr>"

definition tool_provider :: provider where
  "tool_provider = fake_provider chat_codec (Some tool_q)"

lemma tool_provider_identity [simp]: "pv_identity tool_provider = pv_identity chat_provider"
  by (simp add: tool_provider_def chat_provider_def fake_provider_def)

definition desk_service :: service where
  "desk_service = \<lparr> sv_runtime = chat_runtime, sv_scopes = [''scope_docs''], sv_probe = (\<lambda>_ _. sample_probe),
     sv_dump = (\<lambda>_. ''hello''), sv_clock = (\<lambda>n. 100 + int n) \<rparr>"

definition verdict_q :: decision where
  "verdict_q = \<lparr> ds_id = sample_id ''evt'' (CHR ''2''), ds_verdict = ApprovedVerdict \<rparr>"

definition desk_key :: string where
  "desk_key = ''k2''"

definition read_ob :: observation where
  "read_ob = \<lparr> ob_grant = derived_id chat_sha (ds_id verdict_q) ''grt'' ''file-read-grant'',
     ob_scope = ''scope_docs'', ob_target = ''notes.md'', ob_byte_count = 2,
     ob_content_hash = digest_ref chat_sha ''hi'', ob_content = [104, 105],
     ob_trust = ExternalUntrusted, ob_network_used = False \<rparr>"

definition read_answer :: string where
  "read_answer = ''Grounded in approved memory with one external untrusted file observation.''"

text \<open>The run as it was inspected, whatever its events.\<close>

definition asked_run :: "inspection \<Rightarrow> bool" where
  "asked_run i \<longleftrightarrow> in_session i = cr_session chat_q \<and> in_run i = chat_run chat_runtime chat_q \<and>
     in_manifest i = chat_manifest \<and> rn_task (in_reconstruction i) = chat_task chat_runtime chat_q \<and>
     rn_context_ref (in_reconstruction i) = Some chat_reference"

definition asked :: "(event \<times> string) list" where
  "asked = outcome_entries chat_runtime 8 chat_q chat_key (pv_identity chat_provider)
     (chat_id_for ''chat-tool-request'') ToolCall
     (jobj [(''operation'', JStr ''tool_requested''), (''request'', dump_tool_request tool_q)]) '':tool:request''"

definition tool_event :: string where
  "tool_event = chat_id_for ''chat-tool-request''"

definition desk_id_for :: "string \<Rightarrow> string" where
  "desk_id_for purpose = derived_id chat_sha (ds_id verdict_q) ''evt'' purpose"

lemma desk_simps [simp]:
  "sv_runtime desk_service = chat_runtime" "sv_scopes desk_service = [''scope_docs'']"
  "sv_probe desk_service = (\<lambda>_ _. sample_probe)" "sv_dump desk_service ob = ''hello''"
  "sv_clock desk_service n = 100 + int n"
  "decision_derived desk_service verdict_q ''evt'' p = desk_id_for p" "ds_verdict verdict_q = ApprovedVerdict"
  by (simp_all add: desk_service_def decision_derived_def desk_id_for_def verdict_q_def)

lemma desk_id_tagged [simp]: "tagged_id ''evt'' (desk_id_for p)" "tagged_id ''evt'' (ds_id verdict_q)"
  by (simp_all add: desk_id_for_def derived_id_tagged verdict_q_def crockford_def)

text \<open>The entries of the decision and of what it causes.\<close>

definition desk_entries :: "inspection \<Rightarrow> (event \<times> string) list" where
  "desk_entries i = decision_entry desk_service i tool_event verdict_q desk_key ''human_local''
       (pv_identity chat_provider) tool_q #
     loop_entries desk_service i verdict_q desk_key (pv_identity chat_provider) tool_q read_ob chat_reference
       read_answer []"

lemma step_event_chat:
  assumes "asked_run i"
  shows "step_event desk_service i j who k t p parent tr refs m =
    chat_event chat_runtime chat_q j who k t p refs [parent] tr m"
  using assms by (simp add: step_event_def chat_event_def asked_run_def)

definition line_ids :: "string list" where
  "line_ids = [cr_id chat_q, chat_id_for ''chat-context-compiled'', chat_id_for ''chat-model-call-pending'',
     chat_id_for ''chat-model-call-succeeded'', tool_event, ds_id verdict_q, desk_id_for ''file-read-claimed'',
     desk_id_for ''file-read-observation'', desk_id_for ''followup-pending'',
     desk_id_for ''followup-succeeded'', desk_id_for ''followup-response'']"

lemma line_ids_distinct: "distinct line_ids"
proof -
  have l: "length (cr_id chat_q) = 30" "length (ds_id verdict_q) = 30"
    by (simp_all add: chat_q_def verdict_q_def sample_id_def)
  have n: "chat_id_for p \<noteq> cr_id chat_q" "chat_id_for p \<noteq> ds_id verdict_q"
      "desk_id_for p \<noteq> cr_id chat_q" "desk_id_for p \<noteq> ds_id verdict_q" for p
    using chat_id_fresh [of "CHR ''1''" "CHR ''1''"] chat_id_fresh [of "CHR ''2''" "CHR ''1''"]
      chat_id_fresh [of "CHR ''1''" "CHR ''2''"] chat_id_fresh [of "CHR ''2''" "CHR ''2''"]
    by (simp_all add: chat_id_for_def desk_id_for_def chat_q_def verdict_q_def)
  have "cr_id chat_q \<noteq> ds_id verdict_q" by (simp add: chat_q_def verdict_q_def)
  then show ?thesis
    using n chat_ids_differ [OF _ _ _ _ _ l(1) l(1)] chat_ids_differ [OF _ _ _ _ _ l(1) l(2)]
      chat_ids_differ [OF _ _ _ _ _ l(2) l(2)]
    by (simp add: line_ids_def tool_event_def chat_id_for_def desk_id_for_def not_sym)
qed

definition line :: "inspection \<Rightarrow> (event \<times> string) list" where
  "line i = chat_intent @ asked @ desk_entries i"

lemma line_simps:
  "map (ev_id \<circ> fst) (line i) = line_ids"
  "map snd (line i) = [''k1'', ''k1:context'', ''k1:model:pending'', ''k1:model:success'', ''k1:tool:request'',
     ''k2'', ''k2:claimed'', ''k2:observation'', ''k2:followup:pending'', ''k2:followup:success'',
     ''k2:followup:response'']"
  "chained (cr_id chat_q) (tl (line i))"
  by (simp_all add: line_def chat_intent_def prepare_entries_def asked_def outcome_entries_def Let_def desk_entries_def
      loop_entries_def decision_entry_def claimed_entry_def observation_entry_def followup_entry_def
      answer_entries_def line_ids_def claimed_id_def observation_id_def followup_id_def tool_event_def
      chat_key_def desk_key_def chat_event_def)

section \<open>The entries are accepted\<close>

lemma desk_lengths:
  "length (derived_id sha i t p) = length t + 27" "length (digest_ref chat_sha x) = 71"
  "length chat_reference = 71" "length tool_event = 30"
  by (simp_all add: derived_id_def derived_token_def Let_def crockford_loop_length digest_ref_def
      hexdigest_length chat_reference_def tool_event_def chat_id_for_def)

lemma asked_payload:
  "payload_bounded 0 (jobj [(''operation'', JStr ''tool_requested''), (''request'', dump_tool_request tool_q)])"
  by (simp add: jobj_def payload_key_def dump_tool_request_def tool_q_def max_interoperable_integer_def)

lemma desk_payloads:
  assumes "asked_run i"
  shows "payload_bounded 0 (decision_payload desk_service verdict_q tool_event (pv_identity chat_provider) tool_q)"
    and "payload_bounded 0 (response_payload read_answer [])"
    and "payload_bounded 0 (ev_payload (fst (claimed_entry desk_service i verdict_q desk_key tool_q)))"
    and "payload_bounded 0 (ev_payload (fst (observation_entry desk_service i verdict_q desk_key read_ob chat_reference)))"
    and "payload_bounded 0 (ev_payload (fst (followup_entry desk_service i verdict_q desk_key (pv_identity chat_provider) chat_reference)))"
proof -
  have m: "length (cm_id chat_manifest) = 30" by (simp add: chat_manifest_def desk_lengths)
  show "payload_bounded 0 (decision_payload desk_service verdict_q tool_event (pv_identity chat_provider) tool_q)"
    by (simp add: jobj_def payload_key_def decision_payload_def tool_q_def max_interoperable_integer_def
        chat_identity decision_derived_def desk_lengths)
  show "payload_bounded 0 (response_payload read_answer [])"
    by (simp add: jobj_def payload_key_def response_payload_def read_answer_def)
  show "payload_bounded 0 (ev_payload (fst (claimed_entry desk_service i verdict_q desk_key tool_q)))"
    by (simp add: claimed_entry_def jobj_def payload_key_def tool_q_def decision_derived_def desk_lengths)
  show "payload_bounded 0 (ev_payload (fst (observation_entry desk_service i verdict_q desk_key read_ob chat_reference)))"
    by (simp add: observation_entry_def jobj_def payload_key_def read_ob_def decision_derived_def desk_lengths
        max_interoperable_integer_def)
  show "payload_bounded 0 (ev_payload (fst (followup_entry desk_service i verdict_q desk_key (pv_identity chat_provider) chat_reference)))"
    using assms m by (simp add: followup_entry_def jobj_def payload_key_def provider_fields_def chat_identity
        asked_run_def context_ref_value_def desk_lengths)
qed

lemma desk_actors: "valid_actor tool_actor" "is_digest chat_reference"
  unfolding tool_actor_def by (code_simp, simp add: chat_reference_def digest_ref_is_digest)

lemma line_neq:
  "tool_event \<noteq> chat_id_for ''chat-model-call-succeeded''" "ds_id verdict_q \<noteq> tool_event"
  "desk_id_for ''file-read-claimed'' \<noteq> ds_id verdict_q"
  "desk_id_for ''file-read-observation'' \<noteq> desk_id_for ''file-read-claimed''"
  "desk_id_for ''followup-pending'' \<noteq> desk_id_for ''file-read-observation''"
  "desk_id_for ''followup-succeeded'' \<noteq> desk_id_for ''followup-pending''"
  "desk_id_for ''followup-response'' \<noteq> desk_id_for ''followup-succeeded''"
  using line_ids_distinct [unfolded line_ids_def] by auto

lemma desk_event_valid:
  assumes "asked_run i" and "p = jobj kvs" and "payload_bounded 0 p" and "j \<noteq> parent" and "tagged_id ''evt'' j"
    and "valid_actor who" and "tagged_id ''evt'' parent" and "list_all is_digest refs" and "distinct refs"
    and "tr \<in> set (allowed_trust (actor_kind who))" and "mo \<noteq> None \<longleftrightarrow> k = ModelCall \<or> actor_kind who = Model"
    and "mo = None \<or> mo = Some (model_identity_of (pv_identity chat_provider))"
  shows "valid_event chat_codec (step_event desk_service i j who k t p parent tr refs mo)"
  unfolding step_event_chat [OF assms(1)] assms(2)
  by (rule chat_event_valid) (use assms in simp_all)

lemma tool_event_tagged [simp]: "tagged_id ''evt'' tool_event"
  by (simp add: tool_event_def)

lemma asked_valid: "\<forall>(e, k)\<in>set asked. valid_event chat_codec e"
proof -
  have "asked ! 0 = chat_outcome ! 0" by (simp add: asked_def chat_outcome_def outcome_entries_def Let_def)
  then have 0: "valid_event chat_codec (fst (asked ! 0))"
    using chat_entries_valid(2) by (simp add: chat_outcome_def outcome_entries_def Let_def)
  have "valid_event chat_codec (chat_event chat_runtime chat_q (chat_id_for ''chat-tool-request'')
      \<lparr> actor_id = ''model_fake_deterministic_v1'', actor_kind = Model \<rparr> ToolCall 8
      (jobj [(''operation'', JStr ''tool_requested''), (''request'', dump_tool_request tool_q)]) []
      [chat_id_for ''chat-model-call-succeeded''] ModelGenerated
      (Some (model_identity_of (pv_identity chat_provider))))"
    by (rule chat_event_valid)
      (simp_all add: asked_payload chat_actors_valid line_neq(1) [unfolded tool_event_def])
  with 0 show ?thesis
    by (simp add: asked_def outcome_entries_def Let_def chat_identity)
qed

lemma decision_valid:
  assumes "asked_run i"
  shows "valid_event chat_codec (fst (decision_entry desk_service i tool_event verdict_q desk_key ''human_local''
    (pv_identity chat_provider) tool_q))"
  unfolding decision_entry_def fst_conv
  by (rule desk_event_valid [OF assms decision_payload_def desk_payloads(1) [OF assms]])
    (simp_all add: line_neq chat_actors_valid)

lemma claimed_valid:
  assumes "asked_run i"
  shows "valid_event chat_codec (fst (claimed_entry desk_service i verdict_q desk_key tool_q))"
  unfolding claimed_entry_def fst_conv claimed_id_def
  by (rule desk_event_valid [OF assms refl desk_payloads(3) [OF assms, unfolded claimed_entry_def fst_conv step_event_simps]])
    (simp_all add: line_neq desk_actors, simp_all add: tool_actor_def)

lemma observation_valid:
  assumes "asked_run i"
  shows "valid_event chat_codec (fst (observation_entry desk_service i verdict_q desk_key read_ob chat_reference))"
  unfolding observation_entry_def fst_conv claimed_id_def observation_id_def
  by (rule desk_event_valid [OF assms refl desk_payloads(4) [OF assms, unfolded observation_entry_def fst_conv step_event_simps]])
    (simp_all add: line_neq desk_actors, simp_all add: tool_actor_def)

lemma followup_valid:
  assumes "asked_run i"
  shows "valid_event chat_codec (fst (followup_entry desk_service i verdict_q desk_key (pv_identity chat_provider) chat_reference))"
  unfolding followup_entry_def fst_conv followup_id_def observation_id_def
  by (rule desk_event_valid [OF assms refl desk_payloads(5) [OF assms, unfolded followup_entry_def fst_conv step_event_simps]])
    (simp_all add: line_neq desk_actors chat_actors_valid, simp_all add: system_runtime_def)

lemma answer_valid:
  assumes "asked_run i"
  shows "\<forall>(e, k)\<in>set (answer_entries desk_service i verdict_q desk_key (pv_identity chat_provider) read_answer []).
    valid_event chat_codec e"
proof -
  have "valid_event chat_codec (step_event desk_service i (desk_id_for ''followup-succeeded'')
      \<lparr> actor_id = ''model_fake_deterministic_v1'', actor_kind = Model \<rparr> Outcome 105
      (jobj ((''operation'', JStr ''model_call_succeeded'') # provider_fields (pv_identity chat_provider)))
      (desk_id_for ''followup-pending'') ModelGenerated [] (Some (model_identity_of (pv_identity chat_provider))))"
    by (rule desk_event_valid [OF assms refl chat_payloads(4)]) (simp_all add: line_neq chat_actors_valid)
  moreover have "valid_event chat_codec (step_event desk_service i (desk_id_for ''followup-response'')
      \<lparr> actor_id = ''model_fake_deterministic_v1'', actor_kind = Model \<rparr> Message 105
      (response_payload read_answer []) (desk_id_for ''followup-succeeded'') ModelGenerated []
      (Some (model_identity_of (pv_identity chat_provider))))"
    by (rule desk_event_valid [OF assms response_payload_def desk_payloads(2) [OF assms]])
      (simp_all add: line_neq chat_actors_valid)
  ultimately show ?thesis
    by (simp add: answer_entries_def Let_def followup_id_def chat_identity)
qed

end
