(* ===== verification/Decision_Runs.thy ===== *)
theory Decision_Runs
  imports Decision_Samples
begin

text \<open>
  The concrete decision of \<open>Decision_Samples\<close> executed: the turn that asks for the file, its
  inspection, the approval, the read and the second answer.
\<close>

section \<open>Appending a line of events\<close>

text \<open>New entries, each behind the one before it, are appended one after the other.\<close>

lemma spec_append_line:
  assumes "\<forall>(e, k)\<in>set es. valid_event C e \<and> is_idempotency_key k \<and>
      unresolved_reference artifacts e = None \<and> association_review_key e = None"
    and "distinct (map snd (lg @ es))" and "distinct (map (ev_id \<circ> fst) (lg @ es))"
    and "chained p es" and "p \<in> set (map (ev_id \<circ> fst) lg)"
  shows "spec_append_loop C artifacts lg es = Inr (lg @ es, map (ev_id \<circ> fst) es)"
  using assms
proof (induction es arbitrary: lg p)
  case Nil
  then show ?case by simp
next
  case (Cons x es)
  obtain e k where x: "x = (e, k)" by (cases x)
  have "spec_append_one C artifacts lg e k = Inr (lg @ [(e, k)], ev_id e)"
    by (rule spec_append_new) (use Cons.prems x in auto)
  moreover have "spec_append_loop C artifacts (lg @ [(e, k)]) es =
      Inr ((lg @ [(e, k)]) @ es, map (ev_id \<circ> fst) es)"
    by (rule Cons.IH [of _ "ev_id e"]) (use Cons.prems x in simp_all)
  ultimately show ?case by (simp add: x)
qed

lemma artifact_references [simp]:
  "artifact_verified chat_runtime chat_files chat_reference"
  by (rule chat_reference_verified)

definition entry_ok :: "event \<times> string \<Rightarrow> bool" where
  "entry_ok x \<longleftrightarrow> valid_event chat_codec (fst x) \<and> is_idempotency_key (snd x) \<and>
     unresolved_reference (Some (artifact_verified chat_runtime chat_files)) (fst x) = None \<and>
     association_review_key (fst x) = None"

lemma line_keys: "list_all is_idempotency_key [''k1'', ''k1:context'', ''k1:model:pending'', ''k1:model:success'',
    ''k1:tool:request'', ''k2'', ''k2:claimed'', ''k2:observation'', ''k2:followup:pending'',
    ''k2:followup:success'', ''k2:followup:response'']"
  by code_simp

lemma asked_references:
  "\<forall>x\<in>set asked. unresolved_reference (Some (artifact_verified chat_runtime chat_files)) (fst x) = None \<and>
     association_review_key (fst x) = None"
  by (simp add: asked_def outcome_entries_def Let_def chat_event_def unresolved_reference_def
      association_review_key_def)

lemma desk_references:
  "\<forall>x\<in>set (desk_entries i). unresolved_reference (Some (artifact_verified chat_runtime chat_files)) (fst x) = None \<and>
     association_review_key (fst x) = None"
  by (simp add: desk_entries_def loop_entries_def decision_entry_def claimed_entry_def observation_entry_def
      followup_entry_def answer_entries_def Let_def step_event_def unresolved_reference_def
      association_review_key_def decision_payload_def response_payload_def)

lemma intent_accepted: "\<forall>x\<in>set chat_intent. entry_ok x"
  unfolding entry_ok_def chat_entries using line_keys by (simp add: chat_e_accepted)

lemma asked_accepted: "\<forall>x\<in>set asked. entry_ok x"
proof -
  have "list_all is_idempotency_key (map snd asked)"
    using line_keys by (simp add: asked_def outcome_entries_def Let_def chat_key_def)
  then show ?thesis
    using asked_valid asked_references unfolding entry_ok_def list_all_iff by (auto simp: case_prod_unfold)
qed

lemma desk_accepted:
  assumes "asked_run i"
  shows "\<forall>x\<in>set (desk_entries i). entry_ok x"
proof -
  have "list_all is_idempotency_key (map snd (desk_entries i))"
    using line_keys by (simp add: desk_entries_def loop_entries_def decision_entry_def claimed_entry_def
        observation_entry_def followup_entry_def answer_entries_def Let_def desk_key_def)
  moreover have "\<forall>x\<in>set (desk_entries i). valid_event chat_codec (fst x)"
    using decision_valid [OF assms] claimed_valid [OF assms] observation_valid [OF assms]
      followup_valid [OF assms] answer_valid [OF assms]
    by (simp add: desk_entries_def loop_entries_def case_prod_unfold)
  ultimately show ?thesis using desk_references [of i] unfolding entry_ok_def list_all_iff by simp
qed

lemma line_accepted: "asked_run i \<Longrightarrow> \<forall>x\<in>set (line i). entry_ok x"
  using intent_accepted asked_accepted desk_accepted unfolding line_def by (simp add: ball_Un)

lemma chained_behind:
  "chained p (xs @ ys) \<Longrightarrow> \<exists>q\<in>insert p (set (map (ev_id \<circ> fst) xs)). chained q ys"
  by (induction xs arbitrary: p) fastforce+

text \<open>A part of the line, appended where the line stands.\<close>

lemma append_part:
  assumes "asked_run i" and "line i = lg @ es @ rest" and "lg \<noteq> []"
  shows "spec_append_loop chat_codec (Some (artifact_verified chat_runtime chat_files)) lg es =
    Inr (lg @ es, map (ev_id \<circ> fst) es)"
proof -
  obtain x xs where lg: "lg = x # xs" using assms(3) by (cases lg) auto
  have "line i = hd chat_intent # tl (line i)" by (simp add: line_def chat_entries)
  then have x: "ev_id (fst x) = cr_id chat_q" "tl (line i) = xs @ es @ rest"
    using assms(2) lg by (auto simp: chat_entries)
  from line_simps(3) [of i] have "chained (cr_id chat_q) (xs @ es @ rest)" unfolding x(2) .
  from chained_behind [OF this] obtain q where q:
    "q \<in> insert (cr_id chat_q) (set (map (ev_id \<circ> fst) xs))" "chained q (es @ rest)" by blast
  have c: "chained q es" using q(2) by (induction es arbitrary: q) auto
  have "\<forall>x\<in>set (lg @ es @ rest). entry_ok x" using line_accepted [OF assms(1)] assms(2) by simp
  then have a: "\<forall>(e, k)\<in>set es. valid_event chat_codec e \<and> is_idempotency_key k \<and>
      unresolved_reference (Some (artifact_verified chat_runtime chat_files)) e = None \<and>
      association_review_key e = None"
    by (simp add: entry_ok_def case_prod_unfold)
  have "distinct (map snd (line i))" unfolding line_simps(2) by simp
  then have k: "distinct (map snd (lg @ es))" unfolding assms(2) by auto
  have "distinct (map (ev_id \<circ> fst) (line i))" unfolding line_simps(1) by (rule line_ids_distinct)
  then have d: "distinct (map (ev_id \<circ> fst) (lg @ es))" unfolding assms(2) by auto
  have "q \<in> set (map (ev_id \<circ> fst) lg)" using q(1) x(1) lg by simp
  from spec_append_line [OF a k d c this] show ?thesis .
qed

definition at_line :: "inspection \<Rightarrow> event_log \<Rightarrow> desk \<Rightarrow> bool" where
  "at_line i lg w \<longleftrightarrow> desk_ledger w = log_rows chat_codec lg \<and> log_ok chat_codec lg \<and>
     ws_files (dk_ws w) = chat_files \<and> lg \<noteq> [] \<and> (\<exists>rest. line i = lg @ rest)"

definition with_ledger :: "desk \<Rightarrow> event_log \<Rightarrow> desk" where
  "with_ledger w lg = w\<lparr>dk_ws := (dk_ws w)\<lparr>ws_ledger := log_rows chat_codec lg\<rparr>\<rparr>"

lemma with_ledger_simps [simp]:
  "dk_grants (with_ledger w lg) = dk_grants w" "dk_reads (with_ledger w lg) = dk_reads w"
  "desk_ledger (with_ledger w lg) = log_rows chat_codec lg"
  "ws_ledger (dk_ws (with_ledger w lg)) = log_rows chat_codec lg"
  "ws_memory (dk_ws (with_ledger w lg)) = ws_memory (dk_ws w)"
  "ws_calls (dk_ws (with_ledger w lg)) = ws_calls (dk_ws w)"
  "ws_files (dk_ws (with_ledger w lg)) = ws_files (dk_ws w)"
  by (simp_all add: with_ledger_def desk_ledger_def)

lemma build_accepted:
  assumes "\<forall>x\<in>set es. entry_ok x"
  shows "build_entries chat_runtime es = Inr es"
proof -
  have "\<forall>(e, k)\<in>set es. valid_event chat_codec e" using assms by (simp add: entry_ok_def case_prod_unfold)
  then show ?thesis
    by (induction es) (auto simp: build_entries_def valid_event_def result_simps)
qed

lemma record_part:
  assumes "asked_run i" and "at_line i lg w" and "line i = lg @ es @ rest"
  shows "record_entries desk_service es w = (Inr (), with_ledger w (lg @ es)) \<and> at_line i (lg @ es) (with_ledger w (lg @ es))"
proof -
  let ?A = "Some (artifact_verified chat_runtime chat_files)"
  have w: "desk_ledger w = log_rows chat_codec lg" "log_ok chat_codec lg" "ws_files (dk_ws w) = chat_files" "lg \<noteq> []"
    using assms(2) by (simp_all add: at_line_def)
  note a = append_part [OF assms(1,3) w(4)]
  have "build_entries chat_runtime es = Inr es"
    using line_accepted [OF assms(1)] assms(3) by (intro build_accepted) simp
  moreover have "append_many chat_codec ?A (log_rows chat_codec lg) es =
      (Inr (map (ev_id \<circ> fst) es), log_rows chat_codec (lg @ es))"
    using append_loop_refines [OF chat_codec_ok w(2)] a by (simp add: append_many_def)
  ultimately have "record_entries desk_service es w = (Inr (), with_ledger w (lg @ es))"
    using w(1,3) by (simp add: record_entries_def with_ledger_def desk_ledger_def)
  moreover have "log_ok chat_codec (lg @ es)" using spec_append_loop_ok [OF w(2) a] by simp
  ultimately show ?thesis using w assms(3) by (simp add: at_line_def)
qed

section \<open>The turn that asks for a file\<close>

lemma intent_line: "line i = [] @ chat_intent @ (asked @ desk_entries i)" "line i = chat_intent @ asked @ desk_entries i"
  by (simp_all add: line_def)

lemma asked_appended:
  "spec_append_loop chat_codec (Some (artifact_verified chat_runtime chat_files)) chat_intent asked =
    Inr (chat_intent @ asked, map (ev_id \<circ> fst) asked)"
proof -
  let ?i = "\<lparr> in_session = cr_session chat_q, in_run = chat_run chat_runtime chat_q, in_events = [],
      in_manifest = chat_manifest, in_reconstruction = undefined\<lparr>rn_task := chat_task chat_runtime chat_q,
        rn_context_ref := Some chat_reference\<rparr> \<rparr>"
  have "asked_run ?i" by (simp add: asked_run_def)
  then show ?thesis by (rule append_part [OF _ intent_line(2)]) (simp add: chat_entries)
qed

lemma asked_log: "log_ok chat_codec (chat_intent @ asked)"
proof -
  have "log_ok chat_codec []" by (simp add: log_ok_def causal_order_def)
  then have "log_ok chat_codec chat_intent" using spec_append_loop_ok [OF _ chat_intent_appended] by blast
  then show ?thesis using spec_append_loop_ok [OF _ asked_appended] by blast
qed

definition asked_ws :: workspace where
  "asked_ws = chat_called\<lparr>ws_ledger := log_rows chat_codec (chat_intent @ asked)\<rparr>"

lemma asked_commit: "commit chat_runtime chat_called asked = (Inr (), asked_ws)"
proof -
  have "log_ok chat_codec []" by (simp add: log_ok_def causal_order_def)
  then have "log_ok chat_codec chat_intent" using spec_append_loop_ok [OF _ chat_intent_appended] by blast
  from append_loop_refines [OF chat_codec_ok this] asked_appended show ?thesis
    using build_accepted [OF asked_accepted]
    by (simp add: commit_def append_entries_def append_many_def chat_called_def chat_prepared_def
        chat_start_def asked_ws_def)
qed

lemma asked_turn:
  "\<exists>r. create_chat_message chat_runtime 7 8 chat_start chat_q chat_key tool_provider ''human_local'' =
     (Inr (AwaitingTool r), asked_ws)"
proof -
  have "prepare_chat chat_runtime 7 chat_start chat_q chat_key tool_provider ''human_local'' =
      (Inr \<lparr> pp_manifest = chat_manifest, pp_selected = [], pp_citations = [] \<rparr>, chat_prepared)"
    using chat_prepared_by unfolding prepare_chat_def tool_provider_identity .
  moreover have "pv_generate tool_provider (cr_message chat_q) chat_manifest [] None = Inr (ToolRequestResult tool_q)"
    by (simp add: tool_provider_def fake_provider_def fake_generate_def)
  moreover have "chat_prepared\<lparr>ws_calls := ws_calls chat_prepared @ [cr_id chat_q]\<rparr> = chat_called"
    by (simp add: chat_called_def chat_prepared_def chat_start_def)
  moreover have "outcome_entries chat_runtime 8 chat_q chat_key (pv_identity chat_provider)
      (chat_id chat_runtime chat_q ''evt'' ''chat-tool-request'') ToolCall
      (jobj [(''operation'', JStr ''tool_requested''), (''request'', dump_tool_request tool_q)]) '':tool:request'' = asked"
    by (simp add: asked_def)
  ultimately show ?thesis
    using chat_key_free asked_commit
    by (simp add: create_chat_message_def dispatch_chat_def finish_chat_def Let_def)
qed

lemma asked_reconstruction:
  "\<exists>rec. reconstruct_run (map fst (prepare_entries R now q key x who m ref @
        outcome_entries R later q key x i ToolCall
          (jobj [(''operation'', JStr ''tool_requested''), (''request'', v)]) suffix)) = Inr rec \<and>
     rn_state rec = AwaitingApproval \<and> rn_context_ref rec = Some ref \<and> rn_task rec = chat_task R q"
  by (simp add: prepare_entries_def outcome_entries_def Let_def reconstruct_run_def run_round_def
      legacy_call_def guard_simps state_after_def identity_of_def request_payload_def
      context_payload_def call_payload_def response_payload_def
      operation_jobj [of _ RequestRecorded, simplified]
      operation_jobj [of _ ContextCompiled, simplified]
      operation_jobj [of _ ModelCallPending, simplified]
      operation_jobj [of _ ModelCallSucceeded, simplified]
      operation_jobj [of _ ToolRequested, simplified])

lemma asked_inspection:
  obtains i where "asked_run i" "inspect_run chat_runtime asked_ws (cr_session chat_q) (chat_run chat_runtime chat_q) = Inr i"
    "in_events i = map fst (chat_intent @ asked)" "rn_state (in_reconstruction i) = AwaitingApproval"
proof -
  obtain rec where rec: "reconstruct_run (map fst (chat_intent @ asked)) = Inr rec" "rn_state rec = AwaitingApproval"
      "rn_context_ref rec = Some chat_reference" "rn_task rec = chat_task chat_runtime chat_q"
    using asked_reconstruction unfolding chat_intent_def asked_def by metis
  have q: "of_request chat_runtime chat_q (chat_intent @ asked)"
    using prepare_entries_of_request outcome_entries_of_request
    unfolding chat_intent_def asked_def of_request_def by (simp add: ball_Un)
  have "inspect_run chat_runtime asked_ws (cr_session chat_q) (chat_run chat_runtime chat_q) =
      Inr \<lparr> in_session = cr_session chat_q, in_run = chat_run chat_runtime chat_q,
        in_events = map fst (chat_intent @ asked), in_manifest = chat_manifest, in_reconstruction = rec \<rparr>"
  proof (rule inspect_of_request [where lg = "[]" and rest = "[]", OF _ _ _ q _ _ _ rec(1,3)])
    show "get_artifact (c_sha (rt_codec chat_runtime)) (ws_files asked_ws) chat_reference = Inr ''hello''"
      using chat_files_read by (simp add: asked_ws_def chat_called_def chat_prepared_def chat_reference_def)
  qed (use asked_log in \<open>simp_all add: asked_ws_def chat_entries rec(4)
      chat_manifest_def chat_task_def chat_id_def\<close>)
  then show thesis
    by (rule that [rotated]) (simp_all add: asked_run_def rec)
qed

section \<open>The decision\<close>

definition desk_start :: desk where
  "desk_start = \<lparr> dk_ws = asked_ws, dk_grants = [], dk_reads = [] \<rparr>"

definition q_identity :: execution_identity where
  "q_identity = pv_identity chat_provider"

definition q_grant :: grant where
  "q_grant = grant_for desk_service verdict_q ''human_local'' q_identity tool_q"

lemma tool_q_valid: "valid_tool_request tool_q"
  unfolding tool_q_def by code_simp

lemma q_grant_valid: "valid_grant q_grant"
proof -
  have "is_actor_id ''model_fake_deterministic_v1''" "is_actor_id ''human_local''"
    "valid_resource ''scope_docs'' ''notes.md''" "valid_constraints 10 [path_suffix ''notes.md''] False"
    by code_simp+
  then show ?thesis
    by (simp add: valid_grant_def q_grant_def grant_for_def decision_derived_def derived_id_tagged tool_q_def
        q_identity_def chat_identity)
qed

lemma pending_q:
  assumes "in_events i = map fst (chat_intent @ asked)" and "rn_state (in_reconstruction i) = AwaitingApproval"
  shows "pending_request i tool_event q_identity = Inr tool_q"
proof -
  have "last (in_events i) = fst (last asked)"
    unfolding assms(1) by (simp add: asked_def outcome_entries_def Let_def)
  then have l: "ev_id (last (in_events i)) = tool_event" "ev_actor (last (in_events i)) = \<lparr> actor_id = xi_actor q_identity, actor_kind = Model \<rparr>"
      "ev_model (last (in_events i)) = Some (model_identity_of q_identity)"
      "jget (ev_payload (last (in_events i))) ''request'' = Some (dump_tool_request tool_q)"
    by (simp_all add: asked_def outcome_entries_def Let_def tool_event_def chat_event_def q_identity_def)
  obtain kvs where k: "dump_tool_request tool_q = JMap kvs" by (simp add: dump_tool_request_def jobj_def)
  then have "parse_tool_request (JMap kvs) = Some tool_q"
    using parse_dump_tool_request [OF tool_q_valid] by simp
  then show ?thesis using l k assms(2) by (simp add: pending_request_def)
qed

definition line_upto :: "nat \<Rightarrow> inspection \<Rightarrow> event_log" where
  "line_upto n i = chat_intent @ asked @ take n (desk_entries i)"

lemma line_upto_step:
  assumes "asked_run i" and "at_line i (line_upto n i) w" and "take (m - n) (drop n (desk_entries i)) = es" and "n \<le> m"
  shows "record_entries desk_service es w = (Inr (), with_ledger w (line_upto m i)) \<and>
    at_line i (line_upto m i) (with_ledger w (line_upto m i))"
proof -
  have "take n (desk_entries i) @ es = take m (desk_entries i)"
    using assms(3,4) take_add [of n "m - n" "desk_entries i"] by simp
  then have "line_upto n i @ es = line_upto m i" by (simp add: line_upto_def)
  moreover have "line i = line_upto n i @ es @ drop m (desk_entries i)"
    unfolding append_assoc [symmetric] calculation by (simp add: line_def line_upto_def)
  ultimately show ?thesis using record_part [OF assms(1,2)] by metis
qed

lemma entries_of_line:
  "take (1 - 0) (drop 0 (desk_entries i)) = [decision_entry desk_service i tool_event verdict_q desk_key
     ''human_local'' q_identity tool_q]"
  "take (2 - 1) (drop 1 (desk_entries i)) = [claimed_entry desk_service i verdict_q desk_key tool_q]"
  "take (3 - 2) (drop 2 (desk_entries i)) = [observation_entry desk_service i verdict_q desk_key read_ob chat_reference]"
  "take (4 - 3) (drop 3 (desk_entries i)) = [followup_entry desk_service i verdict_q desk_key q_identity chat_reference]"
  "take (6 - 4) (drop 4 (desk_entries i)) = answer_entries desk_service i verdict_q desk_key q_identity read_answer []"
proof -
  let ?answer = "answer_entries desk_service i verdict_q desk_key q_identity read_answer []"
  have "length ?answer = 2" by (simp add: answer_entries_def Let_def)
  then have a: "take 2 ?answer = ?answer" by simp
  have d: "desk_entries i = [decision_entry desk_service i tool_event verdict_q desk_key ''human_local'' q_identity tool_q,
      claimed_entry desk_service i verdict_q desk_key tool_q,
      observation_entry desk_service i verdict_q desk_key read_ob chat_reference,
      followup_entry desk_service i verdict_q desk_key q_identity chat_reference] @ ?answer"
    by (simp add: desk_entries_def loop_entries_def q_identity_def)
  show "take (1 - 0) (drop 0 (desk_entries i)) = [decision_entry desk_service i tool_event verdict_q desk_key
     ''human_local'' q_identity tool_q]"
    "take (2 - 1) (drop 1 (desk_entries i)) = [claimed_entry desk_service i verdict_q desk_key tool_q]"
    "take (3 - 2) (drop 2 (desk_entries i)) = [observation_entry desk_service i verdict_q desk_key read_ob chat_reference]"
    "take (4 - 3) (drop 3 (desk_entries i)) = [followup_entry desk_service i verdict_q desk_key q_identity chat_reference]"
    "take (6 - 4) (drop 4 (desk_entries i)) = ?answer"
    unfolding d using a by simp_all
qed

lemma start_at_line: "at_line i (line_upto 0 i) desk_start"
proof -
  have z: "line_upto 0 i = chat_intent @ asked" by (simp add: line_upto_def)
  have "chat_intent @ asked \<noteq> []" by (simp add: chat_entries)
  moreover have "desk_ledger desk_start = log_rows chat_codec (chat_intent @ asked)"
    by (simp add: desk_start_def desk_ledger_def asked_ws_def)
  moreover have "ws_files (dk_ws desk_start) = chat_files"
    by (simp add: desk_start_def asked_ws_def chat_called_def chat_prepared_def)
  moreover have "\<exists>rest. line i = (chat_intent @ asked) @ rest"
    unfolding line_def append_assoc by blast
  ultimately show ?thesis
    using asked_log unfolding at_line_def z by blast
qed

definition q_rows :: "grant_row list" where
  "q_rows = [\<lparr> gr_id = g_id q_grant, gr_document = Some q_grant, gr_consumed = None \<rparr>]"

lemma log_ok_distinct: "log_ok C lg \<Longrightarrow> distinct (map ev_id (map fst lg))"
  by (simp add: log_ok_def comp_def)

lemma q_registered:
  assumes "asked_run i" and "at_line i (line_upto 1 i) w" and "dk_grants w = []"
  shows "register_step desk_service i verdict_q desk_key q_grant w = (Inr (), w\<lparr>dk_grants := q_rows\<rparr>)"
proof -
  obtain e where e: "decision_entry desk_service i tool_event verdict_q desk_key ''human_local'' q_identity tool_q =
      (e, desk_key)" by (simp add: decision_entry_def)
  then have id: "ev_id e = ds_id verdict_q" by (auto simp: decision_entry_def)
  have "take 1 (desk_entries i) = [(e, desk_key)]"
    using entries_of_line(1) [of i] unfolding e diff_zero drop_0 .
  then have lg: "line_upto 1 i = (chat_intent @ asked) @ [(e, desk_key)]"
    by (simp only: line_upto_def append_assoc)
  have w: "ws_ledger (dk_ws w) = log_rows chat_codec (line_upto 1 i)" "log_ok chat_codec (line_upto 1 i)"
    using assms(2) by (simp_all add: at_line_def desk_ledger_def)
  have d: "distinct (map ev_id (map fst (line_upto 1 i)))" by (rule log_ok_distinct [OF w(2)])
  have "find (\<lambda>e. ev_id e = ds_id verdict_q) (map fst (line_upto 1 i)) = Some e"
  proof (rule find_unique [OF d _ id])
    show "e \<in> set (map fst (line_upto 1 i))" unfolding lg map_append set_append list.map fst_conv by (rule UnI2, rule list.set_intros)
  qed
  then have "get_event chat_codec (ws_ledger (dk_ws w)) (g_authorization q_grant) = Inr (Some e)"
    unfolding w(1) get_event_log [OF chat_codec_ok w(2)] by (simp add: q_grant_def grant_for_def)
  moreover have "authorizes e q_grant"
    using e by (auto simp: authorizes_def decision_entry_def step_event_def q_grant_def grant_for_def decision_payload_def)
  ultimately show ?thesis
    using assms(3) by (simp add: register_step_def register_grant_def q_rows_def q_grant_def grant_for_def tool_q_def)
qed

definition q_consumed :: "grant_row list" where
  "q_consumed = [\<lparr> gr_id = g_id q_grant, gr_document = Some q_grant, gr_consumed = Some 102 \<rparr>]"

lemma q_read:
  assumes "dk_grants w = q_rows"
  shows "read_step desk_service i verdict_q desk_key q_identity w =
    (Inr read_ob, w\<lparr>dk_grants := q_consumed, dk_reads := dk_reads w @ [ds_id verdict_q]\<rparr>)"
proof -
  have "casefold (path_suffix ''notes.md'') = casefold ''.md''" "path_suffix ''notes.md'' = ''.md''" by code_simp+
  then have c: "claim_grant [''scope_docs''] q_rows (g_id q_grant) (xi_actor q_identity) (Some 102) = (Inr q_grant, q_consumed)"
    by (simp add: claim_grant_def q_rows_def claim_checks_def q_grant_def grant_for_def tool_q_def q_consumed_def
        consume_def)
  have "decode_utf8 (byte_values ''hi'') = Some [104, 105]" by code_simp
  then have "read_file chat_sha sample_probe q_grant = Inr read_ob"
    by (simp add: read_file_def sample_probe_def q_grant_def grant_for_def is_below_def Let_def tool_q_def
        read_ob_def decision_derived_def numeral_eq_Suc)
  then show ?thesis
    using c assms by (simp add: read_step_def execute_file_read_def q_grant_def grant_for_def Let_def)
qed

lemma q_stored:
  assumes "ws_files (dk_ws w) = chat_files"
  shows "store_observation desk_service read_ob w = (Inr chat_reference, w)"
proof -
  have "put_artifact chat_sha ''r'' (\<lambda>g. g) chat_files (Bytes ''hello'') = (Inr chat_reference, chat_files)"
    using chat_files_read unfolding put_artifact_def chat_files_def chat_reference_def
    by (simp add: Let_def reject_path_escape_def make_directory_def shard_path_def
        object_path_def chat_hex fun_eq_iff numeral_eq_Suc digest_ref_def)
  then show ?thesis using assms by (simp add: store_observation_def)
qed

lemma at_line_cong:
  "at_line i lg w \<Longrightarrow> desk_ledger w' = desk_ledger w \<Longrightarrow> ws_files (dk_ws w') = ws_files (dk_ws w) \<Longrightarrow> at_line i lg w'"
  by (simp add: at_line_def)

lemma q_message:
  assumes "in_events i = map fst (chat_intent @ asked)"
  shows "original_message i = Inr ''hi''"
proof -
  have "hd (in_events i) = fst (hd chat_intent)" unfolding assms by (simp add: chat_entries)
  then have "ev_payload (hd (in_events i)) = request_payload chat_q"
    by (simp add: chat_intent_def prepare_entries_def Let_def chat_event_def)
  then show ?thesis by (simp add: original_message_def request_payload_def chat_q_def)
qed

definition q_answer :: chat_response where
  "q_answer = \<lparr> ch_session = cr_session chat_q, ch_run = chat_run chat_runtime chat_q,
     ch_task = chat_task chat_runtime chat_q, ch_provider = projection_of q_identity,
     ch_answer = read_answer, ch_citations = [], ch_manifest = chat_manifest \<rparr>"

lemma q_followup:
  assumes "asked_run i" and "in_events i = map fst (chat_intent @ asked)" and "at_line i (line_upto 3 i) w"
  shows "\<exists>w'. followup desk_service i verdict_q desk_key tool_provider read_ob chat_reference w =
    (Inr (Continued q_answer), w') \<and> dk_reads w' = dk_reads w"
proof -
  have x: "pv_identity tool_provider = q_identity" by (simp add: q_identity_def)
  have m: "cm_items (in_manifest i) = []" using assms(1) by (simp add: asked_run_def chat_manifest_def)
  let ?w4 = "with_ledger w (line_upto 4 i)"
  let ?w5 = "?w4\<lparr>dk_ws := (dk_ws ?w4)\<lparr>ws_calls := ws_calls (dk_ws ?w4) @ [ds_id verdict_q]\<rparr>\<rparr>"
  have s4: "record_entries desk_service [followup_entry desk_service i verdict_q desk_key q_identity chat_reference] w = (Inr (), ?w4)"
      "at_line i (line_upto 4 i) ?w4"
    using line_upto_step [OF assms(1,3) entries_of_line(4)] by simp_all
  have "pv_generate tool_provider ''hi'' (in_manifest i) [] (Some read_ob) = Inr (FinalAnswer read_answer)"
    by (simp add: tool_provider_def fake_provider_def fake_generate_def read_answer_def)
  then have s5: "call_step desk_service i verdict_q desk_key tool_provider ''hi'' [] read_ob ?w4 = (Inr read_answer, ?w5)"
    by (simp add: call_step_def Let_def)
  have "at_line i (line_upto 4 i) ?w5"
    by (rule at_line_cong [OF s4(2)]) (simp_all add: desk_ledger_def)
  then have s6: "record_entries desk_service (answer_entries desk_service i verdict_q desk_key q_identity read_answer []) ?w5 =
      (Inr (), with_ledger ?w5 (line_upto 6 i))"
    using line_upto_step [OF assms(1) _ entries_of_line(5)] by simp
  have "followup desk_service i verdict_q desk_key tool_provider read_ob chat_reference w =
      (Inr (Continued q_answer), with_ledger ?w5 (line_upto 6 i))"
    unfolding followup_def x Let_def m load_records.simps bound_citations.simps q_message [OF assms(2)] action_simps
    using s4(1) s5 s6 assms(1)
    by (simp add: and_then_def give_def q_answer_def asked_run_def)
  then show ?thesis by simp
qed

lemma q_decided:
  assumes "asked_run i" and "in_events i = map fst (chat_intent @ asked)"
    and "rn_state (in_reconstruction i) = AwaitingApproval"
  shows "\<exists>w'. decide_new desk_service i tool_event verdict_q desk_key tool_provider ''human_local'' desk_start =
    (Inr (Continued q_answer), w') \<and> dk_reads w' = [ds_id verdict_q]"
proof -
  have x: "pv_identity tool_provider = q_identity" by (simp add: q_identity_def)
  let ?w1 = "with_ledger desk_start (line_upto 1 i)"
  have s1: "record_entries desk_service [decision_entry desk_service i tool_event verdict_q desk_key ''human_local''
        q_identity tool_q] desk_start = (Inr (), ?w1)" "at_line i (line_upto 1 i) ?w1"
    using line_upto_step [OF assms(1) start_at_line entries_of_line(1)] by simp_all
  let ?r = "?w1\<lparr>dk_grants := q_rows\<rparr>"
  have s2: "register_step desk_service i verdict_q desk_key q_grant ?w1 = (Inr (), ?r)"
    using q_registered [OF assms(1) s1(2)] by (simp add: desk_start_def)
  have "at_line i (line_upto 1 i) ?r"
    by (rule at_line_cong [OF s1(2)]) (simp_all add: desk_ledger_def)
  then have s3: "record_entries desk_service [claimed_entry desk_service i verdict_q desk_key tool_q] ?r =
      (Inr (), with_ledger ?r (line_upto 2 i))" "at_line i (line_upto 2 i) (with_ledger ?r (line_upto 2 i))"
    using line_upto_step [OF assms(1) _ entries_of_line(2)] by simp_all
  let ?w2 = "with_ledger ?r (line_upto 2 i)"
  let ?w3 = "?w2\<lparr>dk_grants := q_consumed, dk_reads := dk_reads ?w2 @ [ds_id verdict_q]\<rparr>"
  have s4: "read_step desk_service i verdict_q desk_key q_identity ?w2 = (Inr read_ob, ?w3)"
    by (rule q_read) simp
  have a3: "at_line i (line_upto 2 i) ?w3"
    by (rule at_line_cong [OF s3(2)]) (simp_all add: desk_ledger_def)
  then have s5: "store_observation desk_service read_ob ?w3 = (Inr chat_reference, ?w3)"
    by (intro q_stored) (simp add: at_line_def)
  let ?w4 = "with_ledger ?w3 (line_upto 3 i)"
  have s6: "record_entries desk_service [observation_entry desk_service i verdict_q desk_key read_ob chat_reference] ?w3 =
      (Inr (), ?w4)" "at_line i (line_upto 3 i) ?w4"
    using line_upto_step [OF assms(1) a3 entries_of_line(3)] by simp_all
  obtain w' where s7: "followup desk_service i verdict_q desk_key tool_provider read_ob chat_reference ?w4 =
      (Inr (Continued q_answer), w')" "dk_reads w' = dk_reads ?w4"
    using q_followup [OF assms(1,2) s6(2)] by blast
  have g: "grant_for desk_service verdict_q ''human_local'' q_identity tool_q = q_grant" by (simp add: q_grant_def)
  have suffix: "path_suffix (tq_target tool_q) \<noteq> []" unfolding tool_q_def by code_simp
  have e: "execute_approved desk_service i verdict_q desk_key tool_provider ''human_local'' tool_q ?w1 =
      (Inr (Continued q_answer), w')"
    unfolding execute_approved_def x Let_def g
    using suffix q_grant_valid s2 s3(1) s4 s5 s6(1) s7(1) by (simp add: and_then_def)
  have "record_decision desk_service (decision_entry desk_service i tool_event verdict_q desk_key ''human_local''
        q_identity tool_q) desk_start = (Inr (), ?w1)"
    by (simp add: record_decision_def s1(1))
  then have "decide_new desk_service i tool_event verdict_q desk_key tool_provider ''human_local'' desk_start =
      (Inr (Continued q_answer), w')"
    unfolding decide_new_def x pending_q [OF assms(2,3)] using e by (simp add: and_then_def lift_result_def)
  moreover have "dk_reads w' = [ds_id verdict_q]" using s7(2) by (simp add: desk_start_def)
  ultimately show ?thesis by blast
qed

lemma desk_key_free: "get_by_idempotency chat_codec (ws_ledger asked_ws) desk_key = Inr None"
proof -
  have k: "is_idempotency_key desk_key" using line_keys by (simp add: desk_key_def)
  have "desk_key \<notin> set (map snd (chat_intent @ asked))"
    by (simp add: chat_intent_def prepare_entries_def asked_def outcome_entries_def Let_def desk_key_def chat_key_def)
  then have "find (\<lambda>r. lr_key r = desk_key) (log_rows chat_codec (chat_intent @ asked)) = None"
    unfolding find_None_iff by (metis image_eqI log_rows_keys set_map)
  then show ?thesis using k by (simp add: get_by_idempotency_def asked_ws_def)
qed

lemma decided_run:
  "\<exists>w'. decide_file_read_request desk_service tool_provider (cr_session chat_q) (chat_run chat_runtime chat_q)
     tool_event verdict_q desk_key ''human_local'' desk_start = (Inr (Continued q_answer), w') \<and>
   dk_reads w' = [ds_id verdict_q]"
proof -
  obtain i where i: "asked_run i" "inspect_run chat_runtime asked_ws (cr_session chat_q) (chat_run chat_runtime chat_q) = Inr i"
    "in_events i = map fst (chat_intent @ asked)" "rn_state (in_reconstruction i) = AwaitingApproval"
    by (rule asked_inspection)
  have w: "dk_ws desk_start = asked_ws" by (simp add: desk_start_def)
  show ?thesis
    using q_decided [OF i(1,3,4)] i(2) desk_key_free
    unfolding decide_file_read_request_def w desk_simps chat_runtime_simps by simp
qed

section \<open>Witnesses\<close>

lemma desk_start_reachable: "desk_reachable chat_runtime desk_start"
proof -
  let ?w0 = "\<lparr> dk_ws = chat_start, dk_grants = [], dk_reads = [] \<rparr>"
  have r0: "desk_reachable chat_runtime ?w0"
    unfolding chat_start_def by (rule desk_reachable.start) simp
  obtain r where "create_chat_message chat_runtime 7 8 (dk_ws ?w0) chat_q chat_key tool_provider ''human_local'' =
      (Inr (AwaitingTool r), asked_ws)"
    using asked_turn by auto
  from desk_step.turn [OF this] have "desk_step chat_runtime ?w0 desk_start" by (simp add: desk_start_def)
  then show ?thesis by (rule desk_reachable.step [OF r0])
qed

theorem file_reads_are_approved_witness:
  "\<exists>w :: desk. dk_reads w = [ds_id verdict_q] \<and> distinct (ws_calls (dk_ws w)) \<and>
    (\<exists>e\<in>set (ledger_events chat_codec (ws_ledger (dk_ws w))). ev_id e = ds_id verdict_q \<and>
       ev_type e = Approval \<and> actor_kind (ev_actor e) = Human)"
proof -
  obtain w where w: "decide_file_read_request desk_service tool_provider (cr_session chat_q) (chat_run chat_runtime chat_q)
      tool_event verdict_q desk_key ''human_local'' desk_start = (Inr (Continued q_answer), w)"
      "dk_reads w = [ds_id verdict_q]"
    using decided_run by blast
  have "desk_step chat_runtime desk_start w" by (rule desk_step.decide [OF _ w(1)]) simp
  then have "desk_reachable chat_runtime w" by (rule desk_reachable.step [OF desk_start_reachable])
  from file_reads_are_approved [OF this] show ?thesis
    using w(2) by (intro exI [of _ w]) auto
qed

definition desk_later :: "desk \<Rightarrow> desk" where
  "desk_later w = w\<lparr>dk_ws := (dk_ws w)\<lparr>ws_files := chat_files,
     ws_ledger := ledger_after chat_codec None (ws_ledger (dk_ws w))
       [[(sample_message (CHR ''2'') [] ''later'', ''k9'')]]\<rparr>\<rparr>"

theorem answered_decision_replays_witness:
  "\<exists>w. dk_reads w = [ds_id verdict_q] \<and>
     decide_file_read_request (desk_service\<lparr>sv_scopes := []\<rparr>) chat_provider (cr_session chat_q)
       (chat_run chat_runtime chat_q) tool_event verdict_q desk_key ''human_other'' (desk_later w) =
     (Inr (Continued q_answer), desk_later w)"
proof -
  obtain w where w: "decide_file_read_request desk_service tool_provider (cr_session chat_q) (chat_run chat_runtime chat_q)
      tool_event verdict_q desk_key ''human_local'' desk_start = (Inr (Continued q_answer), w)"
      "dk_reads w = [ds_id verdict_q]"
    using decided_run by blast
  have "ledger_ok chat_codec (ws_ledger (dk_ws desk_start))"
    using desk_reachable_ok [OF desk_start_reachable] by (simp add: desk_ok_def desk_ledger_def)
  then have ok: "ledger_ok (sv_codec desk_service) (ws_ledger (dk_ws desk_start))" by simp
  have free: "get_by_idempotency (sv_codec desk_service) (ws_ledger (dk_ws desk_start)) desk_key = Inr None"
    using desk_key_free by (simp add: desk_start_def)
  have later: "later_desk desk_service (chat_run chat_runtime chat_q) w (desk_later w)"
    using chat_id_fresh [of "CHR ''1''" "CHR ''1''" "''run''" "''chat-run''" "''run''"] unfolding later_desk_def
    by (intro exI [of _ None] exI [of _ "[[(sample_message (CHR ''2'') [] ''later'', ''k9'')]]"])
      (simp add: desk_later_def desk_ledger_def other_runs_def run_free_def sample_message_def chat_run_def
        chat_id_def chat_q_def not_sym)
  have files: "get_artifact (c_sha (sv_codec desk_service)) (ws_files (dk_ws (desk_later w))) h = Inr c"
    if "get_artifact (c_sha (sv_codec desk_service)) (ws_files (dk_ws desk_start)) h = Inr c" for h c
    using that by (simp add: desk_later_def desk_start_def asked_ws_def chat_called_def chat_prepared_def)
  have "decide_file_read_request (desk_service\<lparr>sv_scopes := []\<rparr>) chat_provider (cr_session chat_q)
       (chat_run chat_runtime chat_q) tool_event verdict_q desk_key ''human_other'' (desk_later w) =
     (Inr (Continued q_answer), desk_later w)"
    by (rule answered_decision_replays [OF ok free w(1) later files]) simp_all
  then show ?thesis using w(2) by blast
qed

end
