(* ===== verification/Imports.thy ===== *)
theory Imports
  imports Chat_Replay Broker Actions
begin

text \<open>
  \<open>domain/imports.py\<close>, \<open>storage/imports.py\<close>, \<open>artifact_imports/service.py\<close>: the import of one
  selected file of a configured scope into the artifact store, recorded in the ledger, with an
  optional candidate association to a memory record, and its replay under the same key.  What
  the operating system answers about the roots and the selected file are arguments.
\<close>

section \<open>Contracts\<close>

record selection =
  sl_scope :: string
  sl_target :: string

record policy =
  po_max_bytes :: int
  po_chunk_bytes :: int
  po_extensions :: "string list"

text \<open>\<open>^\.[a-z0-9]+$\<close>, at most 32 characters\<close>

definition is_import_extension :: "string \<Rightarrow> bool" where
  "is_import_extension s \<longleftrightarrow>
     (case s of [] \<Rightarrow> False
      | c # cs \<Rightarrow> c = CHR ''.'' \<and> cs \<noteq> [] \<and> all_in (lower_chars @ digit_chars) cs \<and> length s \<le> 32)"

definition valid_policy :: "policy \<Rightarrow> bool" where
  "valid_policy p \<longleftrightarrow>
     1 \<le> po_max_bytes p \<and> po_max_bytes p \<le> 1099511627776 \<and>
     1 \<le> po_chunk_bytes p \<and> po_chunk_bytes p \<le> 8388608 \<and>
     1 \<le> length (po_extensions p) \<and> length (po_extensions p) \<le> 64 \<and>
     list_all is_import_extension (po_extensions p) \<and> distinct (po_extensions p)"

record audit =
  au_event :: string
  au_session :: string
  au_run :: string
  au_task :: string
  au_actor :: actor
  au_observed :: int
  au_recorded :: int
  au_trust :: trust_class
  au_sensitivity :: sensitivity

record imported =
  im_ref :: string
  im_scope :: string
  im_name :: string
  im_media :: string
  im_bytes :: nat
  im_physical :: nat
  im_dedup :: bool

text \<open>\<open>^[^/\\\x00-\x1f]+$\<close>, one to 255 characters\<close>

definition is_portable_file_name :: "string \<Rightarrow> bool" where
  "is_portable_file_name s \<longleftrightarrow> 1 \<le> length s \<and> length s \<le> 255 \<and>
     list_all (\<lambda>c. c \<noteq> CHR ''/'' \<and> c \<noteq> CHR 0x5C \<and> 32 \<le> (of_char c :: nat)) s"

definition valid_imported :: "imported \<Rightarrow> bool" where
  "valid_imported m \<longleftrightarrow> is_digest (im_ref m) \<and> is_scope_id (im_scope m) \<and> is_portable_file_name (im_name m) \<and>
     int (im_bytes m) \<le> max_interoperable_integer \<and> int (im_physical m) \<le> max_interoperable_integer"

section \<open>The importer\<close>

text \<open>What a call of the operating system answers: \<open>FileNotFoundError\<close>, another \<open>OSError\<close>, a value.\<close>

datatype 'a answer = Missing | Fails | Gives 'a

record scope_probe =
  sc_link :: "bool answer"
  sc_resolved :: "string list answer"
  sc_directory :: bool

text \<open>
  The selected file: whether the path of each prefix of its segments is a link, where it
  resolves to, whether it opens, whether the descriptor is a regular file and its size, the
  results of the successive reads, and whether a read fails.
\<close>

record source_probe =
  sp_link :: "string list \<Rightarrow> bool answer"
  sp_resolved :: "string list answer"
  sp_opens :: bool
  sp_stat :: "(bool \<times> nat) option"
  sp_chunks :: "byte_value list"
  sp_read_fails :: bool

datatype import_error = ScopeMissing | SourceMissing | SourceEscapes | ExtensionRefused | SourceTooLarge

text \<open>What the importer raises: its own errors, those of the store, an \<open>OSError\<close>, a \<open>ValidationError\<close>.\<close>

datatype import_failure = Refused_import import_error | StoreFailed artifact_error | SystemFailed | ResultInvalid

text \<open>The constructor resolves every configured scope.\<close>

fun configure_scopes ::
    "(string \<times> scope_probe) list \<Rightarrow> import_failure + (string \<times> string list) list" where
  "configure_scopes [] = Inr []"
| "configure_scopes ((scope_id, p) # scopes) =
     (case sc_link p of
        Missing \<Rightarrow> Inl (Refused_import ScopeMissing)
      | Fails \<Rightarrow> Inl SystemFailed
      | Gives True \<Rightarrow> Inl (Refused_import SourceEscapes)
      | Gives False \<Rightarrow>
         (case sc_resolved p of
            Missing \<Rightarrow> Inl (Refused_import ScopeMissing)
          | Fails \<Rightarrow> Inl SystemFailed
          | Gives resolved \<Rightarrow>
              if \<not> sc_directory p then Inl (Refused_import ScopeMissing)
              else try_bind (configure_scopes scopes) (\<lambda>configured. Inr ((scope_id, resolved) # configured))))"

text \<open>The walk down the segments of the target.\<close>

fun walk_target :: "(string list \<Rightarrow> bool answer) \<Rightarrow> string list \<Rightarrow> string list \<Rightarrow> import_failure + unit" where
  "walk_target link current [] = Inr ()"
| "walk_target link current (segment # segments) =
     (case link (current @ [segment]) of
        Missing \<Rightarrow> Inl (Refused_import SourceMissing)
      | Fails \<Rightarrow> Inl SystemFailed
      | Gives True \<Rightarrow> Inl (Refused_import SourceEscapes)
      | Gives False \<Rightarrow> walk_target link (current @ [segment]) segments)"

definition media_type_of :: "string \<Rightarrow> string" where
  "media_type_of extension =
     (case map_of [(''.csv'', ''text/csv''), (''.json'', ''application/json''),
         (''.jsonl'', ''application/x-ndjson''), (''.md'', ''text/markdown''),
         (''.parquet'', ''application/vnd.apache.parquet''), (''.txt'', ''text/plain'')] extension of
        Some m \<Rightarrow> m | None \<Rightarrow> ''application/octet-stream'')"

text \<open>The checks on the path: the resolved file, with its extension.\<close>

definition locate_source ::
    "policy \<Rightarrow> (string \<times> string list) list \<Rightarrow> source_probe \<Rightarrow> selection
      \<Rightarrow> import_failure + string list \<times> string" where
  "locate_source P scopes probe s =
     (case map_of scopes (sl_scope s) of
        None \<Rightarrow> Inl (Refused_import ScopeMissing)
      | Some base \<Rightarrow>
        try_bind (walk_target (sp_link probe) [] (split_on (CHR ''/'') (sl_target s))) (\<lambda>_.
        case sp_resolved probe of
          Missing \<Rightarrow> Inl (Refused_import SourceMissing)
        | Fails \<Rightarrow> Inl SystemFailed
        | Gives resolved \<Rightarrow>
            if \<not> is_below base resolved then Inl (Refused_import SourceEscapes)
            else let extension = casefold (name_suffix (last resolved)) in
              if extension \<notin> set (po_extensions P) then Inl (Refused_import ExtensionRefused)
              else Inr (resolved, extension)))"

definition import_selected ::
    "runtime \<Rightarrow> policy \<Rightarrow> (string \<times> string list) list \<Rightarrow> source_probe \<Rightarrow> selection \<Rightarrow> fs
      \<Rightarrow> (import_failure + imported) \<times> fs" where
  "import_selected R P scopes probe s files =
     (case locate_source P scopes probe s of
        Inl f \<Rightarrow> (Inl f, files)
      | Inr (resolved, extension) \<Rightarrow>
        if \<not> sp_opens probe then (Inl (Refused_import SourceMissing), files)
        else (case sp_stat probe of
          None \<Rightarrow> (Inl SystemFailed, files)
        | Some (regular, byte_count) \<Rightarrow>
          if \<not> regular then (Inl (Refused_import SourceMissing), files)
          else if int byte_count > po_max_bytes P then (Inl (Refused_import SourceTooLarge), files)
          else if sp_read_fails probe then (Inl SystemFailed, files)
          else (case put_stream (c_sha (rt_codec R)) (rt_rnd R) (rt_interfere R) files (sp_chunks probe)
                  (po_max_bytes P) (po_chunk_bytes P) (Some (int byte_count)) of
            (Inl x, files') \<Rightarrow> (Inl (StoreFailed x), files')
          | (Inr publication, files') \<Rightarrow>
              let m = \<lparr> im_ref = pub_reference publication, im_scope = sl_scope s,
                    im_name = last resolved, im_media = media_type_of extension,
                    im_bytes = pub_byte_count publication,
                    im_physical = (if pub_existing publication then 0 else pub_byte_count publication),
                    im_dedup = pub_existing publication \<rparr> in
              (if valid_imported m then Inr m else Inl ResultInvalid, files'))))"

section \<open>The recorded outcome\<close>

text \<open>\<open>_FAILURE_CODES\<close>; what it does not name is not caught.\<close>

fun import_failure_code :: "import_failure \<Rightarrow> string option" where
  "import_failure_code (Refused_import ScopeMissing) = Some ''scope_unavailable''"
| "import_failure_code (Refused_import SourceMissing) = Some ''source_unavailable''"
| "import_failure_code (Refused_import SourceEscapes) = Some ''path_escape''"
| "import_failure_code (Refused_import ExtensionRefused) = Some ''extension_not_allowed''"
| "import_failure_code (Refused_import SourceTooLarge) = Some ''source_too_large''"
| "import_failure_code (StoreFailed BadArgument) = None"
| "import_failure_code (StoreFailed OsError) = Some ''source_read_failed''"
| "import_failure_code (StoreFailed x) = Some ''artifact_store_error''"
| "import_failure_code SystemFailed = Some ''source_read_failed''"
| "import_failure_code ResultInvalid = None"

datatype import_trouble =
    HttpError nat string
  | ImportRaised import_failure
  | StoreRaised store_error
  | EventRejected event_error
  | ProjectionInvalid

definition selection_hash :: "codec \<Rightarrow> string \<Rightarrow> string \<Rightarrow> string" where
  "selection_hash C scope target =
     canonical_payload_hash C (jobj [(''scope_id'', JStr scope), (''target'', JStr target)])"

definition failure_payload :: "codec \<Rightarrow> selection \<Rightarrow> string \<Rightarrow> jval" where
  "failure_payload C s code = jobj
     [ (''operation'', JStr ''artifact_import''), (''status'', JStr ''failed''),
       (''error_code'', JStr code), (''source_scope_id'', JStr (sl_scope s)),
       (''source_name'', JStr (last_segment (sl_target s))),
       (''selection_hash'', JStr (selection_hash C (sl_scope s) (sl_target s))) ]"

definition success_payload :: "codec \<Rightarrow> selection \<Rightarrow> imported \<Rightarrow> jval" where
  "success_payload C s m = jobj
     [ (''operation'', JStr ''artifact_import''), (''status'', JStr ''imported''),
       (''source_scope_id'', JStr (im_scope m)), (''source_name'', JStr (im_name m)),
       (''selection_hash'', JStr (selection_hash C (sl_scope s) (sl_target s))),
       (''media_type'', JStr (im_media m)), (''logical_bytes'', JInt (int (im_bytes m))),
       (''unique_physical_bytes'', JInt (int (im_physical m))), (''deduplicated'', JBool (im_dedup m)) ]"

text \<open>\<open>_outcome_event\<close>; the event of an association differs in its identity, type and parents.\<close>

definition outcome_event ::
    "codec \<Rightarrow> audit \<Rightarrow> string \<Rightarrow> event_type \<Rightarrow> string list \<Rightarrow> jval \<Rightarrow> string list \<Rightarrow> event" where
  "outcome_event C a event_id kind parents payload refs =
     \<lparr> ev_id = event_id, ev_session = au_session a, ev_run = au_run a, ev_task = au_task a,
       ev_actor = au_actor a, ev_type = kind, ev_observed_at = au_observed a,
       ev_recorded_at = au_recorded a, ev_payload_hash = canonical_payload_hash C payload,
       ev_artifact_refs = refs, ev_parents = parents, ev_trust = au_trust a,
       ev_sensitivity = au_sensitivity a, ev_payload = payload, ev_model = None \<rparr>"

text \<open>\<open>Event.model_validate\<close> and \<open>events.append\<close>\<close>

definition record_event :: "runtime \<Rightarrow> event \<Rightarrow> string \<Rightarrow> workspace \<Rightarrow> (import_trouble + unit) \<times> workspace" where
  "record_event R e key ws =
     (case validate_event (rt_codec R) e of
        Inl x \<Rightarrow> (Inl (EventRejected x), ws)
      | Inr e' \<Rightarrow>
         (case append_event (rt_codec R) (Some (artifact_verified R (ws_files ws))) (ws_ledger ws) e' key of
            (Inr _, rows) \<Rightarrow> (Inr (), ws\<lparr>ws_ledger := rows\<rparr>)
          | (Inl x, rows) \<Rightarrow> (Inl (StoreRaised x), ws\<lparr>ws_ledger := rows\<rparr>)))"

definition import_and_record ::
    "runtime \<Rightarrow> policy \<Rightarrow> (string \<times> string list) list \<Rightarrow> source_probe \<Rightarrow> selection \<Rightarrow> audit \<Rightarrow> string
      \<Rightarrow> workspace \<Rightarrow> (import_trouble + imported) \<times> workspace" where
  "import_and_record R P scopes probe s a key ws =
     (let C = rt_codec R in
      case import_selected R P scopes probe s (ws_files ws) of
        (Inl f, files) \<Rightarrow>
          (case import_failure_code f of
             None \<Rightarrow> (Inl (ImportRaised f), ws\<lparr>ws_files := files\<rparr>)
           | Some code \<Rightarrow>
               and_then (record_event R (outcome_event C a (au_event a) Observation []
                   (failure_payload C s code) []) key)
                 (\<lambda>_. throw (ImportRaised f)) (ws\<lparr>ws_files := files\<rparr>))
      | (Inr m, files) \<Rightarrow>
          and_then (record_event R (outcome_event C a (au_event a) Observation []
              (success_payload C s m) [im_ref m]) key)
            (\<lambda>_. give m) (ws\<lparr>ws_files := files\<rparr>))"

section \<open>The service\<close>

definition import_policy :: policy where
  "import_policy = \<lparr> po_max_bytes = 256 * 1024 * 1024, po_chunk_bytes = 1024 * 1024,
     po_extensions = [''.csv'', ''.json'', ''.jsonl'', ''.md'', ''.parquet'', ''.txt''] \<rparr>"

lemma import_policy_valid: "valid_policy import_policy"
  unfolding valid_policy_def import_policy_def by code_simp

text \<open>\<open>_IMPORT_HTTP_ERRORS\<close>\<close>

fun http_error :: "import_error \<Rightarrow> nat \<times> string" where
  "http_error ScopeMissing = (404, ''source_scope_not_found'')"
| "http_error SourceEscapes = (422, ''source_path_rejected'')"
| "http_error ExtensionRefused = (415, ''extension_not_allowed'')"
| "http_error SourceTooLarge = (413, ''source_too_large'')"
| "http_error SourceMissing = (409, ''source_unavailable'')"

text \<open>\<open>_IMPORT_REPLAY_ERRORS\<close>\<close>

definition replay_errors :: "(string \<times> nat \<times> string) list" where
  "replay_errors =
     [ (''scope_unavailable'', 404, ''source_scope_not_found''),
       (''path_escape'', 422, ''source_path_rejected''),
       (''extension_not_allowed'', 415, ''extension_not_allowed''),
       (''source_too_large'', 413, ''source_too_large''),
       (''source_unavailable'', 409, ''source_unavailable'') ]"

record import_request =
  ir_id :: string
  ir_observed :: int
  ir_scope :: string
  ir_target :: string
  ir_record :: "string option"

definition is_memory_node_id :: "string \<Rightarrow> bool" where
  "is_memory_node_id s \<longleftrightarrow> tagged_id ''doc'' s \<or> tagged_id ''mem'' s"

definition valid_import_request :: "import_request \<Rightarrow> bool" where
  "valid_import_request q \<longleftrightarrow> tagged_id ''evt'' (ir_id q) \<and> is_scope_id (ir_scope q) \<and>
     is_portable_target (ir_target q) \<and> (\<forall>r. ir_record q = Some r \<longrightarrow> is_memory_node_id r)"

datatype association = Unattached | CandidateOf string string

record import_response =
  rp_event :: string
  rp_artifact :: imported
  rp_association :: association

text \<open>The record the artifact is to be associated with; \<open>vault\<close> are the notes of the index, if any.\<close>

definition association_target ::
    "memory_db \<Rightarrow> indexed_note list option \<Rightarrow> import_request \<Rightarrow> import_trouble + string option" where
  "association_target db vault q =
     (case ir_record q of
        None \<Rightarrow> Inr None
      | Some record_id \<Rightarrow>
          try_bind
            (if starts_with ''mem_'' record_id then Inr (map_option mem_id (get_memory db record_id))
             else (case vault of
                 None \<Rightarrow> Inl (HttpError 503 ''memory_unavailable'')
               | Some notes \<Rightarrow> Inr (map_option note_id (find (\<lambda>n. note_id n = record_id) notes))))
            (\<lambda>found. if found = None then Inl (HttpError 404 ''node_not_found'') else Inr found))"

definition import_event_matches :: "codec \<Rightarrow> event \<Rightarrow> import_request \<Rightarrow> bool" where
  "import_event_matches C e q \<longleftrightarrow>
     ev_id e = ir_id q \<and> ev_observed_at e = ir_observed q \<and>
     jget (ev_payload e) ''operation'' = Some (JStr ''artifact_import'') \<and>
     jget (ev_payload e) ''source_scope_id'' = Some (JStr (ir_scope q)) \<and>
     jget (ev_payload e) ''source_name'' = Some (JStr (last_segment (ir_target q))) \<and>
     jget (ev_payload e) ''selection_hash'' = Some (JStr (selection_hash C (ir_scope q) (ir_target q)))"

definition import_conflict :: import_trouble where
  "import_conflict = HttpError 409 ''idempotency_conflict''"

text \<open>The projection of the stored outcome; a payload it rejects raises.\<close>

definition replayed_artifact :: "codec \<Rightarrow> event \<Rightarrow> import_request \<Rightarrow> import_trouble + imported" where
  "replayed_artifact C e q =
     (if \<not> import_event_matches C e q \<or> jget (ev_payload e) ''status'' \<noteq> Some (JStr ''imported'') \<or>
         length (ev_artifact_refs e) \<noteq> 1
      then Inl import_conflict
      else (case (jget (ev_payload e) ''source_scope_id'', jget (ev_payload e) ''source_name'',
                  jget (ev_payload e) ''media_type'', jget (ev_payload e) ''logical_bytes'',
                  jget (ev_payload e) ''unique_physical_bytes'', jget (ev_payload e) ''deduplicated'') of
          (Some (JStr scope), Some (JStr name), Some (JStr media), Some (JInt bytes), Some (JInt physical),
           Some (JBool dedup)) \<Rightarrow>
            if is_scope_id scope
            then Inr \<lparr> im_ref = hd (ev_artifact_refs e), im_scope = scope, im_name = name, im_media = media,
              im_bytes = nat bytes, im_physical = nat physical, im_dedup = dedup \<rparr>
            else Inl ProjectionInvalid
        | _ \<Rightarrow> Inl ProjectionInvalid))"

definition association_key :: "codec \<Rightarrow> string \<Rightarrow> string" where
  "association_key C key = ''association-'' @ hexdigest (c_sha C) key"

definition association_id :: "codec \<Rightarrow> import_request \<Rightarrow> string" where
  "association_id C q = derived_id (c_sha C) (ir_id q) ''evt'' ''association''"

definition association_payload :: "string \<Rightarrow> jval" where
  "association_payload target = jobj [(''operation'', JStr ''artifact_association''),
     (''status'', JStr ''pending_review''), (''target_record_id'', JStr target)]"

text \<open>The stored association is the one the request would have created.\<close>

definition association_matches :: "codec \<Rightarrow> import_request \<Rightarrow> imported \<Rightarrow> string \<Rightarrow> event \<Rightarrow> bool" where
  "association_matches C q m target e \<longleftrightarrow>
     ev_id e = association_id C q \<and> ev_type e = MemoryProposal \<and> ev_parents e = [ir_id q] \<and>
     ev_artifact_refs e = [im_ref m] \<and>
     jget (ev_payload e) ''target_record_id'' = Some (JStr target) \<and>
     jget (ev_payload e) ''operation'' = Some (JStr ''artifact_association'') \<and>
     jget (ev_payload e) ''status'' = Some (JStr ''pending_review'')"

definition replay_import ::
    "runtime \<Rightarrow> import_request \<Rightarrow> string \<Rightarrow> string option \<Rightarrow> event \<Rightarrow> workspace
      \<Rightarrow> import_trouble + import_response" where
  "replay_import R q key target existing ws =
     (let C = rt_codec R in
      if \<not> import_event_matches C existing q then Inl import_conflict
      else if jget (ev_payload existing) ''status'' = Some (JStr ''failed'')
      then (case jget (ev_payload existing) ''error_code'' of
          Some (JStr code) \<Rightarrow>
            (case map_of replay_errors code of
               None \<Rightarrow> Inl import_conflict
             | Some (status, public_code) \<Rightarrow> Inl (HttpError status public_code))
        | _ \<Rightarrow> Inl import_conflict)
      else
        try_bind (replayed_artifact C existing q) (\<lambda>m.
        case get_by_idempotency C (ws_ledger ws) (association_key C key) of
          Inl x \<Rightarrow> Inl (StoreRaised x)
        | Inr candidate \<Rightarrow>
            try_bind
              (case target of
                 None \<Rightarrow> if candidate \<noteq> None then Inl import_conflict else Inr Unattached
               | Some t \<Rightarrow>
                   (case candidate of
                      Some e \<Rightarrow> if association_matches C q m t e then Inr (CandidateOf t (association_id C q))
                        else Inl import_conflict
                    | None \<Rightarrow> Inl import_conflict))
              (\<lambda>a. Inr \<lparr> rp_event = ir_id q, rp_artifact = m, rp_association = a \<rparr>)))"

definition audit_of :: "import_request \<Rightarrow> string \<Rightarrow> int \<Rightarrow> audit" where
  "audit_of q who now =
     (let token = remove_prefix ''evt_'' (ir_id q) in
      \<lparr> au_event = ir_id q, au_session = ''ses_'' @ token, au_run = ''run_'' @ token,
        au_task = ''tsk_'' @ token, au_actor = \<lparr> actor_id = who, actor_kind = Human \<rparr>,
        au_observed = ir_observed q, au_recorded = now, au_trust = ExternalUntrusted,
        au_sensitivity = Private \<rparr>)"

text \<open>The association of a recorded import.\<close>

definition record_association ::
    "runtime \<Rightarrow> import_request \<Rightarrow> string \<Rightarrow> audit \<Rightarrow> imported \<Rightarrow> string option \<Rightarrow> workspace
      \<Rightarrow> (import_trouble + association) \<times> workspace" where
  "record_association R q key a m target =
     (let C = rt_codec R in
      case target of
        None \<Rightarrow> give Unattached
      | Some t \<Rightarrow>
          and_then (record_event R (outcome_event C a (association_id C q) MemoryProposal [ir_id q]
              (association_payload t) [im_ref m]) (association_key C key))
            (\<lambda>_. give (CandidateOf t (association_id C q))))"

definition import_new ::
    "runtime \<Rightarrow> (string \<times> scope_probe) list \<Rightarrow> source_probe \<Rightarrow> import_request \<Rightarrow> string \<Rightarrow> string \<Rightarrow> int
      \<Rightarrow> string option \<Rightarrow> workspace \<Rightarrow> (import_trouble + import_response) \<times> workspace" where
  "import_new R scopes probe q key who now target ws =
     (case configure_scopes scopes of
        Inl f \<Rightarrow> (Inl (ImportRaised f), ws)
      | Inr configured \<Rightarrow>
         (case import_and_record R import_policy configured probe
                 \<lparr> sl_scope = ir_scope q, sl_target = ir_target q \<rparr> (audit_of q who now) key ws of
            (Inl (ImportRaised (Refused_import x)), ws') \<Rightarrow>
              (Inl (HttpError (fst (http_error x)) (snd (http_error x))), ws')
          | (Inl x, ws') \<Rightarrow> (Inl x, ws')
          | (Inr m, ws') \<Rightarrow>
              and_then (record_association R q key (audit_of q who now) m target)
                (\<lambda>a. give \<lparr> rp_event = ir_id q, rp_artifact = m, rp_association = a \<rparr>) ws'))"

definition import_artifact ::
    "runtime \<Rightarrow> indexed_note list option \<Rightarrow> (string \<times> scope_probe) list \<Rightarrow> source_probe \<Rightarrow> import_request
      \<Rightarrow> string \<Rightarrow> string \<Rightarrow> int \<Rightarrow> workspace \<Rightarrow> (import_trouble + import_response) \<times> workspace" where
  "import_artifact R vault scopes probe q key who now ws =
     (if scopes = [] then (Inl (HttpError 503 ''import_unavailable''), ws)
      else (case association_target (ws_memory ws) vault q of
          Inl x \<Rightarrow> (Inl x, ws)
        | Inr target \<Rightarrow>
           (case get_by_idempotency (rt_codec R) (ws_ledger ws) key of
              Inl x \<Rightarrow> (Inl (StoreRaised x), ws)
            | Inr (Some existing) \<Rightarrow> (replay_import R q key target existing ws, ws)
            | Inr None \<Rightarrow> import_new R scopes probe q key who now target ws)))"

section \<open>The sources offered for import\<close>

text \<open>
  One path below a scope's root: whether it is a link, whether it is a file, its name, where it
  resolves to below the root, and its size (\<open>None\<close> where the calls raise).
\<close>

record candidate =
  cd_link :: bool
  cd_file :: bool
  cd_name :: string
  cd_relative :: "string list option"
  cd_bytes :: "nat option"

record target_projection =
  tp_target :: string
  tp_name :: string
  tp_bytes :: nat

record scope_listing =
  sg_directory :: bool
  sg_candidates :: "candidate list"

record scope_projection =
  sj_scope :: string
  sj_configured :: bool
  sj_targets :: "target_projection list"

definition max_exposed_targets :: nat where
  "max_exposed_targets = 512"

text \<open>The loop over the sorted paths of a root, with the number of targets still to expose.\<close>

fun list_targets :: "nat \<Rightarrow> candidate list \<Rightarrow> import_trouble + target_projection list" where
  "list_targets room [] = Inr []"
| "list_targets room (c # cs) =
     (if room = 0 then Inr []
      else if cd_link c \<or> \<not> cd_file c then list_targets room cs
      else if casefold (name_suffix (cd_name c)) \<notin> set (po_extensions import_policy) then list_targets room cs
      else (case (cd_relative c, cd_bytes c) of
          (Some relative, Some bytes) \<Rightarrow>
            let target = join_with (CHR ''/'') relative in
            if is_portable_target target
            then try_bind (list_targets (room - 1) cs)
              (\<lambda>ts. Inr (\<lparr> tp_target = target, tp_name = last relative, tp_bytes = bytes \<rparr> # ts))
            else Inl ProjectionInvalid
        | _ \<Rightarrow> list_targets room cs))"

definition list_scope :: "string \<times> scope_listing \<Rightarrow> import_trouble + scope_projection" where
  "list_scope = (\<lambda>(scope_id, g).
     try_bind (if sg_directory g then list_targets max_exposed_targets (sg_candidates g) else Inr [])
       (\<lambda>ts. if is_scope_id scope_id
         then Inr \<lparr> sj_scope = scope_id, sj_configured = sg_directory g, sj_targets = ts \<rparr>
         else Inl ProjectionInvalid))"

definition list_import_sources ::
    "(string \<times> scope_listing) list \<Rightarrow> import_trouble + scope_projection list" where
  "list_import_sources scopes = map_result list_scope (sort_key fst scopes)"

end
