(* ===== verification/Import_Replay.thy ===== *)
theory Import_Replay
  imports Imports
begin

text \<open>
  What an import does and how it is repeated: the outcome is an event under the key of the
  request, success or refusal, and a repetition of the request is answered from it.
\<close>

section \<open>Recording\<close>

lemma record_event_written:
  assumes "record_event R e key ws = (Inr u, ws')"
  obtains ids rows where "valid_event (rt_codec R) e" "ws' = ws\<lparr>ws_ledger := rows\<rparr>"
    "append_many (rt_codec R) (Some (artifact_verified R (ws_files ws))) (ws_ledger ws) [(e, key)] = (Inr ids, rows)"
proof -
  obtain e' where v: "validate_event (rt_codec R) e = Inr e'"
    using assms by (cases "validate_event (rt_codec R) e") (simp_all add: record_event_def)
  then have "e' = e" "valid_event (rt_codec R) e"
    using validate_event_same [OF v] by (auto simp: valid_event_def)
  then show thesis
    using assms v that by (auto simp: record_event_def append_event_def split: prod.splits sum.splits)
qed

lemma record_event_failed:
  assumes "record_event R e key ws = (Inl x, ws')"
  shows "ws' = ws \<and> (\<exists>y z. x = EventRejected y \<or> x = StoreRaised z)"
proof (cases "validate_event (rt_codec R) e")
  case (Inl y)
  then show ?thesis using assms by (auto simp: record_event_def)
next
  case (Inr e')
  obtain r rows where a: "append_many (rt_codec R) (Some (artifact_verified R (ws_files ws))) (ws_ledger ws)
      [(e', key)] = (r, rows)" by (meson surj_pair)
  show ?thesis
  proof (cases r)
    case (Inl y)
    then have "rows = ws_ledger ws" using a ledger.append_rollback by blast
    then show ?thesis using assms Inr a Inl by (auto simp: record_event_def append_event_def)
  next
    case written: (Inr ids)
    then show ?thesis using assms Inr a by (simp add: record_event_def append_event_def)
  qed
qed

text \<open>What a recorded event leaves: itself under its key, and every key before it.\<close>

lemma record_event_lookup:
  assumes "record_event R e key ws = (Inr u, ws')" and "ledger_ok (rt_codec R) (ws_ledger ws)"
  shows "ledger_ok (rt_codec R) (ws_ledger ws')" "ledger_lookup (rt_codec R) (ws_ledger ws') key = Some e"
    and "ledger_lookup (rt_codec R) (ws_ledger ws) k = Some d \<Longrightarrow> ledger_lookup (rt_codec R) (ws_ledger ws') k = Some d"
    and "ws_files ws' = ws_files ws" "ws_memory ws' = ws_memory ws"
    and "list_all (artifact_verified R (ws_files ws)) (ev_artifact_refs e)"
proof -
  obtain ids rows where w: "ws' = ws\<lparr>ws_ledger := rows\<rparr>"
    "append_many (rt_codec R) (Some (artifact_verified R (ws_files ws))) (ws_ledger ws) [(e, key)] = (Inr ids, rows)"
    using assms(1) by (rule record_event_written)
  show "ledger_ok (rt_codec R) (ws_ledger ws')" using ledger.append_invar [OF assms(2) w(2)] w(1) by simp
  show "ledger_lookup (rt_codec R) (ws_ledger ws') key = Some e"
    using ledger.append_lookup [OF assms(2) w(2)] w(1) by simp
  show "ledger_lookup (rt_codec R) (ws_ledger ws') k = Some d" if "ledger_lookup (rt_codec R) (ws_ledger ws) k = Some d"
    using ledger.lookup_stable [OF assms(2) w(2) that] w(1) by simp
  show "ws_files ws' = ws_files ws" "ws_memory ws' = ws_memory ws" using w(1) by simp_all
  have "unresolved_reference (Some (artifact_verified R (ws_files ws))) e = None"
    using w(2) by (auto simp: append_many_def append_one_def split: sum.splits prod.splits option.splits if_splits)
  then show "list_all (artifact_verified R (ws_files ws)) (ev_artifact_refs e)"
    by (auto simp: unresolved_reference_def list_all_iff find_None_iff)
qed

lemma lookup_get:
  "ledger_lookup C rows key = Some e \<longleftrightarrow> get_by_idempotency C rows key = Inr (Some e)"
  by (simp add: ledger_lookup_def split: sum.splits)

lemma lookup_after:
  assumes "ledger_ok C rows" and "ledger_lookup C rows key = Some e"
  shows "get_by_idempotency C (ledger_after C artifacts rows txs) key = Inr (Some e)"
  using ledger.after_lookup [OF assms, of artifacts txs]
  unfolding lookup_get ledger.after_def ledger_after_def .

section \<open>What an import that returns did\<close>

lemma put_stream_published:
  assumes "put_stream sha rnd interfere fs chunks m k expected = (Inr p, fs')"
  obtains c where "read_stream m chunks [] = Inr c" "pub_reference p = digest_ref sha c"
    "pub_byte_count p = length c" "\<And>n. expected = Some n \<Longrightarrow> n = int (length c)"
proof -
  obtain c where c: "read_stream m chunks [] = Inr c"
    using assms by (cases "read_stream m chunks []") (auto simp: put_stream_def split: if_splits)
  have "pub_reference p = digest_ref sha c \<and> pub_byte_count p = length c \<and>
      (expected = None \<or> expected = Some (int (length c)))"
    using assms c by (auto simp: put_stream_def Let_def result_simps split: if_splits sum.splits)
  then show thesis using that c by auto
qed

lemma import_selected_Inr:
  assumes "import_selected R P scopes probe s files = (Inr m, files')"
  obtains resolved extension byte_count c where
    "locate_source P scopes probe s = Inr (resolved, extension)" "sp_opens probe"
    "sp_stat probe = Some (True, byte_count)" "int byte_count \<le> po_max_bytes P"
    "read_stream (po_max_bytes P) (sp_chunks probe) [] = Inr c" "length c = byte_count"
    "im_ref m = digest_ref (c_sha (rt_codec R)) c" "im_scope m = sl_scope s" "im_name m = last resolved"
    "im_bytes m = byte_count" "valid_imported m"
proof -
  obtain resolved extension where l: "locate_source P scopes probe s = Inr (resolved, extension)"
    using assms by (cases "locate_source P scopes probe s") (auto simp: import_selected_def)
  obtain byte_count where st: "sp_opens probe" "sp_stat probe = Some (True, byte_count)"
      "int byte_count \<le> po_max_bytes P" "\<not> sp_read_fails probe"
    using assms l by (auto simp: import_selected_def split: if_splits option.splits)
  obtain p where p: "put_stream (c_sha (rt_codec R)) (rt_rnd R) (rt_interfere R) files (sp_chunks probe)
      (po_max_bytes P) (po_chunk_bytes P) (Some (int byte_count)) = (Inr p, files')"
    and m: "im_ref m = pub_reference p" "im_scope m = sl_scope s" "im_name m = last resolved"
      "im_bytes m = pub_byte_count p" "valid_imported m"
    using assms l st by (auto simp: import_selected_def Let_def split: if_splits prod.splits sum.splits)
  from p show thesis
    by (rule put_stream_published) (use that [OF l st(1-3)] m in simp)
qed

text \<open>The event of the import, and of its association, under their keys.\<close>

definition import_event :: "codec \<Rightarrow> import_request \<Rightarrow> string \<Rightarrow> int \<Rightarrow> jval \<Rightarrow> string list \<Rightarrow> event" where
  "import_event C q who now payload refs =
     outcome_event C (audit_of q who now) (ir_id q) Observation [] payload refs"

definition selection_of :: "import_request \<Rightarrow> selection" where
  "selection_of q = \<lparr> sl_scope = ir_scope q, sl_target = ir_target q \<rparr>"

lemma outcome_event_simps [simp]:
  "ev_id (outcome_event C a i k ps p refs) = i" "ev_type (outcome_event C a i k ps p refs) = k"
  "ev_parents (outcome_event C a i k ps p refs) = ps" "ev_payload (outcome_event C a i k ps p refs) = p"
  "ev_artifact_refs (outcome_event C a i k ps p refs) = refs"
  "ev_observed_at (outcome_event C a i k ps p refs) = au_observed a"
  "ev_actor (outcome_event C a i k ps p refs) = au_actor a"
  by (simp_all add: outcome_event_def)

lemma audit_simps [simp]:
  "au_event (audit_of q who now) = ir_id q" "au_observed (audit_of q who now) = ir_observed q"
  "au_actor (audit_of q who now) = \<lparr> actor_id = who, actor_kind = Human \<rparr>"
  by (simp_all add: audit_of_def Let_def)

lemma import_and_record_Inr:
  assumes "import_and_record R P scopes probe (selection_of q) (audit_of q who now) key ws = (Inr m, ws')"
  obtains files where "import_selected R P scopes probe (selection_of q) (ws_files ws) = (Inr m, files)"
    "record_event R (import_event (rt_codec R) q who now
       (success_payload (rt_codec R) (selection_of q) m) [im_ref m]) key (ws\<lparr>ws_files := files\<rparr>) = (Inr (), ws')"
proof -
  obtain r files where i: "import_selected R P scopes probe (selection_of q) (ws_files ws) = (r, files)"
    by (meson surj_pair)
  show thesis
  proof (cases r)
    case (Inl f)
    then show thesis using assms i
      by (auto simp: import_and_record_def Let_def and_then_Inr throw_def split: option.splits)
  next
    case (Inr m')
    then show thesis using assms i that
      by (auto simp: import_and_record_def Let_def and_then_Inr give_def import_event_def)
  qed
qed

lemma import_artifact_new:
  assumes "import_artifact R vault scopes probe q key who now ws = (res, ws')"
    and "get_by_idempotency (rt_codec R) (ws_ledger ws) key = Inr None"
    and "\<And>s c. res \<noteq> Inl (HttpError s c)"
  obtains target where "scopes \<noteq> []" "association_target (ws_memory ws) vault q = Inr target"
    "import_new R scopes probe q key who now target ws = (res, ws')"
proof -
  have "x = HttpError (case x of HttpError s _ \<Rightarrow> s | _ \<Rightarrow> 0) (case x of HttpError _ c \<Rightarrow> c | _ \<Rightarrow> [])"
    if "association_target (ws_memory ws) vault q = Inl x" for x
    using that by (auto simp: association_target_def try_bind_def split: option.splits if_splits sum.splits)
  then show thesis
    using assms that by (auto simp: import_artifact_def split: if_splits sum.splits)
qed

text \<open>An import that returned: two events at most, under the two keys of the request.\<close>

lemma import_artifact_steps:
  assumes "import_artifact R vault scopes probe q key who now ws = (Inr resp, ws')"
    and "get_by_idempotency (rt_codec R) (ws_ledger ws) key = Inr None"
  obtains target configured files ws1 where
    "association_target (ws_memory ws) vault q = Inr target" "configure_scopes scopes = Inr configured"
    "import_selected R import_policy configured probe (selection_of q) (ws_files ws) = (Inr (rp_artifact resp), files)"
    "record_event R (import_event (rt_codec R) q who now (success_payload (rt_codec R) (selection_of q) (rp_artifact resp))
       [im_ref (rp_artifact resp)]) key (ws\<lparr>ws_files := files\<rparr>) = (Inr (), ws1)"
    "rp_event resp = ir_id q" "target = None \<longrightarrow> rp_association resp = Unattached \<and> ws' = ws1"
    "\<forall>t. target = Some t \<longrightarrow> rp_association resp = CandidateOf t (association_id (rt_codec R) q) \<and>
       record_event R (outcome_event (rt_codec R) (audit_of q who now) (association_id (rt_codec R) q) MemoryProposal
         [ir_id q] (association_payload t) [im_ref (rp_artifact resp)]) (association_key (rt_codec R) key) ws1 = (Inr (), ws')"
proof -
  let ?C = "rt_codec R"
  obtain target where t: "association_target (ws_memory ws) vault q = Inr target"
      "import_new R scopes probe q key who now target ws = (Inr resp, ws')"
    using import_artifact_new [OF assms] by blast
  obtain configured where c: "configure_scopes scopes = Inr configured"
    using t(2) by (cases "configure_scopes scopes") (simp_all add: import_new_def)
  obtain m ws1 where m: "import_and_record R import_policy configured probe (selection_of q)
      (audit_of q who now) key ws = (Inr m, ws1)"
      "and_then (record_association R q key (audit_of q who now) m target)
        (\<lambda>a. give \<lparr> rp_event = ir_id q, rp_artifact = m, rp_association = a \<rparr>) ws1 = (Inr resp, ws')"
    using t(2) c unfolding import_new_def selection_of_def
    by (auto split: prod.splits sum.splits import_trouble.splits import_failure.splits)
  obtain a where a: "record_association R q key (audit_of q who now) m target ws1 = (Inr a, ws')"
      "resp = \<lparr> rp_event = ir_id q, rp_artifact = m, rp_association = a \<rparr>"
    using m(2) by (auto simp: and_then_Inr give_def)
  obtain files where f: "import_selected R import_policy configured probe (selection_of q) (ws_files ws) = (Inr m, files)"
    "record_event R (import_event ?C q who now (success_payload ?C (selection_of q) m) [im_ref m]) key
       (ws\<lparr>ws_files := files\<rparr>) = (Inr (), ws1)"
    using m(1) by (rule import_and_record_Inr)
  have "target = None \<Longrightarrow> a = Unattached \<and> ws' = ws1"
    "\<And>t. target = Some t \<Longrightarrow> a = CandidateOf t (association_id ?C q) \<and>
       record_event R (outcome_event ?C (audit_of q who now) (association_id ?C q) MemoryProposal [ir_id q]
         (association_payload t) [im_ref m]) (association_key ?C key) ws1 = (Inr (), ws')"
    using a(1) by (auto simp: record_association_def Let_def and_then_Inr give_def)
  then show thesis using that [of target configured files ws1] t(1) c f a(2) by simp
qed

lemma import_artifact_Inr:
  assumes "import_artifact R vault scopes probe q key who now ws = (Inr resp, ws')"
    and "get_by_idempotency (rt_codec R) (ws_ledger ws) key = Inr None"
    and "ledger_ok (rt_codec R) (ws_ledger ws)"
  obtains target configured files where
    "association_target (ws_memory ws) vault q = Inr target" "configure_scopes scopes = Inr configured"
    "import_selected R import_policy configured probe (selection_of q) (ws_files ws) = (Inr (rp_artifact resp), files)"
    "artifact_verified R files (im_ref (rp_artifact resp))" "ws_files ws' = files"
    "ledger_ok (rt_codec R) (ws_ledger ws')"
    "ledger_lookup (rt_codec R) (ws_ledger ws') key = Some (import_event (rt_codec R) q who now
       (success_payload (rt_codec R) (selection_of q) (rp_artifact resp)) [im_ref (rp_artifact resp)])"
    "rp_event resp = ir_id q" "target = None \<Longrightarrow> rp_association resp = Unattached"
    "\<And>t. target = Some t \<Longrightarrow> rp_association resp = CandidateOf t (association_id (rt_codec R) q) \<and>
       ledger_lookup (rt_codec R) (ws_ledger ws') (association_key (rt_codec R) key) =
         Some (outcome_event (rt_codec R) (audit_of q who now) (association_id (rt_codec R) q) MemoryProposal
           [ir_id q] (association_payload t) [im_ref (rp_artifact resp)])"
proof -
  from import_artifact_steps [OF assms(1,2)] obtain target configured files ws1 where i:
    "association_target (ws_memory ws) vault q = Inr target" "configure_scopes scopes = Inr configured"
    "import_selected R import_policy configured probe (selection_of q) (ws_files ws) = (Inr (rp_artifact resp), files)"
    "record_event R (import_event (rt_codec R) q who now (success_payload (rt_codec R) (selection_of q) (rp_artifact resp))
       [im_ref (rp_artifact resp)]) key (ws\<lparr>ws_files := files\<rparr>) = (Inr (), ws1)"
    "rp_event resp = ir_id q" "target = None \<longrightarrow> rp_association resp = Unattached \<and> ws' = ws1"
    "\<forall>t. target = Some t \<longrightarrow> rp_association resp = CandidateOf t (association_id (rt_codec R) q) \<and>
       record_event R (outcome_event (rt_codec R) (audit_of q who now) (association_id (rt_codec R) q) MemoryProposal
         [ir_id q] (association_payload t) [im_ref (rp_artifact resp)]) (association_key (rt_codec R) key) ws1 = (Inr (), ws')" .
  have ok: "ledger_ok (rt_codec R) (ws_ledger (ws\<lparr>ws_files := files\<rparr>))" using assms(3) by simp
  note w1 = record_event_lookup [OF i(4) ok]
  have v: "artifact_verified R files (im_ref (rp_artifact resp))" using w1(6) by (simp add: import_event_def)
  show thesis
  proof (cases target)
    case None
    then show thesis using that [OF i(1-3) v] w1(1,2,4) i(5,6) by simp
  next
    case (Some t)
    note w2 = record_event_lookup [OF conjunct2 [OF i(7) [rule_format, OF Some]] w1(1)]
    show thesis using that [OF i(1-3) v] w1(4) w2(1,2,4) w2(3) [OF w1(2)] i(5) i(7) [rule_format, OF Some] Some by simp
  qed
qed

section \<open>Repeating an import\<close>

lemma import_artifact_again:
  assumes "scopes \<noteq> []" and "association_target (ws_memory ws) vault q = Inr target"
    and "get_by_idempotency (rt_codec R) (ws_ledger ws) key = Inr (Some e)"
  shows "import_artifact R vault scopes probe q key who now ws = (replay_import R q key target e ws, ws)"
  using assms by (simp add: import_artifact_def)

lemma association_target_None: "association_target db vault q = Inr None \<longleftrightarrow> ir_record q = None"
  by (auto simp: association_target_def result_simps split: option.splits if_splits)

lemma import_event_matches_success:
  assumes "im_scope m = ir_scope q"
  shows "import_event_matches C (import_event C q who now (success_payload C (selection_of q) m) refs) q \<longleftrightarrow>
    im_name m = last_segment (ir_target q)"
  using assms by (auto simp: import_event_matches_def import_event_def success_payload_def selection_of_def)

lemma replayed_artifact_success:
  assumes "im_scope m = ir_scope q" and "im_name m = last_segment (ir_target q)" and "is_scope_id (im_scope m)"
  shows "replayed_artifact C (import_event C q who now (success_payload C (selection_of q) m) [im_ref m]) q = Inr m"
proof -
  have "import_event_matches C (import_event C q who now (success_payload C (selection_of q) m) [im_ref m]) q"
    using import_event_matches_success [OF assms(1)] assms(2) by blast
  then show ?thesis
    using assms(3) by (simp add: replayed_artifact_def import_event_def success_payload_def)
qed

text \<open>The replay of the event of a success, and of the association behind it.\<close>

lemma success_replayed:
  assumes "im_scope m = ir_scope q" and "is_scope_id (im_scope m)" and "im_name m = last_segment (ir_target q)"
    and "rp_artifact resp = m" and "rp_event resp = ir_id q"
    and "target = None \<Longrightarrow> rp_association resp = Unattached \<and>
      get_by_idempotency (rt_codec R) (ws_ledger ws) (association_key (rt_codec R) key) = Inr None"
    and "\<And>t. target = Some t \<Longrightarrow> rp_association resp = CandidateOf t (association_id (rt_codec R) q) \<and>
      get_by_idempotency (rt_codec R) (ws_ledger ws) (association_key (rt_codec R) key) =
        Inr (Some (outcome_event (rt_codec R) (audit_of q who now) (association_id (rt_codec R) q) MemoryProposal
          [ir_id q] (association_payload t) [im_ref m]))"
  shows "replay_import R q key target
    (import_event (rt_codec R) q who now (success_payload (rt_codec R) (selection_of q) m) [im_ref m]) ws = Inr resp"
proof -
  let ?e = "import_event (rt_codec R) q who now (success_payload (rt_codec R) (selection_of q) m) [im_ref m]"
  have matches: "import_event_matches (rt_codec R) ?e q" using import_event_matches_success [OF assms(1)] assms(3) by simp
  have status: "jget (ev_payload ?e) ''status'' = Some (JStr ''imported'')"
    by (simp add: import_event_def success_payload_def)
  note m = replayed_artifact_success [OF assms(1,3,2), of "rt_codec R" who now]
  show ?thesis
    using matches status m assms(4,5) assms(6) assms(7)
    by (cases target) (simp_all add: replay_import_def association_matches_def association_payload_def)
qed

text \<open>
  C31: a completed import is final.  Once a request under a fresh key returned, repeating it under the key,
  by whomever and whenever, whatever was appended since, whatever the file has become and whichever
  scopes are configured, returns the same response and changes nothing, with two exceptions that
  change nothing either: where no scope at all is configured any more, imports are answered as unavailable, and for
  a file whose resolved name differs from the requested one the repetition is refused as a
  conflict.  It is assumed that the ledger was well-formed, that the memory record looked up for the request is the
  same as at first, and, for an import without one, that the derived key of associations is still free.
\<close>

theorem completed_import_replays:
  assumes "ledger_ok (rt_codec R) (ws_ledger ws)"
    and "get_by_idempotency (rt_codec R) (ws_ledger ws) key = Inr None"
    and "import_artifact R vault scopes probe q key who now ws = (Inr resp, ws')"
    and "ws_ledger ws'' = ledger_after (rt_codec R) artifacts (ws_ledger ws') txs"
    and "association_target (ws_memory ws'') vault' q = association_target (ws_memory ws) vault q"
    and "ir_record q = None \<Longrightarrow>
      get_by_idempotency (rt_codec R) (ws_ledger ws'') (association_key (rt_codec R) key) = Inr None"
  shows "import_artifact R vault' scopes' probe' q key who' now' ws'' =
    (if scopes' = [] then Inl (HttpError 503 ''import_unavailable'')
     else if im_name (rp_artifact resp) = last_segment (ir_target q) then Inr resp else Inl import_conflict, ws'')"
proof (cases "scopes' = []")
  case True
  then show ?thesis by (simp add: import_artifact_def)
next
  case nonempty: False
  let ?C = "rt_codec R" and ?m = "rp_artifact resp"
  from import_artifact_Inr [OF assms(3,2,1)] obtain target configured files where i:
    "association_target (ws_memory ws) vault q = Inr target"
    "import_selected R import_policy configured probe (selection_of q) (ws_files ws) = (Inr ?m, files)"
    "ledger_ok ?C (ws_ledger ws')"
    "ledger_lookup ?C (ws_ledger ws') key = Some (import_event ?C q who now (success_payload ?C (selection_of q) ?m) [im_ref ?m])"
    "rp_event resp = ir_id q" "target = None \<Longrightarrow> rp_association resp = Unattached"
    "\<And>t. target = Some t \<Longrightarrow> rp_association resp = CandidateOf t (association_id ?C q) \<and>
       ledger_lookup ?C (ws_ledger ws') (association_key ?C key) =
         Some (outcome_event ?C (audit_of q who now) (association_id ?C q) MemoryProposal
           [ir_id q] (association_payload t) [im_ref ?m])"
    by metis
  let ?e = "import_event ?C q who now (success_payload ?C (selection_of q) ?m) [im_ref ?m]"
  have scope: "im_scope ?m = ir_scope q" "is_scope_id (im_scope ?m)"
    using i(2) by (elim import_selected_Inr; simp add: selection_of_def valid_imported_def)+
  have later: "get_by_idempotency ?C (ws_ledger ws'') k = Inr (Some e)"
    if "ledger_lookup ?C (ws_ledger ws') k = Some e" for k e
    using lookup_after [OF i(3) that] assms(4) by simp
  have again: "import_artifact R vault' scopes' probe' q key who' now' ws'' = (replay_import R q key target ?e ws'', ws'')"
    using import_artifact_again [OF nonempty _ later [OF i(4)]] assms(5) i(1) by simp
  show ?thesis
  proof (cases "im_name ?m = last_segment (ir_target q)")
    case False
    then have "\<not> import_event_matches ?C ?e q" using import_event_matches_success [OF scope(1)] by simp
    then show ?thesis using again False nonempty by (simp add: replay_import_def Let_def)
  next
    case True
    have "ir_record q = None" if "target = None" using association_target_None i(1) that by blast
    then have "replay_import R q key target ?e ws'' = Inr resp"
      using i(6,7) later assms(6) by (intro success_replayed [OF scope True refl i(5)]) simp_all
    then show ?thesis using again True nonempty by simp
  qed
qed

section \<open>Repeating an import that failed\<close>

lemma import_and_record_failed:
  assumes "import_and_record R P scopes probe (selection_of q) (audit_of q who now) key ws = (Inl (ImportRaised f), ws')"
  obtains (recorded) files code where "import_failure_code f = Some code"
    "record_event R (import_event (rt_codec R) q who now (failure_payload (rt_codec R) (selection_of q) code) [])
       key (ws\<lparr>ws_files := files\<rparr>) = (Inr (), ws')"
  | (silent) files where "import_failure_code f = None" "ws' = ws\<lparr>ws_files := files\<rparr>"
proof -
  obtain r files where i: "import_selected R P scopes probe (selection_of q) (ws_files ws) = (r, files)"
    by (meson surj_pair)
  have no: "record_event R e k w \<noteq> (Inl (ImportRaised f), w')" for e k w w'
    using record_event_failed by blast
  show thesis
  proof (cases r)
    case (Inr m)
    obtain r' w' where "record_event R (import_event (rt_codec R) q who now
        (success_payload (rt_codec R) (selection_of q) m) [im_ref m]) key (ws\<lparr>ws_files := files\<rparr>) = (r', w')"
      by (meson surj_pair)
    then have False using assms i Inr no
      by (cases r') (auto simp: import_and_record_def Let_def import_event_def and_then_def give_def)
    then show thesis ..
  next
    case (Inl g)
    show thesis
    proof (cases "import_failure_code g")
      case None
      then show thesis using assms i Inl silent by (auto simp: import_and_record_def)
    next
      case (Some code)
      let ?e = "import_event (rt_codec R) q who now (failure_payload (rt_codec R) (selection_of q) code) []"
      obtain r' w' where r: "record_event R ?e key (ws\<lparr>ws_files := files\<rparr>) = (r', w')" by (meson surj_pair)
      then have "g = f \<and> r' = Inr () \<and> w' = ws'" using assms i Inl Some no
        by (cases r') (auto simp: import_and_record_def Let_def import_event_def and_then_def throw_def)
      then show thesis using recorded [of code files] Some r by simp
    qed
  qed
qed

lemma import_and_record_trouble:
  assumes "import_and_record R P scopes probe s a key ws = (Inl y, ws')"
  shows "\<exists>f x z. y = ImportRaised f \<or> y = EventRejected x \<or> y = StoreRaised z"
proof -
  have r: "\<exists>f x z. y = ImportRaised f \<or> y = EventRejected x \<or> y = StoreRaised z"
    if "record_event R e k w = (Inl y, w')" for e k w w'
    using record_event_failed [OF that] by blast
  show ?thesis
    using assms r
    by (auto simp: import_and_record_def Let_def and_then_def throw_def give_def
        split: prod.splits sum.splits option.splits)
qed

lemma replay_failure:
  assumes "e = import_event (rt_codec R) q who now (failure_payload (rt_codec R) (selection_of q) code) []"
  shows "replay_import R q key target e ws = Inl
    (case map_of replay_errors code of None \<Rightarrow> import_conflict | Some (s, c) \<Rightarrow> HttpError s c)"
  using assms
  by (simp add: replay_import_def Let_def import_event_matches_def import_event_def failure_payload_def
      selection_of_def import_conflict_def split: option.splits prod.splits)

text \<open>What a failure turns into when it is repeated.\<close>

definition replayed_failure :: "import_failure \<Rightarrow> import_trouble" where
  "replayed_failure f =
     (case f of Refused_import x \<Rightarrow> HttpError (fst (http_error x)) (snd (http_error x)) | _ \<Rightarrow> import_conflict)"

lemma replay_errors_code:
  assumes "import_failure_code f = Some code"
  shows "(case map_of replay_errors code of None \<Rightarrow> import_conflict | Some (s, c) \<Rightarrow> HttpError s c) =
    replayed_failure f"
proof (cases f)
  case (Refused_import x)
  then show ?thesis using assms by (cases x) (auto simp: replay_errors_def replayed_failure_def)
next
  case (StoreFailed x)
  then show ?thesis using assms by (cases x) (auto simp: replay_errors_def replayed_failure_def)
qed (use assms in \<open>auto simp: replay_errors_def replayed_failure_def\<close>)

lemma failed_import_recorded:
  assumes "ledger_ok (rt_codec R) (ws_ledger ws)"
    and "get_by_idempotency (rt_codec R) (ws_ledger ws) key = Inr None"
    and "import_artifact R vault scopes probe q key who now ws = (Inl x, ws')"
    and "\<And>y. x \<noteq> StoreRaised y" and "\<And>y. x \<noteq> EventRejected y"
    and "get_by_idempotency (rt_codec R) (ws_ledger ws') key \<noteq> Inr None"
  obtains f code where "x = (case f of Refused_import _ \<Rightarrow> replayed_failure f | _ \<Rightarrow> ImportRaised f)"
    "import_failure_code f = Some code" "ledger_ok (rt_codec R) (ws_ledger ws')"
    "ledger_lookup (rt_codec R) (ws_ledger ws') key =
       Some (import_event (rt_codec R) q who now (failure_payload (rt_codec R) (selection_of q) code) [])"
proof -
  let ?C = "rt_codec R"
  have moved: "ws' \<noteq> ws" using assms(2,6) by auto
  obtain target where t: "import_new R scopes probe q key who now target ws = (Inl x, ws')"
    using assms(2,3) moved by (auto simp: import_artifact_def split: if_splits sum.splits)
  obtain configured where c: "configure_scopes scopes = Inr configured"
    using t moved by (cases "configure_scopes scopes") (auto simp: import_new_def)
  obtain r ws1 where m: "import_and_record R import_policy configured probe (selection_of q)
      (audit_of q who now) key ws = (r, ws1)" by (meson surj_pair)
  have "\<exists>f. r = Inl (ImportRaised f) \<and> ws1 = ws' \<and>
      x = (case f of Refused_import _ \<Rightarrow> replayed_failure f | _ \<Rightarrow> ImportRaised f)"
  proof (cases r)
    case (Inr m')
    have "\<exists>y z. x = EventRejected y \<or> x = StoreRaised z"
    proof (cases target)
      case None
      then show ?thesis using t c m Inr
        by (simp add: import_new_def selection_of_def record_association_def and_then_def give_def)
    next
      case (Some i)
      let ?e = "outcome_event ?C (audit_of q who now) (association_id ?C q) MemoryProposal
          [ir_id q] (association_payload i) [im_ref m']"
      obtain r' w' where a: "record_event R ?e (association_key ?C key) ws1 = (r', w')" by (meson surj_pair)
      then have "r' = Inl x" using t c m Inr Some
        by (cases r') (auto simp: import_new_def selection_of_def record_association_def Let_def and_then_def give_def)
      then show ?thesis using record_event_failed a by blast
    qed
    then show ?thesis using assms(4,5) by blast
  next
    case (Inl y)
    then obtain f a b where y: "y = ImportRaised f \<or> y = EventRejected a \<or> y = StoreRaised b"
      using import_and_record_trouble m by blast
    have "y = EventRejected a \<Longrightarrow> x = EventRejected a" "y = StoreRaised b \<Longrightarrow> x = StoreRaised b"
      using t c m Inl by (simp_all add: import_new_def selection_of_def)
    then have "y = ImportRaised f" using y assms(4) [of b] assms(5) [of a] by blast
    then show ?thesis using t c m Inl
      by (cases f) (auto simp: import_new_def selection_of_def replayed_failure_def)
  qed
  then obtain f where f: "r = Inl (ImportRaised f)" "ws1 = ws'"
      "x = (case f of Refused_import _ \<Rightarrow> replayed_failure f | _ \<Rightarrow> ImportRaised f)" by blast
  from m [unfolded f(1,2)] show thesis
  proof (cases rule: import_and_record_failed)
    case (recorded files code)
    have "ledger_ok ?C (ws_ledger (ws\<lparr>ws_files := files\<rparr>))" using assms(1) by simp
    from record_event_lookup(1,2) [OF recorded(2) this] show thesis
      using that [OF f(3) recorded(1)] by blast
  next
    case (silent files)
    then show thesis using assms(2,6) by simp
  qed
qed

text \<open>
  A failure that was recorded is repeated as it was when the importer refused the file:
  the same status and code, with nothing changed; but a failure of the artifact store or of the
  operating system, which the first attempt raised as an internal error, is reported by every
  repetition as an idempotency conflict.
\<close>

theorem failed_import_replays:
  assumes "ledger_ok (rt_codec R) (ws_ledger ws)"
    and "get_by_idempotency (rt_codec R) (ws_ledger ws) key = Inr None"
    and "import_artifact R vault scopes probe q key who now ws = (Inl x, ws')"
    and "\<And>y. x \<noteq> StoreRaised y" and "\<And>y. x \<noteq> EventRejected y"
    and "get_by_idempotency (rt_codec R) (ws_ledger ws') key \<noteq> Inr None"
    and "ws_ledger ws'' = ledger_after (rt_codec R) artifacts (ws_ledger ws') txs"
    and "association_target (ws_memory ws'') vault' q = Inr target" and "scopes' \<noteq> []"
  shows "import_artifact R vault' scopes' probe' q key who' now' ws'' =
    (Inl (case x of HttpError _ _ \<Rightarrow> x | _ \<Rightarrow> import_conflict), ws'')"
proof -
  from failed_import_recorded [OF assms(1-6)] obtain f code where f:
    "x = (case f of Refused_import _ \<Rightarrow> replayed_failure f | _ \<Rightarrow> ImportRaised f)" "import_failure_code f = Some code"
    "ledger_ok (rt_codec R) (ws_ledger ws')"
    "ledger_lookup (rt_codec R) (ws_ledger ws') key =
       Some (import_event (rt_codec R) q who now (failure_payload (rt_codec R) (selection_of q) code) [])"
    by metis
  have "get_by_idempotency (rt_codec R) (ws_ledger ws'') key =
      Inr (Some (import_event (rt_codec R) q who now (failure_payload (rt_codec R) (selection_of q) code) []))"
    using lookup_after [OF f(3,4)] assms(7) by simp
  from import_artifact_again [OF assms(9,8) this] show ?thesis
    using replay_failure [OF refl, where code = code] replay_errors_code [OF f(2)] f(1)
    by (simp add: replayed_failure_def split: import_failure.splits)
qed

end
