(* ===== verification/Proposals.thy ===== *)
theory Proposals
  imports Import_Replay
begin

text \<open>
  \<open>proposals/contracts.py\<close>, \<open>proposals/repository.py\<close>, \<open>proposals/service.py\<close>: the candidate
  associations of imported artifacts, projected from the ledger, and the human decision on one
  of them.  What other processes append while a decision is taken is an argument.
\<close>

section \<open>The projection\<close>

datatype review_verdict = ApprovedProposal | RejectedProposal

fun review_text :: "review_verdict \<Rightarrow> string" where
  "review_text ApprovedProposal = ''approved''"
| "review_text RejectedProposal = ''rejected''"

datatype proposal_state = PendingProposal | ResolvedProposal review_verdict

text \<open>The literals the contract of the projection admits.\<close>

definition proposal_state_of :: "string \<Rightarrow> proposal_state option" where
  "proposal_state_of s = map_of [(''pending_review'', PendingProposal),
     (''approved'', ResolvedProposal ApprovedProposal), (''rejected'', ResolvedProposal RejectedProposal)] s"

record proposal =
  pj_id :: string
  pj_state :: proposal_state
  pj_target :: string
  pj_ref :: string
  pj_name :: string
  pj_created :: int
  pj_decision :: "string option"
  pj_decided_at :: "int option"
  pj_decided_by :: "string option"

datatype proposal_trouble =
    ProposalHttp nat string
  | ProposalStore store_error
  | ProposalEvent event_error
  | ProposalInvalid
  | ProposalUnresolved

text \<open>
  The entries of the dictionary of decisions; \<open>str\<close> of a value that is no string is never the
  identity of an event.
\<close>

definition is_review :: "event \<Rightarrow> bool" where
  "is_review e \<longleftrightarrow> jget (ev_payload e) ''operation'' = Some (JStr ''artifact_association_review'') \<and>
     ev_type e \<in> {Approval, Retraction}"

definition decision_for :: "event list \<Rightarrow> string \<Rightarrow> event option" where
  "decision_for es i =
     last_match (\<lambda>e. is_review e \<and> jget (ev_payload e) ''proposal_id'' = Some (JStr i)) es"

definition is_association :: "event \<Rightarrow> bool" where
  "is_association e \<longleftrightarrow> ev_type e = MemoryProposal \<and>
     jget (ev_payload e) ''operation'' = Some (JStr ''artifact_association'') \<and>
     jget (ev_payload e) ''status'' = Some (JStr ''pending_review'') \<and>
     length (ev_artifact_refs e) = 1 \<and> length (ev_parents e) = 1"

text \<open>The state the projection of a proposal would have; \<open>None\<close> where its contract rejects it.\<close>

definition decided_state :: "event option \<Rightarrow> proposal_state option" where
  "decided_state d =
     (case d of
        None \<Rightarrow> Some PendingProposal
      | Some e \<Rightarrow> (case jget (ev_payload e) ''decision'' of Some (JStr s) \<Rightarrow> proposal_state_of s | _ \<Rightarrow> None))"

text \<open>One round of the loop: an event that is skipped is \<open>None\<close>.\<close>

definition project_proposal :: "event list \<Rightarrow> event \<Rightarrow> proposal_trouble + proposal option" where
  "project_proposal es e =
     (if \<not> is_association e then Inr None
      else (case last_match (\<lambda>p. ev_id p = hd (ev_parents e)) es of
          None \<Rightarrow> Inr None
        | Some imported_event \<Rightarrow>
          if jget (ev_payload imported_event) ''operation'' \<noteq> Some (JStr ''artifact_import'') then Inr None
          else let d = decision_for es (ev_id e) in
            (case (decided_state d, jget (ev_payload e) ''target_record_id'',
                   jget (ev_payload imported_event) ''source_name'') of
               (Some state, Some (JStr target), Some (JStr name)) \<Rightarrow>
                 if is_memory_node_id target
                 then Inr (Some \<lparr> pj_id = ev_id e, pj_state = state, pj_target = target,
                   pj_ref = hd (ev_artifact_refs e), pj_name = name, pj_created = ev_observed_at e,
                   pj_decision = map_option ev_id d, pj_decided_at = map_option ev_observed_at d,
                   pj_decided_by = map_option (actor_id \<circ> ev_actor) d \<rparr>)
                 else Inl ProposalInvalid
             | _ \<Rightarrow> Inl ProposalInvalid)))"

definition project_memory_proposals :: "event list \<Rightarrow> proposal_trouble + proposal list" where
  "project_memory_proposals es =
     try_bind (map_result (project_proposal es) es) (\<lambda>vs. Inr (List.map_filter (\<lambda>v. v) vs))"

section \<open>The decision\<close>

record review_request =
  rr_id :: string
  rr_observed :: int
  rr_verdict :: review_verdict

text \<open>\<open>_projection\<close>\<close>

definition proposal_of :: "codec \<Rightarrow> ledger \<Rightarrow> string \<Rightarrow> proposal_trouble + proposal option" where
  "proposal_of C rows i =
     (case iter_all C rows of
        Inl x \<Rightarrow> Inl (ProposalStore x)
      | Inr es \<Rightarrow> try_bind (project_memory_proposals es) (\<lambda>vs. Inr (find (\<lambda>v. pj_id v = i) vs)))"

definition review_kind :: "review_verdict \<Rightarrow> event_type" where
  "review_kind v = (case v of ApprovedProposal \<Rightarrow> Approval | RejectedProposal \<Rightarrow> Retraction)"

definition review_conflict :: proposal_trouble where
  "review_conflict = ProposalHttp 409 ''idempotency_conflict''"

definition already_resolved :: proposal_trouble where
  "already_resolved = ProposalHttp 409 ''proposal_already_resolved''"

definition same_review :: "event \<Rightarrow> string \<Rightarrow> review_request \<Rightarrow> string \<Rightarrow> bool" where
  "same_review e i q who \<longleftrightarrow>
     ev_id e = rr_id q \<and> ev_observed_at e = rr_observed q \<and> actor_id (ev_actor e) = who \<and>
     ev_type e = review_kind (rr_verdict q) \<and> ev_parents e = [i] \<and>
     jget (ev_payload e) ''operation'' = Some (JStr ''artifact_association_review'') \<and>
     jget (ev_payload e) ''proposal_id'' = Some (JStr i) \<and>
     jget (ev_payload e) ''decision'' = Some (JStr (review_text (rr_verdict q)))"

text \<open>The answer to a request whose key is known.\<close>

definition replay_review ::
    "codec \<Rightarrow> ledger \<Rightarrow> string \<Rightarrow> review_request \<Rightarrow> string \<Rightarrow> event \<Rightarrow> proposal_trouble + proposal" where
  "replay_review C rows i q who existing =
     (if \<not> same_review existing i q who then Inl review_conflict
      else try_bind (proposal_of C rows i) (\<lambda>v.
        case v of
          Some p \<Rightarrow>
            if pj_state p = ResolvedProposal (rr_verdict q) \<and> pj_decision p = Some (ev_id existing)
            then Inr p else Inl review_conflict
        | None \<Rightarrow> Inl review_conflict))"

definition review_event ::
    "codec \<Rightarrow> string \<Rightarrow> review_request \<Rightarrow> string \<Rightarrow> int \<Rightarrow> proposal \<Rightarrow> event \<Rightarrow> event" where
  "review_event C i q who now p proposal_event =
     (let payload = jobj
        [ (''operation'', JStr ''artifact_association_review''), (''proposal_id'', JStr i),
          (''decision'', JStr (review_text (rr_verdict q))), (''target_record_id'', JStr (pj_target p)) ] in
      \<lparr> ev_id = rr_id q, ev_session = ev_session proposal_event, ev_run = ev_run proposal_event,
        ev_task = ev_task proposal_event, ev_actor = \<lparr> actor_id = who, actor_kind = Human \<rparr>,
        ev_type = review_kind (rr_verdict q), ev_observed_at = rr_observed q, ev_recorded_at = now,
        ev_payload_hash = canonical_payload_hash C payload, ev_artifact_refs = ev_artifact_refs proposal_event,
        ev_parents = [i], ev_trust = HumanVerified, ev_sensitivity = ev_sensitivity proposal_event,
        ev_payload = payload, ev_model = None \<rparr>)"

text \<open>
  The append and what follows it; \<open>race\<close> is what other processes have appended since the
  proposal was read.
\<close>

definition append_review ::
    "runtime \<Rightarrow> (ledger \<Rightarrow> ledger) \<Rightarrow> string \<Rightarrow> review_request \<Rightarrow> string \<Rightarrow> event \<Rightarrow> workspace
      \<Rightarrow> (proposal_trouble + proposal) \<times> workspace" where
  "append_review R race i q key e ws =
     (let C = rt_codec R in
      case validate_event C e of
        Inl x \<Rightarrow> (Inl (ProposalEvent x), ws)
      | Inr e' \<Rightarrow>
        (case append_event C (Some (artifact_verified R (ws_files ws))) (race (ws_ledger ws)) e' key of
           (Inl EventConstraint, rows) \<Rightarrow> (Inl already_resolved, ws\<lparr>ws_ledger := rows\<rparr>)
         | (Inl IdempotencyConflict, rows) \<Rightarrow> (Inl review_conflict, ws\<lparr>ws_ledger := rows\<rparr>)
         | (Inl x, rows) \<Rightarrow> (Inl (ProposalStore x), ws\<lparr>ws_ledger := rows\<rparr>)
         | (Inr _, rows) \<Rightarrow>
             (try_bind (proposal_of C rows i) (\<lambda>v.
                case v of
                  Some p \<Rightarrow> if pj_state p = ResolvedProposal (rr_verdict q) then Inr p else Inl ProposalUnresolved
                | None \<Rightarrow> Inl ProposalUnresolved),
              ws\<lparr>ws_ledger := rows\<rparr>)))"

definition review_new ::
    "runtime \<Rightarrow> (ledger \<Rightarrow> ledger) \<Rightarrow> string \<Rightarrow> review_request \<Rightarrow> string \<Rightarrow> string \<Rightarrow> int \<Rightarrow> workspace
      \<Rightarrow> (proposal_trouble + proposal) \<times> workspace" where
  "review_new R race i q key who now ws =
     (let C = rt_codec R in
      case proposal_of C (ws_ledger ws) i of
        Inl x \<Rightarrow> (Inl x, ws)
      | Inr None \<Rightarrow> (Inl (ProposalHttp 404 ''proposal_not_found''), ws)
      | Inr (Some p) \<Rightarrow>
          if pj_state p \<noteq> PendingProposal then (Inl already_resolved, ws)
          else (case get_event C (ws_ledger ws) i of
              Inl x \<Rightarrow> (Inl (ProposalStore x), ws)
            | Inr None \<Rightarrow> (Inl (ProposalHttp 409 ''proposal_unreadable''), ws)
            | Inr (Some proposal_event) \<Rightarrow>
                append_review R race i q key (review_event C i q who now p proposal_event) ws))"

definition decide_memory_proposal ::
    "runtime \<Rightarrow> (ledger \<Rightarrow> ledger) \<Rightarrow> string \<Rightarrow> review_request \<Rightarrow> string \<Rightarrow> string \<Rightarrow> int \<Rightarrow> workspace
      \<Rightarrow> (proposal_trouble + proposal) \<times> workspace" where
  "decide_memory_proposal R race i q key who now ws =
     (case get_by_idempotency (rt_codec R) (ws_ledger ws) key of
        Inl x \<Rightarrow> (Inl (ProposalStore x), ws)
      | Inr (Some existing) \<Rightarrow> (replay_review (rt_codec R) (ws_ledger ws) i q who existing, ws)
      | Inr None \<Rightarrow> review_new R race i q key who now ws)"

section \<open>The projection of a well-formed ledger\<close>

lemma project_proposal_Some:
  assumes "project_proposal es e = Inr (Some v)"
  obtains imported_event state where "is_association e"
    "last_match (\<lambda>p. ev_id p = hd (ev_parents e)) es = Some imported_event"
    "jget (ev_payload imported_event) ''operation'' = Some (JStr ''artifact_import'')"
    "decided_state (decision_for es (ev_id e)) = Some (pj_state v)"
    "pj_id v = ev_id e" "pj_decision v = map_option ev_id (decision_for es (ev_id e))"
  using assms
  by (auto simp: project_proposal_def Let_def split: if_splits option.splits jval.splits)

lemma project_memory_find:
  assumes "project_memory_proposals es = Inr vs" and "distinct (map ev_id es)"
  shows "find (\<lambda>v. pj_id v = i) vs = Some v \<longleftrightarrow>
    pj_id v = i \<and> (\<exists>e\<in>set es. project_proposal es e = Inr (Some v))"
proof -
  obtain ws where w: "list_all2 (\<lambda>e w. project_proposal es e = Inr w) es ws" "vs = List.map_filter (\<lambda>v. v) ws"
    using assms(1) by (auto simp: project_memory_proposals_def result_simps map_result_Inr_iff)
  have "find (\<lambda>v. pj_id v = i) (List.map_filter (\<lambda>v. v) ws) = Some v \<longleftrightarrow>
      pj_id v = i \<and> (\<exists>e\<in>set fs. project_proposal es e = Inr (Some v))"
    if "list_all2 (\<lambda>e w. project_proposal es e = Inr w) fs ws" "distinct (map ev_id fs)" for fs
    using that
  proof (induction rule: list_all2_induct)
    case (Cons f fs w ws)
    have same: "ev_id e = ev_id f" if "project_proposal es e = Inr (Some x)" "project_proposal es f = Inr (Some y)"
        "pj_id x = pj_id y" for e x y
      using that by (elim project_proposal_Some) simp
    show ?case
    proof (cases w)
      case None
      then show ?thesis using Cons by (simp add: map_filter_simps)
    next
      case (Some y)
      have "e \<notin> set fs" if "project_proposal es e = Inr (Some x)" "pj_id x = pj_id y" for e x
        using same [OF that(1) _ that(2)] Cons.hyps(1) Cons.prems Some by (metis distinct.simps(2) image_eqI list.simps(9) list.set_map)
      then show ?thesis using Cons Some by (auto simp: map_filter_simps)
    qed
  qed (simp add: map_filter_simps)
  then show ?thesis using w assms(2) by blast
qed

end
