(* ===== verification/Proposal_Safety.thy ===== *)
theory Proposal_Safety
  imports Proposals
begin

text \<open>
  What is promised of proposals: one decision each, final whatever is appended later and
  whoever races, and repeated as it was answered; and every associated import becomes one.
\<close>

section \<open>One review per proposal\<close>

lemma review_unique:
  assumes "distinct (filter (\<lambda>x. x \<noteq> None) (map association_review_key es))"
    and "x \<in> set es" and "y \<in> set es" and "association_review_key x = Some k" and "association_review_key y = Some k"
  shows "x = y"
  using assms by (induction es) (force split: if_splits)+

lemma review_key:
  "is_review e \<Longrightarrow> jget (ev_payload e) ''proposal_id'' = Some (JStr i) \<Longrightarrow> association_review_key e = Some (JStr i)"
  by (simp add: is_review_def association_review_key_def)

lemma log_ok_reviews: "log_ok C lg \<Longrightarrow> distinct (filter (\<lambda>x. x \<noteq> None) (map association_review_key (map fst lg)))"
  by (simp add: log_ok_def comp_def)

lemma log_ok_ids: "log_ok C lg \<Longrightarrow> distinct (map ev_id (map fst lg))"
  by (simp add: log_ok_def)

lemma last_match_unique:
  assumes "x \<in> set es" and "P x" and "\<And>y. y \<in> set es \<Longrightarrow> P y \<Longrightarrow> y = x"
  shows "last_match P es = Some x"
proof (cases "last_match P es")
  case None
  then show ?thesis using assms(1,2) by (simp add: last_match_None)
next
  case (Some y)
  then show ?thesis using last_match_Some [OF Some] assms(3) by blast
qed

lemma decision_for_Some:
  assumes "decision_for es i = Some d"
  shows "d \<in> set es" "is_review d" "jget (ev_payload d) ''proposal_id'' = Some (JStr i)"
  using last_match_Some [OF assms [unfolded decision_for_def]] by simp_all

text \<open>A decision is the one review of its proposal, now and later.\<close>

lemma decision_for_unique:
  assumes "log_ok C lg" and "d \<in> set (map fst lg)" and "is_review d"
    and "jget (ev_payload d) ''proposal_id'' = Some (JStr i)"
  shows "decision_for (map fst lg) i = Some d"
  unfolding decision_for_def
  by (rule last_match_unique) (use assms review_unique [OF log_ok_reviews [OF assms(1)]] review_key in blast)+

lemma same_id:
  "distinct (map ev_id es) \<Longrightarrow> x \<in> set es \<Longrightarrow> y \<in> set es \<Longrightarrow> ev_id x = ev_id y \<Longrightarrow> x = y"
  by (metis inj_on_eq_iff distinct_map)

lemma last_match_id:
  assumes "distinct (map ev_id es)" and "x \<in> set es" and "ev_id x = i"
  shows "last_match (\<lambda>p. ev_id p = i) es = Some x"
  by (rule last_match_unique) (use assms same_id in blast)+

text \<open>A resolved projection is kept.\<close>

lemma project_proposal_kept:
  assumes "project_proposal (map fst lg) e = Inr (Some v)" and "pj_state v \<noteq> PendingProposal"
    and "log_ok C lg'" and "map fst lg' = map fst lg @ new"
  shows "project_proposal (map fst lg') e = Inr (Some v)"
proof -
  let ?es = "map fst lg" and ?all = "map fst lg'"
  from assms(1) obtain p where p: "last_match (\<lambda>p. ev_id p = hd (ev_parents e)) ?es = Some p"
    "decided_state (decision_for ?es (ev_id e)) = Some (pj_state v)" by (rule project_proposal_Some) blast
  obtain d where d: "decision_for ?es (ev_id e) = Some d"
    using p(2) assms(2) by (cases "decision_for ?es (ev_id e)") (auto simp: decided_state_def)
  have sub: "set ?es \<subseteq> set ?all" using assms(4) by simp
  then have "decision_for ?all (ev_id e) = Some d"
    using decision_for_unique [OF assms(3)] decision_for_Some [OF d] by blast
  moreover have "last_match (\<lambda>p. ev_id p = hd (ev_parents e)) ?all = Some p"
    using last_match_id [OF log_ok_ids [OF assms(3)]] last_match_Some [OF p(1)] sub by blast
  ultimately have "project_proposal ?all e = project_proposal ?es e"
    by (simp only: project_proposal_def d p(1))
  then show ?thesis using assms(1) by simp
qed

lemma projection_log:
  assumes "codec_ok C" and "log_ok C lg"
  shows "proposal_of C (log_rows C lg) i = Inr (Some v) \<longleftrightarrow>
    (\<exists>vs. project_memory_proposals (map fst lg) = Inr vs) \<and> pj_id v = i \<and>
      (\<exists>e\<in>fst ` set lg. project_proposal (map fst lg) e = Inr (Some v))"
  using project_memory_find [OF _ log_ok_ids [OF assms(2)], of _ i v]
  by (auto simp: proposal_of_def iter_all_log [OF assms] result_simps)

lemma projection_kept:
  assumes "codec_ok C" and "log_ok C lg" and "log_ok C lg'" and "map fst lg' = map fst lg @ new"
    and "proposal_of C (log_rows C lg) i = Inr (Some v)" and "pj_state v \<noteq> PendingProposal"
    and "project_memory_proposals (map fst lg') = Inr vs"
  shows "proposal_of C (log_rows C lg') i = Inr (Some v)"
proof -
  obtain e where e: "e \<in> fst ` set lg" "project_proposal (map fst lg) e = Inr (Some v)" "pj_id v = i"
    using assms(5) unfolding projection_log [OF assms(1,2)] by blast
  have "set (map fst lg) \<subseteq> set (map fst lg')" unfolding assms(4) by simp
  then have "e \<in> fst ` set lg'" using e(1) by auto
  then show ?thesis
    using project_proposal_kept [OF e(2) assms(6,3,4)] e(3) assms(7) projection_log [OF assms(1,3)] by blast
qed

lemma projection_Inr_all:
  assumes "codec_ok C" and "log_ok C lg" and "proposal_of C (log_rows C lg) i = Inr w"
  obtains vs where "project_memory_proposals (map fst lg) = Inr vs"
  using assms by (auto simp: proposal_of_def iter_all_log result_simps)

section \<open>What an answered decision did\<close>

text \<open>What a ledger becomes by the appends of others.\<close>

lemma ledger_after_ok: "ledger_ok C rows \<Longrightarrow> ledger_ok C (ledger_after C artifacts rows txs)"
  using ledger.after_invar [of C rows artifacts txs] unfolding ledger.after_def ledger_after_def .

lemma ledger_after_grows:
  assumes "ledger_ok C rows"
  obtains lg lg' new where "codec_ok C" "log_ok C lg" "rows = log_rows C lg" "log_ok C lg'"
    "ledger_after C artifacts rows txs = log_rows C lg'" "map fst lg' = map fst lg @ new"
proof -
  obtain lg where l: "codec_ok C" "log_ok C lg" "rows = log_rows C lg" using assms by (rule ledger_okE)
  obtain lg' where l': "log_ok C lg'" "ledger_after C artifacts rows txs = log_rows C lg'"
    using ledger_after_ok [OF assms, of artifacts txs] by (rule ledger_okE)
  obtain new where "ledger_events C (ledger_after C artifacts rows txs) = ledger_events C rows @ new"
    using ledger.after_append_only [OF assms, of artifacts txs] unfolding ledger.after_def ledger_after_def by blast
  then show thesis using that [OF l l'] l l' by simp
qed

text \<open>
  An answer is the projection of the proposal, resolved as requested by the event under the key
  of the request.
\<close>

lemma review_event_simps [simp]:
  "ev_id (review_event C i q who now p e) = rr_id q" "ev_parents (review_event C i q who now p e) = [i]"
  "ev_artifact_refs (review_event C i q who now p e) = ev_artifact_refs e"
  by (simp_all add: review_event_def Let_def)

lemma review_event_same:
  "same_review (review_event C i q who now p e) i q who" "is_review (review_event C i q who now p e)"
  by (simp_all add: review_event_def same_review_def is_review_def review_kind_def Let_def split: review_verdict.splits)

lemma same_review_proposal:
  "same_review e i q who \<Longrightarrow> is_review e \<and> jget (ev_payload e) ''proposal_id'' = Some (JStr i)"
  by (auto simp: same_review_def is_review_def review_kind_def split: review_verdict.splits)

lemma append_review_Inr:
  assumes "append_review R race i q key e ws = (Inr v, ws')" and "ledger_ok (rt_codec R) (race (ws_ledger ws))"
  shows "ledger_ok (rt_codec R) (ws_ledger ws')" and "ledger_lookup (rt_codec R) (ws_ledger ws') key = Some e"
    and "proposal_of (rt_codec R) (ws_ledger ws') i = Inr (Some v)" and "pj_state v = ResolvedProposal (rr_verdict q)"
proof -
  let ?C = "rt_codec R" and ?A = "Some (artifact_verified R (ws_files ws))"
  obtain e' where v: "validate_event ?C e = Inr e'"
    using assms(1) by (cases "validate_event ?C e") (simp_all add: append_review_def)
  then have e: "e' = e" using validate_event_same by blast
  obtain r rows where a: "append_many ?C ?A (race (ws_ledger ws)) [(e, key)] = (r, rows)" by (meson surj_pair)
  obtain ids where r: "r = Inr ids"
    using assms(1) v a e by (cases r) (auto simp: append_review_def append_event_def split: store_error.splits)
  then have w: "ws' = ws\<lparr>ws_ledger := rows\<rparr>"
    "try_bind (proposal_of ?C rows i) (\<lambda>v. case v of
       Some p \<Rightarrow> if pj_state p = ResolvedProposal (rr_verdict q) then Inr p else Inl ProposalUnresolved
     | None \<Rightarrow> Inl ProposalUnresolved) = Inr v"
    using assms(1) v a e by (simp_all add: append_review_def append_event_def)
  show "ledger_ok ?C (ws_ledger ws')" using ledger.append_invar [OF assms(2) a] w(1) by simp
  show "ledger_lookup ?C (ws_ledger ws') key = Some e"
    using ledger.append_lookup [OF assms(2) a [unfolded r]] w(1) by simp
  show "proposal_of ?C (ws_ledger ws') i = Inr (Some v)" "pj_state v = ResolvedProposal (rr_verdict q)"
    using w by (auto simp: result_simps split: option.splits if_splits)
qed

text \<open>The decision a resolved projection names is the review in the ledger.\<close>

lemma projection_decision:
  assumes "ledger_ok C rows" and "proposal_of C rows i = Inr (Some v)" and "ledger_lookup C rows key = Some e"
    and "same_review e i q who"
  shows "pj_decision v = Some (ev_id e)"
proof -
  obtain lg where l: "codec_ok C" "log_ok C lg" "rows = log_rows C lg" using assms(1) by (rule ledger_okE)
  then obtain f where f: "project_proposal (map fst lg) f = Inr (Some v)" "pj_id v = i"
    using assms(2) projection_log [OF l(1,2)] by blast
  have "e \<in> set (map fst lg)" using ledger.lookup_recorded [OF assms(1,3)] l by simp
  then have "decision_for (map fst lg) i = Some e"
    using decision_for_unique [OF l(2)] same_review_proposal [OF assms(4)] by blast
  with f show ?thesis by (elim project_proposal_Some) auto
qed

lemma decide_answer:
  assumes "decide_memory_proposal R race i q key who now ws = (Inr v, ws')"
    and "ledger_ok (rt_codec R) (ws_ledger ws)" and "ledger_ok (rt_codec R) (race (ws_ledger ws))"
  obtains e where "ledger_ok (rt_codec R) (ws_ledger ws')" "proposal_of (rt_codec R) (ws_ledger ws') i = Inr (Some v)"
    "pj_state v = ResolvedProposal (rr_verdict q)" "ledger_lookup (rt_codec R) (ws_ledger ws') key = Some e"
    "same_review e i q who" "pj_decision v = Some (ev_id e)"
    "get_by_idempotency (rt_codec R) (ws_ledger ws) key \<noteq> Inr None \<Longrightarrow> ws' = ws"
    "get_by_idempotency (rt_codec R) (ws_ledger ws) key = Inr None \<Longrightarrow>
      \<exists>p. proposal_of (rt_codec R) (ws_ledger ws) i = Inr (Some p) \<and> pj_state p = PendingProposal"
proof (cases "get_by_idempotency (rt_codec R) (ws_ledger ws) key")
  case (Inl x)
  then show thesis using assms(1) by (simp add: decide_memory_proposal_def)
next
  case known: (Inr known)
  show thesis
  proof (cases known)
    case (Some e)
    then have r: "replay_review (rt_codec R) (ws_ledger ws) i q who e = Inr v" "ws' = ws"
      using assms(1) known by (auto simp: decide_memory_proposal_def)
    then have "same_review e i q who" "proposal_of (rt_codec R) (ws_ledger ws) i = Inr (Some v)"
      "pj_state v = ResolvedProposal (rr_verdict q)" "pj_decision v = Some (ev_id e)"
      by (auto simp: replay_review_def result_simps split: if_splits option.splits)
    then show thesis using that [of e] assms(2) r(2) known Some by (simp add: lookup_get)
  next
    case None
    then have n: "review_new R race i q key who now ws = (Inr v, ws')"
      using assms(1) known by (simp add: decide_memory_proposal_def)
    obtain p where p: "proposal_of (rt_codec R) (ws_ledger ws) i = Inr (Some p)" "pj_state p = PendingProposal"
      using n by (auto simp: review_new_def Let_def split: sum.splits option.splits if_splits)
    obtain pe where "append_review R race i q key (review_event (rt_codec R) i q who now p pe) ws = (Inr v, ws')"
      using n p by (auto simp: review_new_def Let_def split: sum.splits option.splits)
    note a = append_review_Inr [OF this assms(3)]
    show thesis
      using that [OF a(1,3,4,2) review_event_same(1)] projection_decision [OF a(1,3,2) review_event_same(1)]
        known None p by blast
  qed
qed

section \<open>A decision is final\<close>

text \<open>
  C15: a proposal is decided once: after any decision on it was answered, whatever was appended
  since and whoever races, every later request that is answered at all gets the very same
  resolved proposal, with the same verdict, and appends nothing.
\<close>

theorem proposal_decision_is_final:
  assumes "ledger_ok (rt_codec R) (ws_ledger ws)"
    and "race (ws_ledger ws) = ledger_after (rt_codec R) artifacts (ws_ledger ws) txs"
    and "decide_memory_proposal R race i q key who now ws = (Inr v, ws')"
    and "ws_ledger ws'' = ledger_after (rt_codec R) artifacts' (ws_ledger ws') txs'"
    and "race' (ws_ledger ws'') = ledger_after (rt_codec R) artifacts'' (ws_ledger ws'') txs''"
    and "decide_memory_proposal R race' i q' key' who' now' ws'' = (Inr v', ws3)"
  shows "v' = v \<and> ws3 = ws'' \<and> rr_verdict q' = rr_verdict q \<and> rr_id q' = rr_id q \<and> who' = who"
proof -
  let ?C = "rt_codec R"
  have "ledger_ok ?C (race (ws_ledger ws))" using ledger_after_ok [OF assms(1)] assms(2) by simp
  from decide_answer [OF assms(3,1) this] obtain e where e: "ledger_ok ?C (ws_ledger ws')"
    "proposal_of ?C (ws_ledger ws') i = Inr (Some v)" "pj_state v = ResolvedProposal (rr_verdict q)"
    "same_review e i q who" "pj_decision v = Some (ev_id e)" "ledger_lookup ?C (ws_ledger ws') key = Some e" by blast
  have ok: "ledger_ok ?C (ws_ledger ws'')" using ledger_after_ok [OF e(1)] assms(4) by simp
  have "ledger_ok ?C (race' (ws_ledger ws''))" using ledger_after_ok [OF ok] assms(5) by simp
  from decide_answer [OF assms(6) ok this] obtain e' where e': "ledger_ok ?C (ws_ledger ws3)"
    "proposal_of ?C (ws_ledger ws3) i = Inr (Some v')" "pj_state v' = ResolvedProposal (rr_verdict q')"
    "same_review e' i q' who'" "pj_decision v' = Some (ev_id e')" "ledger_lookup ?C (ws_ledger ws3) key' = Some e'"
    "get_by_idempotency ?C (ws_ledger ws'') key' \<noteq> Inr None \<Longrightarrow> ws3 = ws''"
    "get_by_idempotency ?C (ws_ledger ws'') key' = Inr None \<Longrightarrow>
      \<exists>p. proposal_of ?C (ws_ledger ws'') i = Inr (Some p) \<and> pj_state p = PendingProposal" by metis
  obtain lg lg' new where l: "codec_ok ?C" "log_ok ?C lg" "ws_ledger ws' = log_rows ?C lg" "log_ok ?C lg'"
    "ws_ledger ws'' = log_rows ?C lg'" "map fst lg' = map fst lg @ new"
    using ledger_after_grows [OF e(1), of artifacts' txs'] assms(4) by metis
  have kept: "proposal_of ?C (ws_ledger ws'') i = Inr (Some v)" if "proposal_of ?C (ws_ledger ws'') i = Inr w" for w
  proof -
    obtain vs where "project_memory_proposals (map fst lg') = Inr vs"
      using \<open>proposal_of ?C (ws_ledger ws'') i = Inr w\<close> projection_Inr_all [OF l(1,4)] l(5) by metis
    then show ?thesis using projection_kept [OF l(1,2,4,6)] e(2,3) l(3,5) by simp
  qed
  have known: "get_by_idempotency ?C (ws_ledger ws'') key' \<noteq> Inr None"
    using e'(8) kept e(3) by force
  then have same: "ws3 = ws''" using e'(7) by simp
  have v: "v' = v" using kept e'(2) same by simp
  have "e' \<in> set (ledger_events ?C (ws_ledger ws''))" "e \<in> set (ledger_events ?C (ws_ledger ws''))"
  proof -
    show "e' \<in> set (ledger_events ?C (ws_ledger ws''))" using ledger.lookup_recorded [OF e'(1,6)] same by simp
    show "e \<in> set (ledger_events ?C (ws_ledger ws''))"
      using ledger.lookup_recorded [OF e(1,6)] l(1-6) by simp
  qed
  then have "e' = e"
    using same_id [OF ledger.recorded_distinct [OF ok]] e(5) e'(5) v by simp
  then show ?thesis using v same e(3,4) e'(3,4) by (auto simp: same_review_def)
qed

text \<open>
  A decision that was answered is answered again: the same request under its key returns
  the same resolved proposal and changes nothing, whatever was appended since, as long as the
  ledger can be projected.
\<close>

theorem answered_review_replays:
  assumes "ledger_ok (rt_codec R) (ws_ledger ws)"
    and "race (ws_ledger ws) = ledger_after (rt_codec R) artifacts (ws_ledger ws) txs"
    and "decide_memory_proposal R race i q key who now ws = (Inr v, ws')"
    and "ws_ledger ws'' = ledger_after (rt_codec R) artifacts' (ws_ledger ws') txs'"
    and "project_memory_proposals (ledger_events (rt_codec R) (ws_ledger ws'')) = Inr vs"
  shows "decide_memory_proposal R race' i q key who now' ws'' = (Inr v, ws'')"
proof -
  let ?C = "rt_codec R"
  have "ledger_ok ?C (race (ws_ledger ws))" using ledger_after_ok [OF assms(1)] assms(2) by simp
  from decide_answer [OF assms(3,1) this] obtain e where e: "ledger_ok ?C (ws_ledger ws')"
    "proposal_of ?C (ws_ledger ws') i = Inr (Some v)" "pj_state v = ResolvedProposal (rr_verdict q)"
    "same_review e i q who" "pj_decision v = Some (ev_id e)" "ledger_lookup ?C (ws_ledger ws') key = Some e" by blast
  obtain lg lg' new where l: "codec_ok ?C" "log_ok ?C lg" "ws_ledger ws' = log_rows ?C lg" "log_ok ?C lg'"
    "ws_ledger ws'' = log_rows ?C lg'" "map fst lg' = map fst lg @ new"
    using ledger_after_grows [OF e(1), of artifacts' txs'] assms(4) by metis
  have "project_memory_proposals (map fst lg') = Inr vs" using assms(5) l(1,4,5) by simp
  then have "proposal_of ?C (ws_ledger ws'') i = Inr (Some v)"
    using projection_kept [OF l(1,2,4,6)] e(2,3) l(3,5) by simp
  moreover have "get_by_idempotency ?C (ws_ledger ws'') key = Inr (Some e)"
    using lookup_after [OF e(1,6)] assms(4) by simp
  ultimately show ?thesis
    using e(3-5) by (simp add: decide_memory_proposal_def replay_review_def)
qed

section \<open>A lost race\<close>

text \<open>
  Of two reviewers who decide at the same time one wins: when the review of the other was
  appended between the check and the append, the request is answered with
  \<open>proposal_already_resolved\<close> and appends nothing.
\<close>

theorem lost_race_is_refused:
  assumes "ledger_ok (rt_codec R) (ws_ledger ws)"
    and "get_by_idempotency (rt_codec R) (ws_ledger ws) key = Inr None"
    and "proposal_of (rt_codec R) (ws_ledger ws) i = Inr (Some p)" and "pj_state p = PendingProposal"
    and "get_event (rt_codec R) (ws_ledger ws) i = Inr (Some proposal_event)"
    and "valid_event (rt_codec R) (review_event (rt_codec R) i q who now p proposal_event)"
    and "list_all (artifact_verified R (ws_files ws)) (ev_artifact_refs proposal_event)"
    and "race (ws_ledger ws) = ledger_after (rt_codec R) artifacts (ws_ledger ws) txs"
    and "ledger_lookup (rt_codec R) (race (ws_ledger ws)) key = None"
    and "rr_id q \<notin> ev_id ` set (ledger_events (rt_codec R) (race (ws_ledger ws)))"
    and "other \<in> set (ledger_events (rt_codec R) (race (ws_ledger ws)))" and "is_review other"
    and "jget (ev_payload other) ''proposal_id'' = Some (JStr i)"
  shows "decide_memory_proposal R race i q key who now ws =
    (Inl already_resolved, ws\<lparr>ws_ledger := race (ws_ledger ws)\<rparr>)"
proof -
  let ?C = "rt_codec R" and ?A = "Some (artifact_verified R (ws_files ws))"
  let ?e = "review_event ?C i q who now p proposal_event"
  obtain lg lg' new where l: "codec_ok ?C" "log_ok ?C lg" "ws_ledger ws = log_rows ?C lg" "log_ok ?C lg'"
    "race (ws_ledger ws) = log_rows ?C lg'" "map fst lg' = map fst lg @ new"
    using ledger_after_grows [OF assms(1), of artifacts txs] assms(8) by metis
  have k: "is_idempotency_key key" using assms(2) by (simp add: get_by_idempotency_def split: if_splits)
  have i: "i \<in> set (map (ev_id \<circ> fst) lg')"
  proof -
    obtain f where "f \<in> fst ` set lg" "ev_id f = i"
      using assms(3) unfolding l(3) projection_log [OF l(1,2)] by (metis project_proposal_Some)
    moreover have "set (map fst lg) \<subseteq> set (map fst lg')" unfolding l(6) by simp
    ultimately show ?thesis by force
  qed
  have "find (\<lambda>(_, k). k = key) lg' = None"
    using assms(9) k unfolding l(5) by (simp add: ledger_lookup_def get_by_idempotency_log [OF l(1,4)])
  moreover have "find (\<lambda>p. p \<notin> set (map (ev_id \<circ> fst) lg')) (ev_parents ?e) = None" using i by simp
  moreover have "unresolved_reference ?A ?e = None"
    using assms(7) by (auto simp: unresolved_reference_def find_None_iff list_all_iff)
  moreover have "ev_id ?e \<notin> set (map (ev_id \<circ> fst) lg')"
    using assms(10) unfolding l(5) ledger_events_log [OF l(1,4)] by auto
  moreover have "association_review_key ?e = Some (JStr i)"
    using review_key [OF review_event_same(2)] by (simp add: review_event_def Let_def)
  moreover have "Some (JStr i) \<in> set (map (association_review_key \<circ> fst) lg')"
    using assms(11) review_key [OF assms(12,13)] unfolding l(5) ledger_events_log [OF l(1,4)] by force
  ultimately have "spec_append_one ?C ?A lg' ?e key = Inl EventConstraint"
    using assms(6) k by (simp add: spec_append_one_def)
  then have "append_event ?C ?A (race (ws_ledger ws)) ?e key = (Inl EventConstraint, race (ws_ledger ws))"
    unfolding append_event_def append_many_def l(5) using append_loop_refines [OF l(1,4), of ?A "[(?e, key)]"] by simp
  moreover have "validate_event ?C ?e = Inr ?e" using assms(6) by (simp add: valid_event_def)
  ultimately have "append_review R race i q key ?e ws = (Inl already_resolved, ws\<lparr>ws_ledger := race (ws_ledger ws)\<rparr>)"
    by (simp add: append_review_def)
  then show ?thesis
    using assms(2-5) by (simp add: decide_memory_proposal_def review_new_def)
qed

section \<open>An associated import becomes a proposal\<close>

lemma record_event_log:
  assumes "record_event R e key ws = (Inr u, ws')" and "codec_ok (rt_codec R)" and "log_ok (rt_codec R) lg"
    and "ws_ledger ws = log_rows (rt_codec R) lg"
  obtains lg' where "log_ok (rt_codec R) lg'" "ws_ledger ws' = log_rows (rt_codec R) lg'"
    "lg' = lg @ [(e, key)] \<or> lg' = lg \<and> (e, key) \<in> set lg" "set (ev_parents e) \<subseteq> ev_id ` fst ` set lg"
proof -
  obtain ids rows where w: "ws' = ws\<lparr>ws_ledger := rows\<rparr>"
    "append_many (rt_codec R) (Some (artifact_verified R (ws_files ws))) (ws_ledger ws) [(e, key)] = (Inr ids, rows)"
    using assms(1) by (rule record_event_written)
  obtain lg' where a: "spec_append_loop (rt_codec R) (Some (artifact_verified R (ws_files ws))) lg [(e, key)] = Inr (lg', ids)"
    "rows = log_rows (rt_codec R) lg'"
    using append_many_log [OF assms(2,3)] w(2) assms(4) by metis
  then obtain j where j: "spec_append_one (rt_codec R) (Some (artifact_verified R (ws_files ws))) lg e key = Inr (lg', j)"
    by (auto split: sum.splits prod.splits)
  show thesis
    using that [of lg'] spec_append_one_ok [OF assms(3) j] spec_append_one_admitted(4) [OF j] a(2) w(1)
    by (auto simp: image_image)
qed

lemma causal_parents: "causal_order es \<Longrightarrow> f \<in> set es \<Longrightarrow> set (ev_parents f) \<subseteq> ev_id ` set es"
proof -
  assume order: "causal_order es" and "f \<in> set es"
  then obtain k where k: "k < length es" "es ! k = f" unfolding in_set_conv_nth by blast
  then have "set (ev_parents f) \<subseteq> ev_id ` set (take k es)" using order by (auto simp: causal_order_def)
  moreover have "set (take k es) \<subseteq> set es" by (rule set_take_subset)
  ultimately show ?thesis by blast
qed

text \<open>Events that review nothing and parent nothing leave the projection of the others alone.\<close>

lemma project_proposal_extended:
  assumes "causal_order es" and "f \<in> set es" and "\<And>x. x \<in> set new \<Longrightarrow> \<not> is_review x"
    and "distinct (map ev_id (es @ new))"
  shows "project_proposal (es @ new) f = project_proposal es f"
proof (cases "is_association f")
  case True
  then have "hd (ev_parents f) \<in> set (ev_parents f)" by (cases "ev_parents f") (auto simp: is_association_def)
  then obtain p where p: "p \<in> set es" "ev_id p = hd (ev_parents f)" using causal_parents [OF assms(1,2)] by auto
  have "last_match (\<lambda>p. ev_id p = hd (ev_parents f)) (es @ new) = Some p"
    "last_match (\<lambda>p. ev_id p = hd (ev_parents f)) es = Some p"
    by (rule last_match_id; use assms(4) p in simp)+
  moreover have "decision_for (es @ new) i = decision_for es i" for i
    using assms(3)
  proof (induction new rule: rev_induct)
    case (snoc x new)
    then show ?case by (simp add: decision_for_def flip: append_assoc)
  qed simp
  ultimately show ?thesis by (simp only: project_proposal_def)
qed (simp add: project_proposal_def)

lemma map_result_append:
  "map_result f (xs @ ys) = try_bind (map_result f xs) (\<lambda>as. try_bind (map_result f ys) (\<lambda>bs. Inr (as @ bs)))"
proof (induction xs)
  case Nil
  show ?case by (cases "map_result f ys") simp_all
next
  case (Cons x xs)
  then show ?case by (cases "f x"; cases "map_result f xs"; cases "map_result f ys") simp_all
qed

text \<open>The proposal an associated import makes.\<close>

definition pending_proposal :: "import_request \<Rightarrow> imported \<Rightarrow> string \<Rightarrow> string \<Rightarrow> proposal" where
  "pending_proposal q m i target =
     \<lparr> pj_id = i, pj_state = PendingProposal, pj_target = target, pj_ref = im_ref m, pj_name = im_name m,
       pj_created = ir_observed q, pj_decision = None, pj_decided_at = None, pj_decided_by = None \<rparr>"

lemma association_target_id:
  assumes "association_target db vault q = Inr (Some t)" and "memory_ok db"
  shows "ir_record q = Some t"
proof -
  obtain r where r: "ir_record q = Some r" using assms(1) by (auto simp: association_target_def split: option.splits)
  have "t = r"
  proof (cases "starts_with ''mem_'' r")
    case True
    then obtain m where "get_memory db r = Some m" "mem_id m = t"
      using assms(1) r by (auto simp: association_target_def result_simps split: if_splits)
    then show ?thesis using get_memory_state [OF assms(2)] by metis
  next
    case False
    then show ?thesis
      using assms(1) r by (auto simp: association_target_def result_simps dest!: find_Some_mem split: option.splits if_splits)
  qed
  then show ?thesis using r by simp
qed

text \<open>What a fresh associated import adds to the log: its event, and behind it the association.\<close>

lemma associated_import_log:
  assumes "ledger_ok (rt_codec R) (ws_ledger ws)" and "memory_ok (ws_memory ws)"
    and "get_by_idempotency (rt_codec R) (ws_ledger ws) key = Inr None"
    and "import_artifact R vault scopes probe q key who now ws = (Inr resp, ws')"
    and "rp_association resp = CandidateOf t i"
    and "e = import_event (rt_codec R) q who now (success_payload (rt_codec R) (selection_of q) (rp_artifact resp))
      [im_ref (rp_artifact resp)]"
    and "a = outcome_event (rt_codec R) (audit_of q who now) i MemoryProposal [ir_id q] (association_payload t)
      [im_ref (rp_artifact resp)]"
  obtains lg lg' where "ir_record q = Some t" "codec_ok (rt_codec R)" "log_ok (rt_codec R) lg"
    "ws_ledger ws = log_rows (rt_codec R) lg" "log_ok (rt_codec R) lg'" "ws_ledger ws' = log_rows (rt_codec R) lg'"
    "map fst lg' = map fst lg @ [e, a]"
proof -
  let ?C = "rt_codec R"
  from import_artifact_steps [OF assms(4,3)] obtain target configured files ws1 where s:
    "association_target (ws_memory ws) vault q = Inr target" "configure_scopes scopes = Inr configured"
    "import_selected R import_policy configured probe (selection_of q) (ws_files ws) = (Inr (rp_artifact resp), files)"
    "record_event R e key (ws\<lparr>ws_files := files\<rparr>) = (Inr (), ws1)"
    "rp_event resp = ir_id q" "target = None \<longrightarrow> rp_association resp = Unattached \<and> ws' = ws1"
    "\<forall>t. target = Some t \<longrightarrow> rp_association resp = CandidateOf t (association_id ?C q) \<and>
       record_event R (outcome_event ?C (audit_of q who now) (association_id ?C q) MemoryProposal
         [ir_id q] (association_payload t) [im_ref (rp_artifact resp)]) (association_key ?C key) ws1 = (Inr (), ws')"
    unfolding assms(6) .
  have t: "target = Some t" "i = association_id ?C q"
    using s(6,7) assms(5) by (cases target; auto)+
  then have a: "record_event R a (association_key ?C key) ws1 = (Inr (), ws')" using s(7) assms(7) by simp
  have rec: "ir_record q = Some t" using association_target_id [OF _ assms(2)] s(1) t(1) by simp
  obtain lg where l: "codec_ok ?C" "log_ok ?C lg" "ws_ledger ws = log_rows ?C lg" using assms(1) by (rule ledger_okE)
  have "ws_ledger (ws\<lparr>ws_files := files\<rparr>) = log_rows ?C lg" using l(3) by simp
  from record_event_log [OF s(4) l(1,2) this] obtain lg1 where l1: "log_ok ?C lg1" "ws_ledger ws1 = log_rows ?C lg1"
    "lg1 = lg @ [(e, key)] \<or> lg1 = lg \<and> (e, key) \<in> set lg" .
  have "(e, key) \<notin> set lg"
    using assms(3) ledger_lookup_log [OF l(1,2), of key] l(3) by (auto simp: ledger_lookup_def)
  then have e1: "lg1 = lg @ [(e, key)]" using l1(3) by blast
  from record_event_log [OF a l(1) l1(1,2)] obtain lg2 where l2: "log_ok ?C lg2" "ws_ledger ws' = log_rows ?C lg2"
    "lg2 = lg1 @ [(a, association_key ?C key)] \<or> lg2 = lg1 \<and> (a, association_key ?C key) \<in> set lg1" .
  have fresh: "ir_id q \<notin> ev_id ` fst ` set lg"
    using l1(1) unfolding e1 by (simp add: log_ok_def import_event_def image_image assms(6))
  have parents: "set (ev_parents f) \<subseteq> ev_id ` fst ` set lg" if "f \<in> fst ` set lg" for f
    using causal_parents [of "map fst lg" f] l(2) that by (simp add: log_ok_def)
  have "(a, association_key ?C key) \<notin> set lg1"
  proof
    assume "(a, association_key ?C key) \<in> set lg1"
    then have "a \<in> fst ` set lg"
      unfolding e1 assms(6,7) by (force simp: import_event_def dest: arg_cong [where f = ev_type])
    then show False using parents fresh assms(7) by fastforce
  qed
  then have "map fst lg2 = map fst lg @ [e, a]" using l2(3) e1 by auto
  then show thesis using that rec l l2(1,2) by blast
qed

text \<open>Two such events behind a log add one pending proposal to what it shows.\<close>

lemma proposal_appended:
  assumes "e = import_event C q who now (success_payload C (selection_of q) m) [im_ref m]"
    and "a = outcome_event C (audit_of q who now) i MemoryProposal [ir_id q] (association_payload t) [im_ref m]"
    and "distinct (map ev_id (es @ [e, a]))" and "causal_order es" and "is_memory_node_id t"
    and "\<forall>e\<in>set es. association_review_key e \<noteq> Some (JStr i)" and "project_memory_proposals es = Inr vs"
  shows "project_memory_proposals (es @ [e, a]) = Inr (vs @ [pending_proposal q m i t])"
proof -
  have review: "\<not> is_review e" "\<not> is_review a" by (simp_all add: is_review_def import_event_def assms(1,2))
  have "map_result (project_proposal (es @ [e, a])) es = map_result (project_proposal es) es"
    using assms(4) review by (intro map_result_cong refl project_proposal_extended assms(3)) auto
  moreover have "project_proposal (es @ [e, a]) e = Inr None"
    by (simp add: project_proposal_def is_association_def import_event_def assms(1))
  moreover have "project_proposal (es @ [e, a]) a = Inr (Some (pending_proposal q m i t))"
  proof -
    have "last_match (\<lambda>p. ev_id p = ir_id q) (es @ [e, a]) = Some e"
      by (rule last_match_id [OF assms(3)]) (simp_all add: import_event_def assms(1))
    moreover have "decision_for (es @ [e, a]) i = None"
      unfolding decision_for_def last_match_None using review assms(6) review_key by auto
    ultimately show ?thesis
      using assms(5) unfolding assms(1,2)
      by (simp add: project_proposal_def is_association_def association_payload_def import_event_def success_payload_def
          decided_state_def pending_proposal_def)
  qed
  moreover obtain ws where "map_result (project_proposal es) es = Inr ws" "vs = List.map_filter (\<lambda>v. v) ws"
    using assms(7) by (auto simp: project_memory_proposals_def result_simps)
  ultimately show ?thesis by (simp add: project_memory_proposals_def map_result_append map_filter_def)
qed

text \<open>
  C29: imports and proposals compose: an import under a key that no event had before, which returns with a
  candidate association, adds exactly one proposal to the list, pending, of the requested record,
  the stored artifact and the name of its file, and leaves every other proposal as it was.  It is
  assumed that ledger and memory are well-formed, that the request satisfies its contract, that the proposals
  could be listed before, and that no earlier event reviews the identity derived for the
  association (the list would show the new proposal as decided).
\<close>

theorem import_becomes_proposal:
  assumes "ledger_ok (rt_codec R) (ws_ledger ws)" and "memory_ok (ws_memory ws)" and "valid_import_request q"
    and "get_by_idempotency (rt_codec R) (ws_ledger ws) key = Inr None"
    and "import_artifact R vault scopes probe q key who now ws = (Inr resp, ws')"
    and "rp_association resp = CandidateOf t i"
    and "project_memory_proposals (ledger_events (rt_codec R) (ws_ledger ws)) = Inr vs"
    and "\<forall>e\<in>set (ledger_events (rt_codec R) (ws_ledger ws)). association_review_key e \<noteq> Some (JStr i)"
  shows "ir_record q = Some t \<and> project_memory_proposals (ledger_events (rt_codec R) (ws_ledger ws')) =
    Inr (vs @ [pending_proposal q (rp_artifact resp) i t])"
proof -
  from associated_import_log [OF assms(1,2,4,5,6) refl refl] obtain lg lg' where l:
    "ir_record q = Some t" "codec_ok (rt_codec R)" "log_ok (rt_codec R) lg" "ws_ledger ws = log_rows (rt_codec R) lg"
    "log_ok (rt_codec R) lg'" "ws_ledger ws' = log_rows (rt_codec R) lg'"
    "map fst lg' = map fst lg @ [import_event (rt_codec R) q who now
       (success_payload (rt_codec R) (selection_of q) (rp_artifact resp)) [im_ref (rp_artifact resp)],
     outcome_event (rt_codec R) (audit_of q who now) i MemoryProposal [ir_id q] (association_payload t)
       [im_ref (rp_artifact resp)]]" .
  have es: "ledger_events (rt_codec R) (ws_ledger ws) = map fst lg" "ledger_events (rt_codec R) (ws_ledger ws') = map fst lg'"
    using l(2-6) by (simp_all add: ledger_events_log)
  have "is_memory_node_id t" using assms(3) l(1) by (simp add: valid_import_request_def)
  then show ?thesis
    using l(1) assms(7,8) log_ok_ids [OF l(5)] l(3) unfolding es l(7)
    by (auto intro!: proposal_appended simp: log_ok_def)
qed

end
