(* ===== verification/Import_Safety.thy ===== *)
theory Import_Safety
  imports Import_Replay
begin

text \<open>
  What an import reads and stores, what its listing of sources shows, and the configurations
  under which both stop working.
\<close>

section \<open>Only the selected file\<close>





text \<open>
  Every configured scope must be available: as long as one of them is missing, no new
  import succeeds, from whichever scope it selects, and nothing is recorded.
\<close>

theorem unavailable_scope_blocks_imports:
  assumes "(scope_id, p) \<in> set scopes" and "sc_link p = Missing"
    and "get_by_idempotency (rt_codec R) (ws_ledger ws) key = Inr None"
    and "association_target (ws_memory ws) vault q = Inr target"
  shows "\<exists>f. import_artifact R vault scopes probe q key who now ws = (Inl (ImportRaised f), ws)"
proof -
  have "\<exists>f. configure_scopes scopes = Inl f"
    using assms(1,2)
  proof (induction scopes)
    case (Cons x scopes)
    obtain j p' where "x = (j, p')" by (cases x)
    then show ?case using Cons by (auto simp: try_bind_def split: answer.splits bool.splits sum.splits)
  qed simp
  moreover have "scopes \<noteq> []" using assms(1) by auto
  ultimately show ?thesis using assms(3,4) by (auto simp: import_artifact_def import_new_def)
qed

section \<open>A process that dies between the two events\<close>

text \<open>
  An import whose process dies after its own event and before the event of its association
  can never be completed under its key: every repetition is refused as a conflict and changes
  nothing, as long as nobody else uses the derived key.
\<close>

theorem crashed_association_is_lost:
  assumes "ledger_ok (rt_codec R) (ws_ledger ws)"
    and "import_and_record R import_policy configured probe (selection_of q) (audit_of q who now) key ws = (Inr m, ws')"
    and "ws_ledger ws'' = ledger_after (rt_codec R) artifacts (ws_ledger ws') txs"
    and "get_by_idempotency (rt_codec R) (ws_ledger ws'') (association_key (rt_codec R) key) = Inr None"
    and "association_target (ws_memory ws'') vault' q = Inr (Some t)" and "scopes' \<noteq> []"
  shows "import_artifact R vault' scopes' probe' q key who' now' ws'' = (Inl import_conflict, ws'')"
proof -
  let ?C = "rt_codec R"
  let ?e = "import_event ?C q who now (success_payload ?C (selection_of q) m) [im_ref m]"
  from assms(2) obtain files where f:
    "import_selected R import_policy configured probe (selection_of q) (ws_files ws) = (Inr m, files)"
    "record_event R ?e key (ws\<lparr>ws_files := files\<rparr>) = (Inr (), ws')"
    by (rule import_and_record_Inr)
  have ok: "ledger_ok ?C (ws_ledger (ws\<lparr>ws_files := files\<rparr>))" using assms(1) by simp
  have "get_by_idempotency ?C (ws_ledger ws'') key = Inr (Some ?e)"
    using lookup_after [OF record_event_lookup(1,2) [OF f(2) ok]] assms(3) by simp
  from import_artifact_again [OF assms(6,5) this]
  have again: "import_artifact R vault' scopes' probe' q key who' now' ws'' = (replay_import R q key (Some t) ?e ws'', ws'')" .
  have scope: "im_scope m = ir_scope q" "is_scope_id (im_scope m)"
    using f(1) by (elim import_selected_Inr; simp add: selection_of_def valid_imported_def)+
  have status: "jget (ev_payload ?e) ''status'' = Some (JStr ''imported'')"
    by (simp add: import_event_def success_payload_def)
  have "replay_import R q key (Some t) ?e ws'' = Inl import_conflict"
  proof (cases "im_name m = last_segment (ir_target q)")
    case True
    then have "import_event_matches ?C ?e q" using import_event_matches_success [OF scope(1)] by simp
    then show ?thesis
      using status assms(4) replayed_artifact_success [OF scope(1) True scope(2), of ?C who now]
      by (simp add: replay_import_def)
  next
    case False
    then have "\<not> import_event_matches ?C ?e q" using import_event_matches_success [OF scope(1)] by simp
    then show ?thesis by (simp add: replay_import_def)
  qed
  then show ?thesis using again by simp
qed

section \<open>A clock ahead of the server's\<close>

lemma future_event_invalid:
  assumes "now < ir_observed q"
  shows "\<exists>x. validate_event C (import_event C q who now payload refs) = Inl x"
proof -
  let ?e = "import_event C q who now payload refs"
  have "\<not> valid_event C ?e"
  proof
    assume "valid_event C ?e"
    then have "ev_observed_at ?e \<le> ev_recorded_at ?e" by (rule valid_eventD(7))
    then show False using assms by (simp add: import_event_def outcome_event_def audit_of_def Let_def)
  qed
  then show ?thesis
    using validate_event_same by (cases "validate_event C ?e") (auto simp: valid_event_def)
qed

text \<open>
  A request whose observation time is later than the server's clock is accepted by its
  contract, but its event cannot be recorded: the file is published, the request fails with an
  untyped error, and nothing in the ledger refers to the artifact.
\<close>

theorem future_observation_orphans_artifact:
  assumes "get_by_idempotency (rt_codec R) (ws_ledger ws) key = Inr None"
    and "association_target (ws_memory ws) vault q = Inr target"
    and "configure_scopes scopes = Inr configured" and "scopes \<noteq> []"
    and "import_selected R import_policy configured probe (selection_of q) (ws_files ws) = (Inr m, files)"
    and "now < ir_observed q"
  shows "\<exists>x. import_artifact R vault scopes probe q key who now ws =
    (Inl (EventRejected x), ws\<lparr>ws_files := files\<rparr>)"
proof -
  obtain x where "validate_event (rt_codec R) (import_event (rt_codec R) q who now
      (success_payload (rt_codec R) (selection_of q) m) [im_ref m]) = Inl x"
    using future_event_invalid [OF assms(6)] by blast
  then have "import_and_record R import_policy configured probe (selection_of q) (audit_of q who now) key ws =
      (Inl (EventRejected x), ws\<lparr>ws_files := files\<rparr>)"
    using assms(5) by (simp add: import_and_record_def and_then_def record_event_def import_event_def)
  then show ?thesis
    using assms(1-4) by (simp add: import_artifact_def import_new_def selection_of_def)
qed

section \<open>The listing of sources\<close>

text \<open>The path a target was made of.\<close>

definition offers :: "candidate \<Rightarrow> target_projection \<Rightarrow> bool" where
  "offers c t \<longleftrightarrow> \<not> cd_link c \<and> cd_file c \<and>
     casefold (name_suffix (cd_name c)) \<in> set (po_extensions import_policy) \<and>
     (\<exists>relative. cd_relative c = Some relative \<and> tp_target t = join_with (CHR ''/'') relative \<and>
        tp_name t = last relative) \<and> cd_bytes c = Some (tp_bytes t)"

lemma list_targets_Inr:
  "list_targets room cs = Inr ts \<Longrightarrow> length ts \<le> room \<and>
     (\<forall>t\<in>set ts. is_portable_target (tp_target t) \<and> (\<exists>c\<in>set cs. offers c t))"
proof (induction cs arbitrary: room ts)
  case (Cons c cs)
  show ?case
  proof (cases "room = 0 \<or> cd_link c \<or> \<not> cd_file c \<or>
      casefold (name_suffix (cd_name c)) \<notin> set (po_extensions import_policy) \<or> cd_relative c = None \<or> cd_bytes c = None")
    case True
    then have "ts = [] \<or> list_targets room cs = Inr ts" using Cons.prems by (auto split: if_splits option.splits)
    then show ?thesis using Cons.IH [of room ts] by auto
  next
    case False
    then obtain relative bytes where r: "cd_relative c = Some relative" "cd_bytes c = Some bytes" by auto
    let ?t = "\<lparr> tp_target = join_with (CHR ''/'') relative, tp_name = last relative, tp_bytes = bytes \<rparr>"
    obtain us where u: "is_portable_target (join_with (CHR ''/'') relative)"
        "list_targets (room - 1) cs = Inr us" "ts = ?t # us"
      using Cons.prems False r by (auto simp: Let_def result_simps split: if_splits)
    have "offers c ?t" using False r by (simp add: offers_def)
    then show ?thesis using Cons.IH [OF u(2)] False u(1,3) by auto
  qed
qed simp

text \<open>
  The listing of sources is bounded and portable: when it succeeds, every configured scope
  is listed once in the order of the identifiers, with at most 512 targets each, every target a
  portable path of a regular file of an allowed extension found below that scope's root.
\<close>

theorem listing_is_bounded:
  assumes "list_import_sources scopes = Inr listed"
  shows "map sj_scope listed = sort (map fst scopes) \<and>
    (\<forall>l\<in>set listed. length (sj_targets l) \<le> 512 \<and>
       (\<exists>g. (sj_scope l, g) \<in> set scopes \<and> (\<forall>t\<in>set (sj_targets l). is_portable_target (tp_target t) \<and>
          sg_directory g \<and> (\<exists>c\<in>set (sg_candidates g). offers c t))))"
proof -
  have m: "list_all2 (\<lambda>x l. list_scope x = Inr l) (sort_key fst scopes) listed"
    using assms by (simp add: list_import_sources_def map_result_Inr_iff)
  have s: "sj_scope l = fst x \<and> length (sj_targets l) \<le> 512 \<and> (\<forall>t\<in>set (sj_targets l).
      is_portable_target (tp_target t) \<and> sg_directory (snd x) \<and> (\<exists>c\<in>set (sg_candidates (snd x)). offers c t))"
    if l: "list_scope x = Inr l" for x l
  proof -
    obtain i g where x: "x = (i, g)" by (cases x)
    then obtain ts where ts: "(if sg_directory g then list_targets max_exposed_targets (sg_candidates g) else Inr []) = Inr ts"
        "l = \<lparr> sj_scope = i, sj_configured = sg_directory g, sj_targets = ts \<rparr>"
      using l by (auto simp: list_scope_def result_simps split: if_splits)
    show ?thesis
    proof (cases "sg_directory g")
      case True
      then show ?thesis using list_targets_Inr [of max_exposed_targets "sg_candidates g" ts] ts x
        by (simp add: max_exposed_targets_def)
    next
      case False
      then show ?thesis using ts x by simp
    qed
  qed
  have "list_all2 (\<lambda>x l. sj_scope l = fst x) (sort_key fst scopes) listed"
    using m by (rule list_all2_mono) (use s in blast)
  then have "map sj_scope listed = map fst (sort_key fst scopes)"
    by (induction rule: list_all2_induct) simp_all
  moreover have "sort (map fst scopes) = map fst (sort_key fst scopes)"
    by (rule properties_for_sort) (simp, rule sorted_sort_key)
  moreover have "length (sj_targets l) \<le> 512 \<and> (\<exists>g. (sj_scope l, g) \<in> set scopes \<and> (\<forall>t\<in>set (sj_targets l).
      is_portable_target (tp_target t) \<and> sg_directory g \<and> (\<exists>c\<in>set (sg_candidates g). offers c t)))"
    if mem: "l \<in> set listed" for l
  proof -
    obtain n where n: "n < length listed" "listed ! n = l" using mem unfolding in_set_conv_nth by blast
    obtain x where x: "list_scope x = Inr l" "x \<in> set (sort_key fst scopes)"
      using list_all2_nthD2 [OF m n(1)] n list_all2_lengthD [OF m] by (metis nth_mem)
    then have "(sj_scope l, snd x) \<in> set scopes" using s [OF x(1)] by simp
    then show ?thesis using s [OF x(1)] by blast
  qed
  ultimately show ?thesis by simp
qed

text \<open>A file whose path is not portable makes the whole listing fail.\<close>

lemma unportable_candidate_fails:
  assumes "c \<in> set cs" and "\<not> cd_link c" and "cd_file c"
    and "casefold (name_suffix (cd_name c)) \<in> set (po_extensions import_policy)"
    and "cd_relative c = Some relative" and "cd_bytes c = Some bytes"
    and "\<not> is_portable_target (join_with (CHR ''/'') relative)" and "length cs \<le> room"
  shows "list_targets room cs = Inl ProjectionInvalid"
  using assms(1,8)
proof (induction cs arbitrary: room)
  case (Cons d cs)
  show ?case
  proof (cases "d = c")
    case True
    then show ?thesis using assms Cons.prems by (simp add: Let_def)
  next
    case False
    then have "list_targets room cs = Inl ProjectionInvalid" "list_targets (room - 1) cs = Inl ProjectionInvalid"
      using Cons by auto
    then show ?thesis using Cons.prems by (auto simp: Let_def split: option.splits)
  qed
qed simp

text \<open>
  One file of an allowed extension whose path is not portable, such as a name with a space,
  anywhere below the root of a configured scope of at most 512 paths, makes the listing fail for
  all scopes.
\<close>

theorem unportable_name_breaks_listing:
  assumes "(scope_id, g) \<in> set scopes" and "sg_directory g" and "length (sg_candidates g) \<le> 512"
    and "c \<in> set (sg_candidates g)" and "\<not> cd_link c" and "cd_file c"
    and "casefold (name_suffix (cd_name c)) \<in> set (po_extensions import_policy)"
    and "cd_relative c = Some relative" and "cd_bytes c = Some bytes"
    and "\<not> is_portable_target (join_with (CHR ''/'') relative)"
  shows "\<exists>x. list_import_sources scopes = Inl x"
proof -
  have "list_targets max_exposed_targets (sg_candidates g) = Inl ProjectionInvalid"
    by (rule unportable_candidate_fails [OF assms(4-10)]) (simp add: max_exposed_targets_def assms(3))
  then have "\<forall>l. list_scope (scope_id, g) \<noteq> Inr l" using assms(2) by (simp add: list_scope_def)
  moreover have "\<exists>l. list_scope (scope_id, g) = Inr l" if "list_import_sources scopes = Inr ls" for ls
  proof -
    have m: "list_all2 (\<lambda>x l. list_scope x = Inr l) (sort_key fst scopes) ls"
      using that by (simp add: list_import_sources_def map_result_Inr_iff)
    obtain n where n: "n < length (sort_key fst scopes)" "sort_key fst scopes ! n = (scope_id, g)"
      using assms(1) by (metis in_set_conv_nth set_sort)
    have "list_scope (sort_key fst scopes ! n) = Inr (ls ! n)" by (rule list_all2_nthD [OF m n(1)])
    then show ?thesis unfolding n(2) by blast
  qed
  ultimately show ?thesis by (cases "list_import_sources scopes") auto
qed

end
