(* ===== verification/Import_Samples.thy ===== *)
theory Import_Samples
  imports Import_Safety Chat_Samples
begin

text \<open>A concrete import with an association to a note of the vault, and the properties on it.\<close>

definition import_q :: import_request where
  "import_q = \<lparr> ir_id = sample_id ''evt'' (CHR ''3''), ir_observed = 5, ir_scope = ''scope_docs'',
     ir_target = ''a/notes.md'', ir_record = Some (note_id sample_note) \<rparr>"

definition import_scope :: scope_probe where
  "import_scope = \<lparr> sc_link = Gives False, sc_resolved = Gives [''docs''], sc_directory = True \<rparr>"

definition import_source :: source_probe where
  "import_source = \<lparr> sp_link = (\<lambda>_. Gives False), sp_resolved = Gives [''docs'', ''a'', ''notes.md''], sp_opens = True,
     sp_stat = Some (True, 5), sp_chunks = [Bytes ''hel'', Bytes ''lo'', Bytes []], sp_read_fails = False \<rparr>"

definition import_key :: string where
  "import_key = ''k7''"

definition import_m :: imported where
  "import_m = \<lparr> im_ref = chat_reference, im_scope = ''scope_docs'', im_name = ''notes.md'',
     im_media = ''text/markdown'', im_bytes = 5, im_physical = 5, im_dedup = False \<rparr>"

lemma import_put:
  "put_stream chat_sha ''r'' (\<lambda>g. g) (\<lambda>_. None) [Bytes ''hel'', Bytes ''lo'', Bytes []] 268435456 1048576 (Some 5) =
     (Inr \<lparr> pub_reference = chat_reference, pub_byte_count = 5, pub_existing = False \<rparr>, chat_files)"
proof -
  have r: "read_stream 268435456 [Bytes ''hel'', Bytes ''lo'', Bytes []] [] = Inr ''hello''" by simp
  have "put_local chat_sha ''r'' (\<lambda>_. None) ''hello'' = (Inr chat_reference, chat_files)"
    by (simp add: put_local_def chat_put chat_files_def chat_reference_def)
  then show ?thesis
    using put_stream_put_local [where rnd = "''r''" and k = 1048576 and expected = "Some 5",
        OF empty_store_ok [OF chat_sha_ok] _ _ _ r] by simp
qed

lemma import_sample_located:
  "locate_source import_policy [(''scope_docs'', [''docs''])] import_source (selection_of import_q) =
     Inr ([''docs'', ''a'', ''notes.md''], ''.md'')"
proof -
  have "split_on (CHR ''/'') ''a/notes.md'' = [''a'', ''notes.md'']" "casefold (name_suffix ''notes.md'') = ''.md''"
    by code_simp+
  then show ?thesis
    by (simp add: locate_source_def selection_of_def import_q_def import_source_def is_below_def import_policy_def Let_def)
qed

lemma import_sample_selected:
  "import_selected chat_runtime import_policy [(''scope_docs'', [''docs''])] import_source (selection_of import_q) (\<lambda>_. None) =
     (Inr import_m, chat_files)"
proof -
  have "is_portable_file_name ''notes.md''" "is_scope_id ''scope_docs''" "media_type_of ''.md'' = ''text/markdown''"
    by code_simp+
  moreover have "is_digest chat_reference" by (simp add: chat_reference_def digest_ref_is_digest)
  ultimately show ?thesis
    using import_put unfolding import_selected_def import_sample_located
    by (simp add: import_source_def import_policy_def Let_def import_m_def valid_imported_def selection_of_def
        import_q_def max_interoperable_integer_def)
qed

text \<open>The two events.\<close>

definition import_e :: event where
  "import_e = import_event chat_codec import_q ''human_local'' 9
     (success_payload chat_codec (selection_of import_q) import_m) [chat_reference]"

definition import_a :: event where
  "import_a = outcome_event chat_codec (audit_of import_q ''human_local'' 9) (association_id chat_codec import_q)
     MemoryProposal [ir_id import_q] (association_payload (note_id sample_note)) [chat_reference]"

lemma import_ids:
  "tagged_id ''evt'' (ir_id import_q)" "tagged_id ''evt'' (association_id chat_codec import_q)"
  "association_id chat_codec import_q \<noteq> ir_id import_q"
  using chat_id_fresh [of "CHR ''3''" "CHR ''3''"]
  by (simp_all add: import_q_def association_id_def derived_id_tagged crockford_def)

lemma import_tokens:
  "tagged_id t (t @ ''_'' @ remove_prefix ''evt_'' (ir_id import_q))"
  by (simp add: import_q_def sample_id_def remove_prefix_def starts_with_def tagged_id_iff is_ulid_def
      crockford_def numeral_eq_Suc)

lemma outcome_valid:
  assumes "tagged_id ''evt'' i" and "list_all (tagged_id ''evt'') ps" and "distinct ps" and "i \<notin> set ps"
    and "k \<noteq> ModelCall" and "payload_bounded 0 (jobj kvs)" and "refs \<in> {[], [chat_reference]}"
  shows "valid_event chat_codec (outcome_event chat_codec (audit_of import_q ''human_local'' 9) i k ps (jobj kvs) refs)"
proof (rule valid_eventI)
  let ?e = "outcome_event chat_codec (audit_of import_q ''human_local'' 9) i k ps (jobj kvs) refs"
  have "list_all is_digest refs" using assms(7) by (auto simp: digest_ref_is_digest chat_reference_def)
  moreover have "distinct refs" using assms(7) by auto
  ultimately show "event_fields_ok ?e"
    using assms(1-6) import_tokens [of "''ses''"] import_tokens [of "''run''"] import_tokens [of "''tsk''"] chat_actors_valid(1)
    by (simp add: event_fields_ok_def outcome_event_def audit_of_def Let_def canonical_payload_hash_def
        digest_ref_is_digest chat_reference_def)
  show "ev_payload ?e = JMap (map (\<lambda>(k, v). (JStr k, v)) kvs)" by (simp add: jobj_def)
  show "distinct (ev_artifact_refs ?e)" using assms(7) by auto
qed (use assms in \<open>simp_all add: outcome_event_def audit_of_def Let_def max_event_payload_bytes_def
    model_identity_required_def import_q_def\<close>)

lemma import_payloads:
  "payload_bounded 0 (success_payload chat_codec (selection_of import_q) import_m)"
  "payload_bounded 0 (association_payload (note_id sample_note))"
proof -
  have l: "length (selection_hash chat_codec s t) = 71" "length chat_reference = 71" for s t
    by (simp_all add: selection_hash_def canonical_payload_hash_def digest_ref_def hexdigest_length chat_reference_def)
  show "payload_bounded 0 (success_payload chat_codec (selection_of import_q) import_m)"
    by (simp add: success_payload_def jobj_def payload_key_def import_m_def l max_interoperable_integer_def)
  show "payload_bounded 0 (association_payload (note_id sample_note))"
    by (simp add: association_payload_def jobj_def payload_key_def sample_note_def sample_id_def)
qed

lemma import_events_valid: "valid_event chat_codec import_e" "valid_event chat_codec import_a"
  using import_ids outcome_valid [OF _ _ _ _ _ import_payloads(1) [unfolded success_payload_def], of _ _ _ "[chat_reference]"]
    outcome_valid [OF _ _ _ _ _ import_payloads(2) [unfolded association_payload_def], of _ _ _ "[chat_reference]"]
  by (simp_all add: import_e_def import_a_def import_event_def success_payload_def association_payload_def)

lemma import_keys: "is_idempotency_key import_key" "is_idempotency_key (association_key C k)" if "hash_ok (c_sha C)"
proof -
  show "is_idempotency_key import_key" unfolding import_key_def by code_simp
  have "set hex_chars \<subseteq> set key_chars" by code_simp
  moreover have "all_in key_chars ''association-''" "CHR ''a'' \<in> set alnum_chars" by code_simp+
  ultimately show "is_idempotency_key (association_key C k)"
    using hexdigest_hex [of "c_sha C" k] hexdigest_length [OF that, of k]
    by (auto simp: is_idempotency_key_def association_key_def all_in_set)
qed

definition import_recorded :: workspace where
  "import_recorded = chat_start\<lparr>ws_files := chat_files, ws_ledger := log_rows chat_codec [(import_e, import_key)]\<rparr>"

definition import_done :: workspace where
  "import_done = import_recorded\<lparr>ws_ledger := log_rows chat_codec
     [(import_e, import_key), (import_a, association_key chat_codec import_key)]\<rparr>"

lemma import_event_facts [simp]:
  "ev_id import_e = ir_id import_q" "ev_parents import_e = []" "ev_artifact_refs import_e = [chat_reference]"
  "ev_id import_a = association_id chat_codec import_q" "ev_parents import_a = [ir_id import_q]"
  "ev_artifact_refs import_a = [chat_reference]"
  "association_review_key import_e = None" "association_review_key import_a = None"
  by (simp_all add: import_e_def import_a_def import_event_def association_review_key_def success_payload_def
      association_payload_def)

lemma import_key_differs: "association_key chat_codec import_key \<noteq> import_key"
  by (simp add: association_key_def import_key_def)

text \<open>The first event of a ledger, and one more.\<close>

lemma record_first:
  assumes "valid_event chat_codec e" and "is_idempotency_key k" and "ws_ledger ws = []" and "ev_parents e = []"
    and "association_review_key e = None"
    and "unresolved_reference (Some (artifact_verified chat_runtime (ws_files ws))) e = None"
  shows "record_event chat_runtime e k ws = (Inr (), ws\<lparr>ws_ledger := log_rows chat_codec [(e, k)]\<rparr>)"
    and "log_ok chat_codec [(e, k)]"
proof -
  let ?A = "Some (artifact_verified chat_runtime (ws_files ws))"
  have ok: "log_ok chat_codec []" by simp
  have 1: "spec_append_one chat_codec ?A [] e k = Inr ([] @ [(e, k)], ev_id e)"
    by (rule spec_append_new) (use assms in simp_all)
  show "log_ok chat_codec [(e, k)]" using spec_append_one_ok [OF ok 1] by simp
  have "append_loop chat_codec ?A [] [(e, k)] = Inr (log_rows chat_codec [(e, k)], [ev_id e])"
    using append_loop_refines [OF chat_codec_ok ok, of ?A "[(e, k)]"] 1 by simp
  moreover have "validate_event chat_codec e = Inr e" using assms(1) by (simp add: valid_event_def)
  ultimately show "record_event chat_runtime e k ws = (Inr (), ws\<lparr>ws_ledger := log_rows chat_codec [(e, k)]\<rparr>)"
    unfolding record_event_def append_event_def append_many_def by (simp add: assms(3))
qed

lemma import_resolved:
  "unresolved_reference (Some (artifact_verified chat_runtime chat_files)) import_e = None"
  "unresolved_reference (Some (artifact_verified chat_runtime chat_files)) import_a = None"
  using chat_reference_verified by (simp_all add: unresolved_reference_def)

lemma import_logged: "log_ok chat_codec [(import_e, import_key)]"
  using record_first(2) [OF import_events_valid(1), of import_key "chat_start\<lparr>ws_files := chat_files\<rparr>"]
    import_keys [of chat_codec] import_resolved by (simp add: chat_start_def)

lemma import_sample_records:
  "record_event chat_runtime import_e import_key (chat_start\<lparr>ws_files := chat_files\<rparr>) = (Inr (), import_recorded)"
  "record_event chat_runtime import_a (association_key chat_codec import_key) import_recorded = (Inr (), import_done)"
proof -
  let ?A = "Some (artifact_verified chat_runtime chat_files)"
  let ?k = "association_key chat_codec import_key"
  show "record_event chat_runtime import_e import_key (chat_start\<lparr>ws_files := chat_files\<rparr>) = (Inr (), import_recorded)"
    using record_first(1) [OF import_events_valid(1), of import_key "chat_start\<lparr>ws_files := chat_files\<rparr>"]
      import_keys [of chat_codec] import_resolved by (simp add: chat_start_def import_recorded_def)
  have k: "is_idempotency_key ?k" using import_keys [of chat_codec] by simp
  have "spec_append_one chat_codec ?A [(import_e, import_key)] import_a ?k =
      Inr ([(import_e, import_key)] @ [(import_a, ?k)], ev_id import_a)"
    by (rule spec_append_new)
      (simp_all add: import_events_valid k import_resolved import_ids import_key_differs)
  then have "append_loop chat_codec ?A (log_rows chat_codec [(import_e, import_key)]) [(import_a, ?k)] =
      Inr (log_rows chat_codec [(import_e, import_key), (import_a, ?k)], [ev_id import_a])"
    using append_loop_refines [OF chat_codec_ok import_logged, of ?A "[(import_a, ?k)]"] by simp
  moreover have "validate_event chat_codec import_a = Inr import_a"
    using import_events_valid by (simp add: valid_event_def)
  ultimately show "record_event chat_runtime import_a ?k import_recorded = (Inr (), import_done)"
    unfolding record_event_def append_event_def append_many_def
    by (simp add: import_recorded_def import_done_def chat_start_def)
qed

definition import_reply :: import_response where
  "import_reply = \<lparr> rp_event = ir_id import_q, rp_artifact = import_m,
     rp_association = CandidateOf (note_id sample_note) (association_id chat_codec import_q) \<rparr>"

lemma import_sample_target: "association_target db (Some [sample_note]) import_q = Inr (Some (note_id sample_note))"
  by (simp add: association_target_def import_q_def starts_with_def sample_note_def sample_id_def)

lemma import_key_free: "get_by_idempotency chat_codec (ws_ledger chat_start) import_key = Inr None"
  using import_keys [of chat_codec] by (simp add: get_by_idempotency_def chat_start_def)

lemma import_sample_recorded:
  "import_and_record chat_runtime import_policy [(''scope_docs'', [''docs''])] import_source (selection_of import_q)
     (audit_of import_q ''human_local'' 9) import_key chat_start = (Inr import_m, import_recorded)"
proof -
  have f: "ws_files chat_start = (\<lambda>_. None)" "im_ref import_m = chat_reference"
    by (simp_all add: chat_start_def import_m_def)
  show ?thesis
    unfolding import_and_record_def Let_def f import_sample_selected
    using import_sample_records(1) f(2) by (simp add: and_then_def give_def import_e_def import_event_def)
qed

lemma import_sample_done:
  "import_artifact chat_runtime (Some [sample_note]) [(''scope_docs'', import_scope)] import_source import_q
     import_key ''human_local'' 9 chat_start = (Inr import_reply, import_done)"
proof -
  have c: "configure_scopes [(''scope_docs'', import_scope)] = Inr [(''scope_docs'', [''docs''])]"
    by (simp add: import_scope_def)
  have f: "im_ref import_m = chat_reference" by (simp add: import_m_def)
  show ?thesis
    using c import_sample_target import_key_free import_sample_recorded import_sample_records(2) f
    by (simp add: import_artifact_def import_new_def selection_of_def record_association_def Let_def and_then_def
        give_def import_a_def import_reply_def)
qed

lemma import_start_ok: "ledger_ok chat_codec (ws_ledger chat_start)"
  using ledger_ok_empty [OF chat_codec_ok] by (simp add: chat_start_def)

section \<open>Witnesses\<close>

definition import_later :: workspace where
  "import_later = import_done\<lparr>ws_files := (\<lambda>_. None), ws_ledger := ledger_after chat_codec None (ws_ledger import_done)
     [[(sample_message (CHR ''1'') [] ''later'', ''k9'')]]\<rparr>"

theorem completed_import_replays_witness:
  "import_artifact chat_runtime (Some [sample_note, sample_note]) [(''other'', import_scope)]
     (import_source\<lparr>sp_resolved := Missing\<rparr>) import_q import_key ''human_other'' 90 import_later =
   (Inr import_reply, import_later)"
proof -
  have "last_segment ''a/notes.md'' = ''notes.md''" by code_simp
  moreover have "association_target db (Some [sample_note, sample_note]) import_q = association_target db' (Some [sample_note]) import_q" for db db'
    by (simp add: association_target_def import_q_def starts_with_def sample_note_def sample_id_def)
  moreover have "ir_record import_q \<noteq> None" by (simp add: import_q_def)
  ultimately show ?thesis
    using completed_import_replays [where R = chat_runtime and scopes' = "[(''other'', import_scope)]", OF _ _ import_sample_done]
      import_start_ok import_key_free
    by (simp add: import_later_def import_reply_def import_m_def import_q_def)
qed


text \<open>The process died after the event of the import; time passed and the clock moved on.\<close>

theorem crashed_association_is_lost_witness:
  "import_artifact chat_runtime (Some [sample_note]) [(''scope_docs'', import_scope)] import_source import_q
     import_key ''human_local'' 90 import_recorded = (Inl import_conflict, import_recorded)"
proof -
  have k: "is_idempotency_key (association_key chat_codec import_key)" using import_keys [of chat_codec] by simp
  have "get_by_idempotency chat_codec (ws_ledger import_recorded) (association_key chat_codec import_key) = Inr None"
    unfolding import_recorded_def using get_by_idempotency_log [OF chat_codec_ok import_logged k] import_key_differs
    by simp
  then show ?thesis
    using crashed_association_is_lost [where R = chat_runtime and ws'' = import_recorded and txs = "[]",
        OF _ import_sample_recorded] import_start_ok import_sample_target
    by (simp add: ledger_after_def)
qed

text \<open>The file turned out to be a link.\<close>

definition linked_source :: source_probe where
  "linked_source = import_source\<lparr>sp_link := (\<lambda>_. Gives True)\<rparr>"

definition import_f :: event where
  "import_f = import_event chat_codec import_q ''human_local'' 9
     (failure_payload chat_codec (selection_of import_q) ''path_escape'') []"

lemma import_f_facts:
  "ev_parents import_f = []" "association_review_key import_f = None" "unresolved_reference A import_f = None"
  by (simp_all add: import_f_def import_event_def association_review_key_def failure_payload_def unresolved_reference_def
      split: option.splits)

definition import_refused :: workspace where
  "import_refused = chat_start\<lparr>ws_ledger := log_rows chat_codec [(import_f, import_key)]\<rparr>"

lemma import_refused_recorded: "record_event chat_runtime import_f import_key chat_start = (Inr (), import_refused)"
proof -
  have "payload_bounded 0 (failure_payload chat_codec (selection_of import_q) ''path_escape'')"
    by (simp add: failure_payload_def jobj_def payload_key_def selection_of_def import_q_def selection_hash_def
        canonical_payload_hash_def digest_ref_def hexdigest_length last_segment_def)
  then have v: "valid_event chat_codec import_f"
    using import_ids(1) outcome_valid [of _ "[]" Observation _ "[]"]
    by (simp add: import_f_def import_event_def failure_payload_def)
  show ?thesis
    using record_first(1) [OF v, of import_key chat_start] import_keys [of chat_codec] import_f_facts
    by (simp add: import_refused_def chat_start_def)
qed

lemma import_sample_refused:
  "import_artifact chat_runtime (Some [sample_note]) [(''scope_docs'', import_scope)] linked_source import_q
     import_key ''human_local'' 9 chat_start = (Inl (HttpError 422 ''source_path_rejected''), import_refused)"
proof -
  have l: "locate_source import_policy [(''scope_docs'', [''docs''])] linked_source (selection_of import_q) =
      Inl (Refused_import SourceEscapes)"
  proof -
    have "split_on (CHR ''/'') ''a/notes.md'' = [''a'', ''notes.md'']" by code_simp
    then show ?thesis
      by (simp add: locate_source_def selection_of_def import_q_def linked_source_def)
  qed
  note r = import_refused_recorded
  have "configure_scopes [(''scope_docs'', import_scope)] = Inr [(''scope_docs'', [''docs''])]"
    by (simp add: import_scope_def)
  then show ?thesis
    using l r import_sample_target import_key_free
    by (simp add: import_artifact_def import_new_def import_and_record_def import_selected_def Let_def and_then_def
        throw_def selection_of_def import_f_def import_event_def)
qed

theorem failed_import_replays_witness:
  "import_artifact chat_runtime (Some [sample_note]) [(''scope_docs'', import_scope)] import_source import_q
     import_key ''human_local'' 90 import_refused = (Inl (HttpError 422 ''source_path_rejected''), import_refused)"
proof -
  have "record_event chat_runtime import_f import_key chat_start = (Inr (), import_refused)"
    by (rule import_refused_recorded)
  from record_event_lookup(2) [OF this]
  have "get_by_idempotency chat_codec (ws_ledger import_refused) import_key = Inr (Some import_f)"
    using import_start_ok by (simp add: lookup_get)
  then show ?thesis
    using failed_import_replays [where R = chat_runtime and ws'' = import_refused and txs = "[]",
        OF _ _ import_sample_refused] import_start_ok import_key_free import_sample_target
    by (simp add: ledger_after_def)
qed

end
