(* ===== verification/Proposal_Samples.thy ===== *)
theory Proposal_Samples
  imports Proposal_Safety Import_Samples
begin

text \<open>The association of the sample import, listed as a proposal and approved by a human.\<close>

abbreviation sample_proposal_id :: string where
  "sample_proposal_id \<equiv> association_id chat_codec import_q"

definition sample_pending :: proposal where
  "sample_pending = pending_proposal import_q import_m sample_proposal_id (note_id sample_note)"

lemma import_done_log: "log_ok chat_codec [(import_e, import_key), (import_a, association_key chat_codec import_key)]"
proof -
  let ?A = "Some (artifact_verified chat_runtime chat_files)"
  have "is_idempotency_key (association_key chat_codec import_key)" using import_keys [of chat_codec] by simp
  then have "spec_append_one chat_codec ?A [(import_e, import_key)] import_a (association_key chat_codec import_key) =
      Inr ([(import_e, import_key)] @ [(import_a, association_key chat_codec import_key)], ev_id import_a)"
    by (intro spec_append_new) (simp_all add: import_events_valid import_resolved import_ids import_key_differs)
  from spec_append_one_ok [OF import_logged this] show ?thesis by simp
qed

lemma import_done_ok: "ledger_ok chat_codec (ws_ledger import_done)"
  "ledger_events chat_codec (ws_ledger import_done) = [import_e, import_a]"
  using import_done_log chat_codec_ok ledger_events_log [OF chat_codec_ok import_done_log]
  by (auto simp: ledger_ok_def import_done_def simp del: log_rows_simps)

theorem import_becomes_proposal_witness:
  "project_memory_proposals (ledger_events chat_codec (ws_ledger import_done)) = Inr [sample_pending]"
proof -
  have "is_portable_target ''a/notes.md''" "is_scope_id ''scope_docs''" by code_simp+
  then have "valid_import_request import_q"
    by (simp add: valid_import_request_def import_q_def is_memory_node_id_def sample_note_def crockford_def)
  moreover have "memory_ok (ws_memory chat_start)" by (simp add: chat_start_def empty_memory_ok)
  moreover have "project_memory_proposals (ledger_events chat_codec (ws_ledger chat_start)) = Inr []"
    by (simp add: chat_start_def ledger_events_def iter_all_def project_memory_proposals_def map_filter_simps)
  moreover have "ledger_events chat_codec (ws_ledger chat_start) = []"
    by (simp add: chat_start_def ledger_events_def iter_all_def)
  ultimately show ?thesis
    using import_becomes_proposal [where R = chat_runtime, OF _ _ _ _ import_sample_done] import_start_ok import_key_free
    by (simp add: import_reply_def sample_pending_def)
qed

section \<open>The approval\<close>

definition review_q :: review_request where
  "review_q = \<lparr> rr_id = sample_id ''evt'' (CHR ''4''), rr_observed = 7, rr_verdict = ApprovedProposal \<rparr>"

definition review_e :: event where
  "review_e = review_event chat_codec sample_proposal_id review_q ''human_local'' 9 sample_pending import_a"

definition import_reviewed :: workspace where
  "import_reviewed = import_done\<lparr>ws_ledger := log_rows chat_codec
     [(import_e, import_key), (import_a, association_key chat_codec import_key), (review_e, ''k8'')]\<rparr>"

definition sample_approved :: proposal where
  "sample_approved = sample_pending\<lparr>pj_state := ResolvedProposal ApprovedProposal, pj_decision := Some (rr_id review_q),
     pj_decided_at := Some 7, pj_decided_by := Some ''human_local''\<rparr>"

lemma review_id: "rr_id review_q \<noteq> sample_proposal_id" "rr_id review_q \<noteq> ir_id import_q" "tagged_id ''evt'' (rr_id review_q)"
proof -
  show "rr_id review_q \<noteq> sample_proposal_id"
    using chat_id_fresh [of "CHR ''4''" "CHR ''3''" "''evt''" "''association''" "''evt''"]
    by (simp add: review_q_def import_q_def association_id_def not_sym)
  show "rr_id review_q \<noteq> ir_id import_q" by (simp add: review_q_def import_q_def sample_id_def)
  show "tagged_id ''evt'' (rr_id review_q)" by (simp add: review_q_def crockford_def)
qed

lemma review_e_facts:
  "ev_id review_e = rr_id review_q" "ev_parents review_e = [sample_proposal_id]" "ev_artifact_refs review_e = [chat_reference]"
  "association_review_key review_e = Some (JStr sample_proposal_id)" "is_review review_e"
  by (simp_all add: review_e_def association_review_key_def review_event_same(2)) (simp add: review_event_def Let_def)

lemma review_valid:
  assumes "tagged_id ''evt'' (rr_id q)" and "rr_id q \<noteq> sample_proposal_id" and "rr_observed q \<le> 9"
  shows "valid_event chat_codec (review_event chat_codec sample_proposal_id q ''human_local'' 9 sample_pending import_a)"
proof (rule valid_eventI)
  let ?e = "review_event chat_codec sample_proposal_id q ''human_local'' 9 sample_pending import_a"
  have a: "ev_session import_a = ''ses_'' @ remove_prefix ''evt_'' (ir_id import_q)"
    "ev_run import_a = ''run_'' @ remove_prefix ''evt_'' (ir_id import_q)"
    "ev_task import_a = ''tsk_'' @ remove_prefix ''evt_'' (ir_id import_q)"
    by (simp_all add: import_a_def outcome_event_def audit_of_def Let_def)
  show "event_fields_ok ?e"
    using import_tokens [of "''ses''"] import_tokens [of "''run''"] import_tokens [of "''tsk''"] chat_actors_valid(1)
      assms(1) import_ids(2) a
    by (simp add: event_fields_ok_def review_event_def Let_def canonical_payload_hash_def
        digest_ref_is_digest chat_reference_def)
  have l: "length sample_proposal_id = 30" using import_ids(2) by (auto simp: tagged_id_iff is_ulid_def)
  show "payload_bounded 0 (ev_payload ?e)"
    using l by (cases "rr_verdict q") (simp_all add: review_event_def Let_def jobj_def payload_key_def sample_pending_def
        pending_proposal_def sample_note_def sample_id_def)
  show "ev_payload ?e = JMap (map (\<lambda>(k, v). (JStr k, v))
      [ (''operation'', JStr ''artifact_association_review''), (''proposal_id'', JStr sample_proposal_id),
        (''decision'', JStr (review_text (rr_verdict q))), (''target_record_id'', JStr (pj_target sample_pending)) ])"
    by (simp add: review_event_def Let_def jobj_def)
qed (use assms in \<open>simp_all add: review_event_def Let_def max_event_payload_bytes_def
    model_identity_required_def review_kind_def split: review_verdict.splits\<close>)

lemma review_e_valid: "valid_event chat_codec review_e"
  unfolding review_e_def by (rule review_valid) (use review_id in \<open>simp_all add: review_q_def\<close>)

lemma spec_append_reviewing:
  assumes "valid_event C e" and "is_idempotency_key k" and "set (ev_parents e) \<subseteq> set (map (ev_id \<circ> fst) lg)"
    and "unresolved_reference artifacts e = None" and "k \<notin> set (map snd lg)"
    and "ev_id e \<notin> set (map (ev_id \<circ> fst) lg)"
    and "association_review_key e \<notin> set (map (association_review_key \<circ> fst) lg)"
  shows "spec_append_one C artifacts lg e k = Inr (lg @ [(e, k)], ev_id e)"
proof -
  have "find (\<lambda>p. p \<notin> set (map (ev_id \<circ> fst) lg)) (ev_parents e) = None"
    using assms(3) by (auto simp: find_None_iff)
  moreover have "find (\<lambda>(_, k'). k' = k) lg = None"
    using assms(5) by (force simp: find_None_iff)
  ultimately show ?thesis using assms by (simp add: spec_append_one_def)
qed

lemma review_appended:
  "append_event chat_codec (Some (artifact_verified chat_runtime chat_files)) (ws_ledger import_done) review_e ''k8'' =
     (Inr (rr_id review_q), ws_ledger import_reviewed)"
  "log_ok chat_codec [(import_e, import_key), (import_a, association_key chat_codec import_key), (review_e, ''k8'')]"
proof -
  let ?A = "Some (artifact_verified chat_runtime chat_files)"
  let ?lg = "[(import_e, import_key), (import_a, association_key chat_codec import_key)]"
  have "is_idempotency_key ''k8''" by code_simp
  moreover have "''k8'' \<notin> set (map snd ?lg)" by (simp add: import_key_def association_key_def)
  moreover have "unresolved_reference ?A review_e = None"
    using chat_reference_verified by (simp add: unresolved_reference_def review_e_facts)
  ultimately have 1: "spec_append_one chat_codec ?A ?lg review_e ''k8'' = Inr (?lg @ [(review_e, ''k8'')], ev_id review_e)"
    using review_id by (intro spec_append_reviewing) (simp_all add: review_e_valid review_e_facts)
  show "log_ok chat_codec [(import_e, import_key), (import_a, association_key chat_codec import_key), (review_e, ''k8'')]"
    using spec_append_one_ok [OF import_done_log 1] by simp
  have "append_loop chat_codec ?A (log_rows chat_codec ?lg) [(review_e, ''k8'')] =
      Inr (log_rows chat_codec (?lg @ [(review_e, ''k8'')]), [ev_id review_e])"
    using append_loop_refines [OF chat_codec_ok import_done_log, of ?A "[(review_e, ''k8'')]"] 1 by simp
  then show "append_event chat_codec ?A (ws_ledger import_done) review_e ''k8'' =
     (Inr (rr_id review_q), ws_ledger import_reviewed)"
    by (simp add: append_event_def append_many_def import_done_def import_reviewed_def review_e_facts)
qed

lemma import_reviewed_ok: "ledger_ok chat_codec (ws_ledger import_reviewed)"
  "ledger_events chat_codec (ws_ledger import_reviewed) = [import_e, import_a, review_e]"
  using review_appended(2) chat_codec_ok ledger_events_log [OF chat_codec_ok review_appended(2)]
  by (auto simp: ledger_ok_def import_reviewed_def simp del: log_rows_simps)

text \<open>The three events in the projection.\<close>

lemma sample_events_skipped: "project_proposal es import_e = Inr None" "project_proposal es review_e = Inr None"
  by (simp_all add: project_proposal_def is_association_def import_e_def import_event_def review_e_def review_event_def
      Let_def review_kind_def split: review_verdict.splits)

lemma sample_events_reviewing: "\<not> is_review import_e" "\<not> is_review import_a"
  by (simp_all add: is_review_def import_e_def import_event_def import_a_def)

lemma sample_association_projected:
  assumes "es = [import_e, import_a] @ rest" and "rest \<in> {[], [review_e]}"
  shows "project_proposal es import_a = Inr (Some (if rest = [] then sample_pending else sample_approved))"
proof -
  have "last_match (\<lambda>p. ev_id p = ir_id import_q) es = Some import_e"
    using assms import_ids(3) review_id(2) by (auto simp: last_match_def review_e_facts)
  moreover have "decision_for es sample_proposal_id = (if rest = [] then None else Some review_e)"
    using assms sample_events_reviewing by (auto simp: decision_for_def last_match_def review_e_facts)
      (simp_all add: review_e_def review_event_def Let_def)
  moreover have "is_memory_node_id (note_id sample_note)"
    by (simp add: is_memory_node_id_def sample_note_def crockford_def)
  moreover have "decided_state (Some review_e) = Some (ResolvedProposal ApprovedProposal)"
    "ev_observed_at review_e = 7" "actor_id (ev_actor review_e) = ''human_local''"
    by (simp_all add: decided_state_def review_e_def review_event_def Let_def review_q_def proposal_state_of_def)
  moreover have "is_association import_a" "jget (ev_payload import_a) ''target_record_id'' = Some (JStr (note_id sample_note))"
    "ev_observed_at import_a = ir_observed import_q"
    by (simp_all add: is_association_def import_a_def association_payload_def)
  moreover have "jget (ev_payload import_e) ''operation'' = Some (JStr ''artifact_import'')"
    "jget (ev_payload import_e) ''source_name'' = Some (JStr (im_name import_m))"
    by (simp_all add: import_e_def import_event_def success_payload_def)
  moreover have "chat_reference = im_ref import_m" by (simp add: import_m_def)
  ultimately show ?thesis
    by (simp add: project_proposal_def decided_state_def sample_pending_def sample_approved_def pending_proposal_def
        review_e_facts)
qed

lemma sample_listed:
  "project_memory_proposals [import_e, import_a] = Inr [sample_pending]"
  "project_memory_proposals [import_e, import_a, review_e] = Inr [sample_approved]"
  using sample_association_projected [of "[import_e, import_a]" "[]"]
    sample_association_projected [of "[import_e, import_a, review_e]" "[review_e]"]
  by (simp_all add: project_memory_proposals_def sample_events_skipped map_filter_simps)

lemma sample_projections:
  "proposal_of chat_codec (ws_ledger import_done) sample_proposal_id = Inr (Some sample_pending)"
  "proposal_of chat_codec (ws_ledger import_reviewed) sample_proposal_id = Inr (Some sample_approved)"
proof -
  have i: "pj_id sample_pending = sample_proposal_id" "pj_id sample_approved = sample_proposal_id"
    by (simp_all add: sample_pending_def pending_proposal_def sample_approved_def)
  have "iter_all chat_codec (ws_ledger import_done) = Inr [import_e, import_a]"
    "iter_all chat_codec (ws_ledger import_reviewed) = Inr [import_e, import_a, review_e]"
    using iter_all_log [OF chat_codec_ok import_done_log] iter_all_log [OF chat_codec_ok review_appended(2)]
    by (simp_all add: import_done_def import_reviewed_def del: log_rows_simps)
  then show "proposal_of chat_codec (ws_ledger import_done) sample_proposal_id = Inr (Some sample_pending)"
    "proposal_of chat_codec (ws_ledger import_reviewed) sample_proposal_id = Inr (Some sample_approved)"
    using sample_listed i by (simp_all add: proposal_of_def)
qed

lemma sample_resolved:
  "pj_state sample_pending = PendingProposal" "pj_state sample_approved = ResolvedProposal (rr_verdict review_q)"
  by (simp_all add: sample_pending_def pending_proposal_def sample_approved_def review_q_def)

lemma sample_unused: "get_by_idempotency chat_codec (ws_ledger import_done) k = Inr None" if "k \<in> {''k8'', ''k9''}"
proof -
  have "is_idempotency_key ''k8''" "is_idempotency_key ''k9''" by code_simp+
  then have k: "is_idempotency_key k" using that by auto
  show ?thesis
    using get_by_idempotency_log [OF chat_codec_ok import_done_log k] that
    by (auto simp: import_done_def import_key_def association_key_def simp del: log_rows_simps)
qed

lemma sample_proposal_event:
  "get_event chat_codec (ws_ledger import_done) sample_proposal_id = Inr (Some import_a)"
proof -
  have "ir_id import_q \<noteq> sample_proposal_id" using import_ids(3) by (rule not_sym)
  then have "find (\<lambda>e. ev_id e = sample_proposal_id) [import_e, import_a] = Some import_a" by simp
  then show ?thesis
    using get_event_log [OF chat_codec_ok import_done_log, of sample_proposal_id] by (simp add: import_done_def)
qed

lemma sample_reviewed:
  "decide_memory_proposal chat_runtime (\<lambda>rows. rows) sample_proposal_id review_q ''k8'' ''human_local'' 9 import_done =
     (Inr sample_approved, import_reviewed)"
proof -
  have "validate_event chat_codec review_e = Inr review_e" using review_e_valid by (simp add: valid_event_def)
  moreover have "ws_files import_done = chat_files" "import_done\<lparr>ws_ledger := ws_ledger import_reviewed\<rparr> = import_reviewed"
    by (simp_all add: import_done_def import_reviewed_def import_recorded_def)
  ultimately show ?thesis
    using sample_projections sample_resolved review_appended(1) sample_proposal_event sample_unused [of "''k8''"]
    by (simp add: decide_memory_proposal_def review_new_def append_review_def flip: review_e_def)
qed

lemma sample_recognised:
  "decide_memory_proposal chat_runtime race sample_proposal_id review_q ''k8'' ''human_local'' now import_reviewed =
     (Inr sample_approved, import_reviewed)"
proof -
  have k: "is_idempotency_key ''k8''" by code_simp
  have "get_by_idempotency chat_codec (ws_ledger import_reviewed) ''k8'' = Inr (Some review_e)"
    using get_by_idempotency_log [OF chat_codec_ok review_appended(2) k]
    by (simp add: import_reviewed_def import_key_def association_key_def del: log_rows_simps)
  moreover have "same_review review_e sample_proposal_id review_q ''human_local''"
    unfolding review_e_def by (rule review_event_same)
  moreover have "pj_decision sample_approved = Some (ev_id review_e)" by (simp add: sample_approved_def review_e_facts)
  ultimately show ?thesis
    using sample_projections(2) sample_resolved(2) by (simp add: decide_memory_proposal_def replay_review_def)
qed

section \<open>Witnesses\<close>

text \<open>Whoever asks for whatever afterwards: the only answer is the first one.\<close>

theorem proposal_decision_is_final_witness:
  "{v. \<exists>q key who now ws. decide_memory_proposal chat_runtime (\<lambda>rows. rows) sample_proposal_id q key who now
     import_reviewed = (Inr v, ws)} = {sample_approved}"
proof -
  have "v = sample_approved" if "decide_memory_proposal chat_runtime (\<lambda>rows. rows) sample_proposal_id q key who now
     import_reviewed = (Inr v, ws)" for v q key who now ws
    using proposal_decision_is_final [where R = chat_runtime and race = "\<lambda>rows. rows" and txs = "[]"
        and ws'' = import_reviewed and txs' = "[]" and race' = "\<lambda>rows. rows" and txs'' = "[]",
        OF _ _ sample_reviewed _ _ that] import_done_ok(1)
    by (simp add: ledger_after_def)
  then show ?thesis using sample_recognised by blast
qed

theorem answered_review_replays_witness:
  "decide_memory_proposal chat_runtime (\<lambda>rows. []) sample_proposal_id review_q ''k8'' ''human_local'' 90 import_reviewed =
     (Inr sample_approved, import_reviewed)"
  using answered_review_replays [where R = chat_runtime and race = "\<lambda>rows. rows" and txs = "[]" and ws'' = import_reviewed
      and txs' = "[]", OF _ _ sample_reviewed] import_done_ok import_reviewed_ok(2) sample_listed(2)
  by (simp add: ledger_after_def)

text \<open>A reviewer who rejects while the approval is being appended.\<close>

definition rejecting_q :: review_request where
  "rejecting_q = \<lparr> rr_id = sample_id ''evt'' (CHR ''6''), rr_observed = 8, rr_verdict = RejectedProposal \<rparr>"

theorem lost_race_is_refused_witness:
  "decide_memory_proposal chat_runtime (\<lambda>_. ws_ledger import_reviewed) sample_proposal_id rejecting_q ''k9'' ''human_local'' 9
     import_done = (Inl already_resolved, import_reviewed)"
proof -
  let ?A = "Some (artifact_verified chat_runtime chat_files)"
  have id: "rr_id rejecting_q \<noteq> sample_proposal_id"
    using chat_id_fresh [of "CHR ''6''" "CHR ''3''" "''evt''" "''association''" "''evt''"]
    by (simp add: rejecting_q_def import_q_def association_id_def not_sym)
  then have valid: "valid_event chat_codec
      (review_event chat_codec sample_proposal_id rejecting_q ''human_local'' 9 sample_pending import_a)"
    by (rule review_valid [rotated]) (simp_all add: rejecting_q_def crockford_def)
  have race: "ws_ledger import_reviewed = ledger_after (rt_codec chat_runtime) ?A (ws_ledger import_done) [[(review_e, ''k8'')]]"
    using review_appended(1) by (auto simp: ledger_after_def append_event_def split: prod.splits sum.splits)
  have k: "is_idempotency_key ''k9''" by code_simp
  have free: "ledger_lookup chat_codec (ws_ledger import_reviewed) ''k9'' = None"
    using get_by_idempotency_log [OF chat_codec_ok review_appended(2) k]
    by (simp add: ledger_lookup_def import_reviewed_def import_key_def association_key_def del: log_rows_simps)
  have new: "rr_id rejecting_q \<notin> ev_id ` {import_e, import_a, review_e}"
    using id by (simp add: review_e_facts) (simp add: rejecting_q_def import_q_def review_q_def sample_id_def)
  have verified: "list_all (artifact_verified chat_runtime (ws_files import_done)) (ev_artifact_refs import_a)"
    using chat_reference_verified by (simp add: import_done_def import_recorded_def)
  have "import_done\<lparr>ws_ledger := ws_ledger import_reviewed\<rparr> = import_reviewed" by (simp add: import_reviewed_def)
  moreover have "jget (ev_payload review_e) ''proposal_id'' = Some (JStr sample_proposal_id)"
    by (simp add: review_e_def review_event_def Let_def)
  ultimately show ?thesis
    using lost_race_is_refused [where R = chat_runtime and ws = import_done and race = "\<lambda>_. ws_ledger import_reviewed"
        and other = review_e and key = "''k9''", OF _ _ _ _ _ _ _ race]
      import_done_ok(1) sample_unused [of "''k9''"] sample_projections(1) sample_resolved(1) sample_proposal_event valid
      verified free new import_reviewed_ok(2) review_e_facts(5)
    by simp
qed

end
