(* ===== verification/Provider_Identity.thy ===== *)
theory Provider_Identity
  imports Chat_Contracts
begin

text \<open>
  The identity under which a provider's calls are recorded is always well formed, whatever the
  name of its model.
\<close>

section \<open>Slugs\<close>

lemma runs_acc_first: "cur \<noteq> [] \<Longrightarrow> \<exists>u ws. runs_acc p cur s = (rev cur @ u) # ws"
proof (induction p cur s rule: runs_acc.induct)
  case (2 p cur c cs)
  then show ?case by (cases "p c") fastforce+
qed simp

lemma join_with_first: "\<exists>v. join_with d (w # ws) = w @ v"
  by (cases ws) simp_all

lemma join_with_chars: "set (join_with d ws) \<subseteq> insert d (\<Union>w\<in>set ws. set w)"
  by (induction d ws rule: join_with.induct) auto

lemma slug_of_chars: "all_in (lower_chars @ digit_chars @ ''_'') (slug_of s)"
proof -
  let ?p = "\<lambda>c. c \<in> set (lower_chars @ digit_chars)"
  have "set w \<subseteq> set (lower_chars @ digit_chars)" if "w \<in> set (runs_of ?p s)" for w
    using runs_of_all [OF that] by (auto simp: list_all_iff)
  then show ?thesis
    using join_with_chars [of "CHR ''_''" "runs_of ?p s"] by (fastforce simp: slug_of_def all_in_set)
qed

lemma slug_of_first:
  assumes "{c, d} \<subseteq> set (lower_chars @ digit_chars)"
  obtains t where "slug_of (c # d # s) = c # d # t"
proof -
  let ?p = "\<lambda>c. c \<in> set (lower_chars @ digit_chars)"
  obtain u ws where "runs_acc ?p [d, c] s = ([c, d] @ u) # ws" using runs_acc_first [of "[d, c]"] by fastforce
  then have "runs_of ?p (c # d # s) = ([c, d] @ u) # ws" using assms by (simp add: runs_of_def)
  then show thesis using join_with_first [of "CHR ''_''" "[c, d] @ u" ws] that by (auto simp: slug_of_def)
qed

lemma rstrip_prefix:
  assumes "\<not> p d"
  obtains t' where "rev (dropWhile p (rev (c # d # t))) = c # d # t'" "set t' \<subseteq> set t" "length t' \<le> length t"
proof -
  have "dropWhile p (rev t @ [d, c]) = dropWhile p (rev t) @ [d, c]"
    using assms by (induction "rev t" arbitrary: t rule: rev_induct) (auto simp: dropWhile_append)
  then show thesis
    using that [of "rev (dropWhile p (rev t))"] set_dropWhileD [of _ p "rev t"] length_dropWhile_le [of p "rev t"] by auto
qed

lemma kind_first:
  "\<exists>c d s. casefold (kind_value kind @ ''_'' @ model) = c # d # s \<and> {c, d} \<subseteq> set (lower_chars @ digit_chars)"
proof -
  have "fold_char (CHR ''f'') = ''f''" "fold_char (CHR ''a'') = ''a''" "fold_char (CHR ''o'') = ''o''"
    "fold_char (CHR ''l'') = ''l''" "fold_char (CHR ''p'') = ''p''"
    "{CHR ''f'', CHR ''a'', CHR ''o'', CHR ''l'', CHR ''p''} \<subseteq> set (lower_chars @ digit_chars)"
    by code_simp+
  then show ?thesis by (cases kind) simp_all
qed

text \<open>An actor slug starts with two letters of its kind and is at most 57 characters long.\<close>

lemma actor_slug_form:
  assumes "hash_ok sha"
  obtains c d t where "actor_slug sha kind model = c # d # t" "c \<in> set (lower_chars @ digit_chars)"
    "all_in actor_tail_chars (d # t)" "length t \<le> 55"
proof -
  obtain c d s where k: "casefold (kind_value kind @ ''_'' @ model) = c # d # s"
      "{c, d} \<subseteq> set (lower_chars @ digit_chars)" using kind_first by blast
  obtain t where t: "slug_of (c # d # s) = c # d # t" using k(2) by (rule slug_of_first)
  have tail: "set (lower_chars @ digit_chars @ ''_'') \<subseteq> set actor_tail_chars" "set hex_chars \<subseteq> set actor_tail_chars"
    by code_simp+
  have all: "set (c # d # t) \<subseteq> set actor_tail_chars"
    using slug_of_chars [of "c # d # s"] tail(1) unfolding t all_in_set by blast
  show thesis
  proof (cases "length (c # d # t) > 57")
    case False
    then show thesis using that [of c d t] k t all by (auto simp: actor_slug_def all_in_set)
  next
    case True
    have "d \<noteq> CHR ''_''" using k(2) by (auto simp: lower_chars_def digit_chars_def)
    then obtain t' where t': "rev (dropWhile (\<lambda>c. c = CHR ''_'') (rev (c # d # take 42 t))) = c # d # t'"
        "set t' \<subseteq> set (take 42 t)" "length t' \<le> length (take 42 t)" by (rule rstrip_prefix)
    have h: "length (take 12 (hexdigest sha (c # d # t))) = 12" "set (take 12 (hexdigest sha (c # d # t))) \<subseteq> set hex_chars"
      using hexdigest_length [OF assms, of "c # d # t"] hexdigest_hex [of sha "c # d # t"] set_take_subset
      by (fastforce simp: all_in_set)+
    have "actor_slug sha kind model = c # d # t' @ ''_'' @ take 12 (hexdigest sha (c # d # t))"
      using True k t t' by (simp add: actor_slug_def Let_def)
    moreover have "set t' \<subseteq> set actor_tail_chars" using t'(2) all set_take_subset [of 42 t] by auto
    moreover have "length t' \<le> 42" using t'(3) by simp
    ultimately show thesis
      using that [of c d "t' @ ''_'' @ take 12 (hexdigest sha (c # d # t))"] k(2) all h tail by (auto simp: all_in_set)
  qed
qed

section \<open>The identity\<close>

text \<open>
  \<open>build_execution_identity\<close> always constructs: for every kind, every admitted model name
  and every public configuration the derived actor, operation and configuration hash satisfy
  the constraints of \<open>ProviderExecutionIdentity\<close>, long and odd names included.
\<close>

theorem execution_identity_valid:
  assumes "hash_ok (c_sha C)" and "valid_model_name model"
  shows "valid_execution_identity (build_execution_identity C kind model configuration)"
proof -
  obtain c d t where s: "actor_slug (c_sha C) kind model = c # d # t" "c \<in> set (lower_chars @ digit_chars)"
    "all_in actor_tail_chars (d # t)" "length t \<le> 55" using actor_slug_form [OF assms(1)] by blast
  have "is_slug lower_chars (lower_chars @ digit_chars @ ''_.'') 2 127 (kind_value kind @ ''.chat.completions'')"
    by (cases kind; simp; code_simp)
  then show ?thesis
    using assms s by (simp add: valid_execution_identity_def build_execution_identity_def starts_with_def is_slug_def
        canonical_payload_hash_def digest_ref_is_digest)
qed

theorem execution_identity_valid_witness:
  "valid_execution_identity (build_execution_identity sample_codec OpenAICompatible ''Llama 3.1 / 70B'' [])"
  by (rule execution_identity_valid) (simp_all add: valid_model_name_def)

end
