(* ===== verification/Frontmatter.thy ===== *)
theory Frontmatter
  imports Text
begin

text \<open>
  The bounded frontmatter of \<open>memory/obsidian.py\<close>: \<open>str.splitlines\<close>, one row of \<open>csv.reader\<close>, the
  scalars, and the two nested loops over the lines between the delimiters.  The loops run on an
  index, as in the code; a proof that they end stands at the end of the theory.
\<close>

section \<open>Lines and rows of the standard library\<close>

text \<open>The line boundaries of \<open>str.splitlines\<close> in the 8-bit range; a carriage return takes a line feed with it.\<close>

definition is_break :: "char \<Rightarrow> bool" where
  "is_break c = (let n = of_char c :: nat in (10 \<le> n \<and> n \<le> 13) \<or> (28 \<le> n \<and> n \<le> 30) \<or> n = 133)"

fun split_lines :: "string \<Rightarrow> string \<Rightarrow> string list" where
  "split_lines cur [] = (if cur = [] then [] else [rev cur])"
| "split_lines cur [c] = (if is_break c then [rev cur] else [rev (c # cur)])"
| "split_lines cur (c # d # s) =
     (if c = CHR 0x0D \<and> d = CHR 0x0A then rev cur # split_lines [] s
      else if is_break c then rev cur # split_lines [] (d # s)
      else split_lines (c # cur) (d # s))"

definition splitlines :: "string \<Rightarrow> string list" where
  "splitlines s = split_lines [] s"

text \<open>
  The states of \<open>csv.reader\<close> on one line without line breaks, with the default dialect and
  \<open>skipinitialspace\<close>; an open quotation at the end of the input is closed.
\<close>

datatype csv_state = StartField | InField | InQuoted | QuoteInQuoted

fun csv_row :: "csv_state \<Rightarrow> string \<Rightarrow> string \<Rightarrow> string list" where
  "csv_row st field [] = [rev field]"
| "csv_row StartField field (c # s) =
     (if c = CHR 0x22 then csv_row InQuoted field s
      else if c = CHR '' '' then csv_row StartField field s
      else if c = CHR '','' then rev field # csv_row StartField [] s
      else csv_row InField (c # field) s)"
| "csv_row InField field (c # s) =
     (if c = CHR '','' then rev field # csv_row StartField [] s else csv_row InField (c # field) s)"
| "csv_row InQuoted field (c # s) =
     (if c = CHR 0x22 then csv_row QuoteInQuoted field s else csv_row InQuoted (c # field) s)"
| "csv_row QuoteInQuoted field (c # s) =
     (if c = CHR 0x22 then csv_row InQuoted (c # field) s
      else if c = CHR '','' then rev field # csv_row StartField [] s
      else csv_row InField (c # field) s)"

section \<open>Scalars\<close>

datatype frontmatter_error =
  UnclosedFrontmatter | UnsupportedLine nat | RepeatedKey string | ScalarTooLong

datatype metadata_value = Scalar string | Values "string list"

type_synonym metadata = "(string \<times> metadata_value) list"

definition max_scalar :: nat where
  "max_scalar = 4096"

definition clean_scalar :: "string \<Rightarrow> frontmatter_error + string" where
  "clean_scalar raw =
     (let stripped = py_strip raw;
          value = (if 2 \<le> length stripped \<and> hd stripped = last stripped \<and> hd stripped \<in> {CHR 0x27, CHR 0x22}
            then butlast (tl stripped) else stripped) in
      if length value > max_scalar then Inl ScalarTooLong else Inr value)"

text \<open>The comprehension cleans an item twice, once to test it.\<close>

fun clean_items :: "string list \<Rightarrow> frontmatter_error + string list" where
  "clean_items [] = Inr []"
| "clean_items (item # items) =
     try_bind (clean_scalar item) (\<lambda>value.
       if value = [] then clean_items items
       else try_bind (clean_scalar item) (\<lambda>value. try_bind (clean_items items) (\<lambda>values. Inr (value # values))))"

definition parse_inline_list :: "string \<Rightarrow> frontmatter_error + string list" where
  "parse_inline_list value =
     (let inner = py_strip (butlast (tl value)) in
      if inner = [] then Inr [] else clean_items (csv_row StartField [] inner))"

section \<open>Lines\<close>

definition is_blank :: "char \<Rightarrow> bool" where
  "is_blank c \<longleftrightarrow> c = CHR '' '' \<or> c = CHR 0x09"

text \<open>
  \<open>_FRONTMATTER_KEY\<close>: a key of a letter and at most 63 letters, digits, underscores and hyphens,
  a colon, and the rest of the line without its leading blanks.
\<close>

definition key_of_line :: "string \<Rightarrow> (string \<times> string) option" where
  "key_of_line line =
     (let key = takeWhile (\<lambda>c. c \<noteq> CHR '':'') line; rest = drop (length key) line in
      if rest \<noteq> [] \<and> is_slug (upper_chars @ lower_chars) (alnum_chars @ ''_-'') 0 63 key
      then Some (key, dropWhile is_blank (tl rest)) else None)"

text \<open>\<open>[ \t]+-[ \t]+(.+)\<close>: an item of a block list; where only blanks follow, the last of two is the item.\<close>

definition item_of_line :: "string \<Rightarrow> string option" where
  "item_of_line line =
     (let rest = dropWhile is_blank line in
      if rest = line \<or> rest = [] \<or> hd rest \<noteq> CHR ''-'' then None
      else let blanks = takeWhile is_blank (tl rest); item = dropWhile is_blank (tl rest) in
        if blanks = [] then None
        else if item \<noteq> [] then Some item
        else if 2 \<le> length blanks then Some [last blanks] else None)"

text \<open>A line that is skipped: nothing but whitespace, or a comment.\<close>

definition is_skipped :: "string \<Rightarrow> bool" where
  "is_skipped line \<longleftrightarrow> py_strip line = [] \<or> starts_with ''#'' (dropWhile is_space line)"

section \<open>The loops\<close>

text \<open>The inner loop: the items of a block list from an index on, and the index after them.\<close>

partial_function (option) item_loop ::
    "string list \<Rightarrow> nat \<Rightarrow> nat \<Rightarrow> string list \<Rightarrow> (frontmatter_error + string list \<times> nat) option" where
  "item_loop lines closing index items =
     (if index < closing
      then (case item_of_line (lines ! index) of
          None \<Rightarrow> Some (Inr (items, index))
        | Some raw \<Rightarrow>
           (case clean_scalar raw of
              Inl e \<Rightarrow> Some (Inl e)
            | Inr item \<Rightarrow>
                item_loop lines closing (index + 1) (if item = [] then items else items @ [item])))
      else Some (Inr (items, index)))"

text \<open>The value after a key on its own line.\<close>

definition scalar_or_list :: "string \<Rightarrow> frontmatter_error + metadata_value" where
  "scalar_or_list raw =
     try_bind (clean_scalar raw) (\<lambda>value.
       if starts_with ''['' value \<and> value \<noteq> [] \<and> last value = CHR '']''
       then try_bind (parse_inline_list value) (\<lambda>items. Inr (Values items))
       else Inr (Scalar value))"

definition block_value :: "string list \<Rightarrow> metadata_value" where
  "block_value items = (if items = [] then Scalar [] else Values items)"

text \<open>The outer loop; an error names the line it counts from one.\<close>

partial_function (option) line_loop ::
    "string list \<Rightarrow> nat \<Rightarrow> nat \<Rightarrow> metadata \<Rightarrow> (frontmatter_error + metadata) option" where
  "line_loop lines closing index metadata =
     (if index < closing
      then (let line = lines ! index; index' = index + 1 in
        if is_skipped line then line_loop lines closing index' metadata
        else (case key_of_line line of
          None \<Rightarrow> Some (Inl (UnsupportedLine index'))
        | Some (raw_key, raw_value) \<Rightarrow>
          let key = casefold raw_key in
          if map_of metadata key \<noteq> None then Some (Inl (RepeatedKey key))
          else if py_strip raw_value \<noteq> []
          then (case scalar_or_list raw_value of
              Inl e \<Rightarrow> Some (Inl e)
            | Inr value \<Rightarrow> line_loop lines closing index' (metadata @ [(key, value)]))
          else Option.bind (item_loop lines closing index' [])
            (\<lambda>r. case r of
              Inl e \<Rightarrow> Some (Inl e)
            | Inr (items, index'') \<Rightarrow>
                line_loop lines closing index'' (metadata @ [(key, block_value items)]))))
      else Some (Inr metadata))"

text \<open>\<open>lines.index("---", 1, min(len(lines), 202))\<close>\<close>

definition closing_line :: "string list \<Rightarrow> nat option" where
  "closing_line lines = find (\<lambda>n. lines ! n = ''---'') [1..<min (length lines) 202]"

text \<open>The outer result is the return of the loops, the inner one \<open>None\<close> for a text without frontmatter.\<close>

definition parse_frontmatter :: "string \<Rightarrow> (frontmatter_error + (metadata \<times> string) option) option" where
  "parse_frontmatter t =
     (let lines = splitlines t in
      if lines = [] \<or> hd lines \<noteq> ''---'' then Some (Inr None)
      else (case closing_line lines of
          None \<Rightarrow> Some (Inl UnclosedFrontmatter)
        | Some closing \<Rightarrow>
            map_option (\<lambda>r. try_bind r (\<lambda>metadata.
                Inr (Some (metadata, join_with (CHR 0x0A) (drop (closing + 1) lines)))))
              (line_loop lines closing 1 [])))"

section \<open>The loops end\<close>

lemma item_loop_ends:
  "\<exists>r. item_loop lines closing index items = Some r \<and> (\<forall>xs n. r = Inr (xs, n) \<longrightarrow> index \<le> n)"
proof (induction "closing - index" arbitrary: index items rule: less_induct)
  case less
  show ?case
  proof (cases "index < closing")
    case False
    then show ?thesis by (subst item_loop.simps) simp
  next
    case True
    have next_loop: "\<exists>r. item_loop lines closing (index + 1) xs = Some r \<and> (\<forall>ys n. r = Inr (ys, n) \<longrightarrow> index \<le> n)" for xs
      using less [of "index + 1" xs] True by fastforce
    show ?thesis
      by (subst item_loop.simps) (use next_loop in \<open>auto split: option.splits sum.splits\<close>)
  qed
qed

lemma line_loop_ends: "\<exists>r. line_loop lines closing index metadata = Some r"
proof (induction "closing - index" arbitrary: index metadata rule: less_induct)
  case less
  show ?case
  proof (cases "index < closing")
    case False
    then show ?thesis by (subst line_loop.simps) simp
  next
    case True
    have later: "\<exists>r. line_loop lines closing n m = Some r" if "index < n" for n m
      using less [of n m] that True by simp
    obtain r where r: "item_loop lines closing (index + 1) [] = Some r" "\<And>xs n. r = Inr (xs, n) \<Longrightarrow> index + 1 \<le> n"
      using item_loop_ends [of lines closing "index + 1" "[]"] by blast
    show ?thesis
      by (subst line_loop.simps)
        (use later r in \<open>auto simp: Let_def split: option.splits sum.splits\<close>)
  qed
qed

text \<open>
  C33: \<open>_parse_frontmatter\<close> always returns: for every text its two nested loops end, with the
  metadata and the body, with no frontmatter, or with an error.
\<close>

theorem parse_frontmatter_returns: "\<exists>r. parse_frontmatter t = Some r"
proof (cases "closing_line (splitlines t)")
  case None
  then show ?thesis by (simp add: parse_frontmatter_def Let_def)
next
  case (Some closing)
  then show ?thesis using line_loop_ends [of "splitlines t" closing 1 "[]"] by (auto simp: parse_frontmatter_def Let_def)
qed

end
