(* ===== verification/Obsidian.thy ===== *)
theory Obsidian
  imports Frontmatter Memory_Records Utf8 "HOL-Library.Char_ord" "HOL-Library.List_Lexorder"
begin

text \<open>
  The indexer of curated notes, \<open>memory/obsidian.py\<close>: classification, titles, wikilinks, one
  note, and the index of a vault.  The paths below the root and what the operating system
  answers about each are arguments.  Texts are those of the model's range, one character for
  one code point below 256, where NFC normalisation changes nothing.
\<close>

section \<open>Vocabulary\<close>

datatype issue_code =
    InvalidUtf8 | InvalidFrontmatter | UnsupportedType | UnsupportedCategory | UnsupportedDomain
  | TooLarge | UnsafePath | IoError

fun issue_value :: "issue_code \<Rightarrow> string" where
  "issue_value InvalidUtf8 = ''invalid_utf8''"
| "issue_value InvalidFrontmatter = ''invalid_frontmatter''"
| "issue_value UnsupportedType = ''unsupported_type''"
| "issue_value UnsupportedCategory = ''unsupported_category''"
| "issue_value UnsupportedDomain = ''unsupported_domain''"
| "issue_value TooLarge = ''too_large''"
| "issue_value UnsafePath = ''unsafe_path''"
| "issue_value IoError = ''io_error''"

definition category_legend :: "(memory_category \<times> string \<times> string \<times> string) list" where
  "category_legend =
     [ (Research, ''Research'', ''#36f1cd'', ''R''), (Tooling, ''Tooling'', ''#8a7dff'', ''T''),
       (Project, ''Projects'', ''#ff4fd8'', ''P''), (Experiment, ''Experiments'', ''#ffb84d'', ''X''),
       (Governance, ''Governance'', ''#5ea8ff'', ''G''), (Reference, ''Reference'', ''#93a4ad'', ''L''),
       (Note, ''Notes'', ''#7ee787'', ''N'') ]"

definition excluded_directories :: "string list" where
  "excluded_directories = [''.git'', ''.obsidian'', ''00 Inbox'', ''99 Templates'']"

definition navigation_types :: "string list" where
  "navigation_types = [''area-index'', ''archive-index'', ''dashboard'', ''journal-index'', ''note-index'',
     ''project-index'']"

definition type_categories :: "(string \<times> memory_category) list" where
  "type_categories =
     [ (''archive'', Reference), (''experiment'', Experiment), (''journal'', Note), (''note'', Note),
       (''policy'', Governance), (''procedure'', Tooling), (''project'', Project),
       (''research-note'', Research), (''system'', Governance), (''tool'', Tooling), (''tooling'', Tooling) ]"

definition domain_aliases :: "(string \<times> memory_domain) list" where
  "domain_aliases =
     [ (''ai'', AiMl), (''ai/ml'', AiMl), (''ai_ml'', AiMl), (''artificial intelligence'', AiMl),
       (''business'', Business), (''engineering'', Engineering), (''general'', General),
       (''math'', Mathematics), (''mathematics'', Mathematics), (''rf'', RfEm), (''rf/em'', RfEm),
       (''rf_em'', RfEm), (''science'', Science), (''software'', Software) ]"

text \<open>The alternatives of the patterns, each between word boundaries.\<close>

definition domain_patterns :: "(memory_domain \<times> string list) list" where
  "domain_patterns =
     [ (AiMl, [''ai'', ''artificial intelligence'', ''machine learning'', ''agent'', ''llm'', ''neural'',
         ''world model'', ''world models'', ''physicsnemo'']),
       (RfEm, [''rf'', ''radio frequency'', ''electromagnetic'', ''spectrum'', ''wireless'', ''antenna'',
         ''propagation'']),
       (Science, [''science'', ''physics'', ''chemistry'', ''biology'', ''scientific'']),
       (Mathematics, [''math'', ''mathematics'', ''geometry'', ''algebra'', ''calculus'', ''statistics'',
         ''probability'']),
       (Engineering, [''engineering'', ''hardware'', ''systems design'']),
       (Software, [''software'', ''python'', ''typescript'', ''react'', ''api'', ''database'', ''sqlite'',
         ''programming'']),
       (Business, [''business'', ''commercial'', ''market'', ''customer'', ''revenue'', ''company'',
         ''product'']) ]"

section \<open>Regular expressions\<close>

text \<open>\<open>\w\<close> in the 8-bit range\<close>

definition is_word :: "char \<Rightarrow> bool" where
  "is_word c \<longleftrightarrow> c \<in> set alnum_chars \<or> c = CHR ''_'' \<or>
     (let n = of_char c :: nat in n \<in> {170, 178, 179, 181, 185, 186, 188, 189, 190} \<or>
        (192 \<le> n \<and> n \<noteq> 215 \<and> n \<noteq> 247))"

definition lower_char :: "char \<Rightarrow> char" where
  "lower_char c = (case fold_char c of [d] \<Rightarrow> d | _ \<Rightarrow> c)"

text \<open>\<open>\b(?:...)\b\<close> at a position, ignoring case; the alternatives begin and end with word characters.\<close>

definition phrase_at :: "string \<Rightarrow> string \<Rightarrow> nat \<Rightarrow> bool" where
  "phrase_at phrase evidence n \<longleftrightarrow>
     starts_with phrase (drop n (map lower_char evidence)) \<and>
     (n = 0 \<or> \<not> is_word (evidence ! (n - 1))) \<and>
     (n + length phrase < length evidence \<longrightarrow> \<not> is_word (evidence ! (n + length phrase)))"

definition mentions :: "string list \<Rightarrow> string \<Rightarrow> bool" where
  "mentions phrases evidence \<longleftrightarrow>
     list_ex (\<lambda>n. list_ex (\<lambda>phrase. phrase_at phrase evidence n) phrases) [0..<length evidence]"

text \<open>
  \<open>^#\s+(.+?)\s*$\<close> at the beginning of a line.  The whitespace after the sign may span lines;
  where nothing else follows it, the expression gives back a blank to the group.
\<close>

definition heading_at :: "string \<Rightarrow> string option" where
  "heading_at s =
     (case s of
        [] \<Rightarrow> None
      | c # t \<Rightarrow>
        let ws = takeWhile is_space t; rest = dropWhile is_space t in
        if c \<noteq> CHR ''#'' \<or> ws = [] then None
        else if rest \<noteq> [] then Some (rev (dropWhile is_space (rev (takeWhile (\<lambda>c. c \<noteq> CHR 0x0A) rest))))
        else (case find (\<lambda>n. ws ! n \<noteq> CHR 0x0A) (rev [1..<length ws]) of
            None \<Rightarrow> None
          | Some n \<Rightarrow> Some [ws ! n]))"

fun heading_search :: "bool \<Rightarrow> string \<Rightarrow> string option" where
  "heading_search at_start [] = None"
| "heading_search at_start (c # s) =
     (case (if at_start then heading_at (c # s) else None) of
        Some h \<Rightarrow> Some h
      | None \<Rightarrow> heading_search (c = CHR 0x0A) s)"

definition path_stem :: "string \<Rightarrow> string" where
  "path_stem path = (let name = last_segment path in take (length name - length (name_suffix name)) name)"

definition extract_title :: "string \<Rightarrow> string \<Rightarrow> string" where
  "extract_title body source_path =
     (case heading_search True body of Some h \<Rightarrow> py_strip h | None \<Rightarrow> path_stem source_path)"

text \<open>\<open>\[\[([^\]|#]+)(?:#[^\]|]+)?(?:\|[^\]]+)?\]\]\<close> at a position: the group and the text after the match\<close>

definition wikilink_at :: "string \<Rightarrow> (string \<times> string) option" where
  "wikilink_at s =
     (if \<not> starts_with ''[['' s then None
      else
        let t = drop 2 s;
            name = takeWhile (\<lambda>c. c \<notin> set '']|#'') t; t1 = drop (length name) t;
            section = takeWhile (\<lambda>c. c \<notin> set '']|'') (tl t1);
            t2 = (if starts_with ''#'' t1 \<and> section \<noteq> [] then drop (length section) (tl t1) else t1);
            alias = takeWhile (\<lambda>c. c \<noteq> CHR '']'') (tl t2);
            t3 = (if starts_with ''|'' t2 \<and> alias \<noteq> [] then drop (length alias) (tl t2) else t2)
        in if name \<noteq> [] \<and> starts_with '']]'' t3 then Some (name, drop 2 t3) else None)"

lemma wikilink_at_shorter:
  assumes "wikilink_at s = Some (name, rest)"
  shows "length rest < length s"
proof -
  define t where "t = drop 2 s"
  define t1 where "t1 = drop (length (takeWhile (\<lambda>c. c \<notin> set '']|#'') t)) t"
  define sec where "sec = takeWhile (\<lambda>c. c \<notin> set '']|'') (tl t1)"
  define t2 where "t2 = (if starts_with ''#'' t1 \<and> sec \<noteq> [] then drop (length sec) (tl t1) else t1)"
  define al where "al = takeWhile (\<lambda>c. c \<noteq> CHR '']'') (tl t2)"
  define t3 where "t3 = (if starts_with ''|'' t2 \<and> al \<noteq> [] then drop (length al) (tl t2) else t2)"
  have shorter: "length (if b then drop n (tl u) else u) \<le> length u" for b n and u :: string by auto
  have "length t3 \<le> length t2" "length t2 \<le> length t1" unfolding t3_def t2_def by (rule shorter)+
  moreover have "length t1 \<le> length t" by (simp add: t1_def)
  moreover have "rest = drop 2 t3" "starts_with ''[['' s"
    using assms unfolding wikilink_at_def Let_def t_def [symmetric] t1_def [symmetric] sec_def [symmetric]
      t2_def [symmetric] al_def [symmetric] t3_def [symmetric] by (simp_all split: if_splits)
  moreover have "s \<noteq> []" using calculation(5) by (auto simp: starts_with_def)
  ultimately show ?thesis by (cases s) (auto simp: t_def)
qed

function wikilinks_of :: "string \<Rightarrow> string list" where
  "wikilinks_of s =
     (case s of
        [] \<Rightarrow> []
      | c # t \<Rightarrow>
         (case wikilink_at s of
            Some (name, rest) \<Rightarrow> name # wikilinks_of rest
          | None \<Rightarrow> wikilinks_of t))"
  by pat_completeness auto
termination
  by (relation "measure length") (auto dest: wikilink_at_shorter)

declare wikilinks_of.simps [simp del]

text \<open>\<open>tuple(dict.fromkeys(...))\<close>\<close>

definition first_occurrences :: "'a list \<Rightarrow> 'a list" where
  "first_occurrences xs = rev (remdups (rev xs))"

definition extract_wikilinks :: "string \<Rightarrow> string list" where
  "extract_wikilinks t = first_occurrences (map py_strip (wikilinks_of t))"

section \<open>Values of the metadata\<close>

definition as_values :: "metadata_value option \<Rightarrow> string list" where
  "as_values v =
     (case v of
        None \<Rightarrow> []
      | Some (Values items) \<Rightarrow> items
      | Some (Scalar s) \<Rightarrow> if s = [] then [] else [s])"

text \<open>\<open>repr\<close> of a string, and \<open>str\<close> of a tuple of strings\<close>

definition hex_escape :: "char \<Rightarrow> string" where
  "hex_escape c = (let n = of_char c :: nat in [CHR 0x5C, CHR ''x'', hex_chars ! (n div 16), hex_chars ! (n mod 16)])"

definition repr_char :: "char \<Rightarrow> char \<Rightarrow> string" where
  "repr_char quote c =
     (let n = of_char c :: nat in
      if c = quote \<or> c = CHR 0x5C then [CHR 0x5C, c]
      else if c = CHR 0x09 then [CHR 0x5C, CHR ''t'']
      else if c = CHR 0x0A then [CHR 0x5C, CHR ''n'']
      else if c = CHR 0x0D then [CHR 0x5C, CHR ''r'']
      else if n < 32 \<or> (127 \<le> n \<and> n \<le> 160) \<or> n = 173 then hex_escape c
      else [c])"

definition repr_text :: "string \<Rightarrow> string" where
  "repr_text s =
     (let quote = (if CHR 0x27 \<in> set s \<and> CHR 0x22 \<notin> set s then CHR 0x22 else CHR 0x27) in
      [quote] @ concat (map (repr_char quote) s) @ [quote])"

fun join_comma :: "string list \<Rightarrow> string" where
  "join_comma [] = []"
| "join_comma [w] = w"
| "join_comma (w # ws) = w @ '', '' @ join_comma ws"

definition str_tuple :: "string list \<Rightarrow> string" where
  "str_tuple items =
     ''('' @ join_comma (map repr_text items) @ (if length items = 1 then '','' else []) @ '')''"

definition str_value :: "metadata_value \<Rightarrow> string" where
  "str_value v = (case v of Scalar s \<Rightarrow> s | Values items \<Rightarrow> str_tuple items)"

section \<open>One note\<close>

type_synonym note_error = "issue_code \<times> string"

text \<open>The labels of a note, or the first that no alias names.\<close>

fun explicit_domains :: "string list \<Rightarrow> note_error + memory_domain list" where
  "explicit_domains [] = Inr []"
| "explicit_domains (value # values) =
     (case map_of domain_aliases (casefold value) of
        None \<Rightarrow> Inl (UnsupportedDomain, ''unsupported domain label: '' @ value)
      | Some d \<Rightarrow> try_bind (explicit_domains values) (\<lambda>ds. Inr (d # ds)))"

definition classify_domains :: "string \<Rightarrow> metadata \<Rightarrow> note_error + memory_domain list" where
  "classify_domains title metadata =
     (let get = (\<lambda>key. as_values (map_of metadata key)) in
      if get ''domains'' \<noteq> []
      then try_bind (explicit_domains (get ''domains''))
        (\<lambda>selected. Inr (filter (\<lambda>d. d \<in> set selected) all_domains))
      else
        let evidence = join_with (CHR '' '')
              ([title] @ get ''area'' @ get ''topics'' @ get ''domains'' @ get ''tags'');
            domains = map fst (filter (\<lambda>(_, phrases). mentions phrases evidence) domain_patterns)
        in Inr (if domains = [] then [General] else domains))"

text \<open>What the operating system answers about one path below the root.\<close>

record note_probe =
  np_parts :: "string list"
  np_link :: bool
  np_resolved :: "string list option"
  np_size :: "nat option"
  np_bytes :: "string option"

definition max_note_bytes :: nat where
  "max_note_bytes = 2 * 1024 * 1024"

text \<open>
  \<open>raw.decode("utf-8-sig")\<close>: a code point outside the model's range of characters becomes
  the substitute control character, which is in no class and no literal of the source.
\<close>

definition point_char :: "nat \<Rightarrow> char" where
  "point_char cp = char_of (if cp < 256 then cp else 26)"

definition decode_note :: "string \<Rightarrow> string option" where
  "decode_note raw =
     (case decode_utf8 (map of_char raw) of
        None \<Rightarrow> None
      | Some points \<Rightarrow>
          Some (map point_char (if points \<noteq> [] \<and> hd points = 65279 then tl points else points)))"

definition note_source_path :: "note_probe \<Rightarrow> string" where
  "note_source_path p = join_with (CHR ''/'') (np_parts p)"

definition frontmatter_message :: "frontmatter_error \<Rightarrow> string" where
  "frontmatter_message e =
     (case e of
        UnclosedFrontmatter \<Rightarrow> ''frontmatter closing delimiter not found''
      | UnsupportedLine n \<Rightarrow> ''unsupported frontmatter line '' @ show_nat n
      | RepeatedKey key \<Rightarrow> ''duplicate frontmatter key: '' @ key
      | ScalarTooLong \<Rightarrow> ''frontmatter scalar exceeds 4096 characters'')"

text \<open>The checks on the file: its bytes.\<close>

definition read_note :: "string list \<Rightarrow> note_probe \<Rightarrow> note_error + string" where
  "read_note vault p =
     (if np_link p then Inl (UnsafePath, ''symbolic-link sources are not indexed'')
      else (case np_resolved p of
          None \<Rightarrow> Inl (IoError, ''source path could not be resolved'')
        | Some resolved \<Rightarrow>
            if take (length vault) resolved \<noteq> vault then Inl (UnsafePath, ''source resolves outside the vault'')
            else (case np_size p of
                None \<Rightarrow> Inl (IoError, ''source could not be read'')
              | Some byte_size \<Rightarrow>
                  if byte_size > max_note_bytes then Inl (TooLarge, ''source exceeds the note byte limit'')
                  else (case np_bytes p of
                      None \<Rightarrow> Inl (IoError, ''source could not be read'')
                    | Some raw \<Rightarrow> Inr raw))))"

text \<open>The category of a note that is to be indexed, and whether its metadata names it.\<close>

definition note_category_of :: "metadata \<Rightarrow> string \<Rightarrow> note_error + memory_category \<times> bool" where
  "note_category_of metadata kind =
     (case map_of type_categories kind of
        None \<Rightarrow> Inl (UnsupportedType, ''unsupported frontmatter type: '' @ kind)
      | Some default_category \<Rightarrow>
         (case map_of metadata ''category'' of
            None \<Rightarrow> Inr (default_category, False)
          | Some (Values items) \<Rightarrow>
              if items = [] then Inr (default_category, False)
              else Inl (UnsupportedCategory, ''category must be one label'')
          | Some (Scalar label) \<Rightarrow>
              if label = [] then Inr (default_category, False)
              else (case find (\<lambda>c. category_value c = casefold label)
                      [Research, Tooling, Project, Experiment, Governance, Reference, Note] of
                  None \<Rightarrow> Inl (UnsupportedCategory, ''unsupported category label: '' @ label)
                | Some c \<Rightarrow> Inr (c, True))))"

definition domain_basis :: "metadata \<Rightarrow> string list" where
  "domain_basis metadata =
     concat (map (\<lambda>key. map (\<lambda>value. ''metadata:'' @ key @ ''='' @ value) (as_values (map_of metadata key)))
       [''area'', ''topics'', ''domains'', ''tags''])"

text \<open>The path as it is hashed: case-folded and encoded.\<close>

definition document_id :: "hash_fn \<Rightarrow> string \<Rightarrow> string" where
  "document_id sha path = stable_document_id sha (map char_of (encode_utf8 (map of_char (casefold path))))"

definition note_of ::
    "hash_fn \<Rightarrow> string \<Rightarrow> string \<Rightarrow> string \<Rightarrow> metadata \<Rightarrow> string \<Rightarrow> string \<Rightarrow> note_error + indexed_note" where
  "note_of sha source_path raw t metadata body kind =
     try_bind (note_category_of metadata kind) (\<lambda>(category, named).
       let title = extract_title body source_path;
           status = (case map_of metadata ''status'' of Some (Scalar s) \<Rightarrow> if s = [] then None else Some s | _ \<Rightarrow> None);
           category_basis = (if named then ''frontmatter:category='' @ category_value category
             else ''frontmatter:type='' @ kind) in
       try_bind (classify_domains title metadata) (\<lambda>domains.
         Inr \<lparr> note_id = document_id sha source_path, note_path = source_path, note_title = title,
           note_content = t, note_type = kind, note_status = status, note_category = category,
           note_domains = domains, note_topics = as_values (map_of metadata ''topics''),
           note_wikilinks = extract_wikilinks t, note_basis = category_basis # domain_basis metadata,
           note_hash = digest_ref sha raw \<rparr>))"

definition build_note :: "hash_fn \<Rightarrow> string list \<Rightarrow> note_probe \<Rightarrow> note_error + indexed_note option" where
  "build_note sha vault p =
     try_bind (read_note vault p) (\<lambda>raw.
       case decode_note raw of
         None \<Rightarrow> Inl (InvalidUtf8, ''source is not valid UTF-8'')
       | Some t \<Rightarrow>
          (case the (parse_frontmatter t) of
             Inl e \<Rightarrow> Inl (InvalidFrontmatter, frontmatter_message e)
           | Inr None \<Rightarrow> Inr None
           | Inr (Some (metadata, body)) \<Rightarrow>
               let kind = casefold (case map_of metadata ''type'' of None \<Rightarrow> [] | Some v \<Rightarrow> str_value v) in
               if kind = [] \<or> kind \<in> set navigation_types then Inr None
               else try_bind (note_of sha (note_source_path p) raw t metadata body kind) (\<lambda>n. Inr (Some n))))"

section \<open>The index\<close>

record index_issue =
  ii_path :: string
  ii_code :: issue_code
  ii_message :: string

record reviewed_index =
  ix_vault :: string
  ix_notes :: "indexed_note list"
  ix_issues :: "index_issue list"
  ix_legend :: "(memory_category \<times> string \<times> string \<times> string) list"
  ix_hash :: string

text \<open>A message that the contract of an issue rejects raises, and nothing catches it.\<close>

datatype index_failure = VaultMissing | NotADirectory | IssueRejected

fun index_notes ::
    "hash_fn \<Rightarrow> string list \<Rightarrow> note_probe list \<Rightarrow> index_failure + indexed_note list \<times> index_issue list" where
  "index_notes sha vault [] = Inr ([], [])"
| "index_notes sha vault (p # ps) =
     (if list_ex (\<lambda>part. part \<in> set excluded_directories) (butlast (np_parts p)) then index_notes sha vault ps
      else (case build_note sha vault p of
          Inl (code, message) \<Rightarrow>
            if 1 \<le> length message \<and> length message \<le> 256
            then try_bind (index_notes sha vault ps) (\<lambda>(notes, issues).
              Inr (notes, \<lparr> ii_path = note_source_path p, ii_code = code, ii_message = message \<rparr> # issues))
            else Inl IssueRejected
        | Inr None \<Rightarrow> index_notes sha vault ps
        | Inr (Some n) \<Rightarrow> try_bind (index_notes sha vault ps) (\<lambda>(notes, issues). Inr (n # notes, issues))))"

definition dump_note :: "indexed_note \<Rightarrow> jval" where
  "dump_note n = jobj
     [ (''id'', JStr (note_id n)), (''source_path'', JStr (note_path n)), (''title'', JStr (note_title n)),
       (''content'', JStr (note_content n)), (''frontmatter_type'', JStr (note_type n)),
       (''source_status'', case note_status n of None \<Rightarrow> JNull | Some s \<Rightarrow> JStr s),
       (''category'', JStr (category_value (note_category n))),
       (''domains'', JSeq (map (JStr \<circ> domain_value) (note_domains n))),
       (''topics'', JSeq (map JStr (note_topics n))), (''wikilinks'', JSeq (map JStr (note_wikilinks n))),
       (''classification_basis'', JSeq (map JStr (note_basis n))), (''content_hash'', JStr (note_hash n)) ]"

definition dump_issue :: "index_issue \<Rightarrow> jval" where
  "dump_issue i = jobj
     [ (''source_path'', JStr (ii_path i)), (''code'', JStr (issue_value (ii_code i))),
       (''message'', JStr (ii_message i)) ]"

definition dump_legend :: "memory_category \<times> string \<times> string \<times> string \<Rightarrow> jval" where
  "dump_legend = (\<lambda>(category, label, color, symbol). jobj
     [ (''category'', JStr (category_value category)), (''label'', JStr label), (''color'', JStr color),
       (''symbol'', JStr symbol) ])"

definition index_payload :: "string \<Rightarrow> indexed_note list \<Rightarrow> index_issue list \<Rightarrow> jval" where
  "index_payload vault_name notes issues = jobj
     [ (''schema_version'', JInt 1), (''source_kind'', JStr ''obsidian_curated_markdown''),
       (''vault_name'', JStr vault_name), (''notes'', JSeq (map dump_note notes)),
       (''issues'', JSeq (map dump_issue issues)),
       (''category_legend'', JSeq (map dump_legend category_legend)) ]"

text \<open>
  The root: its resolved path, \<open>None\<close> where it does not exist, and whether it is a directory; the
  probes are the markdown paths below it in the order the file system lists them.
\<close>

definition build_reviewed_obsidian_index ::
    "codec \<Rightarrow> string list option \<Rightarrow> bool \<Rightarrow> note_probe list \<Rightarrow> index_failure + reviewed_index" where
  "build_reviewed_obsidian_index C vault is_directory probes =
     (case vault of
        None \<Rightarrow> Inl VaultMissing
      | Some root_path \<Rightarrow>
          if \<not> is_directory then Inl NotADirectory
          else
            let vault_name = (if root_path = [] then [] else last root_path) in
            try_bind (index_notes (c_sha C) root_path (sort_key (casefold \<circ> note_source_path) probes))
              (\<lambda>(notes, issues). Inr
                \<lparr> ix_vault = vault_name, ix_notes = notes, ix_issues = issues, ix_legend = category_legend,
                  ix_hash = canonical_payload_hash C (index_payload vault_name notes issues) \<rparr>))"

end
