(* ===== verification/Obsidian_Index.thy ===== *)
theory Obsidian_Index
  imports Obsidian Memory_Repository
begin

text \<open>
  What the index of a vault holds: the loop as a filter of the paths, the notes it admits, its independence of the
  order of the file system, and the notes that make the index or the synchronisation fail.
\<close>

section \<open>The loop as a filter\<close>

definition visible :: "note_probe \<Rightarrow> bool" where
  "visible p \<longleftrightarrow> \<not> list_ex (\<lambda>part. part \<in> set excluded_directories) (butlast (np_parts p))"

text \<open>What a path contributes: a note, an issue, or the failure of the whole index.\<close>

definition noted :: "hash_fn \<Rightarrow> string list \<Rightarrow> note_probe \<Rightarrow> indexed_note option" where
  "noted sha vault p = (case build_note sha vault p of Inr r \<Rightarrow> r | Inl _ \<Rightarrow> None)"

definition issued :: "hash_fn \<Rightarrow> string list \<Rightarrow> note_probe \<Rightarrow> index_issue option" where
  "issued sha vault p =
     (case build_note sha vault p of
        Inl (code, message) \<Rightarrow> Some \<lparr> ii_path = note_source_path p, ii_code = code, ii_message = message \<rparr>
      | Inr _ \<Rightarrow> None)"

definition unreportable :: "hash_fn \<Rightarrow> string list \<Rightarrow> note_probe \<Rightarrow> bool" where
  "unreportable sha vault p =
     (case build_note sha vault p of
        Inl (code, message) \<Rightarrow> \<not> (1 \<le> length message \<and> length message \<le> 256)
      | Inr _ \<Rightarrow> False)"

lemma index_notes_step:
  "index_notes sha vault (p # ps) =
     (if \<not> visible p then index_notes sha vault ps
      else if unreportable sha vault p then Inl IssueRejected
      else try_bind (index_notes sha vault ps) (\<lambda>(notes, issues). Inr
        ((case noted sha vault p of None \<Rightarrow> notes | Some n \<Rightarrow> n # notes),
         (case issued sha vault p of None \<Rightarrow> issues | Some i \<Rightarrow> i # issues))))"
proof (cases "build_note sha vault p")
  case (Inl x)
  then show ?thesis by (cases x) (simp add: visible_def noted_def issued_def unreportable_def)
next
  case (Inr r)
  have "try_bind x (\<lambda>(notes, issues). Inr (notes, issues)) = x" for x :: "index_failure + indexed_note list \<times> index_issue list"
    by (cases x) auto
  then show ?thesis using Inr by (cases r) (simp_all add: visible_def noted_def issued_def unreportable_def)
qed

lemma index_notes_closed:
  "index_notes sha vault ps =
     (if list_ex (\<lambda>p. visible p \<and> unreportable sha vault p) ps then Inl IssueRejected
      else Inr (List.map_filter (noted sha vault) (filter visible ps),
        List.map_filter (issued sha vault) (filter visible ps)))"
proof (induction ps)
  case Nil
  show ?case by (simp add: map_filter_simps)
next
  case (Cons p ps)
  show ?case
    unfolding index_notes_step Cons.IH by (auto simp: map_filter_simps split: option.splits)
qed

section \<open>The notes it admits\<close>

lemma map_fst_filter:
  "distinct (map fst xs) \<Longrightarrow> map fst (filter P xs) = filter (\<lambda>d. d \<in> fst ` set (filter P xs)) (map fst xs)"
proof (induction xs)
  case (Cons x xs)
  have nx: "fst y \<noteq> fst x" if "y \<in> set xs" for y using Cons.prems that by (auto simp: image_iff)
  have "filter (\<lambda>d. d \<in> fst ` set (filter P (x # xs))) (map fst xs) = filter (\<lambda>d. d \<in> fst ` set (filter P xs)) (map fst xs)"
    by (intro filter_cong refl) (auto dest: nx)
  moreover have "fst x \<in> fst ` set (filter P (x # xs)) \<longleftrightarrow> P x" by (cases "P x") (auto dest: nx)
  moreover have "map fst (filter P xs) = filter (\<lambda>d. d \<in> fst ` set (filter P xs)) (map fst xs)"
    using Cons by simp
  ultimately show ?case by (simp only: list.map filter.simps split: if_split) simp
qed simp

lemma classify_domains_Inr:
  assumes "classify_domains title metadata = Inr ds"
  shows "ds \<noteq> []" "ds = filter (\<lambda>d. d \<in> set ds) all_domains"
proof -
  have explicit: "length selected = length vs" if "explicit_domains vs = Inr selected" for vs selected
    using that by (induction vs arbitrary: selected) (auto simp: result_simps split: option.splits)
  let ?get = "\<lambda>key. as_values (map_of metadata key)"
  have "ds \<noteq> [] \<and> ds = filter (\<lambda>d. d \<in> set ds) all_domains"
  proof (cases "?get ''domains'' = []")
    case False
    then obtain selected where s: "explicit_domains (?get ''domains'') = Inr selected"
        "ds = filter (\<lambda>d. d \<in> set selected) all_domains"
      using assms by (auto simp: classify_domains_def Let_def result_simps)
    have "selected \<noteq> []" using explicit [OF s(1)] False by auto
    moreover have "set all_domains = UNIV" using memory_domain.exhaust by (auto simp: all_domains_def)
    ultimately have same: "set ds = set selected" "selected \<noteq> []" using s(2) by auto
    then have "ds \<noteq> []" by (metis set_empty)
    moreover have "ds = filter (\<lambda>d. d \<in> set ds) all_domains" unfolding same(1) by (rule s(2))
    ultimately show ?thesis ..
  next
    case True
    let ?evidence = "join_with (CHR '' '') ([title] @ ?get ''area'' @ ?get ''topics'' @ ?get ''domains'' @ ?get ''tags'')"
    let ?hits = "filter (\<lambda>(_, phrases). mentions phrases ?evidence) domain_patterns"
    have ds: "ds = (if map fst ?hits = [] then [General] else map fst ?hits)"
      using assms True by (auto simp: classify_domains_def Let_def)
    have all: "all_domains = map fst domain_patterns @ [General]" "distinct (map fst domain_patterns)"
      "General \<notin> set (map fst domain_patterns)"
      by (simp_all add: all_domains_def domain_patterns_def)
    have hits: "map fst ?hits = filter (\<lambda>d. d \<in> set (map fst ?hits)) all_domains"
    proof -
      have g: "General \<notin> set (map fst ?hits)" using all(3) by auto
      have "map fst ?hits = filter (\<lambda>d. d \<in> set (map fst ?hits)) (map fst domain_patterns)"
        unfolding set_map by (rule map_fst_filter [OF all(2)])
      then show ?thesis unfolding all(1) filter_append filter.simps if_not_P [OF g] append_Nil2 .
    qed
    show ?thesis
    proof (cases "map fst ?hits = []")
      case True
      then show ?thesis using ds by (simp add: all_domains_def)
    next
      case False
      have "ds = map fst ?hits" unfolding ds if_not_P [OF False] ..
      then show ?thesis using False hits by metis
    qed
  qed
  then show "ds \<noteq> []" "ds = filter (\<lambda>d. d \<in> set ds) all_domains" by blast+
qed

lemma build_note_Some:
  assumes "build_note sha vault p = Inr (Some n)"
  obtains raw t resolved byte_size where "\<not> np_link p" "np_resolved p = Some resolved" "take (length vault) resolved = vault"
    "np_size p = Some byte_size" "byte_size \<le> max_note_bytes" "np_bytes p = Some raw" "decode_note raw = Some t"
    "note_content n = t" "note_path n = note_source_path p" "note_id n = document_id sha (note_source_path p)"
    "note_hash n = digest_ref sha raw" "note_type n \<in> fst ` set type_categories" "note_type n \<notin> set navigation_types"
    "note_domains n \<noteq> []" "note_domains n = filter (\<lambda>d. d \<in> set (note_domains n)) all_domains"
    "note_wikilinks n = extract_wikilinks t"
proof -
  obtain raw where r: "read_note vault p = Inr raw" using assms by (auto simp: build_note_def result_simps)
  then obtain resolved byte_size where p: "\<not> np_link p" "np_resolved p = Some resolved" "take (length vault) resolved = vault"
    "np_size p = Some byte_size" "byte_size \<le> max_note_bytes" "np_bytes p = Some raw"
    by (auto simp: read_note_def split: if_splits option.splits)
  obtain t where t: "decode_note raw = Some t" using assms r by (auto simp: build_note_def split: option.splits)
  obtain metadata body kind where k: "kind \<notin> set navigation_types"
      "note_of sha (note_source_path p) raw t metadata body kind = Inr n"
    using assms r t by (auto simp: build_note_def Let_def result_simps split: sum.splits option.splits prod.splits if_splits)
  then obtain category named ds where c: "note_category_of metadata kind = Inr (category, named)"
      "classify_domains (extract_title body (note_source_path p)) metadata = Inr ds"
      "note_domains n = ds" "note_type n = kind" "note_content n = t" "note_path n = note_source_path p"
      "note_id n = document_id sha (note_source_path p)" "note_hash n = digest_ref sha raw"
      "note_wikilinks n = extract_wikilinks t"
    by (auto simp: note_of_def Let_def result_simps)
  have "map_of type_categories kind \<noteq> None" using c(1) by (auto simp: note_category_of_def split: option.splits)
  then have "kind \<in> fst ` set type_categories" by (simp add: map_of_eq_None_iff)
  then show thesis
    using that [OF p t c(5,6,7,8)] k(1) c(3,4,9) classify_domains_Inr [OF c(2)] by simp
qed

lemma distinct_first_occurrences: "distinct (first_occurrences xs)" "set (first_occurrences xs) = set xs"
  by (simp_all add: first_occurrences_def)

text \<open>
  C34: only curated notes are indexed: every note of an index comes from a path below the root,
  outside the excluded directories, that is no link, resolves inside the vault and holds at most
  2 MiB of valid UTF-8; its type is one of the known content types, its hash is that of the bytes
  read, its identity depends on its path alone, it has at least one domain, in the order of the
  vocabulary without repetition, and its links are distinct.
\<close>

theorem indexed_notes_are_curated:
  assumes "build_reviewed_obsidian_index C (Some root_path) is_directory probes = Inr ix" and "n \<in> set (ix_notes ix)"
  shows "\<exists>p\<in>set probes. \<exists>raw t. visible p \<and> \<not> np_link p \<and>
      (\<exists>resolved. np_resolved p = Some resolved \<and> take (length root_path) resolved = root_path) \<and>
      (\<exists>byte_size. np_size p = Some byte_size \<and> byte_size \<le> 2097152) \<and>
      np_bytes p = Some raw \<and> decode_note raw = Some t \<and> note_content n = t \<and>
      note_hash n = digest_ref (c_sha C) raw \<and> note_id n = document_id (c_sha C) (note_source_path p) \<and>
      tagged_id ''doc'' (note_id n) \<and> note_type n \<in> fst ` set type_categories \<and>
      note_type n \<notin> set navigation_types \<and> note_domains n \<noteq> [] \<and>
      note_domains n = filter (\<lambda>d. d \<in> set (note_domains n)) all_domains \<and> distinct (note_wikilinks n)"
proof -
  have "index_notes (c_sha C) root_path (sort_key (casefold \<circ> note_source_path) probes) = Inr (ix_notes ix, ix_issues ix)"
    using assms(1) by (auto simp: build_reviewed_obsidian_index_def Let_def result_simps split: if_splits)
  then have "n \<in> set (List.map_filter (noted (c_sha C) root_path) (filter visible (sort_key (casefold \<circ> note_source_path) probes)))"
    using assms(2) by (simp add: index_notes_closed split: if_splits)
  then obtain p where p: "p \<in> set probes" "visible p" "noted (c_sha C) root_path p = Some n"
    by (auto simp: map_filter_def)
  then have "build_note (c_sha C) root_path p = Inr (Some n)" by (simp add: noted_def split: sum.splits)
  then obtain raw t resolved byte_size where f:
    "\<not> np_link p" "np_resolved p = Some resolved" "take (length root_path) resolved = root_path"
    "np_size p = Some byte_size" "byte_size \<le> max_note_bytes" "np_bytes p = Some raw" "decode_note raw = Some t"
    "note_content n = t" "note_path n = note_source_path p" "note_id n = document_id (c_sha C) (note_source_path p)"
    "note_hash n = digest_ref (c_sha C) raw" "note_type n \<in> fst ` set type_categories" "note_type n \<notin> set navigation_types"
    "note_domains n \<noteq> []" "note_domains n = filter (\<lambda>d. d \<in> set (note_domains n)) all_domains"
    "note_wikilinks n = extract_wikilinks t" by (rule build_note_Some)
  have d: "tagged_id ''doc'' (note_id n)" unfolding f(10) document_id_def by (rule stable_document_id_tagged)
  have w: "distinct (note_wikilinks n)" unfolding f(16) extract_wikilinks_def by (rule distinct_first_occurrences)
  have b: "byte_size \<le> 2097152" using f(5) by (simp add: max_note_bytes_def)
  show ?thesis
    by (intro bexI [of _ p] exI [of _ raw] exI [of _ t] exI [of _ resolved] exI [of _ byte_size] conjI)
      (fact p d w b f)+
qed

section \<open>Determinism\<close>

text \<open>
  The index does not depend on the order in which the file system lists the paths, as long
  as no two of them differ in case only.
\<close>

theorem index_order_independent:
  assumes "set probes = set probes'" and "distinct (map (casefold \<circ> note_source_path) probes)"
    and "distinct (map (casefold \<circ> note_source_path) probes')"
  shows "build_reviewed_obsidian_index C vault is_directory probes = build_reviewed_obsidian_index C vault is_directory probes'"
proof -
  let ?f = "casefold \<circ> note_source_path"
  have d: "distinct (map ?f (sort_key ?f ps)) \<longleftrightarrow> distinct (map ?f ps)" for ps
    by (simp add: distinct_map)
  have "sort_key ?f probes = sort_key ?f probes'"
    by (rule map_sorted_distinct_set_unique [where f = ?f]) (use assms d in \<open>simp_all add: distinct_map del: comp_apply\<close>)
  then show ?thesis by (simp only: build_reviewed_obsidian_index_def)
qed

text \<open>Two paths that differ in case only are two notes under one identity.\<close>

lemma case_twins_share_identity:
  "casefold path = casefold path' \<Longrightarrow> document_id sha path = document_id sha path'"
  by (simp add: document_id_def)

section \<open>Notes that make the index or the synchronisation fail\<close>

text \<open>
  One note whose frontmatter names an unknown type of more than 226 characters, which the
  parser admits, makes the index of the whole vault fail instead of being reported as an issue.
\<close>

theorem long_type_breaks_index:
  assumes "p \<in> set probes" and "visible p" and "read_note root_path p = Inr raw" and "decode_note raw = Some t"
    and "parse_frontmatter t = Some (Inr (Some (metadata, body)))" and "map_of metadata ''type'' = Some (Scalar kind)"
    and "226 < length kind"
  shows "build_reviewed_obsidian_index C (Some root_path) True probes = Inl IssueRejected"
proof -
  have known: "length k \<le> 226" if "k \<in> fst ` set type_categories \<union> set navigation_types" for k
    using that by (auto simp: type_categories_def navigation_types_def)
  have l: "length kind \<le> length (casefold kind)" by (rule length_casefold)
  then have "casefold kind \<notin> fst ` set type_categories" "casefold kind \<notin> set navigation_types" "casefold kind \<noteq> []"
    using known assms(7) by fastforce+
  then have "build_note (c_sha C) root_path p = Inl (UnsupportedType, ''unsupported frontmatter type: '' @ casefold kind)"
    using assms(3-6) by (simp add: build_note_def str_value_def note_of_def note_category_of_def map_of_eq_None_iff [THEN iffD2])
  then have "unreportable (c_sha C) root_path p" using assms(7) l by (simp add: unreportable_def)
  then have "list_ex (\<lambda>p. visible p \<and> unreportable (c_sha C) root_path p) (sort_key (casefold \<circ> note_source_path) probes)"
    using assms(1,2) by (auto simp: list_ex_iff)
  then show ?thesis by (simp add: build_reviewed_obsidian_index_def index_notes_closed)
qed

lemma sync_notes_invalid:
  assumes "n \<in> set ns" and "\<And>i. \<not> valid_memory (curated_record source_key n i)"
  shows "\<exists>e. sync_notes rand current_locators source_key ns acc = Inl e"
  using assms(1)
proof (induction ns arbitrary: acc)
  case (Cons m ns)
  show ?case
  proof (cases "m = n")
    case True
    then have "sync_note rand current_locators source_key m acc = Inl RecordInvalid"
      using assms(2) by (simp add: sync_note_def Let_def)
    then show ?thesis by simp
  next
    case False
    then show ?thesis using Cons
      by (cases "sync_note rand current_locators source_key m acc") auto
  qed
qed simp

text \<open>
  The indexer and the repository do not agree on titles: a note whose first heading is
  empty or longer than 512 characters is indexed without an issue, and then makes every
  synchronisation of its vault fail and roll back, so that no note of the vault can be recalled
  in its current form.
\<close>

theorem unfit_title_blocks_sync:
  assumes "build_reviewed_obsidian_index C vault is_directory probes = Inr ix" and "n \<in> set (ix_notes ix)"
    and "note_title n = [] \<or> 512 < length (note_title n)"
    and "find (\<lambda>y. sy_key y = key) (db_syncs (fst s)) = None"
  shows "\<exists>e. sync_obsidian rand s source_key (ix_notes ix) event_id key snapshot_hash issue_count = (Inl e, s)"
proof -
  have "\<not> valid_memory (curated_record source_key n i)" for i
    using assms(3) by (auto simp: valid_memory_def curated_record_def)
  then obtain e where "sync_notes rand (set (map note_path (ix_notes ix))) source_key (ix_notes ix)
      \<lparr> ac_db = fst s, ac_draws = snd s, ac_done = [], ac_created = 0, ac_revised = 0, ac_unchanged = 0 \<rparr> = Inl e"
    using sync_notes_invalid [OF assms(2)] by blast
  then have "\<exists>e. sync_obsidian_locked rand s source_key (ix_notes ix) event_id key snapshot_hash issue_count = Inl e"
    using assms(4) by (cases s) (auto simp: sync_obsidian_locked_def)
  then show ?thesis by (cases s) (auto simp: sync_obsidian_def)
qed

end
