(* ===== verification/Frontmatter_Roundtrip.thy ===== *)
theory Frontmatter_Roundtrip
  imports Frontmatter
begin

text \<open>What the frontmatter parser reads back: the plain entries written one to a line.\<close>

definition render_line :: "string \<times> string \<Rightarrow> string" where
  "render_line = (\<lambda>(k, v). k @ '': '' @ v)"

definition render_note :: "(string \<times> string) list \<Rightarrow> string list \<Rightarrow> string" where
  "render_note entries body =
     join_with (CHR 0x0A) ([''---''] @ map render_line entries @ [''---''] @ body)"

text \<open>An entry that needs no quotation: a key, and a value without surrounding whitespace, quotes or brackets.\<close>

definition plain_entry :: "string \<times> string \<Rightarrow> bool" where
  "plain_entry = (\<lambda>(k, v).
     is_slug (upper_chars @ lower_chars) (alnum_chars @ ''_-'') 0 63 k \<and>
     v \<noteq> [] \<and> \<not> is_space (hd v) \<and> \<not> is_space (last v) \<and> length v \<le> max_scalar \<and>
     list_all (\<lambda>c. \<not> is_break c) v \<and>
     hd v \<notin> {CHR 0x27, CHR 0x22} \<and> hd v \<noteq> CHR ''['')"

section \<open>Lines\<close>

lemma split_lines_unbroken:
  "list_all (\<lambda>c. \<not> is_break c) w \<Longrightarrow> w \<noteq> [] \<or> cur \<noteq> [] \<Longrightarrow> split_lines cur w = [rev cur @ w]"
proof (induction cur w rule: split_lines.induct)
  case (3 cur c d s)
  then show ?case by (auto simp: is_break_def)
qed auto

lemma split_lines_break:
  "list_all (\<lambda>c. \<not> is_break c) w \<Longrightarrow> split_lines cur (w @ CHR 0x0A # s) = (rev cur @ w) # split_lines [] s"
proof (induction w arbitrary: cur)
  case Nil
  show ?case by (cases s) (simp_all add: is_break_def)
next
  case (Cons c w)
  then have c: "\<not> is_break c" "c \<noteq> CHR 0x0D" by (auto simp: is_break_def)
  obtain d t where t: "w @ CHR 0x0A # s = d # t" by (cases w) auto
  show ?case using Cons.IH [of "c # cur"] Cons.prems c t by simp
qed

lemma splitlines_join:
  assumes "list_all (list_all (\<lambda>c. \<not> is_break c)) ws" and "ws \<noteq> []" and "last ws \<noteq> []"
  shows "splitlines (join_with (CHR 0x0A) ws) = ws"
  using assms(2) assms(1,3)
proof (induction ws rule: list_nonempty_induct)
  case (single w)
  then show ?case by (simp add: splitlines_def split_lines_unbroken)
next
  case (cons w ws)
  then show ?case by (simp add: splitlines_def split_lines_break join_with_Cons)
qed

section \<open>Entries\<close>

lemma is_blank_space: "is_blank c \<Longrightarrow> is_space c"
  by (auto simp: is_blank_def is_space_def)

lemma strip_plain:
  assumes "v \<noteq> []" and "\<not> is_space (hd v)" and "\<not> is_space (last v)"
  shows "py_strip v = v"
proof -
  have "dropWhile is_space v = v" using assms(1,2) by (cases v) auto
  moreover have "dropWhile is_space (rev v) = rev v" using assms(1,3) by (cases v rule: rev_cases) auto
  ultimately show ?thesis by (simp add: py_strip_def strip_by_def)
qed

lemma clean_plain:
  assumes "plain_entry (k, v)"
  shows "clean_scalar v = Inr v"
  using assms strip_plain [of v] by (auto simp: plain_entry_def clean_scalar_def Let_def)

lemma key_no_colon:
  assumes "is_slug (upper_chars @ lower_chars) (alnum_chars @ ''_-'') 0 63 k"
  shows "CHR '':'' \<notin> set k" "list_all (\<lambda>c. \<not> is_space c) k" "k \<noteq> []" "hd k \<notin> set ''#-''" "list_all (\<lambda>c. \<not> is_break c) k"
proof -
  obtain c cs where k: "k = c # cs" "c \<in> set (upper_chars @ lower_chars)" "set cs \<subseteq> set (alnum_chars @ ''_-'')"
    using assms by (cases k) (auto simp: is_slug_def all_in_set)
  have s: "set (upper_chars @ lower_chars) \<subseteq> set (alnum_chars @ ''_-'')"
    "CHR '':'' \<notin> set (alnum_chars @ ''_-'')" "list_all (\<lambda>c. \<not> is_space c \<and> \<not> is_break c) (alnum_chars @ ''_-'')"
    "list_all (\<lambda>c. c \<notin> set ''#-'') (upper_chars @ lower_chars)"
    by code_simp+
  then have "set k \<subseteq> set (alnum_chars @ ''_-'')" using k by auto
  then show "CHR '':'' \<notin> set k" "list_all (\<lambda>c. \<not> is_space c) k" "list_all (\<lambda>c. \<not> is_break c) k"
    using s(2,3) unfolding list_all_iff by blast+
  show "k \<noteq> []" "hd k \<notin> set ''#-''" using k s(4) by (auto simp: list_all_iff)
qed

lemma render_line_read:
  assumes "plain_entry (k, v)"
  shows "\<not> is_skipped (render_line (k, v))" "key_of_line (render_line (k, v)) = Some (k, v)"
    "render_line (k, v) \<noteq> ''---''" "list_all (\<lambda>c. \<not> is_break c) (render_line (k, v))"
proof -
  have k: "is_slug (upper_chars @ lower_chars) (alnum_chars @ ''_-'') 0 63 k"
    using assms by (simp add: plain_entry_def)
  note kk = key_no_colon [OF k]
  obtain c cs where c: "k = c # cs" using kk(3) by (cases k) auto
  obtain d ds where d: "v = d # ds" "\<not> is_space d" using assms by (cases v) (auto simp: plain_entry_def)
  have "dropWhile is_space (render_line (k, v)) = render_line (k, v)"
    using kk(2) c by (simp add: render_line_def)
  moreover have "py_strip (render_line (k, v)) \<noteq> []"
    using kk(2) c by (simp add: py_strip_def strip_by_def render_line_def dropWhile_eq_Nil_conv)
  ultimately show "\<not> is_skipped (render_line (k, v))"
    using kk(4) c by (simp add: is_skipped_def starts_with_def render_line_def)
  have "takeWhile (\<lambda>c. c \<noteq> CHR '':'') (k @ '': '' @ v) = k"
    using kk(1) by (subst takeWhile_append2) auto
  moreover have "\<not> is_blank d" using d(2) is_blank_space by blast
  ultimately show "key_of_line (render_line (k, v)) = Some (k, v)"
    using k d(1) by (simp add: key_of_line_def render_line_def Let_def is_blank_def)
  show "render_line (k, v) \<noteq> ''---''" using kk(4) c by (auto simp: render_line_def)
  show "list_all (\<lambda>c. \<not> is_break c) (render_line (k, v))"
    using kk(5) assms by (simp add: render_line_def plain_entry_def) (simp add: is_break_def)
qed

lemma line_loop_entries:
  assumes "lines = pre @ map render_line entries @ post" and "closing = length pre + length entries"
    and "list_all plain_entry entries" and "distinct (map (casefold \<circ> fst) entries)"
    and "\<forall>(k, v)\<in>set entries. map_of m (casefold k) = None"
  shows "line_loop lines closing (length pre) m = Some (Inr (m @ map (\<lambda>(k, v). (casefold k, Scalar v)) entries))"
  using assms
proof (induction entries arbitrary: pre m)
  case Nil
  then show ?case by (subst line_loop.simps) simp
next
  case (Cons x entries)
  obtain k v where x: "x = (k, v)" by (cases x)
  have p: "plain_entry (k, v)" using Cons.prems(3) x by simp
  note r = render_line_read [OF p]
  have v: "py_strip v = v" "v \<noteq> []" "hd v \<noteq> CHR ''[''"
    using p strip_plain [of v] by (auto simp: plain_entry_def)
  have "\<not> starts_with ''['' v" using v(2,3) by (cases v) (auto simp: starts_with_def)
  then have s: "scalar_or_list v = Inr (Scalar v)" using clean_plain [OF p] by (simp add: scalar_or_list_def)
  have line: "lines ! length pre = render_line (k, v)" "length pre < closing"
    using Cons.prems(1,2) x by (simp_all add: nth_append)
  have free: "map_of m (casefold k) = None" using Cons.prems(5) x by simp
  have "line_loop lines closing (length (pre @ [render_line x])) (m @ [(casefold k, Scalar v)]) =
      Some (Inr ((m @ [(casefold k, Scalar v)]) @ map (\<lambda>(k, v). (casefold k, Scalar v)) entries))"
  proof (rule Cons.IH)
    have "\<forall>(a, b)\<in>set entries. casefold a \<noteq> casefold k \<and> map_of m (casefold a) = None"
      using Cons.prems(4,5) x by force
    then show "\<forall>(a, b)\<in>set entries. map_of (m @ [(casefold k, Scalar v)]) (casefold a) = None"
      by (auto simp: map_add_def)
  qed (use Cons.prems x in simp_all)
  then show ?case
    using line r(1,2) free v(1,2) s x by (subst line_loop.simps) (simp add: Let_def)
qed

lemma find_first:
  assumes "k < n" and "P k" and "\<And>j. l \<le> j \<Longrightarrow> j < k \<Longrightarrow> \<not> P j" and "l \<le> k"
  shows "find P [l..<n] = Some k"
proof -
  have "[l..<n] = [l..<k] @ k # [Suc k..<n]" using assms(1,4) by (metis le_less_Suc_eq less_or_eq_imp_le upt_conv_Cons upt_add_eq_append le_add_diff_inverse)
  moreover have "find P [l..<k] = None" using assms(3) by (auto simp: find_None_iff_all)
  ultimately show ?thesis using assms(2) by (simp add: find_append)
qed

lemma parse_rendered:
  assumes "list_all plain_entry entries" and "distinct (map (casefold \<circ> fst) entries)" and "length entries \<le> 200"
    and "list_all (list_all (\<lambda>c. \<not> is_break c)) body" and "body \<noteq> [] \<Longrightarrow> last body \<noteq> []"
  shows "parse_frontmatter (render_note entries body) =
    Some (Inr (Some (map (\<lambda>(k, v). (casefold k, Scalar v)) entries, join_with (CHR 0x0A) body)))"
proof -
  let ?lines = "[''---''] @ map render_line entries @ [''---''] @ body"
  have plain: "plain_entry (fst x, snd x)" if "x \<in> set entries" for x using assms(1) that by (auto simp: list_all_iff)
  have "list_all (list_all (\<lambda>c. \<not> is_break c)) (map render_line entries)"
    using render_line_read(4) [OF plain] by (auto simp: list_all_iff)
  then have lines: "splitlines (render_note entries body) = ?lines"
    unfolding render_note_def using assms(4,5) by (intro splitlines_join) (simp_all add: is_break_def)
  have "closing_line ?lines = Some (length entries + 1)"
    unfolding closing_line_def
  proof (rule find_first)
    show "length entries + 1 < min (length ?lines) 202" using assms(3) by simp
    show "?lines ! (length entries + 1) = ''---''" by (simp add: nth_append)
    fix j
    assume j: "1 \<le> j" "j < length entries + 1"
    then have "j - 1 < length entries" by simp
    then have "?lines ! j = render_line (entries ! (j - 1))" using j(1) by (simp add: nth_append nth_Cons')
    moreover have "entries ! (j - 1) \<in> set entries" using j by simp
    ultimately show "?lines ! j \<noteq> ''---''" using render_line_read(3) [OF plain] by (metis prod.collapse)
  qed simp
  moreover have "line_loop ?lines (length entries + 1) 1 [] = Some (Inr (map (\<lambda>(k, v). (casefold k, Scalar v)) entries))"
    using line_loop_entries [of ?lines "[''---'']" entries "[''---''] @ body" "length entries + 1" "[]"] assms(1,2) by simp
  ultimately show ?thesis
    by (simp add: parse_frontmatter_def lines Let_def)
qed

text \<open>
  C32: frontmatter written as plain entries (a key of letters, digits, underscores and hyphens that starts with a
  letter; a value that is one line, not blank at either end, not quoted and no list) is read back: of a
  note of at most 200 entries, whose keys differ after case folding, the parser returns exactly those
  keys, case-folded, with their values in order, and the lines of the body, whose last line is not empty.
\<close>

theorem frontmatter_round_trip:
  assumes "list_all plain_entry entries" and "distinct (map (casefold \<circ> fst) entries)" and "length entries \<le> 200"
    and "list_all (list_all (\<lambda>c. \<not> is_break c)) body" and "body \<noteq> [] \<Longrightarrow> last body \<noteq> []"
  shows "parse_frontmatter (render_note entries body) =
    Some (Inr (Some (map (\<lambda>(k, v). (casefold k, Scalar v)) entries, join_with (CHR 0x0A) body)))"
  using assms by (rule parse_rendered)

theorem frontmatter_round_trip_witness:
  "parse_frontmatter (render_note [(''Type'', ''note''), (''status'', ''in progress'')] [''# Title'']) =
     Some (Inr (Some ([(''type'', Scalar ''note''), (''status'', Scalar ''in progress'')], ''# Title'')))"
proof -
  have "list_all plain_entry [(''Type'', ''note''), (''status'', ''in progress'')]"
    "casefold ''Type'' = ''type''" "casefold ''status'' = ''status''"
    "list_all (list_all (\<lambda>c. \<not> is_break c)) [''# Title'']"
    by code_simp+
  then show ?thesis
    using frontmatter_round_trip [of "[(''Type'', ''note''), (''status'', ''in progress'')]" "[''# Title'']"] by simp
qed

end
