(* ===== verification/Obsidian_Vault.thy ===== *)
theory Obsidian_Vault
  imports Obsidian_Index Frontmatter_Roundtrip Memory_Governance
begin

text \<open>
  The index of a vault and the synchronisation of the repository with it, and concrete vaults at
  which the properties of the indexer are applied.
\<close>

section \<open>A vault and its records\<close>

lemma map_filter_source:
  assumes "distinct (map f xs)" and "\<And>x y. x \<in> set xs \<Longrightarrow> g x = Some y \<Longrightarrow> h y = f x"
  shows "distinct (map h (List.map_filter g xs))"
  using assms
proof (induction xs)
  case (Cons x xs)
  have "h ` set (List.map_filter g xs) \<subseteq> f ` set xs"
    using Cons.prems(2) by (fastforce simp: map_filter_def)
  moreover have "distinct (map h (List.map_filter g xs))" using Cons.IH Cons.prems by simp
  moreover have "h y = f x" if "g x = Some y" for y using Cons.prems(2) that by simp
  ultimately show ?case using Cons.prems(1) by (auto simp: map_filter_simps split: option.splits)
qed (simp add: map_filter_simps)

lemma noted_path: "noted sha vault p = Some n \<Longrightarrow> note_path n = note_source_path p"
  unfolding noted_def by (auto split: sum.splits elim: build_note_Some)

lemma index_parts:
  assumes "build_reviewed_obsidian_index C (Some root_path) is_directory probes = Inr ix"
  shows "ix_notes ix = List.map_filter (noted (c_sha C) root_path)
      (filter visible (sort_key (casefold \<circ> note_source_path) probes))"
    "ix_issues ix = List.map_filter (issued (c_sha C) root_path)
      (filter visible (sort_key (casefold \<circ> note_source_path) probes))"
proof -
  have "index_notes (c_sha C) root_path (sort_key (casefold \<circ> note_source_path) probes) = Inr (ix_notes ix, ix_issues ix)"
    using assms by (auto simp: build_reviewed_obsidian_index_def Let_def result_simps split: if_splits)
  then show "ix_notes ix = List.map_filter (noted (c_sha C) root_path)
      (filter visible (sort_key (casefold \<circ> note_source_path) probes))"
    "ix_issues ix = List.map_filter (issued (c_sha C) root_path)
      (filter visible (sort_key (casefold \<circ> note_source_path) probes))"
    by (simp_all add: index_notes_closed split: if_splits)
qed

lemma index_paths_distinct:
  assumes "build_reviewed_obsidian_index C (Some root_path) is_directory probes = Inr ix"
    and "distinct (map note_source_path probes)"
  shows "distinct (map note_path (ix_notes ix))"
  unfolding index_parts(1) [OF assms(1)]
proof (rule map_filter_source)
  show "distinct (map note_source_path (filter visible (sort_key (casefold \<circ> note_source_path) probes)))"
    using assms(2) by (intro distinct_map_filterI) (simp add: distinct_map)
qed (rule noted_path)

lemma index_notes_set:
  assumes "build_reviewed_obsidian_index C (Some root_path) is_directory probes = Inr ix"
  shows "n \<in> set (ix_notes ix) \<longleftrightarrow> (\<exists>p\<in>set probes. visible p \<and> build_note (c_sha C) root_path p = Inr (Some n))"
proof -
  have "set (List.map_filter g xs) = {y. \<exists>x\<in>set xs. g x = Some y}" for g :: "note_probe \<Rightarrow> indexed_note option" and xs
    by (induction xs) (auto simp: map_filter_simps split: option.splits)
  moreover have "noted sha vault p = Some x \<longleftrightarrow> build_note sha vault p = Inr (Some x)" for sha vault p x
    by (auto simp: noted_def split: sum.splits)
  ultimately show ?thesis unfolding index_parts(1) [OF assms] by auto
qed

text \<open>
  C10: a vault that is indexed and then synchronised, under a key that no synchronisation had before, into a
  well-formed database is mirrored: for every path from which a note
  is built, the database has a curated record, bound to that path, whose content is the decoded text
  of the file and whose hash is that of its bytes; a record bound to a path from which no note is
  built any more reads as missing, whether the file is gone, unreadable or no longer a note.
\<close>

theorem vault_is_mirrored:
  assumes "build_reviewed_obsidian_index C (Some root_path) True probes = Inr ix"
    and "distinct (map note_source_path probes)" and "memory_ok db" and "key \<notin> set (map sy_key (db_syncs db))"
    and "sync_obsidian rand (db, n) k (ix_notes ix) ev key (ix_hash ix) (length (ix_issues ix)) = (Inr res, db', n')"
  shows "(\<forall>p\<in>set probes. \<forall>x. visible p \<and> build_note (c_sha C) root_path p = Inr (Some x) \<longrightarrow>
      (\<exists>i r raw. \<lparr> bd_source = k, bd_locator = note_source_path p, bd_hash = note_hash x, bd_record = i \<rparr>
           \<in> set (db_bindings db') \<and>
         map_of (db_records db') i = Some r \<and> mem_state r = Curated \<and> np_bytes p = Some raw \<and>
         decode_note raw = Some (mem_content r) \<and> mem_content_hash r = digest_ref (c_sha C) raw)) \<and>
    (\<forall>b\<in>set (db_bindings db'). bd_source b = k \<and>
      (\<forall>p\<in>set probes. note_source_path p = bd_locator b \<longrightarrow>
         \<not> visible p \<or> (\<forall>x. build_note (c_sha C) root_path p \<noteq> Inr (Some x))) \<longrightarrow>
      (\<exists>r. map_of (db_records db') (bd_record b) = Some r \<and> mem_source_status r = Some ''missing''))"
proof (intro conjI ballI allI impI)
  note mirrors = sync_mirrors [OF assms(3) index_paths_distinct [OF assms(1,2)] assms(4,5)]
  note members = index_notes_set [OF assms(1)]
  fix p x
  assume p: "p \<in> set probes" "visible p \<and> build_note (c_sha C) root_path p = Inr (Some x)"
  then obtain raw t where x: "np_bytes p = Some raw" "decode_note raw = Some t" "note_content x = t"
    "note_path x = note_source_path p" "note_hash x = digest_ref (c_sha C) raw" by (auto elim: build_note_Some)
  obtain i where "\<lparr> bd_source = k, bd_locator = note_path x, bd_hash = note_hash x, bd_record = i \<rparr> \<in> set (db_bindings db')"
    "map_of (db_records db') i = Some (curated_record k x i)"
    using mirrors members p unfolding mirrored_def by blast
  then show "\<exists>i r raw. \<lparr> bd_source = k, bd_locator = note_source_path p, bd_hash = note_hash x, bd_record = i \<rparr>
      \<in> set (db_bindings db') \<and> map_of (db_records db') i = Some r \<and> mem_state r = Curated \<and> np_bytes p = Some raw \<and>
      decode_note raw = Some (mem_content r) \<and> mem_content_hash r = digest_ref (c_sha C) raw"
    using x by (intro exI [of _ i] exI [of _ "curated_record k x i"] exI [of _ raw]) (simp add: curated_record_def)
next
  note mirrors = sync_mirrors [OF assms(3) index_paths_distinct [OF assms(1,2)] assms(4,5)]
  note members = index_notes_set [OF assms(1)]
  fix b
  assume b: "b \<in> set (db_bindings db')" "bd_source b = k \<and> (\<forall>p\<in>set probes. note_source_path p = bd_locator b \<longrightarrow>
         \<not> visible p \<or> (\<forall>x. build_note (c_sha C) root_path p \<noteq> Inr (Some x)))"
  have "bd_locator b \<notin> note_path ` set (ix_notes ix)"
  proof
    assume "bd_locator b \<in> note_path ` set (ix_notes ix)"
    then obtain x p where "p \<in> set probes" "visible p" "build_note (c_sha C) root_path p = Inr (Some x)"
      "bd_locator b = note_path x" using members by blast
    moreover from this have "note_path x = note_source_path p" by (auto elim: build_note_Some)
    ultimately show False using b(2) by auto
  qed
  then show "\<exists>r. map_of (db_records db') (bd_record b) = Some r \<and> mem_source_status r = Some ''missing''"
    using mirrors b by blast
qed

section \<open>Concrete vaults\<close>

definition sample_vault :: "string list" where
  "sample_vault = [''home'', ''vault'']"

definition probe_of :: "string \<Rightarrow> string \<Rightarrow> note_probe" where
  "probe_of name t = \<lparr> np_parts = [''Notes'', name], np_link = False,
     np_resolved = Some (sample_vault @ [''Notes'', name]), np_size = Some (length t), np_bytes = Some t \<rparr>"

text \<open>An ASCII text is its own encoding.\<close>

lemma decode_ascii:
  assumes "list_all (\<lambda>c. (of_char c :: nat) < 128) raw"
  shows "decode_note raw = Some raw"
proof -
  have e: "encode_utf8 (map of_char raw) = map of_char raw"
    using assms by (induction raw) (simp_all add: encode_point_def)
  have "list_all scalar_value (map of_char raw)"
    using assms by (induction raw) (auto simp: scalar_value_def)
  then have "decode_utf8 (map of_char raw) = Some (map of_char raw)"
    using decode_encode_utf8 [of "map of_char raw"] e by simp
  moreover have "raw \<noteq> [] \<Longrightarrow> (of_char (hd raw) :: nat) \<noteq> 65279" using assms by (cases raw) auto
  moreover have "map (\<lambda>c. point_char (of_char c)) raw = raw"
    using assms by (induction raw) (auto simp: point_char_def)
  ultimately show ?thesis by (auto simp: decode_note_def comp_def hd_map)
qed


text \<open>A note of a type and a first line of its body.\<close>

definition typed_note :: "string \<Rightarrow> string \<Rightarrow> string" where
  "typed_note kind line = render_note [(''type'', kind)] [line]"

lemma typed_note_read:
  assumes "plain_entry (''type'', kind)" and "list_all (\<lambda>c. \<not> is_break c) line" and "line \<noteq> []"
    and "list_all (\<lambda>c. (of_char c :: nat) < 128) kind" and "list_all (\<lambda>c. (of_char c :: nat) < 128) line"
  shows "parse_frontmatter (typed_note kind line) = Some (Inr (Some ([(''type'', Scalar kind)], line)))"
    "decode_note (typed_note kind line) = Some (typed_note kind line)"
    "read_note sample_vault (probe_of name (typed_note kind line)) =
       (if length (typed_note kind line) > max_note_bytes then Inl (TooLarge, ''source exceeds the note byte limit'')
        else Inr (typed_note kind line))"
proof -
  have "casefold ''type'' = ''type''" by code_simp
  then show "parse_frontmatter (typed_note kind line) = Some (Inr (Some ([(''type'', Scalar kind)], line)))"
    using parse_rendered [of "[(''type'', kind)]" "[line]"] assms by (simp add: typed_note_def)
  show "decode_note (typed_note kind line) = Some (typed_note kind line)"
    by (rule decode_ascii) (use assms(4,5) in \<open>simp add: typed_note_def render_note_def render_line_def\<close>)
qed (simp add: read_note_def probe_of_def)

text \<open>The note built from a line below the type \<open>note\<close>, where the line names no domain.\<close>

definition plain_note :: "string \<Rightarrow> string \<Rightarrow> string \<Rightarrow> string list \<Rightarrow> indexed_note" where
  "plain_note name line title links =
     \<lparr> note_id = document_id sample_sha (''Notes/'' @ name), note_path = ''Notes/'' @ name, note_title = title,
       note_content = typed_note ''note'' line, note_type = ''note'', note_status = None, note_category = Note,
       note_domains = [General], note_topics = [], note_wikilinks = links,
       note_basis = [''frontmatter:type=note''], note_hash = digest_ref sample_sha (typed_note ''note'' line) \<rparr>"

lemma plain_note_built:
  assumes "list_all (\<lambda>c. \<not> is_break c) line" and "line \<noteq> []" and "list_all (\<lambda>c. (of_char c :: nat) < 128) line"
    and "length line < 100" and "extract_title line (''Notes/'' @ name) = title"
    and "extract_wikilinks (typed_note ''note'' line) = links"
    and "classify_domains title [(''type'', Scalar ''note'')] = Inr [General]"
  shows "build_note sample_sha sample_vault (probe_of name (typed_note ''note'' line)) =
    Inr (Some (plain_note name line title links))"
proof -
  have t: "plain_entry (''type'', ''note'')" "casefold ''note'' = ''note''" "list_all (\<lambda>c. (of_char c :: nat) < 128) ''note''"
    by code_simp+
  note r = typed_note_read [OF t(1) assms(1,2) t(3) assms(3)]
  have "length (typed_note ''note'' line) < 200"
    using assms(4) by (simp add: typed_note_def render_note_def render_line_def)
  then have "read_note sample_vault (probe_of name (typed_note ''note'' line)) = Inr (typed_note ''note'' line)"
    by (simp add: r(3) max_note_bytes_def)
  moreover have "note_source_path (probe_of name (typed_note ''note'' line)) = ''Notes/'' @ name"
    by (simp add: note_source_path_def probe_of_def)
  ultimately show ?thesis
    using t(2) r(1,2) assms(5-7) by (simp add: build_note_def str_value_def navigation_types_def note_of_def
        note_category_of_def type_categories_def plain_note_def as_values_def domain_basis_def Let_def del: digest_ref_def)
qed

definition plan :: note_probe where
  "plan = probe_of ''plan.md'' (typed_note ''note'' ''# Plan [[Other]]'')"

definition planned :: indexed_note where
  "planned = plain_note ''plan.md'' ''# Plan [[Other]]'' ''Plan [[Other]]'' [''Other'']"

lemma plan_built: "build_note sample_sha sample_vault plan = Inr (Some planned)"
  unfolding plan_def planned_def by (rule plain_note_built) code_simp+

definition draft :: note_probe where
  "draft = probe_of ''draft.md'' (typed_note ''note'' ''#  '')"

definition drafted :: indexed_note where
  "drafted = plain_note ''draft.md'' ''#  '' [] []"

lemma draft_built: "build_note sample_sha sample_vault draft = Inr (Some drafted)"
  unfolding draft_def drafted_def by (rule plain_note_built) code_simp+

definition odd_type :: string where
  "odd_type = replicate 300 (CHR ''x'')"

definition odd :: note_probe where
  "odd = probe_of ''odd.md'' (typed_note odd_type ''text'')"

lemma odd_length: "226 < length odd_type"
  unfolding odd_type_def length_replicate by simp

lemma odd_read: "read_note sample_vault odd = Inr (typed_note odd_type ''text'')"
    "decode_note (typed_note odd_type ''text'') = Some (typed_note odd_type ''text'')"
    "parse_frontmatter (typed_note odd_type ''text'') = Some (Inr (Some ([(''type'', Scalar odd_type)], ''text'')))"
proof -
  have t: "is_slug (upper_chars @ lower_chars) (alnum_chars @ ''_-'') 0 63 ''type''" "\<not> is_space (CHR ''x'')"
    "\<not> is_break (CHR ''x'')" "list_all (\<lambda>c. \<not> is_break c) ''text''" "list_all (\<lambda>c. (of_char c :: nat) < 128) ''text''"
    by code_simp+
  have p: "plain_entry (''type'', odd_type)"
    using t by (simp add: plain_entry_def odd_type_def max_scalar_def hd_replicate last_replicate list_all_iff)
  have a: "list_all (\<lambda>c. (of_char c :: nat) < 128) odd_type" by (simp add: odd_type_def list_all_iff)
  note r = typed_note_read [OF p t(4) _ a t(5)]
  have "length (typed_note odd_type ''text'') < 1000"
    by (simp add: typed_note_def render_note_def render_line_def odd_type_def)
  then show "read_note sample_vault odd = Inr (typed_note odd_type ''text'')"
    by (simp add: odd_def r(3) max_note_bytes_def)
  show "decode_note (typed_note odd_type ''text'') = Some (typed_note odd_type ''text'')"
    "parse_frontmatter (typed_note odd_type ''text'') = Some (Inr (Some ([(''type'', Scalar odd_type)], ''text'')))"
    using r(1,2) by simp_all
qed

lemma sample_visible: "visible plan" "visible draft" "visible odd"
  by (simp_all add: visible_def plan_def draft_def odd_def probe_of_def excluded_directories_def)

lemma one_note_index:
  assumes "visible p" and "build_note sample_sha sample_vault p = Inr (Some n)"
  obtains ix where "build_reviewed_obsidian_index sample_codec (Some sample_vault) True [p] = Inr ix"
    "ix_notes ix = [n]" "ix_issues ix = []"
  using that assms
  by (simp add: build_reviewed_obsidian_index_def index_notes_closed unreportable_def noted_def issued_def Let_def
      map_filter_simps)

section \<open>The properties at these vaults\<close>

theorem indexed_notes_are_curated_witness:
  "distinct (note_wikilinks planned) \<and> note_id planned = document_id sample_sha ''Notes/plan.md''"
proof -
  obtain ix where "build_reviewed_obsidian_index sample_codec (Some sample_vault) True [plan] = Inr ix" "ix_notes ix = [planned]"
    using one_note_index [OF sample_visible(1) plan_built] by blast
  then show ?thesis
    using indexed_notes_are_curated [of sample_codec sample_vault True "[plan]" ix planned]
    by (simp add: plan_def note_source_path_def probe_of_def)
qed

theorem index_order_independent_witness:
  "build_reviewed_obsidian_index sample_codec (Some sample_vault) True [plan, draft] =
   build_reviewed_obsidian_index sample_codec (Some sample_vault) True [draft, plan]"
proof (rule index_order_independent)
  have n: "casefold (note_source_path plan) \<noteq> casefold (note_source_path draft)" by code_simp
  then show "distinct (map (casefold \<circ> note_source_path) [plan, draft])" "distinct (map (casefold \<circ> note_source_path) [draft, plan])"
    by auto
qed auto

theorem long_type_breaks_index_witness:
  "build_reviewed_obsidian_index sample_codec (Some sample_vault) True [plan, odd] = Inl IssueRejected"
proof (rule long_type_breaks_index [OF _ sample_visible(3) _ odd_read(2,3) _ odd_length])
  show "read_note sample_vault odd = Inr (typed_note odd_type ''text'')" by (rule odd_read(1))
qed simp_all

theorem unfit_title_blocks_sync_witness:
  "\<exists>e. sync_obsidian (\<lambda>_. []) (empty_memory_db, 0) ''vault'' [drafted] (sample_id ''evt'' (CHR ''1'')) ''k1'' sample_digest 0 =
     (Inl e, empty_memory_db, 0)"
proof -
  obtain ix where "build_reviewed_obsidian_index sample_codec (Some sample_vault) True [draft] = Inr ix" "ix_notes ix = [drafted]"
    using one_note_index [OF sample_visible(2) draft_built] by blast
  then show ?thesis
    using unfit_title_blocks_sync [of sample_codec "Some sample_vault" True "[draft]" ix drafted "''k1''" "(empty_memory_db, 0)"]
    by (simp add: drafted_def plain_note_def empty_memory_db_def)
qed

lemma planned_valid: "tagged_id ''mem'' i \<Longrightarrow> valid_memory (curated_record k planned i)"
  by (simp add: valid_memory_def curated_record_def planned_def plain_note_def typed_note_def render_note_def
      render_line_def digest_ref_is_digest)

theorem vault_is_mirrored_witness:
  "\<exists>ix res db' i r. build_reviewed_obsidian_index sample_codec (Some sample_vault) True [plan] = Inr ix \<and>
     sync_obsidian (\<lambda>_. []) (empty_memory_db, 0) ''vault'' (ix_notes ix) (sample_id ''evt'' (CHR ''1'')) ''k1''
       (ix_hash ix) 0 = (Inr res, db', 1) \<and>
     map_of (db_records db') i = Some r \<and> mem_content r = typed_note ''note'' ''# Plan [[Other]]''"
proof -
  obtain ix where ix: "build_reviewed_obsidian_index sample_codec (Some sample_vault) True [plan] = Inr ix"
    "ix_notes ix = [planned]" "ix_issues ix = []"
    using one_note_index [OF sample_visible(1) plan_built] by blast
  obtain res db' where s: "sync_obsidian (\<lambda>_. []) (empty_memory_db, 0) ''vault'' (ix_notes ix)
      (sample_id ''evt'' (CHR ''1'')) ''k1'' (ix_hash ix) (length (ix_issues ix)) = (Inr res, db', 1)"
    using sync_first [OF planned_valid [OF new_record_id_tagged] sample_key(1)] unfolding ix list.size(3) by blast
  have n: "np_bytes plan = Some (typed_note ''note'' ''# Plan [[Other]]'')"
    "decode_note (typed_note ''note'' ''# Plan [[Other]]'') = Some (typed_note ''note'' ''# Plan [[Other]]'')"
    by (simp add: plan_def probe_of_def) (rule decode_ascii, code_simp)
  obtain i and r :: memory where "map_of (db_records db') i = Some r" "mem_content r = typed_note ''note'' ''# Plan [[Other]]''"
    using vault_is_mirrored [OF ix(1) _ empty_memory_ok _ s] n plan_built sample_visible(1)
    by (fastforce simp: empty_memory_db_def)
  then show ?thesis using ix s by auto
qed

end
