(* ===== verification/Memory_Projection.thy ===== *)
theory Memory_Projection
  imports Obsidian Memory_Repository
begin

text \<open>
  What the HTTP interface shows of memory, \<open>memory/projection.py\<close>, and where its source comes from,
  \<open>memory/service.py\<close>: the projections of the index of a vault and those of the records of the
  repository, with the same filters.
\<close>

section \<open>States and reasons\<close>

datatype projection_state = Ready | Degraded | Unavailable

datatype index_unavailability = VaultNotConfigured | VaultNotFound | IndexBuildFailed

definition domain_legend :: "(memory_domain \<times> string) list" where
  "domain_legend =
     [ (AiMl, ''AI / ML''), (RfEm, ''RF / EM''), (Science, ''Science''), (Mathematics, ''Mathematics''),
       (Engineering, ''Engineering''), (Software, ''Software''), (Business, ''Business''),
       (General, ''General'') ]"

record index_projection =
  ip_state :: projection_state
  ip_reason :: "index_unavailability option"
  ip_hash :: "string option"
  ip_node_count :: nat
  ip_issue_count :: nat
  ip_categories :: "(memory_category \<times> string \<times> string \<times> string) list"
  ip_domains :: "(memory_domain \<times> string) list"
  ip_issues :: "index_issue list"

record node_summary =
  ns_id :: string
  ns_title :: string
  ns_source_path :: "string option"
  ns_source_status :: "string option"
  ns_state :: authority
  ns_source_kind :: source_kind
  ns_category :: memory_category
  ns_domains :: "memory_domain list"
  ns_topics :: "string list"
  ns_hash :: string
  ns_link_count :: nat
  ns_nodes :: "architecture_node list"

text \<open>A detail is a summary with more fields.\<close>

record node_detail = node_summary +
  nd_type :: string
  nd_wikilinks :: "string list"
  nd_basis :: "string list"

record node_collection =
  nc_state :: projection_state
  nc_reason :: "index_unavailability option"
  nc_hash :: "string option"
  nc_count :: nat
  nc_category :: "memory_category option"
  nc_domain :: "memory_domain option"
  nc_nodes :: "node_summary list"

section \<open>The index of a vault\<close>

definition index_state :: "reviewed_index \<Rightarrow> projection_state" where
  "index_state ix = (if ix_issues ix \<noteq> [] then Degraded else Ready)"

definition project_index :: "reviewed_index \<Rightarrow> index_projection" where
  "project_index ix =
     \<lparr> ip_state = index_state ix, ip_reason = None, ip_hash = Some (ix_hash ix),
       ip_node_count = length (ix_notes ix), ip_issue_count = length (ix_issues ix),
       ip_categories = ix_legend ix, ip_domains = domain_legend, ip_issues = ix_issues ix \<rparr>"

definition unavailable_index :: "index_unavailability \<Rightarrow> index_projection" where
  "unavailable_index reason =
     \<lparr> ip_state = Unavailable, ip_reason = Some reason, ip_hash = None, ip_node_count = 0,
       ip_issue_count = 0, ip_categories = category_legend, ip_domains = domain_legend, ip_issues = [] \<rparr>"

definition summarize :: "indexed_note \<Rightarrow> node_summary" where
  "summarize n =
     \<lparr> ns_id = note_id n, ns_title = note_title n, ns_source_path = Some (note_path n),
       ns_source_status = note_status n, ns_state = Curated, ns_source_kind = ObsidianSource,
       ns_category = note_category n, ns_domains = note_domains n, ns_topics = note_topics n,
       ns_hash = note_hash n, ns_link_count = length (note_wikilinks n), ns_nodes = [] \<rparr>"

text \<open>The two optional filters, over the category and the domains of an item.\<close>

definition admits ::
    "memory_category option \<Rightarrow> memory_domain option \<Rightarrow> memory_category \<Rightarrow> memory_domain list \<Rightarrow> bool" where
  "admits category domain c ds \<longleftrightarrow>
     (case category of None \<Rightarrow> True | Some c' \<Rightarrow> c = c') \<and>
     (case domain of None \<Rightarrow> True | Some d \<Rightarrow> d \<in> set ds)"

definition project_nodes ::
    "reviewed_index \<Rightarrow> memory_category option \<Rightarrow> memory_domain option \<Rightarrow> node_collection" where
  "project_nodes ix category domain =
     (let notes = filter (\<lambda>n. admits category domain (note_category n) (note_domains n)) (ix_notes ix) in
      \<lparr> nc_state = index_state ix, nc_reason = None, nc_hash = Some (ix_hash ix), nc_count = length notes,
        nc_category = category, nc_domain = domain, nc_nodes = map summarize notes \<rparr>)"

definition unavailable_nodes ::
    "index_unavailability \<Rightarrow> memory_category option \<Rightarrow> memory_domain option \<Rightarrow> node_collection" where
  "unavailable_nodes reason category domain =
     \<lparr> nc_state = Unavailable, nc_reason = Some reason, nc_hash = None, nc_count = 0,
       nc_category = category, nc_domain = domain, nc_nodes = [] \<rparr>"

definition project_node :: "indexed_note \<Rightarrow> node_detail" where
  "project_node n = node_summary.extend (summarize n)
     (node_detail.fields (note_type n) (note_wikilinks n) (note_basis n))"

section \<open>The records of the repository\<close>

definition summarize_product :: "memory \<Rightarrow> node_summary" where
  "summarize_product r =
     \<lparr> ns_id = mem_id r, ns_title = mem_title r, ns_source_path = mem_source_path r,
       ns_source_status = mem_source_status r, ns_state = mem_state r, ns_source_kind = mem_source_kind r,
       ns_category = mem_category r, ns_domains = mem_domains r, ns_topics = mem_topics r,
       ns_hash = mem_content_hash r, ns_link_count = length (mem_wikilinks r), ns_nodes = mem_nodes r \<rparr>"

fun source_kind_value :: "source_kind \<Rightarrow> string" where
  "source_kind_value NativeSource = ''native''"
| "source_kind_value ObsidianSource = ''obsidian''"

fun node_value :: "architecture_node \<Rightarrow> string" where
  "node_value IdentityRole = ''identity-role''"
| "node_value GoalsCommitments = ''goals-commitments''"
| "node_value ProjectsWork = ''projects-work''"
| "node_value KnowledgeResearch = ''knowledge-research''"
| "node_value PeopleRelationships = ''people-relationships''"
| "node_value DecisionsLessons = ''decisions-lessons''"
| "node_value PreferencesContext = ''preferences-context''"

definition jopt :: "string option \<Rightarrow> jval" where
  "jopt x = (case x of None \<Rightarrow> JNull | Some s \<Rightarrow> JStr s)"

text \<open>\<open>model_dump(mode="json")\<close> of a record\<close>

definition dump_memory :: "memory \<Rightarrow> jval" where
  "dump_memory r = jobj
     [ (''schema_version'', JInt 1), (''id'', JStr (mem_id r)), (''title'', JStr (mem_title r)),
       (''content'', JStr (mem_content r)), (''authority_state'', JStr (authority_value (mem_state r))),
       (''source_kind'', JStr (source_kind_value (mem_source_kind r))),
       (''source_key'', JStr (mem_source_key r)), (''source_path'', jopt (mem_source_path r)),
       (''source_status'', jopt (mem_source_status r)),
       (''category'', JStr (category_value (mem_category r))),
       (''domains'', JSeq (map (JStr \<circ> domain_value) (mem_domains r))),
       (''topics'', JSeq (map JStr (mem_topics r))), (''content_hash'', JStr (mem_content_hash r)),
       (''wikilinks'', JSeq (map JStr (mem_wikilinks r))),
       (''classification_basis'', JSeq (map JStr (mem_basis r))),
       (''architecture_node_ids'', JSeq (map (JStr \<circ> node_value) (mem_nodes r))),
       (''source_refs'', JSeq (map JStr (mem_source_refs r))), (''created_by'', jopt (mem_created_by r)),
       (''creation_request_id'', jopt (mem_request r)), (''correction_target_id'', jopt (mem_target r)),
       (''correction_expected_hash'', jopt (mem_expected_hash r)),
       (''correction_reason'', jopt (mem_reason r)) ]"

definition product_index_hash :: "codec \<Rightarrow> memory list \<Rightarrow> string" where
  "product_index_hash C records = canonical_payload_hash C (JSeq (map dump_memory records))"

definition project_product_index :: "codec \<Rightarrow> memory list \<Rightarrow> index_projection" where
  "project_product_index C records =
     \<lparr> ip_state = Ready, ip_reason = None, ip_hash = Some (product_index_hash C records),
       ip_node_count = length records, ip_issue_count = 0, ip_categories = category_legend,
       ip_domains = domain_legend, ip_issues = [] \<rparr>"

definition project_product_nodes ::
    "codec \<Rightarrow> memory list \<Rightarrow> memory_category option \<Rightarrow> memory_domain option \<Rightarrow> node_collection" where
  "project_product_nodes C records category domain =
     (let selected = filter (\<lambda>r. admits category domain (mem_category r) (mem_domains r)) records in
      \<lparr> nc_state = Ready, nc_reason = None, nc_hash = Some (product_index_hash C records),
        nc_count = length selected, nc_category = category, nc_domain = domain,
        nc_nodes = map summarize_product selected \<rparr>)"

definition project_product_node :: "memory \<Rightarrow> node_detail" where
  "project_product_node r = node_summary.extend (summarize_product r)
     (node_detail.fields (case mem_source_kind r of NativeSource \<Rightarrow> ''native'' | ObsidianSource \<Rightarrow> ''source'')
       (mem_wikilinks r) (mem_basis r))"

section \<open>The source\<close>

text \<open>
  What the operating system answers about the configured vault: whether it is a directory when it
  is first looked at, its resolved path, whether that is a directory, and the markdown paths below.
\<close>

record vault_view =
  vv_is_dir :: bool
  vv_root :: "string list option"
  vv_directory :: bool
  vv_probes :: "note_probe list"

definition load_memory_index :: "codec \<Rightarrow> vault_view option \<Rightarrow> index_unavailability + reviewed_index" where
  "load_memory_index C vault =
     (case vault of
        None \<Rightarrow> Inl VaultNotConfigured
      | Some v \<Rightarrow>
          if \<not> vv_is_dir v then Inl VaultNotFound
          else (case build_reviewed_obsidian_index C (vv_root v) (vv_directory v) (vv_probes v) of
              Inl _ \<Rightarrow> Inl IndexBuildFailed
            | Inr ix \<Rightarrow> Inr ix))"

section \<open>A synchronised note reads the same\<close>

text \<open>
  The two projections agree: the record a note is synchronised into has the summary of the note, but
  for its identity, and the detail differs only in the type it names.
\<close>

lemma curated_summary:
  "summarize_product (curated_record k n i) = (summarize n)\<lparr>ns_id := i\<rparr>"
  "project_product_node (curated_record k n i) = (project_node n)\<lparr>ns_id := i, nd_type := ''source''\<rparr>"
  by (simp_all add: summarize_product_def summarize_def curated_record_def project_product_node_def
      project_node_def node_summary.defs node_detail.defs)

lemma project_node_summary:
  "node_summary.truncate (project_node n) = summarize n"
  "node_summary.truncate (project_product_node r) = summarize_product r"
  by (simp_all add: project_node_def project_product_node_def summarize_def summarize_product_def
      node_summary.defs node_detail.defs)

end
