(* ===== verification/Workspace_Auth.thy ===== *)
theory Workspace_Auth
  imports Text
begin

text \<open>
  The credential of the local workspace, \<open>workspaces/service.py\<close>, and the failures of an HTTP route.
  \<open>hmac.compare_digest\<close> compares texts only where both are ASCII and raises otherwise.
\<close>

section \<open>Failures of a route\<close>

text \<open>
  An \<open>HTTPException\<close> with its status and public code, a request the framework rejects by its
  declared fields (422), or an exception the route does not translate (500).
\<close>

datatype route_failure = HttpFailure nat string | Unprocessable | ServerError

section \<open>The bearer credential\<close>

record workspace_auth =
  wa_credential :: "string option"
  wa_workspace :: string
  wa_actor :: string

datatype auth_state = AuthUnavailable | AuthLocked | AuthReady

record principal =
  pr_workspace :: string
  pr_actor :: string

definition is_ascii :: "string \<Rightarrow> bool" where
  "is_ascii s \<longleftrightarrow> list_all (\<lambda>c. (of_char c :: nat) < 128) s"

text \<open>\<open>None\<close> is the \<open>TypeError\<close> for a text that is not ASCII.\<close>

definition compare_digest :: "string \<Rightarrow> string \<Rightarrow> bool option" where
  "compare_digest a b = (if is_ascii a \<and> is_ascii b then Some (a = b) else None)"

text \<open>\<open>str.partition\<close> with a separator of one character: the part before it, and the part after it if it occurs\<close>

definition partition_at :: "char \<Rightarrow> string \<Rightarrow> string \<times> string option" where
  "partition_at d s =
     (let before = takeWhile (\<lambda>c. c \<noteq> d) s in
      (before, if length before < length s then Some (drop (length before + 1) s) else None))"

definition auth_matches :: "workspace_auth \<Rightarrow> string option \<Rightarrow> bool option" where
  "auth_matches a authorization =
     (case (wa_credential a, authorization) of
        (Some credential, Some header) \<Rightarrow>
          if credential = [] then Some False
          else (case partition_at (CHR '' '') header of
              (scheme, None) \<Rightarrow> Some False
            | (scheme, Some supplied) \<Rightarrow>
                if casefold scheme = ''bearer'' then compare_digest supplied credential else Some False)
      | _ \<Rightarrow> Some False)"

definition auth_status :: "workspace_auth \<Rightarrow> string option \<Rightarrow> route_failure + auth_state" where
  "auth_status a authorization =
     (if wa_credential a = None \<or> wa_credential a = Some [] then Inr AuthUnavailable
      else (case auth_matches a authorization of
          None \<Rightarrow> Inl ServerError
        | Some ready \<Rightarrow> Inr (if ready then AuthReady else AuthLocked)))"

text \<open>The patterns of \<open>LocalWorkspacePrincipal\<close>\<close>

definition valid_principal :: "principal \<Rightarrow> bool" where
  "valid_principal p \<longleftrightarrow>
     starts_with ''ws_'' (pr_workspace p) \<and>
     is_slug (lower_chars @ digit_chars) (lower_chars @ digit_chars @ ''_-'') 0 62 (drop 3 (pr_workspace p)) \<and>
     starts_with ''human_'' (pr_actor p) \<and>
     is_slug (lower_chars @ digit_chars) (lower_chars @ digit_chars @ ''_-'') 0 62 (drop 6 (pr_actor p))"

definition require_principal :: "workspace_auth \<Rightarrow> string option \<Rightarrow> route_failure + principal" where
  "require_principal a authorization =
     (case auth_matches a authorization of
        None \<Rightarrow> Inl ServerError
      | Some False \<Rightarrow> Inl (HttpFailure 401 ''workspace_auth_required'')
      | Some True \<Rightarrow>
          let p = \<lparr> pr_workspace = wa_workspace a, pr_actor = wa_actor a \<rparr> in
          if valid_principal p then Inr p else Inl ServerError)"

section \<open>Who is admitted\<close>

text \<open>The headers that carry a credential.\<close>

definition bears :: "string option \<Rightarrow> string \<Rightarrow> bool" where
  "bears authorization credential \<longleftrightarrow>
     (\<exists>scheme. authorization = Some (scheme @ '' '' @ credential) \<and> casefold scheme = ''bearer'')"

lemma casefold_bearer_no_space: "casefold scheme = ''bearer'' \<Longrightarrow> CHR '' '' \<notin> set scheme"
proof
  assume a: "casefold scheme = ''bearer''" "CHR '' '' \<in> set scheme"
  moreover have "fold_char (CHR '' '') = '' ''" by code_simp
  ultimately have "CHR '' '' \<in> set (casefold scheme)"
    unfolding casefold_def set_concat set_map by (metis UN_I imageI list.set_intros(1))
  then show False using a(1) by simp
qed

lemma partition_at_Some:
  "partition_at d s = (u, Some v) \<longleftrightarrow> s = u @ d # v \<and> d \<notin> set u"
proof
  assume p: "partition_at d s = (u, Some v)"
  then have u: "u = takeWhile (\<lambda>c. c \<noteq> d) s" "length u < length s" "v = drop (length u + 1) s"
    by (auto simp: partition_at_def Let_def split: if_splits)
  have "s = u @ dropWhile (\<lambda>c. c \<noteq> d) s" "dropWhile (\<lambda>c. c \<noteq> d) s = drop (length u) s"
    unfolding u(1) by (simp, rule dropWhile_eq_drop)
  moreover have "drop (length u) s = d # v"
    using u(2,3) nth_length_takeWhile [of "\<lambda>c. c \<noteq> d" s] by (simp add: u(1) Cons_nth_drop_Suc [symmetric])
  moreover have "d \<notin> set u" unfolding u(1) by (auto dest: set_takeWhileD)
  ultimately show "s = u @ d # v \<and> d \<notin> set u" by simp
next
  assume s: "s = u @ d # v \<and> d \<notin> set u"
  then have "takeWhile (\<lambda>c. c \<noteq> d) s = u" by (subst conjunct1 [OF s], subst takeWhile_append2) auto
  then show "partition_at d s = (u, Some v)" using s by (simp add: partition_at_def)
qed

text \<open>Only the bearer of the configured credential is admitted, under the configured identity.\<close>

lemma principal_admitted:
  assumes "require_principal a authorization = Inr p"
  obtains credential where "wa_credential a = Some credential" "credential \<noteq> []" "bears authorization credential"
    "p = \<lparr> pr_workspace = wa_workspace a, pr_actor = wa_actor a \<rparr>" "valid_principal p"
proof -
  have m: "auth_matches a authorization = Some True" "p = \<lparr> pr_workspace = wa_workspace a, pr_actor = wa_actor a \<rparr>"
    "valid_principal p"
    using assms by (auto simp: require_principal_def Let_def split: option.splits bool.splits if_splits)
  obtain credential header where c: "wa_credential a = Some credential" "authorization = Some header" "credential \<noteq> []"
    using m(1) by (auto simp: auth_matches_def split: option.splits if_splits)
  obtain scheme supplied where s: "partition_at (CHR '' '') header = (scheme, Some supplied)" "casefold scheme = ''bearer''"
      "compare_digest supplied credential = Some True"
    using m(1) c by (auto simp: auth_matches_def split: prod.splits option.splits if_splits)
  have "header = scheme @ '' '' @ credential"
    using s(1,3) by (simp add: partition_at_Some compare_digest_def split: if_splits)
  then show thesis using that [OF c(1,3) _ m(2,3)] c(2) s(2) by (auto simp: bears_def)
qed

lemma bearer_is_admitted:
  assumes "wa_credential a = Some credential" and "credential \<noteq> []" and "is_ascii credential"
    and "bears authorization credential" and "valid_principal \<lparr> pr_workspace = wa_workspace a, pr_actor = wa_actor a \<rparr>"
  shows "require_principal a authorization = Inr \<lparr> pr_workspace = wa_workspace a, pr_actor = wa_actor a \<rparr>"
proof -
  obtain scheme where s: "authorization = Some (scheme @ '' '' @ credential)" "casefold scheme = ''bearer''"
    using assms(4) by (auto simp: bears_def)
  have "partition_at (CHR '' '') (scheme @ '' '' @ credential) = (scheme, Some credential)"
    using casefold_bearer_no_space [OF s(2)] by (simp add: partition_at_Some)
  then show ?thesis
    using assms(1-3,5) s by (simp add: require_principal_def auth_matches_def compare_digest_def)
qed

text \<open>
  A header that is not ASCII is answered with an internal error instead of a refusal, and under a
  credential that is not ASCII nobody is admitted.
\<close>

lemma odd_header_is_server_error:
  assumes "wa_credential a = Some credential" and "credential \<noteq> []" and "casefold scheme = ''bearer''"
    and "\<not> is_ascii supplied \<or> \<not> is_ascii credential"
  shows "require_principal a (Some (scheme @ '' '' @ supplied)) = Inl ServerError"
    "auth_status a (Some (scheme @ '' '' @ supplied)) = Inl ServerError"
proof -
  have "partition_at (CHR '' '') (scheme @ '' '' @ supplied) = (scheme, Some supplied)"
    using casefold_bearer_no_space [OF assms(3)] by (simp add: partition_at_Some)
  then have "auth_matches a (Some (scheme @ '' '' @ supplied)) = None"
    using assms by (auto simp: auth_matches_def compare_digest_def)
  then show "require_principal a (Some (scheme @ '' '' @ supplied)) = Inl ServerError"
    "auth_status a (Some (scheme @ '' '' @ supplied)) = Inl ServerError"
    using assms(1,2) by (simp_all add: require_principal_def auth_status_def)
qed

end
