(* ===== verification/Memory_Routes.thy ===== *)
theory Memory_Routes
  imports Memory_Projection Memory_Governance Workspace_Auth
begin

text \<open>
  The HTTP routes of product memory, \<open>memory/routes.py\<close> with the requests of \<open>memory/contracts.py\<close>.
  The database is \<open>None\<close> while its file does not exist; the reading routes then show the index of the
  configured vault.  A handler that opens the repository creates the file, whatever becomes of the
  request.  The framework resolves the credential before it checks the declared fields.
\<close>

section \<open>Requests\<close>

text \<open>\<open>^(?:doc|mem)_[0-9A-HJKMNP-TV-Z]{26}$\<close>\<close>

definition is_node_id :: "string \<Rightarrow> bool" where
  "is_node_id s \<longleftrightarrow> tagged_id ''doc'' s \<or> tagged_id ''mem'' s"

record create_request =
  cr_title :: string
  cr_content :: string
  cr_category :: memory_category
  cr_domains :: "memory_domain list"
  cr_topics :: "string list"
  cr_nodes :: "architecture_node list"

definition valid_create :: "create_request \<Rightarrow> bool" where
  "valid_create q \<longleftrightarrow>
     1 \<le> length (cr_title q) \<and> length (cr_title q) \<le> 512 \<and>
     1 \<le> length (cr_content q) \<and> length (cr_content q) \<le> 2 * 1024 * 1024 \<and> cr_domains q \<noteq> []"

record memory_review =
  mv_request :: string
  mv_decision :: authority
  mv_replacement :: "string option"

definition valid_review :: "memory_review \<Rightarrow> bool" where
  "valid_review q \<longleftrightarrow> tagged_id ''evt'' (mv_request q) \<and> mv_decision q \<in> {Approved, Rejected, Superseded} \<and>
     opt_ok is_node_id (mv_replacement q)"

section \<open>Reading\<close>

type_synonym memory_store = "memory_db option \<times> nat"

definition memory_index :: "codec \<Rightarrow> vault_view option \<Rightarrow> memory_store \<Rightarrow> index_projection" where
  "memory_index C vault s =
     (case fst s of
        Some db \<Rightarrow> project_product_index C (list_memory db)
      | None \<Rightarrow>
          (case load_memory_index C vault of
             Inl reason \<Rightarrow> unavailable_index reason
           | Inr ix \<Rightarrow> project_index ix))"

definition memory_nodes ::
    "codec \<Rightarrow> vault_view option \<Rightarrow> memory_category option \<Rightarrow> memory_domain option \<Rightarrow> memory_store
      \<Rightarrow> node_collection" where
  "memory_nodes C vault category domain s =
     (case fst s of
        Some db \<Rightarrow> project_product_nodes C (list_memory db) category domain
      | None \<Rightarrow>
          (case load_memory_index C vault of
             Inl reason \<Rightarrow> unavailable_nodes reason category domain
           | Inr ix \<Rightarrow> project_nodes ix category domain))"

definition node_not_found :: route_failure where
  "node_not_found = HttpFailure 404 ''node_not_found''"

definition memory_node ::
    "codec \<Rightarrow> vault_view option \<Rightarrow> string \<Rightarrow> memory_store \<Rightarrow> route_failure + node_detail" where
  "memory_node C vault node_id s =
     (if \<not> is_node_id node_id then Inl Unprocessable
      else if starts_with ''mem_'' node_id
      then (case Option.bind (fst s) (\<lambda>db. get_memory db node_id) of
          None \<Rightarrow> Inl node_not_found
        | Some r \<Rightarrow> Inr (project_product_node r))
      else (case load_memory_index C vault of
          Inl reason \<Rightarrow> Inl (HttpFailure 503 ''memory_unavailable'')
        | Inr ix \<Rightarrow>
            (case find (\<lambda>n. note_id n = node_id) (ix_notes ix) of
               None \<Rightarrow> Inl node_not_found
             | Some n \<Rightarrow> Inr (project_node n))))"

datatype source_state = Configured | NotConfigured | SourceUnavailable

definition obsidian_source_status :: "vault_view option \<Rightarrow> source_state" where
  "obsidian_source_status vault =
     (case vault of
        None \<Rightarrow> NotConfigured
      | Some v \<Rightarrow> if vv_is_dir v then Configured else SourceUnavailable)"

section \<open>Writing\<close>

text \<open>Opening the repository creates its file.\<close>

definition opened :: "memory_store \<Rightarrow> memory_db \<times> nat" where
  "opened s = (case fst s of None \<Rightarrow> empty_memory_db | Some db \<Rightarrow> db, snd s)"

definition keep_store :: "memory_db \<times> nat \<Rightarrow> memory_store" where
  "keep_store s = (Some (fst s), snd s)"

datatype memory_answer =
    NodeAnswer node_detail
  | SyncAnswer (sync_created: nat) (sync_revised: nat) (sync_unchanged: nat) (sync_missing: nat) (sync_issues: nat)

definition create_memory_node ::
    "codec \<Rightarrow> (nat \<Rightarrow> string) \<Rightarrow> create_request \<Rightarrow> memory_store \<Rightarrow> (route_failure + memory_answer) \<times> memory_store" where
  "create_memory_node C rand q s =
     (if \<not> valid_create q then (Inl Unprocessable, s)
      else
        let native = \<lparr> nr_id = None, nr_title = cr_title q, nr_content = cr_content q, nr_category = cr_category q,
              nr_domains = cr_domains q, nr_topics = cr_topics q,
              nr_hash = digest_ref (c_sha C) (map char_of (encode_utf8 (map of_char (cr_content q)))),
              nr_nodes = cr_nodes q, nr_source_refs = [], nr_created_by = None, nr_request = None,
              nr_target = None, nr_expected_hash = None, nr_reason = None \<rparr>
        in (case create_native rand (opened s) native of
            (Inl e, s') \<Rightarrow> (Inl ServerError, keep_store s')
          | (Inr r, s') \<Rightarrow> (Inr (NodeAnswer (project_product_node r)), keep_store s')))"

fun review_failure :: "memory_error \<Rightarrow> route_failure" where
  "review_failure (RecordNotFound _) = node_not_found"
| "review_failure (ReviewConflict _) = HttpFailure 409 ''idempotency_conflict''"
| "review_failure (TransitionConflict _) = HttpFailure 409 ''invalid_transition''"
| "review_failure _ = ServerError"

definition review_memory_node ::
    "string \<Rightarrow> memory_review \<Rightarrow> string \<Rightarrow> memory_store \<Rightarrow> (route_failure + memory_answer) \<times> memory_store" where
  "review_memory_node node_id q key s =
     (if \<not> is_node_id node_id \<or> \<not> valid_review q \<or> \<not> is_header_key key then (Inl Unprocessable, s)
      else if \<not> starts_with ''mem_'' node_id
      then (Inl (HttpFailure 409 ''source_record_not_reviewable''), s)
      else (case opened s of (db, draws) \<Rightarrow>
         (case review_memory db node_id (mv_decision q) (mv_request q) key (mv_replacement q) of
            (Inl e, db') \<Rightarrow> (Inl (review_failure e), keep_store (db', draws))
          | (Inr r, db') \<Rightarrow> (Inr (NodeAnswer (project_product_node r)), keep_store (db', draws)))))"

definition sync_obsidian_memory ::
    "codec \<Rightarrow> (nat \<Rightarrow> string) \<Rightarrow> vault_view option \<Rightarrow> string \<Rightarrow> string \<Rightarrow> memory_store
      \<Rightarrow> (route_failure + memory_answer) \<times> memory_store" where
  "sync_obsidian_memory C rand vault request_id key s =
     (if \<not> tagged_id ''evt'' request_id \<or> \<not> is_header_key key then (Inl Unprocessable, s)
      else (case load_memory_index C vault of
          Inl reason \<Rightarrow> (Inl (HttpFailure 503 ''source_unavailable''), s)
        | Inr ix \<Rightarrow>
           (case sync_obsidian rand (opened s) ''obsidian_primary'' (ix_notes ix) request_id key (ix_hash ix)
                   (length (ix_issues ix)) of
              (Inl (SyncConflict _), s') \<Rightarrow> (Inl (HttpFailure 409 ''idempotency_conflict''), keep_store s')
            | (Inl e, s') \<Rightarrow> (Inl ServerError, keep_store s')
            | (Inr res, s') \<Rightarrow>
                (Inr (SyncAnswer (sr_created res) (sr_revised res) (sr_unchanged res) (sr_missing res) (sr_issues res)),
                 keep_store s'))))"

section \<open>The router\<close>

datatype memory_call =
    CreateNode create_request
  | ReviewNode string memory_review string
  | SyncSource string string

text \<open>A call with its authorization header, against the vault as it is then.\<close>

definition serve_memory ::
    "codec \<Rightarrow> (nat \<Rightarrow> string) \<Rightarrow> workspace_auth \<Rightarrow> string option \<times> vault_view option \<times> memory_call \<Rightarrow> memory_store
      \<Rightarrow> (route_failure + memory_answer) \<times> memory_store" where
  "serve_memory C rand auth request s =
     (case request of (authorization, vault, call) \<Rightarrow>
      case require_principal auth authorization of
        Inl e \<Rightarrow> (Inl e, s)
      | Inr p \<Rightarrow>
          (case call of
             CreateNode q \<Rightarrow> create_memory_node C rand q s
           | ReviewNode node_id q key \<Rightarrow> review_memory_node node_id q key s
           | SyncSource request_id key \<Rightarrow> sync_obsidian_memory C rand vault request_id key s))"

definition serve_all ::
    "codec \<Rightarrow> (nat \<Rightarrow> string) \<Rightarrow> workspace_auth \<Rightarrow> (string option \<times> vault_view option \<times> memory_call) list \<Rightarrow> memory_store" where
  "serve_all C rand auth requests = fold (\<lambda>request s. snd (serve_memory C rand auth request s)) requests (None, 0)"

end
