(* ===== verification/Memory_Contents.thy ===== *)
theory Memory_Contents
  imports Memory_Routes Obsidian_Vault
begin

text \<open>
  What the content of a record and its hash have to do with each other: every relation of content and
  hash that the routes establish for a new record or a synchronised note holds of every stored
  record.  In particular the hash is that of bytes whose text is the content.
\<close>

section \<open>A relation kept by the repository\<close>

definition stored_all :: "(string \<Rightarrow> string \<Rightarrow> bool) \<Rightarrow> memory_db \<Rightarrow> bool" where
  "stored_all P db \<longleftrightarrow> (\<forall>r\<in>snd ` set (db_records db). P (mem_content r) (mem_content_hash r))"

lemma stored_all_empty [simp]: "stored_all P empty_memory_db"
  by (simp add: stored_all_def empty_memory_db_def)

lemma stored_all_updates [simp]:
  "stored_all P (db\<lparr>db_reviews := a\<rparr>) = stored_all P db" "stored_all P (db\<lparr>db_bindings := b\<rparr>) = stored_all P db"
  "stored_all P (db\<lparr>db_syncs := c\<rparr>) = stored_all P db"
  by (simp_all add: stored_all_def)

lemma stored_all_write:
  "stored_all P db \<Longrightarrow> P (mem_content r) (mem_content_hash r) \<Longrightarrow> stored_all P (write_record db r)"
  using set_alist_put [of "mem_id r" r "db_records db"] by (fastforce simp: stored_all_def write_record_def)

lemma stored_all_get:
  "stored_all P db \<Longrightarrow> get_memory db i = Some m \<Longrightarrow> P (mem_content m) (mem_content_hash m)"
proof -
  have "mem_content (with_review_state db i r) = mem_content r" for r
    by (simp add: with_review_state_def split: option.splits)
  then show "stored_all P db \<Longrightarrow> get_memory db i = Some m \<Longrightarrow> P (mem_content m) (mem_content_hash m)"
    by (force simp: stored_all_def get_memory_def split: option.splits dest!: map_of_SomeD)
qed

lemma stored_all_create:
  assumes "stored_all P db" and "P (nr_content q) (nr_hash q)" and "create_native rand (db, n) q = (r, db', n')"
  shows "stored_all P db'"
proof -
  have new: "P (mem_content (native_record q i)) (mem_content_hash (native_record q i))" for i
    using assms(2) by (simp add: native_record_def)
  show ?thesis
  proof (cases "nr_id q")
    case None
    then show ?thesis using assms(1,3) new by (auto simp: create_native_def Let_def stored_all_write split: if_splits)
  next
    case (Some i)
    then have "db' = db \<or> db' = db\<lparr>db_records := db_records db @ [(i, native_record q i)],
        db_revisions := db_revisions db @ [(i, native_record q i)]\<rparr>"
      using assms(3)
      by (auto simp: create_native_def insert_explicit_record_def Let_def native_record_def
          split: if_splits option.splits prod.splits)
    then show ?thesis using assms(1) new by (auto simp: stored_all_def)
  qed
qed

lemma stored_all_review:
  assumes "stored_all P db" and "review_memory db i decision ev key rep = (r, db')"
  shows "stored_all P db'"
  using assms(2)
proof (cases rule: review_memory_cases)
  case (accepted m)
  from accepted(4) show ?thesis using assms(1) by (cases rule: review_locked_cases) auto
qed (use assms in simp)

lemma stored_all_notes:
  assumes "stored_all P (ac_db acc)" and "\<forall>n\<in>set ns. P (note_content n) (note_hash n)"
    and "sync_notes rand cur k ns acc = Inr acc'"
  shows "stored_all P (ac_db acc')"
  using assms
proof (induction ns arbitrary: acc)
  case (Cons n ns)
  from Cons.prems(3) obtain acc1 where step: "sync_note rand cur k n acc = Inr acc1"
    "sync_notes rand cur k ns acc1 = Inr acc'" by (auto simp: result_simps)
  from step(1) obtain i bs where "ac_db acc1 = (write_record (ac_db acc) (curated_record k n i))\<lparr>db_bindings := bs\<rparr>"
    by (rule sync_note_cases)
  then have "stored_all P (ac_db acc1)"
    using Cons.prems(1,2) by (simp add: stored_all_write curated_record_def)
  then show ?case using Cons step(2) by simp
qed simp

lemma stored_all_marked:
  assumes "stored_all P db"
  shows "stored_all P (fst (fold (mark_missing cur) bs (db, m)))"
  using assms
proof (induction bs arbitrary: db m)
  case (Cons b bs)
  obtain db1 m1 where one: "mark_missing cur b (db, m) = (db1, m1)" by fastforce
  have "stored_all P (write_record db (r\<lparr>mem_source_status := s\<rparr>))" if "map_of (db_records db) i = Some r" for i r s
    using Cons.prems that by (intro stored_all_write) (force simp: stored_all_def dest!: map_of_SomeD)+
  then have "stored_all P db1"
    using one Cons.prems by (auto simp: mark_missing_def split: if_splits option.splits)
  then show ?case using Cons.IH one by simp
qed simp

lemma stored_all_sync:
  assumes "stored_all P db" and "\<forall>n\<in>set notes. P (note_content n) (note_hash n)"
    and "sync_obsidian rand (db, n) k notes ev key snap issues = (r, db', n')"
  shows "stored_all P db'"
proof (cases "sync_obsidian_locked rand (db, n) k notes ev key snap issues")
  case (Inl e)
  with assms show ?thesis by (simp add: sync_obsidian_def)
next
  case (Inr p)
  then obtain res where "sync_obsidian_locked rand (db, n) k notes ev key snap issues = Inr (res, db', n')"
    using assms(3) by (cases p) (auto simp: sync_obsidian_def)
  then show ?thesis
  proof (cases rule: sync_locked_cases)
    case (fresh acc db1 missing row)
    have "stored_all P (ac_db acc)" using stored_all_notes [OF _ assms(2) fresh(3)] assms(1) by simp
    then have "stored_all P db1"
      using stored_all_marked [of P "ac_db acc"] fresh(4) by (metis fst_conv)
    then show ?thesis by (simp add: fresh(7))
  qed (use assms in simp)
qed

section \<open>The bytes behind a content\<close>

definition has_bytes :: "hash_fn \<Rightarrow> string \<Rightarrow> string \<Rightarrow> bool" where
  "has_bytes sha content content_hash \<longleftrightarrow>
     (\<exists>raw. decode_note raw = Some content \<and> digest_ref sha raw = content_hash)"

lemma encode_point_bytes: "cp < 256 \<Longrightarrow> b \<in> set (encode_point cp) \<Longrightarrow> b < 256"
  by (auto simp: encode_point_def split: if_splits)

lemma decode_encoded:
  "decode_note (map char_of (encode_utf8 (map of_char t))) = Some t"
proof -
  let ?points = "map of_char t :: nat list"
  have points: "cp < 256" if "cp \<in> set ?points" for cp using that by auto
  have "b < 256" if "b \<in> set (encode_utf8 ?points)" for b
    using that points encode_point_bytes by (fastforce simp: encode_utf8_def)
  then have bytes: "map of_char (map char_of (encode_utf8 ?points) :: char list) = encode_utf8 ?points"
    by (simp add: map_idI)
  have "list_all scalar_value ?points"
    unfolding list_all_iff using points by (force simp: scalar_value_def)
  then have "decode_utf8 (encode_utf8 ?points) = Some ?points" by (rule decode_encode_utf8)
  moreover have "hd ?points \<noteq> 65279" if "?points \<noteq> []"
    using points [OF hd_in_set [OF that]] by simp
  moreover have "map point_char ?points = t" by (induction t) (simp_all add: point_char_def)
  ultimately show ?thesis unfolding decode_note_def bytes by auto
qed

lemma has_bytes_encoded: "has_bytes sha t (digest_ref sha (map char_of (encode_utf8 (map of_char t))))"
  unfolding has_bytes_def using decode_encoded by blast

lemma has_bytes_notes:
  assumes "load_memory_index C vault = Inr ix" and "n \<in> set (ix_notes ix)"
  shows "has_bytes (c_sha C) (note_content n) (note_hash n)"
proof -
  obtain v root_path where v: "vault = Some v" "vv_root v = Some root_path"
    "build_reviewed_obsidian_index C (Some root_path) (vv_directory v) (vv_probes v) = Inr ix"
    using assms(1)
    by (auto simp: load_memory_index_def build_reviewed_obsidian_index_def split: option.splits if_splits sum.splits)
  then obtain p where "build_note (c_sha C) root_path p = Inr (Some n)"
    using index_notes_set [OF v(3)] assms(2) by blast
  then show ?thesis unfolding has_bytes_def by (metis build_note_Some)
qed

text \<open>Every call of a route keeps the relation.\<close>

lemma has_bytes_served:
  assumes "stored_all (has_bytes (c_sha C)) (fst (opened s))"
  shows "stored_all (has_bytes (c_sha C)) (fst (opened (snd (serve_memory C rand auth request s))))"
proof -
  note keep = opened_def keep_store_def
  obtain db n where o: "opened s = (db, n)" by fastforce
  obtain header vault call where r: "request = (header, vault, call)" by (cases request) auto
  show ?thesis
  proof (cases "require_principal auth header")
    case (Inl e)
    then show ?thesis using assms r by (simp add: serve_memory_def)
  next
    case p: (Inr p)
    show ?thesis
    proof (cases call)
      case (CreateNode q)
      have step: "stored_all (has_bytes (c_sha C)) db'"
        if "create_native rand (db, n) native = (res, db', n')" "nr_content native = cr_content q"
          "nr_hash native = digest_ref (c_sha C) (map char_of (encode_utf8 (map of_char (cr_content q))))" for native res db' n'
        using stored_all_create [OF _ _ that(1)] assms o that(2,3) has_bytes_encoded by simp
      then show ?thesis
        using assms o p r CreateNode
        by (auto simp: serve_memory_def create_memory_node_def Let_def keep split: prod.splits sum.splits)
    next
      case (ReviewNode i q key)
      then show ?thesis
        using assms o p r stored_all_review
        by (auto simp: serve_memory_def review_memory_node_def keep split: prod.splits sum.splits)
    next
      case (SyncSource e key)
      have step: "stored_all (has_bytes (c_sha C)) db'"
        if "load_memory_index C vault = Inr ix"
          "sync_obsidian rand (db, n) k (ix_notes ix) e' key' snap issues = (res, db', n')" for ix k e' key' snap issues res db' n'
        using stored_all_sync [OF _ _ that(2)] assms o has_bytes_notes [OF that(1)] by simp
      show ?thesis
        using assms o p r SyncSource step
        by (auto simp: serve_memory_def sync_obsidian_memory_def keep split: prod.splits sum.splits memory_error.splits)
    qed
  qed
qed

lemma has_bytes_always: "stored_all (has_bytes (c_sha C)) (fst (opened (serve_all C rand auth requests)))"
proof (induction requests rule: rev_induct)
  case Nil
  show ?case by (simp add: serve_all_def opened_def)
next
  case (snoc r requests)
  then show ?case using has_bytes_served [OF snoc] by (simp add: serve_all_def)
qed

end
