(* ===== verification/Memory_Route_Safety.thy ===== *)
theory Memory_Route_Safety
  imports Memory_Contents
begin

text \<open>
  The routes of product memory: they refine the repository, nothing is written without the
  credential, and nothing is approved but by an authenticated review of the content that was stored
  when it was given.
\<close>

section \<open>One call\<close>

lemma opened_keep_store [simp]: "opened (keep_store s) = s"
  by (simp add: opened_def keep_store_def)

lemma create_native_reviews: "create_native rand (db, n) q = (r, t) \<Longrightarrow> db_reviews (fst t) = db_reviews db"
  by (auto simp: create_native_def insert_explicit_record_def Let_def split: option.splits if_splits prod.splits)

lemma create_call_step:
  assumes "create_memory_node C rand q s = (res, s')"
  shows "s' = s \<or> memory_step rand (opened s) (opened s') \<and> fst s' \<noteq> None \<and>
    db_reviews (fst (opened s')) = db_reviews (fst (opened s))"
proof (cases "valid_create q")
  case True
  then obtain native r t where n: "create_native rand (opened s) native = (r, t)" "s' = keep_store t"
    using assms by (auto simp: create_memory_node_def Let_def split: prod.splits sum.splits)
  then have "db_reviews (fst t) = db_reviews (fst (opened s))"
    using create_native_reviews [of rand "fst (opened s)" "snd (opened s)"] by simp
  then show ?thesis using memory_step.create [OF n(1)] n(2) by (simp add: keep_store_def opened_def)
qed (use assms in \<open>simp add: create_memory_node_def\<close>)

lemma sync_call_step:
  assumes "sync_obsidian_memory C rand vault request_id key s = (res, s')" and "memory_ok (fst (opened s))"
  shows "s' = s \<or> memory_step rand (opened s) (opened s') \<and> fst s' \<noteq> None \<and>
    db_reviews (fst (opened s')) = db_reviews (fst (opened s))"
proof (cases "tagged_id ''evt'' request_id \<and> is_header_key key \<and> (\<exists>ix. load_memory_index C vault = Inr ix)")
  case True
  then obtain ix where ix: "load_memory_index C vault = Inr ix" by blast
  obtain r t where n: "sync_obsidian rand (opened s) ''obsidian_primary'' (ix_notes ix) request_id key (ix_hash ix)
      (length (ix_issues ix)) = (r, t)" by (meson surj_pair)
  have s': "s' = keep_store t"
    using assms(1) True ix n by (auto simp: sync_obsidian_memory_def split: sum.splits memory_error.splits)
  have "db_reviews (fst t) = db_reviews (fst (opened s))"
    using sync_obsidian_ok [OF assms(2), of rand "snd (opened s)"] n by (cases t) fastforce
  then show ?thesis using memory_step.sync [OF n] s' by (simp add: keep_store_def opened_def)
next
  case False
  then have "s' = s" using assms(1) by (auto simp: sync_obsidian_memory_def split: if_splits sum.splits)
  then show ?thesis ..
qed

lemma review_call_step:
  assumes "review_memory_node node_id q key s = (res, s')"
  shows "s' = s \<or> memory_step rand (opened s) (opened s') \<and> fst s' \<noteq> None \<and>
    (db_reviews (fst (opened s')) = db_reviews (fst (opened s)) \<or>
     (\<exists>old. get_memory (fst (opened s)) node_id = Some old \<and>
        db_reviews (fst (opened s')) = db_reviews (fst (opened s)) @
          [\<lparr> rv_event = mv_request q, rv_key = key, rv_record = node_id, rv_hash = mem_content_hash old,
             rv_decision = mv_decision q, rv_replacement = mv_replacement q \<rparr>]))"
proof (cases "is_node_id node_id \<and> valid_review q \<and> is_header_key key \<and> starts_with ''mem_'' node_id")
  case True
  obtain db draws where o: "opened s = (db, draws)" by fastforce
  obtain r db' where n: "review_memory db node_id (mv_decision q) (mv_request q) key (mv_replacement q) = (r, db')" by (meson surj_pair)
  have s': "s' = keep_store (db', draws)"
    using assms True o n by (auto simp: review_memory_node_def split: sum.splits)
  have "db_reviews db' = db_reviews db \<or> (\<exists>old. get_memory db node_id = Some old \<and>
      db_reviews db' = db_reviews db @ [\<lparr> rv_event = mv_request q, rv_key = key, rv_record = node_id,
        rv_hash = mem_content_hash old, rv_decision = mv_decision q, rv_replacement = mv_replacement q \<rparr>])"
    using n
  proof (cases rule: review_memory_cases)
    case (accepted m)
    from accepted(4) show ?thesis by (cases rule: review_locked_cases) auto
  qed simp
  then show ?thesis using memory_step.review [OF n] s' o by (simp add: keep_store_def opened_def)
next
  case False
  then have "s' = s" using assms by (auto simp: review_memory_node_def split: if_splits)
  then show ?thesis ..
qed

text \<open>Every call changes nothing, or is one transaction of the repository under a credential.\<close>

lemma serve_step:
  assumes "serve_memory C rand auth (header, vault, call) s = (res, s')" and "memory_ok (fst (opened s))" and "s' \<noteq> s"
  obtains p where "require_principal auth header = Inr p" "memory_step rand (opened s) (opened s')" "fst s' \<noteq> None"
    "db_reviews (fst (opened s')) = db_reviews (fst (opened s)) \<or>
     (\<exists>i q k old. call = ReviewNode i q k \<and> get_memory (fst (opened s)) i = Some old \<and>
        db_reviews (fst (opened s')) = db_reviews (fst (opened s)) @
          [\<lparr> rv_event = mv_request q, rv_key = k, rv_record = i, rv_hash = mem_content_hash old,
             rv_decision = mv_decision q, rv_replacement = mv_replacement q \<rparr>])"
proof -
  obtain p where p: "require_principal auth header = Inr p"
    using assms(1,3) by (auto simp: serve_memory_def split: sum.splits)
  show thesis
  proof (cases call)
    case (CreateNode q)
    then have "create_memory_node C rand q s = (res, s')" using assms(1) p by (simp add: serve_memory_def)
    then show thesis using that [OF p] create_call_step assms(3) by blast
  next
    case (ReviewNode i q k)
    then have "review_memory_node i q k s = (res, s')" using assms(1) p by (simp add: serve_memory_def)
    then show thesis using that [OF p] review_call_step [of i q k s res s' rand] assms(3) ReviewNode by blast
  next
    case (SyncSource e k)
    then have "sync_obsidian_memory C rand vault e k s = (res, s')" using assms(1) p by (simp add: serve_memory_def)
    then show thesis using that [OF p] sync_call_step [OF _ assms(2)] assms(3) by blast
  qed
qed

section \<open>Sequences of calls\<close>

lemma serve_all_snoc:
  "serve_all C rand auth (requests @ [r]) = snd (serve_memory C rand auth r (serve_all C rand auth requests))"
  by (simp add: serve_all_def)

lemma serve_all_reachable: "memory_reachable rand (opened (serve_all C rand auth requests))"
proof (induction requests rule: rev_induct)
  case Nil
  show ?case using memory_reachable.start by (simp add: serve_all_def opened_def)
next
  case (snoc r requests)
  let ?s = "serve_all C rand auth requests"
  obtain header vault call where r: "r = (header, vault, call)" by (cases r) auto
  obtain res s' where s': "serve_memory C rand auth (header, vault, call) ?s = (res, s')" by (meson surj_pair)
  show ?case
  proof (cases "s' = ?s")
    case True
    then show ?thesis using snoc s' r by (simp add: serve_all_snoc)
  next
    case False
    have "memory_step rand (opened ?s) (opened s')"
      using serve_step [OF s' memory_reachable_ok [OF snoc] False] by blast
    then show ?thesis using memory_reachable.step [OF snoc] s' r by (simp add: serve_all_snoc)
  qed
qed

text \<open>Where a review row of the database comes from: a call, before which the reviewed content was stored.\<close>

definition reviewed_by ::
    "codec \<Rightarrow> (nat \<Rightarrow> string) \<Rightarrow> workspace_auth \<Rightarrow> (string option \<times> vault_view option \<times> memory_call) list \<Rightarrow> review_row \<Rightarrow> bool" where
  "reviewed_by C rand auth requests v \<longleftrightarrow>
     (\<exists>pre header vault q k post p m. requests = pre @ (header, vault, ReviewNode (rv_record v) q k) # post \<and>
        require_principal auth header = Inr p \<and> mv_decision q = rv_decision v \<and>
        get_memory (fst (opened (serve_all C rand auth pre))) (rv_record v) = Some m \<and> mem_content_hash m = rv_hash v)"

lemma reviewed_by_snoc: "reviewed_by C rand auth requests v \<Longrightarrow> reviewed_by C rand auth (requests @ [r]) v"
  unfolding reviewed_by_def by (metis append_Cons append_assoc)

lemma reviews_come_from_calls:
  "v \<in> set (db_reviews (fst (opened (serve_all C rand auth requests)))) \<Longrightarrow> reviewed_by C rand auth requests v"
proof (induction requests rule: rev_induct)
  case Nil
  then show ?case by (simp add: serve_all_def opened_def empty_memory_db_def)
next
  case (snoc r requests)
  let ?s = "serve_all C rand auth requests"
  obtain header vault call where r: "r = (header, vault, call)" by (cases r) auto
  obtain res s' where s': "serve_memory C rand auth (header, vault, call) ?s = (res, s')" by (meson surj_pair)
  have v: "v \<in> set (db_reviews (fst (opened s')))" using snoc.prems s' r by (simp add: serve_all_snoc)
  show ?case
  proof (cases "v \<in> set (db_reviews (fst (opened ?s)))")
    case True
    then show ?thesis using snoc.IH reviewed_by_snoc by blast
  next
    case False
    then have ne: "s' \<noteq> ?s" using v by auto
    have ok: "memory_ok (fst (opened ?s))" by (rule memory_reachable_ok [OF serve_all_reachable])
    obtain p where p: "require_principal auth header = Inr p"
      "db_reviews (fst (opened s')) = db_reviews (fst (opened ?s)) \<or>
       (\<exists>i q k old. call = ReviewNode i q k \<and> get_memory (fst (opened ?s)) i = Some old \<and>
          db_reviews (fst (opened s')) = db_reviews (fst (opened ?s)) @
            [\<lparr> rv_event = mv_request q, rv_key = k, rv_record = i, rv_hash = mem_content_hash old,
               rv_decision = mv_decision q, rv_replacement = mv_replacement q \<rparr>])"
      by (rule serve_step [OF s' ok ne])
    then obtain i q k and old :: memory where c: "call = ReviewNode i q k" "get_memory (fst (opened ?s)) i = Some old"
      "db_reviews (fst (opened s')) = db_reviews (fst (opened ?s)) @
            [\<lparr> rv_event = mv_request q, rv_key = k, rv_record = i, rv_hash = mem_content_hash old,
               rv_decision = mv_decision q, rv_replacement = mv_replacement q \<rparr>]"
      using v False by auto
    then have "rv_record v = i" "rv_hash v = mem_content_hash old" "rv_decision v = mv_decision q"
      using v False by auto
    with p(1) c(1,2) have "r = (header, vault, ReviewNode (rv_record v) q k) \<and> require_principal auth header = Inr p \<and>
        mv_decision q = rv_decision v \<and> get_memory (fst (opened ?s)) (rv_record v) = Some old \<and> mem_content_hash old = rv_hash v"
      using r by simp
    then show ?thesis unfolding reviewed_by_def by blast
  qed
qed

text \<open>
  C4: over HTTP nothing becomes approved memory without the credential: whatever calls are made, in
  whatever order, with whatever headers and vaults, starting without a database, a record that reads as approved was
  approved by a call among them that carried the configured credential and named this record.  The
  hash of the record is that of bytes whose text is its content, and so was the hash of the record
  stored just before that call; both hashes are equal, so the content that reads as approved is the content
  that was stored when the approval was given, unless two different byte sequences have this digest.
\<close>

theorem http_approval_needs_credential:
  assumes "fst (serve_all C rand auth requests) = Some db" and "get_memory db i = Some m" and "mem_state m = Approved"
  shows "\<exists>credential pre header vault q k post m' raw raw'. wa_credential auth = Some credential \<and> credential \<noteq> [] \<and>
    bears header credential \<and> requests = pre @ (header, vault, ReviewNode i q k) # post \<and> mv_decision q = Approved \<and>
    get_memory (fst (opened (serve_all C rand auth pre))) i = Some m' \<and>
    decode_note raw' = Some (mem_content m') \<and> digest_ref (c_sha C) raw' = mem_content_hash m' \<and>
    decode_note raw = Some (mem_content m) \<and> digest_ref (c_sha C) raw = mem_content_hash m \<and>
    mem_content_hash m' = mem_content_hash m \<and>
    ((\<forall>x y. digest_ref (c_sha C) x = mem_content_hash m \<and> digest_ref (c_sha C) y = mem_content_hash m \<longrightarrow> x = y) \<longrightarrow>
      mem_content m' = mem_content m)"
proof -
  have bytes: "\<exists>raw. decode_note raw = Some (mem_content x) \<and> digest_ref (c_sha C) raw = mem_content_hash x"
    if "get_memory (fst (opened (serve_all C rand auth rs))) j = Some x" for rs j x
    using stored_all_get [OF has_bytes_always that] by (simp add: has_bytes_def)
  have db: "fst (opened (serve_all C rand auth requests)) = db" using assms(1) by (simp add: opened_def)
  have "memory_ok db" using memory_reachable_ok [OF serve_all_reachable] db by metis
  then have "history db i (mem_content_hash m) = [Approved]"
    using repository.state_iff_decided(1) assms(2,3) by blast
  then have "Approved \<in> set (history db i (mem_content_hash m))" by simp
  then obtain v where v: "v \<in> set (db_reviews db)" "rv_record v = i" "rv_hash v = mem_content_hash m" "rv_decision v = Approved"
    by (auto simp: history_def)
  have "reviewed_by C rand auth requests v" using reviews_come_from_calls v(1) db by blast
  then obtain pre header vault q k post p m' where r: "requests = pre @ (header, vault, ReviewNode i q k) # post"
    "require_principal auth header = Inr p" "mv_decision q = Approved"
    "get_memory (fst (opened (serve_all C rand auth pre))) i = Some m'" "mem_content_hash m' = mem_content_hash m"
    unfolding reviewed_by_def using v(2-4) by auto
  obtain credential where "wa_credential auth = Some credential" "credential \<noteq> []" "bears header credential"
    using principal_admitted [OF r(2)] by blast
  note c = this
  obtain raw' where raw': "decode_note raw' = Some (mem_content m')" "digest_ref (c_sha C) raw' = mem_content_hash m'"
    using bytes [OF r(4)] by blast
  obtain raw where raw: "decode_note raw = Some (mem_content m)" "digest_ref (c_sha C) raw = mem_content_hash m"
    using bytes [of requests i m] assms(2) db by auto
  have same: "(\<forall>x y. digest_ref (c_sha C) x = mem_content_hash m \<and> digest_ref (c_sha C) y = mem_content_hash m \<longrightarrow> x = y) \<longrightarrow>
      mem_content m' = mem_content m"
  proof
    assume one: "\<forall>x y. digest_ref (c_sha C) x = mem_content_hash m \<and> digest_ref (c_sha C) y = mem_content_hash m \<longrightarrow> x = y"
    have "digest_ref (c_sha C) raw' = mem_content_hash m" using raw'(2) r(5) by simp
    then have "raw' = raw" using one raw(2) by blast
    then show "mem_content m' = mem_content m" using raw(1) raw'(1) by simp
  qed
  show ?thesis
    by (intro exI [of _ credential] exI [of _ pre] exI [of _ header] exI [of _ vault] exI [of _ q] exI [of _ k]
        exI [of _ post] exI [of _ m'] exI [of _ raw] exI [of _ raw'] conjI) (rule c r raw raw' same)+
qed

text \<open>Without the credential every writing call is refused and changes nothing.\<close>

lemma unauthenticated_call_refused:
  assumes "\<And>credential. wa_credential auth = Some credential \<Longrightarrow> credential \<noteq> [] \<Longrightarrow> \<not> bears header credential"
  shows "serve_memory C rand auth (header, vault, call) s = (Inl (HttpFailure 401 ''workspace_auth_required''), s) \<or>
    serve_memory C rand auth (header, vault, call) s = (Inl ServerError, s)"
proof (cases "require_principal auth header")
  case (Inl e)
  then have "e = HttpFailure 401 ''workspace_auth_required'' \<or> e = ServerError"
    by (auto simp: require_principal_def Let_def split: option.splits bool.splits if_splits)
  then show ?thesis using Inl by (auto simp: serve_memory_def)
next
  case (Inr p)
  then show ?thesis using principal_admitted [OF Inr] assms by blast
qed

section \<open>Reads and refused calls\<close>

text \<open>Without a database the vault is shown, with an empty one nothing is.\<close>

lemma vault_shown:
  assumes "load_memory_index C vault = Inr ix"
  shows "ip_node_count (memory_index C vault (None, n)) = length (ix_notes ix)"
    "nc_nodes (memory_nodes C vault None None (None, n)) = map summarize (ix_notes ix)"
  using assms by (simp_all add: memory_index_def memory_nodes_def project_index_def project_nodes_def admits_def Let_def)

lemma vault_hidden:
  "ip_node_count (memory_index C vault (Some empty_memory_db, n)) = 0"
  "ip_state (memory_index C vault (Some empty_memory_db, n)) = Ready"
  "nc_nodes (memory_nodes C vault None None (Some empty_memory_db, n)) = []"
  by (simp_all add: memory_index_def memory_nodes_def project_product_index_def project_product_nodes_def
      list_memory_def empty_memory_db_def Let_def)

text \<open>
  A refused call changes what is read: while the database does not exist the reading routes show
  the notes of the configured vault; a review of a record that does not exist is answered with 404 and
  leaves an empty database behind, after which the index is ready and empty and the list has no node.
\<close>

theorem refused_review_hides_vault:
  assumes "require_principal auth header = Inr p" and "tagged_id ''mem'' node_id" and "valid_review q"
    and "is_idempotency_key key" and "load_memory_index C vault = Inr ix"
  shows "\<exists>s'. serve_memory C rand auth (header, vault, ReviewNode node_id q key) (None, n) = (Inl node_not_found, s') \<and>
    ip_node_count (memory_index C vault (None, n)) = length (ix_notes ix) \<and>
    ip_node_count (memory_index C vault s') = 0 \<and> ip_state (memory_index C vault s') = Ready \<and>
    nc_nodes (memory_nodes C vault None None (None, n)) = map summarize (ix_notes ix) \<and>
    nc_nodes (memory_nodes C vault None None s') = []"
proof -
  have "starts_with ''mem_'' node_id" using assms(2) by (simp add: tagged_id_def)
  moreover have "review_memory empty_memory_db node_id (mv_decision q) (mv_request q) key (mv_replacement q) =
      (Inl (RecordNotFound node_id), empty_memory_db)"
    using assms(3,4) by (simp add: review_memory_def valid_review_def review_locked_def get_memory_def empty_memory_db_def)
  ultimately have "serve_memory C rand auth (header, vault, ReviewNode node_id q key) (None, n) =
      (Inl node_not_found, Some empty_memory_db, n)"
    using assms(1-4) by (simp add: serve_memory_def review_memory_node_def is_node_id_def opened_def keep_store_def
        idempotency_key_is_header_key)
  then show ?thesis using vault_shown [OF assms(5)] vault_hidden by simp
qed

text \<open>
  The header of the route admits keys that the repository rejects: a key that starts with a mark of
  punctuation is answered with an internal error.
\<close>

lemma punctuated_key_is_server_error:
  assumes "require_principal auth header = Inr p" and "tagged_id ''mem'' node_id" and "valid_review q"
    and "is_header_key key" and "\<not> is_idempotency_key key"
  shows "fst (serve_memory C rand auth (header, vault, ReviewNode node_id q key) s) = Inl ServerError"
proof -
  have "starts_with ''mem_'' node_id" using assms(2) by (simp add: tagged_id_def)
  moreover have "review_memory db node_id (mv_decision q) (mv_request q) key (mv_replacement q) = (Inl InvalidMemoryKey, db)" for db
    using assms(3,5) by (simp add: review_memory_def valid_review_def)
  ultimately show ?thesis
    using assms by (simp add: serve_memory_def review_memory_node_def is_node_id_def split: prod.splits)
qed

end
