(* ===== verification/Memory_Route_Samples.thy ===== *)
theory Memory_Route_Samples
  imports Memory_Route_Safety
begin

text \<open>Concrete calls at which the properties of the memory routes are applied.\<close>

definition local_auth :: workspace_auth where
  "local_auth = \<lparr> wa_credential = Some ''secret'', wa_workspace = ''ws_local'', wa_actor = ''human_local_user'' \<rparr>"

definition local_header :: "string option" where
  "local_header = Some ''Bearer secret''"

lemma local_principal:
  "require_principal local_auth local_header = Inr \<lparr> pr_workspace = ''ws_local'', pr_actor = ''human_local_user'' \<rparr>"
  by code_simp

definition create_call :: create_request where
  "create_call = \<lparr> cr_title = ''Plan'', cr_content = ''text'', cr_category = Note, cr_domains = [General], cr_topics = [],
     cr_nodes = [] \<rparr>"

definition created_id :: string where
  "created_id = new_record_id []"

definition created_memory :: memory where
  "created_memory = native_record \<lparr> nr_id = None, nr_title = ''Plan'', nr_content = ''text'', nr_category = Note,
     nr_domains = [General], nr_topics = [], nr_hash = digest_ref sample_sha ''text'', nr_nodes = [], nr_source_refs = [],
     nr_created_by = None, nr_request = None, nr_target = None, nr_expected_hash = None, nr_reason = None \<rparr> created_id"

lemma created_memory_facts:
  "valid_memory created_memory" "mem_id created_memory = created_id" "mem_state created_memory = Candidate"
  "tagged_id ''mem'' created_id" "starts_with ''mem_'' created_id"
proof -
  show t: "tagged_id ''mem'' created_id" unfolding created_id_def by (rule new_record_id_tagged)
  then show "valid_memory created_memory" by (simp add: valid_memory_def created_memory_def native_record_def digest_ref_is_digest)
  show "starts_with ''mem_'' created_id" using t by (simp add: tagged_id_def)
qed (simp_all add: created_memory_def native_record_def)

definition approve_call :: memory_review where
  "approve_call = \<lparr> mv_request = sample_id ''evt'' (CHR ''1''), mv_decision = Approved, mv_replacement = None \<rparr>"

lemma approve_call_ok: "valid_review approve_call" "is_header_key ''k1''" "is_idempotency_key ''k1''"
proof -
  show "valid_review approve_call" by (simp add: valid_review_def approve_call_def sample_id_tagged crockford_def)
qed code_simp+

definition approval_calls :: "(string option \<times> vault_view option \<times> memory_call) list" where
  "approval_calls = [ (local_header, None, CreateNode create_call), (local_header, None, ReviewNode created_id approve_call ''k1'') ]"

lemma create_served:
  "snd (serve_memory sample_codec (\<lambda>_. []) local_auth (local_header, None, CreateNode create_call) (None, 0)) =
     (Some (write_record empty_memory_db created_memory), 1)"
proof -
  have u: "map char_of (encode_utf8 (map of_char (cr_content create_call))) = ''text''" by code_simp
  have v: "valid_create create_call" by (simp add: valid_create_def create_call_def)
  have n: "native_record
        \<lparr> nr_id = None, nr_title = cr_title create_call, nr_content = cr_content create_call,
          nr_category = cr_category create_call, nr_domains = cr_domains create_call, nr_topics = cr_topics create_call,
          nr_hash = digest_ref sample_sha ''text'', nr_nodes = cr_nodes create_call, nr_source_refs = [],
          nr_created_by = None, nr_request = None, nr_target = None, nr_expected_hash = None, nr_reason = None \<rparr>
        (new_record_id []) = created_memory"
    by (simp add: created_memory_def created_id_def create_call_def)
  show ?thesis
    using v created_memory_facts(1)
    by (simp add: serve_memory_def local_principal create_memory_node_def opened_def keep_store_def create_native_def u n [simplified] Let_def)
qed

definition approved_store :: memory_db where
  "approved_store = (write_record empty_memory_db created_memory)\<lparr>db_reviews := [\<lparr> rv_event = sample_id ''evt'' (CHR ''1''),
     rv_key = ''k1'', rv_record = created_id, rv_hash = mem_content_hash created_memory, rv_decision = Approved,
     rv_replacement = None \<rparr>]\<rparr>"

lemma stored_created:
  "get_memory (write_record empty_memory_db created_memory) created_id = Some created_memory"
  "get_memory approved_store created_id = Some (created_memory\<lparr>mem_state := Approved\<rparr>)"
  by (simp_all add: get_memory_def approved_store_def with_review_state_def review_of_def empty_memory_db_def
      last_match_one created_memory_facts(2))

lemma approval_review:
  "review_memory (write_record empty_memory_db created_memory) created_id Approved (sample_id ''evt'' (CHR ''1'')) ''k1'' None =
     (Inr (created_memory\<lparr>mem_state := Approved\<rparr>), approved_store)"
proof -
  have r: "db_reviews empty_memory_db = []" by (simp add: empty_memory_db_def)
  show ?thesis
    using stored_created(2) approve_call_ok(3) created_memory_facts(3) unfolding approved_store_def
    by (simp add: review_memory_def review_locked_def stored_created(1) r Let_def)
qed

lemma approval_served: "serve_all sample_codec (\<lambda>_. []) local_auth approval_calls = (Some approved_store, 1)"
proof -
  have "is_node_id created_id" using created_memory_facts(4) by (simp add: is_node_id_def)
  then have "snd (serve_memory sample_codec (\<lambda>_. []) local_auth (local_header, None, ReviewNode created_id approve_call ''k1'')
      (Some (write_record empty_memory_db created_memory), 1)) = (Some approved_store, 1)"
    using approval_review approve_call_ok(1,2) created_memory_facts(5)
    by (simp add: serve_memory_def local_principal review_memory_node_def opened_def keep_store_def approve_call_def)
  then show ?thesis by (simp add: serve_all_def approval_calls_def create_served)
qed

theorem http_approval_needs_credential_witness:
  "\<exists>pre header vault q k post raw. approval_calls = pre @ (header, vault, ReviewNode created_id q k) # post \<and>
     bears header ''secret'' \<and> mv_decision q = Approved \<and>
     decode_note raw = Some ''text'' \<and> digest_ref sample_sha raw = mem_content_hash created_memory"
proof -
  have "fst (serve_all sample_codec (\<lambda>_. []) local_auth approval_calls) = Some approved_store"
    by (simp add: approval_served)
  moreover have "mem_state (created_memory\<lparr>mem_state := Approved\<rparr>) = Approved" by simp
  ultimately have "fst (serve_all sample_codec (\<lambda>_. []) local_auth approval_calls) = Some approved_store"
    "mem_state (created_memory\<lparr>mem_state := Approved\<rparr>) = Approved" by blast+
  from http_approval_needs_credential [OF this(1) stored_created(2) this(2)] obtain credential pre header vault q k post raw where
    "wa_credential local_auth = Some credential" "bears header credential"
    "approval_calls = pre @ (header, vault, ReviewNode created_id q k) # post" "mv_decision q = Approved"
    "decode_note raw = Some (mem_content created_memory)" "digest_ref (c_sha sample_codec) raw = mem_content_hash created_memory"
    by (elim exE conjE) (rule that; simp)
  moreover from this(1) have "credential = ''secret''" by (simp add: local_auth_def)
  moreover have "mem_content created_memory = ''text''" by (simp add: created_memory_def native_record_def)
  ultimately show ?thesis by (simp only: sample_codec_simps) blast
qed

theorem refused_review_hides_vault_witness:
  "\<exists>s'. serve_memory sample_codec (\<lambda>_. []) local_auth
      (local_header, Some \<lparr> vv_is_dir = True, vv_root = Some sample_vault, vv_directory = True, vv_probes = [plan] \<rparr>,
       ReviewNode created_id approve_call ''k1'') (None, 0) = (Inl node_not_found, s') \<and>
     ip_node_count (memory_index sample_codec
       (Some \<lparr> vv_is_dir = True, vv_root = Some sample_vault, vv_directory = True, vv_probes = [plan] \<rparr>) (None, 0)) = 1 \<and>
     ip_node_count (memory_index sample_codec
       (Some \<lparr> vv_is_dir = True, vv_root = Some sample_vault, vv_directory = True, vv_probes = [plan] \<rparr>) s') = 0"
proof -
  obtain ix where ix: "build_reviewed_obsidian_index sample_codec (Some sample_vault) True [plan] = Inr ix" "ix_notes ix = [planned]"
    using one_note_index [OF sample_visible(1) plan_built] by blast
  have l: "load_memory_index sample_codec
      (Some \<lparr> vv_is_dir = True, vv_root = Some sample_vault, vv_directory = True, vv_probes = [plan] \<rparr>) = Inr ix"
    using ix(1) by (simp add: load_memory_index_def)
  show ?thesis
    using refused_review_hides_vault [OF local_principal created_memory_facts(4) approve_call_ok(1,3) l, where rand = "\<lambda>_. []" and n = 0] ix(2)
    by auto
qed

end
