(* ===== verification/Workspace_Export.thy ===== *)
theory Workspace_Export
  imports Tokens "HOL-Library.Char_ord" "HOL-Library.List_Lexorder"
begin

text \<open>
  Export and restore of a workspace, \<open>workspaces/export.py\<close> with the contracts of
  \<open>workspaces/contracts.py\<close>.  A directory tree is the list of the paths below it with what lies there;
  a staged tree lists only its files, the directories above them being implicit.  SQLite, the JSON
  of the manifest, what copying a file leaves on the disk, and which renames fail are arguments.
\<close>

section \<open>Trees\<close>

datatype link_target = ToFile string | ToDirectory | Dangling

datatype tree_entry = FileEntry string | DirEntry | LinkEntry link_target

type_synonym dir_tree = "(string list \<times> tree_entry) list"

text \<open>\<open>is_file()\<close> and \<open>is_dir()\<close> follow links\<close>

definition file_bytes :: "tree_entry \<Rightarrow> string option" where
  "file_bytes e = (case e of FileEntry c \<Rightarrow> Some c | LinkEntry (ToFile c) \<Rightarrow> Some c | _ \<Rightarrow> None)"

definition is_directory :: "tree_entry \<Rightarrow> bool" where
  "is_directory e \<longleftrightarrow> e = DirEntry \<or> e = LinkEntry ToDirectory"

definition is_link :: "tree_entry \<Rightarrow> bool" where
  "is_link e = (case e of LinkEntry _ \<Rightarrow> True | _ \<Rightarrow> False)"

definition tree_file :: "dir_tree \<Rightarrow> string list \<Rightarrow> string option" where
  "tree_file t path = Option.bind (map_of t path) file_bytes"

text \<open>\<open>(root / "artifacts").glob("*/*")\<close>\<close>

definition artifact_paths :: "dir_tree \<Rightarrow> dir_tree" where
  "artifact_paths t = filter (\<lambda>(path, _). length path = 3 \<and> hd path = ''artifacts'') t"

section \<open>Contracts\<close>

datatype entry_kind = DatabaseEntry | ArtifactEntry

record export_entry =
  en_path :: string
  en_kind :: entry_kind
  en_bytes :: nat
  en_hash :: string

record store_versions =
  sv_events :: int
  sv_memory :: int
  sv_capabilities :: int
  sv_proposals :: int

record export_manifest =
  mf_versions :: store_versions
  mf_entries :: "export_entry list"

definition databases :: "(string \<times> string) list" where
  "databases = [(''events'', ''events.sqlite3''), (''memory'', ''memory.sqlite3''),
     (''capabilities'', ''capabilities.sqlite3'')]"

definition is_portable_entry_path :: "string \<Rightarrow> bool" where
  "is_portable_entry_path path \<longleftrightarrow>
     1 \<le> length path \<and> length path \<le> 4096 \<and> CHR 0x5C \<notin> set path \<and> \<not> starts_with ''/'' path \<and>
     CHR '':'' \<notin> set path \<and> list_all (\<lambda>part. part \<notin> {[], ''.'', ''..''}) (split_on (CHR ''/'') path)"

definition is_kind_path :: "entry_kind \<Rightarrow> string \<Rightarrow> bool" where
  "is_kind_path kind path =
     (case kind of
        DatabaseEntry \<Rightarrow> path \<in> set (map (\<lambda>(_, filename). ''databases/'' @ filename) databases)
      | ArtifactEntry \<Rightarrow>
         (case split_on (CHR ''/'') path of
            [a, d, f] \<Rightarrow> a = ''artifacts'' \<and> length d = 2 \<and> length f = 62 \<and> all_in hex_chars (d @ f)
          | _ \<Rightarrow> False))"

definition valid_entry :: "export_entry \<Rightarrow> bool" where
  "valid_entry e \<longleftrightarrow> is_portable_entry_path (en_path e) \<and> is_kind_path (en_kind e) (en_path e) \<and> is_digest (en_hash e)"

definition current_versions :: store_versions where
  "current_versions = \<lparr> sv_events = 1, sv_memory = 1, sv_capabilities = 1, sv_proposals = 1 \<rparr>"

text \<open>Every version is the literal one.\<close>

definition valid_manifest :: "export_manifest \<Rightarrow> bool" where
  "valid_manifest m \<longleftrightarrow> mf_versions m = current_versions \<and> list_all valid_entry (mf_entries m) \<and>
     distinct (map en_path (mf_entries m))"

definition store_version :: "store_versions \<Rightarrow> string \<Rightarrow> int" where
  "store_version v store =
     (if store = ''events'' then sv_events v else if store = ''memory'' then sv_memory v
      else if store = ''capabilities'' then sv_capabilities v else sv_proposals v)"

section \<open>Libraries\<close>

text \<open>
  What the code uses of \<open>sqlite3\<close>: the bytes of a backup and the outcome of the integrity check, \<open>None\<close>
  where it raises, the user version, and the statements of a dump; and of pydantic: the text of a
  manifest and the reading of a text.
\<close>

record libraries =
  lib_sha :: hash_fn
  lib_backup :: "string \<Rightarrow> string option"
  lib_intact :: "string \<Rightarrow> bool option"
  lib_version :: "string \<Rightarrow> int"
  lib_dump :: "string \<Rightarrow> string list"
  lib_write :: "export_manifest \<Rightarrow> string"
  lib_read :: "string \<Rightarrow> export_manifest option"

datatype export_error =
    DestinationInside | BackupFailed | IntegrityFailed | VersionMissing | HostPathFound | UnsafeArtifact
  | PathNotAddressed | ArtifactMismatch | VersionsRejected | DestinationExists | ExportSystem

datatype restore_error =
    ManifestMalformed | LinkedEntry | FileSetMismatch | EntryMissing | EntryMismatch | NotSeparate
  | StagedMismatch | DatabaseCorrupt | VersionMismatch | StagedPathInvalid | StagedArtifactInvalid | RestoreSystem

section \<open>Absolute host paths\<close>

definition is_boundary :: "char \<Rightarrow> bool" where
  "is_boundary c \<longleftrightarrow> is_space c \<or> c = CHR 0x22 \<or> c = CHR 0x27"

text \<open>\<open>[A-Za-z]:[\\/]\<close> and \<open>/(?:home|Users|...)/\<close> at a position\<close>

definition windows_path_at :: "string \<Rightarrow> bool" where
  "windows_path_at s =
     (case s of
        c # d # e # _ \<Rightarrow> c \<in> set (upper_chars @ lower_chars) \<and> d = CHR '':'' \<and> e \<in> {CHR 0x5C, CHR ''/''}
      | _ \<Rightarrow> False)"

definition posix_path_at :: "string \<Rightarrow> bool" where
  "posix_path_at s =
     list_ex (\<lambda>w. starts_with (''/'' @ w @ ''/'') s)
       [''home'', ''Users'', ''tmp'', ''var'', ''etc'', ''opt'', ''srv'', ''mnt'', ''media'', ''root'']"

definition names_host_path :: "string \<Rightarrow> bool" where
  "names_host_path s =
     list_ex (\<lambda>n. (n = 0 \<or> is_boundary (s ! (n - 1))) \<and> (windows_path_at (drop n s) \<or> posix_path_at (drop n s)))
       [0..<length s]"

section \<open>Export\<close>

definition backup_sqlite :: "libraries \<Rightarrow> string \<Rightarrow> export_error + string \<times> int" where
  "backup_sqlite L source =
     (case lib_backup L source of
        None \<Rightarrow> Inl BackupFailed
      | Some destination \<Rightarrow>
          (case lib_intact L destination of
             None \<Rightarrow> Inl BackupFailed
           | Some False \<Rightarrow> Inl IntegrityFailed
           | Some True \<Rightarrow>
               if lib_version L destination < 1 then Inl VersionMissing
               else Inr (destination, lib_version L destination)))"

text \<open>A file of the export: its path, the bytes that were digested, and the bytes that lie in the staging directory.\<close>

type_synonym staged_file = "string list \<times> string \<times> string"

definition export_database :: "libraries \<Rightarrow> string \<times> string \<times> string \<Rightarrow> export_error + (string \<times> int) \<times> staged_file" where
  "export_database L = (\<lambda>(store_name, filename, content).
     try_bind (backup_sqlite L content) (\<lambda>(exported, version).
       if list_ex names_host_path (lib_dump L exported) then Inl HostPathFound
       else Inr ((store_name, version), [''databases'', filename], exported, exported)))"

definition artifact_relative_path :: "string list \<Rightarrow> export_error + string list" where
  "artifact_relative_path parts =
     (case parts of
        [d, f] \<Rightarrow> if length d = 2 \<and> length f = 62 \<and> all_in hex_chars (d @ f)
          then Inr [''artifacts'', d, f] else Inl PathNotAddressed
      | _ \<Rightarrow> Inl PathNotAddressed)"

definition export_artifact ::
    "libraries \<Rightarrow> (string \<Rightarrow> string option) \<Rightarrow> string list \<times> tree_entry \<Rightarrow> export_error + staged_file" where
  "export_artifact L copy = (\<lambda>(path, e).
     case e of
       FileEntry content \<Rightarrow>
         try_bind (artifact_relative_path (tl path)) (\<lambda>export_path.
           if digest_ref (lib_sha L) content \<noteq> ''sha256:'' @ concat (tl export_path) then Inl ArtifactMismatch
           else (case copy content of
               None \<Rightarrow> Inl ExportSystem
             | Some copied \<Rightarrow> Inr (export_path, content, copied)))
     | _ \<Rightarrow> Inl UnsafeArtifact)"

definition manifest_entry :: "hash_fn \<Rightarrow> entry_kind \<Rightarrow> staged_file \<Rightarrow> export_entry" where
  "manifest_entry sha kind = (\<lambda>(path, content, _).
     \<lparr> en_path = join_with (CHR ''/'') path, en_kind = kind, en_bytes = length content,
       en_hash = digest_ref sha content \<rparr>)"

definition export_version :: "(string \<times> int) list \<Rightarrow> string \<Rightarrow> int" where
  "export_version versions store_name = (case map_of versions store_name of None \<Rightarrow> 1 | Some v \<Rightarrow> v)"

text \<open>The databases that exist, in the order of the stores.\<close>

definition present_databases :: "dir_tree \<Rightarrow> (string \<times> string \<times> string) list" where
  "present_databases t = List.map_filter
     (\<lambda>(store_name, filename). map_option (\<lambda>c. (store_name, filename, c)) (tree_file t [filename])) databases"

text \<open>The manifest of an export and its staged files, without the manifest's own.\<close>

definition collect_export ::
    "libraries \<Rightarrow> (string \<Rightarrow> string option) \<Rightarrow> dir_tree \<Rightarrow> export_error + export_manifest \<times> dir_tree" where
  "collect_export L copy source =
     try_bind (map_result (export_database L) (present_databases source)) (\<lambda>stores.
     try_bind
       (if Option.bind (map_of source [''artifacts'']) (\<lambda>e. if is_directory e then Some () else None) = None then Inr []
        else map_result (export_artifact L copy) (sort_key fst (artifact_paths source))) (\<lambda>artifacts.
     let versions = map fst stores;
         v = \<lparr> sv_events = export_version versions ''events'', sv_memory = export_version versions ''memory'',
               sv_capabilities = export_version versions ''capabilities'', sv_proposals = 1 \<rparr>;
         entries = map (manifest_entry (lib_sha L) DatabaseEntry \<circ> snd) stores @ map (manifest_entry (lib_sha L) ArtifactEntry) artifacts
     in if v \<noteq> current_versions then Inl VersionsRejected
        else Inr (\<lparr> mf_versions = v, mf_entries = entries \<rparr>,
          map (\<lambda>(path, _, bytes). (path, FileEntry bytes)) (map snd stores @ artifacts))))"

section \<open>Publication\<close>

text \<open>
  The directory that is published to, what was moved aside, and the staging directory; \<open>fails n\<close> says
  that the \<open>n\<close>-th of the calls raises: moving the old directory aside, moving the new one in, moving the
  old one back, and removing it.
\<close>

record place =
  pl_target :: "dir_tree option"
  pl_aside :: "dir_tree option"
  pl_staging :: "dir_tree option"

text \<open>Moving a staged tree in, with the roll-back; the result says whether it lies at its destination.\<close>

definition move_in :: "(nat \<Rightarrow> bool) \<Rightarrow> place \<Rightarrow> bool \<times> place" where
  "move_in fails p =
     (if pl_target p \<noteq> None \<and> fails 0 then (False, p)
      else
        let p1 = (if pl_target p \<noteq> None then p\<lparr>pl_target := None, pl_aside := pl_target p\<rparr> else p) in
        if fails 1
        then (False, if pl_target p \<noteq> None \<and> \<not> fails 2 then p1\<lparr>pl_target := pl_aside p1, pl_aside := None\<rparr> else p1)
        else (True, p1\<lparr>pl_target := pl_staging p1, pl_staging := None\<rparr>))"

definition remove_staging :: "place \<Rightarrow> place" where
  "remove_staging p = p\<lparr>pl_staging := None\<rparr>"

text \<open>Removing the old directory is part of the publication, whose failure is raised.\<close>

definition publish_directory :: "(nat \<Rightarrow> bool) \<Rightarrow> bool \<Rightarrow> place \<Rightarrow> export_error option \<times> place" where
  "publish_directory fails replace p =
     (if pl_target p \<noteq> None \<and> \<not> replace then (Some DestinationExists, p)
      else (case move_in fails p of
          (False, p') \<Rightarrow> (Some ExportSystem, p')
        | (True, p') \<Rightarrow>
            if pl_target p \<noteq> None \<and> fails 3 then (Some ExportSystem, p')
            else (None, p'\<lparr>pl_aside := None\<rparr>)))"

text \<open>\<open>is_relative_to\<close>\<close>

definition lies_within :: "string list \<Rightarrow> string list \<Rightarrow> bool" where
  "lies_within path parent \<longleftrightarrow> take (length parent) path = parent"

definition export_workspace ::
    "libraries \<Rightarrow> (string \<Rightarrow> string option) \<Rightarrow> (nat \<Rightarrow> bool) \<Rightarrow> string list \<Rightarrow> dir_tree option \<Rightarrow> string list \<Rightarrow> bool
      \<Rightarrow> place \<Rightarrow> (export_error + export_manifest) \<times> place" where
  "export_workspace L copy fails source_path source destination replace p =
     (case source of
        None \<Rightarrow> (Inl ExportSystem, p)
      | Some t \<Rightarrow>
          if lies_within destination source_path then (Inl DestinationInside, p)
          else (case collect_export L copy t of
              Inl e \<Rightarrow> (Inl e, p)
            | Inr (m, files) \<Rightarrow>
               (case publish_directory fails replace
                    (p\<lparr>pl_staging := Some (files @ [([''manifest.json''], FileEntry (lib_write L m))])\<rparr>) of
                  (Some e, p') \<Rightarrow> (Inl e, remove_staging p')
                | (None, p') \<Rightarrow> (Inr m, p'))))"

section \<open>Verification of a bundle\<close>

definition load_manifest :: "libraries \<Rightarrow> dir_tree \<Rightarrow> restore_error + export_manifest" where
  "load_manifest L bundle =
     (case Option.bind (tree_file bundle [''manifest.json'']) (lib_read L) of
        None \<Rightarrow> Inl ManifestMalformed
      | Some m \<Rightarrow> if valid_manifest m then Inr m else Inl ManifestMalformed)"

definition entry_path :: "export_entry \<Rightarrow> string list" where
  "entry_path e = split_on (CHR ''/'') (en_path e)"

definition file_matches :: "hash_fn \<Rightarrow> export_entry \<Rightarrow> string \<Rightarrow> bool" where
  "file_matches sha e content \<longleftrightarrow> digest_ref sha content = en_hash e \<and> length content = en_bytes e"

fun validate_entries :: "hash_fn \<Rightarrow> dir_tree \<Rightarrow> export_entry list \<Rightarrow> restore_error + unit" where
  "validate_entries sha bundle [] = Inr ()"
| "validate_entries sha bundle (e # es) =
     (case map_of bundle (entry_path e) of
        Some (FileEntry content) \<Rightarrow>
          if file_matches sha e content then validate_entries sha bundle es else Inl EntryMismatch
      | _ \<Rightarrow> Inl EntryMissing)"

definition validate_bundle :: "hash_fn \<Rightarrow> dir_tree \<Rightarrow> export_manifest \<Rightarrow> restore_error + unit" where
  "validate_bundle sha bundle m =
     (let expected = ''manifest.json'' # map en_path (mf_entries m);
          actual = map (\<lambda>(path, _). join_with (CHR ''/'') path) (filter (\<lambda>(_, e). file_bytes e \<noteq> None) bundle) in
      if list_ex (\<lambda>(_, e). is_link e) bundle then Inl LinkedEntry
      else if set actual \<noteq> set expected then Inl FileSetMismatch
      else validate_entries sha bundle (mf_entries m))"

definition inspect_workspace_export :: "libraries \<Rightarrow> dir_tree \<Rightarrow> restore_error + export_manifest" where
  "inspect_workspace_export L bundle =
     try_bind (load_manifest L bundle) (\<lambda>m. try_bind (validate_bundle (lib_sha L) bundle m) (\<lambda>_. Inr m))"

section \<open>Restore\<close>

text \<open>A database lies at the top of a workspace, an artifact where the bundle has it.\<close>

definition restored_path :: "export_entry \<Rightarrow> string list" where
  "restored_path e = (case en_kind e of DatabaseEntry \<Rightarrow> [last (entry_path e)] | ArtifactEntry \<Rightarrow> entry_path e)"

definition stage_entry ::
    "libraries \<Rightarrow> (string \<Rightarrow> string option) \<Rightarrow> dir_tree \<Rightarrow> export_entry \<Rightarrow> restore_error + string list \<times> tree_entry" where
  "stage_entry L copy bundle e =
     (case Option.bind (tree_file bundle (entry_path e)) copy of
        None \<Rightarrow> Inl RestoreSystem
      | Some copied \<Rightarrow>
          if file_matches (lib_sha L) e copied then Inr (restored_path e, FileEntry copied) else Inl StagedMismatch)"

fun validate_databases :: "libraries \<Rightarrow> dir_tree \<Rightarrow> store_versions \<Rightarrow> (string \<times> string) list \<Rightarrow> restore_error + unit" where
  "validate_databases L staging versions [] = Inr ()"
| "validate_databases L staging versions ((store_name, filename) # ds) =
     (case tree_file staging [filename] of
        None \<Rightarrow> validate_databases L staging versions ds
      | Some content \<Rightarrow>
          (case lib_intact L content of
             None \<Rightarrow> Inl RestoreSystem
           | Some False \<Rightarrow> Inl DatabaseCorrupt
           | Some True \<Rightarrow>
               if lib_version L content \<noteq> store_version versions store_name then Inl VersionMismatch
               else validate_databases L staging versions ds))"

fun validate_artifacts :: "hash_fn \<Rightarrow> dir_tree \<Rightarrow> restore_error + unit" where
  "validate_artifacts sha [] = Inr ()"
| "validate_artifacts sha ((path, e) # files) =
     (case artifact_relative_path (tl path) of
        Inl _ \<Rightarrow> Inl StagedPathInvalid
      | Inr export_path \<Rightarrow>
         (case file_bytes e of
            None \<Rightarrow> Inl RestoreSystem
          | Some content \<Rightarrow>
              if digest_ref sha content \<noteq> ''sha256:'' @ concat (tl export_path) then Inl StagedArtifactInvalid
              else validate_artifacts sha files))"

definition validate_staging :: "libraries \<Rightarrow> dir_tree \<Rightarrow> export_manifest \<Rightarrow> restore_error + unit" where
  "validate_staging L staging m =
     try_bind (validate_databases L staging (mf_versions m) databases) (\<lambda>_.
       validate_artifacts (lib_sha L) (artifact_paths staging))"

text \<open>What is staged for a restore.\<close>

definition collect_restore ::
    "libraries \<Rightarrow> (string \<Rightarrow> string option) \<Rightarrow> dir_tree \<Rightarrow> export_manifest \<Rightarrow> restore_error + dir_tree" where
  "collect_restore L copy bundle m =
     try_bind (map_result (stage_entry L copy bundle) (mf_entries m)) (\<lambda>files.
     try_bind (validate_staging L files m) (\<lambda>_. Inr files))"

text \<open>The old workspace is removed last, and a failure of that is suppressed.\<close>

definition restore_workspace ::
    "libraries \<Rightarrow> (string \<Rightarrow> string option) \<Rightarrow> (nat \<Rightarrow> bool) \<Rightarrow> string list \<Rightarrow> dir_tree \<Rightarrow> string list \<Rightarrow> place
      \<Rightarrow> (restore_error + export_manifest) \<times> place" where
  "restore_workspace L copy fails bundle_path bundle active_path p =
     (case inspect_workspace_export L bundle of
        Inl e \<Rightarrow> (Inl e, p)
      | Inr m \<Rightarrow>
          if lies_within active_path bundle_path \<or> lies_within bundle_path active_path then (Inl NotSeparate, p)
          else (case collect_restore L copy bundle m of
              Inl e \<Rightarrow> (Inl e, p)
            | Inr files \<Rightarrow>
               (case move_in fails (p\<lparr>pl_staging := Some files\<rparr>) of
                  (False, p') \<Rightarrow> (Inl RestoreSystem, remove_staging p')
                | (True, p') \<Rightarrow> (Inr m, if fails 3 then p' else p'\<lparr>pl_aside := None\<rparr>))))"

end
