(* ===== verification/Workspace_Restore.thy ===== *)
theory Workspace_Restore
  imports Workspace_Export
begin

text \<open>
  What export and restore guarantee: a restore leaves either the verified workspace or the old one,
  whatever copying and renaming do, and what was exported is restored.
\<close>

section \<open>Publication\<close>

lemma move_in_cases:
  assumes "move_in fails p = (moved, p')" and "pl_aside p = None"
  shows "if moved then pl_target p' = pl_staging p \<and> pl_aside p' = pl_target p \<and> pl_staging p' = None
    else pl_target p' = pl_target p \<and> pl_aside p' = None \<or>
      pl_target p' = None \<and> pl_aside p' = pl_target p \<and> fails 1 \<and> fails 2"
  using assms by (cases p) (auto simp: move_in_def Let_def split: if_splits)

section \<open>Verification\<close>

lemma validate_entries_iff:
  "validate_entries sha bundle es = Inr () \<longleftrightarrow>
     (\<forall>e\<in>set es. \<exists>c. map_of bundle (entry_path e) = Some (FileEntry c) \<and> file_matches sha e c)"
  by (induction es) (auto split: option.splits tree_entry.splits)

lemma validate_databases_iff:
  "validate_databases L staging v ds = Inr () \<longleftrightarrow>
     (\<forall>(store_name, filename)\<in>set ds. \<forall>c. tree_file staging [filename] = Some c \<longrightarrow>
        lib_intact L c = Some True \<and> lib_version L c = store_version v store_name)"
proof (induction ds)
  case (Cons x ds)
  obtain store_name filename where x: "x = (store_name, filename)" by fastforce
  then show ?case using Cons.IH by (cases "tree_file staging [filename]") (auto split: option.splits bool.splits)
qed simp

lemma artifact_relative_path_Inr:
  "artifact_relative_path parts = Inr path \<longleftrightarrow>
     (\<exists>d f. parts = [d, f] \<and> length d = 2 \<and> length f = 62 \<and> all_in hex_chars (d @ f) \<and> path = [''artifacts'', d, f])"
  by (auto simp: artifact_relative_path_def split: list.splits if_splits)

lemma validate_artifacts_iff:
  "validate_artifacts sha files = Inr () \<longleftrightarrow>
     (\<forall>(path, e)\<in>set files. \<exists>d f c. tl path = [d, f] \<and> length d = 2 \<and> length f = 62 \<and> all_in hex_chars (d @ f) \<and>
        file_bytes e = Some c \<and> digest_ref sha c = ''sha256:'' @ d @ f)"
proof (induction files)
  case (Cons x files)
  obtain path e where x: "x = (path, e)" by fastforce
  show ?case
  proof (cases "artifact_relative_path (tl path)")
    case (Inl err)
    then have "\<not> (\<exists>d f. tl path = [d, f] \<and> length d = 2 \<and> length f = 62 \<and> all_in hex_chars (d @ f))"
      using artifact_relative_path_Inr [of "tl path"] by auto
    then show ?thesis using Inl x by fastforce
  next
    case (Inr ep)
    then obtain d f where "tl path = [d, f]" "length d = 2" "length f = 62" "all_in hex_chars (d @ f)" "ep = [''artifacts'', d, f]"
      using artifact_relative_path_Inr by auto
    then show ?thesis using Inr x Cons by (auto split: option.splits)
  qed
qed simp

lemma stage_entry_Inr:
  "stage_entry L copy bundle e = Inr (path, t) \<Longrightarrow>
     path = restored_path e \<and> (\<exists>c. t = FileEntry c \<and> file_matches (lib_sha L) e c)"
  by (auto simp: stage_entry_def split: option.splits if_splits)

section \<open>All or nothing\<close>

lemma collect_restore_Inr:
  assumes "collect_restore L copy bundle m = Inr files"
  shows "list_all2 (\<lambda>e (path, t). path = restored_path e \<and> (\<exists>c. t = FileEntry c \<and> file_matches (lib_sha L) e c)) (mf_entries m) files"
    "\<forall>(store_name, filename)\<in>set databases. \<forall>c. tree_file files [filename] = Some c \<longrightarrow>
        lib_intact L c = Some True \<and> lib_version L c = store_version (mf_versions m) store_name"
proof -
  have m: "map_result (stage_entry L copy bundle) (mf_entries m) = Inr files" "validate_staging L files m = Inr ()"
    using assms by (auto simp: collect_restore_def result_simps)
  show "list_all2 (\<lambda>e (path, t). path = restored_path e \<and> (\<exists>c. t = FileEntry c \<and> file_matches (lib_sha L) e c)) (mf_entries m) files"
    by (rule list_all2_mono [OF m(1) [unfolded map_result_Inr_iff]]) (auto dest: stage_entry_Inr)
  show "\<forall>(store_name, filename)\<in>set databases. \<forall>c. tree_file files [filename] = Some c \<longrightarrow>
        lib_intact L c = Some True \<and> lib_version L c = store_version (mf_versions m) store_name"
    using m(2) by (auto simp: validate_staging_def result_simps validate_databases_iff)
qed

lemma inspect_Inr:
  assumes "inspect_workspace_export L bundle = Inr m"
  shows "valid_manifest m"
  using assms by (auto simp: inspect_workspace_export_def load_manifest_def result_simps split: option.splits if_splits)

text \<open>
  C9: a restore is all or nothing: whatever the copies leave on the disk and whichever renames fail,
  a restore that succeeds leaves exactly the files of the verified manifest, each with the length and
  hash of its entry and every database intact and of version 1, and one that fails leaves the old
  workspace, either in its place or, if moving it back failed too, in the directory it was moved to.
\<close>

theorem restore_all_or_nothing:
  assumes "restore_workspace L copy fails bundle_path bundle active_path p = (res, p')" and "pl_aside p = None"
  shows "case res of
      Inl e \<Rightarrow> (pl_target p' = pl_target p \<and> pl_aside p' = None) \<or>
        (pl_target p' = None \<and> pl_aside p' = pl_target p \<and> fails 1 \<and> fails 2)
    | Inr m \<Rightarrow> inspect_workspace_export L bundle = Inr m \<and>
        (\<exists>files. pl_target p' = Some files \<and>
           list_all2 (\<lambda>e (path, t). path = restored_path e \<and> (\<exists>c. t = FileEntry c \<and>
             digest_ref (lib_sha L) c = en_hash e \<and> length c = en_bytes e)) (mf_entries m) files \<and>
           (\<forall>(store_name, filename)\<in>set databases. \<forall>c. tree_file files [filename] = Some c \<longrightarrow>
             lib_intact L c = Some True \<and> lib_version L c = 1))"
proof (cases "inspect_workspace_export L bundle")
  case (Inl e)
  then have "res = Inl e \<and> p' = p" using assms(1) by (simp add: restore_workspace_def)
  then show ?thesis using assms(2) by simp
next
  case (Inr m)
  have refused: ?thesis if "res = Inl e" "p' = p" for e using that assms(2) by simp
  show ?thesis
  proof (cases "lies_within active_path bundle_path \<or> lies_within bundle_path active_path")
    case True
    then show ?thesis using Inr assms(1) by (intro refused [of NotSeparate]) (auto simp: restore_workspace_def)
  next
    case False
    show ?thesis
    proof (cases "collect_restore L copy bundle m")
      case (Inl e)
      then show ?thesis using Inr False assms(1) by (intro refused [of e]) (auto simp: restore_workspace_def)
    next
      case files: (Inr files)
      obtain ok q where q: "move_in fails (p\<lparr>pl_staging := Some files\<rparr>) = (ok, q)" by (meson surj_pair)
      have v: "store_version (mf_versions m) store_name = 1" for store_name
        using inspect_Inr [OF Inr] by (simp add: valid_manifest_def current_versions_def store_version_def)
      show ?thesis
      proof (cases ok)
        case True
        then have "res = Inr m" "pl_target p' = Some files"
          using assms Inr False files q move_in_cases [OF q] by (auto simp: restore_workspace_def split: if_splits)
        then show ?thesis using Inr collect_restore_Inr [OF files] v by (simp add: file_matches_def)
      next
        case False': False
        then have "res = Inl RestoreSystem" "p' = remove_staging q"
          using assms(1) Inr False files q by (auto simp: restore_workspace_def)
        then show ?thesis using move_in_cases [OF q] False' assms(2) by (simp add: remove_staging_def)
      qed
    qed
  qed
qed

section \<open>What is exported\<close>

text \<open>A tree as a file system has it: distinct paths, below directories.\<close>

definition wf_tree :: "dir_tree \<Rightarrow> bool" where
  "wf_tree t \<longleftrightarrow> distinct (map fst t) \<and>
     (\<forall>(path, e)\<in>set t. \<forall>n. 0 < n \<and> n < length path \<longrightarrow> (\<exists>e'. map_of t (take n path) = Some e' \<and> is_directory e'))"

text \<open>One file of an export, with its kind.\<close>

definition good_item :: "libraries \<Rightarrow> entry_kind \<times> staged_file \<Rightarrow> bool" where
  "good_item L = (\<lambda>(kind, path, content, bytes). bytes = content \<and>
     (case kind of
        DatabaseEntry \<Rightarrow> (\<exists>filename. path = [''databases'', filename] \<and> filename \<in> snd ` set databases) \<and>
          lib_intact L content = Some True \<and> lib_version L content = 1
      | ArtifactEntry \<Rightarrow> (\<exists>d f. path = [''artifacts'', d, f] \<and> length d = 2 \<and> length f = 62 \<and> all_in hex_chars (d @ f) \<and>
          digest_ref (lib_sha L) content = ''sha256:'' @ d @ f)))"

definition manifest_of :: "libraries \<Rightarrow> (entry_kind \<times> staged_file) list \<Rightarrow> export_manifest" where
  "manifest_of L items = \<lparr> mf_versions = current_versions, mf_entries = map (\<lambda>(kind, f). manifest_entry (lib_sha L) kind f) items \<rparr>"

definition bundle_of :: "libraries \<Rightarrow> (entry_kind \<times> staged_file) list \<Rightarrow> dir_tree" where
  "bundle_of L items = map (\<lambda>(_, path, _, bytes). (path, FileEntry bytes)) items @
     [([''manifest.json''], FileEntry (lib_write L (manifest_of L items)))]"

lemma hex_no_mark: "all_in hex_chars w \<Longrightarrow> set w \<inter> {CHR ''/'', CHR '':'', CHR 0x5C, CHR ''.''} = {}"
proof -
  have "set hex_chars \<inter> {CHR ''/'', CHR '':'', CHR 0x5C, CHR ''.''} = {}" by code_simp
  then show "all_in hex_chars w \<Longrightarrow> ?thesis" unfolding all_in_set by blast
qed

text \<open>The path of an item is one of the manifest, and is read back from its text.\<close>

lemma good_item_path:
  assumes "good_item L (kind, path, content, bytes)"
  shows "split_on (CHR ''/'') (join_with (CHR ''/'') path) = path"
    "is_portable_entry_path (join_with (CHR ''/'') path)" "is_kind_path kind (join_with (CHR ''/'') path)"
    "2 \<le> length path"
proof -
  have "split_on (CHR ''/'') (join_with (CHR ''/'') path) = path \<and>
    is_portable_entry_path (join_with (CHR ''/'') path) \<and> is_kind_path kind (join_with (CHR ''/'') path) \<and> 2 \<le> length path"
  proof (cases kind)
    case DatabaseEntry
    then obtain filename where f: "path = [''databases'', filename]"
        "filename \<in> {''events.sqlite3'', ''memory.sqlite3'', ''capabilities.sqlite3''}"
      using assms by (auto simp: good_item_def databases_def)
    have "split_on (CHR ''/'') (join_with (CHR ''/'') path) = path" using f by (intro split_join) auto
    moreover have "is_portable_entry_path (join_with (CHR ''/'') path)"
      using f by (auto simp: is_portable_entry_path_def starts_with_def)
    ultimately show ?thesis using f DatabaseEntry by (simp add: is_kind_path_def databases_def)
  next
    case ArtifactEntry
    then obtain d f where f: "path = [''artifacts'', d, f]" "length d = 2" "length f = 62" "all_in hex_chars (d @ f)"
      using assms by (auto simp: good_item_def)
    have n: "set (d @ f) \<inter> {CHR ''/'', CHR '':'', CHR 0x5C, CHR ''.''} = {}" by (rule hex_no_mark [OF f(4)])
    then have s: "split_on (CHR ''/'') (join_with (CHR ''/'') path) = path" using f(1) by (intro split_join) auto
    have "d \<notin> {[], ''.'', ''..''}" "f \<notin> {[], ''.'', ''..''}" using f(2,3) n by auto
    then have "is_portable_entry_path (join_with (CHR ''/'') path)"
      using n f(1-3) s by (auto simp: is_portable_entry_path_def starts_with_def)
    then show ?thesis using s f ArtifactEntry by (simp add: is_kind_path_def)
  qed
  then show "split_on (CHR ''/'') (join_with (CHR ''/'') path) = path"
    "is_portable_entry_path (join_with (CHR ''/'') path)" "is_kind_path kind (join_with (CHR ''/'') path)"
    "2 \<le> length path" by blast+
qed

section \<open>A bundle of good items is accepted and restored\<close>

lemma bundle_keys:
  assumes "list_all (good_item L) items" and "distinct (map (fst \<circ> snd) items)"
  shows "distinct (map fst (bundle_of L items))"
proof -
  have "map fst (bundle_of L items) = map (fst \<circ> snd) items @ [[''manifest.json'']]"
    by (induction items) (auto simp: bundle_of_def)
  moreover have "[''manifest.json''] \<notin> (fst \<circ> snd) ` set items"
  proof
    assume "[''manifest.json''] \<in> (fst \<circ> snd) ` set items"
    then obtain kind content bytes where "(kind, [''manifest.json''], content, bytes) \<in> set items" by force
    then show False using assms(1) good_item_path(4) by (fastforce simp: list_all_iff)
  qed
  ultimately show ?thesis using assms(2) by simp
qed

lemma bundle_lookup:
  assumes "list_all (good_item L) items" and "distinct (map (fst \<circ> snd) items)" and "(kind, path, content, bytes) \<in> set items"
  shows "map_of (bundle_of L items) path = Some (FileEntry content)" "split_on (CHR ''/'') (join_with (CHR ''/'') path) = path"
    "good_item L (kind, path, content, bytes)"
proof -
  show g: "good_item L (kind, path, content, bytes)" using assms(1,3) by (auto simp: list_all_iff)
  have "(path, FileEntry bytes) \<in> set (bundle_of L items)" using assms(3) by (force simp: bundle_of_def)
  then show "map_of (bundle_of L items) path = Some (FileEntry content)"
    using bundle_keys [OF assms(1,2)] g by (simp add: good_item_def)
  show "split_on (CHR ''/'') (join_with (CHR ''/'') path) = path" by (rule good_item_path [OF g])
qed

lemma manifest_of_valid:
  assumes "list_all (good_item L) items" and "distinct (map (fst \<circ> snd) items)" and "hash_ok (lib_sha L)"
  shows "valid_manifest (manifest_of L items)"
proof -
  have "valid_entry (manifest_entry (lib_sha L) kind (path, content, bytes))" if "(kind, path, content, bytes) \<in> set items" for kind path content bytes
    using bundle_lookup(3) [OF assms(1,2) that] good_item_path(2,3) assms(3)
    by (simp add: valid_entry_def manifest_entry_def digest_ref_is_digest)
  then have "list_all valid_entry (mf_entries (manifest_of L items))" by (fastforce simp: manifest_of_def list_all_iff)
  moreover have "distinct (map en_path (mf_entries (manifest_of L items)))"
  proof -
    have "map (split_on (CHR ''/'')) (map en_path (mf_entries (manifest_of L items))) = map (fst \<circ> snd) items"
      using bundle_lookup(2) [OF assms(1,2)] by (force simp: manifest_of_def manifest_entry_def)
    then show ?thesis using assms(2) by (metis distinct_map)
  qed
  ultimately show ?thesis by (simp add: valid_manifest_def manifest_of_def)
qed

lemma bundle_inspected:
  assumes "list_all (good_item L) items" and "distinct (map (fst \<circ> snd) items)" and "hash_ok (lib_sha L)"
    and "lib_read L (lib_write L (manifest_of L items)) = Some (manifest_of L items)"
  shows "inspect_workspace_export L (bundle_of L items) = Inr (manifest_of L items)"
proof -
  have "([''manifest.json''], FileEntry (lib_write L (manifest_of L items))) \<in> set (bundle_of L items)"
    by (simp add: bundle_of_def)
  then have "map_of (bundle_of L items) [''manifest.json''] = Some (FileEntry (lib_write L (manifest_of L items)))"
    using bundle_keys [OF assms(1,2)] by simp
  then have "load_manifest L (bundle_of L items) = Inr (manifest_of L items)"
    using manifest_of_valid [OF assms(1-3)] assms(4) by (simp add: load_manifest_def tree_file_def file_bytes_def)
  moreover have "list_all (\<lambda>(_, e). \<exists>c. e = FileEntry c) (bundle_of L items)"
    by (auto simp: bundle_of_def list_all_iff)
  then have "\<not> list_ex (\<lambda>(_, e). is_link e) (bundle_of L items)"
    "filter (\<lambda>(_, e). file_bytes e \<noteq> None) (bundle_of L items) = bundle_of L items"
    by (auto simp: list_all_iff list_ex_iff is_link_def file_bytes_def filter_id_conv)
  moreover have "set (map (\<lambda>(path, _). join_with (CHR ''/'') path) (bundle_of L items)) =
      set (''manifest.json'' # map en_path (mf_entries (manifest_of L items)))"
    by (force simp: bundle_of_def manifest_of_def manifest_entry_def)
  moreover have "validate_entries (lib_sha L) (bundle_of L items) (mf_entries (manifest_of L items)) = Inr ()"
    unfolding validate_entries_iff using bundle_lookup(1,2) [OF assms(1,2)]
    by (fastforce simp: manifest_of_def manifest_entry_def entry_path_def file_matches_def)
  ultimately show ?thesis
    by (simp only: inspect_workspace_export_def validate_bundle_def try_bind_Inr Let_def if_False if_True simp_thms)
qed

definition restored_item :: "entry_kind \<times> staged_file \<Rightarrow> string list \<times> tree_entry" where
  "restored_item = (\<lambda>(kind, path, content, _).
     (case kind of DatabaseEntry \<Rightarrow> [last path] | ArtifactEntry \<Rightarrow> path, FileEntry content))"

lemma restored_member:
  assumes "list_all (good_item L) items" and "(path, e) \<in> set (map restored_item items)"
  obtains (database) filename content where "path = [filename]" "e = FileEntry content" "filename \<in> snd ` set databases"
      "(DatabaseEntry, [''databases'', filename], content, content) \<in> set items" "lib_intact L content = Some True" "lib_version L content = 1"
  | (artifact) d f content where "path = [''artifacts'', d, f]" "e = FileEntry content" "length d = 2" "length f = 62"
      "all_in hex_chars (d @ f)" "(ArtifactEntry, [''artifacts'', d, f], content, content) \<in> set items"
      "digest_ref (lib_sha L) content = ''sha256:'' @ d @ f"
proof -
  obtain kind p c b where i: "(kind, p, c, b) \<in> set items" "(path, e) = restored_item (kind, p, c, b)"
    using assms(2) by auto
  then have "good_item L (kind, p, c, b)" using assms(1) by (auto simp: list_all_iff)
  show thesis
  proof (cases kind)
    case DatabaseEntry
    then have "(\<exists>filename. p = [''databases'', filename] \<and> filename \<in> snd ` set databases) \<and> lib_intact L c = Some True \<and>
        lib_version L c = 1 \<and> b = c"
      using \<open>good_item L _\<close> by (simp add: good_item_def)
    then obtain filename where "p = [''databases'', filename]" "filename \<in> snd ` set databases" "lib_intact L c = Some True"
        "lib_version L c = 1" "b = c" by blast
    then show thesis using database i DatabaseEntry by (simp add: restored_item_def)
  next
    case ArtifactEntry
    then show thesis using artifact i \<open>good_item L _\<close> by (auto simp: good_item_def restored_item_def)
  qed
qed

lemma bundle_restored:
  assumes "list_all (good_item L) items" and "distinct (map (fst \<circ> snd) items)"
  shows "collect_restore L Some (bundle_of L items) (manifest_of L items) = Inr (map restored_item items)"
proof -
  have "stage_entry L Some (bundle_of L items) (manifest_entry (lib_sha L) kind (path, content, bytes)) = Inr (restored_item (kind, path, content, bytes))"
    if "(kind, path, content, bytes) \<in> set items" for kind path content bytes
    using bundle_lookup(1,2) [OF assms that]
    by (cases kind) (simp_all add: stage_entry_def manifest_entry_def entry_path_def tree_file_def file_bytes_def file_matches_def restored_path_def restored_item_def)
  then have "stage_entry L Some (bundle_of L items) (case x of (kind, f) \<Rightarrow> manifest_entry (lib_sha L) kind f) = Inr (restored_item x)"
    if "x \<in> set items" for x using that by (cases x) auto
  then have "map_result (stage_entry L Some (bundle_of L items)) (mf_entries (manifest_of L items)) = Inr (map restored_item items)"
    by (simp add: map_result_Inr_iff manifest_of_def list_all2_conv_all_nth)
  moreover have "lib_intact L c = Some True \<and> lib_version L c = 1" if "tree_file (map restored_item items) [filename] = Some c" for filename c
  proof -
    obtain e where e: "([filename], e) \<in> set (map restored_item items)" "file_bytes e = Some c"
      using \<open>tree_file _ _ = _\<close> by (auto simp: tree_file_def bind_eq_Some_conv dest!: map_of_SomeD)
    show ?thesis by (rule restored_member [OF assms(1) e(1)]) (use e(2) in \<open>auto simp: file_bytes_def\<close>)
  qed
  moreover have "validate_artifacts (lib_sha L) (artifact_paths (map restored_item items)) = Inr ()"
    unfolding validate_artifacts_iff
  proof clarify
    fix path e
    assume "(path, e) \<in> set (artifact_paths (map restored_item items))"
    then have m: "(path, e) \<in> set (map restored_item items)" "length path = 3" by (auto simp: artifact_paths_def)
    show "\<exists>d f c. tl path = [d, f] \<and> length d = 2 \<and> length f = 62 \<and> all_in hex_chars (d @ f) \<and> file_bytes e = Some c \<and>
        digest_ref (lib_sha L) c = ''sha256:'' @ d @ f"
      by (rule restored_member [OF assms(1) m(1)]) (use m(2) in \<open>auto simp: file_bytes_def\<close>)
  qed
  moreover have "store_version current_versions store_name = 1" for store_name
    by (simp add: current_versions_def store_version_def)
  ultimately have "validate_databases L (map restored_item items) current_versions databases = Inr ()"
    unfolding validate_databases_iff by auto
  then show ?thesis
    using \<open>map_result _ _ = _\<close> \<open>validate_artifacts _ _ = _\<close>
    by (simp add: collect_restore_def validate_staging_def manifest_of_def)
qed

section \<open>What an export collects\<close>

lemma export_database_Inr:
  "export_database L (s, f, c) = Inr x \<Longrightarrow>
     \<exists>b. x = ((s, lib_version L b), [''databases'', f], b, b) \<and> lib_backup L c = Some b \<and> lib_intact L b = Some True"
  by (auto simp: export_database_def backup_sqlite_def result_simps split: option.splits bool.splits if_splits)

lemma export_artifact_Inr:
  assumes "export_artifact L Some (path, e) = Inr x" and "length path = 3" and "hd path = ''artifacts''"
  shows "\<exists>d f c. path = [''artifacts'', d, f] \<and> e = FileEntry c \<and> x = (path, c, c) \<and> length d = 2 \<and> length f = 62 \<and>
    all_in hex_chars (d @ f) \<and> digest_ref (lib_sha L) c = ''sha256:'' @ d @ f"
proof -
  obtain a d f where p: "path = [a, d, f]" using assms(2) by (auto simp: length_Suc_conv numeral_3_eq_3)
  then show ?thesis
    using assms by (auto simp: export_artifact_def artifact_relative_path_Inr result_simps split: tree_entry.splits if_splits)
qed

lemma present_filter:
  "present_databases t = map (\<lambda>(s, f). (s, f, the (tree_file t [f]))) (filter (\<lambda>(s, f). tree_file t [f] \<noteq> None) databases)"
proof -
  have "List.map_filter (\<lambda>(s, f). map_option (\<lambda>c. (s, f, c)) (tree_file t [f])) xs =
      map (\<lambda>(s, f). (s, f, the (tree_file t [f]))) (filter (\<lambda>(s, f). tree_file t [f] \<noteq> None) xs)" for xs :: "(string \<times> string) list"
    by (induction xs) (auto simp: map_filter_simps split: option.split)
  then show ?thesis by (simp add: present_databases_def)
qed

lemma present_database: "(s, f, c) \<in> set (present_databases t) \<longleftrightarrow> (s, f) \<in> set databases \<and> tree_file t [f] = Some c"
  by (force simp: present_filter)

lemma present_distinct: "distinct (map fst (present_databases t))" "distinct (map (fst \<circ> snd) (present_databases t))"
proof -
  have e: "map fst (present_databases t) = map fst (filter (\<lambda>(s, f). tree_file t [f] \<noteq> None) databases)"
    "map (fst \<circ> snd) (present_databases t) = map snd (filter (\<lambda>(s, f). tree_file t [f] \<noteq> None) databases)"
    by (auto simp: present_filter)
  show "distinct (map fst (present_databases t))" "distinct (map (fst \<circ> snd) (present_databases t))"
    unfolding e by (rule distinct_map_filterI, simp add: databases_def)+
qed

text \<open>The stores and the artifacts of an export, as items.\<close>

definition export_items :: "((string \<times> int) \<times> staged_file) list \<Rightarrow> staged_file list \<Rightarrow> (entry_kind \<times> staged_file) list" where
  "export_items stores artifacts = map (\<lambda>x. (DatabaseEntry, snd x)) stores @ map (Pair ArtifactEntry) artifacts"

lemma artifacts_exported:
  assumes "wf_tree t"
  shows "(if Option.bind (map_of t [''artifacts'']) (\<lambda>e. if is_directory e then Some () else None) = None then Inr []
        else map_result f (sort_key fst (artifact_paths t))) = map_result f (sort_key fst (artifact_paths t))"
proof (cases "artifact_paths t")
  case (Cons x xs)
  obtain path e where x: "x = (path, e)" by fastforce
  then have p: "(path, e) \<in> set t" "length path = 3" "hd path = ''artifacts''"
    using Cons by (auto simp: artifact_paths_def filter_eq_Cons_iff)
  then have "take 1 path = [''artifacts'']" by (cases path) auto
  moreover have "\<exists>e'. map_of t (take 1 path) = Some e' \<and> is_directory e'"
    using assms p(1,2) unfolding wf_tree_def by fastforce
  ultimately obtain e' where "map_of t [''artifacts''] = Some e'" "is_directory e'" by auto
  then show ?thesis by simp
qed simp

lemma exported_stores:
  assumes "list_all2 (\<lambda>x y. export_database L x = Inr y) present stores"
  shows "map (fst \<circ> fst) stores = map fst present"
    "map (fst \<circ> snd) stores = map (\<lambda>(_, f, _). [''databases'', f]) present"
proof -
  have e: "fst (fst y) = fst x \<and> fst (snd y) = [''databases'', fst (snd x)]" if "export_database L x = Inr y" for x y
    using that export_database_Inr [of L "fst x" "fst (snd x)" "snd (snd x)" y] by auto
  have "list_all2 (\<lambda>x y. fst (fst y) = fst x \<and> fst (snd y) = [''databases'', fst (snd x)]) present stores"
    by (rule list_all2_mono [OF assms e])
  then show "map (fst \<circ> fst) stores = map fst present"
    "map (fst \<circ> snd) stores = map (\<lambda>(_, f, _). [''databases'', f]) present"
    by (induction present stores rule: list_all2_induct) auto
qed

lemma exported_store:
  assumes "list_all2 (\<lambda>x y. export_database L x = Inr y) (present_databases t) stores" and "x \<in> set stores"
  obtains s f c b where "(s, f) \<in> set databases" "tree_file t [f] = Some c"
      "x = ((s, lib_version L b), [''databases'', f], b, b)" "lib_backup L c = Some b" "lib_intact L b = Some True"
proof -
  obtain n where n: "n < length stores" "x = stores ! n" using assms(2) by (auto simp: in_set_conv_nth)
  define y where "y = present_databases t ! n"
  have y: "y \<in> set (present_databases t)" "export_database L y = Inr x"
    using list_all2_nthD2 [OF assms(1) n(1)] list_all2_lengthD [OF assms(1)] n by (simp_all add: y_def)
  obtain s f c where "y = (s, f, c)" by (cases y)
  with y have m: "(s, f) \<in> set databases \<and> tree_file t [f] = Some c" and "export_database L (s, f, c) = Inr x"
    by (simp_all add: present_database)
  then obtain b where "x = ((s, lib_version L b), [''databases'', f], b, b)" "lib_backup L c = Some b" "lib_intact L b = Some True"
    using export_database_Inr [of L s f c x] by auto
  with m show thesis by (intro that [of s f c b]) simp_all
qed

lemma collected_stores:
  assumes "map_result (export_database L) (present_databases t) = Inr stores"
    and "\<And>s f. (s, f) \<in> set databases \<Longrightarrow> export_version (map fst stores) s = 1" and "x \<in> set stores"
  obtains s f c b where "x = ((s, 1), [''databases'', f], b, b)" "(s, f) \<in> set databases" "lib_intact L b = Some True"
      "lib_version L b = 1" "tree_file t [f] = Some c" "lib_backup L c = Some b"
proof -
  have l: "list_all2 (\<lambda>x y. export_database L x = Inr y) (present_databases t) stores"
    using assms(1) by (simp add: map_result_Inr_iff)
  obtain s f c b where y: "(s, f) \<in> set databases" "tree_file t [f] = Some c"
      "x = ((s, lib_version L b), [''databases'', f], b, b)" "lib_backup L c = Some b" "lib_intact L b = Some True"
    by (rule exported_store [OF l assms(3)])
  have "distinct (map fst (map fst stores))"
    using exported_stores(1) [OF l] present_distinct(1) [of t] by simp
  moreover have "(s, lib_version L b) \<in> set (map fst stores)" using assms(3) y(3) by force
  ultimately have "map_of (map fst stores) s = Some (lib_version L b)" by (rule map_of_is_SomeI)
  then have "lib_version L b = 1" using assms(2) [OF y(1)] by (simp add: export_version_def)
  then show thesis using that y by simp
qed

lemma collected_store_paths:
  assumes "map_result (export_database L) (present_databases t) = Inr stores"
  shows "map (fst \<circ> snd) stores = map (\<lambda>(_, f, _). [''databases'', f]) (present_databases t)"
  by (rule exported_stores(2)) (use assms in \<open>simp add: map_result_Inr_iff\<close>)

lemma list_all2_members:
  assumes "list_all2 P xs ys"
  shows "y \<in> set ys \<Longrightarrow> \<exists>x\<in>set xs. P x y" "x \<in> set xs \<Longrightarrow> \<exists>y\<in>set ys. P x y"
  using assms by (induction rule: list_all2_induct) auto

lemma collected_artifacts:
  assumes "map_result (export_artifact L Some) (sort_key fst (artifact_paths t)) = Inr artifacts"
  shows "list_all2 (\<lambda>p x. \<exists>d f c. p = ([''artifacts'', d, f], FileEntry c) \<and> x = ([''artifacts'', d, f], c, c) \<and>
     length d = 2 \<and> length f = 62 \<and> all_in hex_chars (d @ f) \<and> digest_ref (lib_sha L) c = ''sha256:'' @ d @ f)
     (sort_key fst (artifact_paths t)) artifacts"
proof (rule list.rel_mono_strong)
  show "list_all2 (\<lambda>x y. export_artifact L Some x = Inr y) (sort_key fst (artifact_paths t)) artifacts"
    using assms by (simp add: map_result_Inr_iff)
next
  fix p x
  assume p: "p \<in> set (sort_key fst (artifact_paths t))" "x \<in> set artifacts" "export_artifact L Some p = Inr x"
  obtain path e where "p = (path, e)" by fastforce
  with p export_artifact_Inr [of L path e x]
  show "\<exists>d f c. p = ([''artifacts'', d, f], FileEntry c) \<and> x = ([''artifacts'', d, f], c, c) \<and>
     length d = 2 \<and> length f = 62 \<and> all_in hex_chars (d @ f) \<and> digest_ref (lib_sha L) c = ''sha256:'' @ d @ f"
    by (auto simp: artifact_paths_def)
qed

lemma collect_export_Inr:
  assumes "collect_export L Some t = Inr (m, files)" and "wf_tree t"
  obtains stores artifacts where "map_result (export_database L) (present_databases t) = Inr stores"
    "map_result (export_artifact L Some) (sort_key fst (artifact_paths t)) = Inr artifacts"
    "\<And>s f. (s, f) \<in> set databases \<Longrightarrow> export_version (map fst stores) s = 1"
    "m = manifest_of L (export_items stores artifacts)"
    "files @ [([''manifest.json''], FileEntry (lib_write L m))] = bundle_of L (export_items stores artifacts)"
proof -
  obtain stores artifacts where c: "map_result (export_database L) (present_databases t) = Inr stores"
    "map_result (export_artifact L Some) (sort_key fst (artifact_paths t)) = Inr artifacts"
    "\<lparr> sv_events = export_version (map fst stores) ''events'', sv_memory = export_version (map fst stores) ''memory'',
       sv_capabilities = export_version (map fst stores) ''capabilities'', sv_proposals = 1 \<rparr> = current_versions"
    "m = \<lparr> mf_versions = current_versions, mf_entries = map (manifest_entry (lib_sha L) DatabaseEntry \<circ> snd) stores @
       map (manifest_entry (lib_sha L) ArtifactEntry) artifacts \<rparr>"
    "files = map (\<lambda>(path, _, bytes). (path, FileEntry bytes)) (map snd stores @ artifacts)"
    using assms(1) unfolding collect_export_def artifacts_exported [OF assms(2)]
    by (auto simp: result_simps Let_def split: if_splits)
  have "export_version (map fst stores) s = 1" if "(s, f) \<in> set databases" for s f
    using c(3) that by (auto simp: current_versions_def databases_def)
  moreover have "m = manifest_of L (export_items stores artifacts)"
    using c(4) by (simp add: manifest_of_def export_items_def comp_def)
  moreover from this have "files @ [([''manifest.json''], FileEntry (lib_write L m))] = bundle_of L (export_items stores artifacts)"
    using c(5) by (simp add: bundle_of_def export_items_def)
  ultimately show thesis using that c(1,2) by blast
qed

text \<open>The items of an export are good, distinct, and the databases and artifacts of the workspace.\<close>

lemma export_items_good:
  assumes "map_result (export_database L) (present_databases t) = Inr stores"
    and "map_result (export_artifact L Some) (sort_key fst (artifact_paths t)) = Inr artifacts"
    and "\<And>s f. (s, f) \<in> set databases \<Longrightarrow> export_version (map fst stores) s = 1" and "wf_tree t"
  shows "list_all (good_item L) (export_items stores artifacts)" "distinct (map (fst \<circ> snd) (export_items stores artifacts))"
proof -
  note l = collected_artifacts [OF assms(2)]
  have a: "\<exists>d f c. x = ([''artifacts'', d, f], c, c) \<and> length d = 2 \<and> length f = 62 \<and> all_in hex_chars (d @ f) \<and>
      digest_ref (lib_sha L) c = ''sha256:'' @ d @ f" if "x \<in> set artifacts" for x
    using list_all2_members(1) [OF l that] by auto
  have "good_item L (DatabaseEntry, snd x)" if x: "x \<in> set stores" for x
  proof -
    obtain s f c b where "x = ((s, 1), [''databases'', f], b, b)" "(s, f) \<in> set databases" "lib_intact L b = Some True" "lib_version L b = 1"
      by (rule collected_stores [OF assms(1,3) x])
    then show ?thesis by (force simp: good_item_def)
  qed
  moreover have "good_item L (ArtifactEntry, x)" if "x \<in> set artifacts" for x
    using a [OF that] by (auto simp: good_item_def)
  ultimately show "list_all (good_item L) (export_items stores artifacts)"
    by (auto simp: export_items_def list_all_iff)
  have e: "map (fst \<circ> snd) stores = map (\<lambda>f. [''databases'', f]) (map (fst \<circ> snd) (present_databases t))"
    using collected_store_paths [OF assms(1)] by auto
  have "distinct (map (\<lambda>f. [''databases'', f]) (map (fst \<circ> snd) (present_databases t)))"
    using present_distinct(2) [of t] by (subst distinct_map) (auto simp: inj_on_def)
  then have ds: "distinct (map (fst \<circ> snd) stores)" unfolding e .
  have sub: "(fst \<circ> snd) ` set stores \<subseteq> range (\<lambda>f. [''databases'', f])"
    unfolding set_map [symmetric] e by auto
  have "map fst artifacts = map fst (sort_key fst (artifact_paths t))"
    using l by (induction rule: list_all2_induct) auto
  moreover have "distinct (map fst (sort_key fst (artifact_paths t)))"
    using assms(4) by (simp add: wf_tree_def artifact_paths_def distinct_map) (auto simp: inj_on_def)
  ultimately have "distinct (map fst artifacts)" by simp
  moreover have "fst ` set artifacts \<inter> (fst \<circ> snd) ` set stores = {}" using a sub by force
  ultimately show "distinct (map (fst \<circ> snd) (export_items stores artifacts))"
    using ds by (auto simp: export_items_def comp_def)
qed

lemma export_items_artifact:
  assumes "map_result (export_artifact L Some) (sort_key fst (artifact_paths t)) = Inr artifacts" and "wf_tree t"
  shows "map_of t [''artifacts'', d, f] = Some e \<longleftrightarrow>
    (\<exists>c. e = FileEntry c \<and> (ArtifactEntry, [''artifacts'', d, f], c, c) \<in> set (export_items stores artifacts))"
proof -
  note l = collected_artifacts [OF assms(1)]
  have "map_of t [''artifacts'', d, f] = Some e \<longleftrightarrow> ([''artifacts'', d, f], e) \<in> set (sort_key fst (artifact_paths t))"
    using assms(2) by (simp add: artifact_paths_def wf_tree_def)
  also have "\<dots> \<longleftrightarrow> (\<exists>c. e = FileEntry c \<and> ([''artifacts'', d, f], c, c) \<in> set artifacts)"
  proof
    assume "([''artifacts'', d, f], e) \<in> set (sort_key fst (artifact_paths t))"
    from list_all2_members(2) [OF l this] show "\<exists>c. e = FileEntry c \<and> ([''artifacts'', d, f], c, c) \<in> set artifacts" by auto
  next
    assume "\<exists>c. e = FileEntry c \<and> ([''artifacts'', d, f], c, c) \<in> set artifacts"
    then obtain c where c: "e = FileEntry c" "([''artifacts'', d, f], c, c) \<in> set artifacts" by blast
    from list_all2_members(1) [OF l c(2)] c(1) show "([''artifacts'', d, f], e) \<in> set (sort_key fst (artifact_paths t))" by auto
  qed
  also have "\<dots> \<longleftrightarrow> (\<exists>c. e = FileEntry c \<and> (ArtifactEntry, [''artifacts'', d, f], c, c) \<in> set (export_items stores artifacts))"
    by (auto simp: export_items_def)
  finally show ?thesis .
qed

lemma export_items_database:
  assumes "map_result (export_database L) (present_databases t) = Inr stores"
    and "\<And>s f. (s, f) \<in> set databases \<Longrightarrow> export_version (map fst stores) s = 1" and "(store, f) \<in> set databases"
  shows "(DatabaseEntry, [''databases'', f], b, b) \<in> set (export_items stores artifacts) \<longleftrightarrow>
    Option.bind (tree_file t [f]) (lib_backup L) = Some b"
proof
  assume "(DatabaseEntry, [''databases'', f], b, b) \<in> set (export_items stores artifacts)"
  then obtain v where v: "(v, [''databases'', f], b, b) \<in> set stores" by (auto simp: export_items_def)
  show "Option.bind (tree_file t [f]) (lib_backup L) = Some b"
    by (rule collected_stores [OF assms(1,2) v]) auto
next
  assume b: "Option.bind (tree_file t [f]) (lib_backup L) = Some b"
  then obtain c where "tree_file t [f] = Some c" by (auto simp: bind_eq_Some_conv)
  then have "(store, f, c) \<in> set (present_databases t)" using assms(3) by (simp add: present_database)
  then have "[''databases'', f] \<in> set (map (\<lambda>(_, f, _). [''databases'', f]) (present_databases t))" by force
  then have "[''databases'', f] \<in> set (map (fst \<circ> snd) stores)" unfolding collected_store_paths [OF assms(1)] .
  then obtain x where x: "x \<in> set stores" "fst (snd x) = [''databases'', f]" by auto
  obtain s f' c' b' where y: "x = ((s, 1), [''databases'', f'], b', b')" "tree_file t [f'] = Some c'" "lib_backup L c' = Some b'"
    by (rule collected_stores [OF assms(1,2) x(1)])
  then have "b' = b" "f' = f" using x(2) b by auto
  then show "(DatabaseEntry, [''databases'', f], b, b) \<in> set (export_items stores artifacts)"
    using x(1) y(1) by (force simp: export_items_def)
qed

section \<open>What was exported is restored\<close>

lemma option_eqI: "(\<And>b. x = Some b \<longleftrightarrow> y = Some b) \<Longrightarrow> x = y"
  by (cases x; cases y) auto

lemma restored_keys:
  assumes "list_all (good_item L) items" and "distinct (map (fst \<circ> snd) items)"
  shows "distinct (map fst (map restored_item items))"
proof -
  have "fst (restored_item x) = fst (restored_item y) \<Longrightarrow> x = y" if xy: "x \<in> set items" "y \<in> set items" for x y
  proof -
    assume r: "fst (restored_item x) = fst (restored_item y)"
    obtain k p c b k' p' c' b' where v: "x = (k, p, c, b)" "y = (k', p', c', b')" by (cases x; cases y)
    have "good_item L x" "good_item L y" using assms(1) xy by (auto simp: list_all_iff)
    then have "p = p'" using r v by (cases k; cases k') (auto simp: good_item_def restored_item_def)
    moreover have "inj_on (fst \<circ> snd) (set items)" using assms(2) by (simp add: distinct_map)
    ultimately show "x = y" using xy v by (intro inj_onD [of "fst \<circ> snd" "set items"]) simp_all
  qed
  then show ?thesis using assms(2) by (auto simp: distinct_map inj_on_def)
qed

lemma restored_lookup:
  assumes "list_all (good_item L) items" and "distinct (map (fst \<circ> snd) items)"
  shows "map_of (map restored_item items) [f] = Some (FileEntry b) \<longleftrightarrow> (DatabaseEntry, [''databases'', f], b, b) \<in> set items"
    "map_of (map restored_item items) [''artifacts'', d, g] = Some (FileEntry b) \<longleftrightarrow>
       (ArtifactEntry, [''artifacts'', d, g], b, b) \<in> set items"
proof -
  have m: "map_of (map restored_item items) path = Some e \<longleftrightarrow> (path, e) \<in> set (map restored_item items)" for path e
    by (rule map_of_eq_Some_iff [OF restored_keys [OF assms]])
  show "map_of (map restored_item items) [f] = Some (FileEntry b) \<longleftrightarrow> (DatabaseEntry, [''databases'', f], b, b) \<in> set items"
    unfolding m
  proof
    assume "([f], FileEntry b) \<in> set (map restored_item items)"
    then show "(DatabaseEntry, [''databases'', f], b, b) \<in> set items" by (rule restored_member [OF assms(1)]) auto
  next
    assume "(DatabaseEntry, [''databases'', f], b, b) \<in> set items"
    then have "restored_item (DatabaseEntry, [''databases'', f], b, b) \<in> set (map restored_item items)" by simp
    then show "([f], FileEntry b) \<in> set (map restored_item items)" by (simp add: restored_item_def)
  qed
  show "map_of (map restored_item items) [''artifacts'', d, g] = Some (FileEntry b) \<longleftrightarrow>
       (ArtifactEntry, [''artifacts'', d, g], b, b) \<in> set items"
    unfolding m
  proof
    assume "([''artifacts'', d, g], FileEntry b) \<in> set (map restored_item items)"
    then show "(ArtifactEntry, [''artifacts'', d, g], b, b) \<in> set items" by (rule restored_member [OF assms(1)]) auto
  next
    assume "(ArtifactEntry, [''artifacts'', d, g], b, b) \<in> set items"
    then have "restored_item (ArtifactEntry, [''artifacts'', d, g], b, b) \<in> set (map restored_item items)" by simp
    then show "([''artifacts'', d, g], FileEntry b) \<in> set (map restored_item items)" by (simp add: restored_item_def)
  qed
qed

lemma restored_only_files: "map_of (map restored_item items) path = Some e \<Longrightarrow> \<exists>b. e = FileEntry b"
  by (drule map_of_SomeD) (auto simp: restored_item_def)

lemma read_restored: "tree_file (map restored_item items) path = Some b \<longleftrightarrow> map_of (map restored_item items) path = Some (FileEntry b)"
proof
  assume "tree_file (map restored_item items) path = Some b"
  then obtain e where e: "map_of (map restored_item items) path = Some e" "file_bytes e = Some b"
    by (auto simp: tree_file_def bind_eq_Some_conv)
  then show "map_of (map restored_item items) path = Some (FileEntry b)"
    using restored_only_files [OF e(1)] by (auto simp: file_bytes_def)
qed (simp add: tree_file_def file_bytes_def)

lemma published:
  assumes "export_workspace L Some (\<lambda>_. False) source_path (Some t) destination False
      \<lparr> pl_target = None, pl_aside = None, pl_staging = None \<rparr> = (Inr m, p')"
  obtains files where "collect_export L Some t = Inr (m, files)"
    "pl_target p' = Some (files @ [([''manifest.json''], FileEntry (lib_write L m))])"
  using assms by (auto simp: export_workspace_def publish_directory_def move_in_def Let_def split: if_splits sum.splits prod.splits)

lemma restored:
  assumes "inspect_workspace_export L bundle = Inr m" and "collect_restore L Some bundle m = Inr files"
    and "\<not> lies_within active_path bundle_path" and "\<not> lies_within bundle_path active_path"
  shows "\<exists>q'. restore_workspace L Some (\<lambda>_. False) bundle_path bundle active_path q = (Inr m, q') \<and> pl_target q' = Some files"
  using assms by (simp add: restore_workspace_def move_in_def Let_def)

text \<open>
  C19: what is exported is restored: the bundle of a completed export passes its verification with the
  same manifest, and restoring it anywhere apart from it gives a workspace in which every database is the
  backup taken of the exported one, absent where it was absent, and the artifacts are, path by path and
  byte by byte, those of the exported workspace.
\<close>

theorem export_restores:
  assumes "hash_ok (lib_sha L)" and "\<And>m. valid_manifest m \<Longrightarrow> lib_read L (lib_write L m) = Some m" and "wf_tree t"
    and "export_workspace L Some (\<lambda>_. False) source_path (Some t) destination False
      \<lparr> pl_target = None, pl_aside = None, pl_staging = None \<rparr> = (Inr m, p')"
    and "\<not> lies_within active_path destination" and "\<not> lies_within destination active_path"
  shows "\<exists>bundle q' files. pl_target p' = Some bundle \<and> inspect_workspace_export L bundle = Inr m \<and>
    restore_workspace L Some (\<lambda>_. False) destination bundle active_path q = (Inr m, q') \<and> pl_target q' = Some files \<and>
    (\<forall>(store, filename)\<in>set databases. tree_file files [filename] = Option.bind (tree_file t [filename]) (lib_backup L)) \<and>
    (\<forall>d f. map_of files [''artifacts'', d, f] = map_of t [''artifacts'', d, f])"
proof -
  obtain files where f: "collect_export L Some t = Inr (m, files)"
    "pl_target p' = Some (files @ [([''manifest.json''], FileEntry (lib_write L m))])" by (rule published [OF assms(4)])
  obtain stores artifacts where c: "map_result (export_database L) (present_databases t) = Inr stores"
    "map_result (export_artifact L Some) (sort_key fst (artifact_paths t)) = Inr artifacts"
    "\<And>s f. (s, f) \<in> set databases \<Longrightarrow> export_version (map fst stores) s = 1"
    "m = manifest_of L (export_items stores artifacts)"
    "files @ [([''manifest.json''], FileEntry (lib_write L m))] = bundle_of L (export_items stores artifacts)"
    by (rule collect_export_Inr [OF f(1) assms(3)]) blast
  let ?items = "export_items stores artifacts"
  note g = export_items_good [OF c(1-3) assms(3)]
  have i: "inspect_workspace_export L (bundle_of L ?items) = Inr m"
    unfolding c(4) by (rule bundle_inspected [OF g assms(1) assms(2) [OF manifest_of_valid [OF g assms(1)]]])
  have r: "collect_restore L Some (bundle_of L ?items) m = Inr (map restored_item ?items)"
    unfolding c(4) by (rule bundle_restored [OF g])
  obtain q' where q: "restore_workspace L Some (\<lambda>_. False) destination (bundle_of L ?items) active_path q = (Inr m, q')"
    "pl_target q' = Some (map restored_item ?items)" using restored [OF i r assms(5,6)] by blast
  have databases_back: "\<forall>(store, filename)\<in>set databases.
      tree_file (map restored_item ?items) [filename] = Option.bind (tree_file t [filename]) (lib_backup L)"
  proof clarify
    fix store filename
    assume d: "(store, filename) \<in> set databases"
    show "tree_file (map restored_item ?items) [filename] = Option.bind (tree_file t [filename]) (lib_backup L)"
      by (rule option_eqI, simp only: read_restored restored_lookup(1) [OF g], rule export_items_database [OF c(1,3) d])
  qed
  have artifacts_back: "\<forall>d f. map_of (map restored_item ?items) [''artifacts'', d, f] = map_of t [''artifacts'', d, f]"
  proof (intro allI option_eqI)
    fix d f e
    have "map_of (map restored_item ?items) [''artifacts'', d, f] = Some e \<longleftrightarrow>
        (\<exists>b. e = FileEntry b \<and> map_of (map restored_item ?items) [''artifacts'', d, f] = Some (FileEntry b))"
      using restored_only_files [of ?items "[''artifacts'', d, f]" e] by auto
    then show "map_of (map restored_item ?items) [''artifacts'', d, f] = Some e \<longleftrightarrow> map_of t [''artifacts'', d, f] = Some e"
      by (simp only: restored_lookup(2) [OF g] export_items_artifact [OF c(2) assms(3), of d f e stores])
  qed
  show ?thesis
    by (intro exI [of _ "bundle_of L ?items"] exI [of _ q'] exI [of _ "map restored_item ?items"] conjI)
      (fact f(2) [unfolded c(5)] i q databases_back artifacts_back)+
qed

end
