(* ===== verification/Workspace_Samples.thy ===== *)
theory Workspace_Samples
  imports Workspace_Restore Samples
begin

text \<open>A concrete workspace, at which the properties of export and restore are applied.\<close>

instance entry_kind :: countable by countable_datatype

instance export_entry_ext :: (countable) countable
  by (rule countable_classI [of "\<lambda>e. to_nat (en_path e, en_kind e, en_bytes e, en_hash e, export_entry.more e)"]) simp

instance store_versions_ext :: (countable) countable
  by (rule countable_classI [of "\<lambda>v. to_nat (sv_events v, sv_memory v, sv_capabilities v, sv_proposals v, store_versions.more v)"])
    simp

instance export_manifest_ext :: (countable) countable
  by (rule countable_classI [of "\<lambda>m. to_nat (mf_versions m, mf_entries m, export_manifest.more m)"]) simp

definition sample_libraries :: libraries where
  "sample_libraries = \<lparr> lib_sha = sample_sha, lib_backup = Some, lib_intact = (\<lambda>_. Some True), lib_version = (\<lambda>_. 1),
     lib_dump = (\<lambda>_. []), lib_write = (\<lambda>m. replicate (to_nat m) (CHR ''x'')),
     lib_read = (\<lambda>s. Some (from_nat (length s))) \<rparr>"

lemma sample_libraries_ok: "hash_ok (lib_sha sample_libraries)" "lib_read sample_libraries (lib_write sample_libraries m) = Some m"
  by (simp_all add: sample_libraries_def)

definition sample_tail :: string where
  "sample_tail = concat (replicate 31 ''61'')"

lemma sample_tail_facts: "length sample_tail = 62" "all_in hex_chars (''61'' @ sample_tail)"
    "sample_digest = ''sha256:'' @ ''61'' @ sample_tail"
  by code_simp+

definition sample_object :: "string list" where
  "sample_object = [''artifacts'', ''61'', sample_tail]"

definition sample_tree :: dir_tree where
  "sample_tree = [([''events.sqlite3''], FileEntry ''ledger''), ([''artifacts''], DirEntry), ([''artifacts'', ''61''], DirEntry),
     (sample_object, FileEntry ''hello'')]"

lemma sample_tree_wf: "wf_tree sample_tree"
proof -
  have "\<exists>e'. map_of sample_tree (take n p) = Some e' \<and> is_directory e'"
    if "(p, e) \<in> set sample_tree" "0 < n" "n < length p" for p e n
  proof -
    have "n = 1 \<or> n = 2" using that by (auto simp: sample_tree_def sample_object_def)
    then show ?thesis using that by (auto simp: sample_tree_def sample_object_def is_directory_def)
  qed
  moreover have "distinct (map fst sample_tree)" by (simp add: sample_tree_def sample_object_def)
  ultimately show ?thesis by (auto simp: wf_tree_def)
qed

lemma sample_collected: "\<exists>m files. collect_export sample_libraries Some sample_tree = Inr (m, files)"
proof -
  have d: "present_databases sample_tree = [(''events'', ''events.sqlite3'', ''ledger'')]"
    by (simp add: present_databases_def databases_def map_filter_simps tree_file_def sample_tree_def sample_object_def file_bytes_def)
  have a: "artifact_paths sample_tree = [(sample_object, FileEntry ''hello'')]"
    by (simp add: artifact_paths_def sample_tree_def sample_object_def)
  have e: "export_artifact sample_libraries Some (sample_object, FileEntry ''hello'') = Inr (sample_object, ''hello'', ''hello'')"
    using sample_tail_facts
    by (simp add: export_artifact_def sample_object_def artifact_relative_path_def sample_libraries_def)
  have b: "export_database sample_libraries (''events'', ''events.sqlite3'', ''ledger'') =
      Inr ((''events'', 1), [''databases'', ''events.sqlite3''], ''ledger'', ''ledger'')"
    by (simp add: export_database_def backup_sqlite_def sample_libraries_def)
  show ?thesis
    unfolding collect_export_def artifacts_exported [OF sample_tree_wf] d a
    by (simp add: e b export_version_def current_versions_def)
qed

theorem export_restores_witness:
  "\<exists>m p' bundle q' files. export_workspace sample_libraries Some (\<lambda>_. False) [''data''] (Some sample_tree) [''exports''] False
      \<lparr> pl_target = None, pl_aside = None, pl_staging = None \<rparr> = (Inr m, p') \<and> pl_target p' = Some bundle \<and>
     restore_workspace sample_libraries Some (\<lambda>_. False) [''exports''] bundle [''data'']
      \<lparr> pl_target = Some [], pl_aside = None, pl_staging = None \<rparr> = (Inr m, q') \<and> pl_target q' = Some files \<and>
     tree_file files [''events.sqlite3''] = Some ''ledger'' \<and> map_of files sample_object = Some (FileEntry ''hello'')"
proof -
  obtain m fs where c: "collect_export sample_libraries Some sample_tree = Inr (m, fs)" using sample_collected by blast
  obtain p' where e: "export_workspace sample_libraries Some (\<lambda>_. False) [''data''] (Some sample_tree) [''exports''] False
      \<lparr> pl_target = None, pl_aside = None, pl_staging = None \<rparr> = (Inr m, p')"
    using c by (simp add: export_workspace_def publish_directory_def move_in_def lies_within_def)
  have s: "\<not> lies_within [''data''] [''exports'']" "\<not> lies_within [''exports''] [''data'']" by (simp_all add: lies_within_def)
  have t: "(''events'', ''events.sqlite3'') \<in> set databases"
    "Option.bind (tree_file sample_tree [''events.sqlite3'']) (lib_backup sample_libraries) = Some ''ledger''"
    "map_of sample_tree sample_object = Some (FileEntry ''hello'')"
    by (simp_all add: databases_def tree_file_def sample_tree_def sample_object_def file_bytes_def sample_libraries_def)
  from export_restores [OF sample_libraries_ok(1) sample_libraries_ok(2) sample_tree_wf e s,
      where q = "\<lparr> pl_target = Some [], pl_aside = None, pl_staging = None \<rparr>"]
  show ?thesis using e t unfolding sample_object_def by fastforce
qed

text \<open>A restore whose second rename fails leaves the old workspace.\<close>

theorem restore_all_or_nothing_witness:
  "\<exists>bundle res p'. restore_workspace sample_libraries Some (\<lambda>n. n = 1) [''exports''] bundle [''data'']
      \<lparr> pl_target = Some sample_tree, pl_aside = None, pl_staging = None \<rparr> = (Inl res, p') \<and> res = RestoreSystem \<and>
     pl_target p' = Some sample_tree"
proof -
  obtain m fs where c: "collect_export sample_libraries Some sample_tree = Inr (m, fs)" using sample_collected by blast
  obtain stores artifacts where x: "map_result (export_database sample_libraries) (present_databases sample_tree) = Inr stores"
    "map_result (export_artifact sample_libraries Some) (sort_key fst (artifact_paths sample_tree)) = Inr artifacts"
    "\<And>s f. (s, f) \<in> set databases \<Longrightarrow> export_version (map fst stores) s = 1"
    by (rule collect_export_Inr [OF c sample_tree_wf]) blast
  note g = export_items_good [OF x sample_tree_wf]
  let ?items = "export_items stores artifacts"
  have i: "inspect_workspace_export sample_libraries (bundle_of sample_libraries ?items) = Inr (manifest_of sample_libraries ?items)"
    by (rule bundle_inspected [OF g sample_libraries_ok])
  obtain p' where r: "restore_workspace sample_libraries Some (\<lambda>n. n = 1) [''exports''] (bundle_of sample_libraries ?items) [''data'']
      \<lparr> pl_target = Some sample_tree, pl_aside = None, pl_staging = None \<rparr> = (Inl RestoreSystem, p')"
    using i bundle_restored [OF g] by (simp add: restore_workspace_def lies_within_def move_in_def Let_def)
  from restore_all_or_nothing [OF r] show ?thesis using r by auto
qed

end
