(* ===== verification/Workspace_Routes.thy ===== *)
theory Workspace_Routes
  imports Workspace_Restore Workspace_Auth "HOL-Library.Product_Lexorder"
begin

text \<open>
  The workspace routes, \<open>workspaces/routes.py\<close>: export, the latest export, and restore, over the
  directories below the managed export root.  What each directory holds and how it resolves is part
  of the state; \<open>None\<close> is an export root that does not exist.
\<close>

section \<open>The managed exports\<close>

record managed_export =
  me_name :: string
  me_is_dir :: bool
  me_inside :: bool
  me_modified :: nat
  me_tree :: dir_tree

type_synonym export_root = "managed_export list option"

definition find_export :: "export_root \<Rightarrow> string \<Rightarrow> managed_export option" where
  "find_export exports name = Option.bind exports (find (\<lambda>x. me_name x = name))"

definition managed_bundle :: "export_root \<Rightarrow> string \<Rightarrow> dir_tree option" where
  "managed_bundle exports export_id =
     (case find_export exports export_id of
        None \<Rightarrow> None
      | Some x \<Rightarrow> if me_is_dir x \<and> me_inside x then Some (me_tree x) else None)"

datatype export_reason = ExportMissing | ExportInvalid

definition is_export_id :: "string \<Rightarrow> bool" where
  "is_export_id s \<longleftrightarrow> tagged_id ''exp'' s"

text \<open>\<open>sorted(..., key=(mtime, name), reverse=True)[0]\<close>: the last of the greatest\<close>

definition newest :: "managed_export list \<Rightarrow> managed_export option" where
  "newest candidates =
     (case sort_key (\<lambda>x. (me_modified x, me_name x)) candidates of [] \<Rightarrow> None | xs \<Rightarrow> Some (last xs))"

text \<open>A response whose identity its contract rejects raises.\<close>

definition latest_export ::
    "libraries \<Rightarrow> workspace_auth \<Rightarrow> string option \<Rightarrow> export_root
      \<Rightarrow> route_failure + export_reason + string \<times> export_manifest" where
  "latest_export L auth authorization exports =
     try_bind (require_principal auth authorization) (\<lambda>_.
       (case exports of
          None \<Rightarrow> Inr (Inl ExportMissing)
        | Some directories \<Rightarrow>
           (case newest (filter (\<lambda>x. starts_with ''exp_'' (me_name x) \<and> me_is_dir x) directories) of
              None \<Rightarrow> Inr (Inl ExportMissing)
            | Some x \<Rightarrow>
               (case managed_bundle exports (me_name x) of
                  None \<Rightarrow> Inr (Inl ExportInvalid)
                | Some bundle \<Rightarrow>
                   (case inspect_workspace_export L bundle of
                      Inl e \<Rightarrow> Inr (Inl ExportInvalid)
                    | Inr m \<Rightarrow> if is_export_id (me_name x) then Inr (Inr (me_name x, m)) else Inl ServerError)))))"

section \<open>Creating and restoring\<close>

text \<open>The errors that are \<open>WorkspaceExportError\<close> and \<open>WorkspaceRestoreError\<close>; any other is not translated.\<close>

definition export_failure :: "export_error \<Rightarrow> route_failure" where
  "export_failure e =
     (if e \<in> {BackupFailed, VersionsRejected, ExportSystem} then ServerError
      else HttpFailure 409 ''workspace_export_failed'')"

definition restore_failure :: "restore_error \<Rightarrow> route_failure" where
  "restore_failure e =
     (if e \<in> {RestoreSystem, StagedPathInvalid} then ServerError
      else HttpFailure 409 ''workspace_restore_failed'')"

text \<open>The place an export is published to, and the exports after it; \<open>now\<close> is the time of the new directory.\<close>

definition export_place :: "export_root \<Rightarrow> string \<Rightarrow> place" where
  "export_place exports export_id =
     \<lparr> pl_target = map_option me_tree (find_export exports export_id), pl_aside = None, pl_staging = None \<rparr>"

definition add_export :: "export_root \<Rightarrow> string \<Rightarrow> nat \<Rightarrow> dir_tree \<Rightarrow> export_root" where
  "add_export exports export_id now bundle =
     Some (\<lparr> me_name = export_id, me_is_dir = True, me_inside = True, me_modified = now, me_tree = bundle \<rparr> #
       (case exports of None \<Rightarrow> [] | Some xs \<Rightarrow> xs))"

definition create_export ::
    "libraries \<Rightarrow> (string \<Rightarrow> string option) \<Rightarrow> (nat \<Rightarrow> bool) \<Rightarrow> workspace_auth \<Rightarrow> string option \<Rightarrow> string list
      \<Rightarrow> dir_tree option \<Rightarrow> nat \<Rightarrow> string \<Rightarrow> export_root \<Rightarrow> (route_failure + string \<times> export_manifest) \<times> export_root" where
  "create_export L copy fails auth authorization data_root data now request_id exports =
     (case require_principal auth authorization of
        Inl e \<Rightarrow> (Inl e, exports)
      | Inr _ \<Rightarrow>
          if \<not> tagged_id ''evt'' request_id then (Inl Unprocessable, exports)
          else
            let export_id = ''exp_'' @ remove_prefix ''evt_'' request_id;
                destination = butlast data_root @ [''.oscillink-exports'', export_id] in
            (case export_workspace L copy fails data_root data destination False (export_place exports export_id) of
               (Inl e, p) \<Rightarrow> (Inl (export_failure e), exports)
             | (Inr m, p) \<Rightarrow>
                 (Inr (export_id, m),
                  case pl_target p of None \<Rightarrow> exports | Some bundle \<Rightarrow> add_export exports export_id now bundle)))"

definition restore_export ::
    "libraries \<Rightarrow> (string \<Rightarrow> string option) \<Rightarrow> (nat \<Rightarrow> bool) \<Rightarrow> workspace_auth \<Rightarrow> string option \<Rightarrow> string list
      \<Rightarrow> string \<Rightarrow> export_root \<Rightarrow> place \<Rightarrow> (route_failure + string \<times> export_manifest) \<times> place" where
  "restore_export L copy fails auth authorization data_root export_id exports p =
     (case require_principal auth authorization of
        Inl e \<Rightarrow> (Inl e, p)
      | Inr _ \<Rightarrow>
          if \<not> is_export_id export_id then (Inl Unprocessable, p)
          else (case managed_bundle exports export_id of
              None \<Rightarrow> (Inl (HttpFailure 404 ''workspace_export_not_found''), p)
            | Some bundle \<Rightarrow>
               (case restore_workspace L copy fails (butlast data_root @ [''.oscillink-exports'', export_id]) bundle data_root p of
                  (Inl e, p') \<Rightarrow> (Inl (restore_failure e), p')
                | (Inr m, p') \<Rightarrow> (Inr (export_id, m), p'))))"

section \<open>Facts\<close>

text \<open>Neither route touches the workspace or the exports without the credential.\<close>

lemma workspace_routes_need_credential:
  assumes "require_principal auth authorization = Inl e"
  shows "create_export L copy fails auth authorization data_root data now request_id exports = (Inl e, exports)"
    "restore_export L copy fails auth authorization data_root export_id exports p = (Inl e, p)"
    "latest_export L auth authorization exports = Inl e"
  using assms by (simp_all add: create_export_def restore_export_def latest_export_def)

text \<open>An export repeated under its request is refused, not replayed.\<close>

lemma repeated_export_refused:
  assumes "require_principal auth authorization = Inr u" and "tagged_id ''evt'' request_id"
    and "find_export exports (''exp_'' @ remove_prefix ''evt_'' request_id) = Some x"
  shows "snd (create_export L copy fails auth authorization data_root data now request_id exports) = exports \<and>
    (\<exists>e. fst (create_export L copy fails auth authorization data_root data now request_id exports) = Inl e)"
  using assms
  by (auto simp: create_export_def export_workspace_def publish_directory_def export_place_def Let_def
      split: option.splits sum.splits prod.splits)

text \<open>
  A directory of the export root whose name only begins like that of an export, and whose bundle is
  valid, makes the latest export fail when it is the newest.
\<close>

lemma stray_export_breaks_latest:
  assumes "require_principal auth authorization = Inr u" and "\<not> is_export_id name" and "starts_with ''exp_'' name"
    and "inspect_workspace_export L bundle = Inr m"
  shows "latest_export L auth authorization
    (Some [\<lparr> me_name = name, me_is_dir = True, me_inside = True, me_modified = t, me_tree = bundle \<rparr>]) = Inl ServerError"
  using assms by (simp add: latest_export_def newest_def managed_bundle_def find_export_def)

end
