(* ===== verification/Evaluation_Contracts.thy ===== *)
theory Evaluation_Contracts
  imports Chat_Contracts
begin

text \<open>
  The contracts of the longitudinal evaluation, \<open>evaluation/contracts.py\<close>: the four conditions, the
  shared budget, manifests, fixtures with their labels, the case an executor is shown, its output and
  the scores.  A validator is a predicate on the record it guards.  Scores are exact fractions, where
  the code has the nearest double.
\<close>

section \<open>Conditions and budgets\<close>

datatype eval_condition = NoMemory | RawTranscript | GeneratedSummary | ApprovedLexical

definition all_conditions :: "eval_condition list" where
  "all_conditions = [NoMemory, RawTranscript, GeneratedSummary, ApprovedLexical]"

record eval_budget =
  eb_context_units :: int
  eb_output_tokens :: int
  eb_seconds :: int

definition valid_budget :: "eval_budget \<Rightarrow> bool" where
  "valid_budget b \<longleftrightarrow>
     1 \<le> eb_context_units b \<and> eb_context_units b \<le> 1000000 \<and>
     1 \<le> eb_output_tokens b \<and> eb_output_tokens b \<le> 1000000 \<and>
     1 \<le> eb_seconds b \<and> eb_seconds b \<le> 86400"

section \<open>Manifests and fixtures\<close>

text \<open>\<open>^[a-z0-9][a-z0-9-]{2,63}$\<close>\<close>

definition is_suite_id :: "string \<Rightarrow> bool" where
  "is_suite_id s \<longleftrightarrow> is_slug (lower_chars @ digit_chars) (lower_chars @ digit_chars @ ''-'') 2 63 s"

text \<open>\<open>^[0-9]+\.[0-9]+\.[0-9]+$\<close>\<close>

definition is_version :: "string \<Rightarrow> bool" where
  "is_version s \<longleftrightarrow> (let parts = split_on (CHR ''.'') s in
     length parts = 3 \<and> list_all (\<lambda>w. w \<noteq> [] \<and> all_in digit_chars w) parts)"

text \<open>\<open>^[0-9a-f]{7,64}$\<close>\<close>

definition is_revision :: "string \<Rightarrow> bool" where
  "is_revision s \<longleftrightarrow> 7 \<le> length s \<and> length s \<le> 64 \<and> all_in hex_chars s"

record eval_manifest =
  em_suite :: string
  em_version :: string
  em_fixture_path :: string
  em_fixture_hash :: string
  em_conditions :: "eval_condition list"
  em_budget :: eval_budget

definition valid_eval_manifest :: "eval_manifest \<Rightarrow> bool" where
  "valid_eval_manifest m \<longleftrightarrow>
     is_suite_id (em_suite m) \<and> is_version (em_version m) \<and>
     1 \<le> length (em_fixture_path m) \<and> length (em_fixture_path m) \<le> 512 \<and>
     is_digest (em_fixture_hash m) \<and> em_conditions m = all_conditions \<and> valid_budget (em_budget m)"

record eval_evidence =
  ee_ref :: string
  ee_text :: string

definition valid_evidence :: "eval_evidence \<Rightarrow> bool" where
  "valid_evidence e \<longleftrightarrow>
     1 \<le> length (ee_ref e) \<and> length (ee_ref e) \<le> 256 \<and> 1 \<le> length (ee_text e) \<and> length (ee_text e) \<le> 65536"

record eval_labels =
  el_accepted :: "string list"
  el_relevant :: "string list"
  el_obsolete :: "string list"
  el_contradiction :: "string list"
  el_injection :: "string list"
  el_abstention :: bool

record eval_fixture =
  ef_case :: string
  ef_question :: string
  ef_contexts :: "(eval_condition \<times> eval_evidence list) list"
  ef_labels :: eval_labels

definition valid_question :: "string \<Rightarrow> bool" where
  "valid_question q \<longleftrightarrow> 1 \<le> length q \<and> length q \<le> 16384"

definition valid_fixture :: "eval_fixture \<Rightarrow> bool" where
  "valid_fixture f \<longleftrightarrow>
     is_suite_id (ef_case f) \<and> valid_question (ef_question f) \<and>
     list_all (\<lambda>(_, es). list_all valid_evidence es) (ef_contexts f) \<and>
     set (map fst (ef_contexts f)) = set all_conditions \<and> el_accepted (ef_labels f) \<noteq> []"

section \<open>Cases, outputs and scores\<close>

text \<open>What an executor is shown: the labels are absent.\<close>

record eval_case =
  ec_case :: string
  ec_question :: string
  ec_context :: "eval_evidence list"
  ec_budget :: eval_budget

text \<open>\<open>agent_case\<close>: the whole context of a condition; \<open>None\<close> is its \<open>KeyError\<close>.\<close>

definition agent_case :: "eval_fixture \<Rightarrow> eval_condition \<Rightarrow> eval_budget \<Rightarrow> eval_case option" where
  "agent_case f condition b =
     map_option (\<lambda>context. \<lparr> ec_case = ef_case f, ec_question = ef_question f, ec_context = context, ec_budget = b \<rparr>)
       (map_of (ef_contexts f) condition)"

record eval_output =
  eo_answer :: string
  eo_citations :: "string list"
  eo_latency :: int
  eo_tokens :: int
  eo_usage :: "int option"
  eo_cost :: "pyfloat option"
  eo_burden :: "int option"

definition negative_cost :: "pyfloat \<Rightarrow> bool" where
  "negative_cost c = (case c of Finite r \<Rightarrow> r < 0 | NegInf \<Rightarrow> True | _ \<Rightarrow> False)"

definition valid_output :: "eval_output \<Rightarrow> bool" where
  "valid_output o' \<longleftrightarrow>
     1 \<le> length (eo_answer o') \<and> length (eo_answer o') \<le> 1048576 \<and>
     list_all (\<lambda>c. 1 \<le> length c \<and> length c \<le> 256) (eo_citations o') \<and> 0 \<le> eo_latency o' \<and> 0 \<le> eo_tokens o' \<and>
     opt_ok (\<lambda>n. 0 \<le> n) (eo_usage o') \<and> opt_ok (\<lambda>c. \<not> negative_cost c) (eo_cost o') \<and>
     opt_ok (\<lambda>n. 0 \<le> n) (eo_burden o')"

record eval_metrics =
  ex_correctness :: rat
  ex_citation_precision :: rat
  ex_evidence_recall :: rat
  ex_obsolete_reuse :: rat
  ex_contradiction :: "rat option"
  ex_abstention :: "rat option"
  ex_unsafe :: rat
  ex_latency :: int
  ex_context_units :: int
  ex_output_tokens :: int
  ex_usage :: "int option"
  ex_cost :: "pyfloat option"
  ex_burden :: "int option"
  ex_provenance_failures :: int

definition is_score :: "rat \<Rightarrow> bool" where
  "is_score r \<longleftrightarrow> 0 \<le> r \<and> r \<le> 1"

definition valid_metrics :: "eval_metrics \<Rightarrow> bool" where
  "valid_metrics x \<longleftrightarrow>
     is_score (ex_correctness x) \<and> is_score (ex_citation_precision x) \<and> is_score (ex_evidence_recall x) \<and>
     is_score (ex_obsolete_reuse x) \<and> opt_ok is_score (ex_contradiction x) \<and> opt_ok is_score (ex_abstention x) \<and>
     is_score (ex_unsafe x) \<and> 0 \<le> ex_latency x \<and> 0 \<le> ex_context_units x \<and> 0 \<le> ex_output_tokens x \<and>
     opt_ok (\<lambda>n. 0 \<le> n) (ex_usage x) \<and> opt_ok (\<lambda>c. \<not> negative_cost c) (ex_cost x) \<and>
     opt_ok (\<lambda>n. 0 \<le> n) (ex_burden x) \<and> 0 \<le> ex_provenance_failures x"

section \<open>Results and reports\<close>

datatype eval_state = Succeeded | Failed_case

record eval_result =
  er_case :: string
  er_condition :: eval_condition
  er_state :: eval_state
  er_output :: "eval_output option"
  er_metrics :: "eval_metrics option"
  er_error :: "string option"

definition valid_result :: "eval_result \<Rightarrow> bool" where
  "valid_result r \<longleftrightarrow>
     is_suite_id (er_case r) \<and> opt_ok valid_output (er_output r) \<and> opt_ok valid_metrics (er_metrics r) \<and>
     opt_ok (\<lambda>t. 1 \<le> length t \<and> length t \<le> 256) (er_error r)"

record eval_report =
  rp_suite :: string
  rp_version :: string
  rp_manifest_hash :: string
  rp_fixture_hash :: string
  rp_revision :: string
  rp_dirty :: bool
  rp_provider :: execution_identity
  rp_smoke :: bool
  rp_budget :: eval_budget
  rp_results :: "eval_result list"
  rp_passed :: bool

definition valid_report :: "eval_report \<Rightarrow> bool" where
  "valid_report p \<longleftrightarrow>
     is_digest (rp_manifest_hash p) \<and> is_digest (rp_fixture_hash p) \<and> is_revision (rp_revision p) \<and>
     valid_execution_identity (rp_provider p) \<and> valid_budget (rp_budget p) \<and> list_all valid_result (rp_results p)"

end
