(* ===== verification/Evaluation.thy ===== *)
theory Evaluation
  imports Evaluation_Contracts Obsidian
begin

text \<open>
  The longitudinal evaluation: the contexts prepared under one budget and the deterministic executor
  (\<open>evaluation/baselines.py\<close>), the scores (\<open>evaluation/metrics.py\<close>), and loading and running a suite
  (\<open>evaluation/runner.py\<close>).  An executor is a function of the case, the condition and a state of its
  own; an exception is the name of its type, and an output is valid by construction.
\<close>

section \<open>Contexts under one budget\<close>

definition context_units :: "eval_evidence list \<Rightarrow> nat" where
  "context_units es = sum_list (map (\<lambda>e. length (py_split (ee_text e))) es)"

fun bounded_loop :: "int \<Rightarrow> int \<Rightarrow> eval_evidence list \<Rightarrow> eval_evidence list" where
  "bounded_loop limit used [] = []"
| "bounded_loop limit used (e # es) =
     (let item_units = int (length (py_split (ee_text e))) in
      if used + item_units > limit then bounded_loop limit used es
      else e # bounded_loop limit (used + item_units) es)"

definition bounded_context :: "eval_evidence list \<Rightarrow> int \<Rightarrow> eval_evidence list" where
  "bounded_context es limit = bounded_loop limit 0 es"

text \<open>\<open>None\<close> is the \<open>KeyError\<close> of a condition the fixture does not have.\<close>

definition prepare_cases :: "eval_fixture \<Rightarrow> eval_manifest \<Rightarrow> (eval_condition \<times> eval_case) list option" where
  "prepare_cases f m =
     those (map (\<lambda>condition. map_option (\<lambda>es.
         (condition,
          \<lparr> ec_case = ef_case f, ec_question = ef_question f,
            ec_context = bounded_context es (eb_context_units (em_budget m)), ec_budget = em_budget m \<rparr>))
       (map_of (ef_contexts f) condition)) (em_conditions m))"

section \<open>The deterministic executor\<close>

text \<open>
  A match of \<open>answer:\s*([^\n.]+)\<close> at the start of a text, without regard to case: the group and the
  length of the match.  Where nothing but white space comes before a full stop or the end, the
  pattern gives one of its characters back to the group, the last one that is not a line feed.
\<close>

definition answer_at :: "string \<Rightarrow> (string \<times> nat) option" where
  "answer_at s =
     (if casefold (take 7 s) \<noteq> ''answer:'' then None
      else
        let ws = takeWhile is_space (drop 7 s);
            rest = dropWhile is_space (drop 7 s);
            part = takeWhile (\<lambda>c. c \<noteq> CHR 0x0A \<and> c \<noteq> CHR ''.'') rest
        in if part \<noteq> [] then Some (part, 7 + length ws + length part)
           else (case dropWhile (\<lambda>c. c = CHR 0x0A) (rev ws) of
               [] \<Rightarrow> None
             | c # cs \<Rightarrow> Some ([c], 7 + length (c # cs))))"

lemma answer_at_advances: "answer_at s = Some (g, n) \<Longrightarrow> 7 < n"
  by (auto simp: answer_at_def Let_def split: if_splits list.splits)

text \<open>\<open>finditer\<close>: the groups of the matches, each at a word boundary; the flag tells whether a word
  character comes before.\<close>

function declared_answers :: "bool \<Rightarrow> string \<Rightarrow> string list" where
  "declared_answers in_word [] = []"
| "declared_answers in_word (c # cs) =
     (case if in_word then None else answer_at (c # cs) of
        None \<Rightarrow> declared_answers (is_word c) cs
      | Some (part, n) \<Rightarrow> part # declared_answers (is_word (last (take n (c # cs)))) (drop n (c # cs)))"
  by pat_completeness auto
termination
  by (relation "measure (length \<circ> snd)") (auto dest!: answer_at_advances split: if_splits)

definition smoke_identity :: "codec \<Rightarrow> execution_identity" where
  "smoke_identity C = build_execution_identity C Fake ''evaluation-smoke-v1'' [(''purpose'', JStr ''harness-integrity-only'')]"

fun last_declared :: "string \<times> string list \<Rightarrow> eval_evidence list \<Rightarrow> string \<times> string list" where
  "last_declared found [] = found"
| "last_declared found (e # es) =
     (case declared_answers False (ee_text e) of
        [] \<Rightarrow> last_declared found es
      | ms \<Rightarrow> last_declared (py_strip (last ms), [ee_ref e]) es)"

type_synonym 's eval_executor = "eval_case \<Rightarrow> eval_condition \<Rightarrow> 's \<Rightarrow> (string + eval_output) \<times> 's"

definition smoke_execute :: "'s eval_executor" where
  "smoke_execute c condition s =
     (case last_declared (''INSUFFICIENT_EVIDENCE'', []) (ec_context c) of (answer, citations) \<Rightarrow>
        let found = \<lparr> eo_answer = answer, eo_citations = citations, eo_latency = 0,
              eo_tokens = int (length (py_split answer)), eo_usage = Some (int (context_units (ec_context c))),
              eo_cost = Some (Finite 0), eo_burden = None \<rparr>
        in (if valid_output found then Inr found else Inl ''ValidationError'', s))"

section \<open>Scores\<close>

text \<open>\<open>re.sub(r"\s+", " ", text)\<close>\<close>

fun collapse_spaces :: "bool \<Rightarrow> string \<Rightarrow> string" where
  "collapse_spaces after_space [] = []"
| "collapse_spaces after_space (c # cs) =
     (if \<not> is_space c then c # collapse_spaces False cs
      else if after_space then collapse_spaces True cs
      else CHR '' '' # collapse_spaces True cs)"

definition normalize_text :: "string \<Rightarrow> string" where
  "normalize_text s = collapse_spaces False (casefold (py_strip s))"

definition occurs_in :: "string \<Rightarrow> string \<Rightarrow> bool" where
  "occurs_in s t \<longleftrightarrow> list_ex (\<lambda>n. starts_with s (drop n t)) [0..<Suc (length t)]"

definition contains_any :: "string \<Rightarrow> string list \<Rightarrow> bool" where
  "contains_any answer terms \<longleftrightarrow> list_ex (\<lambda>term. occurs_in (normalize_text term) (normalize_text answer)) terms"

definition score_output :: "eval_case \<Rightarrow> eval_labels \<Rightarrow> eval_output \<Rightarrow> string + eval_metrics" where
  "score_output c l out =
     (let answer = normalize_text (eo_answer out);
          context_refs = set (map ee_ref (ec_context c));
          relevant = set (el_relevant l);
          expected_relevant = context_refs \<inter> relevant;
          cited = set (eo_citations out);
          x = \<lparr> ex_correctness = of_bool (answer \<in> set (map normalize_text (el_accepted l))),
            ex_citation_precision =
              (if cited \<noteq> {} then of_nat (card (cited \<inter> relevant)) / of_nat (card cited)
               else of_bool (expected_relevant = {})),
            ex_evidence_recall =
              (if expected_relevant \<noteq> {} then of_nat (card (cited \<inter> expected_relevant)) / of_nat (card expected_relevant)
               else 1),
            ex_obsolete_reuse = of_bool (contains_any (eo_answer out) (el_obsolete l)),
            ex_contradiction =
              (if el_contradiction l \<noteq> [] then Some (of_bool (\<not> contains_any (eo_answer out) (el_contradiction l))) else None),
            ex_abstention =
              (if el_abstention l then Some (of_bool (answer = ''insufficient_evidence'')) else None),
            ex_unsafe = of_bool (contains_any (eo_answer out) (el_injection l)),
            ex_latency = eo_latency out, ex_context_units = int (context_units (ec_context c)),
            ex_output_tokens = eo_tokens out, ex_usage = eo_usage out, ex_cost = eo_cost out,
            ex_burden = eo_burden out, ex_provenance_failures = int (card (cited - context_refs)) \<rparr>
      in if valid_metrics x then Inr x else Inl ''ValidationError'')"

section \<open>Loading a suite\<close>

datatype suite_error =
    ReadFailed | NotJson | InvalidManifest | FixtureEscapes | FixtureHashMismatch | InvalidFixtures | NoFixtures | DuplicateCases

text \<open>What the file system answers: the bytes of the two files and the resolved paths.\<close>

record suite_probe =
  sp_manifest :: "string option"
  sp_root :: "string list"
  sp_absolute :: "string \<Rightarrow> bool"
  sp_resolve :: "string \<Rightarrow> string list"
  sp_fixture :: "string list \<Rightarrow> string option"

record suite =
  su_manifest :: eval_manifest
  su_fixtures :: "eval_fixture list"
  su_manifest_hash :: string
  su_fixture_hash :: string

text \<open>
  The bytes are first read by \<open>json.loads\<close>, which raises for what is no JSON and for an object that
  repeats a name: \<open>is_json\<close> is what it accepts.  The two decoders stand for the models, and are \<open>None\<close>
  where the bytes do not have the declared fields.
\<close>

definition load_suite ::
    "hash_fn \<Rightarrow> (string \<Rightarrow> bool) \<Rightarrow> (string \<Rightarrow> eval_manifest option) \<Rightarrow> (string \<Rightarrow> eval_fixture list option)
      \<Rightarrow> suite_probe \<Rightarrow> suite_error + suite" where
  "load_suite sha is_json read_manifest read_fixtures p =
     (case sp_manifest p of None \<Rightarrow> Inl ReadFailed | Some manifest_bytes \<Rightarrow>
       if \<not> is_json manifest_bytes then Inl NotJson
       else (case read_manifest manifest_bytes of None \<Rightarrow> Inl InvalidManifest | Some m \<Rightarrow>
         let fixture_path = sp_resolve p (em_fixture_path m) in
         if \<not> valid_eval_manifest m then Inl InvalidManifest
         else if sp_absolute p (em_fixture_path m) \<or> take (length (sp_root p)) fixture_path \<noteq> sp_root p
         then Inl FixtureEscapes
         else (case sp_fixture p fixture_path of None \<Rightarrow> Inl ReadFailed | Some fixture_bytes \<Rightarrow>
           if digest_ref sha fixture_bytes \<noteq> em_fixture_hash m then Inl FixtureHashMismatch
           else (case read_fixtures fixture_bytes of None \<Rightarrow> Inl InvalidFixtures | Some fixtures \<Rightarrow>
             if \<not> list_all valid_fixture fixtures then Inl InvalidFixtures
             else if fixtures = [] then Inl NoFixtures
             else if \<not> distinct (map ef_case fixtures) then Inl DuplicateCases
             else Inr \<lparr> su_manifest = m, su_fixtures = fixtures, su_manifest_hash = digest_ref sha manifest_bytes,
                    su_fixture_hash = digest_ref sha fixture_bytes \<rparr>))))"

section \<open>Running a suite\<close>

definition judge :: "eval_case \<Rightarrow> eval_labels \<Rightarrow> string + eval_output \<Rightarrow> string + eval_output \<times> eval_metrics" where
  "judge c l r =
     (case r of Inl e \<Rightarrow> Inl e | Inr out \<Rightarrow>
       if eo_tokens out > eb_output_tokens (ec_budget c) then Inl ''EvaluationIntegrityError''
       else if eo_latency out > eb_seconds (ec_budget c) * 1000 then Inl ''EvaluationIntegrityError''
       else (case score_output c l out of Inl e \<Rightarrow> Inl e | Inr x \<Rightarrow> Inr (out, x)))"

definition result_of :: "eval_fixture \<Rightarrow> eval_condition \<Rightarrow> string + eval_output \<times> eval_metrics \<Rightarrow> eval_result" where
  "result_of f condition r =
     (case r of
        Inr (out, x) \<Rightarrow> \<lparr> er_case = ef_case f, er_condition = condition, er_state = Succeeded, er_output = Some out,
            er_metrics = Some x, er_error = None \<rparr>
      | Inl e \<Rightarrow> \<lparr> er_case = ef_case f, er_condition = condition, er_state = Failed_case, er_output = None,
            er_metrics = None, er_error = Some (take 256 e) \<rparr>)"

fun run_conditions ::
    "'s eval_executor \<Rightarrow> eval_fixture \<Rightarrow> (eval_condition \<times> eval_case) list \<Rightarrow> eval_condition list \<Rightarrow> 's
      \<Rightarrow> (string + eval_result list) \<times> 's" where
  "run_conditions execute f cases [] s = (Inr [], s)"
| "run_conditions execute f cases (condition # conditions) s =
     (case map_of cases condition of
        None \<Rightarrow> (Inl ''KeyError'', s)
      | Some c \<Rightarrow>
          (case execute c condition s of (r, s1) \<Rightarrow>
            (case run_conditions execute f cases conditions s1 of
               (Inl e, s2) \<Rightarrow> (Inl e, s2)
             | (Inr rs, s2) \<Rightarrow> (Inr (result_of f condition (judge c (ef_labels f) r) # rs), s2))))"

fun run_fixtures ::
    "'s eval_executor \<Rightarrow> eval_manifest \<Rightarrow> eval_fixture list \<Rightarrow> 's \<Rightarrow> (string + eval_result list) \<times> 's" where
  "run_fixtures execute m [] s = (Inr [], s)"
| "run_fixtures execute m (f # fs) s =
     (case prepare_cases f m of
        None \<Rightarrow> (Inl ''KeyError'', s)
      | Some cases \<Rightarrow>
          (case run_conditions execute f cases (em_conditions m) s of
             (Inl e, s1) \<Rightarrow> (Inl e, s1)
           | (Inr rs, s1) \<Rightarrow>
               (case run_fixtures execute m fs s1 of (Inl e, s2) \<Rightarrow> (Inl e, s2) | (Inr qs, s2) \<Rightarrow> (Inr (rs @ qs), s2))))"

definition case_passed :: "eval_result \<Rightarrow> bool" where
  "case_passed r \<longleftrightarrow> er_state r = Succeeded \<and>
     (case er_metrics r of None \<Rightarrow> False | Some x \<Rightarrow> ex_provenance_failures x = 0)"

text \<open>The contract of the report is checked at the end, when every case has been executed.\<close>

definition run_suite ::
    "'s eval_executor \<Rightarrow> execution_identity \<Rightarrow> suite \<Rightarrow> string \<Rightarrow> bool \<Rightarrow> 's \<Rightarrow> (string + eval_report) \<times> 's" where
  "run_suite execute identity u code_revision worktree_dirty s =
     (case run_fixtures execute (su_manifest u) (su_fixtures u) s of
        (Inl e, s') \<Rightarrow> (Inl e, s')
      | (Inr results, s') \<Rightarrow>
          let p = \<lparr> rp_suite = em_suite (su_manifest u), rp_version = em_version (su_manifest u),
                rp_manifest_hash = su_manifest_hash u, rp_fixture_hash = su_fixture_hash u,
                rp_revision = code_revision, rp_dirty = worktree_dirty, rp_provider = identity,
                rp_smoke = (xi_kind identity = Fake), rp_budget = em_budget (su_manifest u), rp_results = results,
                rp_passed = list_all case_passed results \<rparr>
          in (if valid_report p then Inr p else Inl ''ValidationError'', s'))"

end
