(* ===== verification/Evaluation_Report.thy ===== *)
theory Evaluation_Report
  imports Evaluation Workspace_Auth
begin

text \<open>
  What a report of the evaluation says, and the route that shows the latest one
  (\<open>evaluation/routes.py\<close>).
\<close>

section \<open>Scores are fractions\<close>

lemma of_bool_score [simp]: "is_score (of_bool b)"
  by (simp add: is_score_def)

lemma is_score_fraction: "finite A \<Longrightarrow> A \<noteq> {} \<Longrightarrow> is_score (of_nat (card (A \<inter> B)) / of_nat (card A))"
  by (simp add: is_score_def divide_le_eq_1 card_gt_0_iff card_mono)

lemma is_score_fraction': "finite A \<Longrightarrow> A \<noteq> {} \<Longrightarrow> is_score (of_nat (card (B \<inter> A)) / of_nat (card A))"
  using is_score_fraction [of A B] by (simp add: Int_commute)

lemma is_score_const [simp]: "is_score 0" "is_score 1"
  by (simp_all add: is_score_def)

text \<open>The scores of a valid output are always constructed.\<close>

lemma score_output_total:
  assumes "valid_output out"
  shows "\<exists>x. score_output c l out = Inr x \<and> valid_metrics x \<and>
    ex_provenance_failures x = int (card (set (eo_citations out) - ee_ref ` set (ec_context c)))"
  using assms is_score_fraction [of "set (eo_citations out)" "set (el_relevant l)"]
    is_score_fraction' [of "ee_ref ` set (ec_context c) \<inter> set (el_relevant l)" "set (eo_citations out)"]
  by (simp add: score_output_def Let_def valid_metrics_def valid_output_def opt_ok_def)

lemma score_output_Inr:
  assumes "score_output c l out = Inr x"
  shows "valid_metrics x" "ex_provenance_failures x = int (card (set (eo_citations out) - ee_ref ` set (ec_context c)))"
    "ex_context_units x = int (context_units (ec_context c))"
    "ex_output_tokens x = eo_tokens out" "ex_latency x = eo_latency out"
  using assms by (auto simp: score_output_def Let_def split: if_splits)

section \<open>The contexts\<close>

lemma bounded_loop_fits: "used \<le> limit \<Longrightarrow> used + int (context_units (bounded_loop limit used es)) \<le> limit"
  by (induction limit used es rule: bounded_loop.induct) (auto simp: context_units_def Let_def algebra_simps)

text \<open>The selected evidence fits the budget, in the order it is given.\<close>

lemma bounded_context_fits: "0 \<le> limit \<Longrightarrow> int (context_units (bounded_context es limit)) \<le> limit"
  using bounded_loop_fits [of 0 limit es] by (simp add: bounded_context_def)

lemma bounded_loop_subset: "set (bounded_loop limit used es) \<subseteq> set es"
  by (induction limit used es rule: bounded_loop.induct) (auto simp: Let_def)

text \<open>A context that fits is shown whole.\<close>

lemma bounded_loop_all: "used + int (context_units es) \<le> limit \<Longrightarrow> bounded_loop limit used es = es"
  by (induction es arbitrary: used) (auto simp: context_units_def Let_def algebra_simps)

lemma bounded_context_all: "int (context_units es) \<le> limit \<Longrightarrow> bounded_context es limit = es"
  by (simp add: bounded_context_def bounded_loop_all)

section \<open>Every case is executed\<close>

text \<open>The case of a fixture under a condition, and the result of it.\<close>

definition shown_case :: "eval_manifest \<Rightarrow> eval_fixture \<Rightarrow> eval_condition \<Rightarrow> eval_case" where
  "shown_case m f condition =
     \<lparr> ec_case = ef_case f, ec_question = ef_question f,
       ec_context = bounded_context (the (map_of (ef_contexts f) condition)) (eb_context_units (em_budget m)),
       ec_budget = em_budget m \<rparr>"

lemma those_map_Some: "those (map (\<lambda>x. Some (f x)) xs) = Some (map f xs)"
  by (induction xs) auto

lemma map_of_all_conditions:
  assumes "set (map fst xs) = set all_conditions"
  shows "\<exists>y. map_of xs condition = Some y"
proof -
  have "condition \<in> set all_conditions" by (cases condition) (auto simp: all_conditions_def)
  then have "condition \<in> fst ` set xs" using assms by simp
  then show ?thesis by (metis domD dom_map_of_conv_image_fst)
qed

lemma prepare_cases_valid:
  assumes "valid_fixture f"
  shows "prepare_cases f m = Some (map (\<lambda>c. (c, shown_case m f c)) (em_conditions m))"
proof -
  have shown: "map_option (\<lambda>es. (c, \<lparr> ec_case = ef_case f, ec_question = ef_question f,
          ec_context = bounded_context es (eb_context_units (em_budget m)), ec_budget = em_budget m \<rparr>))
        (map_of (ef_contexts f) c) = Some (c, shown_case m f c)" for c
    using map_of_all_conditions [of "ef_contexts f" c] assms by (auto simp: valid_fixture_def shown_case_def)
  show ?thesis by (simp only: prepare_cases_def shown those_map_Some)
qed

lemma run_conditions_results:
  assumes "\<And>c. c \<in> set conditions \<Longrightarrow> map_of cases c = Some (shown c)"
  shows "\<exists>rs s'. run_conditions execute f cases conditions s = (Inr rs, s') \<and>
    list_all2 (\<lambda>c r. \<exists>t. r = result_of f c (judge (shown c) (ef_labels f) t)) conditions rs"
  using assms
proof (induction conditions arbitrary: s)
  case (Cons c conditions)
  obtain t s1 where t: "execute (shown c) c s = (t, s1)" by (cases "execute (shown c) c s")
  obtain rs s' where "run_conditions execute f cases conditions s1 = (Inr rs, s')"
      "list_all2 (\<lambda>c r. \<exists>t. r = result_of f c (judge (shown c) (ef_labels f) t)) conditions rs"
    using Cons.IH [of s1] Cons.prems by auto
  then show ?case using t Cons.prems [of c] by auto
qed simp

lemma run_fixtures_results:
  assumes "list_all valid_fixture fs"
  shows "\<exists>rs s'. run_fixtures execute m fs s = (Inr rs, s') \<and>
    list_all2 (\<lambda>(f, c) r. \<exists>t. r = result_of f c (judge (shown_case m f c) (ef_labels f) t))
      (List.product fs (em_conditions m)) rs"
  using assms
proof (induction fs arbitrary: s)
  case (Cons f fs)
  let ?cases = "map (\<lambda>c. (c, shown_case m f c)) (em_conditions m)"
  have "map_of ?cases c = Some (shown_case m f c)" if "c \<in> set (em_conditions m)" for c
    using that by (simp add: map_of_map_restrict)
  then obtain rs s1 where r: "run_conditions execute f ?cases (em_conditions m) s = (Inr rs, s1)"
      "list_all2 (\<lambda>c r. \<exists>t. r = result_of f c (judge (shown_case m f c) (ef_labels f) t)) (em_conditions m) rs"
    using run_conditions_results [of "em_conditions m" ?cases "shown_case m f" execute f s] by blast
  obtain qs s2 where q: "run_fixtures execute m fs s1 = (Inr qs, s2)"
      "list_all2 (\<lambda>(f, c) r. \<exists>t. r = result_of f c (judge (shown_case m f c) (ef_labels f) t))
        (List.product fs (em_conditions m)) qs"
    using Cons.IH [of s1] Cons.prems by auto
  have "list_all2 (\<lambda>(f, c) r. \<exists>t. r = result_of f c (judge (shown_case m f c) (ef_labels f) t))
      (map (Pair f) (em_conditions m) @ List.product fs (em_conditions m)) (rs @ qs)"
    by (rule list_all2_appendI) (use r(2) q(2) in \<open>simp_all add: list_all2_map1\<close>)
  then show ?case using r(1) q(1) prepare_cases_valid Cons.prems by simp
qed simp

lemma run_suite_results:
  assumes "list_all valid_fixture (su_fixtures u)" and "run_suite execute identity u code_revision dirty s = (Inr p, s')"
  obtains "valid_report p" "rp_passed p = list_all case_passed (rp_results p)"
    "list_all2 (\<lambda>(f, c) r. \<exists>t. r = result_of f c (judge (shown_case (su_manifest u) f c) (ef_labels f) t))
      (List.product (su_fixtures u) (em_conditions (su_manifest u))) (rp_results p)"
proof -
  obtain rs s1 where r: "run_fixtures execute (su_manifest u) (su_fixtures u) s = (Inr rs, s1)"
      "list_all2 (\<lambda>(f, c) r. \<exists>t. r = result_of f c (judge (shown_case (su_manifest u) f c) (ef_labels f) t))
        (List.product (su_fixtures u) (em_conditions (su_manifest u))) rs"
    using run_fixtures_results [OF assms(1), of execute "su_manifest u" s] by blast
  then have "valid_report p" "rp_results p = rs" "rp_passed p = list_all case_passed rs"
    using assms(2) by (auto simp: run_suite_def Let_def split: if_splits)
  then show thesis using that r(2) by simp
qed

text \<open>What a suite promises once it is loaded.\<close>

lemma load_suite_Inr:
  assumes "load_suite sha is_json read_manifest read_fixtures d = Inr u"
  obtains manifest_bytes fixture_bytes where "sp_manifest d = Some manifest_bytes"
    "read_manifest manifest_bytes = Some (su_manifest u)" "valid_eval_manifest (su_manifest u)"
    "sp_fixture d (sp_resolve d (em_fixture_path (su_manifest u))) = Some fixture_bytes"
    "take (length (sp_root d)) (sp_resolve d (em_fixture_path (su_manifest u))) = sp_root d"
    "read_fixtures fixture_bytes = Some (su_fixtures u)"
    "digest_ref sha fixture_bytes = em_fixture_hash (su_manifest u)"
    "list_all valid_fixture (su_fixtures u)" "su_fixtures u \<noteq> []" "distinct (map ef_case (su_fixtures u))"
    "su_manifest_hash u = digest_ref sha manifest_bytes" "su_fixture_hash u = digest_ref sha fixture_bytes"
proof -
  obtain mb where mb: "sp_manifest d = Some mb" using assms by (auto simp: load_suite_def split: option.splits)
  obtain m where m: "read_manifest mb = Some m" using assms mb by (auto simp: load_suite_def split: option.splits if_splits)
  let ?fp = "sp_resolve d (em_fixture_path m)"
  obtain fb where fb: "sp_fixture d ?fp = Some fb"
    using assms mb m by (auto simp: load_suite_def Let_def split: option.splits if_splits)
  obtain fs where fs: "read_fixtures fb = Some fs"
    using assms mb m fb by (auto simp: load_suite_def Let_def split: option.splits if_splits)
  have "u = \<lparr> su_manifest = m, su_fixtures = fs, su_manifest_hash = digest_ref sha mb, su_fixture_hash = digest_ref sha fb \<rparr>"
    "valid_eval_manifest m" "take (length (sp_root d)) ?fp = sp_root d" "digest_ref sha fb = em_fixture_hash m"
    "list_all valid_fixture fs" "fs \<noteq> []" "distinct (map ef_case fs)"
    using assms mb m fb fs by (auto simp: load_suite_def Let_def split: if_splits)
  then show thesis using that mb m fb fs by simp
qed

section \<open>What a report says\<close>

lemma judge_Inr:
  assumes "judge c l t = Inr (out, x)"
  shows "eo_tokens out \<le> eb_output_tokens (ec_budget c)" "eo_latency out \<le> eb_seconds (ec_budget c) * 1000"
    "score_output c l out = Inr x"
  using assms by (auto simp: judge_def split: sum.splits if_splits)

text \<open>The result of one case: passed exactly where an admissible output cites nothing but what was shown.\<close>

lemma case_passed_iff:
  "case_passed (result_of f condition (judge c l t)) \<longleftrightarrow>
    (\<exists>out x. judge c l t = Inr (out, x) \<and> set (eo_citations out) \<subseteq> ee_ref ` set (ec_context c))"
proof (cases "judge c l t")
  case (Inl e)
  then show ?thesis by (simp add: case_passed_def result_of_def)
next
  case (Inr a)
  then obtain out x where a: "judge c l t = Inr (out, x)" by (cases a) simp
  have "ex_provenance_failures x = int (card (set (eo_citations out) - ee_ref ` set (ec_context c)))"
    using score_output_Inr(2) [OF judge_Inr(3) [OF a]] .
  then show ?thesis by (simp add: a case_passed_def result_of_def)
qed

text \<open>The evidence an executor is shown for the case of a result.\<close>

definition evidence_shown :: "suite \<Rightarrow> eval_result \<Rightarrow> eval_evidence list" where
  "evidence_shown u r =
     (case find (\<lambda>f. ef_case f = er_case r) (su_fixtures u) of
        None \<Rightarrow> []
      | Some f \<Rightarrow>
          (case map_of (ef_contexts f) (er_condition r) of
             None \<Rightarrow> []
           | Some es \<Rightarrow> bounded_context es (eb_context_units (em_budget (su_manifest u)))))"

lemma find_case:
  "distinct (map ef_case fs) \<Longrightarrow> f \<in> set fs \<Longrightarrow> find (\<lambda>g. ef_case g = ef_case f) fs = Some f"
  by (induction fs) auto

lemma result_of_simps [simp]:
  "er_case (result_of f c r) = ef_case f" "er_condition (result_of f c r) = c"
  by (simp_all add: result_of_def split: sum.splits prod.splits)

lemma evidence_of_result:
  assumes "distinct (map ef_case (su_fixtures u))" and "f \<in> set (su_fixtures u)" and "valid_fixture f"
  shows "evidence_shown u (result_of f c r) = ec_context (shown_case (su_manifest u) f c)"
  using find_case [OF assms(1,2)] map_of_all_conditions [of "ef_contexts f" c] assms(3)
  by (auto simp: evidence_shown_def shown_case_def valid_fixture_def)

lemma result_succeeded:
  assumes "er_state (result_of f condition (judge c l t)) = Succeeded"
  obtains out x where "judge c l t = Inr (out, x)"
  using assms by (cases "judge c l t") (auto simp: result_of_def)

text \<open>A report of a suite: the results are those of its cases, in order.\<close>

definition report_of :: "suite \<Rightarrow> eval_report \<Rightarrow> bool" where
  "report_of u p \<longleftrightarrow>
     list_all valid_fixture (su_fixtures u) \<and> distinct (map ef_case (su_fixtures u)) \<and>
     valid_budget (em_budget (su_manifest u)) \<and> rp_passed p = list_all case_passed (rp_results p) \<and>
     list_all2 (\<lambda>(f, c) r. \<exists>t. r = result_of f c (judge (shown_case (su_manifest u) f c) (ef_labels f) t))
       (List.product (su_fixtures u) all_conditions) (rp_results p)"

lemma report_of_run:
  assumes "load_suite sha is_json read_manifest read_fixtures d = Inr u"
    and "run_suite execute identity u code_revision dirty s = (Inr p, s')"
  shows "report_of u p"
  using assms(1)
proof (rule load_suite_Inr)
  assume u: "valid_eval_manifest (su_manifest u)" "list_all valid_fixture (su_fixtures u)"
    "distinct (map ef_case (su_fixtures u))"
  from u(2) assms(2) show ?thesis
    by (rule run_suite_results) (use u in \<open>simp add: report_of_def valid_eval_manifest_def\<close>)
qed

lemma list_all2_map_eq:
  "list_all2 P xs ys \<Longrightarrow> (\<And>x y. P x y \<Longrightarrow> g y = h x) \<Longrightarrow> map g ys = map h xs"
  by (induction rule: list_all2_induct) auto

lemma report_order:
  assumes "report_of u p"
  shows "map (\<lambda>r. (er_case r, er_condition r)) (rp_results p) =
    map (\<lambda>(f, c). (ef_case f, c)) (List.product (su_fixtures u) all_conditions)"
  by (rule list_all2_map_eq, rule assms [unfolded report_of_def, THEN conjunct2, THEN conjunct2, THEN conjunct2, THEN conjunct2])
    auto

lemma report_result:
  assumes "report_of u p" and "r \<in> set (rp_results p)"
  obtains f c t where "r = result_of f c (judge (shown_case (su_manifest u) f c) (ef_labels f) t)"
    "evidence_shown u r = ec_context (shown_case (su_manifest u) f c)"
proof -
  have rs: "list_all2 (\<lambda>(f, c) r. \<exists>t. r = result_of f c (judge (shown_case (su_manifest u) f c) (ef_labels f) t))
      (List.product (su_fixtures u) all_conditions) (rp_results p)"
    using assms(1) by (simp add: report_of_def)
  obtain i where i: "i < length (rp_results p)" "r = rp_results p ! i" using assms(2) by (auto simp: in_set_conv_nth)
  obtain f c where f: "List.product (su_fixtures u) all_conditions ! i = (f, c)" by fastforce
  have n: "i < length (List.product (su_fixtures u) all_conditions)" using list_all2_lengthD [OF rs] i(1) by simp
  then have m: "f \<in> set (su_fixtures u)" using nth_mem [OF n] f by auto
  obtain t where t: "r = result_of f c (judge (shown_case (su_manifest u) f c) (ef_labels f) t)"
    using list_all2_nthD [OF rs n] f i(2) by auto
  moreover have "evidence_shown u r = ec_context (shown_case (su_manifest u) f c)"
    unfolding t using assms(1) m by (intro evidence_of_result) (auto simp: report_of_def list_all_iff)
  ultimately show thesis by (rule that)
qed

lemma report_succeeded:
  assumes "report_of u p" and "r \<in> set (rp_results p)" and "er_state r = Succeeded"
  shows "\<exists>out x. er_output r = Some out \<and> er_metrics r = Some x \<and> valid_metrics x \<and>
    ex_context_units x = int (context_units (evidence_shown u r)) \<and>
    ex_context_units x \<le> eb_context_units (em_budget (su_manifest u)) \<and>
    eo_tokens out \<le> eb_output_tokens (em_budget (su_manifest u)) \<and>
    eo_latency out \<le> eb_seconds (em_budget (su_manifest u)) * 1000"
proof -
  let ?m = "su_manifest u"
  obtain f c t where f: "r = result_of f c (judge (shown_case ?m f c) (ef_labels f) t)"
    "evidence_shown u r = ec_context (shown_case ?m f c)" using assms(1,2) by (rule report_result)
  obtain out x where j: "judge (shown_case ?m f c) (ef_labels f) t = Inr (out, x)"
    using assms(3) unfolding f(1) by (rule result_succeeded)
  have "0 \<le> eb_context_units (em_budget ?m)" using assms(1) by (simp add: report_of_def valid_budget_def)
  then have "int (context_units (ec_context (shown_case ?m f c))) \<le> eb_context_units (em_budget ?m)"
    using bounded_context_fits by (simp add: shown_case_def)
  moreover have "ec_budget (shown_case ?m f c) = em_budget ?m" by (simp add: shown_case_def)
  moreover have "er_output r = Some out" "er_metrics r = Some x" using j by (simp_all add: f(1) result_of_def)
  ultimately show ?thesis
    using judge_Inr [OF j] score_output_Inr [OF judge_Inr(3) [OF j]] f(2) by simp
qed

lemma report_passed:
  assumes "report_of u p" and "r \<in> set (rp_results p)"
  shows "case_passed r \<longleftrightarrow> er_state r = Succeeded \<and>
    (\<exists>out. er_output r = Some out \<and> set (eo_citations out) \<subseteq> ee_ref ` set (evidence_shown u r))"
proof -
  obtain f c t where f: "r = result_of f c (judge (shown_case (su_manifest u) f c) (ef_labels f) t)"
    "evidence_shown u r = ec_context (shown_case (su_manifest u) f c)" using assms by (rule report_result)
  show ?thesis
  proof (cases "judge (shown_case (su_manifest u) f c) (ef_labels f) t")
    case (Inl e)
    then show ?thesis by (simp add: f(1) result_of_def case_passed_def)
  next
    case (Inr a)
    then obtain out x where a: "judge (shown_case (su_manifest u) f c) (ef_labels f) t = Inr (out, x)" by (cases a) simp
    then have "er_state r = Succeeded" "er_output r = Some out" by (simp_all add: f(1) result_of_def)
    then show ?thesis using case_passed_iff [of f c "shown_case (su_manifest u) f c" "ef_labels f" t] a f by simp
  qed
qed

text \<open>
  C22: an evaluation report tells what happened: it has one result for every fixture and condition,
  in order; a successful one keeps to the budget that all conditions share, in the context shown, the
  answer and the time, with every score between 0 and 1; and the report passes exactly if every case
  succeeded and cited nothing but the evidence it was shown.
\<close>

theorem evaluation_report_exact:
  assumes "load_suite sha is_json read_manifest read_fixtures d = Inr u"
    and "run_suite execute identity u code_revision dirty s = (Inr p, s')"
  shows "map (\<lambda>r. (er_case r, er_condition r)) (rp_results p) =
      map (\<lambda>(f, c). (ef_case f, c)) (List.product (su_fixtures u) all_conditions) \<and>
    (\<forall>r\<in>set (rp_results p). er_state r = Succeeded \<longrightarrow>
      (\<exists>out x. er_output r = Some out \<and> er_metrics r = Some x \<and> valid_metrics x \<and>
        ex_context_units x = int (context_units (evidence_shown u r)) \<and>
        ex_context_units x \<le> eb_context_units (em_budget (su_manifest u)) \<and>
        eo_tokens out \<le> eb_output_tokens (em_budget (su_manifest u)) \<and>
        eo_latency out \<le> eb_seconds (em_budget (su_manifest u)) * 1000)) \<and>
    (rp_passed p \<longleftrightarrow> (\<forall>r\<in>set (rp_results p). er_state r = Succeeded \<and>
      (\<exists>out. er_output r = Some out \<and> set (eo_citations out) \<subseteq> ee_ref ` set (evidence_shown u r))))"
proof -
  have p: "report_of u p" using assms by (rule report_of_run)
  then have "rp_passed p = (\<forall>r\<in>set (rp_results p). case_passed r)" by (simp add: report_of_def list_all_iff)
  then show ?thesis using report_order [OF p] report_succeeded [OF p] report_passed [OF p] by simp
qed

text \<open>
  The contract of the report is checked last: with a revision that is no hexadecimal name the cases are
  all executed and their results lost.
\<close>

lemma odd_revision_loses_results:
  assumes "list_all valid_fixture (su_fixtures u)" and "\<not> is_revision code_revision"
  shows "\<exists>rs s'. run_fixtures execute (su_manifest u) (su_fixtures u) s = (Inr rs, s') \<and>
    length rs = length (su_fixtures u) * length (em_conditions (su_manifest u)) \<and>
    run_suite execute identity u code_revision dirty s = (Inl ''ValidationError'', s')"
proof -
  obtain rs s' where r: "run_fixtures execute (su_manifest u) (su_fixtures u) s = (Inr rs, s')"
      "list_all2 (\<lambda>(f, c) r. \<exists>t. r = result_of f c (judge (shown_case (su_manifest u) f c) (ef_labels f) t))
        (List.product (su_fixtures u) (em_conditions (su_manifest u))) rs"
    using run_fixtures_results [OF assms(1), of execute "su_manifest u" s] by blast
  then show ?thesis using assms(2) list_all2_lengthD [OF r(2)] by (simp add: run_suite_def valid_report_def)
qed

text \<open>A label without text occurs in every answer, so its score says nothing about the answer.\<close>

lemma blank_label_always_occurs: "list_ex (\<lambda>t. normalize_text t = []) terms \<Longrightarrow> contains_any answer terms"
proof -
  have "occurs_in [] t" for t by (auto simp: occurs_in_def starts_with_def list_ex_iff)
  then show "list_ex (\<lambda>t. normalize_text t = []) terms \<Longrightarrow> contains_any answer terms"
    unfolding contains_any_def list_ex_iff by metis
qed

section \<open>The latest report\<close>

datatype freshness = Current | Stale | UnknownFreshness
datatype report_reason = ReportMissing | ReportInvalid | RevisionMismatch | DirtyWorktree

record report_view =
  rv_available :: bool
  rv_freshness :: freshness
  rv_reason :: "report_reason option"
  rv_report :: "eval_report option"

definition report_unavailable :: "report_reason \<Rightarrow> report_view" where
  "report_unavailable reason =
     \<lparr> rv_available = False, rv_freshness = UnknownFreshness, rv_reason = Some reason, rv_report = None \<rparr>"

text \<open>
  What the operating system answers about \<open>evaluations/latest.json\<close>; \<open>None\<close> is an \<open>OSError\<close>.  The
  bytes of a file that is read are no JSON, JSON without the declared fields, or a report.
\<close>

record report_probe =
  lp_exists :: bool
  lp_is_file :: bool
  lp_root :: "string list"
  lp_resolved :: "string list option"
  lp_size :: "nat option"
  lp_bytes :: "string option"

definition max_report_bytes :: nat where
  "max_report_bytes = 16 * 1024 * 1024"

text \<open>\<open>Inl\<close> is the exception of \<open>json.loads\<close>, which is no \<open>ValidationError\<close>.\<close>

definition load_report ::
    "(string \<Rightarrow> bool) \<Rightarrow> (string \<Rightarrow> eval_report option) \<Rightarrow> report_probe \<Rightarrow> route_failure + eval_report option" where
  "load_report is_json read_report q =
     (if \<not> lp_is_file q then Inr None
      else (case lp_resolved q of
          None \<Rightarrow> Inr None
        | Some resolved \<Rightarrow>
            if take (length (lp_root q)) resolved \<noteq> lp_root q then Inr None
            else (case lp_size q of
                None \<Rightarrow> Inr None
              | Some byte_size \<Rightarrow>
                  if byte_size > max_report_bytes then Inr None
                  else (case lp_bytes q of
                      None \<Rightarrow> Inr None
                    | Some raw \<Rightarrow>
                        if \<not> is_json raw then Inl ServerError
                        else Inr (case read_report raw of None \<Rightarrow> None | Some p \<Rightarrow> if valid_report p then Some p else None)))))"

definition latest_evaluation ::
    "(string \<Rightarrow> bool) \<Rightarrow> (string \<Rightarrow> eval_report option) \<Rightarrow> workspace_auth \<Rightarrow> string option \<Rightarrow> string option
      \<Rightarrow> report_probe \<Rightarrow> route_failure + report_view" where
  "latest_evaluation is_json read_report auth header code_revision q =
     (case require_principal auth header of
        Inl e \<Rightarrow> Inl e
      | Inr _ \<Rightarrow>
          (case load_report is_json read_report q of
             Inl e \<Rightarrow> Inl e
           | Inr None \<Rightarrow> Inr (report_unavailable (if lp_exists q then ReportInvalid else ReportMissing))
           | Inr (Some p) \<Rightarrow>
               let (fresh, reason) =
                 (if rp_dirty p then (Stale, Some DirtyWorktree)
                  else (case code_revision of
                      None \<Rightarrow> (UnknownFreshness, None)
                    | Some revision \<Rightarrow>
                        if rp_revision p \<noteq> revision then (Stale, Some RevisionMismatch) else (Current, None)))
               in Inr \<lparr> rv_available = True, rv_freshness = fresh, rv_reason = reason, rv_report = Some p \<rparr>))"

text \<open>A report is called current only where it is clean and of the deployed revision.\<close>

lemma current_report:
  assumes "latest_evaluation is_json read_report auth header code_revision q = Inr v" and "rv_freshness v = Current"
  shows "\<exists>p. rv_report v = Some p \<and> valid_report p \<and> \<not> rp_dirty p \<and> code_revision = Some (rp_revision p)"
  using assms
  by (auto simp: latest_evaluation_def load_report_def report_unavailable_def Let_def
      split: sum.splits option.splits if_splits)

text \<open>
  A file that is no JSON, one cut short for instance, is not reported as invalid: the route fails.
\<close>

lemma broken_report_is_server_error:
  assumes "require_principal auth header = Inr a" and "lp_is_file q" and "lp_resolved q = Some resolved"
    and "take (length (lp_root q)) resolved = lp_root q" and "lp_size q = Some n" and "n \<le> max_report_bytes"
    and "lp_bytes q = Some raw" and "\<not> is_json raw"
  shows "latest_evaluation is_json read_report auth header code_revision q = Inl ServerError"
  using assms by (simp add: latest_evaluation_def load_report_def)

end
