(* ===== verification/Evaluation_Samples.thy ===== *)
theory Evaluation_Samples
  imports Evaluation_Report Samples
begin

text \<open>The evaluation at a concrete suite, run with the deterministic executor.\<close>

definition sample_evidence :: eval_evidence where
  "sample_evidence = \<lparr> ee_ref = ''mem_1'', ee_text = ''The Answer: blue. Not red.'' \<rparr>"

definition sample_fixture :: eval_fixture where
  "sample_fixture =
     \<lparr> ef_case = ''colour'', ef_question = ''Which colour?'',
       ef_contexts = [(NoMemory, []), (RawTranscript, [sample_evidence]), (GeneratedSummary, [sample_evidence]),
         (ApprovedLexical, [sample_evidence])],
       ef_labels = \<lparr> el_accepted = [''Blue''], el_relevant = [''mem_1''], el_obsolete = [''red''],
         el_contradiction = [], el_injection = [], el_abstention = False \<rparr> \<rparr>"

definition sample_eval_manifest :: eval_manifest where
  "sample_eval_manifest =
     \<lparr> em_suite = ''colours'', em_version = ''1.0.0'', em_fixture_path = ''fixtures.json'',
       em_fixture_hash = digest_ref sample_sha ''F'', em_conditions = all_conditions,
       em_budget = \<lparr> eb_context_units = 8, eb_output_tokens = 8, eb_seconds = 1 \<rparr> \<rparr>"

definition sample_suite :: suite where
  "sample_suite =
     \<lparr> su_manifest = sample_eval_manifest, su_fixtures = [sample_fixture],
       su_manifest_hash = digest_ref sample_sha ''M'', su_fixture_hash = digest_ref sample_sha ''F'' \<rparr>"

definition sample_suite_probe :: suite_probe where
  "sample_suite_probe =
     \<lparr> sp_manifest = Some ''M'', sp_root = [''evaluations''], sp_absolute = (\<lambda>_. False),
       sp_resolve = (\<lambda>path. [''evaluations'', path]), sp_fixture = (\<lambda>_. Some ''F'') \<rparr>"

definition sample_identity :: execution_identity where
  "sample_identity =
     \<lparr> xi_kind = Fake, xi_model = ''evaluation-smoke-v1'', xi_actor = ''model_fake'', xi_operation = ''fake.chat'',
       xi_configuration_hash = digest_ref sample_sha ''C'' \<rparr>"

lemma sample_digest_ok: "is_digest (digest_ref sample_sha t)"
  by (rule digest_ref_is_digest) simp

lemma sample_suite_valid: "valid_eval_manifest sample_eval_manifest" "valid_fixture sample_fixture"
proof -
  have "is_suite_id ''colours''" "is_version ''1.0.0''" "is_suite_id ''colour''" by code_simp+
  then show "valid_eval_manifest sample_eval_manifest" "valid_fixture sample_fixture"
    by (simp_all add: valid_eval_manifest_def sample_eval_manifest_def valid_budget_def sample_digest_ok valid_fixture_def
        sample_fixture_def valid_question_def valid_evidence_def sample_evidence_def all_conditions_def)
qed

lemma sample_suite_loads:
  "load_suite sample_sha (\<lambda>_. True) (\<lambda>_. Some sample_eval_manifest) (\<lambda>_. Some [sample_fixture]) sample_suite_probe
    = Inr sample_suite"
  using sample_suite_valid
  by (simp add: load_suite_def sample_suite_probe_def sample_suite_def Let_def sample_eval_manifest_def)

text \<open>The two outputs of the deterministic executor.\<close>

definition sample_output :: "eval_evidence list \<Rightarrow> eval_output" where
  "sample_output es =
     \<lparr> eo_answer = if es = [] then ''INSUFFICIENT_EVIDENCE'' else ''blue'', eo_citations = map ee_ref es, eo_latency = 0,
       eo_tokens = 1, eo_usage = Some (int (context_units es)), eo_cost = Some (Finite 0), eo_burden = None \<rparr>"

lemma sample_output_valid: "es \<in> {[], [sample_evidence]} \<Longrightarrow> valid_output (sample_output es)"
  by (auto simp: sample_output_def valid_output_def sample_evidence_def opt_ok_def negative_cost_def)

lemma sample_executes:
  assumes "es \<in> {[], [sample_evidence]}" and "ec_context c = es"
  shows "smoke_execute c condition s = (Inr (sample_output es), s)"
proof -
  have "last_declared (''INSUFFICIENT_EVIDENCE'', []) [sample_evidence] = (''blue'', [''mem_1''])"
    "py_split ''blue'' = [''blue'']" "py_split ''INSUFFICIENT_EVIDENCE'' = [''INSUFFICIENT_EVIDENCE'']" by code_simp+
  then show ?thesis
    using assms sample_output_valid [OF assms(1)]
    by (auto simp: smoke_execute_def sample_output_def Let_def sample_evidence_def)
qed

lemma sample_judged:
  assumes "es \<in> {[], [sample_evidence]}" and "ec_context c = es" and "ec_budget c = em_budget sample_eval_manifest"
  shows "\<exists>x. judge c l (Inr (sample_output es)) = Inr (sample_output es, x) \<and> valid_metrics x"
  using score_output_total [OF sample_output_valid [OF assms(1)], of c l] assms(3)
  by (auto simp: judge_def sample_output_def sample_eval_manifest_def)

lemma sample_cases:
  "prepare_cases sample_fixture sample_eval_manifest = Some (map (\<lambda>c. (c, shown_case sample_eval_manifest sample_fixture c)) all_conditions)"
  using prepare_cases_valid [OF sample_suite_valid(2), of sample_eval_manifest] by (simp add: sample_eval_manifest_def)

lemma sample_contexts:
  "ec_context (shown_case sample_eval_manifest sample_fixture c) \<in> {[], [sample_evidence]}"
  "ec_budget (shown_case sample_eval_manifest sample_fixture c) = em_budget sample_eval_manifest"
proof -
  have "bounded_context [sample_evidence] 8 = [sample_evidence]" "bounded_context [] 8 = []" by code_simp+
  then show "ec_context (shown_case sample_eval_manifest sample_fixture c) \<in> {[], [sample_evidence]}"
    "ec_budget (shown_case sample_eval_manifest sample_fixture c) = em_budget sample_eval_manifest"
    by (cases c; simp add: shown_case_def sample_fixture_def sample_eval_manifest_def)+
qed

text \<open>The run: under every condition the case is judged.\<close>

lemma sample_conditions_run:
  assumes "\<And>c. c \<in> set conditions \<Longrightarrow> map_of cases c = Some (shown_case sample_eval_manifest sample_fixture c)"
  shows "\<exists>rs. run_conditions smoke_execute sample_fixture cases conditions s = (Inr rs, s) \<and>
    list_all (\<lambda>r. er_state r = Succeeded \<and> valid_result r) rs"
  using assms
proof (induction conditions)
  case (Cons c conditions)
  obtain rs where rs: "run_conditions smoke_execute sample_fixture cases conditions s = (Inr rs, s)"
      "list_all (\<lambda>r. er_state r = Succeeded \<and> valid_result r) rs" using Cons by auto
  let ?c = "shown_case sample_eval_manifest sample_fixture c"
  obtain x where x: "judge ?c (ef_labels sample_fixture) (Inr (sample_output (ec_context ?c))) =
      Inr (sample_output (ec_context ?c), x)" "valid_metrics x"
    using sample_judged [OF sample_contexts(1) refl sample_contexts(2)] by blast
  have "is_suite_id (ef_case sample_fixture)" using sample_suite_valid(2) by (simp add: valid_fixture_def)
  then have "valid_result (result_of sample_fixture c (Inr (sample_output (ec_context ?c), x)))"
    using x(2) sample_output_valid [OF sample_contexts(1)] by (simp add: valid_result_def result_of_def opt_ok_def)
  then show ?case using Cons.prems [of c] rs x sample_executes [OF sample_contexts(1) refl, of c c s] by (simp add: result_of_def)
qed simp

lemma sample_identity_valid: "valid_execution_identity sample_identity"
proof -
  have "valid_model_name ''evaluation-smoke-v1''"
    "is_slug (lower_chars @ digit_chars) actor_tail_chars 1 62 ''fake''"
    "is_slug lower_chars (lower_chars @ digit_chars @ ''_.'') 2 127 ''fake.chat''" by code_simp+
  then show ?thesis using sample_digest_ok by (simp add: valid_execution_identity_def sample_identity_def starts_with_def)
qed

lemma sample_suite_runs:
  "\<exists>p. run_suite smoke_execute sample_identity sample_suite ''abcdef0'' False () = (Inr p, ()) \<and>
    (\<forall>r\<in>set (rp_results p). er_state r = Succeeded)"
proof -
  let ?cases = "map (\<lambda>c. (c, shown_case sample_eval_manifest sample_fixture c)) all_conditions"
  obtain rs where rs: "run_conditions smoke_execute sample_fixture ?cases all_conditions () = (Inr rs, ())"
      "list_all (\<lambda>r. er_state r = Succeeded \<and> valid_result r) rs"
    using sample_conditions_run [of all_conditions ?cases "()"] by (auto simp: map_of_map_restrict)
  have c: "em_conditions sample_eval_manifest = all_conditions" by (simp add: sample_eval_manifest_def)
  have r: "run_fixtures smoke_execute sample_eval_manifest [sample_fixture] () = (Inr rs, ())"
    using rs(1) by (simp add: sample_cases c)
  have "is_revision ''abcdef0''" by code_simp
  then show ?thesis
    using r rs(2) sample_digest_ok sample_identity_valid sample_suite_valid(1)
    by (simp add: run_suite_def sample_suite_def valid_report_def list_all_iff valid_eval_manifest_def)
qed

theorem evaluation_report_exact_witness:
  "\<exists>p. run_suite smoke_execute sample_identity sample_suite ''abcdef0'' False () = (Inr p, ()) \<and>
    map (\<lambda>r. (er_case r, er_condition r)) (rp_results p) = map (Pair ''colour'') all_conditions \<and>
    (\<forall>r\<in>set (rp_results p). er_state r = Succeeded)"
proof -
  obtain p where p: "run_suite smoke_execute sample_identity sample_suite ''abcdef0'' False () = (Inr p, ())"
      "\<forall>r\<in>set (rp_results p). er_state r = Succeeded" using sample_suite_runs by blast
  have "List.product [sample_fixture] all_conditions = map (Pair sample_fixture) all_conditions" by simp
  then show ?thesis
    using evaluation_report_exact [OF sample_suite_loads p(1)] p by (simp add: sample_suite_def sample_fixture_def o_def)
qed

text \<open>An answer that is only a full stop is declared with the white space before it, and rejected as empty.\<close>

lemma declared_full_stop: "declared_answers False ''answer: .'' = ['' '']"
  by code_simp

end
