(* ===== verification/Migrations.thy ===== *)
theory Migrations
  imports Prelude
begin

text \<open>
  The ordered schema migrations of a SQLite store, \<open>storage/migrations/__init__.py\<close>.  A database is its
  \<open>user_version\<close> with a content of any type; a connection has the committed database and, inside a
  transaction, the one it works on.  The statements of a step, the copy into a backup and SQLite's
  integrity check are arguments.
\<close>

section \<open>Connections\<close>

type_synonym 'd database = "int \<times> 'd"

record 'd connection =
  cn_disk :: "'d database"
  cn_work :: "'d database option"

definition seen_database :: "'d connection \<Rightarrow> 'd database" where
  "seen_database k = (case cn_work k of Some w \<Rightarrow> w | None \<Rightarrow> cn_disk k)"

text \<open>A statement changes the working database, outside a transaction the committed one.\<close>

definition set_user_version :: "int \<Rightarrow> 'd connection \<Rightarrow> 'd connection" where
  "set_user_version v k =
     (case cn_work k of
        Some (_, d) \<Rightarrow> k\<lparr>cn_work := Some (v, d)\<rparr>
      | None \<Rightarrow> k\<lparr>cn_disk := (v, snd (cn_disk k))\<rparr>)"

definition begin_immediate :: "'d connection \<Rightarrow> 'd connection" where
  "begin_immediate k = k\<lparr>cn_work := Some (cn_disk k)\<rparr>"

definition commit_work :: "'d connection \<Rightarrow> 'd connection" where
  "commit_work k = (case cn_work k of Some w \<Rightarrow> k\<lparr>cn_disk := w, cn_work := None\<rparr> | None \<Rightarrow> k)"

definition rollback_work :: "'d connection \<Rightarrow> 'd connection" where
  "rollback_work k = k\<lparr>cn_work := None\<rparr>"

section \<open>Versions\<close>

datatype migration_error =
    IncompatibleSchema | NoTransition | BadMigrationRequest | NoDatabase | NewerSchema | IncompleteSequence
  | BackupFailed | DatabaseFault | StepFailed | NotRecorded | NotIntact

definition set_schema_version :: "int \<Rightarrow> 'd connection \<Rightarrow> migration_error + 'd connection" where
  "set_schema_version version k =
     (if version = 1 then Inr (set_user_version 1 k)
      else if version = 2 then Inr (set_user_version 2 k)
      else Inl NoTransition)"

definition require_compatible_schema :: "int \<Rightarrow> 'd connection \<Rightarrow> migration_error + int" where
  "require_compatible_schema current_version k =
     (let version = fst (seen_database k) in
      if version \<noteq> 0 \<and> version \<noteq> current_version then Inl IncompatibleSchema else Inr version)"

definition record_current_schema :: "int \<Rightarrow> 'd connection \<Rightarrow> migration_error + 'd connection" where
  "record_current_schema current_version k =
     (case set_schema_version current_version k of Inl e \<Rightarrow> Inl e | Inr k' \<Rightarrow> Inr (commit_work k'))"

section \<open>Steps\<close>

text \<open>A step returns whether it raised, and the connection after it.\<close>

record 'd migration_step =
  ms_target :: int
  ms_apply :: "'d connection \<Rightarrow> bool \<times> 'd connection"

fun run_steps :: "'d migration_step list \<Rightarrow> 'd connection \<Rightarrow> migration_error option \<times> 'd connection" where
  "run_steps [] k = (None, k)"
| "run_steps (m # ms) k =
     (case ms_apply m k of
        (True, k1) \<Rightarrow> (Some StepFailed, k1)
      | (False, k1) \<Rightarrow>
          (case set_schema_version (ms_target m) k1 of
             Inl e \<Rightarrow> (Some e, k1)
           | Inr k2 \<Rightarrow> run_steps ms k2))"

text \<open>What SQLite answers: the copy made for the backup, the integrity of a database, and whether the
  transaction begins and commits.  Other writers may change the database at the three moments when the
  migration holds no lock: after the version was read, between the copy and \<open>BEGIN IMMEDIATE\<close>, and
  after the commit.\<close>

record 'd sqlite =
  sq_copy :: "'d database \<Rightarrow> 'd database option"
  sq_intact :: "'d database \<Rightarrow> bool"
  sq_begins :: bool
  sq_commits :: bool
  sq_before_copy :: "'d database \<Rightarrow> 'd database"
  sq_before_begin :: "'d database \<Rightarrow> 'd database"
  sq_after_commit :: "'d database \<Rightarrow> 'd database"

definition backup_database :: "'d sqlite \<Rightarrow> 'd database \<Rightarrow> migration_error + 'd database" where
  "backup_database Q db =
     (case sq_copy Q db of
        None \<Rightarrow> Inl DatabaseFault
      | Some b \<Rightarrow> if sq_intact Q b then Inr b else Inl BackupFailed)"

definition steps_between :: "'d migration_step list \<Rightarrow> int \<Rightarrow> int \<Rightarrow> 'd migration_step list" where
  "steps_between steps current_version target = filter (\<lambda>m. current_version < ms_target m \<and> ms_target m \<le> target) steps"

text \<open>
  The database before is \<open>None\<close> where the file does not exist.  The result has the backup, if one was
  made, and the database after.
\<close>

definition migrate_connection ::
    "'d sqlite \<Rightarrow> int \<Rightarrow> 'd migration_step list \<Rightarrow> 'd database \<Rightarrow> (migration_error + 'd database option) \<times> 'd database" where
  "migrate_connection Q target steps db =
     (let current_version = fst db in
      if current_version > target then (Inl NewerSchema, db)
      else if current_version = target then (Inr None, db)
      else
        let applicable = steps_between steps current_version target in
        if map ms_target applicable \<noteq> [current_version + 1..target] then (Inl IncompleteSequence, db)
        else
          let copied = sq_before_copy Q db in
          (case backup_database Q copied of
            Inl e \<Rightarrow> (Inl e, copied)
          | Inr b \<Rightarrow>
              let begun = sq_before_begin Q copied in
              if \<not> sq_begins Q then (Inl DatabaseFault, begun)
              else (case run_steps applicable (begin_immediate \<lparr> cn_disk = begun, cn_work = None \<rparr>) of
                  (Some e, k) \<Rightarrow> (Inl e, cn_disk (rollback_work k))
                | (None, k) \<Rightarrow>
                    if cn_work k \<noteq> None \<and> \<not> sq_commits Q then (Inl DatabaseFault, cn_disk (rollback_work k))
                    else
                      let left = sq_after_commit Q (cn_disk (commit_work k)) in
                      if fst left \<noteq> target then (Inl NotRecorded, left)
                      else if \<not> sq_intact Q left then (Inl NotIntact, left)
                      else (Inr (Some b), left))))"

definition apply_sqlite_migrations ::
    "'d sqlite \<Rightarrow> string \<Rightarrow> int \<Rightarrow> 'd migration_step list \<Rightarrow> 'd database option
      \<Rightarrow> (migration_error + 'd database option) \<times> 'd database option" where
  "apply_sqlite_migrations Q store_name target steps db =
     (if store_name = [] \<or> target < 1 then (Inl BadMigrationRequest, db)
      else (case db of
          None \<Rightarrow> (Inl NoDatabase, None)
        | Some d \<Rightarrow> (case migrate_connection Q target steps d of (r, d') \<Rightarrow> (r, Some d'))))"

section \<open>A migration is one transaction\<close>

text \<open>A step that leaves the transaction to the migration.\<close>

definition stays_inside :: "'d migration_step \<Rightarrow> bool" where
  "stays_inside m \<longleftrightarrow> (\<forall>k. cn_work k \<noteq> None \<longrightarrow>
     cn_disk (snd (ms_apply m k)) = cn_disk k \<and> cn_work (snd (ms_apply m k)) \<noteq> None)"

text \<open>What the steps make of a database that they work on.\<close>

fun migrated_content :: "'d migration_step list \<Rightarrow> 'd connection \<Rightarrow> 'd connection" where
  "migrated_content [] k = k"
| "migrated_content (m # ms) k = migrated_content ms (set_user_version (ms_target m) (snd (ms_apply m k)))"

lemma set_user_version_simps [simp]:
  "cn_work k \<noteq> None \<Longrightarrow> cn_disk (set_user_version v k) = cn_disk k"
  "cn_work (set_user_version v k) = map_option (\<lambda>(_, d). (v, d)) (cn_work k)"
  "fst (seen_database (set_user_version v k)) = v"
  by (auto simp: set_user_version_def seen_database_def split: option.splits)

lemma set_schema_version_Inr:
  "set_schema_version v k = Inr k' \<longleftrightarrow> v \<in> {1, 2} \<and> k' = set_user_version v k"
  by (auto simp: set_schema_version_def)

lemma run_steps_inside:
  assumes "list_all stays_inside ms" and "cn_work k \<noteq> None" and "run_steps ms k = (r, k')"
  shows "cn_disk k' = cn_disk k \<and> cn_work k' \<noteq> None \<and>
    (r = None \<longrightarrow> k' = migrated_content ms k \<and> (ms \<noteq> [] \<longrightarrow> fst (seen_database k') = ms_target (last ms)) \<and>
      (\<forall>m\<in>set ms. ms_target m \<in> {1, 2}))"
  using assms
proof (induction ms arbitrary: k)
  case (Cons m ms)
  obtain failed k1 where a: "ms_apply m k = (failed, k1)" by (cases "ms_apply m k")
  have "cn_disk (snd (ms_apply m k)) = cn_disk k \<and> cn_work (snd (ms_apply m k)) \<noteq> None"
    using Cons.prems(1,2) by (simp add: stays_inside_def)
  then have k1: "cn_disk k1 = cn_disk k" "cn_work k1 \<noteq> None" by (simp_all add: a)
  show ?case
  proof (cases "failed \<or> ms_target m \<notin> {1, 2}")
    case True
    then have "k' = k1 \<and> r \<noteq> None"
      using Cons.prems(3) by (auto simp: a set_schema_version_def split: bool.splits if_splits)
    then show ?thesis using k1 by auto
  next
    case False
    then have s: "set_schema_version (ms_target m) k1 = Inr (set_user_version (ms_target m) k1)"
      by (simp add: set_schema_version_Inr)
    then have "run_steps ms (set_user_version (ms_target m) k1) = (r, k')" using Cons.prems(3) False by (simp add: a)
    then show ?thesis
      using Cons.IH [of "set_user_version (ms_target m) k1"] Cons.prems(1) k1 False
      by (cases "ms = []") (auto simp: a)
  qed
qed simp

lemma last_upto: "i \<le> j \<Longrightarrow> last [i..j] = (j :: int)"
  by (simp add: upto_rec2)





text \<open>No transition beyond version 2 is reviewed: a migration to a later version fails and rolls back.\<close>

lemma no_transition_beyond_two:
  assumes "list_all stays_inside steps" and "2 < target" and "fst db < target"
    and "migrate_connection Q target steps db = (r, db')"
  shows "\<exists>e. r = Inl e"
proof (rule ccontr)
  let ?ms = "steps_between steps (fst db) target" and ?begun = "sq_before_begin Q (sq_before_copy Q db)"
  assume "\<nexists>e. r = Inl e"
  then obtain k where m: "map ms_target ?ms = [fst db + 1..target]"
    and k: "run_steps ?ms \<lparr> cn_disk = ?begun, cn_work = Some ?begun \<rparr> = (None, k)"
    using assms(3,4)
    by (auto simp: migrate_connection_def Let_def begin_immediate_def split: if_splits sum.splits option.splits prod.splits)
  have "list_all stays_inside ?ms" using assms(1) by (auto simp: steps_between_def list_all_iff)
  then have v: "\<forall>m\<in>set ?ms. ms_target m \<in> {1, 2}" using run_steps_inside [OF _ _ k] by simp
  have "target \<in> set (map ms_target ?ms)" unfolding m using assms(3) by simp
  then show False using v assms(2) by auto
qed

text \<open>A step that commits by itself escapes the rollback of a later failure.\<close>

lemma committing_step_escapes:
  "run_steps [\<lparr> ms_target = 1, ms_apply = (\<lambda>k. (False, commit_work (k\<lparr>cn_work := Some (0, ''new'')\<rparr>))) \<rparr>,
      \<lparr> ms_target = 2, ms_apply = (\<lambda>k. (True, k)) \<rparr>] (begin_immediate \<lparr> cn_disk = (0, ''old''), cn_work = None \<rparr>) =
    (Some StepFailed, \<lparr> cn_disk = (1, ''new''), cn_work = None \<rparr>)"
  by (simp add: begin_immediate_def commit_work_def set_schema_version_def set_user_version_def)

text \<open>A migration of one step that appends to the content.\<close>

definition plain_sqlite :: "string sqlite" where
  "plain_sqlite = \<lparr> sq_copy = Some, sq_intact = (\<lambda>_. True), sq_begins = True, sq_commits = True,
     sq_before_copy = id, sq_before_begin = id, sq_after_commit = id \<rparr>"

definition appending_step :: "string migration_step" where
  "appending_step =
     \<lparr> ms_target = 2, ms_apply = (\<lambda>k. (False, k\<lparr>cn_work := map_option (\<lambda>(v, d). (v, d @ ''x'')) (cn_work k)\<rparr>)) \<rparr>"

lemmas migration_defs = apply_sqlite_migrations_def migrate_connection_def steps_between_def backup_database_def
  begin_immediate_def set_schema_version_def set_user_version_def commit_work_def seen_database_def Let_def
  plain_sqlite_def appending_step_def

text \<open>
  The version is not read again inside the transaction: a migration that begins after another one
  reached the target applies the steps a second time and reports success.
\<close>

lemma concurrent_migration_repeats:
  "let other = (\<lambda>d. the (snd (apply_sqlite_migrations plain_sqlite ''events'' 2 [appending_step] (Some d)))) in
     apply_sqlite_migrations (plain_sqlite\<lparr>sq_before_begin := other\<rparr>) ''events'' 2 [appending_step] (Some (1, ''data'')) =
       (Inr (Some (1, ''data'')), Some (2, ''dataxx''))"
  by (simp add: migration_defs)


end
