(* ===== verification/Service_Status.thy ===== *)
theory Service_Status
  imports Workspace_Auth Openai_Provider Migrations
begin

text \<open>
  What the service reports about itself: \<open>status/service.py\<close>, \<open>status/routes.py\<close> and
  \<open>health/service.py\<close>.  A database is opened read-only; what SQLite answers to the queries is an
  argument, \<open>None\<close> being a \<open>sqlite3.Error\<close>.
\<close>

section \<open>Stores\<close>

datatype component_state = NotInitialized | ComponentReady | ComponentError

record component_status =
  cs_state :: component_state
  cs_count :: int

record db_probe =
  dp_is_file :: bool
  dp_version :: "int option"
  dp_tables :: "string list option"
  dp_count :: "string \<Rightarrow> int option"

definition not_initialized :: component_status where
  "not_initialized = \<lparr> cs_state = NotInitialized, cs_count = 0 \<rparr>"

definition component_error :: component_status where
  "component_error = \<lparr> cs_state = ComponentError, cs_count = 0 \<rparr>"

definition counted :: "int option \<Rightarrow> component_status" where
  "counted n = (case n of None \<Rightarrow> component_error | Some k \<Rightarrow> \<lparr> cs_state = ComponentReady, cs_count = k \<rparr>)"

definition inspect_ledger :: "db_probe \<Rightarrow> component_status" where
  "inspect_ledger d =
     (if \<not> dp_is_file d then not_initialized
      else (case dp_version d of
          None \<Rightarrow> component_error
        | Some version \<Rightarrow> if version \<noteq> 1 then component_error else counted (dp_count d ''events'')))"

definition required_tables :: "string list" where
  "required_tables =
     [''memory_records'', ''memory_reviews'', ''memory_record_revisions'', ''memory_source_bindings'', ''memory_source_syncs'']"

definition inspect_memory :: "db_probe \<Rightarrow> component_status" where
  "inspect_memory d =
     (if \<not> dp_is_file d then not_initialized
      else (case dp_tables d of
          None \<Rightarrow> component_error
        | Some tables \<Rightarrow>
            if \<not> set required_tables \<subseteq> set tables then component_error else counted (dp_count d ''memory_records'')))"

text \<open>
  The artifact directory: the entries of the root with whether they are directories, and the entries of
  a directory with whether they are files and links; \<open>None\<close> is an \<open>OSError\<close>.
\<close>

record object_probe =
  op_name :: string
  op_is_file :: bool
  op_is_link :: bool

record prefix_probe =
  px_name :: string
  px_is_dir :: bool
  px_objects :: "object_probe list option"

definition is_prefix_directory :: "prefix_probe \<Rightarrow> bool" where
  "is_prefix_directory x \<longleftrightarrow> px_is_dir x \<and> length (px_name x) = 2 \<and> all_in hex_chars (px_name x)"

definition is_object :: "object_probe \<Rightarrow> bool" where
  "is_object x \<longleftrightarrow> op_is_file x \<and> \<not> op_is_link x \<and> length (op_name x) = 62 \<and> all_in hex_chars (op_name x)"

definition inspect_artifacts :: "prefix_probe list option option \<Rightarrow> component_status" where
  "inspect_artifacts listing =
     (case listing of
        None \<Rightarrow> not_initialized
      | Some None \<Rightarrow> component_error
      | Some (Some directories) \<Rightarrow>
          counted (map_option (\<lambda>objects. int (length (filter is_object (concat objects))))
            (those (map px_objects (filter is_prefix_directory directories)))))"

section \<open>The status route\<close>

datatype feature_state = FeaturePlanned | FeaturePreview | FeatureReady

record service_status =
  ss_auth :: auth_state
  ss_ledger :: component_status
  ss_artifacts :: component_status
  ss_memory :: component_status
  ss_features :: "(string \<times> feature_state) list"

definition read_status ::
    "workspace_auth \<Rightarrow> string option \<Rightarrow> db_probe \<Rightarrow> prefix_probe list option option \<Rightarrow> db_probe
      \<Rightarrow> route_failure + service_status" where
  "read_status auth header ledger artifacts memory =
     (case auth_status auth header of
        Inl f \<Rightarrow> Inl f
      | Inr st \<Rightarrow> Inr
          \<lparr> ss_auth = st, ss_ledger = inspect_ledger ledger, ss_artifacts = inspect_artifacts artifacts,
            ss_memory = inspect_memory memory,
            ss_features =
              [(''chat'', FeatureReady), (''capability_broker'', FeatureReady),
               (''memory_lattice'', if cs_state (inspect_memory memory) = ComponentReady then FeatureReady else FeaturePreview),
               (''appearance'', FeaturePreview), (''workspace_terminal'', FeaturePreview)] \<rparr>)"

section \<open>Readiness\<close>

text \<open>A provider's probe, where it has one: \<open>None\<close> for success.\<close>

record provider_probe =
  pb_identity :: execution_identity
  pb_probe :: "provider_failure option option"

text \<open>An exception that is no \<open>ProviderRequestError\<close> is not caught.\<close>

definition inspect_provider :: "provider_probe \<Rightarrow> route_failure + bool" where
  "inspect_provider p =
     (if xi_kind (pb_identity p) = Fake then Inr True
      else (case pb_probe p of
          None \<Rightarrow> Inr False
        | Some None \<Rightarrow> Inr True
        | Some (Some TimedOut) \<Rightarrow> Inr False
        | Some (Some RequestFailed) \<Rightarrow> Inr False
        | Some (Some _) \<Rightarrow> Inl ServerError))"

definition inspect_capability_broker :: "db_probe \<Rightarrow> bool" where
  "inspect_capability_broker d \<longleftrightarrow>
     \<not> dp_is_file d \<or> (dp_version d = Some 1 \<and> (case dp_tables d of None \<Rightarrow> False | Some tables \<Rightarrow> ''capability_grants'' \<in> set tables))"

record readiness =
  rd_ready :: bool
  rd_ledger :: component_status
  rd_artifacts :: component_status
  rd_memory :: component_status
  rd_provider :: bool
  rd_broker :: bool

definition inspect_readiness ::
    "db_probe \<Rightarrow> prefix_probe list option option \<Rightarrow> db_probe \<Rightarrow> provider_probe \<Rightarrow> db_probe \<Rightarrow> route_failure + readiness" where
  "inspect_readiness ledger artifacts memory provider broker =
     (let stores = [inspect_ledger ledger, inspect_artifacts artifacts, inspect_memory memory] in
      case inspect_provider provider of
        Inl f \<Rightarrow> Inl f
      | Inr provider_ready \<Rightarrow>
          let broker_ready = inspect_capability_broker broker in
          Inr \<lparr> rd_ready = (\<not> (list_ex (\<lambda>s. cs_state s = ComponentError) stores \<or> \<not> provider_ready \<or> \<not> broker_ready)),
            rd_ledger = inspect_ledger ledger, rd_artifacts = inspect_artifacts artifacts,
            rd_memory = inspect_memory memory, rd_provider = provider_ready, rd_broker = broker_ready \<rparr>)"

section \<open>What a report is worth\<close>

text \<open>A service that reports ready has no store in error and a provider that answered.\<close>

lemma readiness_checked:
  assumes "inspect_readiness ledger artifacts memory provider broker = Inr r" and "rd_ready r"
  shows "cs_state (rd_ledger r) \<noteq> ComponentError \<and> cs_state (rd_artifacts r) \<noteq> ComponentError \<and>
    cs_state (rd_memory r) \<noteq> ComponentError \<and>
    (xi_kind (pb_identity provider) = Fake \<or> pb_probe provider = Some None) \<and>
    (dp_is_file broker \<longrightarrow> dp_version broker = Some 1)"
  using assms
  by (auto simp: inspect_readiness_def inspect_provider_def inspect_capability_broker_def Let_def
      split: sum.splits option.splits provider_failure.splits if_splits)

text \<open>The artifacts counted are those whose paths the store can have published.\<close>

lemma artifacts_counted:
  assumes "inspect_artifacts (Some (Some directories)) = \<lparr> cs_state = ComponentReady, cs_count = n \<rparr>"
  shows "n = int (\<Sum>x\<leftarrow>filter is_prefix_directory directories. length (filter is_object (the (px_objects x))))"
proof -
  obtain objects where o: "those (map px_objects (filter is_prefix_directory directories)) = Some objects"
      "n = int (length (filter is_object (concat objects)))"
    using assms by (auto simp: inspect_artifacts_def counted_def component_error_def split: option.splits)
  have "map px_objects xs = map Some ys" if "those (map px_objects xs) = Some ys" for xs ys
    using that by (induction xs arbitrary: ys) (auto split: option.splits)
  then have "map px_objects (filter is_prefix_directory directories) = map Some objects" using o(1) .
  then have "objects = map (\<lambda>x. the (px_objects x)) (filter is_prefix_directory directories)"
    by (metis (no_types, lifting) comp_def list.map_comp list.map_cong0 list.map_id0 id_apply option.sel)
  then show ?thesis using o(2) by (simp add: filter_concat length_concat o_def)
qed

text \<open>
  The status of the memory database does not look at its schema version: one that the repository
  refuses to open is reported as ready.
\<close>

lemma incompatible_memory_reported_ready:
  assumes "dp_is_file d" and "dp_tables d = Some required_tables" and "dp_count d ''memory_records'' = Some n"
    and "dp_version d = Some v" and "v \<notin> {0, 1}" and "fst (seen_database k) = v"
  shows "cs_state (inspect_memory d) = ComponentReady" "require_compatible_schema 1 k = Inl IncompatibleSchema"
  using assms by (simp_all add: inspect_memory_def counted_def require_compatible_schema_def)

end
