(* ===== verification/Claims.thy ===== *)
theory Claims
  imports Evaluation_Contracts
begin

text \<open>
  Two contracts that persisted records must satisfy: reviewed memory claims (\<open>domain/memory.py\<close>) and
  benchmark manifests (\<open>domain/benchmarks.py\<close>).  A validator is the first failure of its checks, in
  the order of the source.
\<close>

section \<open>Memory claims\<close>

datatype epistemic_class =
    UserAssertion | ToolObservation | ExternalSource | ModelInference | Hypothesis | DecisionClass | Preference | Policy
datatype claim_status = CandidateClaim | Supported | Disputed | ContradictedClaim | RetractedClaim | SupersededClaim
datatype claim_review = Unreviewed | ReviewApproved | ReviewRejected

text \<open>\<open>^(evt|clm|doc|prc)_[0-9A-HJKMNP-TV-Z]{26}$\<close>\<close>

definition is_record_ref :: "string \<Rightarrow> bool" where
  "is_record_ref s \<longleftrightarrow> list_ex (\<lambda>tag. tagged_id tag s) [''evt'', ''clm'', ''doc'', ''prc'']"

text \<open>\<open>^[a-z][a-z0-9_-]{2,127}$\<close>\<close>

definition is_subject_id :: "string \<Rightarrow> bool" where
  "is_subject_id s \<longleftrightarrow> is_slug lower_chars (lower_chars @ digit_chars @ ''_-'') 2 127 s"

record memory_claim =
  mc_id :: string
  mc_class :: epistemic_class
  mc_status :: claim_status
  mc_subject :: string
  mc_content :: string
  mc_from :: "int option"
  mc_until :: "int option"
  mc_recorded :: int
  mc_sources :: "string list"
  mc_hash :: string
  mc_actor :: string
  mc_review :: claim_review
  mc_review_event :: "string option"
  mc_sensitivity :: sensitivity

datatype claim_error =
    ClaimFieldInvalid | SourcesRepeat | ContentHashMismatch | CitesItself | ReviewWithoutState | StateWithoutReview
  | ReviewIsSource | ValidityReversed

definition claim_fields_ok :: "memory_claim \<Rightarrow> bool" where
  "claim_fields_ok c \<longleftrightarrow>
     tagged_id ''clm'' (mc_id c) \<and> is_subject_id (mc_subject c) \<and> mc_content c \<noteq> [] \<and>
     mc_sources c \<noteq> [] \<and> list_all is_record_ref (mc_sources c) \<and> is_digest (mc_hash c) \<and>
     is_actor_id (mc_actor c) \<and> opt_ok (tagged_id ''evt'') (mc_review_event c)"

definition content_digest :: "hash_fn \<Rightarrow> string \<Rightarrow> string" where
  "content_digest sha content = digest_ref sha (map char_of (encode_utf8 (map of_char content)))"

definition validate_claim :: "hash_fn \<Rightarrow> memory_claim \<Rightarrow> claim_error option" where
  "validate_claim sha c =
     first_failure
       [ (claim_fields_ok c, ClaimFieldInvalid),
         (distinct (mc_sources c), SourcesRepeat),
         (mc_hash c = content_digest sha (mc_content c), ContentHashMismatch),
         (mc_id c \<notin> set (mc_sources c), CitesItself),
         (mc_review c = Unreviewed \<longrightarrow> mc_review_event c = None, ReviewWithoutState),
         (mc_review c \<noteq> Unreviewed \<longrightarrow> mc_review_event c \<noteq> None, StateWithoutReview),
         ((case mc_review_event c of None \<Rightarrow> True | Some e \<Rightarrow> e \<notin> set (mc_sources c)), ReviewIsSource),
         ((case (mc_from c, mc_until c) of (Some f, Some u) \<Rightarrow> f \<le> u | _ \<Rightarrow> True), ValidityReversed) ]"

text \<open>
  The identity of a claim, its review and its sources are kept apart: the references it carries are all
  different, and changing the content of a valid claim while its hash stays is detected, unless the two
  contents have one digest.
\<close>

lemma claim_references_distinct:
  assumes "validate_claim sha c = None"
  shows "distinct (mc_id c # mc_sources c @ (case mc_review_event c of None \<Rightarrow> [] | Some e \<Rightarrow> [e]))"
proof -
  have "\<not> tagged_id ''evt'' (mc_id c)" if "tagged_id ''clm'' (mc_id c)"
    using that by (auto simp: tagged_id_iff)
  then show ?thesis
    using assms [unfolded validate_claim_def first_failure_None]
    by (auto simp: claim_fields_ok_def opt_ok_def split: option.splits)
qed

lemma changed_content_detected:
  assumes "validate_claim sha c = None" and "content_digest sha content \<noteq> content_digest sha (mc_content c)"
    and "content \<noteq> []"
  shows "validate_claim sha (c\<lparr>mc_content := content\<rparr>) = Some ContentHashMismatch"
proof -
  have "claim_fields_ok (c\<lparr>mc_content := content\<rparr>)" "distinct (mc_sources c)" "mc_hash c = content_digest sha (mc_content c)"
    using assms(1) [unfolded validate_claim_def first_failure_None] assms(3) by (auto simp: claim_fields_ok_def)
  then show ?thesis using assms(2) by (simp add: validate_claim_def)
qed

section \<open>Benchmark manifests\<close>

datatype benchmark_condition =
    BmNoMemory | BmRawTranscript | HandMarkdown | BmGeneratedSummary | Fts5Evidence | ProvenanceEvidence
datatype metric_direction = Maximize | Minimize
datatype threat_case =
    MemoryPoisoning | StaleState | PermissionEscalation | CrossScopeRetrieval | UnsupportedCompletion | SecretExposure
  | ContradictionHandling | ProvenanceOmission

definition benchmark_conditions :: "benchmark_condition list" where
  "benchmark_conditions =
     [BmNoMemory, BmRawTranscript, HandMarkdown, BmGeneratedSummary, Fts5Evidence, ProvenanceEvidence]"

definition all_threats :: "threat_case list" where
  "all_threats = [MemoryPoisoning, StaleState, PermissionEscalation, CrossScopeRetrieval, UnsupportedCompletion,
     SecretExposure, ContradictionHandling, ProvenanceOmission]"

definition required_metrics :: "(string \<times> metric_direction) list" where
  "required_metrics =
     [(''correctness'', Maximize), (''citation_precision'', Maximize), (''evidence_recall'', Maximize),
      (''temporal_accuracy'', Maximize), (''obsolete_memory_reuse'', Minimize), (''contradiction_detection'', Maximize),
      (''abstention'', Maximize), (''unsafe_instruction_following'', Minimize), (''latency'', Minimize),
      (''tokens'', Minimize), (''correction_burden'', Minimize), (''critical_provenance_failures'', Minimize)]"

record benchmark_budgets =
  bb_tokens :: int
  bb_seconds :: int
  bb_tool_calls :: int
  bb_retries :: int

record promotion_gate =
  pg_critical :: int
  pg_equal_budgets :: bool
  pg_external :: bool

record benchmark_manifest =
  bm_id :: string
  bm_name :: string
  bm_version :: string
  bm_created :: int
  bm_tasks :: string
  bm_labels :: string
  bm_conditions :: "benchmark_condition list"
  bm_metrics :: "(string \<times> metric_direction) list"
  bm_budgets :: benchmark_budgets
  bm_gate :: promotion_gate
  bm_threats :: "threat_case list"

definition valid_benchmark_budgets :: "benchmark_budgets \<Rightarrow> bool" where
  "valid_benchmark_budgets b \<longleftrightarrow> 1 \<le> bb_tokens b \<and> 1 \<le> bb_seconds b \<and> 0 \<le> bb_tool_calls b \<and> 0 \<le> bb_retries b \<and>
     list_all (\<lambda>n. abs n \<le> max_interoperable_integer) [bb_tokens b, bb_seconds b, bb_tool_calls b, bb_retries b]"

definition valid_gate :: "promotion_gate \<Rightarrow> bool" where
  "valid_gate g \<longleftrightarrow> pg_critical g = 0 \<and> pg_equal_budgets g \<and> pg_external g"

text \<open>\<open>conditions\<close> and \<open>threat_cases\<close>: no repetition, and every one of them\<close>

definition covers :: "'a list \<Rightarrow> 'a list \<Rightarrow> bool" where
  "covers required given \<longleftrightarrow> length given = length (remdups given) \<and> set given = set required"

text \<open>The keys of a mapping are distinct; it is compared without regard to their order.\<close>

definition valid_benchmark :: "benchmark_manifest \<Rightarrow> bool" where
  "valid_benchmark b \<longleftrightarrow>
     tagged_id ''bmk'' (bm_id b) \<and>
     is_suite_id (bm_name b) \<and> is_version (bm_version b) \<and>
     is_digest (bm_tasks b) \<and> bm_labels b = ''external'' \<and>
     covers benchmark_conditions (bm_conditions b) \<and>
     distinct (map fst (bm_metrics b)) \<and> set (bm_metrics b) = set required_metrics \<and>
     valid_benchmark_budgets (bm_budgets b) \<and> valid_gate (bm_gate b) \<and> covers all_threats (bm_threats b)"

text \<open>A valid manifest runs each condition once, meets each threat once and cannot drop a metric.\<close>

lemma covers_permutation: "distinct required \<Longrightarrow> covers required given \<Longrightarrow> mset given = mset required"
  using card_distinct [of given] set_eq_iff_mset_eq_distinct [of given required]
  by (simp add: covers_def length_remdups_card_conv)

lemma benchmark_complete:
  assumes "valid_benchmark b"
  shows "mset (bm_conditions b) = mset benchmark_conditions" "mset (bm_threats b) = mset all_threats"
    "map_of (bm_metrics b) = map_of required_metrics"
proof -
  have "distinct benchmark_conditions" "distinct all_threats" by (simp_all add: benchmark_conditions_def all_threats_def)
  then show "mset (bm_conditions b) = mset benchmark_conditions" "mset (bm_threats b) = mset all_threats"
    using assms covers_permutation by (auto simp: valid_benchmark_def)
  have "distinct (map fst required_metrics)" by (simp add: required_metrics_def)
  then show "map_of (bm_metrics b) = map_of required_metrics"
    using assms by (intro map_of_inject_set [THEN iffD2]) (auto simp: valid_benchmark_def)
qed

end
