(* ===== verification/Application.thy ===== *)
theory Application
  imports Memory_Routes Decision Proposals
begin

text \<open>
  The application over HTTP: the routes of chat, capability decisions, artifact imports, memory
  proposals and product memory, as \<open>api.py\<close> composes them over one data directory and one credential.
  A call is answered with its status.  The framework resolves the credential before it checks the
  declared fields of a request; the four reading routes of memory declare none.
\<close>

section \<open>State\<close>

text \<open>
  The stores of the data directory: the ledger, the artifacts, the grants, with what has been read and
  asked of the provider (\<open>desk\<close>), and the database of the product memory, which exists or not.
\<close>

record application =
  as_desk :: desk
  as_memory :: memory_store

text \<open>The stores as the runtime opens them.\<close>

definition desk_now :: "application \<Rightarrow> desk" where
  "desk_now a = (as_desk a)\<lparr>dk_ws := (dk_ws (as_desk a))\<lparr>ws_memory := fst (opened (as_memory a))\<rparr>\<rparr>"

definition with_ws :: "workspace \<Rightarrow> application \<Rightarrow> application" where
  "with_ws ws a = a\<lparr>as_desk := (desk_now a)\<lparr>dk_ws := ws\<rparr>\<rparr>"

definition failure_status :: "route_failure \<Rightarrow> nat" where
  "failure_status f = (case f of HttpFailure status _ \<Rightarrow> status | Unprocessable \<Rightarrow> 422 | ServerError \<Rightarrow> 500)"

section \<open>Chat\<close>

text \<open>A request whose key is new compiles its context, and so opens the memory repository.\<close>

definition post_message ::
    "runtime \<Rightarrow> int \<Rightarrow> int \<Rightarrow> provider \<Rightarrow> string \<Rightarrow> chat_request \<Rightarrow> string \<Rightarrow> application \<Rightarrow> nat \<times> application" where
  "post_message R now later P who q key a =
     (if \<not> valid_chat_request q \<or> \<not> is_header_key key then (422, a)
      else (case create_chat_message R now later (dk_ws (desk_now a)) q key P who of (res, ws') \<Rightarrow>
        (post_status res,
         (with_ws ws' a)\<lparr>as_memory :=
            (if get_by_idempotency (rt_codec R) (ws_ledger (dk_ws (desk_now a))) key = Inr None
             then keep_store (opened (as_memory a)) else as_memory a)\<rparr>)))"

definition get_run :: "runtime \<Rightarrow> string \<Rightarrow> string \<Rightarrow> application \<Rightarrow> nat \<times> application" where
  "get_run R session_id run_id a =
     (if \<not> tagged_id ''ses'' session_id \<or> \<not> tagged_id ''run'' run_id then (422, a)
      else (inspect_status (inspect_run R (dk_ws (desk_now a)) session_id run_id), a))"

section \<open>Capability decisions\<close>

definition decide_request ::
    "service \<Rightarrow> provider \<Rightarrow> string \<Rightarrow> string \<Rightarrow> string \<Rightarrow> string \<Rightarrow> decision \<Rightarrow> string \<Rightarrow> application \<Rightarrow> nat \<times> application" where
  "decide_request S P who session_id run_id request_event d key a =
     (if \<not> tagged_id ''ses'' session_id \<or> \<not> tagged_id ''run'' run_id \<or> \<not> tagged_id ''evt'' request_event \<or>
         \<not> tagged_id ''evt'' (ds_id d) \<or> \<not> is_header_key key then (422, a)
      else (case decide_file_read_request S P session_id run_id request_event d key who (desk_now a) of (res, w') \<Rightarrow>
        (decision_status res, a\<lparr>as_desk := w'\<rparr>)))"

section \<open>Imports and proposals\<close>

definition import_status :: "import_trouble + 'a \<Rightarrow> nat" where
  "import_status r = (case r of Inr _ \<Rightarrow> 201 | Inl (HttpError status _) \<Rightarrow> status | Inl _ \<Rightarrow> 500)"

definition post_artifact_import ::
    "runtime \<Rightarrow> indexed_note list option \<Rightarrow> (string \<times> scope_probe) list \<Rightarrow> source_probe \<Rightarrow> int \<Rightarrow> string
      \<Rightarrow> import_request \<Rightarrow> string \<Rightarrow> application \<Rightarrow> nat \<times> application" where
  "post_artifact_import R vault scopes probe now who q key a =
     (if \<not> valid_import_request q \<or> \<not> is_header_key key then (422, a)
      else (case import_artifact R vault scopes probe q key who now (dk_ws (desk_now a)) of (res, ws') \<Rightarrow>
        (import_status res, with_ws ws' a)))"

definition get_artifact_import_sources ::
    "(string \<times> scope_listing) list \<Rightarrow> application \<Rightarrow> nat \<times> application" where
  "get_artifact_import_sources scopes a =
     (case list_import_sources scopes of Inr _ \<Rightarrow> 200 | Inl (HttpError status _) \<Rightarrow> status | Inl _ \<Rightarrow> 500, a)"

definition proposal_status :: "proposal_trouble + 'a \<Rightarrow> nat" where
  "proposal_status r = (case r of Inr _ \<Rightarrow> 200 | Inl (ProposalHttp status _) \<Rightarrow> status | Inl _ \<Rightarrow> 500)"

definition list_memory_proposals :: "runtime \<Rightarrow> application \<Rightarrow> nat \<times> application" where
  "list_memory_proposals R a =
     (proposal_status (case iter_all (rt_codec R) (ws_ledger (dk_ws (desk_now a))) of
        Inl x \<Rightarrow> Inl (ProposalStore x) | Inr es \<Rightarrow> project_memory_proposals es), a)"

text \<open>Calls are served one after the other, so nothing is appended between reading and deciding.\<close>

definition post_memory_proposal_decision ::
    "runtime \<Rightarrow> int \<Rightarrow> string \<Rightarrow> string \<Rightarrow> review_request \<Rightarrow> string \<Rightarrow> application \<Rightarrow> nat \<times> application" where
  "post_memory_proposal_decision R now who proposal_id q key a =
     (if \<not> tagged_id ''evt'' proposal_id \<or> \<not> tagged_id ''evt'' (rr_id q) \<or> \<not> is_header_key key then (422, a)
      else (case decide_memory_proposal R (\<lambda>rows. rows) proposal_id q key who now (dk_ws (desk_now a)) of (res, ws') \<Rightarrow>
        (proposal_status res, with_ws ws' a)))"

section \<open>Reading memory\<close>

datatype memory_read =
    ReadIndex
  | ReadNodes "memory_category option" "memory_domain option"
  | ReadNode string
  | ReadSourceStatus

text \<open>The answers of the reading routes, which open the database only if it exists.\<close>

datatype memory_view =
    IndexView index_projection
  | NodesView node_collection
  | NodeView node_detail
  | SourceView source_state

definition read_memory ::
    "codec \<Rightarrow> vault_view option \<Rightarrow> memory_read \<Rightarrow> memory_store \<Rightarrow> route_failure + memory_view" where
  "read_memory C vault m s =
     (case m of
        ReadIndex \<Rightarrow> Inr (IndexView (memory_index C vault s))
      | ReadNodes category domain \<Rightarrow> Inr (NodesView (memory_nodes C vault category domain s))
      | ReadNode node_id \<Rightarrow> map_sum id NodeView (memory_node C vault node_id s)
      | ReadSourceStatus \<Rightarrow> Inr (SourceView (obsidian_source_status vault)))"

definition get_memory_route ::
    "codec \<Rightarrow> vault_view option \<Rightarrow> memory_read \<Rightarrow> application \<Rightarrow> nat \<times> application" where
  "get_memory_route C vault m a =
     (case read_memory C vault m (as_memory a) of Inl f \<Rightarrow> failure_status f | Inr _ \<Rightarrow> 200, a)"

section \<open>The application\<close>

text \<open>A call, with what the surroundings are when it is served: clocks, provider, file systems, vault.\<close>

datatype http_call =
    PostMessage int int provider chat_request string
  | GetRun string string
  | DecideRequest service provider string string string decision string
  | PostImport "indexed_note list option" "(string \<times> scope_probe) list" source_probe int import_request string
  | ListSources "(string \<times> scope_listing) list"
  | ListProposals
  | DecideProposal int string review_request string
  | CallMemory "vault_view option" memory_call
  | ReadMemory "vault_view option" memory_read

definition serve_principal ::
    "runtime \<Rightarrow> (nat \<Rightarrow> string) \<Rightarrow> workspace_auth \<Rightarrow> string option \<Rightarrow> string \<Rightarrow> http_call \<Rightarrow> application
      \<Rightarrow> nat \<times> application" where
  "serve_principal R rand auth header who call a =
     (case call of
        PostMessage now later P q key \<Rightarrow> post_message R now later P who q key a
      | GetRun session_id run_id \<Rightarrow> get_run R session_id run_id a
      | DecideRequest S P session_id run_id request_event d key \<Rightarrow>
          decide_request (S\<lparr>sv_runtime := R\<rparr>) P who session_id run_id request_event d key a
      | PostImport vault scopes probe now q key \<Rightarrow> post_artifact_import R vault scopes probe now who q key a
      | ListSources scopes \<Rightarrow> get_artifact_import_sources scopes a
      | ListProposals \<Rightarrow> list_memory_proposals R a
      | DecideProposal now proposal_id q key \<Rightarrow> post_memory_proposal_decision R now who proposal_id q key a
      | CallMemory vault m \<Rightarrow>
          (case serve_memory (rt_codec R) rand auth (header, vault, m) (as_memory a) of (res, s') \<Rightarrow>
             (case res of Inl f \<Rightarrow> failure_status f | Inr _ \<Rightarrow> (case m of CreateNode _ \<Rightarrow> 201 | _ \<Rightarrow> 200),
              a\<lparr>as_memory := s'\<rparr>))
      | ReadMemory vault m \<Rightarrow> get_memory_route (rt_codec R) vault m a)"

definition serve_http ::
    "runtime \<Rightarrow> (nat \<Rightarrow> string) \<Rightarrow> workspace_auth \<Rightarrow> string option \<times> http_call \<Rightarrow> application \<Rightarrow> nat \<times> application" where
  "serve_http R rand auth request a =
     (case request of (header, call) \<Rightarrow>
        (case call of
           ReadMemory vault m \<Rightarrow> get_memory_route (rt_codec R) vault m a
         | _ \<Rightarrow>
            (case require_principal auth header of
               Inl f \<Rightarrow> (failure_status f, a)
             | Inr p \<Rightarrow> serve_principal R rand auth header (pr_actor p) call a)))"

definition empty_application :: "fs \<Rightarrow> grant_row list \<Rightarrow> application" where
  "empty_application files grants =
     \<lparr> as_desk = \<lparr> dk_ws = \<lparr> ws_ledger = [], ws_files = files, ws_memory = empty_memory_db, ws_calls = [] \<rparr>,
         dk_grants = grants, dk_reads = [] \<rparr>,
       as_memory = (None, 0) \<rparr>"

definition serve_calls ::
    "runtime \<Rightarrow> (nat \<Rightarrow> string) \<Rightarrow> workspace_auth \<Rightarrow> application \<Rightarrow> (string option \<times> http_call) list \<Rightarrow> application" where
  "serve_calls R rand auth a requests = fold (\<lambda>request a. snd (serve_http R rand auth request a)) requests a"

end
