(* ===== verification/Application_Safety.thy ===== *)
theory Application_Safety
  imports Application Memory_Route_Safety Decision_Safety
begin

text \<open>
  The application as a whole: whatever calls are made over HTTP, files are read only under approvals
  that authenticated calls gave, and what a chat message does to the memory that is shown.
\<close>

section \<open>What the calls do to the ledger\<close>

lemma append_event_grows:
  "ledger_ok C rows \<Longrightarrow> append_event C artifacts rows e key = (res, rows') \<Longrightarrow> ledger_grows C rows rows'"
  using append_many_grows [of C rows artifacts "[(e, key)]"]
  by (auto simp: append_event_def split: prod.splits sum.splits)

text \<open>An action on the workspace that only appends to its ledger.\<close>

definition appends :: "codec \<Rightarrow> workspace \<Rightarrow> workspace \<Rightarrow> bool" where
  "appends C ws ws' \<longleftrightarrow> ws_calls ws' = ws_calls ws \<and>
     (ledger_ok C (ws_ledger ws) \<longrightarrow> ledger_grows C (ws_ledger ws) (ws_ledger ws'))"

lemma appends_refl: "appends C ws ws"
  by (simp add: appends_def)

lemma appends_files: "appends C (ws\<lparr>ws_files := files\<rparr>) ws' \<Longrightarrow> appends C ws ws'"
  by (simp add: appends_def)

lemma appends_files_only: "appends C ws (ws\<lparr>ws_files := files\<rparr>)"
  by (simp add: appends_def)

lemma appends_trans: "appends C a b \<Longrightarrow> appends C b c \<Longrightarrow> appends C a c"
  using ledger_grows_trans unfolding appends_def ledger_grows_def by (metis subset_trans)

lemma keeps_appends_and_then:
  assumes "keeps (appends C) m" and "\<And>x. keeps (appends C) (f x)"
  shows "keeps (appends C) (and_then m f)"
proof (rule keepsI)
  fix s r s'
  assume a: "and_then m f s = (r, s')"
  obtain x s1 where m: "m s = (x, s1)" by (cases "m s")
  show "appends C s s'"
    using a keepsD [OF assms(1) m] m appends_trans keepsD [OF assms(2)]
    by (cases x) (auto simp: and_then_def)
qed

lemma keeps_appends_simps [simp]: "keeps (appends C) (give x)" "keeps (appends C) (throw e)"
  by (auto simp: keeps_def give_def throw_def appends_refl)

lemma record_event_appends: "keeps (appends (rt_codec R)) (record_event R e key)"
proof (rule keepsI)
  fix ws r ws'
  assume "record_event R e key ws = (r, ws')"
  then show "appends (rt_codec R) ws ws'"
    using append_event_grows [of "rt_codec R" "ws_ledger ws" "Some (artifact_verified R (ws_files ws))"]
    by (auto simp: record_event_def appends_def split: prod.splits sum.splits)
qed

lemma record_association_appends: "keeps (appends (rt_codec R)) (record_association R q key a m target)"
  by (auto simp: record_association_def Let_def split: option.splits intro!: keeps_appends_and_then record_event_appends)

lemma record_then_appends:
  "keeps (appends (rt_codec R)) (and_then (record_event R e key) (\<lambda>_. throw x))"
  "keeps (appends (rt_codec R)) (and_then (record_event R e key) (\<lambda>_. give y))"
  by (intro keeps_appends_and_then record_event_appends keeps_appends_simps)+

lemma import_and_record_appends:
  assumes "import_and_record R P configured probe sel a key s = (r, s')"
  shows "appends (rt_codec R) s s'"
proof -
  obtain f files where f: "import_selected R P configured probe sel (ws_files s) = (f, files)"
    by (cases "import_selected R P configured probe sel (ws_files s)")
  show ?thesis
  proof (cases f)
    case (Inl x)
    show ?thesis
    proof (cases "import_failure_code x")
      case None
      then show ?thesis using assms f Inl appends_files_only by (auto simp: import_and_record_def Let_def)
    next
      case (Some code)
      then show ?thesis using assms f Inl
        by (intro appends_files [of "rt_codec R" files s] keepsD [OF record_then_appends(1)])
          (simp add: import_and_record_def Let_def)
    qed
  next
    case (Inr m)
    then show ?thesis using assms f
      by (intro appends_files [of "rt_codec R" files s] keepsD [OF record_then_appends(2)])
        (simp add: import_and_record_def Let_def)
  qed
qed

lemma import_new_cases:
  assumes "import_new R scopes probe q key who now target ws = (res, ws')"
  obtains "ws' = ws"
  | configured x where "import_and_record R import_policy configured probe
      \<lparr> sl_scope = ir_scope q, sl_target = ir_target q \<rparr> (audit_of q who now) key ws = (Inl x, ws')"
  | configured m s1 where "import_and_record R import_policy configured probe
      \<lparr> sl_scope = ir_scope q, sl_target = ir_target q \<rparr> (audit_of q who now) key ws = (Inr m, s1)"
    "and_then (record_association R q key (audit_of q who now) m target)
      (\<lambda>x. give \<lparr> rp_event = ir_id q, rp_artifact = m, rp_association = x \<rparr>) s1 = (res, ws')"
proof (cases "configure_scopes scopes")
  case (Inl f)
  then show thesis using assms that(1) by (simp add: import_new_def)
next
  case (Inr configured)
  obtain r s1 where r: "import_and_record R import_policy configured probe
      \<lparr> sl_scope = ir_scope q, sl_target = ir_target q \<rparr> (audit_of q who now) key ws = (r, s1)" by (rule prod.exhaust)
  show thesis
  proof (cases r)
    case x: (Inl x)
    have "ws' = s1" using assms Inr r x by (cases x) (simp_all add: import_new_def split: import_failure.splits)
    then show thesis using that(2) r x by simp
  next
    case m: (Inr m)
    show thesis by (rule that(3)) (use assms Inr r m in \<open>simp_all add: import_new_def\<close>)
  qed
qed

lemma import_new_appends:
  assumes "import_new R scopes probe q key who now target ws = (res, ws')"
  shows "appends (rt_codec R) ws ws'"
  using assms
proof (cases rule: import_new_cases)
  case 1
  then show ?thesis by (simp add: appends_refl)
next
  case (2 configured x)
  then show ?thesis by (rule import_and_record_appends)
next
  case (3 configured m s1)
  have k: "keeps (appends (rt_codec R)) (and_then (record_association R q key (audit_of q who now) m target)
      (\<lambda>x. give \<lparr> rp_event = ir_id q, rp_artifact = m, rp_association = x \<rparr>))"
    by (intro keeps_appends_and_then record_association_appends keeps_appends_simps)
  show ?thesis by (rule appends_trans [OF import_and_record_appends [OF 3(1)] keepsD [OF k 3(2)]])
qed

lemma import_artifact_appends:
  assumes "import_artifact R vault scopes probe q key who now ws = (res, ws')"
  shows "appends (rt_codec R) ws ws'"
proof -
  have "ws' = ws \<or> (\<exists>target. import_new R scopes probe q key who now target ws = (res, ws'))" using assms
    by (auto simp: import_artifact_def split: if_splits sum.splits option.splits)
  then show ?thesis using import_new_appends appends_refl by blast
qed

lemma decide_proposal_appends:
  assumes "decide_memory_proposal R (\<lambda>rows. rows) i q key who now ws = (res, ws')"
  shows "appends (rt_codec R) ws ws'"
proof -
  have "ws' = ws \<or> (\<exists>e. append_review R (\<lambda>rows. rows) i q key e ws = (res, ws'))"
    using assms by (auto simp: decide_memory_proposal_def review_new_def Let_def split: sum.splits option.splits if_splits)
  moreover have "appends (rt_codec R) ws ws'" if "append_review R (\<lambda>rows. rows) i q key e ws = (res, ws')" for e
  proof (cases "validate_event (rt_codec R) e")
    case (Inl x)
    then show ?thesis using that by (simp add: append_review_def appends_refl)
  next
    case (Inr e')
    obtain x rows where x: "append_event (rt_codec R) (Some (artifact_verified R (ws_files ws))) (ws_ledger ws) e' key = (x, rows)"
      by (meson surj_pair)
    then have "ws' = ws\<lparr>ws_ledger := rows\<rparr>"
      using that Inr by (auto simp: append_review_def Let_def split: sum.splits store_error.splits)
    then show ?thesis using append_event_grows [OF _ x] by (simp add: appends_def)
  qed
  ultimately show ?thesis using appends_refl by blast
qed

section \<open>One call\<close>

text \<open>A call that adds no read.\<close>

definition reads_nothing :: "runtime \<Rightarrow> application \<Rightarrow> application \<Rightarrow> bool" where
  "reads_nothing R a a' \<longleftrightarrow> dk_reads (as_desk a') = dk_reads (as_desk a) \<and>
     ledger_grows (rt_codec R) (desk_ledger (as_desk a)) (desk_ledger (as_desk a'))"

lemma desk_now_simps [simp]:
  "desk_ledger (desk_now a) = desk_ledger (as_desk a)" "dk_reads (desk_now a) = dk_reads (as_desk a)"
  "ws_ledger (dk_ws (desk_now a)) = desk_ledger (as_desk a)"
  by (simp_all add: desk_now_def desk_ledger_def)

lemma with_ws_simps [simp]:
  "desk_ledger (as_desk (with_ws ws a)) = ws_ledger ws" "dk_reads (as_desk (with_ws ws a)) = dk_reads (as_desk a)"
  by (simp_all add: with_ws_def desk_ledger_def)

lemma reads_nothing_refl: "ledger_ok (rt_codec R) (desk_ledger (as_desk a)) \<Longrightarrow> reads_nothing R a a"
  by (simp add: reads_nothing_def)

lemma reads_nothing_ws:
  assumes "ledger_ok (rt_codec R) (desk_ledger (as_desk a))" and "appends (rt_codec R) (dk_ws (desk_now a)) ws"
  shows "reads_nothing R a (with_ws ws a)"
  using assms by (simp add: reads_nothing_def appends_def)

lemma post_message_reads_nothing:
  assumes "ledger_ok (rt_codec R) (desk_ledger (as_desk a))" and "post_message R now later P who q key a = (n, a')"
  shows "reads_nothing R a a'"
proof (cases "valid_chat_request q \<and> is_header_key key")
  case False
  then have "a' = a" using assms(2) by (auto simp: post_message_def split: if_splits)
  then show ?thesis using reads_nothing_refl assms(1) by simp
next
  case True
  obtain res ws' where c: "create_chat_message R now later (dk_ws (desk_now a)) q key P who = (res, ws')" by (meson surj_pair)
  then have "as_desk a' = as_desk (with_ws ws' a)" using True assms(2) by (auto simp: post_message_def)
  moreover have "ledger_grows (rt_codec R) (desk_ledger (as_desk a)) (ws_ledger ws')"
    using chat_turn_effect [OF _ c] assms(1) by simp
  ultimately show ?thesis by (simp add: reads_nothing_def)
qed

lemma post_import_reads_nothing:
  assumes "ledger_ok (rt_codec R) (desk_ledger (as_desk a))"
    and "post_artifact_import R vault scopes probe now who q key a = (n, a')"
  shows "reads_nothing R a a'"
  using assms import_artifact_appends reads_nothing_refl reads_nothing_ws
  by (auto simp: post_artifact_import_def split: if_splits prod.splits)

lemma post_decision_reads_nothing:
  assumes "ledger_ok (rt_codec R) (desk_ledger (as_desk a))"
    and "post_memory_proposal_decision R now who i q key a = (n, a')"
  shows "reads_nothing R a a'"
  using assms decide_proposal_appends reads_nothing_refl reads_nothing_ws
  by (auto simp: post_memory_proposal_decision_def split: if_splits prod.splits)

text \<open>What a decision call does: nothing is read, or one file under a new approval of the caller.\<close>

lemma decide_request_effect:
  assumes "ledger_ok (sv_codec S) (desk_ledger (as_desk a))"
    and "decide_request S P who session_id run_id request_event d key a = (n, a')"
  obtains "reads_nothing (sv_runtime S) a a'"
  | e where "ledger_grows (sv_codec S) (desk_ledger (as_desk a)) (desk_ledger (as_desk a'))"
      "dk_reads (as_desk a') = dk_reads (as_desk a) @ [ds_id d]" "ds_verdict d = ApprovedVerdict"
      "approval_of (ds_id d) who e" "e \<in> set (ledger_events (sv_codec S) (desk_ledger (as_desk a')))"
      "ds_id d \<notin> ev_id ` set (ledger_events (sv_codec S) (desk_ledger (as_desk a)))"
proof (cases "a' = a")
  case True
  then show thesis using that(1) reads_nothing_refl assms(1) by blast
next
  case False
  then obtain res w' where d: "decide_file_read_request S P session_id run_id request_event d key who (desk_now a) = (res, w')"
      and a': "a' = a\<lparr>as_desk := w'\<rparr>"
    using assms(2) by (auto simp: decide_request_def split: if_splits prod.splits)
  have ok: "ledger_ok (sv_codec S) (desk_ledger (desk_now a))" using assms(1) by simp
  show thesis
  proof (rule decide_effect [OF ok d])
    assume "effects (sv_codec S) (ds_id d) 0 0 (desk_now a) w'"
    then show thesis using that(1) ok a' by (simp add: effects_def reads_nothing_def)
  next
    fix e
    assume x: "effects (sv_codec S) (ds_id d) 1 1 (desk_now a) w'" and e: "ds_verdict d = ApprovedVerdict"
      "approval_of (ds_id d) who e" "e \<in> set (ledger_events (sv_codec S) (desk_ledger w'))"
      "ds_id d \<notin> ev_id ` set (ledger_events (sv_codec S) (desk_ledger (desk_now a)))"
    obtain r where r: "r \<le> 1" "dk_reads w' = dk_reads (as_desk a) @ replicate r (ds_id d)"
        "ledger_grows (sv_codec S) (desk_ledger (as_desk a)) (desk_ledger w')"
      using x ok unfolding effects_def desk_now_simps by blast
    show thesis
    proof (cases r)
      case 0
      then show thesis using that(1) r a' by (simp add: reads_nothing_def)
    next
      case (Suc r')
      then show thesis using that(2) [of e] r e a' by simp
    qed
  qed
qed

text \<open>Every call appends to the ledger at most, and reads at most one file, as an authenticated approval.\<close>

lemma serve_http_effect:
  assumes "ledger_ok (rt_codec R) (desk_ledger (as_desk a))" and "serve_http R rand auth (header, call) a = (n, a')"
  obtains "reads_nothing R a a'"
  | p S P session_id run_id request_event d key e where "require_principal auth header = Inr p"
      "call = DecideRequest S P session_id run_id request_event d key"
      "ledger_grows (rt_codec R) (desk_ledger (as_desk a)) (desk_ledger (as_desk a'))"
      "dk_reads (as_desk a') = dk_reads (as_desk a) @ [ds_id d]" "ds_verdict d = ApprovedVerdict"
      "approval_of (ds_id d) (pr_actor p) e" "e \<in> set (ledger_events (rt_codec R) (desk_ledger (as_desk a')))"
      "ds_id d \<notin> ev_id ` set (ledger_events (rt_codec R) (desk_ledger (as_desk a)))"
proof (cases "require_principal auth header")
  case (Inl f)
  then have "a' = a" using assms(2) by (auto simp: serve_http_def get_memory_route_def split: http_call.splits)
  then show thesis using that(1) assms(1) reads_nothing_refl by blast
next
  case (Inr p)
  then have s: "serve_principal R rand auth header (pr_actor p) call a = (n, a')" using assms(2)
    by (auto simp: serve_http_def serve_principal_def split: http_call.splits)
  show thesis
  proof (cases call)
    case (PostMessage now later P q key)
    then show thesis using that(1) post_message_reads_nothing assms(1) s by (simp add: serve_principal_def)
  next
    case (PostImport vault scopes probe now q key)
    then show thesis using that(1) post_import_reads_nothing assms(1) s by (simp add: serve_principal_def)
  next
    case (DecideProposal now i q key)
    then show thesis using that(1) post_decision_reads_nothing assms(1) s by (simp add: serve_principal_def)
  next
    case (DecideRequest S P session_id run_id request_event d key)
    let ?S = "S\<lparr>sv_runtime := R\<rparr>"
    have d: "decide_request ?S P (pr_actor p) session_id run_id request_event d key a = (n, a')"
      using s DecideRequest by (simp add: serve_principal_def)
    show thesis
      by (rule decide_request_effect [OF _ d]) (use assms(1) that(1) that(2) [OF Inr DecideRequest] in simp_all)
  next
    case (CallMemory vault m)
    then show thesis using that(1) assms(1) s
      by (auto simp: serve_principal_def reads_nothing_def split: prod.splits)
  qed (use that(1) reads_nothing_refl assms(1) s in
      \<open>auto simp: serve_principal_def get_run_def list_memory_proposals_def get_artifact_import_sources_def
        get_memory_route_def split: if_splits\<close>)
qed

end
