(* ===== verification/Application_Calls.thy ===== *)
theory Application_Calls
  imports Application_Safety Grant_Log
begin

text \<open>
  Sequences of HTTP calls against one data directory: where the approval of a file read comes from, and
  what becomes of the reviewed vault when the first chat message is answered.
\<close>

section \<open>Sequences of calls\<close>









section \<open>The grants behind the reads\<close>







section \<open>The vault and the first message\<close>

text \<open>
  C37: answering a chat message changes which memory is shown: a data directory without a memory
  database shows the notes of the reviewed vault; the first authenticated message with a new key,
  whatever becomes of it, opens the repository and leaves an empty database behind, after which the
  index is ready and empty and no note of the vault is listed.
\<close>

theorem chat_message_hides_vault:
  assumes "require_principal auth header = Inr p" and "valid_chat_request q" and "is_header_key key"
    and "as_memory a = (None, n)" and "get_by_idempotency (rt_codec R) (ws_ledger (dk_ws (as_desk a))) key = Inr None"
    and "load_memory_index C vault = Inr ix"
    and "serve_http R rand auth (header, PostMessage now later P q key) a = (status, a')"
  shows "ip_node_count (memory_index C vault (as_memory a)) = length (ix_notes ix) \<and>
    nc_nodes (memory_nodes C vault None None (as_memory a)) = map summarize (ix_notes ix) \<and>
    ip_state (memory_index C vault (as_memory a')) = Ready \<and> ip_node_count (memory_index C vault (as_memory a')) = 0 \<and>
    nc_nodes (memory_nodes C vault None None (as_memory a')) = []"
proof -
  have "get_by_idempotency (rt_codec R) (desk_ledger (as_desk a)) key = Inr None" using assms(5) by (simp add: desk_ledger_def)
  then have "as_memory a' = keep_store (opened (None, n))"
    using assms(1-4,7) by (auto simp: serve_http_def serve_principal_def post_message_def split: prod.splits)
  moreover have "keep_store (opened (None, n)) = (Some empty_memory_db, n)" by (simp add: keep_store_def opened_def)
  ultimately show ?thesis using assms(4) vault_shown [OF assms(6)] vault_hidden by simp
qed

end
