(* ===== verification/Application_Samples.thy ===== *)
theory Application_Samples
  imports Application_Calls Decision_Runs Memory_Route_Samples
begin

text \<open>The application at concrete calls: a message whose provider asks for a file, and its approval.\<close>

definition desk_auth :: workspace_auth where
  "desk_auth = \<lparr> wa_credential = Some ''secret'', wa_workspace = ''ws_local'', wa_actor = ''human_local'' \<rparr>"

lemma desk_principal:
  "require_principal desk_auth local_header = Inr \<lparr> pr_workspace = ''ws_local'', pr_actor = ''human_local'' \<rparr>"
  by code_simp

definition start_application :: application where
  "start_application = empty_application (\<lambda>_. None) []"

definition asked_application :: application where
  "asked_application = \<lparr> as_desk = desk_start, as_memory = (Some empty_memory_db, 0) \<rparr>"

definition message_call :: "string option \<times> http_call" where
  "message_call = (local_header, PostMessage 7 8 tool_provider chat_q chat_key)"


lemma chat_q_valid: "valid_chat_request chat_q" "is_header_key chat_key" "is_header_key desk_key"
proof -
  show "is_header_key chat_key" "is_header_key desk_key" by code_simp+
  show "valid_chat_request chat_q"
    by (simp add: valid_chat_request_def chat_q_def sample_id_tagged crockford_def)
qed

lemma message_served: "serve_http chat_runtime (\<lambda>_. []) desk_auth message_call start_application = (202, asked_application)"
proof -
  have w: "desk_now start_application = \<lparr> dk_ws = chat_start, dk_grants = [], dk_reads = [] \<rparr>"
    by (simp add: start_application_def empty_application_def desk_now_def opened_def chat_start_def)
  have m: "as_memory start_application = (None, 0)" "keep_store (opened (None, 0)) = (Some empty_memory_db, 0)"
    by (simp_all add: start_application_def empty_application_def keep_store_def opened_def)
  have s: "with_ws asked_ws start_application = \<lparr> as_desk = desk_start, as_memory = (None, 0) \<rparr>"
    unfolding with_ws_def w by (simp add: start_application_def empty_application_def desk_start_def)
  obtain r where "create_chat_message chat_runtime 7 8 chat_start chat_q chat_key tool_provider ''human_local'' =
      (Inr (AwaitingTool r), asked_ws)"
    using asked_turn by blast
  moreover have "get_by_idempotency chat_codec (ws_ledger chat_start) chat_key = Inr None"
    using chat_q_valid(2) by (simp add: get_by_idempotency_def chat_start_def chat_key_def is_idempotency_key_def key_chars_def alnum_chars_def
        lower_chars_def upper_chars_def digit_chars_def)
  ultimately show ?thesis using chat_q_valid(1,2)
    by (simp add: serve_http_def message_call_def desk_principal serve_principal_def post_message_def w m s post_status_def
        asked_application_def)
qed



theorem chat_message_hides_vault_witness:
  "\<exists>vault status a'. serve_http chat_runtime (\<lambda>_. []) desk_auth message_call start_application = (status, a') \<and>
     ip_node_count (memory_index sample_codec vault (as_memory start_application)) = 1 \<and>
     ip_node_count (memory_index sample_codec vault (as_memory a')) = 0"
proof -
  let ?vault = "Some \<lparr> vv_is_dir = True, vv_root = Some sample_vault, vv_directory = True, vv_probes = [plan] \<rparr>"
  obtain ix where ix: "build_reviewed_obsidian_index sample_codec (Some sample_vault) True [plan] = Inr ix" "ix_notes ix = [planned]"
    using one_note_index [OF sample_visible(1) plan_built] by blast
  have l: "load_memory_index sample_codec ?vault = Inr ix" using ix(1) by (simp add: load_memory_index_def)
  have m: "as_memory start_application = (None, 0)" by (simp add: start_application_def empty_application_def)
  have k: "get_by_idempotency (rt_codec chat_runtime) (ws_ledger (dk_ws (as_desk start_application))) chat_key = Inr None"
    by (simp add: start_application_def empty_application_def get_by_idempotency_def chat_key_def is_idempotency_key_def
        key_chars_def alnum_chars_def lower_chars_def upper_chars_def digit_chars_def)
  note h = chat_message_hides_vault [OF desk_principal chat_q_valid(1,2) m k l message_served [unfolded message_call_def]]
  show ?thesis
    by (rule exI [of _ ?vault], rule exI [of _ 202], rule exI [of _ asked_application])
      (use h ix(2) message_served in simp)
qed

end
