(* ===== verification/Spec2Isabelle.thy ===== *)
theory Spec2Isabelle
  imports Event_Store Artifacts Memory_Governance Retrieval Context Run Broker Mcp_Sessions
    Chat_Interrupted Chat_Races Grant_Log Decision_Runs Proposal_Samples Provider_Identity Openai_Provider Obsidian_Vault
    Memory_Route_Samples Workspace_Samples Workspace_Routes Evaluation_Samples Migrations
    Service_Status Claims Application_Samples
begin

text \<open>
  Oscillink Agent keeps the memory of a long-running agent under human governance.  Everything
  that happens is an event of an append-only ledger; large values are content-addressed
  artifacts; the memory repository holds records whose authority is decided by reviews; an
  agent reads approved records through retrieval and the context compiler, and acts through
  one-use capability grants.  This development models those components as they are written
  under \<open>src/oscillink_agent\<close>, each in a theory of its own, and proves what makes them correct.

  \<^bold>\<open>Shared theories.\<close>  \<open>Prelude\<close> has results with an error alternative (an exception of the
  source is an \<open>Inl\<close>), ladders of checks and list facts; \<open>Text\<close> the character classes and the
  string functions of Python the code uses (\<open>split\<close>, \<open>casefold\<close>, patterns of identities);
  \<open>Tokens\<close> the Crockford identities derived from digests; \<open>Utf8\<close> the strict codec; \<open>Samples\<close> the
  concrete values at which the properties are applied.  SHA-256 is a parameter of type
  \<open>hash_fn\<close>, and the JSON encoding and parsing of pydantic and RFC 8785 form the record \<open>codec\<close>;
  \<open>hash_ok\<close> and \<open>codec_ok\<close> state what is used of them: digests have 32 bytes, and parsing inverts
  encoding on valid events.

  \<^bold>\<open>Components.\<close>
  \<^item> \<open>Events\<close> (\<open>domain/events.py\<close>): JSON values, the bounded payload freeze, actors, model
    identities, and the validators of an event in their order.
  \<^item> \<open>Event_Store\<close> (\<open>storage/sqlite.py\<close>, \<open>001_events.sql\<close>): the ledger as its rows; \<open>append_many\<close> is a
    transaction.  It refines an abstract append-only log, from which append-only growth,
    permanence and idempotence follow; the locale \<open>event_store\<close> is the contract its clients use.
  \<^item> \<open>Artifacts\<close> (\<open>storage/artifacts.py\<close>): a file tree with links; \<open>put\<close> runs against a concurrent
    writer given as a function applied between its file operations.
  \<^item> \<open>Memory_Records\<close>, \<open>Memory_Repository\<close>, \<open>Memory_Sync\<close>, \<open>Memory_Governance\<close> (\<open>memory/repository.py\<close>):
    the five tables in row order, create, review and synchronize as functions of the whole
    database and the number of random draws; the invariant \<open>memory_ok\<close>, the authority state
    machine \<open>authority_step\<close>, and the reachable databases.
  \<^item> \<open>Retrieval\<close> and \<open>Context\<close> (\<open>retrieval/service.py\<close>, \<open>context/compiler.py\<close>, \<open>domain/context.py\<close>):
    scoring, ranking and the greedy selection under a token budget with its manifest.
  \<^item> \<open>Run\<close> (\<open>agent_runtime/contracts.py\<close>): the reconstruction of a run from its events, and its
    state machine \<open>run_path\<close>.
  \<^item> \<open>Capabilities\<close> and \<open>Broker\<close> (\<open>domain/capabilities.py\<close>, \<open>capabilities/broker.py\<close>): grants, their
    registration against an approval event, the one-use claim, and the bounded file read; the
    file system is what its calls return, a \<open>file_probe\<close>.
  \<^item> \<open>Mcp_Contracts\<close>, \<open>Mcp\<close>, \<open>Mcp_Sessions\<close> (\<open>integrations/mcp\<close>): requests parsed from JSON arguments,
    the four tools, the handler that turns exceptions into typed failures, and sessions of
    calls under the contract \<open>replayable_service\<close>.
  \<^item> \<open>Chat_Contracts\<close>, \<open>Chat\<close> (\<open>chat/\<close>, \<open>agent_runtime/service.py\<close>, \<open>agent_runtime/repository.py\<close>): a
    governed turn in its stages, prepare, dispatch and finish, over a state of ledger, artifacts
    and the calls made to the provider.  \<open>Chat_Races\<close> splits a turn into its accesses (a turn
    that nothing interleaves with is \<open>create_chat_message\<close>), lets any number of turns advance in any
    order or die, and bounds the calls made for one request; \<open>Chat_Once\<close> is the case of turns
    one after the other, with crashes and other writers between them.  \<open>Chat_Replay\<close> and
    \<open>Chat_Interrupted\<close> have what a repetition of the request is answered.
  \<^item> \<open>Provider_Identity\<close>, \<open>Openai_Provider\<close> (\<open>providers/\<close>): the fake provider, the adapter of a chat
    completions endpoint with the endpoint as a parameter, and the choice between them.
  \<^item> \<open>Actions\<close>, \<open>Decision\<close>, \<open>Decision_Safety\<close>, \<open>Decision_Replay\<close>, \<open>Decision_Runs\<close>
    (\<open>capabilities/service.py\<close>, \<open>capabilities/routes.py\<close>): a human decision on a pending tool
    request, the file read under the broker and the continuation of the chat.  The statements
    are actions on a desk, each classified by what it may read, call and append.  A desk logs
    the broker's claims, of which each read makes one first; \<open>Grant_Log\<close> shows that every grant
    consumed in the table is one of a decision in that log.
  \<^item> \<open>Imports\<close>, \<open>Import_Safety\<close>, \<open>Import_Replay\<close> (\<open>artifact_imports/\<close>, \<open>domain/imports.py\<close>,
    \<open>storage/imports.py\<close>): scopes, the walk to a selected file without following links, its bounded
    read, and the outcome recorded under the key of the request.
  \<^item> \<open>Proposals\<close>, \<open>Proposal_Safety\<close> (\<open>proposals/\<close>): proposals projected from associations, and one
    final decision each.
  \<^item> \<open>Frontmatter\<close>, \<open>Frontmatter_Roundtrip\<close>, \<open>Obsidian\<close>, \<open>Obsidian_Index\<close>, \<open>Obsidian_Vault\<close>
    (\<open>memory/obsidian.py\<close>): the parser of notes, the index of a vault and its synchronization.
    Text is a list of characters below 256: what the code decodes beyond Latin-1 is read as the
    substitute character, and \<open>casefold\<close> folds Latin-1 with the exception of the micro sign,
    whose image lies beyond.
  \<^item> \<open>Memory_Projection\<close>, \<open>Memory_Routes\<close>, \<open>Memory_Route_Safety\<close> (\<open>memory/projection.py\<close>,
    \<open>memory/routes.py\<close>, \<open>memory/contracts.py\<close>, \<open>memory/service.py\<close>): what HTTP shows of memory and
    the authenticated writes.  \<open>Memory_Contents\<close> ties the content hash of every reachable record to
    the bytes that were stored under it.
  \<^item> \<open>Workspace_Auth\<close>, \<open>Workspace_Export\<close>, \<open>Workspace_Restore\<close>, \<open>Workspace_Routes\<close> (\<open>workspaces/\<close>): the
    credential, export and restore with every file operation one that may fail.
  \<^item> \<open>Evaluation_Contracts\<close>, \<open>Evaluation\<close>, \<open>Evaluation_Report\<close> (\<open>evaluation/\<close>): suites, contexts under a
    budget, the executor, its scores, and what the report says.
  \<^item> \<open>Migrations\<close> (\<open>storage/migrations/__init__.py\<close>): schema versions, the backup and rollback, with
    what other connections write at the moments at which the migration holds no lock.
  \<^item> \<open>Service_Status\<close> (\<open>status/\<close>, \<open>health/\<close>): the readiness report.
  \<^item> \<open>Claims\<close> (\<open>domain/memory.py\<close>, \<open>domain/benchmarks.py\<close>): reviewed claims and benchmark runs.
  \<^item> \<open>Application\<close>, \<open>Application_Safety\<close>, \<open>Application_Calls\<close> (\<open>api.py\<close>): the routes above composed over
    one data directory and one credential, and arbitrary sequences of calls.  The routes that read
    memory ask for no credential, as in the source.

  The theories whose names end in \<open>_Samples\<close> hold the inputs at which the properties are applied.

  \<^bold>\<open>Recursion and bounds.\<close>  Loops over data are structural recursions or functions with a
  measure.  The frontmatter parser advances an index and is a \<open>partial_function\<close>; that it returns
  on every text is proved (\<open>parse_frontmatter_returns\<close>), so no fuel is used anywhere.  The bounds of
  the source (the bytes a file read may return, the nesting of payloads, the lengths of fields)
  are the numbers of the source.

  \<^bold>\<open>Not modelled.\<close>  In \<open>domain/events.py\<close> the snapshots that make a pydantic model immutable after
  construction: values are immutable here.  In \<open>api.py\<close> the reading of the environment, the CORS
  and trusted-host middleware, the static files and the HTTP server itself: they are
  configuration of frameworks.  \<open>chat/runtime.py\<close> only re-exports names, \<open>integrations/mcp/cli.py\<close>
  starts the server, and the scripts under \<open>scripts\<close> drive the program from outside.  SQLite,
  the file system, SHA-256, JSON and the model endpoint are parameters or are modelled by
  what the source observes of them.

  \<^bold>\<open>Concurrency.\<close>  Chat turns interleave at each of their accesses (\<open>Chat_Races\<close>); a publication of an
  artifact has another writer between its file operations; a proposal decision has another
  writer between what it reads and what it appends; a migration has other connections at its
  unlocked moments.  Everywhere else an operation is one step: a decision on a file read, an
  import, a call of the memory repository, which holds a lock, and a call of \<open>Application\<close> run to
  their end, and other processes append, crash and replace files between these steps.
\<close>

end
